(* ===== verification/Prelude.thy ===== *)
theory Prelude
  imports Main "HOL-Library.Word"
begin

text \<open>
  Shared vocabulary of the development: the machine integers of the Rust sources, results with
  the two ways a Rust function can fail (an \<open>Err\<close> value or a panic), byte slices, the
  fixed-width byte encodings behind \<open>to_le_bytes\<close>, \<open>to_be_bytes\<close> and their
  inverses, \<open>slice::chunks\<close>, and the two generic interfaces the components are stated
  against: fixed-width codecs and transition systems with an invariant.
\<close>

unbundle bit_operations_syntax

named_theorems codec_simps "length and round-trip facts of the byte encodings"
named_theorems slice_simps "facts on slices and in-place writes"
named_theorems res_simps "unfolding of the result combinators"

section \<open>Machine integers and results\<close>

type_synonym u8 = "8 word"
type_synonym u16 = "16 word"
type_synonym u32 = "32 word"
type_synonym u64 = "64 word"
type_synonym bytes = "u8 list"

text \<open>
  \<open>Err\<close> is the unit error of \<open>Result<_, ()>\<close>; \<open>Panic\<close> is an index out of range,
  an arithmetic trap, a failed \<open>assert!\<close> or an \<open>unreachable!\<close>.
\<close>

datatype failure = Err | Panic

type_synonym 'a res = "failure + 'a"

definition rbind :: "'a res \<Rightarrow> ('a \<Rightarrow> 'b res) \<Rightarrow> 'b res" where
  "rbind m f = (case m of Inl e \<Rightarrow> Inl e | Inr x \<Rightarrow> f x)"

definition ok_or :: "'a option \<Rightarrow> 'a res" where
  "ok_or m = (case m of None \<Rightarrow> Inl Err | Some x \<Rightarrow> Inr x)"

definition guard :: "bool \<Rightarrow> failure \<Rightarrow> unit res" where
  "guard b e = (if b then Inr () else Inl e)"

lemma rbind_simps [simp, res_simps]:
  "rbind (Inl e) f = Inl e"
  "rbind (Inr x) f = f x"
  by (simp_all add: rbind_def)

lemma ok_or_simps [simp, res_simps]:
  "ok_or None = Inl Err"
  "ok_or (Some x) = Inr x"
  by (simp_all add: ok_or_def)

lemma guard_simps [simp, res_simps]:
  "guard True e = Inr ()"
  "guard False e = Inl e"
  by (simp_all add: guard_def)

lemma rbind_eq_Inr: "rbind m f = Inr y \<longleftrightarrow> (\<exists>x. m = Inr x \<and> f x = Inr y)"
  by (cases m) auto

lemma rbind_eq_Inl: "rbind m f = Inl e \<longleftrightarrow> m = Inl e \<or> (\<exists>x. m = Inr x \<and> f x = Inl e)"
  by (cases m) auto

lemma ok_or_eq_Inr [simp]: "ok_or m = Inr x \<longleftrightarrow> m = Some x"
  by (cases m) auto

lemma ok_or_not_Panic [simp]: "ok_or m \<noteq> Inl Panic"
  by (cases m) auto

lemma guard_eq_Inr [simp]: "guard b e = Inr x \<longleftrightarrow> b"
  by (cases b) auto

lemma guard_eq_Inl [simp]: "guard b e = Inl e' \<longleftrightarrow> \<not> b \<and> e = e'"
  by (cases b) auto

section \<open>Slices and in-place writes\<close>

text \<open>\<open>slice a b xs\<close> is \<open>xs[a..b]\<close>; \<open>put_at i src dst\<close> is
  \<open>dst[i..i + src.len()].copy_from_slice(src)\<close>, both where they do not panic.\<close>

definition slice :: "nat \<Rightarrow> nat \<Rightarrow> 'a list \<Rightarrow> 'a list" where
  "slice a b xs = take (b - a) (drop a xs)"

definition put_at :: "nat \<Rightarrow> 'a list \<Rightarrow> 'a list \<Rightarrow> 'a list" where
  "put_at i src dst = take i dst @ src @ drop (i + length src) dst"

lemma length_slice [slice_simps]: "b \<le> length xs \<Longrightarrow> length (slice a b xs) = b - a"
  by (simp add: slice_def)

lemma length_put_at [slice_simps]:
  "i + length src \<le> length dst \<Longrightarrow> length (put_at i src dst) = length dst"
  by (simp add: put_at_def)

lemma slice_put_at_same [slice_simps]:
  "i + length src \<le> length dst \<Longrightarrow> slice i (i + length src) (put_at i src dst) = src"
  by (simp add: slice_def put_at_def)

lemma slice_put_at_before [slice_simps]:
  "b \<le> i \<Longrightarrow> i + length src \<le> length dst \<Longrightarrow> slice a b (put_at i src dst) = slice a b dst"
  by (cases "a \<le> b") (auto simp: slice_def put_at_def take_drop)

lemma slice_put_at_after [slice_simps]:
  assumes "i + length src \<le> a" and "i + length src \<le> length dst"
  shows "slice a b (put_at i src dst) = slice a b dst"
proof -
  have "drop a (put_at i src dst) = drop (a - (i + length src)) (drop (i + length src) dst)"
    using assms by (simp add: put_at_def)
  with assms show ?thesis by (simp add: slice_def)
qed

lemma slice_all [simp]: "slice 0 (length xs) xs = xs"
  by (simp add: slice_def)

lemma nth_slice: "i < b - a \<Longrightarrow> b \<le> length xs \<Longrightarrow> slice a b xs ! i = xs ! (a + i)"
  by (simp add: slice_def)

lemma slice_append_middle:
  "slice (length xs) (length xs + length ys) (xs @ ys @ zs) = ys"
  by (simp add: slice_def)

lemma nth_put_at:
  assumes "i + length src \<le> length dst" and "k < length dst"
  shows "put_at i src dst ! k =
    (if k < i then dst ! k else if k < i + length src then src ! (k - i) else dst ! k)"
  using assms by (auto simp: put_at_def nth_append min_def)

section \<open>Fixed-width integers as bytes\<close>

fun nat_to_le :: "nat \<Rightarrow> nat \<Rightarrow> bytes" where
  "nat_to_le 0 x = []"
| "nat_to_le (Suc n) x = word_of_nat x # nat_to_le n (x div 256)"

fun le_to_nat :: "bytes \<Rightarrow> nat" where
  "le_to_nat [] = 0"
| "le_to_nat (b # bs) = unat b + 256 * le_to_nat bs"

definition to_le16 :: "u16 \<Rightarrow> bytes" where "to_le16 w = nat_to_le 2 (unat w)"
definition to_le32 :: "u32 \<Rightarrow> bytes" where "to_le32 w = nat_to_le 4 (unat w)"
definition to_le64 :: "u64 \<Rightarrow> bytes" where "to_le64 w = nat_to_le 8 (unat w)"
definition to_be16 :: "u16 \<Rightarrow> bytes" where "to_be16 w = rev (to_le16 w)"
definition to_be32 :: "u32 \<Rightarrow> bytes" where "to_be32 w = rev (to_le32 w)"
definition from_le16 :: "bytes \<Rightarrow> u16" where "from_le16 bs = word_of_nat (le_to_nat bs)"
definition from_le32 :: "bytes \<Rightarrow> u32" where "from_le32 bs = word_of_nat (le_to_nat bs)"
definition from_le64 :: "bytes \<Rightarrow> u64" where "from_le64 bs = word_of_nat (le_to_nat bs)"
definition from_be16 :: "bytes \<Rightarrow> u16" where "from_be16 bs = from_le16 (rev bs)"
definition from_be32 :: "bytes \<Rightarrow> u32" where "from_be32 bs = from_le32 (rev bs)"

lemmas le_codec_defs = to_le16_def to_le32_def to_le64_def from_le16_def from_le32_def from_le64_def
lemmas be_codec_defs = to_be16_def to_be32_def from_be16_def from_be32_def

lemma length_nat_to_le [simp]: "length (nat_to_le n x) = n"
  by (induction n arbitrary: x) auto

lemma le_to_nat_nat_to_le: "le_to_nat (nat_to_le n x) = x mod 256 ^ n"
proof (induction n arbitrary: x)
  case 0
  then show ?case by simp
next
  case (Suc n)
  have "x mod (256 * 256 ^ n) = x mod 256 + 256 * (x div 256 mod 256 ^ n)"
    by (simp add: mod_mult2_eq)
  with Suc show ?case by (simp add: unat_of_nat)
qed

lemma unat_u8_less: "unat (b :: u8) < 256"
  using unsigned_less [of b, where 'a = nat] by simp

lemma le_to_nat_bound: "le_to_nat bs < 256 ^ length bs"
proof (induction bs)
  case Nil
  then show ?case by simp
next
  case (Cons b bs)
  have "unat b + 256 * le_to_nat bs < 256 * (le_to_nat bs + 1)"
    using unat_u8_less [of b] by (simp add: algebra_simps)
  also have "\<dots> \<le> 256 * 256 ^ length bs"
    using Cons by (intro mult_le_mono2) simp
  finally show ?case by simp
qed

lemma nat_to_le_le_to_nat: "nat_to_le (length bs) (le_to_nat bs) = bs"
proof (induction bs)
  case Nil
  then show ?case by simp
next
  case (Cons b bs)
  have b: "unat b < 256" by (rule unat_u8_less)
  have "word_of_nat (256 * le_to_nat bs) = (0 :: u8)"
    by (subst word_of_nat_eq_0_iff) simp
  then have "word_of_nat (unat b + 256 * le_to_nat bs) = b"
    by simp
  with Cons b show ?case by simp
qed

text \<open>
  The contract of a fixed-width encoding: every value has \<open>width\<close> bytes and decoding
  inverts encoding in both directions. The facts proved here are what the message builders and
  parsers use.
\<close>

locale byte_codec =
  fixes enc :: "'v \<Rightarrow> bytes"
    and dec :: "bytes \<Rightarrow> 'v"
    and width :: nat
  assumes length_enc: "length (enc v) = width"
    and dec_enc: "dec (enc v) = v"
    and enc_dec: "length bs = width \<Longrightarrow> enc (dec bs) = bs"
begin

lemma enc_inject: "enc v = enc w \<longleftrightarrow> v = w"
  by (metis dec_enc)

lemma dec_take: "dec (take width (enc v @ rest)) = v"
  by (simp add: length_enc dec_enc)

lemma dec_slice_put_at:
  "i + width \<le> length dst \<Longrightarrow> dec (slice i (i + width) (put_at i (enc v) dst)) = v"
  using slice_put_at_same [of i "enc v" dst] by (simp add: length_enc dec_enc)

lemma dec_slice_append: "length xs = i \<Longrightarrow> dec (slice i (i + width) (xs @ enc v @ ys)) = v"
  using slice_append_middle [of xs "enc v" ys] by (simp add: length_enc dec_enc)

end

interpretation le16: byte_codec to_le16 from_le16 2
proof unfold_locales
  fix v :: u16 and bs :: bytes
  show "length (to_le16 v) = 2" by (simp add: to_le16_def)
  show "from_le16 (to_le16 v) = v"
    using unsigned_less [of v, where 'a = nat] by (simp add: le_codec_defs le_to_nat_nat_to_le)
  assume "length bs = 2"
  then show "to_le16 (from_le16 bs) = bs"
    using le_to_nat_bound [of bs] nat_to_le_le_to_nat [of bs] by (simp add: le_codec_defs unat_of_nat)
qed

interpretation le32: byte_codec to_le32 from_le32 4
proof unfold_locales
  fix v :: u32 and bs :: bytes
  show "length (to_le32 v) = 4" by (simp add: to_le32_def)
  show "from_le32 (to_le32 v) = v"
    using unsigned_less [of v, where 'a = nat] by (simp add: le_codec_defs le_to_nat_nat_to_le)
  assume "length bs = 4"
  then show "to_le32 (from_le32 bs) = bs"
    using le_to_nat_bound [of bs] nat_to_le_le_to_nat [of bs] by (simp add: le_codec_defs unat_of_nat)
qed

interpretation le64: byte_codec to_le64 from_le64 8
proof unfold_locales
  fix v :: u64 and bs :: bytes
  show "length (to_le64 v) = 8" by (simp add: to_le64_def)
  show "from_le64 (to_le64 v) = v"
    using unsigned_less [of v, where 'a = nat] by (simp add: le_codec_defs le_to_nat_nat_to_le)
  assume "length bs = 8"
  then show "to_le64 (from_le64 bs) = bs"
    using le_to_nat_bound [of bs] nat_to_le_le_to_nat [of bs] by (simp add: le_codec_defs unat_of_nat)
qed

interpretation be16: byte_codec to_be16 from_be16 2
  by unfold_locales (simp_all add: be_codec_defs le16.length_enc le16.dec_enc le16.enc_dec)

interpretation be32: byte_codec to_be32 from_be32 4
  by unfold_locales (simp_all add: be_codec_defs le32.length_enc le32.dec_enc le32.enc_dec)

lemmas codec_lengths [simp, codec_simps] =
  le16.length_enc le32.length_enc le64.length_enc be16.length_enc be32.length_enc

lemmas codec_round_trips [simp, codec_simps] =
  le16.dec_enc le32.dec_enc le64.dec_enc be16.dec_enc be32.dec_enc

section \<open>Chunks\<close>

text \<open>\<open>slice::chunks(n)\<close>: consecutive pieces of \<open>n\<close> elements, the last one shorter
  when the length is no multiple of \<open>n\<close>; \<open>n = 0\<close> panics in Rust and never reaches
  this function.\<close>

function chunks :: "nat \<Rightarrow> 'a list \<Rightarrow> 'a list list" where
  "chunks n xs = (if n = 0 \<or> xs = [] then [] else take n xs # chunks n (drop n xs))"
  by pat_completeness auto
termination
  by (relation "measure (\<lambda>(n, xs). length xs)") auto

declare chunks.simps [simp del]

lemma chunks_Nil [simp]: "chunks n [] = []"
  by (simp add: chunks.simps)

lemma chunks_step: "0 < n \<Longrightarrow> xs \<noteq> [] \<Longrightarrow> chunks n xs = take n xs # chunks n (drop n xs)"
  by (subst chunks.simps) simp

lemma concat_chunks: "0 < n \<Longrightarrow> concat (chunks n xs) = xs"
  by (induction n xs rule: chunks.induct) (subst chunks.simps, simp)

lemma chunks_bounds: "c \<in> set (chunks n xs) \<Longrightarrow> 0 < length c \<and> length c \<le> n"
proof (induction n xs rule: chunks.induct)
  case (1 n xs)
  show ?case
  proof (cases "n = 0 \<or> xs = []")
    case True
    with "1.prems" show ?thesis by (simp add: chunks.simps)
  next
    case False
    with "1.prems" have "c = take n xs \<or> c \<in> set (chunks n (drop n xs))"
      by (simp add: chunks_step)
    with False "1.IH" show ?thesis by auto
  qed
qed

lemma chunks_dvd: "k dvd n \<Longrightarrow> k dvd length xs \<Longrightarrow> c \<in> set (chunks n xs) \<Longrightarrow> k dvd length c"
proof (induction n xs rule: chunks.induct)
  case (1 n xs)
  show ?case
  proof (cases "n = 0 \<or> xs = []")
    case True
    with "1.prems" show ?thesis by (simp add: chunks.simps)
  next
    case False
    with "1.prems" have "c = take n xs \<or> c \<in> set (chunks n (drop n xs))"
      by (simp add: chunks_step)
    moreover have "k dvd length (drop n xs)"
      using "1.prems" by (cases "n \<le> length xs") (auto intro: dvd_diff_nat)
    moreover have "k dvd length (take n xs)"
      using "1.prems" by (simp add: min_def)
    ultimately show ?thesis using False "1.IH" "1.prems"(1) by blast
  qed
qed

lemma chunks_exact_append:
  "0 < n \<Longrightarrow> length xs = n \<Longrightarrow> chunks n (xs @ ys) = xs # chunks n ys"
  by (subst chunks.simps) auto

lemma chunks_concat:
  "0 < n \<Longrightarrow> \<forall>x \<in> set xss. length x = n \<Longrightarrow> chunks n (concat xss) = xss"
  by (induction xss) (auto simp: chunks_exact_append)

section \<open>Transition systems with an invariant\<close>

text \<open>
  What every stateful component promises: the invariant holds initially and each step keeps it.
  It then holds in every state a run can reach.
\<close>

locale transition_system =
  fixes init :: "'s \<Rightarrow> bool"
    and step :: "'s \<Rightarrow> 's \<Rightarrow> bool"
    and inv :: "'s \<Rightarrow> bool"
  assumes init_inv: "init s \<Longrightarrow> inv s"
    and step_inv: "step s t \<Longrightarrow> inv s \<Longrightarrow> inv t"
begin

lemma steps_inv: "step\<^sup>*\<^sup>* s t \<Longrightarrow> inv s \<Longrightarrow> inv t"
  by (induction rule: rtranclp_induct) (auto intro: step_inv)

lemma reachable_inv: "init s \<Longrightarrow> step\<^sup>*\<^sup>* s t \<Longrightarrow> inv t"
  by (blast intro: init_inv steps_inv)

end

end
