(* ===== verification/Shard_Batch.thy ===== *)
theory Shard_Batch
  imports Prelude
begin

text \<open>
  \<open>session/stream/video/shard_batch.rs\<close>: the contiguous batch of equal-sized network shards
  and the buffer in which a FEC block is assembled. A mutable borrow of one shard is a read of
  its region followed by a write-back. The buffer refines a plain list of slots, each a
  (prefix, data) pair; the slot interface is the locale the packetizer's loops are proved in.
\<close>

section \<open>ShardBatch\<close>

record shard_batch =
  batch_data :: bytes
  batch_shard_size :: nat

definition batch_empty :: shard_batch where
  "batch_empty = \<lparr>batch_data = [], batch_shard_size = 0\<rparr>"

definition as_bytes :: "shard_batch \<Rightarrow> bytes" where
  "as_bytes b = batch_data b"

definition batch_shard_count :: "shard_batch \<Rightarrow> nat" where
  "batch_shard_count b =
     (if batch_shard_size b = 0 then 0 else length (batch_data b) div batch_shard_size b)"

text \<open>The \<open>debug_assert!\<close> on equal shard sizes is compiled out of release builds.\<close>

definition extend_from :: "shard_batch \<Rightarrow> shard_batch \<Rightarrow> shard_batch" where
  "extend_from b other =
     b\<lparr>batch_shard_size :=
          (if batch_shard_size b = 0 then batch_shard_size other else batch_shard_size b),
       batch_data := batch_data b @ batch_data other\<rparr>"

text \<open>The individual shards of a batch, as \<open>chunks_exact\<close> would produce them.\<close>

definition batch_shards :: "shard_batch \<Rightarrow> bytes list" where
  "batch_shards b = chunks (batch_shard_size b) (batch_data b)"

section \<open>ShardBuf\<close>

record shard_buf =
  buf_data :: bytes
  buf_stride :: nat
  buf_prefix_size :: nat
  buf_data_size :: nat
  buf_shard_count :: nat

definition shard_buf_new :: "nat \<Rightarrow> nat \<Rightarrow> nat \<Rightarrow> shard_buf" where
  "shard_buf_new count dsize psize =
     \<lparr>buf_data = replicate (count * (psize + dsize)) 0, buf_stride = psize + dsize,
      buf_prefix_size = psize, buf_data_size = dsize, buf_shard_count = count\<rparr>"

text \<open>\<open>shard_mut\<close> and \<open>prefix_mut\<close> return a mutable region; reading it and writing it back
  are the two halves. Both index inside the buffer for every \<open>i < shard_count\<close>.\<close>

definition shard_mut :: "shard_buf \<Rightarrow> nat \<Rightarrow> bytes" where
  "shard_mut b i =
     (let start = i * buf_stride b + buf_prefix_size b
      in slice start (start + buf_data_size b) (buf_data b))"

definition write_shard :: "shard_buf \<Rightarrow> nat \<Rightarrow> bytes \<Rightarrow> shard_buf" where
  "write_shard b i x =
     b\<lparr>buf_data := put_at (i * buf_stride b + buf_prefix_size b) x (buf_data b)\<rparr>"

definition prefix_mut :: "shard_buf \<Rightarrow> nat \<Rightarrow> bytes" where
  "prefix_mut b i =
     (let start = i * buf_stride b in slice start (start + buf_prefix_size b) (buf_data b))"

definition write_prefix :: "shard_buf \<Rightarrow> nat \<Rightarrow> bytes \<Rightarrow> shard_buf" where
  "write_prefix b i x = b\<lparr>buf_data := put_at (i * buf_stride b) x (buf_data b)\<rparr>"

text \<open>\<open>as_fec_slices\<close> hands the data regions of all shards to the FEC encoder, which writes
  them in place: the views, and the buffer with the views replaced.\<close>

definition as_fec_slices :: "shard_buf \<Rightarrow> bytes list" where
  "as_fec_slices b = map (shard_mut b) [0..<buf_shard_count b]"

fun write_shards_from :: "shard_buf \<Rightarrow> nat \<Rightarrow> bytes list \<Rightarrow> shard_buf" where
  "write_shards_from b i [] = b"
| "write_shards_from b i (x # xs) = write_shards_from (write_shard b i x) (Suc i) xs"

definition write_fec_slices :: "shard_buf \<Rightarrow> bytes list \<Rightarrow> shard_buf" where
  "write_fec_slices b xs = write_shards_from b 0 xs"

definition into_batch :: "shard_buf \<Rightarrow> shard_batch" where
  "into_batch b = \<lparr>batch_data = buf_data b, batch_shard_size = buf_stride b\<rparr>"

text \<open>
  The two shapes of loop the packetizer runs over a buffer: rewriting a run of shards while a
  \<open>u32\<close> sequence number counts up, and sealing a run of shards while a \<open>u64\<close> counter
  counts up, which stops at the first failure with the counter already advanced.
\<close>

fun update_loop :: "('b \<Rightarrow> nat \<Rightarrow> bytes) \<Rightarrow> ('b \<Rightarrow> nat \<Rightarrow> bytes \<Rightarrow> 'b) \<Rightarrow>
    (u32 \<Rightarrow> nat \<Rightarrow> bytes \<Rightarrow> bytes) \<Rightarrow> nat list \<Rightarrow> u32 \<Rightarrow> 'b \<Rightarrow> u32 \<times> 'b" where
  "update_loop get put f [] seq b = (seq, b)"
| "update_loop get put f (i # is) seq b =
     update_loop get put f is (seq + 1) (put b i (f seq i (get b i)))"

fun seal_loop :: "('b \<Rightarrow> nat \<Rightarrow> bytes) \<Rightarrow> ('b \<Rightarrow> nat \<Rightarrow> bytes \<Rightarrow> 'b) \<Rightarrow> ('b \<Rightarrow> nat \<Rightarrow> bytes \<Rightarrow> 'b) \<Rightarrow>
    (u64 \<Rightarrow> bytes \<Rightarrow> (bytes \<times> bytes) option) \<Rightarrow> nat list \<Rightarrow> u64 \<Rightarrow> 'b \<Rightarrow> u64 \<times> 'b option" where
  "seal_loop get put putp seal [] c b = (c, Some b)"
| "seal_loop get put putp seal (i # is) c b =
     (case seal c (get b i) of
        None \<Rightarrow> (c + 1, None)
      | Some (ct, pre) \<Rightarrow> seal_loop get put putp seal is (c + 1) (putp (put b i ct) i pre))"

section \<open>The slot view\<close>

definition wf_buf :: "shard_buf \<Rightarrow> bool" where
  "wf_buf b \<longleftrightarrow> buf_stride b = buf_prefix_size b + buf_data_size b \<and>
     length (buf_data b) = buf_shard_count b * buf_stride b"

definition buf_slots :: "shard_buf \<Rightarrow> (bytes \<times> bytes) list" where
  "buf_slots b = map (\<lambda>i. (prefix_mut b i, shard_mut b i)) [0..<buf_shard_count b]"

text \<open>
  The interface: a store of slots with reads and writes of each half. \<open>dims\<close> is the fixed
  (prefix size, data size, count) of a store.
\<close>

locale slot_store =
  fixes inv :: "'b \<Rightarrow> bool"
    and dims :: "'b \<Rightarrow> nat \<times> nat \<times> nat"
    and slots :: "'b \<Rightarrow> (bytes \<times> bytes) list"
    and get_data :: "'b \<Rightarrow> nat \<Rightarrow> bytes"
    and put_data :: "'b \<Rightarrow> nat \<Rightarrow> bytes \<Rightarrow> 'b"
    and put_prefix :: "'b \<Rightarrow> nat \<Rightarrow> bytes \<Rightarrow> 'b"
  assumes length_slots: "length (slots b) = snd (snd (dims b))"
    and get_data_slots: "i < length (slots b) \<Longrightarrow> get_data b i = snd (slots b ! i)"
    and data_size: "inv b \<Longrightarrow> i < length (slots b) \<Longrightarrow> length (snd (slots b ! i)) = fst (snd (dims b))"
    and inv_put_data: "inv b \<Longrightarrow> i < length (slots b) \<Longrightarrow> length x = fst (snd (dims b)) \<Longrightarrow>
      inv (put_data b i x)"
    and dims_put_data: "dims (put_data b i x) = dims b"
    and slots_put_data: "inv b \<Longrightarrow> i < length (slots b) \<Longrightarrow> length x = fst (snd (dims b)) \<Longrightarrow>
      slots (put_data b i x) = (slots b)[i := (fst (slots b ! i), x)]"
    and inv_put_prefix: "inv b \<Longrightarrow> i < length (slots b) \<Longrightarrow> length x = fst (dims b) \<Longrightarrow>
      inv (put_prefix b i x)"
    and dims_put_prefix: "dims (put_prefix b i x) = dims b"
    and slots_put_prefix: "inv b \<Longrightarrow> i < length (slots b) \<Longrightarrow> length x = fst (dims b) \<Longrightarrow>
      slots (put_prefix b i x) = (slots b)[i := (x, snd (slots b ! i))]"

begin

lemma update_loop_upt:
  assumes "inv b" and "m + n \<le> length (slots b)"
    and f: "\<And>q i x. m \<le> i \<Longrightarrow> i < m + n \<Longrightarrow> length x = fst (snd (dims b)) \<Longrightarrow>
      length (f q i x) = fst (snd (dims b))"
  shows "\<exists>b'. update_loop get_data put_data f [m..<m + n] seq b = (seq + of_nat n, b') \<and>
    inv b' \<and> dims b' = dims b \<and> length (slots b') = length (slots b) \<and>
    (\<forall>j < length (slots b). slots b' ! j =
       (if m \<le> j \<and> j < m + n
        then (fst (slots b ! j), f (seq + of_nat (j - m)) j (snd (slots b ! j)))
        else slots b ! j))"
  using assms
proof (induction n arbitrary: m seq b)
  case 0
  then show ?case by auto
next
  case (Suc n)
  define b1 where "b1 = put_data b m (f seq m (get_data b m))"
  have m: "m < length (slots b)" using Suc.prems(2) by simp
  have len: "length (f seq m (get_data b m)) = fst (snd (dims b))"
    using Suc.prems m by (simp add: get_data_slots data_size)
  have b1: "inv b1" "dims b1 = dims b"
    "slots b1 = (slots b)[m := (fst (slots b ! m), f seq m (get_data b m))]"
    using Suc.prems(1) m len by (simp_all add: b1_def inv_put_data dims_put_data slots_put_data)
  obtain b' where b': "update_loop get_data put_data f [Suc m..<Suc m + n] (seq + 1) b1 =
      (seq + 1 + of_nat n, b')" "inv b'" "dims b' = dims b1" "length (slots b') = length (slots b1)"
    "\<forall>j < length (slots b1). slots b' ! j =
       (if Suc m \<le> j \<and> j < Suc m + n
        then (fst (slots b1 ! j), f (seq + 1 + of_nat (j - Suc m)) j (snd (slots b1 ! j)))
        else slots b1 ! j)"
    using Suc.IH [of b1 "Suc m" "seq + 1"] Suc.prems b1 by (auto simp: b1)
  have run: "update_loop get_data put_data f [m..<m + Suc n] seq b = (seq + of_nat (Suc n), b')"
    using b'(1) by (simp add: upt_conv_Cons b1_def add.commute add.left_commute del: upt_Suc)
  have idx: "seq + 1 + word_of_nat (j - Suc m) = seq + word_of_nat (j - m)" if "Suc m \<le> j" for j
  proof -
    from that have "j - m = Suc (j - Suc m)" by simp
    then show ?thesis by simp
  qed
  have "slots b' ! j =
       (if m \<le> j \<and> j < m + Suc n
        then (fst (slots b ! j), f (seq + of_nat (j - m)) j (snd (slots b ! j)))
        else slots b ! j)" if "j < length (slots b)" for j
    using b'(5) that m idx [of j] by (cases "j = m") (auto simp: b1 get_data_slots)
  then show ?case using run b' b1 by auto
qed

lemma seal_loop_upt:
  assumes "inv b" and "m + n \<le> length (slots b)"
    and run: "seal_loop get_data put_data put_prefix seal [m..<m + n] c b = (c', Some b')"
    and sealed: "\<And>q x ct pre. length x = fst (snd (dims b)) \<Longrightarrow> seal q x = Some (ct, pre) \<Longrightarrow>
      length ct = fst (snd (dims b)) \<and> length pre = fst (dims b)"
  shows "c' = c + of_nat n \<and> inv b' \<and> dims b' = dims b \<and> length (slots b') = length (slots b) \<and>
    (\<forall>j < length (slots b).
       (m \<le> j \<and> j < m + n \<longrightarrow>
          map_option prod.swap (seal (c + of_nat (j - m)) (snd (slots b ! j))) = Some (slots b' ! j)) \<and>
       (\<not> (m \<le> j \<and> j < m + n) \<longrightarrow> slots b' ! j = slots b ! j))"
  using assms
proof (induction n arbitrary: m c b)
  case 0
  then show ?case by auto
next
  case (Suc n)
  have m: "m < length (slots b)" using Suc.prems(2) by simp
  have upt: "[m..<m + Suc n] = m # [Suc m..<Suc m + n]"
    by (simp add: upt_conv_Cons del: upt_Suc)
  from Suc.prems(3) obtain ct pre where s: "seal c (get_data b m) = Some (ct, pre)"
    unfolding upt by (auto split: option.splits)
  define b1 where "b1 = put_prefix (put_data b m ct) m pre"
  have rest: "seal_loop get_data put_data put_prefix seal [Suc m..<Suc m + n] (c + 1) b1 = (c', Some b')"
    using Suc.prems(3) s unfolding upt by (simp add: b1_def)
  have len: "length ct = fst (snd (dims b))" "length pre = fst (dims b)"
    using Suc.prems(4) [OF _ s] Suc.prems(1) m by (simp_all add: get_data_slots data_size)
  have b1: "inv b1" "dims b1 = dims b" "slots b1 = (slots b)[m := (pre, ct)]"
    using Suc.prems(1) m len
    by (simp_all add: b1_def inv_put_data dims_put_data slots_put_data inv_put_prefix
        dims_put_prefix slots_put_prefix)
  have IH: "c' = c + 1 + of_nat n \<and> inv b' \<and> dims b' = dims b1 \<and> length (slots b') = length (slots b1) \<and>
    (\<forall>j < length (slots b1).
       (Suc m \<le> j \<and> j < Suc m + n \<longrightarrow>
          map_option prod.swap (seal (c + 1 + of_nat (j - Suc m)) (snd (slots b1 ! j))) = Some (slots b' ! j)) \<and>
       (\<not> (Suc m \<le> j \<and> j < Suc m + n) \<longrightarrow> slots b' ! j = slots b1 ! j))"
  proof (rule Suc.IH [OF b1(1) _ rest])
    show "Suc m + n \<le> length (slots b1)" using Suc.prems(2) b1 by simp
    show "length ct = fst (snd (dims b1)) \<and> length pre = fst (dims b1)"
      if "length x = fst (snd (dims b1))" and "seal q x = Some (ct, pre)" for q x ct pre
      using Suc.prems(4) that unfolding b1(2) by blast
  qed
  have idx: "c + 1 + word_of_nat (j - Suc m) = c + word_of_nat (j - m)" if "Suc m \<le> j" for j
  proof -
    from that have "j - m = Suc (j - Suc m)" by simp
    then show ?thesis by simp
  qed
  show ?case
  proof (intro conjI allI impI)
    show "c' = c + of_nat (Suc n)" using IH by simp
    fix j
    assume j: "j < length (slots b)"
    {
      assume "m \<le> j \<and> j < m + Suc n"
      then show "map_option prod.swap (seal (c + of_nat (j - m)) (snd (slots b ! j))) = Some (slots b' ! j)"
        using IH s m j idx [of j] by (cases "j = m") (auto simp: b1 get_data_slots)
    next
      assume "\<not> (m \<le> j \<and> j < m + Suc n)"
      then show "slots b' ! j = slots b ! j"
        using IH m j by (auto simp: b1)
    }
  qed (use IH b1 in auto)
qed

end

section \<open>The buffer implements the slot interface\<close>

definition buf_dims :: "shard_buf \<Rightarrow> nat \<times> nat \<times> nat" where
  "buf_dims b = (buf_prefix_size b, buf_data_size b, buf_shard_count b)"

lemma length_buf_slots [simp]: "length (buf_slots b) = buf_shard_count b"
  by (simp add: buf_slots_def)

lemma nth_buf_slots: "i < buf_shard_count b \<Longrightarrow> buf_slots b ! i = (prefix_mut b i, shard_mut b i)"
  by (simp add: buf_slots_def)

lemma stride_next: "(i :: nat) < j \<Longrightarrow> i * s + s \<le> j * s"
  using mult_le_mono1 [of "Suc i" j s] by simp

lemma slot_in_range:
  assumes "wf_buf b" and "i < buf_shard_count b"
  shows "i * buf_stride b + buf_prefix_size b + buf_data_size b \<le> length (buf_data b)"
  using assms stride_next [of i "buf_shard_count b" "buf_stride b"] by (auto simp: wf_buf_def)

lemma length_shard_mut:
  "wf_buf b \<Longrightarrow> i < buf_shard_count b \<Longrightarrow> length (shard_mut b i) = buf_data_size b"
  using slot_in_range [of b i] by (simp add: shard_mut_def length_slice Let_def)

lemma length_prefix_mut:
  "wf_buf b \<Longrightarrow> i < buf_shard_count b \<Longrightarrow> length (prefix_mut b i) = buf_prefix_size b"
  using slot_in_range [of b i] by (simp add: prefix_mut_def length_slice Let_def)

lemma write_shard_slot:
  assumes wf: "wf_buf b" and i: "i < buf_shard_count b" and x: "length x = buf_data_size b"
    and j: "j < buf_shard_count b"
  shows "prefix_mut (write_shard b i x) j = prefix_mut b j"
    and "shard_mut (write_shard b i x) j = (if j = i then x else shard_mut b j)"
proof -
  have st: "buf_stride b = buf_prefix_size b + buf_data_size b" using wf by (simp add: wf_buf_def)
  note ri = slot_in_range [OF wf i]
  show "prefix_mut (write_shard b i x) j = prefix_mut b j"
  proof (cases j i rule: linorder_cases)
    case less
    then show ?thesis using ri x stride_next [of j i "buf_stride b"] st
      by (simp add: prefix_mut_def write_shard_def slice_put_at_before Let_def)
  next
    case equal
    then show ?thesis using ri x by (simp add: prefix_mut_def write_shard_def slice_put_at_before Let_def)
  next
    case greater
    then show ?thesis using ri x stride_next [of i j "buf_stride b"] st
      by (simp add: prefix_mut_def write_shard_def slice_put_at_after Let_def)
  qed
  show "shard_mut (write_shard b i x) j = (if j = i then x else shard_mut b j)"
  proof (cases j i rule: linorder_cases)
    case less
    then show ?thesis using ri x stride_next [of j i "buf_stride b"] st
      by (simp add: shard_mut_def write_shard_def slice_put_at_before Let_def)
  next
    case equal
    then show ?thesis using ri x slice_put_at_same [of "i * buf_stride b + buf_prefix_size b" x "buf_data b"]
      by (simp add: shard_mut_def write_shard_def Let_def)
  next
    case greater
    then show ?thesis using ri x stride_next [of i j "buf_stride b"] st
      by (simp add: shard_mut_def write_shard_def slice_put_at_after Let_def)
  qed
qed

lemma write_prefix_slot:
  assumes wf: "wf_buf b" and i: "i < buf_shard_count b" and x: "length x = buf_prefix_size b"
    and j: "j < buf_shard_count b"
  shows "prefix_mut (write_prefix b i x) j = (if j = i then x else prefix_mut b j)"
    and "shard_mut (write_prefix b i x) j = shard_mut b j"
proof -
  have st: "buf_stride b = buf_prefix_size b + buf_data_size b" using wf by (simp add: wf_buf_def)
  note ri = slot_in_range [OF wf i]
  show "prefix_mut (write_prefix b i x) j = (if j = i then x else prefix_mut b j)"
  proof (cases j i rule: linorder_cases)
    case less
    then show ?thesis using ri x stride_next [of j i "buf_stride b"] st
      by (simp add: prefix_mut_def write_prefix_def slice_put_at_before Let_def)
  next
    case equal
    then show ?thesis using ri x slice_put_at_same [of "i * buf_stride b" x "buf_data b"]
      by (simp add: prefix_mut_def write_prefix_def Let_def)
  next
    case greater
    then show ?thesis using ri x stride_next [of i j "buf_stride b"] st
      by (simp add: prefix_mut_def write_prefix_def slice_put_at_after Let_def)
  qed
  show "shard_mut (write_prefix b i x) j = shard_mut b j"
  proof (cases j i rule: linorder_cases)
    case less
    then show ?thesis using ri x stride_next [of j i "buf_stride b"] st
      by (simp add: shard_mut_def write_prefix_def slice_put_at_before Let_def)
  next
    case equal
    then show ?thesis using ri x by (simp add: shard_mut_def write_prefix_def slice_put_at_after Let_def)
  next
    case greater
    then show ?thesis using ri x stride_next [of i j "buf_stride b"] st
      by (simp add: shard_mut_def write_prefix_def slice_put_at_after Let_def)
  qed
qed

lemma write_shard_fields [simp]:
  "buf_stride (write_shard b i x) = buf_stride b"
  "buf_prefix_size (write_shard b i x) = buf_prefix_size b"
  "buf_data_size (write_shard b i x) = buf_data_size b"
  "buf_shard_count (write_shard b i x) = buf_shard_count b"
  by (simp_all add: write_shard_def)

lemma write_prefix_fields [simp]:
  "buf_stride (write_prefix b i x) = buf_stride b"
  "buf_prefix_size (write_prefix b i x) = buf_prefix_size b"
  "buf_data_size (write_prefix b i x) = buf_data_size b"
  "buf_shard_count (write_prefix b i x) = buf_shard_count b"
  by (simp_all add: write_prefix_def)

lemma wf_write_shard:
  "wf_buf b \<Longrightarrow> i < buf_shard_count b \<Longrightarrow> length x = buf_data_size b \<Longrightarrow> wf_buf (write_shard b i x)"
  using slot_in_range [of b i] by (simp add: wf_buf_def write_shard_def length_put_at)

lemma wf_write_prefix:
  "wf_buf b \<Longrightarrow> i < buf_shard_count b \<Longrightarrow> length x = buf_prefix_size b \<Longrightarrow> wf_buf (write_prefix b i x)"
  using slot_in_range [of b i] by (simp add: wf_buf_def write_prefix_def length_put_at)

lemma slots_write_shard:
  "wf_buf b \<Longrightarrow> i < buf_shard_count b \<Longrightarrow> length x = buf_data_size b \<Longrightarrow>
    buf_slots (write_shard b i x) = (buf_slots b)[i := (fst (buf_slots b ! i), x)]"
  by (rule nth_equalityI) (auto simp: nth_buf_slots write_shard_slot nth_list_update)

lemma slots_write_prefix:
  "wf_buf b \<Longrightarrow> i < buf_shard_count b \<Longrightarrow> length x = buf_prefix_size b \<Longrightarrow>
    buf_slots (write_prefix b i x) = (buf_slots b)[i := (x, snd (buf_slots b ! i))]"
  by (rule nth_equalityI) (auto simp: nth_buf_slots write_prefix_slot nth_list_update)

interpretation sbuf: slot_store wf_buf buf_dims buf_slots shard_mut write_shard write_prefix
  by unfold_locales
    (simp_all add: buf_dims_def nth_buf_slots length_shard_mut wf_write_shard wf_write_prefix
      slots_write_shard slots_write_prefix)

section \<open>Building and flattening a buffer\<close>

lemma wf_shard_buf_new [simp]: "wf_buf (shard_buf_new n d p)"
  by (simp add: wf_buf_def shard_buf_new_def)

lemma slice_replicate: "b \<le> n \<Longrightarrow> slice a b (replicate n x) = replicate (b - a) x"
  by (simp add: slice_def)

lemma shard_buf_new_fields [simp]:
  "buf_stride (shard_buf_new n d p) = p + d"
  "buf_prefix_size (shard_buf_new n d p) = p"
  "buf_data_size (shard_buf_new n d p) = d"
  "buf_shard_count (shard_buf_new n d p) = n"
  by (simp_all add: shard_buf_new_def)

lemma slots_shard_buf_new:
  assumes "i < n"
  shows "buf_slots (shard_buf_new n d p) ! i = (replicate p 0, replicate d 0)"
proof -
  note r = slot_in_range [OF wf_shard_buf_new [of n d p], of i]
  show ?thesis using assms r
    by (simp add: nth_buf_slots prefix_mut_def shard_mut_def Let_def slice_replicate
        shard_buf_new_def)
qed

text \<open>A well-formed buffer is the concatenation of its slots, so the batch it turns into has one
  chunk per slot: the data region preceded by its prefix.\<close>

lemma wf_buf_data:
  assumes "wf_buf b"
  shows "buf_data b = concat (map (\<lambda>(p, d). p @ d) (buf_slots b))"
proof -
  have st: "buf_stride b = buf_prefix_size b + buf_data_size b"
    and len: "length (buf_data b) = buf_shard_count b * buf_stride b"
    using assms by (simp_all add: wf_buf_def)
  have "take (k * buf_stride b) (buf_data b) =
      concat (map (\<lambda>i. prefix_mut b i @ shard_mut b i) [0..<k])" if "k \<le> buf_shard_count b" for k
    using that
  proof (induction k)
    case 0
    then show ?case by simp
  next
    case (Suc k)
    have "take (Suc k * buf_stride b) (buf_data b) =
        take (k * buf_stride b) (buf_data b) @
        take (buf_stride b) (drop (k * buf_stride b) (buf_data b))"
      using take_add [of "k * buf_stride b" "buf_stride b" "buf_data b"] by (simp add: add.commute)
    also have "take (buf_stride b) (drop (k * buf_stride b) (buf_data b)) =
        prefix_mut b k @ shard_mut b k"
      using take_add [of "buf_prefix_size b" "buf_data_size b" "drop (k * buf_stride b) (buf_data b)"]
      by (simp add: prefix_mut_def shard_mut_def Let_def slice_def st add.commute)
    finally show ?case using Suc by simp
  qed
  from this [of "buf_shard_count b"] have
    "buf_data b = concat (map (\<lambda>i. prefix_mut b i @ shard_mut b i) [0..<buf_shard_count b])"
    using len by simp
  also have "map (\<lambda>i. prefix_mut b i @ shard_mut b i) [0..<buf_shard_count b] =
      map (\<lambda>(p, d). p @ d) (buf_slots b)"
    by (simp add: buf_slots_def)
  finally show ?thesis .
qed

lemma batch_shards_into_batch:
  assumes "wf_buf b" and "0 < buf_stride b"
  shows "batch_shards (into_batch b) = map (\<lambda>(p, d). p @ d) (buf_slots b)"
proof -
  have "\<forall>x \<in> set (map (\<lambda>(p, d). p @ d) (buf_slots b)). length x = buf_stride b"
    using assms(1) by (auto simp: buf_slots_def length_prefix_mut length_shard_mut wf_buf_def)
  with assms show ?thesis
    by (simp add: batch_shards_def into_batch_def wf_buf_data chunks_concat)
qed

lemma chunks_append_dvd:
  "0 < n \<Longrightarrow> n dvd length xs \<Longrightarrow> chunks n (xs @ ys) = chunks n xs @ chunks n ys"
proof (induction n xs rule: chunks.induct)
  case (1 n xs)
  show ?case
  proof (cases "xs = []")
    case True
    then show ?thesis by simp
  next
    case False
    with "1.prems" have le: "n \<le> length xs" by (simp add: dvd_imp_le)
    then have "n dvd length (drop n xs)" using "1.prems" by (simp add: dvd_diff_nat)
    with False "1.IH" "1.prems" have
      "chunks n (drop n xs @ ys) = chunks n (drop n xs) @ chunks n ys" by simp
    moreover have "chunks n (xs @ ys) = take n xs # chunks n (drop n xs @ ys)"
      using False "1.prems" le by (simp add: chunks_step)
    moreover have "chunks n xs = take n xs # chunks n (drop n xs)"
      using False "1.prems" by (simp add: chunks_step)
    ultimately show ?thesis by simp
  qed
qed

text \<open>Appending a whole batch appends its shards.\<close>

lemma batch_shards_extend_from:
  assumes "batch_data b = [] \<or> batch_shard_size b = batch_shard_size other"
    and "0 < batch_shard_size other" and "batch_shard_size other dvd length (batch_data b)"
    and "batch_shard_size b \<in> {0, batch_shard_size other}"
  shows "batch_shards (extend_from b other) = batch_shards b @ batch_shards other"
  using assms by (auto simp: batch_shards_def extend_from_def chunks_append_dvd)

end
