(* ===== verification/Gso_Socket.thy ===== *)
theory Gso_Socket
  imports Shard_Batch
begin

text \<open>
  \<open>session/stream/video/gso_socket.rs\<close>: sending a shard batch as GSO super-packets. The
  kernel is the environment: \<open>net n\<close> is its answer to the \<open>n\<close>-th \<open>try_send\<close> call and \<open>udp k\<close>
  tells whether the \<open>k\<close>-th plain \<open>send_to\<close> succeeds; the effect of the socket is the log of its calls.
\<close>

section \<open>Sends\<close>

definition MAX_UDP_PAYLOAD :: nat where
  "MAX_UDP_PAYLOAD = 65507"

definition gso_segments_per_send :: "nat \<Rightarrow> nat \<Rightarrow> nat" where
  "gso_segments_per_send max_gso_segments shard_size =
     max (min max_gso_segments (if shard_size = 0 then 0 else MAX_UDP_PAYLOAD div shard_size)) 1"

datatype send_answer = Sent | WouldBlock | Rejected

text \<open>\<open>GsoSend contents segment_size\<close> is a transmit the kernel accepted and cuts into segments;
  \<open>SendTo shard\<close> is one plain datagram, and \<open>SendFailed shard\<close> one whose \<open>send_to\<close> failed.\<close>

datatype wire_op = GsoSend bytes nat | SendTo bytes | SendFailed bytes

fun wire_datagrams :: "wire_op \<Rightarrow> bytes list" where
  "wire_datagrams (GsoSend contents seg) = chunks seg contents"
| "wire_datagrams (SendTo shard) = [shard]"
| "wire_datagrams (SendFailed shard) = []"

text \<open>The shards a call is about, whether or not they reach the wire.\<close>

fun attempted :: "wire_op \<Rightarrow> bytes list" where
  "attempted (GsoSend contents seg) = chunks seg contents"
| "attempted (SendTo shard) = [shard]"
| "attempted (SendFailed shard) = [shard]"

fun plain_send :: "wire_op \<Rightarrow> bool" where
  "plain_send (GsoSend _ _) = False"
| "plain_send (SendTo _) = True"
| "plain_send (SendFailed _) = True"

fun went_out :: "wire_op \<Rightarrow> bool" where
  "went_out (SendFailed _) = False"
| "went_out _ = True"

text \<open>The retry loop around \<open>try_send\<close>: it leaves at the first answer other than
  \<open>WouldBlock\<close>, with the number of the next call and whether the chunk went out.\<close>

partial_function (option) try_send_loop :: "(nat \<Rightarrow> send_answer) \<Rightarrow> nat \<Rightarrow> (nat \<times> bool) option" where
  "try_send_loop net n =
     (if net n = WouldBlock then try_send_loop net (Suc n)
      else Some (Suc n, net n = Sent))"

text \<open>A failed \<open>send_to\<close> is logged and the next shard follows.\<close>

fun send_each :: "(nat \<Rightarrow> bool) \<Rightarrow> nat \<Rightarrow> bytes list \<Rightarrow> wire_op list" where
  "send_each udp k [] = []"
| "send_each udp k (shard # shards) =
     (if udp k then SendTo shard else SendFailed shard) # send_each udp (Suc k) shards"

definition send_shards :: "(nat \<Rightarrow> bool) \<Rightarrow> nat \<Rightarrow> bytes \<Rightarrow> nat \<Rightarrow> wire_op list" where
  "send_shards udp k data shard_size =
     (if shard_size = 0 then [] else send_each udp k (chunks shard_size data))"

fun send_chunks :: "(nat \<Rightarrow> bool) \<Rightarrow> (nat \<Rightarrow> send_answer) \<Rightarrow> nat \<Rightarrow> bytes list \<Rightarrow> nat \<Rightarrow> nat \<Rightarrow> u32 \<Rightarrow>
    (u32 \<times> wire_op list) option" where
  "send_chunks udp net shard_size [] k n failed = Some (failed, [])"
| "send_chunks udp net shard_size (c # cs) k n failed =
     (case try_send_loop net n of
        None \<Rightarrow> None
      | Some (n', ok) \<Rightarrow>
          let ops = (if ok then [GsoSend c shard_size] else send_shards udp k c shard_size) in
          map_option (map_prod id (append ops))
            (send_chunks udp net shard_size cs (if ok then k else k + length ops) n'
              (if ok then failed else failed + 1)))"

definition send_batch_gso :: "(nat \<Rightarrow> bool) \<Rightarrow> (nat \<Rightarrow> send_answer) \<Rightarrow> nat \<Rightarrow> nat \<Rightarrow> shard_batch \<Rightarrow>
    (u32 \<times> wire_op list) option" where
  "send_batch_gso udp net n max_gso_segments batch =
     (let shard_size = batch_shard_size batch in
      if shard_size = 0 then Some (0, [])
      else send_chunks udp net shard_size
             (chunks (gso_segments_per_send max_gso_segments shard_size * shard_size) (as_bytes batch))
             0 n 0)"

text \<open>\<open>max_gso_segments\<close> is read once for the choice of path and again for the chunk size,
  and quinn-udp may lower it in between.\<close>

definition send_batch :: "(nat \<Rightarrow> bool) \<Rightarrow> (nat \<Rightarrow> send_answer) \<Rightarrow> nat \<Rightarrow> nat \<Rightarrow> nat \<Rightarrow> shard_batch \<Rightarrow>
    (u32 \<times> wire_op list) option" where
  "send_batch udp net n max_at_check max_at_use batch =
     (if 1 < max_at_check then send_batch_gso udp net n max_at_use batch
      else Some (0, send_shards udp 0 (as_bytes batch) (batch_shard_size batch)))"

section \<open>Termination of the retry loop\<close>

lemma try_send_loop_steps:
  "net (n + k) \<noteq> WouldBlock \<Longrightarrow> \<exists>n' ok. try_send_loop net n = Some (n', ok) \<and> n < n'"
proof (induction k arbitrary: n)
  case 0
  then show ?case by (subst try_send_loop.simps) simp
next
  case (Suc k)
  show ?case
  proof (cases "net n = WouldBlock")
    case True
    from Suc.IH [of "Suc n"] Suc.prems obtain n' ok
      where "try_send_loop net (Suc n) = Some (n', ok)" "Suc n < n'" by auto
    with True show ?thesis by (subst try_send_loop.simps) auto
  next
    case False
    then show ?thesis by (subst try_send_loop.simps) simp
  qed
qed

definition kernel_drains :: "(nat \<Rightarrow> send_answer) \<Rightarrow> bool" where
  "kernel_drains net \<longleftrightarrow> (\<forall>n. \<exists>k. net (n + k) \<noteq> WouldBlock)"

lemma try_send_loop_returns:
  "kernel_drains net \<Longrightarrow> \<exists>n' ok. try_send_loop net n = Some (n', ok)"
  unfolding kernel_drains_def by (meson try_send_loop_steps)

lemma send_chunks_Cons:
  assumes "send_chunks udp net s (c # cs) k n failed = Some (f', ops)"
  obtains n' ok own rest where "try_send_loop net n = Some (n', ok)" "ops = own @ rest"
    "own = (if ok then [GsoSend c s] else send_shards udp k c s)"
    "send_chunks udp net s cs (if ok then k else k + length own) n' (if ok then failed else failed + 1) = Some (f', rest)"
  using assms by (auto simp: Let_def split: option.splits)

lemma send_chunks_returns:
  "kernel_drains net \<Longrightarrow> \<exists>r. send_chunks udp net s cs k n failed = Some r"
proof (induction cs arbitrary: k n failed)
  case Nil
  then show ?case by simp
next
  case (Cons c cs)
  obtain n' ok where t: "try_send_loop net n = Some (n', ok)"
    using try_send_loop_returns [OF Cons.prems] by blast
  have "\<exists>r. send_chunks udp net s cs k' n' f = Some r" for k' f
    using Cons by blast
  with t show ?case by (simp add: Let_def)
qed

section \<open>What reaches the wire\<close>

lemma send_each_facts:
  "concat (map attempted (send_each udp k cs)) = cs" "filter plain_send (send_each udp k cs) = send_each udp k cs"
  "length (send_each udp k cs) = length cs" "map went_out (send_each udp k cs) = map udp [k..<k + length cs]"
proof -
  show "map went_out (send_each udp k cs) = map udp [k..<k + length cs]"
    by (induction udp k cs rule: send_each.induct) (simp_all add: upt_rec)
qed (induction udp k cs rule: send_each.induct; simp)+

lemma send_shards_facts:
  "0 < s \<Longrightarrow> concat (map attempted (send_shards udp k d s)) = chunks s d"
  "filter plain_send (send_shards udp k d s) = send_shards udp k d s"
  "map went_out (send_shards udp k d s) = map udp [k..<k + length (send_shards udp k d s)]"
  by (simp_all add: send_shards_def send_each_facts)

lemma send_chunks_attempted:
  assumes "0 < s" and "send_chunks udp net s cs k n failed = Some (f', ops)"
  shows "concat (map attempted ops) = concat (map (chunks s) cs)"
  using assms(2)
proof (induction cs arbitrary: k n failed ops)
  case (Cons c cs)
  from Cons.prems show ?case
    by (cases rule: send_chunks_Cons) (use assms(1) Cons.IH in \<open>auto simp: send_shards_facts\<close>)
qed simp

text \<open>The plain sends of a batch are numbered in order, and each goes out when its own call succeeds.\<close>

definition plain_sends_from :: "(nat \<Rightarrow> bool) \<Rightarrow> nat \<Rightarrow> wire_op list \<Rightarrow> bool" where
  "plain_sends_from udp k ops \<longleftrightarrow>
     map went_out (filter plain_send ops) = map udp [k..<k + length (filter plain_send ops)]"

lemma plain_sends_append:
  assumes "plain_sends_from udp k xs" and "plain_sends_from udp (k + length (filter plain_send xs)) ys"
  shows "plain_sends_from udp k (xs @ ys)"
  using assms upt_add_eq_append [of k "k + length (filter plain_send xs)" "length (filter plain_send ys)"]
  by (simp add: plain_sends_from_def add.assoc)

lemma send_chunks_plain:
  "send_chunks udp net s cs k n failed = Some (f', ops) \<Longrightarrow> plain_sends_from udp k ops"
proof (induction cs arbitrary: k n failed ops)
  case Nil
  then show ?case by (simp add: plain_sends_from_def)
next
  case (Cons c cs)
  from Cons.prems show ?case
  proof (cases rule: send_chunks_Cons)
    case (1 n' ok own rest)
    have "plain_sends_from udp k own" "filter plain_send own = (if ok then [] else own)"
      using 1(3) by (simp_all add: plain_sends_from_def send_shards_facts)
    then show ?thesis using Cons.IH [OF 1(4)] 1(2) plain_sends_append [of udp k own rest] by (cases ok) simp_all
  qed
qed

lemma chunks_of_chunks:
  "0 < s \<Longrightarrow> 0 < k \<Longrightarrow> concat (map (chunks s) (chunks (k * s) xs)) = chunks s xs"
proof (induction "k * s" xs rule: chunks.induct)
  case (1 xs)
  show ?case
  proof (cases "xs = []")
    case True
    then show ?thesis by simp
  next
    case False
    have ks: "0 < k * s" using "1.prems" by simp
    have IH: "concat (map (chunks s) (chunks (k * s) (drop (k * s) xs))) = chunks s (drop (k * s) xs)"
      using "1.hyps" False ks "1.prems" by simp
    have split: "chunks s xs = chunks s (take (k * s) xs) @ chunks s (drop (k * s) xs)"
    proof (cases "k * s \<le> length xs")
      case True
      then have "s dvd length (take (k * s) xs)" by simp
      with chunks_append_dvd [OF "1.prems"(1) this, of "drop (k * s) xs"] show ?thesis by simp
    next
      case False
      then show ?thesis by simp
    qed
    with IH False ks show ?thesis by (simp add: chunks_step)
  qed
qed

lemma gso_segments_pos: "0 < gso_segments_per_send m s"
  by (simp add: gso_segments_per_send_def)

lemma send_batch_cases:
  assumes "send_batch udp net n m1 m2 batch = Some (f, ops)"
  obtains (empty) "batch_shard_size batch = 0" "ops = []"
  | (plain) "0 < batch_shard_size batch" "ops = send_shards udp 0 (as_bytes batch) (batch_shard_size batch)"
  | (gso) "0 < batch_shard_size batch"
      "send_chunks udp net (batch_shard_size batch)
         (chunks (gso_segments_per_send m2 (batch_shard_size batch) * batch_shard_size batch) (as_bytes batch)) 0 n 0
       = Some (f, ops)"
  using assms
  by (cases "batch_shard_size batch = 0")
    (auto simp: send_batch_def send_batch_gso_def send_shards_def Let_def split: if_splits)

lemma send_batch_attempted:
  assumes "send_batch udp net n m1 m2 batch = Some (f, ops)"
  shows "concat (map attempted ops) = batch_shards batch \<and> plain_sends_from udp 0 ops"
  using assms
proof (cases rule: send_batch_cases)
  case empty
  then show ?thesis by (simp add: batch_shards_def chunks.simps plain_sends_from_def)
next
  case plain
  then show ?thesis by (simp add: send_shards_facts batch_shards_def as_bytes_def plain_sends_from_def)
next
  case gso
  then show ?thesis using send_chunks_attempted [OF gso] send_chunks_plain [OF gso(2)]
    by (simp add: chunks_of_chunks gso_segments_pos batch_shards_def as_bytes_def)
qed

lemma wire_of_attempted:
  "concat (map wire_datagrams ops) = concat (map attempted (filter went_out ops))"
proof (induction ops)
  case (Cons op ops)
  then show ?case by (cases op) simp_all
qed simp

lemma all_went_out:
  assumes "plain_sends_from udp k ops" and "\<forall>i. udp i"
  shows "filter went_out ops = ops"
proof -
  have "\<forall>b \<in> set (map went_out (filter plain_send ops)). b" using assms by (auto simp: plain_sends_from_def)
  then have "\<forall>op \<in> set ops. plain_send op \<longrightarrow> went_out op" by auto
  moreover have "\<not> plain_send op \<Longrightarrow> went_out op" for op by (cases op) simp_all
  ultimately show ?thesis by (auto simp: filter_id_conv)
qed

lemma gso_payload_bound:
  assumes "0 < s" and "s \<le> MAX_UDP_PAYLOAD"
  shows "gso_segments_per_send m s * s \<le> MAX_UDP_PAYLOAD"
proof (cases "min m (MAX_UDP_PAYLOAD div s) = 0")
  case True
  with assms show ?thesis by (auto simp: gso_segments_per_send_def max_def)
next
  case False
  then have "gso_segments_per_send m s \<le> MAX_UDP_PAYLOAD div s"
    using assms by (auto simp: gso_segments_per_send_def max_def)
  then have "gso_segments_per_send m s * s \<le> MAX_UDP_PAYLOAD div s * s"
    by (rule mult_le_mono1)
  also have "\<dots> \<le> MAX_UDP_PAYLOAD" by simp
  finally show ?thesis .
qed

lemma send_each_no_gso: "GsoSend c g \<notin> set (send_each udp k cs)"
  by (induction udp k cs rule: send_each.induct) simp_all

lemma send_chunks_gso_ops:
  assumes "send_chunks udp net s cs k n failed = Some (f', ops)" and "GsoSend c g \<in> set ops"
  shows "c \<in> set cs \<and> g = s"
  using assms
proof (induction cs arbitrary: k n failed ops)
  case (Cons x cs)
  from Cons.prems(1) show ?case
    by (cases rule: send_chunks_Cons)
      (use Cons.IH Cons.prems(2) in \<open>auto simp: send_shards_def send_each_no_gso split: if_splits\<close>)
qed simp

lemma gso_op_limits:
  assumes run: "send_batch udp net n m1 m2 batch = Some (f, ops)" and op: "GsoSend c g \<in> set ops"
    and whole: "batch_shard_size batch dvd length (as_bytes batch)"
    and fits: "batch_shard_size batch \<le> MAX_UDP_PAYLOAD"
  shows "g = batch_shard_size batch \<and> g dvd length c \<and> length c \<le> MAX_UDP_PAYLOAD \<and>
    length c div g \<le> max m2 1"
proof -
  define s where "s = batch_shard_size batch"
  define k where "k = gso_segments_per_send m2 s"
  have s: "0 < s" and r: "send_chunks udp net s (chunks (k * s) (as_bytes batch)) 0 n 0 = Some (f, ops)"
    using run by (cases rule: send_batch_cases; use op in \<open>simp add: k_def s_def send_shards_def send_each_no_gso\<close>)+
  have c: "c \<in> set (chunks (k * s) (as_bytes batch))" "g = s"
    using send_chunks_gso_ops [OF r op] by auto
  have dvd: "s dvd length c"
    using chunks_dvd [OF _ _ c(1), of s] whole by (simp add: s_def)
  have len: "length c \<le> k * s" using chunks_bounds [OF c(1)] by simp
  moreover have "k * s \<le> MAX_UDP_PAYLOAD"
    using gso_payload_bound [OF s] fits by (simp add: k_def s_def)
  moreover have "length c div s \<le> k"
    using len s by (metis div_le_mono nonzero_mult_div_cancel_right not_gr_zero)
  moreover have "k \<le> max m2 1" by (auto simp: k_def gso_segments_per_send_def)
  ultimately show ?thesis using c dvd by (auto simp: s_def)
qed

lemma send_batch_returns:
  assumes "kernel_drains net" shows "\<exists>f ops. send_batch udp net n m1 m2 batch = Some (f, ops)"
  using send_chunks_returns [OF assms]
  by (auto simp: send_batch_def send_batch_gso_def Let_def)

section \<open>Properties\<close>

text \<open>A kernel whose first answer is that the buffer is full and which refuses the next chunk.\<close>

definition sample_net :: "nat \<Rightarrow> send_answer" where
  "sample_net n = (if n = 0 then WouldBlock else if n = 1 then Rejected else Sent)"

definition sample_batch :: shard_batch where
  "sample_batch = \<lparr>batch_data = [1, 2, 3, 4, 5, 6], batch_shard_size = 2\<rparr>"

lemma sample_net_drains: "kernel_drains sample_net"
  unfolding kernel_drains_def by (intro allI exI [of _ 2]) (simp add: sample_net_def)

text \<open>
  C8. If the socket buffer always drains eventually, \<open>send_batch\<close> returns. Its calls take the shards of the batch each
  once and in order, whether the kernel cuts them out of a GSO send or they are sent one by one after a refusal, and
  the shards missing on the wire are exactly those whose own \<open>send_to\<close> failed: the plain sends are numbered in order
  and the \<open>k\<close>-th goes out if and only if \<open>udp k\<close>. When no \<open>send_to\<close> fails the wire carries the whole batch.
\<close>

theorem send_batch_delivers:
  assumes "kernel_drains net"
  shows "\<exists>failed ops. send_batch udp net n max_at_check max_at_use batch = Some (failed, ops) \<and>
    concat (map attempted ops) = batch_shards batch \<and>
    concat (map wire_datagrams ops) = concat (map attempted (filter went_out ops)) \<and>
    map went_out (filter plain_send ops) = map udp [0..<length (filter plain_send ops)] \<and>
    ((\<forall>k. udp k) \<longrightarrow> concat (map wire_datagrams ops) = batch_shards batch)"
proof -
  obtain failed ops where run: "send_batch udp net n max_at_check max_at_use batch = Some (failed, ops)"
    using send_batch_returns [OF assms] by blast
  note facts = send_batch_attempted [OF run] wire_of_attempted [of ops]
  then have "(\<forall>k. udp k) \<Longrightarrow> filter went_out ops = ops" using all_went_out by blast
  then show ?thesis using run facts by (auto simp: plain_sends_from_def)
qed

theorem send_batch_delivers_witness:
  "\<exists>failed ops. send_batch (\<lambda>_. True) sample_net 0 64 2 sample_batch = Some (failed, ops) \<and>
    concat (map wire_datagrams ops) = [[1, 2], [3, 4], [5, 6]]"
proof -
  have "batch_shards sample_batch = [[1, 2], [3, 4], [5, 6]]" by code_simp
  with send_batch_delivers [OF sample_net_drains, of "\<lambda>_. True" 0 64 2 sample_batch] show ?thesis by auto
qed

text \<open>
  Every GSO send stays within the kernel's caps: it is a whole number of shards, at most the
  segment limit quinn-udp reports (but at least one), and at most 65507 bytes when a shard itself fits.
\<close>

theorem gso_send_within_caps:
  assumes "send_batch udp net n max_at_check max_at_use batch = Some (failed, ops)"
    and "GsoSend contents seg \<in> set ops"
    and "batch_shard_size batch dvd length (as_bytes batch)"
    and "batch_shard_size batch \<le> MAX_UDP_PAYLOAD"
  shows "seg = batch_shard_size batch \<and> seg dvd length contents \<and>
    length contents \<le> MAX_UDP_PAYLOAD \<and> length contents div seg \<le> max max_at_use 1"
  by (rule gso_op_limits [OF assms])

theorem gso_send_within_caps_witness:
  "\<exists>failed ops. send_batch (\<lambda>k. k = 0) sample_net 0 64 2 sample_batch = Some (failed, ops) \<and>
    GsoSend [5, 6] 2 \<in> set ops \<and> length [5 :: u8, 6] div 2 \<le> max 2 1"
proof -
  have s2: "try_send_loop sample_net 2 = Some (3, True)"
    by (subst try_send_loop.simps) (simp add: sample_net_def)
  have s1: "try_send_loop sample_net 1 = Some (2, False)"
    by (subst try_send_loop.simps) (simp add: sample_net_def)
  have s0: "try_send_loop sample_net 0 = Some (2, False)"
    by (subst try_send_loop.simps) (use s1 in \<open>simp add: sample_net_def\<close>)
  have cs: "chunks (gso_segments_per_send 2 2 * 2) (as_bytes sample_batch) = [[1, 2, 3, 4], [5, 6]]"
    by (simp add: gso_segments_per_send_def MAX_UDP_PAYLOAD_def as_bytes_def sample_batch_def chunks.simps)
  have size: "batch_shard_size sample_batch = 2" "length (as_bytes sample_batch) = 6"
    by (simp_all add: sample_batch_def as_bytes_def)
  have run: "send_batch (\<lambda>k. k = 0) sample_net 0 64 2 sample_batch = Some (1, send_shards (\<lambda>k. k = 0) 0 [1, 2, 3, 4] 2 @ [GsoSend [5, 6] 2])"
    unfolding send_batch_def send_batch_gso_def Let_def size cs by (simp add: s0 s2)
  have op: "GsoSend [5, 6] 2 \<in> set (send_shards (\<lambda>k. k = 0) 0 [1, 2, 3, 4] 2 @ [GsoSend [5, 6] 2])" by simp
  have "length [5 :: u8, 6] div 2 \<le> max 2 1"
    using gso_send_within_caps [OF run op] size by (simp add: MAX_UDP_PAYLOAD_def)
  with run op show ?thesis by blast
qed

end
