(* ===== verification/Session_Types.thy ===== *)
theory Session_Types
  imports Prelude
begin

text \<open>Types of \<open>session/mod.rs\<close> and \<open>session/stream/mod.rs\<close> that several components share.\<close>

record session_key_data =
  remote_input_key :: bytes
  remote_input_key_id :: int

definition i64_MIN :: int where
  "i64_MIN = - (2 ^ 63)"

end
