(* ===== verification/Packetizer.thy ===== *)
theory Packetizer
  imports Shard_Batch Session_Types
begin

text \<open>
  \<open>session/stream/video/packetizer.rs\<close>: cutting an encoded frame into FEC blocks of
  network-ready shards, and encrypting them. The Reed-Solomon coder (fec-rs) and AES-128-GCM are
  parameters: \<open>rs_new\<close>, \<open>rs_encode\<close> and \<open>gcm\<close>. Tracing and timing are left out. Integer
  overflow wraps, as in the release profile.
\<close>

section \<open>Constants and headers\<close>

definition MAX_SHARDS :: nat where "MAX_SHARDS = 255"
definition NV_VIDEO_PACKET_SIZE :: nat where "NV_VIDEO_PACKET_SIZE = 16"
definition RTP_HEADER_SIZE :: nat where "RTP_HEADER_SIZE = 12"
definition PADDING_SIZE :: nat where "PADDING_SIZE = 4"
definition NV_PACKET_OFFSET :: nat where "NV_PACKET_OFFSET = RTP_HEADER_SIZE + PADDING_SIZE"
definition PAYLOAD_OFFSET :: nat where "PAYLOAD_OFFSET = NV_PACKET_OFFSET + NV_VIDEO_PACKET_SIZE"
definition ENC_PREFIX_SIZE :: nat where "ENC_PREFIX_SIZE = 12 + 4 + 16"
definition VIDEO_FRAME_HEADER_SIZE :: nat where "VIDEO_FRAME_HEADER_SIZE = 8"

lemmas packet_sizes = MAX_SHARDS_def NV_VIDEO_PACKET_SIZE_def RTP_HEADER_SIZE_def PADDING_SIZE_def
  NV_PACKET_OFFSET_def PAYLOAD_OFFSET_def ENC_PREFIX_SIZE_def VIDEO_FRAME_HEADER_SIZE_def

datatype rtp_flag = ContainsPicData | EndOfFrame | StartOfFrame

fun rtp_flag_bits :: "rtp_flag \<Rightarrow> u8" where
  "rtp_flag_bits ContainsPicData = 0x1"
| "rtp_flag_bits EndOfFrame = 0x2"
| "rtp_flag_bits StartOfFrame = 0x4"

record video_frame_header =
  header_type :: u8
  frame_processing_latency :: u16
  frame_type :: u8
  last_payload_len :: u32

definition serialize_frame_header :: "video_frame_header \<Rightarrow> bytes \<Rightarrow> bytes" where
  "serialize_frame_header h buffer =
     put_at 4 (to_le32 (last_payload_len h))
      (put_at 3 [frame_type h]
        (put_at 1 (to_le16 (frame_processing_latency h))
          (put_at 0 [header_type h] buffer)))"

definition write_rtp_header :: "bytes \<Rightarrow> u16 \<Rightarrow> u32 \<Rightarrow> bytes" where
  "write_rtp_header buf sequence_number timestamp =
     put_at 8 (to_be32 0)
      (put_at 4 (to_be32 timestamp)
        (put_at 2 (to_be16 sequence_number)
          (put_at 1 [0] (put_at 0 [0x90] buf))))"

definition write_nv_video_packet :: "bytes \<Rightarrow> u32 \<Rightarrow> u32 \<Rightarrow> u8 \<Rightarrow> u8 \<Rightarrow> u32 \<Rightarrow> bytes" where
  "write_nv_video_packet buf stream_packet_index frame_index flags multi_fec_blocks fec_info =
     put_at 12 (to_le32 fec_info)
      (put_at 11 [multi_fec_blocks]
        (put_at 10 [0x10]
          (put_at 9 [0]
            (put_at 8 [flags]
              (put_at 4 (to_le32 frame_index)
                (put_at 0 (to_le32 stream_packet_index) buf))))))"

definition copy_header_and_data :: "bytes \<Rightarrow> bytes \<Rightarrow> bytes \<Rightarrow> nat \<Rightarrow> nat \<Rightarrow> bytes" where
  "copy_header_and_data dst header encoded_data offset len =
     (let total = VIDEO_FRAME_HEADER_SIZE + length encoded_data;
          stop = min (offset + len) total
      in if offset < VIDEO_FRAME_HEADER_SIZE then
           let header_end = min VIDEO_FRAME_HEADER_SIZE stop;
               n = header_end - offset;
               dst1 = put_at 0 (slice offset header_end header) dst
           in if stop > VIDEO_FRAME_HEADER_SIZE
              then put_at n (take (stop - VIDEO_FRAME_HEADER_SIZE) encoded_data) dst1
              else dst1
         else
           put_at 0 (slice (offset - VIDEO_FRAME_HEADER_SIZE) (stop - VIDEO_FRAME_HEADER_SIZE) encoded_data) dst)"

text \<open>The packed \<open>fec_info\<close> field, computed on \<open>usize\<close> and cut to \<open>u32\<close>.\<close>

definition fec_info :: "nat \<Rightarrow> nat \<Rightarrow> nat \<Rightarrow> u32" where
  "fec_info shard_index nr_data_shards fec_percentage =
     ucast (push_bit 12 (of_nat shard_index :: u64) OR push_bit 22 (of_nat nr_data_shards)
       OR push_bit 4 (of_nat fec_percentage))"

section \<open>The packetizer\<close>

record 'rs packetizer =
  fec_encoders :: "nat \<times> nat \<rightharpoonup> 'rs"
  encrypt_video :: bool
  cipher :: "bytes option"
  last_key_id :: int
  gcm_iv_counter :: u64

definition packetizer_new :: "bool \<Rightarrow> 'rs packetizer" where
  "packetizer_new encrypt =
     \<lparr>fec_encoders = Map.empty, encrypt_video = encrypt, cipher = None, last_key_id = i64_MIN,
      gcm_iv_counter = 0\<rparr>"

definition maybe_update_cipher :: "session_key_data \<Rightarrow> 'rs packetizer \<Rightarrow> 'rs packetizer" where
  "maybe_update_cipher keys p =
     (if \<not> encrypt_video p then p
      else if remote_input_key_id keys = last_key_id p then p
      else let p = p\<lparr>last_key_id := remote_input_key_id keys\<rparr> in
        if length (remote_input_key keys) \<noteq> 16 then p\<lparr>cipher := None\<rparr>
        else p\<lparr>cipher := Some (remote_input_key keys), gcm_iv_counter := 0\<rparr>)"

definition get_fec_encoder :: "(nat \<Rightarrow> nat \<Rightarrow> 'rs option) \<Rightarrow> nat \<Rightarrow> nat \<Rightarrow> 'rs packetizer \<Rightarrow>
    'rs res \<times> 'rs packetizer" where
  "get_fec_encoder rs_new nr_data nr_parity p =
     (case fec_encoders p (nr_data, nr_parity) of
        Some e \<Rightarrow> (Inr e, p)
      | None \<Rightarrow>
          (case rs_new nr_data nr_parity of
             None \<Rightarrow> (Inl Err, p)
           | Some e \<Rightarrow> (Inr e, p\<lparr>fec_encoders := (fec_encoders p)((nr_data, nr_parity) \<mapsto> e)\<rparr>)))"

definition nr_parity_shards_per_block :: "nat \<Rightarrow> nat" where
  "nr_parity_shards_per_block fec_percentage = MAX_SHARDS * fec_percentage div (100 + fec_percentage)"

definition nr_data_shards_per_block :: "nat \<Rightarrow> nat" where
  "nr_data_shards_per_block fec_percentage = MAX_SHARDS - nr_parity_shards_per_block fec_percentage"

definition nr_parity_shards :: "nat \<Rightarrow> nat \<Rightarrow> nat \<Rightarrow> nat" where
  "nr_parity_shards nr_data fec_percentage minimum_fec_packets =
     min (max (nr_data * fec_percentage div 100) minimum_fec_packets) (MAX_SHARDS - nr_data)"

definition warm_up :: "(nat \<Rightarrow> nat \<Rightarrow> 'rs option) \<Rightarrow> nat \<Rightarrow> nat \<Rightarrow> 'rs packetizer \<Rightarrow> 'rs packetizer" where
  "warm_up rs_new fec_percentage minimum_fec_packets p =
     foldl (\<lambda>p nr_data.
         let nr_parity = nr_parity_shards nr_data fec_percentage minimum_fec_packets
         in if nr_parity > 0 then snd (get_fec_encoder rs_new nr_data nr_parity p) else p)
       p [1..<nr_data_shards_per_block fec_percentage + 1]"

text \<open>The locals of \<open>packetize\<close> that the block loop reads.\<close>

record frame_ctx =
  fc_encoded_data :: bytes
  fc_header_bytes :: bytes
  fc_payload_size :: nat
  fc_prefix_size :: nat
  fc_nr_data_shards :: nat
  fc_per_block :: nat
  fc_fec_percentage :: nat
  fc_minimum_fec_packets :: nat
  fc_last_block_index :: u8
  fc_frame_number :: u32
  fc_rtp_timestamp :: u32

definition fc_packet_data_len :: "frame_ctx \<Rightarrow> nat" where
  "fc_packet_data_len c = VIDEO_FRAME_HEADER_SIZE + length (fc_encoded_data c)"

definition block_start :: "frame_ctx \<Rightarrow> nat \<Rightarrow> nat" where
  "block_start c block_index = block_index * fc_per_block c"

definition block_end :: "frame_ctx \<Rightarrow> nat \<Rightarrow> nat" where
  "block_end c block_index =
     (if block_index = 3 then fc_nr_data_shards c
      else min ((block_index + 1) * fc_per_block c) (fc_nr_data_shards c))"

definition multi_fec_blocks :: "frame_ctx \<Rightarrow> nat \<Rightarrow> u8" where
  "multi_fec_blocks c block_index = push_bit 4 (of_nat block_index) OR fc_last_block_index c"

text \<open>One iteration of the data shard loop, on a zeroed shard.\<close>

definition data_shard_flags :: "nat \<Rightarrow> nat \<Rightarrow> u8" where
  "data_shard_flags block_shard_index nr_data =
     (let flags = rtp_flag_bits ContainsPicData;
          flags = (if block_shard_index = 0 then flags OR rtp_flag_bits StartOfFrame else flags)
      in if block_shard_index = nr_data - 1 then flags OR rtp_flag_bits EndOfFrame else flags)"

definition write_data_shard :: "frame_ctx \<Rightarrow> nat \<Rightarrow> nat \<Rightarrow> nat \<Rightarrow> u32 \<Rightarrow> nat \<Rightarrow> bytes \<Rightarrow> bytes" where
  "write_data_shard c block_index nr_data fec_percentage seq block_shard_index shard =
     (let data_shard_index = block_start c block_index + block_shard_index;
          payload_start = data_shard_index * fc_payload_size c;
          payload_len = min (fc_payload_size c) (fc_packet_data_len c - payload_start);
          shard = write_rtp_header shard (ucast seq) (fc_rtp_timestamp c);
          nv = write_nv_video_packet
                 (slice NV_PACKET_OFFSET (NV_PACKET_OFFSET + NV_VIDEO_PACKET_SIZE) shard)
                 (push_bit 8 seq) (fc_frame_number c) (data_shard_flags block_shard_index nr_data)
                 (multi_fec_blocks c block_index) (fec_info block_shard_index nr_data fec_percentage);
          shard = put_at NV_PACKET_OFFSET nv shard;
          payload = copy_header_and_data (drop PAYLOAD_OFFSET shard) (fc_header_bytes c)
                      (fc_encoded_data c) payload_start payload_len
      in put_at PAYLOAD_OFFSET payload shard)"

text \<open>One iteration of the parity header loop, on a shard the FEC coder has just filled;
  \<open>shard_index\<close> is \<open>nr_data_shards + block_shard_index\<close>.\<close>

definition write_parity_headers :: "frame_ctx \<Rightarrow> nat \<Rightarrow> nat \<Rightarrow> nat \<Rightarrow> u32 \<Rightarrow> nat \<Rightarrow> bytes \<Rightarrow> bytes" where
  "write_parity_headers c block_index nr_data fec_percentage seq shard_index shard =
     (let shard = put_at 2 (to_be16 (ucast seq)) (put_at 1 [0] (put_at 0 [0x90] shard));
          nv = slice NV_PACKET_OFFSET (NV_PACKET_OFFSET + NV_VIDEO_PACKET_SIZE) shard;
          nv = put_at 12 (to_le32 (fec_info shard_index nr_data fec_percentage))
                (put_at 11 [multi_fec_blocks c block_index]
                  (put_at 4 (to_le32 (fc_frame_number c)) nv))
      in put_at NV_PACKET_OFFSET nv shard)"

definition assemble_block :: "('rs \<Rightarrow> bytes list \<Rightarrow> bytes list option) \<Rightarrow> frame_ctx \<Rightarrow> nat \<Rightarrow> nat \<Rightarrow> nat \<Rightarrow>
    'rs option \<Rightarrow> u32 \<Rightarrow> shard_buf res \<times> u32" where
  "assemble_block rs_encode c block_index nr_data nr_parity encoder seq =
     (let fec_percentage = nr_parity * 100 div nr_data;
          buf = shard_buf_new (nr_data + nr_parity) (PAYLOAD_OFFSET + fc_payload_size c) (fc_prefix_size c);
          (seq1, buf1) = update_loop shard_mut write_shard
            (write_data_shard c block_index nr_data fec_percentage) [0..<nr_data] seq buf
      in case encoder of
           None \<Rightarrow> (Inr buf1, seq1)
         | Some rs \<Rightarrow>
             (case rs_encode rs (as_fec_slices buf1) of
                None \<Rightarrow> (Inl Err, seq1)
              | Some xs \<Rightarrow>
                  let (seq2, buf2) = update_loop shard_mut write_shard
                        (write_parity_headers c block_index nr_data fec_percentage)
                        [nr_data..<nr_data + nr_parity] seq1 (write_fec_slices buf1 xs)
                  in (Inr buf2, seq2)))"

text \<open>The per-shard nonce: the counter in bytes 0 to 7, the letter V in byte 11.\<close>

definition video_iv :: "u64 \<Rightarrow> bytes" where
  "video_iv counter = put_at 11 [0x56] (put_at 0 (to_le64 counter) (replicate 12 0))"

definition seal_shard :: "(bytes \<Rightarrow> bytes \<Rightarrow> bytes \<Rightarrow> (bytes \<times> bytes) option) \<Rightarrow> bytes \<Rightarrow> u32 \<Rightarrow>
    u64 \<Rightarrow> bytes \<Rightarrow> (bytes \<times> bytes) option" where
  "seal_shard gcm key frame_number counter shard =
     map_option (\<lambda>(ct, tag). (ct, video_iv counter @ to_le32 frame_number @ tag))
       (gcm key (video_iv counter) shard)"

definition encrypt_block :: "(bytes \<Rightarrow> bytes \<Rightarrow> bytes \<Rightarrow> (bytes \<times> bytes) option) \<Rightarrow> frame_ctx \<Rightarrow>
    'rs packetizer \<Rightarrow> shard_buf \<Rightarrow> shard_buf res \<times> 'rs packetizer" where
  "encrypt_block gcm c p buf =
     (case cipher p of
        None \<Rightarrow> (Inr buf, p)
      | Some key \<Rightarrow>
          let (counter, r) = seal_loop shard_mut write_shard write_prefix
                (seal_shard gcm key (fc_frame_number c)) [0..<buf_shard_count buf] (gcm_iv_counter p) buf
          in (ok_or r, p\<lparr>gcm_iv_counter := counter\<rparr>))"

definition block_nd :: "frame_ctx \<Rightarrow> nat \<Rightarrow> nat" where
  "block_nd c block_index = block_end c block_index - block_start c block_index"

definition block_np :: "frame_ctx \<Rightarrow> nat \<Rightarrow> nat" where
  "block_np c block_index =
     nr_parity_shards (block_nd c block_index) (fc_fec_percentage c) (fc_minimum_fec_packets c)"

definition block_encoder :: "(nat \<Rightarrow> nat \<Rightarrow> 'rs option) \<Rightarrow> nat \<Rightarrow> nat \<Rightarrow> 'rs packetizer \<Rightarrow>
    'rs option res \<times> 'rs packetizer" where
  "block_encoder rs_new nr_data nr_parity p =
     (if nr_parity > 0 then
        (case get_fec_encoder rs_new nr_data nr_parity p of
           (Inl e, p) \<Rightarrow> (Inl e, p)
         | (Inr rs, p) \<Rightarrow> (Inr (Some rs), p))
      else (Inr None, p))"

definition packetize_block :: "(nat \<Rightarrow> nat \<Rightarrow> 'rs option) \<Rightarrow> ('rs \<Rightarrow> bytes list \<Rightarrow> bytes list option) \<Rightarrow>
    (bytes \<Rightarrow> bytes \<Rightarrow> bytes \<Rightarrow> (bytes \<times> bytes) option) \<Rightarrow> frame_ctx \<Rightarrow> nat \<Rightarrow> 'rs packetizer \<Rightarrow> u32 \<Rightarrow>
    shard_batch res \<times> 'rs packetizer \<times> u32" where
  "packetize_block rs_new rs_encode gcm c block_index p seq =
     (case block_encoder rs_new (block_nd c block_index) (block_np c block_index) p of
        (Inl e, p) \<Rightarrow> (Inl e, p, seq)
      | (Inr encoder, p) \<Rightarrow>
          (case assemble_block rs_encode c block_index (block_nd c block_index) (block_np c block_index)
                  encoder seq of
             (Inl e, seq) \<Rightarrow> (Inl e, p, seq)
           | (Inr buf, seq) \<Rightarrow>
               (case encrypt_block gcm c p buf of
                  (Inl e, p) \<Rightarrow> (Inl e, p, seq)
                | (Inr buf, p) \<Rightarrow> (Inr (into_batch buf), p, seq))))"

text \<open>The block loop, which breaks after block 3.\<close>

fun packetize_blocks :: "(nat \<Rightarrow> nat \<Rightarrow> 'rs option) \<Rightarrow> ('rs \<Rightarrow> bytes list \<Rightarrow> bytes list option) \<Rightarrow>
    (bytes \<Rightarrow> bytes \<Rightarrow> bytes \<Rightarrow> (bytes \<times> bytes) option) \<Rightarrow> frame_ctx \<Rightarrow> nat list \<Rightarrow> shard_batch \<Rightarrow>
    'rs packetizer \<Rightarrow> u32 \<Rightarrow> shard_batch res \<times> 'rs packetizer \<times> u32" where
  "packetize_blocks rs_new rs_encode gcm c [] all_shards p seq = (Inr all_shards, p, seq)"
| "packetize_blocks rs_new rs_encode gcm c (block_index # rest) all_shards p seq =
     (case packetize_block rs_new rs_encode gcm c block_index p seq of
        (Inl e, p, seq) \<Rightarrow> (Inl e, p, seq)
      | (Inr batch, p, seq) \<Rightarrow>
          let all_shards = extend_from all_shards batch
          in if block_index = 3 then (Inr all_shards, p, seq)
             else packetize_blocks rs_new rs_encode gcm c rest all_shards p seq)"

definition frame_header_bytes :: "bytes \<Rightarrow> bool \<Rightarrow> nat \<Rightarrow> u16 \<Rightarrow> bytes" where
  "frame_header_bytes encoded_data is_key_frame payload_size latency =
     (let packet_data_len = VIDEO_FRAME_HEADER_SIZE + length encoded_data;
          last_shard_size = packet_data_len mod payload_size;
          last_shard_size = (if last_shard_size = 0 then payload_size else last_shard_size)
      in serialize_frame_header
           \<lparr>header_type = 0x01, frame_processing_latency = latency,
            frame_type = (if is_key_frame then 2 else 1),
            last_payload_len = of_nat last_shard_size\<rparr>
           (replicate VIDEO_FRAME_HEADER_SIZE 0))"

definition div_ceil :: "nat \<Rightarrow> nat \<Rightarrow> nat" where
  "div_ceil a b = (if a mod b = 0 then a div b else a div b + 1)"

definition nr_blocks :: "nat \<Rightarrow> nat \<Rightarrow> nat" where
  "nr_blocks nr_data per_block = (nr_data - 1) div per_block + 1"

definition frame_context :: "'rs packetizer \<Rightarrow> bytes \<Rightarrow> bool \<Rightarrow> nat \<Rightarrow> u32 \<Rightarrow> u8 \<Rightarrow> u32 \<Rightarrow> u32 \<Rightarrow> u16 \<Rightarrow>
    frame_ctx" where
  "frame_context p encoded_data is_key_frame requested_packet_size minimum_fec_packets fec_percentage
     frame_number rtp_timestamp latency =
     (let payload_size = requested_packet_size - NV_VIDEO_PACKET_SIZE;
          packet_data_len = VIDEO_FRAME_HEADER_SIZE + length encoded_data;
          nr_data = div_ceil packet_data_len payload_size;
          per_block = nr_data_shards_per_block (unat fec_percentage)
      in \<lparr>fc_encoded_data = encoded_data,
          fc_header_bytes = frame_header_bytes encoded_data is_key_frame payload_size latency,
          fc_payload_size = payload_size,
          fc_prefix_size = (if cipher p \<noteq> None then ENC_PREFIX_SIZE else 0),
          fc_nr_data_shards = nr_data,
          fc_per_block = per_block,
          fc_fec_percentage = unat fec_percentage,
          fc_minimum_fec_packets = unat minimum_fec_packets,
          fc_last_block_index = push_bit 6 (of_nat (min (nr_blocks nr_data per_block) 4) - 1),
          fc_frame_number = frame_number,
          fc_rtp_timestamp = rtp_timestamp\<rparr>)"

text \<open>
  \<open>packetize\<close>. A requested packet size of at most 16 panics: at 16 the remainder is taken by
  zero; below 16 the subtraction traps, or, where overflow wraps, the shard is too small for its
  own header. The packet counter and the nonce counter wrap as in a release build (a debug build panics after 2^32
  packets or 2^64 shards).
\<close>

definition packetize :: "(nat \<Rightarrow> nat \<Rightarrow> 'rs option) \<Rightarrow> ('rs \<Rightarrow> bytes list \<Rightarrow> bytes list option) \<Rightarrow>
    (bytes \<Rightarrow> bytes \<Rightarrow> bytes \<Rightarrow> (bytes \<times> bytes) option) \<Rightarrow> session_key_data \<Rightarrow> bytes \<Rightarrow> bool \<Rightarrow> nat \<Rightarrow> u32 \<Rightarrow>
    u8 \<Rightarrow> u32 \<Rightarrow> u32 \<Rightarrow> u16 \<Rightarrow> 'rs packetizer \<Rightarrow> u32 \<Rightarrow> shard_batch res \<times> 'rs packetizer \<times> u32" where
  "packetize rs_new rs_encode gcm keys encoded_data is_key_frame requested_packet_size
     minimum_fec_packets fec_percentage frame_number rtp_timestamp latency p seq =
     (let p = maybe_update_cipher keys p in
      if requested_packet_size \<le> NV_VIDEO_PACKET_SIZE then (Inl Panic, p, seq)
      else
        let c = frame_context p encoded_data is_key_frame requested_packet_size minimum_fec_packets
                  fec_percentage frame_number rtp_timestamp latency
        in packetize_blocks rs_new rs_encode gcm c
             [0..<nr_blocks (fc_nr_data_shards c) (fc_per_block c)] batch_empty p seq)"

end
