(* ===== verification/Packetizer_Props.thy ===== *)
theory Packetizer_Props
  imports Packetizer
begin

text \<open>
  Correctness of the packetizer of \<open>session/stream/video/packetizer.rs\<close>: what the shards of a
  frame carry, in which order they are numbered, how the blocks are planned and which nonce seals
  which shard. The chain of lemmas follows the code: one shard, one block, the block loop, the frame.
\<close>

section \<open>Header writers\<close>

lemma put_at_0 [slice_simps]: "put_at 0 src dst = src @ drop (length src) dst"
  by (simp add: put_at_def)

lemma length_serialize_frame_header:
  "length buffer = 8 \<Longrightarrow> length (serialize_frame_header h buffer) = 8"
  by (simp add: serialize_frame_header_def length_put_at)

lemma length_frame_header_bytes [simp]: "length (frame_header_bytes d k s l) = 8"
  by (simp add: frame_header_bytes_def length_serialize_frame_header packet_sizes Let_def)

lemma length_write_rtp_header:
  "12 \<le> length buf \<Longrightarrow> length (write_rtp_header buf q t) = length buf"
  by (simp add: write_rtp_header_def length_put_at)

lemma length_write_nv_video_packet:
  "16 \<le> length buf \<Longrightarrow> length (write_nv_video_packet buf a b c d e) = length buf"
  by (simp add: write_nv_video_packet_def length_put_at)

lemma rtp_sequence_number:
  assumes "12 \<le> length buf"
  shows "slice 2 4 (write_rtp_header buf q t) = to_be16 q"
  using assms slice_put_at_same [of 2 "to_be16 q" "put_at 1 [0] (put_at 0 [0x90] buf)"]
  by (simp add: write_rtp_header_def length_put_at slice_put_at_before)

text \<open>The two-part copy is a copy out of the concatenation it avoids to build.\<close>

lemma copy_header_and_data_eq:
  assumes "length header = VIDEO_FRAME_HEADER_SIZE"
    and "offset \<le> VIDEO_FRAME_HEADER_SIZE + length encoded_data" and "len \<le> length dst"
  shows "copy_header_and_data dst header encoded_data offset len =
    put_at 0 (slice offset (offset + len) (header @ encoded_data)) dst"
proof -
  define stop where "stop = min (offset + len) (VIDEO_FRAME_HEADER_SIZE + length encoded_data)"
  have stop: "offset \<le> stop" "stop - offset \<le> length dst"
    "stop \<le> VIDEO_FRAME_HEADER_SIZE + length encoded_data"
    using assms by (auto simp: stop_def)
  have cut: "slice offset (offset + len) (header @ encoded_data) = slice offset stop (header @ encoded_data)"
    using assms by (auto simp: slice_def min_def stop_def)
  have copy: "copy_header_and_data dst header encoded_data offset len =
      (if offset < VIDEO_FRAME_HEADER_SIZE then
         let header_end = min VIDEO_FRAME_HEADER_SIZE stop;
             dst1 = put_at 0 (slice offset header_end header) dst
         in if VIDEO_FRAME_HEADER_SIZE < stop
            then put_at (header_end - offset) (take (stop - VIDEO_FRAME_HEADER_SIZE) encoded_data) dst1
            else dst1
       else put_at 0 (slice (offset - VIDEO_FRAME_HEADER_SIZE) (stop - VIDEO_FRAME_HEADER_SIZE) encoded_data) dst)"
    by (simp add: copy_header_and_data_def Let_def stop_def)
  consider "VIDEO_FRAME_HEADER_SIZE \<le> offset"
    | "offset < VIDEO_FRAME_HEADER_SIZE" "stop \<le> VIDEO_FRAME_HEADER_SIZE"
    | "offset < VIDEO_FRAME_HEADER_SIZE" "VIDEO_FRAME_HEADER_SIZE < stop"
    by linarith
  then show ?thesis
  proof cases
    case 1
    then show ?thesis unfolding copy cut using assms stop by (simp add: slice_def)
  next
    case 2
    then show ?thesis unfolding copy cut using assms stop by (simp add: slice_def min_def)
  next
    case 3
    then have "slice offset stop (header @ encoded_data) =
        drop offset header @ take (stop - VIDEO_FRAME_HEADER_SIZE) encoded_data"
      using assms stop by (simp add: slice_def)
    with 3 assms stop show ?thesis
      unfolding copy cut by (simp add: Let_def slice_def put_at_def min_def add.commute)
  qed
qed

section \<open>One shard\<close>

lemma length_write_data_shard:
  assumes "length shard = PAYLOAD_OFFSET + fc_payload_size c"
    and "length (fc_header_bytes c) = VIDEO_FRAME_HEADER_SIZE"
    and "(block_start c bi + i) * fc_payload_size c \<le> fc_packet_data_len c"
  shows "length (write_data_shard c bi nd pct seq i shard) = length shard"
    and "slice 2 4 (write_data_shard c bi nd pct seq i shard) = to_be16 (ucast seq)"
    and "drop PAYLOAD_OFFSET (write_data_shard c bi nd pct seq i shard) =
      put_at 0 (slice ((block_start c bi + i) * fc_payload_size c)
         ((block_start c bi + i) * fc_payload_size c + fc_payload_size c)
         (fc_header_bytes c @ fc_encoded_data c)) (drop PAYLOAD_OFFSET shard)"
proof -
  define off where "off = (block_start c bi + i) * fc_payload_size c"
  define s1 where "s1 = write_rtp_header shard (ucast seq) (fc_rtp_timestamp c)"
  define nv where "nv = write_nv_video_packet
      (slice NV_PACKET_OFFSET (NV_PACKET_OFFSET + NV_VIDEO_PACKET_SIZE) s1)
      (push_bit 8 seq) (fc_frame_number c) (data_shard_flags i nd) (multi_fec_blocks c bi) (fec_info i nd pct)"
  define s2 where "s2 = put_at NV_PACKET_OFFSET nv s1"
  define pl where "pl = slice off (off + fc_payload_size c) (fc_header_bytes c @ fc_encoded_data c)"
  have l1: "length s1 = length shard" "length nv = 16" "length s2 = length shard"
    using assms(1) by (simp_all add: s1_def nv_def s2_def length_write_rtp_header packet_sizes
        length_write_nv_video_packet length_slice length_put_at)
  have tail: "drop PAYLOAD_OFFSET s2 = drop PAYLOAD_OFFSET shard"
    using assms(1) l1 by (simp add: s2_def s1_def put_at_def packet_sizes write_rtp_header_def)
  have len_pl: "length pl \<le> fc_payload_size c" by (simp add: pl_def slice_def)
  have pl: "slice off (off + min (fc_payload_size c) (fc_packet_data_len c - off))
      (fc_header_bytes c @ fc_encoded_data c) = pl"
    using assms(2) by (auto simp: pl_def slice_def fc_packet_data_len_def min_def)
  have off: "off \<le> fc_packet_data_len c" using assms(3) by (simp add: off_def)
  have eq: "write_data_shard c bi nd pct seq i shard =
      put_at PAYLOAD_OFFSET (put_at 0 pl (drop PAYLOAD_OFFSET shard)) s2"
  proof -
    have "copy_header_and_data (drop PAYLOAD_OFFSET s2) (fc_header_bytes c) (fc_encoded_data c) off
        (min (fc_payload_size c) (fc_packet_data_len c - off)) = put_at 0 pl (drop PAYLOAD_OFFSET shard)"
      unfolding tail using assms(1,2) off pl
      by (subst copy_header_and_data_eq) (simp_all add: fc_packet_data_len_def)
    then show ?thesis
      by (simp add: write_data_shard_def Let_def s1_def nv_def s2_def off_def)
  qed
  have len: "length (put_at 0 pl (drop PAYLOAD_OFFSET shard)) = fc_payload_size c"
    using assms(1) len_pl by (simp add: length_put_at)
  show "length (write_data_shard c bi nd pct seq i shard) = length shard"
    using assms(1) l1 len by (simp add: eq length_put_at)
  show "slice 2 4 (write_data_shard c bi nd pct seq i shard) = to_be16 (ucast seq)"
    using assms(1) l1 len
    by (simp add: eq s2_def slice_put_at_before length_put_at packet_sizes s1_def rtp_sequence_number)
  show "drop PAYLOAD_OFFSET (write_data_shard c bi nd pct seq i shard) =
      put_at 0 (slice ((block_start c bi + i) * fc_payload_size c)
         ((block_start c bi + i) * fc_payload_size c + fc_payload_size c)
         (fc_header_bytes c @ fc_encoded_data c)) (drop PAYLOAD_OFFSET shard)"
    using assms(1) l1 len unfolding eq off_def [symmetric] pl_def [symmetric]
    by (simp add: put_at_def)
qed

lemma length_write_parity_headers:
  assumes "32 \<le> length shard"
  shows "length (write_parity_headers c bi nd pct seq i shard) = length shard"
    and "slice 2 4 (write_parity_headers c bi nd pct seq i shard) = to_be16 (ucast seq)"
proof -
  define s1 where "s1 = put_at 2 (to_be16 (ucast seq)) (put_at 1 [0] (put_at 0 [0x90] shard))"
  have l1: "length s1 = length shard" using assms by (simp add: s1_def length_put_at)
  have q: "slice 2 4 s1 = to_be16 (ucast seq)"
    using assms slice_put_at_same [of 2 "to_be16 (ucast seq)" "put_at 1 [0] (put_at 0 [0x90] shard)"]
    by (simp add: s1_def length_put_at)
  show "length (write_parity_headers c bi nd pct seq i shard) = length shard"
    using assms l1 unfolding write_parity_headers_def Let_def s1_def [symmetric]
    by (simp add: packet_sizes length_put_at length_slice)
  show "slice 2 4 (write_parity_headers c bi nd pct seq i shard) = to_be16 (ucast seq)"
    using assms l1 q unfolding write_parity_headers_def Let_def s1_def [symmetric]
    by (simp add: packet_sizes length_put_at length_slice slice_put_at_before)
qed

section \<open>Contracts of the external code\<close>

text \<open>
  fec-rs: encoding keeps the number and the sizes of the shards and leaves the data shards as they
  are (a systematic code). aes-gcm: detached in-place encryption keeps the length and gives a
  16-byte tag.
\<close>

definition rs_contract :: "(nat \<Rightarrow> nat \<Rightarrow> 'rs option) \<Rightarrow> ('rs \<Rightarrow> bytes list \<Rightarrow> bytes list option) \<Rightarrow> bool" where
  "rs_contract rs_new rs_encode \<longleftrightarrow>
     (\<forall>nd np rs xs ys. rs_new nd np = Some rs \<longrightarrow> rs_encode rs xs = Some ys \<longrightarrow>
        map length ys = map length xs \<and> take nd ys = take nd xs)"

definition gcm_contract :: "(bytes \<Rightarrow> bytes \<Rightarrow> bytes \<Rightarrow> (bytes \<times> bytes) option) \<Rightarrow> bool" where
  "gcm_contract gcm \<longleftrightarrow>
     (\<forall>key iv x ct tag. gcm key iv x = Some (ct, tag) \<longrightarrow> length ct = length x \<and> length tag = 16)"

definition wf_packetizer :: "(nat \<Rightarrow> nat \<Rightarrow> 'rs option) \<Rightarrow> 'rs packetizer \<Rightarrow> bool" where
  "wf_packetizer rs_new p \<longleftrightarrow>
     (\<forall>nd np rs. fec_encoders p (nd, np) = Some rs \<longrightarrow> rs_new nd np = Some rs)"

lemma wf_packetizer_new [simp]: "wf_packetizer rs_new (packetizer_new e)"
  by (simp add: wf_packetizer_def packetizer_new_def)

lemma get_fec_encoder_cases:
  assumes "get_fec_encoder rs_new nd np p = (r, p')" and "wf_packetizer rs_new p"
  shows "wf_packetizer rs_new p' \<and> cipher p' = cipher p \<and> gcm_iv_counter p' = gcm_iv_counter p \<and>
    last_key_id p' = last_key_id p \<and> encrypt_video p' = encrypt_video p \<and>
    r = ok_or (rs_new nd np) \<and> (\<forall>rs. r = Inr rs \<longrightarrow> fec_encoders p' (nd, np) = Some rs)"
  using assms by (auto simp: get_fec_encoder_def wf_packetizer_def split: option.splits if_splits)

lemma maybe_update_cipher_wf: "wf_packetizer rs_new p \<Longrightarrow> wf_packetizer rs_new (maybe_update_cipher keys p)"
  by (simp add: maybe_update_cipher_def wf_packetizer_def Let_def)

section \<open>One block\<close>

lemma write_shards_from_slots:
  assumes "wf_buf b" and "i + length xs \<le> buf_shard_count b"
    and "\<forall>x \<in> set xs. length x = buf_data_size b"
  shows "wf_buf (write_shards_from b i xs) \<and> buf_dims (write_shards_from b i xs) = buf_dims b \<and>
    (\<forall>j < buf_shard_count b. buf_slots (write_shards_from b i xs) ! j =
       (if i \<le> j \<and> j < i + length xs then (fst (buf_slots b ! j), xs ! (j - i)) else buf_slots b ! j))"
  using assms
proof (induction xs arbitrary: b i)
  case Nil
  then show ?case by auto
next
  case (Cons x xs)
  define b1 where "b1 = write_shard b i x"
  have i: "i < buf_shard_count b" "length x = buf_data_size b" using Cons.prems by auto
  have b1: "wf_buf b1" "buf_dims b1 = buf_dims b" "buf_shard_count b1 = buf_shard_count b"
    "buf_data_size b1 = buf_data_size b"
    "buf_slots b1 = (buf_slots b)[i := (fst (buf_slots b ! i), x)]"
    using Cons.prems(1) i by (simp_all add: b1_def wf_write_shard slots_write_shard buf_dims_def)
  have IH: "wf_buf (write_shards_from b1 (Suc i) xs) \<and>
    buf_dims (write_shards_from b1 (Suc i) xs) = buf_dims b1 \<and>
    (\<forall>j < buf_shard_count b1. buf_slots (write_shards_from b1 (Suc i) xs) ! j =
       (if Suc i \<le> j \<and> j < Suc i + length xs then (fst (buf_slots b1 ! j), xs ! (j - Suc i))
        else buf_slots b1 ! j))"
    using Cons.IH [of b1 "Suc i"] Cons.prems b1 by simp
  have "buf_slots (write_shards_from b i (x # xs)) ! j =
       (if i \<le> j \<and> j < i + length (x # xs) then (fst (buf_slots b ! j), (x # xs) ! (j - i))
        else buf_slots b ! j)" if "j < buf_shard_count b" for j
    using IH that b1 i by (cases "j = i") (auto simp: b1_def [symmetric] nth_Cons')
  with IH b1 show ?case by (simp add: b1_def)
qed

lemma as_fec_slices_slots: "as_fec_slices b = map snd (buf_slots b)"
  by (simp add: as_fec_slices_def buf_slots_def)

definition block_ok :: "frame_ctx \<Rightarrow> nat \<Rightarrow> nat \<Rightarrow> bool" where
  "block_ok c bi nd \<longleftrightarrow> length (fc_header_bytes c) = VIDEO_FRAME_HEADER_SIZE \<and>
     (\<forall>i < nd. (block_start c bi + i) * fc_payload_size c \<le> fc_packet_data_len c)"

abbreviation zero_shard :: "frame_ctx \<Rightarrow> bytes" where
  "zero_shard c \<equiv> replicate (PAYLOAD_OFFSET + fc_payload_size c) 0"

lemma assemble_block_slots:
  assumes ok: "block_ok c bi nd"
    and rs: "rs_contract rs_new rs_encode"
    and enc: "(encoder = None \<and> np = 0) \<or> (\<exists>rs. encoder = Some rs \<and> rs_new nd np = Some rs)"
    and run: "assemble_block rs_encode c bi nd np encoder seq = (Inr buf, seq')"
  shows "wf_buf buf \<and> buf_dims buf = (fc_prefix_size c, PAYLOAD_OFFSET + fc_payload_size c, nd + np) \<and>
    seq' = seq + of_nat (nd + np) \<and>
    (\<forall>i < nd. buf_slots buf ! i =
       (replicate (fc_prefix_size c) 0,
        write_data_shard c bi nd (np * 100 div nd) (seq + of_nat i) i (zero_shard c))) \<and>
    (\<forall>i. nd \<le> i \<and> i < nd + np \<longrightarrow>
       slice 2 4 (snd (buf_slots buf ! i)) = to_be16 (ucast (seq + of_nat i)))"
proof -
  define f where "f = write_data_shard c bi nd (np * 100 div nd)"
  define g where "g = write_parity_headers c bi nd (np * 100 div nd)"
  define b0 where "b0 = shard_buf_new (nd + np) (PAYLOAD_OFFSET + fc_payload_size c) (fc_prefix_size c)"
  have b0: "wf_buf b0" "buf_dims b0 = (fc_prefix_size c, PAYLOAD_OFFSET + fc_payload_size c, nd + np)"
    by (simp_all add: b0_def buf_dims_def)
  have f_len: "length (f q i x) = fst (snd (buf_dims b0))"
    if "0 \<le> i" "i < 0 + nd" "length x = fst (snd (buf_dims b0))" for q i x
    using length_write_data_shard(1) [of x c bi i nd] ok that b0(2)
    by (simp add: f_def block_ok_def)
  obtain b1 where b1: "update_loop shard_mut write_shard f [0..<0 + nd] seq b0 = (seq + of_nat nd, b1)"
      "wf_buf b1" "buf_dims b1 = buf_dims b0" "length (buf_slots b1) = length (buf_slots b0)"
    and s1: "\<forall>j < length (buf_slots b0). buf_slots b1 ! j =
        (if 0 \<le> j \<and> j < 0 + nd
         then (fst (buf_slots b0 ! j), f (seq + of_nat (j - 0)) j (snd (buf_slots b0 ! j)))
         else buf_slots b0 ! j)"
    using sbuf.update_loop_upt [OF b0(1), of 0 nd f seq] f_len b0(2)
    by (auto simp: buf_dims_def)
  have cnt: "buf_shard_count b0 = nd + np" by (simp add: b0_def)
  have data1: "buf_slots b1 ! i = (replicate (fc_prefix_size c) 0, f (seq + of_nat i) i (zero_shard c))"
    if "i < nd" for i
    using s1 that by (simp add: cnt) (simp add: b0_def slots_shard_buf_new)
  show ?thesis
  proof (cases encoder)
    case None
    with run enc b1(1) have "buf = b1" "seq' = seq + of_nat nd" "np = 0"
      by (simp_all add: assemble_block_def Let_def f_def b0_def)
    with b1 b0 data1 show ?thesis by (auto simp: f_def)
  next
    case (Some rs)
    with enc have new: "rs_new nd np = Some rs" by simp
    from run Some b1(1) obtain xs where xs: "rs_encode rs (as_fec_slices b1) = Some xs"
      and r: "update_loop shard_mut write_shard g [nd..<nd + np] (seq + of_nat nd) (write_fec_slices b1 xs)
        = (seq', buf)"
      by (auto simp: assemble_block_def Let_def f_def g_def b0_def split: option.splits prod.splits)
    have lens: "map length xs = map length (as_fec_slices b1)" "take nd xs = take nd (as_fec_slices b1)"
      using rs new xs by (auto simp: rs_contract_def)
    have len_xs: "length xs = nd + np"
      using lens(1) b1(4) cnt by (metis as_fec_slices_slots length_buf_slots length_map)
    have count1: "buf_shard_count b1 = nd + np" using b1(4) cnt by simp
    have dsz: "buf_data_size b1 = PAYLOAD_OFFSET + fc_payload_size c"
      using b1(3) b0(2) by (simp add: buf_dims_def)
    have elem: "\<forall>x \<in> set xs. length x = buf_data_size b1"
    proof
      fix x assume "x \<in> set xs"
      then have "length x \<in> set (map length (as_fec_slices b1))" using lens(1) by (metis image_eqI list.set_map)
      then show "length x = buf_data_size b1"
        using length_shard_mut [OF b1(2)] by (auto simp: as_fec_slices_def)
    qed
    define b2 where "b2 = write_fec_slices b1 xs"
    have b2: "wf_buf b2" "buf_dims b2 = buf_dims b1"
      and s2: "\<forall>j < nd + np. buf_slots b2 ! j = (fst (buf_slots b1 ! j), xs ! j)"
      using write_shards_from_slots [OF b1(2) _ elem, of 0] len_xs count1
      by (auto simp: b2_def write_fec_slices_def)
    have g_len: "length (g q i x) = fst (snd (buf_dims b2))"
      if "nd \<le> i" "i < nd + np" "length x = fst (snd (buf_dims b2))" for q i x
      using length_write_parity_headers(1) [of x] that b2(2) b1(3) b0(2)
      by (simp add: g_def packet_sizes)
    have count2: "buf_shard_count b2 = nd + np" using b2(2) b1(3) b0(2) by (simp add: buf_dims_def)
    obtain b3 where b3: "update_loop shard_mut write_shard g [nd..<nd + np] (seq + of_nat nd) b2 =
        (seq + of_nat nd + of_nat np, b3)" "wf_buf b3" "buf_dims b3 = buf_dims b2"
      and s3: "\<forall>j < length (buf_slots b2). buf_slots b3 ! j =
        (if nd \<le> j \<and> j < nd + np
         then (fst (buf_slots b2 ! j), g (seq + of_nat nd + of_nat (j - nd)) j (snd (buf_slots b2 ! j)))
         else buf_slots b2 ! j)"
      using sbuf.update_loop_upt [OF b2(1), of nd np g "seq + of_nat nd"] g_len count2 by auto
    from r b3(1) have buf: "buf = b3" "seq' = seq + of_nat nd + of_nat np"
      by (simp_all add: b2_def)
    have xs_data: "xs ! i = snd (buf_slots b1 ! i)" if "i < nd" for i
    proof -
      have "xs ! i = take nd xs ! i" using that by simp
      also have "\<dots> = as_fec_slices b1 ! i" using lens(2) that by simp
      finally show ?thesis using that count1 by (simp add: as_fec_slices_slots)
    qed
    have d3: "buf_slots b3 ! i = (replicate (fc_prefix_size c) 0, f (seq + of_nat i) i (zero_shard c))"
      if "i < nd" for i
      using that s3 s2 xs_data [OF that] data1 [OF that] count2 by simp
    have p3: "slice 2 4 (snd (buf_slots b3 ! i)) = to_be16 (ucast (seq + of_nat i))"
      if i: "nd \<le> i \<and> i < nd + np" for i
    proof -
      have "length (snd (buf_slots b2 ! i)) = PAYLOAD_OFFSET + fc_payload_size c"
        using sbuf.data_size [OF b2(1), of i] i count2 b2(2) b1(3) b0(2) by simp
      then have "slice 2 4 (g (seq + of_nat nd + of_nat (i - nd)) i (snd (buf_slots b2 ! i))) =
          to_be16 (ucast (seq + of_nat nd + of_nat (i - nd)))"
        unfolding g_def by (intro length_write_parity_headers(2)) (simp add: packet_sizes)
      moreover have "of_nat nd + of_nat (i - nd) = (of_nat i :: u32)"
        using i by (simp flip: of_nat_add)
      ultimately show ?thesis using i s3 count2 by (simp add: add.assoc)
    qed
    show ?thesis
      using buf b3 b2 b1 b0 d3 p3 by (simp add: f_def add.assoc)
  qed
qed

text \<open>What the wire carries for a plain shard: the shard itself, or its prefix and ciphertext.\<close>

fun wire_shard :: "(bytes \<Rightarrow> bytes \<Rightarrow> bytes \<Rightarrow> (bytes \<times> bytes) option) \<Rightarrow> bytes option \<Rightarrow> u32 \<Rightarrow> u64 \<Rightarrow>
    bytes \<Rightarrow> bytes option" where
  "wire_shard gcm None frame counter x = Some x"
| "wire_shard gcm (Some key) frame counter x =
     map_option (\<lambda>(ct, tag). (video_iv counter @ to_le32 frame @ tag) @ ct) (gcm key (video_iv counter) x)"

definition counter_after :: "bytes option \<Rightarrow> u64 \<Rightarrow> nat \<Rightarrow> u64" where
  "counter_after key counter n = (if key = None then counter else counter + of_nat n)"

lemma length_video_iv [simp]: "length (video_iv c) = 12"
  by (simp add: video_iv_def length_put_at)

lemma encrypt_block_shards:
  assumes gcm: "gcm_contract gcm" and wf: "wf_buf buf"
    and dims: "buf_prefix_size buf = (if cipher p \<noteq> None then ENC_PREFIX_SIZE else 0)"
    and pos: "0 < buf_data_size buf"
    and run: "encrypt_block gcm c p buf = (Inr buf', p')"
  shows "wf_buf buf' \<and> buf_dims buf' = buf_dims buf \<and>
    p' = p\<lparr>gcm_iv_counter := counter_after (cipher p) (gcm_iv_counter p) (buf_shard_count buf)\<rparr> \<and>
    (\<forall>i < buf_shard_count buf.
       wire_shard gcm (cipher p) (fc_frame_number c) (gcm_iv_counter p + of_nat i) (snd (buf_slots buf ! i)) =
       Some (batch_shards (into_batch buf') ! i))"
proof (cases "cipher p")
  case None
  with run have eq: "buf' = buf" "p' = p" by (simp_all add: encrypt_block_def)
  have "0 < buf_stride buf" using wf pos by (simp add: wf_buf_def)
  then have "batch_shards (into_batch buf) ! i = snd (buf_slots buf ! i)"
    if "i < buf_shard_count buf" for i
    using batch_shards_into_batch [OF wf] that length_prefix_mut [OF wf that] dims None
    by (simp add: nth_buf_slots)
  with None eq wf show ?thesis by (simp add: counter_after_def)
next
  case (Some key)
  define seal where "seal = seal_shard gcm key (fc_frame_number c)"
  from run Some obtain c' where
    loop: "seal_loop shard_mut write_shard write_prefix seal [0..<0 + buf_shard_count buf]
      (gcm_iv_counter p) buf = (c', Some buf')" and p': "p' = p\<lparr>gcm_iv_counter := c'\<rparr>"
    by (auto simp: encrypt_block_def seal_def Let_def split: prod.splits option.splits)
  have sealed: "length ct = fst (snd (buf_dims buf)) \<and> length pre = fst (buf_dims buf)"
    if "length x = fst (snd (buf_dims buf))" and "seal q x = Some (ct, pre)" for q x ct pre
    using that gcm dims Some
    by (auto simp: seal_def seal_shard_def gcm_contract_def buf_dims_def packet_sizes)
  have L: "c' = gcm_iv_counter p + of_nat (buf_shard_count buf) \<and> wf_buf buf' \<and>
      buf_dims buf' = buf_dims buf \<and> length (buf_slots buf') = length (buf_slots buf) \<and>
      (\<forall>j < length (buf_slots buf).
         (0 \<le> j \<and> j < 0 + buf_shard_count buf \<longrightarrow>
            map_option prod.swap (seal (gcm_iv_counter p + of_nat (j - 0)) (snd (buf_slots buf ! j))) =
              Some (buf_slots buf' ! j)) \<and>
         (\<not> (0 \<le> j \<and> j < 0 + buf_shard_count buf) \<longrightarrow> buf_slots buf' ! j = buf_slots buf ! j))"
    by (rule sbuf.seal_loop_upt [OF wf _ loop sealed]) simp_all
  have "0 < buf_stride buf'" using L pos by (auto simp: wf_buf_def buf_dims_def)
  then have shards: "batch_shards (into_batch buf') = map (\<lambda>(p, d). p @ d) (buf_slots buf')"
    using L batch_shards_into_batch by blast
  have "wire_shard gcm (Some key) (fc_frame_number c) (gcm_iv_counter p + of_nat i) (snd (buf_slots buf ! i)) =
      Some (batch_shards (into_batch buf') ! i)" if i: "i < buf_shard_count buf" for i
  proof -
    have "map_option prod.swap (seal (gcm_iv_counter p + of_nat i) (snd (buf_slots buf ! i))) =
        Some (buf_slots buf' ! i)" using L i by simp
    then obtain ct tag where
      "gcm key (video_iv (gcm_iv_counter p + of_nat i)) (snd (buf_slots buf ! i)) = Some (ct, tag)"
      "buf_slots buf' ! i = (video_iv (gcm_iv_counter p + of_nat i) @ to_le32 (fc_frame_number c) @ tag, ct)"
      by (auto simp: seal_def seal_shard_def)
    then show ?thesis using i L by (simp add: shards)
  qed
  with L p' Some show ?thesis by (simp add: counter_after_def)
qed

lemma block_encoder_cases:
  assumes "block_encoder rs_new nd np p = (Inr encoder, p')" and "wf_packetizer rs_new p"
  shows "wf_packetizer rs_new p' \<and> cipher p' = cipher p \<and> gcm_iv_counter p' = gcm_iv_counter p \<and>
    ((encoder = None \<and> np = 0) \<or> (\<exists>rs. encoder = Some rs \<and> rs_new nd np = Some rs))"
  using assms get_fec_encoder_cases [of rs_new nd np p]
  by (cases "rs_new nd np") (auto simp: block_encoder_def split: if_splits prod.splits sum.splits)

definition padded_payload :: "frame_ctx \<Rightarrow> nat \<Rightarrow> bytes" where
  "padded_payload c j =
     put_at 0 (slice (j * fc_payload_size c) (j * fc_payload_size c + fc_payload_size c)
        (fc_header_bytes c @ fc_encoded_data c)) (replicate (fc_payload_size c) 0)"

definition shard_seq :: "bytes \<Rightarrow> u16" where
  "shard_seq s = from_be16 (slice 2 4 s)"

definition plain_block :: "frame_ctx \<Rightarrow> nat \<Rightarrow> u32 \<Rightarrow> bytes list \<Rightarrow> bool" where
  "plain_block c bi seq plain \<longleftrightarrow> length plain = block_nd c bi + block_np c bi \<and>
     map (drop PAYLOAD_OFFSET) (take (block_nd c bi) plain) =
       map (padded_payload c) [block_start c bi..<block_start c bi + block_nd c bi] \<and>
     (\<forall>i < length plain. shard_seq (plain ! i) = ucast (seq + of_nat i))"

definition batch_ok :: "frame_ctx \<Rightarrow> shard_batch \<Rightarrow> bool" where
  "batch_ok c b \<longleftrightarrow> batch_shard_size b = fc_prefix_size c + (PAYLOAD_OFFSET + fc_payload_size c) \<and>
     batch_shard_size b dvd length (batch_data b)"

lemma packetize_block_ok:
  assumes ctr: "rs_contract rs_new rs_encode" "gcm_contract gcm"
    and wf: "wf_packetizer rs_new p"
    and ok: "block_ok c bi (block_nd c bi)"
    and dims: "fc_prefix_size c = (if cipher p \<noteq> None then ENC_PREFIX_SIZE else 0)"
    and run: "packetize_block rs_new rs_encode gcm c bi p seq = (Inr batch, p', seq')"
  shows "wf_packetizer rs_new p' \<and> cipher p' = cipher p \<and>
    seq' = seq + of_nat (block_nd c bi + block_np c bi) \<and>
    gcm_iv_counter p' = counter_after (cipher p) (gcm_iv_counter p) (block_nd c bi + block_np c bi) \<and>
    batch_ok c batch \<and>
    (\<exists>plain. plain_block c bi seq plain \<and> length (batch_shards batch) = length plain \<and>
       (\<forall>i < length plain. wire_shard gcm (cipher p) (fc_frame_number c) (gcm_iv_counter p + of_nat i) (plain ! i) =
          Some (batch_shards batch ! i)))"
proof -
  define nd where "nd = block_nd c bi"
  define np where "np = block_np c bi"
  from run obtain encoder g buf buf' where
    e: "block_encoder rs_new nd np p = (Inr encoder, g)"
    and a: "assemble_block rs_encode c bi nd np encoder seq = (Inr buf, seq')"
    and s: "encrypt_block gcm c g buf = (Inr buf', p')" and batch: "batch = into_batch buf'"
    unfolding packetize_block_def nd_def [symmetric] np_def [symmetric]
    by (auto split: prod.splits sum.splits)
  have enp: "wf_packetizer rs_new g \<and> cipher g = cipher p \<and> gcm_iv_counter g = gcm_iv_counter p \<and>
      ((encoder = None \<and> np = 0) \<or> (\<exists>rs. encoder = Some rs \<and> rs_new nd np = Some rs))"
    by (rule block_encoder_cases [OF e wf])
  have A: "wf_buf buf \<and> buf_dims buf = (fc_prefix_size c, PAYLOAD_OFFSET + fc_payload_size c, nd + np) \<and>
    seq' = seq + of_nat (nd + np) \<and>
    (\<forall>i < nd. buf_slots buf ! i =
       (replicate (fc_prefix_size c) 0,
        write_data_shard c bi nd (np * 100 div nd) (seq + of_nat i) i (zero_shard c))) \<and>
    (\<forall>i. nd \<le> i \<and> i < nd + np \<longrightarrow>
       slice 2 4 (snd (buf_slots buf ! i)) = to_be16 (ucast (seq + of_nat i)))"
    using assemble_block_slots [OF _ ctr(1) _ a] ok enp by (simp add: nd_def)
  have dbuf: "buf_prefix_size buf = fc_prefix_size c" "buf_data_size buf = PAYLOAD_OFFSET + fc_payload_size c"
    "buf_shard_count buf = nd + np" using A by (simp_all add: buf_dims_def)
  have S: "wf_buf buf' \<and> buf_dims buf' = buf_dims buf \<and>
    p' = g\<lparr>gcm_iv_counter := counter_after (cipher g) (gcm_iv_counter g) (buf_shard_count buf)\<rparr> \<and>
    (\<forall>i < buf_shard_count buf.
       wire_shard gcm (cipher g) (fc_frame_number c) (gcm_iv_counter g + of_nat i) (snd (buf_slots buf ! i)) =
       Some (batch_shards (into_batch buf') ! i))"
    using s
    by (intro encrypt_block_shards [OF ctr(2)]) (use A dbuf dims enp in \<open>auto simp: packet_sizes\<close>)
  define plain where "plain = map snd (buf_slots buf)"
  have len: "length plain = nd + np" by (simp add: plain_def dbuf)
  have data: "plain ! i = write_data_shard c bi nd (np * 100 div nd) (seq + of_nat i) i (zero_shard c)"
    if "i < nd" for i using A that dbuf by (simp add: plain_def)
  have off: "(block_start c bi + i) * fc_payload_size c \<le> fc_packet_data_len c"
    "length (fc_header_bytes c) = VIDEO_FRAME_HEADER_SIZE" if "i < nd" for i
    using ok that by (simp_all add: block_ok_def nd_def)
  have pay: "drop PAYLOAD_OFFSET (plain ! i) = padded_payload c (block_start c bi + i)" if "i < nd" for i
    using length_write_data_shard(3) [of "zero_shard c" c bi i nd "np * 100 div nd" "seq + of_nat i"]
      data [OF that] off [OF that] by (simp add: padded_payload_def)
  have seqs: "shard_seq (plain ! i) = ucast (seq + of_nat i)" if "i < nd + np" for i
  proof (cases "i < nd")
    case True
    then show ?thesis
      using length_write_data_shard(2) [of "zero_shard c" c bi i nd "np * 100 div nd" "seq + of_nat i"]
        data [OF True] off [OF True] by (simp add: shard_seq_def)
  next
    case False
    then show ?thesis using A that dbuf by (simp add: shard_seq_def plain_def)
  qed
  have pb: "plain_block c bi seq plain"
    unfolding plain_block_def nd_def [symmetric] np_def [symmetric]
    by (auto simp: len seqs pay intro!: nth_equalityI)
  have "length (batch_shards batch) = length plain"
    using S dbuf batch_shards_into_batch [of buf'] by (auto simp: batch len wf_buf_def buf_dims_def packet_sizes)
  moreover have "batch_ok c batch"
    using S dbuf by (auto simp: batch_ok_def batch into_batch_def wf_buf_def buf_dims_def)
  moreover have "wf_packetizer rs_new p'" "cipher p' = cipher p"
    using S enp by (simp_all add: wf_packetizer_def)
  ultimately show ?thesis
    using A S enp dbuf pb by (auto simp: nd_def np_def batch plain_def)
qed

section \<open>The block loop\<close>

definition block_sizes :: "frame_ctx \<Rightarrow> nat list \<Rightarrow> (nat \<times> nat) list" where
  "block_sizes c bis = map (\<lambda>bi. (block_nd c bi, block_np c bi)) bis"

text \<open>The data shards of a frame, picked out of its blocks of (data, parity) shards.\<close>

fun select_data :: "(nat \<times> nat) list \<Rightarrow> 'a list \<Rightarrow> 'a list" where
  "select_data [] xs = []"
| "select_data ((d, p) # bs) xs = take d xs @ select_data bs (drop (d + p) xs)"

definition total_shards :: "(nat \<times> nat) list \<Rightarrow> nat" where
  "total_shards bs = sum_list (map (\<lambda>(d, p). d + p) bs)"

lemma select_data_append:
  "length xs = d + p \<Longrightarrow> select_data ((d, p) # bs) (xs @ ys) = take d xs @ select_data bs ys"
  by simp

definition plain_frame :: "frame_ctx \<Rightarrow> nat list \<Rightarrow> u32 \<Rightarrow> bytes list \<Rightarrow> bool" where
  "plain_frame c bis seq plain \<longleftrightarrow> length plain = total_shards (block_sizes c bis) \<and>
     map (drop PAYLOAD_OFFSET) (select_data (block_sizes c bis) plain) =
       map (padded_payload c) (concat (map (\<lambda>bi. [block_start c bi..<block_start c bi + block_nd c bi]) bis)) \<and>
     (\<forall>i < length plain. shard_seq (plain ! i) = ucast (seq + of_nat i))"

lemma plain_frame_Nil [simp]: "plain_frame c [] seq []"
  by (simp add: plain_frame_def block_sizes_def total_shards_def)

lemma nth_append_counter:
  assumes "\<forall>i < length xs. P (a + of_nat i) (xs ! i)"
    and "\<forall>i < length ys. P (a + of_nat (length xs) + of_nat i) (ys ! i)"
  shows "\<forall>i < length (xs @ ys). P (a + of_nat i :: 'w::len word) ((xs @ ys) ! i)"
proof (intro allI impI)
  fix i assume i: "i < length (xs @ ys)"
  show "P (a + of_nat i) ((xs @ ys) ! i)"
  proof (cases "i < length xs")
    case True
    then show ?thesis using assms(1) by (simp add: nth_append)
  next
    case False
    then have "a + of_nat i = a + of_nat (length xs) + (of_nat (i - length xs) :: 'w word)"
      by (simp add: add.assoc flip: of_nat_add)
    moreover have "i - length xs < length ys" using False i by simp
    ultimately show ?thesis using assms(2) False by (simp only: nth_append if_False)
  qed
qed

lemma plain_frame_Cons:
  assumes "plain_block c bi seq xs" and "plain_frame c bis (seq + of_nat (block_nd c bi + block_np c bi)) ys"
  shows "plain_frame c (bi # bis) seq (xs @ ys)"
proof -
  have "\<forall>i < length (xs @ ys). shard_seq ((xs @ ys) ! i) = ucast (seq + of_nat i)"
    using assms by (intro nth_append_counter) (simp_all add: plain_block_def plain_frame_def)
  with assms show ?thesis
    by (simp add: plain_frame_def plain_block_def block_sizes_def total_shards_def)
qed

lemma counter_after_add:
  "counter_after k (counter_after k a m) n = counter_after k a (m + n)"
  by (simp add: counter_after_def)

lemma wire_counter_after:
  "wire_shard gcm k f (counter_after k a m + x) y = wire_shard gcm k f (a + of_nat m + x) y"
  by (cases k) (simp_all add: counter_after_def)

lemma batch_shards_empty [simp]: "batch_shards batch_empty = []"
  by (simp add: batch_shards_def batch_empty_def chunks.simps)

lemma extend_from_ok:
  assumes "b = batch_empty \<or> batch_ok c b" and "batch_ok c other"
  shows "batch_ok c (extend_from b other) \<and>
    batch_shards (extend_from b other) = batch_shards b @ batch_shards other"
proof -
  have pos: "0 < batch_shard_size other" using assms(2) by (simp add: batch_ok_def packet_sizes)
  have "batch_shards (extend_from b other) = batch_shards b @ batch_shards other"
    by (rule batch_shards_extend_from) (use assms pos in \<open>auto simp: batch_ok_def batch_empty_def\<close>)
  moreover have "batch_ok c (extend_from b other)"
    using assms pos by (auto simp: batch_ok_def extend_from_def batch_empty_def)
  ultimately show ?thesis by blast
qed

lemma packetize_blocks_ok:
  assumes ctr: "rs_contract rs_new rs_encode" "gcm_contract gcm"
    and wf: "wf_packetizer rs_new p"
    and ok: "\<forall>bi \<in> set bis. block_ok c bi (block_nd c bi)" and last: "3 \<notin> set (butlast bis)"
    and dims: "fc_prefix_size c = (if cipher p \<noteq> None then ENC_PREFIX_SIZE else 0)"
    and acc: "acc = batch_empty \<or> batch_ok c acc"
    and run: "packetize_blocks rs_new rs_encode gcm c bis acc p seq = (Inr batch, p', seq')"
  shows "wf_packetizer rs_new p' \<and> cipher p' = cipher p \<and>
    seq' = seq + of_nat (total_shards (block_sizes c bis)) \<and>
    gcm_iv_counter p' = counter_after (cipher p) (gcm_iv_counter p) (total_shards (block_sizes c bis)) \<and>
    (bis \<noteq> [] \<longrightarrow> batch_ok c batch) \<and>
    (\<exists>plain wires. plain_frame c bis seq plain \<and> batch_shards batch = batch_shards acc @ wires \<and>
       length wires = length plain \<and>
       (\<forall>i < length plain. wire_shard gcm (cipher p) (fc_frame_number c) (gcm_iv_counter p + of_nat i) (plain ! i) =
          Some (wires ! i)))"
  using wf ok last dims acc run
proof (induction bis arbitrary: p seq acc)
  case Nil
  then show ?case by (simp add: block_sizes_def total_shards_def counter_after_def exI [of _ "[]"])
next
  case (Cons bi bis)
  let ?n = "block_nd c bi + block_np c bi"
  from Cons.prems(6) obtain b1 p1 s1 where
    blk: "packetize_block rs_new rs_encode gcm c bi p seq = (Inr b1, p1, s1)"
    by (auto split: prod.splits sum.splits)
  have B: "wf_packetizer rs_new p1 \<and> cipher p1 = cipher p \<and> s1 = seq + of_nat ?n \<and>
    gcm_iv_counter p1 = counter_after (cipher p) (gcm_iv_counter p) ?n \<and> batch_ok c b1 \<and>
    (\<exists>plain. plain_block c bi seq plain \<and> length (batch_shards b1) = length plain \<and>
       (\<forall>i < length plain. wire_shard gcm (cipher p) (fc_frame_number c) (gcm_iv_counter p + of_nat i) (plain ! i) =
          Some (batch_shards b1 ! i)))"
    by (rule packetize_block_ok [OF ctr Cons.prems(1) _ Cons.prems(4) blk]) (use Cons.prems(2) in simp)
  then obtain xs where xs: "plain_block c bi seq xs" "length (batch_shards b1) = length xs"
    "\<forall>i < length xs. wire_shard gcm (cipher p) (fc_frame_number c) (gcm_iv_counter p + of_nat i) (xs ! i) =
          Some (batch_shards b1 ! i)" by blast
  have len: "length xs = ?n" using xs(1) by (simp add: plain_block_def)
  define acc1 where "acc1 = extend_from acc b1"
  have a1: "batch_ok c acc1 \<and> batch_shards acc1 = batch_shards acc @ batch_shards b1"
    unfolding acc1_def using extend_from_ok Cons.prems(5) B by blast
  have rest: "packetize_blocks rs_new rs_encode gcm c bis acc1 p1 s1 = (Inr batch, p', seq')"
  proof (cases "bi = 3")
    case True
    with Cons.prems(3) have "bis = []" by (auto split: if_splits)
    with True Cons.prems(6) blk show ?thesis by (simp add: acc1_def)
  next
    case False
    with Cons.prems(6) blk show ?thesis by (simp add: acc1_def)
  qed
  have IH: "wf_packetizer rs_new p' \<and> cipher p' = cipher p1 \<and>
    seq' = s1 + of_nat (total_shards (block_sizes c bis)) \<and>
    gcm_iv_counter p' = counter_after (cipher p1) (gcm_iv_counter p1) (total_shards (block_sizes c bis)) \<and>
    (bis \<noteq> [] \<longrightarrow> batch_ok c batch) \<and>
    (\<exists>plain wires. plain_frame c bis s1 plain \<and> batch_shards batch = batch_shards acc1 @ wires \<and>
       length wires = length plain \<and>
       (\<forall>i < length plain. wire_shard gcm (cipher p1) (fc_frame_number c) (gcm_iv_counter p1 + of_nat i) (plain ! i) =
          Some (wires ! i)))"
    by (rule Cons.IH) (use Cons.prems B a1 rest in \<open>auto split: if_splits\<close>)
  then obtain ys ws where ys: "plain_frame c bis s1 ys" "batch_shards batch = batch_shards acc1 @ ws"
    "length ws = length ys"
    "\<forall>i < length ys. wire_shard gcm (cipher p1) (fc_frame_number c) (gcm_iv_counter p1 + of_nat i) (ys ! i) =
          Some (ws ! i)" by blast
  have pf: "plain_frame c (bi # bis) seq (xs @ ys)"
    using plain_frame_Cons [OF xs(1)] ys(1) B by simp
  have zs: "\<forall>i < length (zip xs (batch_shards b1) @ zip ys ws).
      (\<lambda>q (x, w). wire_shard gcm (cipher p) (fc_frame_number c) q x = Some w) (gcm_iv_counter p + of_nat i)
        ((zip xs (batch_shards b1) @ zip ys ws) ! i)"
    by (rule nth_append_counter)
      (use xs ys B len in \<open>auto simp: wire_counter_after\<close>)
  have zip: "zip xs (batch_shards b1) @ zip ys ws = zip (xs @ ys) (batch_shards b1 @ ws)"
    using xs(2) by simp
  have wires: "\<forall>i < length (xs @ ys).
      wire_shard gcm (cipher p) (fc_frame_number c) (gcm_iv_counter p + of_nat i) ((xs @ ys) ! i) =
        Some ((batch_shards b1 @ ws) ! i)"
    using zs xs(2) ys(3) unfolding zip by (simp del: zip_append)
  have tot: "total_shards (block_sizes c (bi # bis)) = ?n + total_shards (block_sizes c bis)"
    by (simp add: total_shards_def block_sizes_def)
  have "batch_ok c batch"
    using IH a1 rest by (cases bis) auto
  moreover have "batch_shards batch = batch_shards acc @ (batch_shards b1 @ ws)"
    using ys(2) a1 by simp
  moreover have "length (batch_shards b1 @ ws) = length (xs @ ys)" using xs(2) ys(3) by simp
  moreover have "gcm_iv_counter p' = counter_after (cipher p) (gcm_iv_counter p)
      (total_shards (block_sizes c (bi # bis)))"
    using IH B by (simp add: tot counter_after_add)
  moreover have "seq' = seq + of_nat (total_shards (block_sizes c (bi # bis)))"
    using IH B by (simp add: tot add.assoc)
  moreover have "wf_packetizer rs_new p'" "cipher p' = cipher p" using IH B by simp_all
  ultimately show ?case using pf wires by blast
qed

section \<open>The block plan\<close>

lemma per_block_pos: "0 < nr_data_shards_per_block (unat (pct :: u8))"
proof -
  have "unat pct \<le> 255" using unat_u8_less [of pct] by simp
  then have "255 * unat pct < 255 * (100 + unat pct)" by simp
  then have "255 * unat pct div (100 + unat pct) < 255" by (simp add: div_less_iff_less_mult)
  then show ?thesis by (simp add: nr_data_shards_per_block_def nr_parity_shards_per_block_def packet_sizes)
qed

lemma div_ceil_bounds:
  assumes "0 < b" and "0 < a"
  shows "0 < div_ceil a b" and "(div_ceil a b - 1) * b < a" and "a \<le> div_ceil a b * b"
proof -
  have a: "a = a div b * b + a mod b" by simp
  have m: "a mod b < b" using assms(1) by simp
  show "0 < div_ceil a b"
    using assms by (auto simp: div_ceil_def intro!: Nat.gr0I)
  show "a \<le> div_ceil a b * b"
  proof -
    have "a \<le> b + a div b * b" using a m by linarith
    then show ?thesis using a by (auto simp: div_ceil_def)
  qed
  show "(div_ceil a b - 1) * b < a"
  proof (cases "a mod b = 0")
    case True
    then have "(div_ceil a b - 1) * b = a - b" using a by (simp add: div_ceil_def diff_mult_distrib)
    with assms show ?thesis by simp
  next
    case False
    then have "(div_ceil a b - 1) * b = a div b * b" by (simp add: div_ceil_def)
    with False a show ?thesis by linarith
  qed
qed

text \<open>The blocks that are sent: at most four, each starting where the one before it ended, the
  last one ending with the last data shard.\<close>

definition frame_blocks :: "frame_ctx \<Rightarrow> nat list" where
  "frame_blocks c = [0..<min (nr_blocks (fc_nr_data_shards c) (fc_per_block c)) 4]"

lemma block_start_less:
  assumes "0 < fc_per_block c" and "bi < nr_blocks (fc_nr_data_shards c) (fc_per_block c)"
    and "0 < fc_nr_data_shards c"
  shows "block_start c bi < fc_nr_data_shards c"
proof -
  have "bi \<le> (fc_nr_data_shards c - 1) div fc_per_block c" using assms(2) by (simp add: nr_blocks_def)
  then have "bi * fc_per_block c \<le> fc_nr_data_shards c - 1"
    using assms(1) by (simp add: less_eq_div_iff_mult_less_eq)
  with assms(3) show ?thesis by (simp add: block_start_def)
qed

lemma block_end_next:
  assumes "0 < fc_per_block c" and "0 < fc_nr_data_shards c"
    and "Suc bi < min (nr_blocks (fc_nr_data_shards c) (fc_per_block c)) 4"
  shows "block_end c bi = block_start c (Suc bi)"
  using assms block_start_less [of c "Suc bi"] by (simp add: block_end_def block_start_def)

lemma block_end_last:
  assumes "0 < fc_per_block c" and "0 < fc_nr_data_shards c"
    and "Suc bi = min (nr_blocks (fc_nr_data_shards c) (fc_per_block c)) 4"
  shows "block_end c bi = fc_nr_data_shards c"
proof (cases "bi = 3")
  case True
  then show ?thesis by (simp add: block_end_def)
next
  case False
  with assms(3) have "bi = (fc_nr_data_shards c - 1) div fc_per_block c" by (simp add: nr_blocks_def)
  then have "fc_nr_data_shards c - 1 < (bi + 1) * fc_per_block c"
    using assms(1) by (simp add: dividend_less_div_times add.commute)
  with False assms(2) show ?thesis by (simp add: block_end_def)
qed

lemma block_end_bounds:
  assumes "0 < fc_per_block c" and "0 < fc_nr_data_shards c"
    and "bi < min (nr_blocks (fc_nr_data_shards c) (fc_per_block c)) 4"
  shows "block_start c bi < block_end c bi" and "block_end c bi \<le> fc_nr_data_shards c"
  using assms block_start_less [of c bi] by (auto simp: block_end_def block_start_def)

lemma frame_blocks_cover:
  assumes "0 < fc_per_block c" and "0 < fc_nr_data_shards c"
  shows "concat (map (\<lambda>bi. [block_start c bi..<block_start c bi + block_nd c bi]) (frame_blocks c)) =
    [0..<fc_nr_data_shards c]"
proof -
  let ?n = "min (nr_blocks (fc_nr_data_shards c) (fc_per_block c)) 4"
  let ?f = "\<lambda>bi. [block_start c bi..<block_start c bi + block_nd c bi]"
  have "Suc k \<le> ?n \<Longrightarrow> concat (map ?f [0..<Suc k]) = [0..<block_end c k]" for k
  proof (induction k)
    case 0
    then show ?case using block_end_bounds(1) [OF assms, of 0]
      by (simp add: block_start_def block_nd_def)
  next
    case (Suc k)
    have b: "block_start c (Suc k) < block_end c (Suc k)"
      using block_end_bounds(1) [OF assms] Suc.prems by simp
    have "[0..<block_end c k] @ [block_start c (Suc k)..<block_end c (Suc k)] = [0..<block_end c (Suc k)]"
      using block_end_next [OF assms, of k] Suc.prems b
      by (metis Suc_le_eq le_add_diff_inverse less_or_eq_imp_le upt_add_eq_append zero_le)
    moreover have "concat (map ?f [0..<Suc (Suc k)]) = concat (map ?f [0..<Suc k]) @ ?f (Suc k)"
      by simp
    moreover have "concat (map ?f [0..<Suc k]) = [0..<block_end c k]" using Suc by simp
    ultimately show ?case using b by (simp only: block_nd_def) simp
  qed
  from this [of "?n - 1"] block_end_last [OF assms, of "?n - 1"] show ?thesis
    by (simp add: frame_blocks_def nr_blocks_def)
qed

lemma packetize_blocks_break:
  "3 \<notin> set xs \<Longrightarrow> packetize_blocks rs_new rs_encode gcm c (xs @ 3 # ys) acc p seq =
    packetize_blocks rs_new rs_encode gcm c (xs @ [3]) acc p seq"
  by (induction xs arbitrary: acc p seq) (auto split: prod.splits sum.splits)

lemma packetize_blocks_frame_blocks:
  "packetize_blocks rs_new rs_encode gcm c [0..<nr_blocks (fc_nr_data_shards c) (fc_per_block c)] acc p seq =
    packetize_blocks rs_new rs_encode gcm c (frame_blocks c) acc p seq"
proof (cases "nr_blocks (fc_nr_data_shards c) (fc_per_block c) \<le> 4")
  case True
  then show ?thesis by (simp add: frame_blocks_def min_def)
next
  case False
  then have k: "nr_blocks (fc_nr_data_shards c) (fc_per_block c) =
      3 + Suc (nr_blocks (fc_nr_data_shards c) (fc_per_block c) - 4)" by simp
  define k where "k = nr_blocks (fc_nr_data_shards c) (fc_per_block c) - 4"
  note k = k [folded k_def]
  have "[0..<3 + Suc k] = [0..<3] @ [3..<3 + Suc k]" by (rule upt_add_eq_append) simp
  also have "[3..<3 + Suc k] = 3 # [Suc 3..<3 + Suc k]" by (rule upt_conv_Cons) simp
  finally have "[0..<nr_blocks (fc_nr_data_shards c) (fc_per_block c)] = [0..<3] @ 3 # [Suc 3..<3 + Suc k]"
    by (simp only: k)
  moreover have "frame_blocks c = [0..<3] @ [3]"
    using False by (simp add: frame_blocks_def min_def upt_rec)
  ultimately show ?thesis using packetize_blocks_break [of "[0..<3]"] by simp
qed

section \<open>The whole frame\<close>

lemma concat_slices:
  "length xs = n * k \<Longrightarrow> concat (map (\<lambda>j. slice (j * k) (j * k + k) xs) [0..<n]) = xs"
proof (induction n arbitrary: xs)
  case 0
  then show ?case by simp
next
  case (Suc n)
  have pre: "slice (j * k) (j * k + k) (take (n * k) xs) = slice (j * k) (j * k + k) xs" if "j < n" for j
  proof -
    have "j * k + k \<le> n * k" using that by (rule stride_next)
    then show ?thesis by (simp add: slice_def take_drop min_def)
  qed
  have eqs: "map (\<lambda>j. slice (j * k) (j * k + k) xs) [0..<n] =
      map (\<lambda>j. slice (j * k) (j * k + k) (take (n * k) xs)) [0..<n]"
    using pre by (intro map_cong) simp_all
  have "concat (map (\<lambda>j. slice (j * k) (j * k + k) xs) [0..<n]) = take (n * k) xs"
    unfolding eqs by (rule Suc.IH) (use Suc.prems in simp)
  moreover have "slice (n * k) (n * k + k) xs = drop (n * k) xs" using Suc.prems by (simp add: slice_def)
  ultimately show ?case by simp
qed

lemma padded_slice:
  assumes "length xs \<le> n * k" and "j < n"
  shows "put_at 0 (slice (j * k) (j * k + k) xs) (replicate k z) =
    slice (j * k) (j * k + k) (xs @ replicate (n * k - length xs) z)"
proof -
  have j: "j * k + k \<le> n * k" using assms(2) by (rule stride_next)
  then have "min (k - (length xs - j * k)) (n * k - length xs - (j * k - length xs)) = k - (length xs - j * k)"
    using assms(1) by linarith
  with j show ?thesis by (simp add: put_at_def slice_def min_def)
qed

lemma concat_padded_payloads:
  assumes "length (fc_header_bytes c @ fc_encoded_data c) \<le> n * fc_payload_size c"
  shows "concat (map (padded_payload c) [0..<n]) = fc_header_bytes c @ fc_encoded_data c @
    replicate (n * fc_payload_size c - length (fc_header_bytes c @ fc_encoded_data c)) 0"
proof -
  let ?xs = "fc_header_bytes c @ fc_encoded_data c"
  let ?ys = "?xs @ replicate (n * fc_payload_size c - length ?xs) 0"
  have "map (padded_payload c) [0..<n] =
      map (\<lambda>j. slice (j * fc_payload_size c) (j * fc_payload_size c + fc_payload_size c) ?ys) [0..<n]"
    unfolding padded_payload_def using padded_slice [OF assms] by (intro map_cong) simp_all
  also have "concat \<dots> = ?ys" by (rule concat_slices) (use assms in simp)
  finally show ?thesis by simp
qed

text \<open>A context as \<open>packetize\<close> builds it.\<close>

definition frame_ok :: "frame_ctx \<Rightarrow> bool" where
  "frame_ok c \<longleftrightarrow> length (fc_header_bytes c) = VIDEO_FRAME_HEADER_SIZE \<and> 0 < fc_payload_size c \<and>
     0 < fc_per_block c \<and> fc_per_block c \<le> MAX_SHARDS \<and>
     fc_nr_data_shards c = div_ceil (fc_packet_data_len c) (fc_payload_size c)"

lemma frame_ok_frame_context:
  assumes "NV_VIDEO_PACKET_SIZE < sz"
  shows "frame_ok (frame_context p d k sz m pct f t l)"
proof -
  have "nr_data_shards_per_block (unat pct) \<le> MAX_SHARDS" by (simp add: nr_data_shards_per_block_def)
  with assms show ?thesis
    by (simp add: frame_ok_def frame_context_def Let_def per_block_pos fc_packet_data_len_def
        VIDEO_FRAME_HEADER_SIZE_def)
qed

lemma frame_ok_data:
  assumes "frame_ok c"
  shows "0 < fc_nr_data_shards c" and "(fc_nr_data_shards c - 1) * fc_payload_size c < fc_packet_data_len c"
    and "fc_packet_data_len c \<le> fc_nr_data_shards c * fc_payload_size c"
  using assms div_ceil_bounds [of "fc_payload_size c" "fc_packet_data_len c"]
  by (simp_all add: frame_ok_def fc_packet_data_len_def packet_sizes)

lemma frame_ok_block_ok:
  assumes ok: "frame_ok c" and bi: "bi \<in> set (frame_blocks c)"
  shows "block_ok c bi (block_nd c bi)" and "0 < block_nd c bi"
proof -
  have b: "block_start c bi < block_end c bi" "block_end c bi \<le> fc_nr_data_shards c"
    using block_end_bounds [of c bi] ok bi frame_ok_data(1) [OF ok]
    by (simp_all add: frame_ok_def frame_blocks_def)
  then show "0 < block_nd c bi" by (simp add: block_nd_def)
  have "(block_start c bi + i) * fc_payload_size c \<le> fc_packet_data_len c" if "i < block_nd c bi" for i
  proof -
    have "block_start c bi + i \<le> fc_nr_data_shards c - 1" using that b by (simp add: block_nd_def)
    then have "(block_start c bi + i) * fc_payload_size c \<le> (fc_nr_data_shards c - 1) * fc_payload_size c"
      by (rule mult_le_mono1)
    with frame_ok_data(2) [OF ok] show ?thesis by linarith
  qed
  with ok show "block_ok c bi (block_nd c bi)" by (simp add: block_ok_def frame_ok_def)
qed

lemma frame_blocks_no_break: "3 \<notin> set (butlast (frame_blocks c))"
proof -
  have "butlast [0..<n] = [0..<n - 1]" for n by (cases n) auto
  then show ?thesis by (auto simp: frame_blocks_def)
qed

text \<open>The calling context of one frame, and the sizes of the blocks it is cut into.\<close>

abbreviation packetize_ctx where
  "packetize_ctx keys d k sz m pct f t l p \<equiv> frame_context (maybe_update_cipher keys p) d k sz m pct f t l"

lemma packetize_run:
  assumes "NV_VIDEO_PACKET_SIZE < sz"
  shows "packetize rs_new rs_encode gcm keys d k sz m pct f t l p seq =
    (let c = packetize_ctx keys d k sz m pct f t l p
     in packetize_blocks rs_new rs_encode gcm c (frame_blocks c) batch_empty (maybe_update_cipher keys p) seq)"
  using assms by (simp add: packetize_def Let_def packetize_blocks_frame_blocks)

lemma packetize_ok:
  assumes ctr: "rs_contract rs_new rs_encode" "gcm_contract gcm"
    and wf: "wf_packetizer rs_new p"
    and run: "packetize rs_new rs_encode gcm keys d k sz m pct f t l p seq = (Inr batch, p', seq')"
    and c: "c = packetize_ctx keys d k sz m pct f t l p" and p1: "p1 = maybe_update_cipher keys p"
  shows "wf_packetizer rs_new p' \<and> cipher p' = cipher p1 \<and>
    seq' = seq + of_nat (length (batch_shards batch)) \<and>
    gcm_iv_counter p' = counter_after (cipher p1) (gcm_iv_counter p1) (length (batch_shards batch)) \<and>
    frame_ok c \<and> length (batch_shards batch) = total_shards (block_sizes c (frame_blocks c)) \<and>
    (\<exists>plain. plain_frame c (frame_blocks c) seq plain \<and> length (batch_shards batch) = length plain \<and>
       (\<forall>i < length plain. wire_shard gcm (cipher p1) f (gcm_iv_counter p1 + of_nat i) (plain ! i) =
          Some (batch_shards batch ! i)))"
proof -
  have sz: "NV_VIDEO_PACKET_SIZE < sz"
    using run by (auto simp: packetize_def Let_def split: if_splits)
  have ok: "frame_ok c" unfolding c by (rule frame_ok_frame_context [OF sz])
  have r: "packetize_blocks rs_new rs_encode gcm c (frame_blocks c) batch_empty p1 seq = (Inr batch, p', seq')"
    using run [unfolded packetize_run [OF sz] Let_def] by (simp add: c p1)
  have f: "fc_frame_number c = f" "fc_prefix_size c = (if cipher p1 \<noteq> None then ENC_PREFIX_SIZE else 0)"
    by (simp_all add: c p1 frame_context_def Let_def)
  have wf1: "wf_packetizer rs_new p1" unfolding p1 by (rule maybe_update_cipher_wf [OF wf])
  have bok: "\<forall>bi \<in> set (frame_blocks c). block_ok c bi (block_nd c bi)"
    using frame_ok_block_ok(1) [OF ok] by blast
  note P = packetize_blocks_ok [OF ctr wf1 bok frame_blocks_no_break f(2) disjI1 [OF refl] r]
  then obtain plain wires where pw: "plain_frame c (frame_blocks c) seq plain"
    "batch_shards batch = batch_shards batch_empty @ wires" "length wires = length plain"
    "\<forall>i < length plain. wire_shard gcm (cipher p1) (fc_frame_number c) (gcm_iv_counter p1 + of_nat i) (plain ! i) =
          Some (wires ! i)" by blast
  have len: "length (batch_shards batch) = total_shards (block_sizes c (frame_blocks c))"
    using pw by (simp add: plain_frame_def)
  show ?thesis
    using P pw ok f unfolding len [symmetric] by auto
qed

section \<open>The frame is always produced\<close>

text \<open>fec-rs accepts every block of at most 255 shards with data and parity, and encodes shards of
  one size; aes-gcm seals every message below its length limit.\<close>

definition rs_total :: "(nat \<Rightarrow> nat \<Rightarrow> 'rs option) \<Rightarrow> ('rs \<Rightarrow> bytes list \<Rightarrow> bytes list option) \<Rightarrow> bool" where
  "rs_total rs_new rs_encode \<longleftrightarrow>
     (\<forall>nd np. 0 < nd \<longrightarrow> 0 < np \<longrightarrow> nd + np \<le> MAX_SHARDS \<longrightarrow>
        (\<exists>rs. rs_new nd np = Some rs \<and>
          (\<forall>xs n. length xs = nd + np \<longrightarrow> (\<forall>x \<in> set xs. length x = n) \<longrightarrow> rs_encode rs xs \<noteq> None)))"

definition gcm_total :: "(bytes \<Rightarrow> bytes \<Rightarrow> bytes \<Rightarrow> (bytes \<times> bytes) option) \<Rightarrow> bool" where
  "gcm_total gcm \<longleftrightarrow> (\<forall>key iv x. length x < 2 ^ 36 \<longrightarrow> gcm key iv x \<noteq> None)"

lemma rs_totalD:
  assumes "rs_total rs_new rs_encode" and "0 < nd" "0 < np" "nd + np \<le> MAX_SHARDS"
  obtains rs where "rs_new nd np = Some rs"
    and "\<And>xs n. length xs = nd + np \<Longrightarrow> \<forall>x \<in> set xs. length x = n \<Longrightarrow> rs_encode rs xs \<noteq> None"
  using assms unfolding rs_total_def by meson

lemma block_np_limit: "0 < block_np c bi \<Longrightarrow> block_nd c bi + block_np c bi \<le> MAX_SHARDS"
  by (auto simp: block_np_def nr_parity_shards_def)

lemma block_encoder_succeeds:
  assumes "rs_total rs_new rs_encode" and "wf_packetizer rs_new p" and "0 < block_nd c bi"
  shows "\<exists>encoder p'. block_encoder rs_new (block_nd c bi) (block_np c bi) p = (Inr encoder, p')"
proof (cases "block_np c bi = 0")
  case True
  then show ?thesis by (simp add: block_encoder_def)
next
  case False
  then obtain rs where rs: "rs_new (block_nd c bi) (block_np c bi) = Some rs"
    using rs_totalD [OF assms(1,3), of "block_np c bi"] block_np_limit [of c bi] by (metis gr0I)
  obtain r g where "get_fec_encoder rs_new (block_nd c bi) (block_np c bi) p = (r, g)" by force
  with get_fec_encoder_cases [OF this assms(2)] rs False show ?thesis by (simp add: block_encoder_def)
qed

lemma assemble_block_succeeds:
  assumes ok: "block_ok c bi nd" and rs: "rs_total rs_new rs_encode"
    and enc: "(encoder = None \<and> np = 0) \<or> (\<exists>rs. encoder = Some rs \<and> rs_new nd np = Some rs)"
    and nd: "0 < nd" and np: "0 < np \<longrightarrow> nd + np \<le> MAX_SHARDS"
    and some: "encoder \<noteq> None \<longrightarrow> 0 < np"
  shows "\<exists>buf seq'. assemble_block rs_encode c bi nd np encoder seq = (Inr buf, seq')"
proof -
  define f where "f = write_data_shard c bi nd (np * 100 div nd)"
  define b0 where "b0 = shard_buf_new (nd + np) (PAYLOAD_OFFSET + fc_payload_size c) (fc_prefix_size c)"
  have b0: "wf_buf b0" "buf_dims b0 = (fc_prefix_size c, PAYLOAD_OFFSET + fc_payload_size c, nd + np)"
    by (simp_all add: b0_def buf_dims_def)
  have f_len: "length (f q i x) = fst (snd (buf_dims b0))"
    if "0 \<le> i" "i < 0 + nd" "length x = fst (snd (buf_dims b0))" for q i x
    using length_write_data_shard(1) [of x c bi i nd] ok that b0(2)
    by (simp add: f_def block_ok_def)
  obtain b1 where b1: "update_loop shard_mut write_shard f [0..<0 + nd] seq b0 = (seq + of_nat nd, b1)"
      "wf_buf b1" "buf_dims b1 = buf_dims b0"
    using sbuf.update_loop_upt [OF b0(1), of 0 nd f seq] f_len b0(2)
    by (auto simp: buf_dims_def)
  have dims: "buf_shard_count b1 = nd + np" "buf_data_size b1 = PAYLOAD_OFFSET + fc_payload_size c"
    using b1(3) b0(2) by (simp_all add: buf_dims_def)
  show ?thesis
  proof (cases encoder)
    case None
    with b1(1) show ?thesis by (simp add: assemble_block_def Let_def f_def b0_def)
  next
    case (Some r)
    have "rs_encode r xs \<noteq> None" if "length xs = nd + np" "\<forall>x \<in> set xs. length x = n" for xs n
    proof -
      have "0 < np" "rs_new nd np = Some r" using Some some enc by auto
      with np rs_totalD [OF rs nd] that show ?thesis by (metis option.inject)
    qed
    moreover have "length (as_fec_slices b1) = nd + np" by (simp add: as_fec_slices_def dims)
    moreover have "\<forall>x \<in> set (as_fec_slices b1). length x = buf_data_size b1"
      using length_shard_mut [OF b1(2)] by (auto simp: as_fec_slices_def)
    ultimately have "rs_encode r (as_fec_slices b1) \<noteq> None" by blast
    then obtain xs where "rs_encode r (as_fec_slices b1) = Some xs" by blast
    with Some b1(1) show ?thesis
      by (auto simp: assemble_block_def Let_def f_def b0_def split: prod.splits)
  qed
qed

lemma seal_loop_succeeds:
  assumes "wf_buf b" and "set is \<subseteq> {..<buf_shard_count b}"
    and "\<And>q x. length x = buf_data_size b \<Longrightarrow> \<exists>ct pre. seal q x = Some (ct, pre) \<and>
      length ct = buf_data_size b \<and> length pre = buf_prefix_size b"
  shows "\<exists>b'. snd (seal_loop shard_mut write_shard write_prefix seal is q b) = Some b'"
  using assms
proof (induction "is" arbitrary: q b)
  case Nil
  then show ?case by simp
next
  case (Cons i "is")
  have i: "i < buf_shard_count b" using Cons.prems(2) by simp
  obtain ct pre where s: "seal q (shard_mut b i) = Some (ct, pre)"
    and l: "length ct = buf_data_size b" "length pre = buf_prefix_size b"
    using Cons.prems(3) length_shard_mut [OF Cons.prems(1) i] by blast
  have "wf_buf (write_prefix (write_shard b i ct) i pre)"
    using Cons.prems(1) i l by (simp add: wf_write_shard wf_write_prefix)
  then have "\<exists>b'. snd (seal_loop shard_mut write_shard write_prefix seal is (q + 1)
      (write_prefix (write_shard b i ct) i pre)) = Some b'"
    by (rule Cons.IH) (use Cons.prems in simp_all)
  then show ?case by (simp add: s)
qed

lemma encrypt_block_succeeds:
  assumes gcm: "gcm_contract gcm" "gcm_total gcm" and wf: "wf_buf buf"
    and dims: "buf_prefix_size buf = (if cipher p \<noteq> None then ENC_PREFIX_SIZE else 0)"
    and sz: "buf_data_size buf < 2 ^ 36"
  shows "\<exists>buf' p'. encrypt_block gcm c p buf = (Inr buf', p')"
proof (cases "cipher p")
  case None
  then show ?thesis by (simp add: encrypt_block_def)
next
  case (Some key)
  have "\<exists>ct pre. seal_shard gcm key (fc_frame_number c) q x = Some (ct, pre) \<and>
      length ct = buf_data_size buf \<and> length pre = buf_prefix_size buf"
    if "length x = buf_data_size buf" for q x
  proof -
    have "gcm key (video_iv q) x \<noteq> None" using gcm(2) that sz by (simp add: gcm_total_def)
    then obtain ct tag where g: "gcm key (video_iv q) x = Some (ct, tag)" by auto
    moreover have "length ct = length x" "length tag = 16" using gcm(1) g by (auto simp: gcm_contract_def)
    ultimately show ?thesis using that Some dims by (simp add: seal_shard_def packet_sizes)
  qed
  then obtain b' where "snd (seal_loop shard_mut write_shard write_prefix
      (seal_shard gcm key (fc_frame_number c)) [0..<buf_shard_count buf] (gcm_iv_counter p) buf) = Some b'"
    using seal_loop_succeeds [OF wf, of "[0..<buf_shard_count buf]"] by force
  with Some show ?thesis by (auto simp: encrypt_block_def split: prod.split)
qed

lemma packetize_block_succeeds:
  assumes rs: "rs_contract rs_new rs_encode" "rs_total rs_new rs_encode"
    and gcm: "gcm_contract gcm" "gcm_total gcm"
    and wf: "wf_packetizer rs_new p"
    and ok: "block_ok c bi (block_nd c bi)" "0 < block_nd c bi"
    and dims: "fc_prefix_size c = (if cipher p \<noteq> None then ENC_PREFIX_SIZE else 0)"
    and sz: "PAYLOAD_OFFSET + fc_payload_size c < 2 ^ 36"
  shows "\<exists>b p' seq'. packetize_block rs_new rs_encode gcm c bi p seq = (Inr b, p', seq')"
proof -
  obtain encoder g where e: "block_encoder rs_new (block_nd c bi) (block_np c bi) p = (Inr encoder, g)"
    using block_encoder_succeeds [OF rs(2) wf ok(2)] by blast
  have ec: "wf_packetizer rs_new g \<and> cipher g = cipher p \<and> gcm_iv_counter g = gcm_iv_counter p \<and>
      ((encoder = None \<and> block_np c bi = 0) \<or> (\<exists>rs. encoder = Some rs \<and> rs_new (block_nd c bi) (block_np c bi) = Some rs))"
    by (rule block_encoder_cases [OF e wf])
  have some: "encoder \<noteq> None \<longrightarrow> 0 < block_np c bi"
    using e by (auto simp: block_encoder_def split: if_splits)
  obtain buf s where a: "assemble_block rs_encode c bi (block_nd c bi) (block_np c bi) encoder seq = (Inr buf, s)"
    using assemble_block_succeeds [OF ok(1) rs(2) _ ok(2) _ some] ec block_np_limit by blast
  have A: "wf_buf buf \<and> buf_dims buf = (fc_prefix_size c, PAYLOAD_OFFSET + fc_payload_size c, block_nd c bi + block_np c bi)"
    using assemble_block_slots [OF ok(1) rs(1) _ a] ec by blast
  then obtain buf' g' where "encrypt_block gcm c g buf = (Inr buf', g')"
    using encrypt_block_succeeds [OF gcm, of buf g c] dims ec sz by (auto simp: buf_dims_def)
  with e a show ?thesis by (simp add: packetize_block_def)
qed

lemma packetize_blocks_succeeds:
  assumes rs: "rs_contract rs_new rs_encode" "rs_total rs_new rs_encode"
    and gcm: "gcm_contract gcm" "gcm_total gcm"
    and wf: "wf_packetizer rs_new p"
    and ok: "\<forall>bi \<in> set bis. block_ok c bi (block_nd c bi) \<and> 0 < block_nd c bi"
    and dims: "fc_prefix_size c = (if cipher p \<noteq> None then ENC_PREFIX_SIZE else 0)"
    and sz: "PAYLOAD_OFFSET + fc_payload_size c < 2 ^ 36"
  shows "\<exists>b p' seq'. packetize_blocks rs_new rs_encode gcm c bis acc p seq = (Inr b, p', seq')"
  using wf ok dims
proof (induction bis arbitrary: acc p seq)
  case Nil
  then show ?case by simp
next
  case (Cons bi bis)
  obtain b g s where b: "packetize_block rs_new rs_encode gcm c bi p seq = (Inr b, g, s)"
    using packetize_block_succeeds [OF rs gcm Cons.prems(1) _ _ Cons.prems(3) sz] Cons.prems(2)
    by (metis list.set_intros(1))
  have "wf_packetizer rs_new g \<and> cipher g = cipher p"
    using packetize_block_ok [OF rs(1) gcm(1) Cons.prems(1) _ Cons.prems(3) b] Cons.prems(2) by simp
  then have "\<exists>b' p' seq'. packetize_blocks rs_new rs_encode gcm c bis (extend_from acc b) g s = (Inr b', p', seq')"
    by (intro Cons.IH) (use Cons.prems in simp_all)
  then show ?case using b by (simp add: Let_def)
qed

section \<open>Key and counter over a run of frames\<close>

lemma get_fec_encoder_key:
  "get_fec_encoder rs_new nd np p = (r, p') \<Longrightarrow> last_key_id p' = last_key_id p \<and> encrypt_video p' = encrypt_video p"
  by (auto simp: get_fec_encoder_def split: option.splits)

lemma packetize_block_key:
  "packetize_block rs_new rs_encode gcm c bi p seq = (r, p', seq') \<Longrightarrow>
    last_key_id p' = last_key_id p \<and> encrypt_video p' = encrypt_video p"
  by (auto simp: packetize_block_def block_encoder_def encrypt_block_def Let_def
      split: prod.splits sum.splits if_splits option.splits dest!: get_fec_encoder_key)

lemma packetize_blocks_key:
  "packetize_blocks rs_new rs_encode gcm c bis acc p seq = (r, p', seq') \<Longrightarrow>
    last_key_id p' = last_key_id p \<and> encrypt_video p' = encrypt_video p"
proof (induction bis arbitrary: acc p seq)
  case Nil
  then show ?case by simp
next
  case (Cons bi bis)
  obtain b g s where b: "packetize_block rs_new rs_encode gcm c bi p seq = (b, g, s)" by (metis prod_cases3)
  from packetize_block_key [OF b] Cons b show ?case
    by (cases b) (fastforce simp: Let_def split: if_splits)+
qed

lemma maybe_update_cipher_same:
  "last_key_id p' = last_key_id (maybe_update_cipher keys p) \<Longrightarrow>
   encrypt_video p' = encrypt_video (maybe_update_cipher keys p) \<Longrightarrow> maybe_update_cipher keys p' = p'"
  by (auto simp: maybe_update_cipher_def Let_def split: if_splits)

lemma packetize_keeps_key:
  "packetize rs_new rs_encode gcm keys d k sz m pct f t l p seq = (r, p', seq') \<Longrightarrow>
    maybe_update_cipher keys p' = p'"
  by (rule maybe_update_cipher_same)
    (auto simp: packetize_def Let_def split: if_splits dest: packetize_blocks_key)

text \<open>The arguments of one call of \<open>packetize\<close>, and the calls for a run of frames under the same
  key data.\<close>

record frame_args =
  fa_data :: bytes
  fa_key_frame :: bool
  fa_packet_size :: nat
  fa_minimum_fec_packets :: u32
  fa_fec_percentage :: u8
  fa_number :: u32
  fa_timestamp :: u32
  fa_latency :: u16

fun packetize_all :: "(nat \<Rightarrow> nat \<Rightarrow> 'rs option) \<Rightarrow> ('rs \<Rightarrow> bytes list \<Rightarrow> bytes list option) \<Rightarrow>
    (bytes \<Rightarrow> bytes \<Rightarrow> bytes \<Rightarrow> (bytes \<times> bytes) option) \<Rightarrow> session_key_data \<Rightarrow> frame_args list \<Rightarrow>
    'rs packetizer \<Rightarrow> u32 \<Rightarrow> (bytes list \<times> 'rs packetizer \<times> u32) res" where
  "packetize_all rs_new rs_encode gcm keys [] p seq = Inr ([], p, seq)"
| "packetize_all rs_new rs_encode gcm keys (a # as) p seq =
     (case packetize rs_new rs_encode gcm keys (fa_data a) (fa_key_frame a) (fa_packet_size a)
             (fa_minimum_fec_packets a) (fa_fec_percentage a) (fa_number a) (fa_timestamp a) (fa_latency a) p seq of
        (Inl e, p, seq) \<Rightarrow> Inl e
      | (Inr b, p, seq) \<Rightarrow>
          rbind (packetize_all rs_new rs_encode gcm keys as p seq)
            (\<lambda>(ws, p, seq). Inr (batch_shards b @ ws, p, seq)))"

lemma wire_shard_nonce:
  "wire_shard gcm (Some key) f q x = Some w \<Longrightarrow> take 12 w = video_iv q"
  by (auto split: option.splits)

lemma packetize_all_nonces:
  assumes ctr: "rs_contract rs_new rs_encode" "gcm_contract gcm"
    and wf: "wf_packetizer rs_new p" and key: "cipher (maybe_update_cipher keys p) \<noteq> None"
    and run: "packetize_all rs_new rs_encode gcm keys as p seq = Inr (ws, p', seq')"
  shows "\<forall>i < length ws. take 12 (ws ! i) =
    video_iv (gcm_iv_counter (maybe_update_cipher keys p) + of_nat i)"
  using wf key run
proof (induction "as" arbitrary: p seq ws)
  case Nil
  then show ?case by simp
next
  case (Cons a "as")
  let ?p1 = "maybe_update_cipher keys p"
  from Cons.prems(3) obtain b g s vs where
    b: "packetize rs_new rs_encode gcm keys (fa_data a) (fa_key_frame a) (fa_packet_size a)
             (fa_minimum_fec_packets a) (fa_fec_percentage a) (fa_number a) (fa_timestamp a) (fa_latency a) p seq
          = (Inr b, g, s)"
    and r: "packetize_all rs_new rs_encode gcm keys as g s = Inr (vs, p', seq')"
    and ws: "ws = batch_shards b @ vs"
    by (auto simp: rbind_eq_Inr split: prod.splits sum.splits)
  obtain key where k: "cipher ?p1 = Some key" using Cons.prems(2) by blast
  note P = packetize_ok [OF ctr Cons.prems(1) b refl refl]
  have g: "maybe_update_cipher keys g = g" by (rule packetize_keeps_key [OF b])
  have IH: "\<forall>i < length vs. take 12 (vs ! i) = video_iv (gcm_iv_counter g + of_nat i)"
    using Cons.IH [of g s vs] P r k g by simp
  have first: "\<forall>i < length (batch_shards b). take 12 (batch_shards b ! i) =
      video_iv (gcm_iv_counter ?p1 + of_nat i)"
    using P k by (metis wire_shard_nonce)
  have "gcm_iv_counter g = gcm_iv_counter ?p1 + of_nat (length (batch_shards b))"
    using P k by (simp add: counter_after_def)
  with IH first show ?case unfolding ws by (intro nth_append_counter) simp_all
qed

lemma video_iv_inject: "video_iv a = video_iv b \<Longrightarrow> a = b"
proof -
  have "take 8 (video_iv q) = to_le64 q" for q by (simp add: video_iv_def put_at_def)
  then show "video_iv a = video_iv b \<Longrightarrow> a = b" by (metis le64.enc_inject)
qed

lemma distinct_counters:
  assumes "n \<le> 2 ^ 64" shows "distinct (map (\<lambda>i. video_iv (q + of_nat i)) [0..<n])"
proof -
  have "inj_on (\<lambda>i. video_iv (q + of_nat i)) {0..<n}"
  proof (rule inj_onI)
    fix i j assume ij: "i \<in> {0..<n}" "j \<in> {0..<n}" and eq: "video_iv (q + of_nat i) = video_iv (q + of_nat j)"
    then have "(of_nat i :: u64) = of_nat j" using video_iv_inject by fastforce
    then have "unat (of_nat i :: u64) = unat (of_nat j :: u64)" by simp
    with ij assms show "i = j" by (simp add: unat_of_nat)
  qed
  then show ?thesis by (simp add: distinct_map)
qed

section \<open>Decoding the headers\<close>

text \<open>The fields a receiver reads from a plain shard.\<close>

definition shard_timestamp :: "bytes \<Rightarrow> u32" where "shard_timestamp s = from_be32 (slice 4 8 s)"
definition shard_frame_index :: "bytes \<Rightarrow> u32" where "shard_frame_index s = from_le32 (slice 20 24 s)"
definition shard_flags :: "bytes \<Rightarrow> u8" where "shard_flags s = s ! 24"
definition shard_multi_fec :: "bytes \<Rightarrow> u8" where "shard_multi_fec s = s ! 27"
definition shard_fec_info :: "bytes \<Rightarrow> u32" where "shard_fec_info s = from_le32 (slice 28 32 s)"
definition fec_shard_index :: "u32 \<Rightarrow> nat" where "fec_shard_index w = unat (take_bit 10 (drop_bit 12 w))"
definition fec_data_shards :: "u32 \<Rightarrow> nat" where "fec_data_shards w = unat (drop_bit 22 w)"
definition fec_percent :: "u32 \<Rightarrow> nat" where "fec_percent w = unat (take_bit 8 (drop_bit 4 w))"

lemma bit_nat_bound: "(x :: nat) < 2 ^ k \<Longrightarrow> bit x n \<Longrightarrow> n < k"
proof (rule ccontr)
  assume x: "x < 2 ^ k" "bit x n" "\<not> n < k"
  then have "(2 :: nat) ^ k \<le> 2 ^ n" by (intro power_increasing) simp_all
  with x(1) have "x div 2 ^ n = 0" by (intro div_less) (rule less_le_trans)
  with x(2) show False by (simp add: bit_iff_odd)
qed

lemma bit_fec_info:
  "bit (fec_info s d p) n \<longleftrightarrow> n < 32 \<and> (12 \<le> n \<and> bit s (n - 12) \<or> 22 \<le> n \<and> bit d (n - 22) \<or> 4 \<le> n \<and> bit p (n - 4))"
  by (auto simp: fec_info_def bit_simps)

lemma fec_info_fields:
  assumes "s < 2 ^ 10" "d < 2 ^ 10" "p < 2 ^ 8"
  shows "take_bit 10 (drop_bit 12 (fec_info s d p)) = of_nat s"
    and "drop_bit 22 (fec_info s d p) = of_nat d"
    and "take_bit 8 (drop_bit 4 (fec_info s d p)) = of_nat p"
proof -
  note b = bit_nat_bound [OF assms(1)] bit_nat_bound [OF assms(2)] bit_nat_bound [OF assms(3)]
  show "take_bit 10 (drop_bit 12 (fec_info s d p)) = of_nat s"
    by (rule bit_word_eqI) (auto simp: bit_simps bit_fec_info dest: b)
  show "drop_bit 22 (fec_info s d p) = of_nat d"
    by (rule bit_word_eqI) (auto simp: bit_simps bit_fec_info dest: b)
  show "take_bit 8 (drop_bit 4 (fec_info s d p)) = of_nat p"
    by (rule bit_word_eqI) (auto simp: bit_simps bit_fec_info dest: b)
qed

lemma write_data_shard_fields:
  assumes "length shard = PAYLOAD_OFFSET + fc_payload_size c"
    and "length (fc_header_bytes c) = VIDEO_FRAME_HEADER_SIZE"
    and "(block_start c bi + i) * fc_payload_size c \<le> fc_packet_data_len c"
    and w_def: "w = write_data_shard c bi nd pct seq i shard"
  shows "shard_timestamp w = fc_rtp_timestamp c" and "shard_frame_index w = fc_frame_number c"
    and "shard_flags w = data_shard_flags i nd" and "shard_multi_fec w = multi_fec_blocks c bi"
    and "shard_fec_info w = fec_info i nd pct"
proof -
  define s1 where "s1 = write_rtp_header shard (ucast seq) (fc_rtp_timestamp c)"
  define nv where "nv = write_nv_video_packet
      (slice NV_PACKET_OFFSET (NV_PACKET_OFFSET + NV_VIDEO_PACKET_SIZE) s1)
      (push_bit 8 seq) (fc_frame_number c) (data_shard_flags i nd) (multi_fec_blocks c bi) (fec_info i nd pct)"
  have l1: "length s1 = length shard" "length nv = 16"
    using assms(1) by (simp_all add: s1_def nv_def length_write_rtp_header packet_sizes
        length_write_nv_video_packet length_slice length_put_at)
  have take: "take 32 w = take 16 s1 @ nv"
    using assms(1) l1
    unfolding w_def write_data_shard_def Let_def s1_def [symmetric] nv_def [symmetric]
    by (simp add: put_at_def packet_sizes)
  have sl: "slice a b w = slice a b (take 16 s1 @ nv)" if "b \<le> 32" "a \<le> b" for a b
  proof -
    have "slice a b w = slice a b (take 32 w)" using that by (simp add: slice_def take_drop min_def)
    then show ?thesis by (simp add: take)
  qed
  have ts: "slice 4 8 s1 = to_be32 (fc_rtp_timestamp c)"
    using assms(1) by (simp add: s1_def write_rtp_header_def put_at_def packet_sizes slice_def)
  have nvs: "slice 4 8 nv = to_le32 (fc_frame_number c)" "nv ! 8 = data_shard_flags i nd"
    "nv ! 11 = multi_fec_blocks c bi" "slice 12 16 nv = to_le32 (fec_info i nd pct)"
    using l1 assms(1) by (simp_all add: nv_def write_nv_video_packet_def put_at_def slice_def packet_sizes nth_append)
  show "shard_timestamp w = fc_rtp_timestamp c"
  proof -
    have "slice 4 8 w = slice 4 8 s1" using l1 assms(1) by (simp add: sl) (simp add: slice_def packet_sizes drop_take)
    then show ?thesis by (simp add: shard_timestamp_def ts)
  qed
  show "shard_frame_index w = fc_frame_number c"
    using nvs(1) l1 assms(1) by (simp add: shard_frame_index_def sl) (simp add: slice_def packet_sizes)
  show "shard_fec_info w = fec_info i nd pct"
    using nvs(4) l1 assms(1) by (simp add: shard_fec_info_def sl) (simp add: slice_def packet_sizes)
  have nth: "w ! j = nv ! (j - 16)" if "16 \<le> j" "j < 32" for j
  proof -
    have "w ! j = take 32 w ! j" using that by simp
    then show ?thesis using that l1 assms(1) by (simp add: take nth_append packet_sizes)
  qed
  show "shard_flags w = data_shard_flags i nd" "shard_multi_fec w = multi_fec_blocks c bi"
    using nvs by (simp_all add: shard_flags_def shard_multi_fec_def nth)
qed

lemma packetize_returns:
  assumes rs: "rs_contract rs_new rs_encode" "rs_total rs_new rs_encode"
    and gcm: "gcm_contract gcm" "gcm_total gcm"
    and wf: "wf_packetizer rs_new p" and sz: "NV_VIDEO_PACKET_SIZE < sz" "sz + 16 < 2 ^ 36"
  obtains batch p' seq' where "packetize rs_new rs_encode gcm keys d k sz m pct f t l p seq = (Inr batch, p', seq')"
proof -
  define c where "c = packetize_ctx keys d k sz m pct f t l p"
  have ok: "frame_ok c" unfolding c_def by (rule frame_ok_frame_context [OF sz(1)])
  have "\<exists>b p' seq'. packetize_blocks rs_new rs_encode gcm c (frame_blocks c) batch_empty
      (maybe_update_cipher keys p) seq = (Inr b, p', seq')"
  proof (rule packetize_blocks_succeeds [OF rs gcm maybe_update_cipher_wf [OF wf]])
    show "\<forall>bi\<in>set (frame_blocks c). block_ok c bi (block_nd c bi) \<and> 0 < block_nd c bi"
      using frame_ok_block_ok [OF ok] by blast
    show "fc_prefix_size c = (if cipher (maybe_update_cipher keys p) \<noteq> None then ENC_PREFIX_SIZE else 0)"
      by (simp add: c_def frame_context_def Let_def)
    show "PAYLOAD_OFFSET + fc_payload_size c < 2 ^ 36"
      using sz by (simp add: c_def frame_context_def Let_def packet_sizes)
  qed
  with that show ?thesis unfolding packetize_run [OF sz(1)] Let_def c_def [symmetric] by blast
qed

lemma frame_blocks_nonempty: "frame_blocks c \<noteq> []"
  by (simp add: frame_blocks_def nr_blocks_def)

lemma total_shards_pos:
  assumes "frame_ok c" shows "0 < total_shards (block_sizes c (frame_blocks c))"
proof -
  obtain bi bis where b: "frame_blocks c = bi # bis" using frame_blocks_nonempty by (cases "frame_blocks c") auto
  then have "0 < block_nd c bi" using frame_ok_block_ok(2) [OF assms, of bi] by simp
  then show ?thesis by (simp add: b block_sizes_def total_shards_def)
qed

lemma packetize_panics:
  "sz \<le> NV_VIDEO_PACKET_SIZE \<Longrightarrow> fst (packetize rs_new rs_encode gcm keys d k sz m pct f t l p seq) = Inl Panic"
  by (simp add: packetize_def Let_def)

lemma last_payload_len_of_header:
  "from_le32 (slice 4 8 (frame_header_bytes d k s l)) =
    of_nat (if (8 + length d) mod s = 0 then s else (8 + length d) mod s)"
  by (simp add: frame_header_bytes_def serialize_frame_header_def Let_def put_at_def slice_def packet_sizes)

lemma last_shard_padding:
  assumes "0 < s" and "0 < n"
  shows "div_ceil n s * s - n < s" and "(if n mod s = 0 then s else n mod s) = s - (div_ceil n s * s - n)"
proof -
  have b: "(div_ceil n s - 1) * s < n" "n \<le> div_ceil n s * s" "0 < div_ceil n s"
    using div_ceil_bounds [OF assms] by simp_all
  have e: "div_ceil n s * s = (div_ceil n s - 1) * s + s" using b(3) by (cases "div_ceil n s") simp_all
  with b show "div_ceil n s * s - n < s" by linarith
  show "(if n mod s = 0 then s else n mod s) = s - (div_ceil n s * s - n)"
  proof (cases "n mod s = 0")
    case True
    then show ?thesis by (auto simp: div_ceil_def)
  next
    case False
    define q r where "q = n div s * s" and "r = n mod s"
    have "n = q + r" "r < s" using assms by (simp_all add: q_def r_def)
    moreover have "div_ceil n s * s = s + q" using False by (simp add: div_ceil_def q_def)
    ultimately have "r = s - (div_ceil n s * s - n)" by linarith
    with False show ?thesis by (simp add: r_def)
  qed
qed

section \<open>Concrete coder and cipher\<close>

text \<open>A systematic code whose parity repeats what is in the buffer and a sealing that keeps the
  plaintext: they satisfy the contracts, so the hypotheses below can hold.\<close>

definition copy_rs_new :: "nat \<Rightarrow> nat \<Rightarrow> (nat \<times> nat) option" where
  "copy_rs_new nd np = (if 0 < nd \<and> 0 < np \<and> nd + np \<le> MAX_SHARDS then Some (nd, np) else None)"

definition copy_rs_encode :: "nat \<times> nat \<Rightarrow> bytes list \<Rightarrow> bytes list option" where
  "copy_rs_encode rs xs = (if length xs = fst rs + snd rs then Some xs else None)"

definition plain_gcm :: "bytes \<Rightarrow> bytes \<Rightarrow> bytes \<Rightarrow> (bytes \<times> bytes) option" where
  "plain_gcm key iv x = Some (x, replicate 16 0)"

lemma copy_contracts:
  "rs_contract copy_rs_new copy_rs_encode" "rs_total copy_rs_new copy_rs_encode"
  "gcm_contract plain_gcm" "gcm_total plain_gcm"
  by (auto simp: rs_contract_def rs_total_def gcm_contract_def gcm_total_def copy_rs_new_def
      copy_rs_encode_def plain_gcm_def)

definition sample_keys :: session_key_data where
  "sample_keys = \<lparr>remote_input_key = replicate 16 7, remote_input_key_id = 1\<rparr>"

lemma sample_size: "NV_VIDEO_PACKET_SIZE < 20" "20 + 16 < (2 :: nat) ^ 36"
  by (simp_all add: packet_sizes)

section \<open>Properties\<close>

text \<open>
  C3. With a coder and a cipher that succeed on what fec-rs and aes-gcm accept, \<open>packetize\<close> never
  fails on a frame whose packet size exceeds the 16 bytes of the NV header: it returns a batch with at
  least one shard. On a smaller packet size it panics.
\<close>

theorem packetize_total:
  assumes "rs_contract rs_new rs_encode" "rs_total rs_new rs_encode"
    and "gcm_contract gcm" "gcm_total gcm" and "wf_packetizer rs_new p" and "sz + 16 < 2 ^ 36"
  shows "if sz \<le> NV_VIDEO_PACKET_SIZE
    then fst (packetize rs_new rs_encode gcm keys d k sz m pct f t l p seq) = Inl Panic
    else \<exists>batch. fst (packetize rs_new rs_encode gcm keys d k sz m pct f t l p seq) = Inr batch \<and>
      batch_shards batch \<noteq> []"
proof (cases "sz \<le> NV_VIDEO_PACKET_SIZE")
  case True
  then show ?thesis by (simp add: packetize_panics)
next
  case False
  then obtain batch p' seq' where
    run: "packetize rs_new rs_encode gcm keys d k sz m pct f t l p seq = (Inr batch, p', seq')"
    using packetize_returns [OF assms(1-5) _ assms(6)] by (metis not_le)
  from packetize_ok [OF assms(1,3,5) run refl refl] total_shards_pos have "0 < length (batch_shards batch)"
    by auto
  with run False show ?thesis by auto
qed

theorem packetize_total_witness:
  "\<exists>batch. fst (packetize copy_rs_new copy_rs_encode plain_gcm sample_keys [1, 2, 3] True 1024 2 20 1 0 0
      (packetizer_new True) 9) = Inr batch \<and> batch_shards batch \<noteq> []"
  using packetize_total [OF copy_contracts wf_packetizer_new, of 1024 sample_keys "[1, 2, 3]" True 2 20 1 0 0 True 9]
  by (simp add: packet_sizes)

text \<open>
  C1. What a frame carries: every shard of the batch is a plain shard, or its sealed form when a
  cipher is set, and the payloads of the data shards, in order, are the frame header, the encoded data and
  zero padding of less than one shard. The header's last payload length tells the receiver how much of
  the last shard is data.
\<close>

theorem packetize_payload:
  assumes "rs_contract rs_new rs_encode" "gcm_contract gcm" "wf_packetizer rs_new p"
    and "packetize rs_new rs_encode gcm keys d k sz m pct f t l p seq = (Inr batch, p', seq')"
    and "p1 = maybe_update_cipher keys p" and "c = frame_context p1 d k sz m pct f t l"
  shows "\<exists>plain pad. length plain = length (batch_shards batch) \<and>
    (\<forall>i < length plain. wire_shard gcm (cipher p1) f (gcm_iv_counter p1 + of_nat i) (plain ! i) =
       Some (batch_shards batch ! i)) \<and>
    concat (map (drop PAYLOAD_OFFSET) (select_data (block_sizes c (frame_blocks c)) plain)) =
      fc_header_bytes c @ d @ replicate pad 0 \<and>
    pad < fc_payload_size c \<and>
    from_le32 (slice 4 8 (fc_header_bytes c)) = of_nat (fc_payload_size c - pad)"
proof -
  have c: "c = packetize_ctx keys d k sz m pct f t l p" using assms(5,6) by simp
  note P = packetize_ok [OF assms(1-4) c assms(5)]
  then obtain plain where plain: "plain_frame c (frame_blocks c) seq plain"
    "length (batch_shards batch) = length plain"
    "\<forall>i < length plain. wire_shard gcm (cipher p1) f (gcm_iv_counter p1 + of_nat i) (plain ! i) =
       Some (batch_shards batch ! i)" by blast
  have ok: "frame_ok c" using P by blast
  have n: "0 < fc_nr_data_shards c" "fc_packet_data_len c \<le> fc_nr_data_shards c * fc_payload_size c"
    using frame_ok_data [OF ok] by simp_all
  have data: "fc_encoded_data c = d" "fc_header_bytes c = frame_header_bytes d k (fc_payload_size c) l"
    by (simp_all add: assms(6) frame_context_def Let_def)
  have len: "length (fc_header_bytes c @ fc_encoded_data c) = fc_packet_data_len c"
    by (simp add: data fc_packet_data_len_def packet_sizes)
  define pad where "pad = fc_nr_data_shards c * fc_payload_size c - fc_packet_data_len c"
  have "map (drop PAYLOAD_OFFSET) (select_data (block_sizes c (frame_blocks c)) plain) =
      map (padded_payload c) [0..<fc_nr_data_shards c]"
    using plain(1) frame_blocks_cover [OF _ n(1)] ok by (simp add: plain_frame_def frame_ok_def)
  then have "concat (map (drop PAYLOAD_OFFSET) (select_data (block_sizes c (frame_blocks c)) plain)) =
      fc_header_bytes c @ d @ replicate pad 0"
    using concat_padded_payloads [of c "fc_nr_data_shards c"] n(2) len by (simp add: pad_def data)
  moreover have pad: "pad < fc_payload_size c"
    "(if (8 + length d) mod fc_payload_size c = 0 then fc_payload_size c else (8 + length d) mod fc_payload_size c) =
      fc_payload_size c - pad"
    using ok last_shard_padding [of "fc_payload_size c" "fc_packet_data_len c"]
    unfolding pad_def frame_ok_def fc_packet_data_len_def data VIDEO_FRAME_HEADER_SIZE_def by simp_all
  moreover have "from_le32 (slice 4 8 (fc_header_bytes c)) = of_nat (fc_payload_size c - pad)"
    unfolding data(2) last_payload_len_of_header pad(2) ..
  ultimately show ?thesis using plain(2,3) by metis
qed

theorem packetize_payload_witness:
  "\<exists>batch p' seq' (plain :: bytes list) pad.
    packetize copy_rs_new copy_rs_encode plain_gcm sample_keys [1, 2, 3] True 20 2 20 1 0 0
      (packetizer_new False) 9 = (Inr batch, p', seq') \<and> length plain = length (batch_shards batch) \<and>
    concat (map (drop PAYLOAD_OFFSET) (select_data [(3, 2)] plain)) =
      [1, 0, 0, 2, 3, 0, 0, 0] @ [1, 2, 3] @ replicate pad 0"
proof -
  let ?p = "packetizer_new False :: (nat \<times> nat) packetizer"
  let ?c = "frame_context (maybe_update_cipher sample_keys ?p) [1, 2, 3] True 20 2 20 1 0 0"
  obtain batch p' seq' where run: "packetize copy_rs_new copy_rs_encode plain_gcm sample_keys [1, 2, 3] True 20 2 20 1 0 0
      ?p 9 = (Inr batch, p', seq')"
    using packetize_returns [OF copy_contracts wf_packetizer_new sample_size] by blast
  have sizes: "block_sizes ?c (frame_blocks ?c) = [(3, 2)]" by code_simp
  have header: "fc_header_bytes ?c = [1, 0, 0, 2, 3, 0, 0, 0]" by code_simp
  show ?thesis
    using packetize_payload [OF copy_contracts(1,3) wf_packetizer_new run refl refl] run
    unfolding sizes header by blast
qed

text \<open>
  C4. Numbering: shard number \<open>i\<close> of the batch, parity shards included, carries the sequence number
  \<open>seq + i\<close> in its RTP header (as a \<open>u16\<close>), the counter the caller passed in has advanced by exactly
  the number of shards sent, and the encoder cache stays consistent.
\<close>

theorem packetize_numbering:
  assumes "rs_contract rs_new rs_encode" "gcm_contract gcm" "wf_packetizer rs_new p"
    and "packetize rs_new rs_encode gcm keys d k sz m pct f t l p seq = (Inr batch, p', seq')"
    and "p1 = maybe_update_cipher keys p"
  shows "wf_packetizer rs_new p' \<and> seq' = seq + of_nat (length (batch_shards batch)) \<and>
    (\<exists>plain. length plain = length (batch_shards batch) \<and>
      (\<forall>i < length plain. shard_seq (plain ! i) = ucast (seq + of_nat i) \<and>
         wire_shard gcm (cipher p1) f (gcm_iv_counter p1 + of_nat i) (plain ! i) =
           Some (batch_shards batch ! i)))"
proof -
  note P = packetize_ok [OF assms(1-4) refl assms(5)]
  then obtain plain where "plain_frame (packetize_ctx keys d k sz m pct f t l p)
      (frame_blocks (packetize_ctx keys d k sz m pct f t l p)) seq plain"
    "length (batch_shards batch) = length plain"
    "\<forall>i < length plain. wire_shard gcm (cipher p1) f (gcm_iv_counter p1 + of_nat i) (plain ! i) =
       Some (batch_shards batch ! i)" by blast
  with P show ?thesis by (auto simp: plain_frame_def intro!: exI [of _ plain])
qed

theorem packetize_numbering_witness:
  "\<exists>batch p' seq' plain. packetize copy_rs_new copy_rs_encode plain_gcm sample_keys [1, 2, 3] True 20 2 20 1 0 0
      (packetizer_new True) 0xffff = (Inr batch, p', seq') \<and>
    seq' = 0xffff + of_nat (length (batch_shards batch)) \<and> length plain = length (batch_shards batch) \<and>
    (\<forall>i < length plain. shard_seq (plain ! i) = ucast (0xffff + of_nat i :: u32))"
proof -
  obtain batch p' seq' where run: "packetize copy_rs_new copy_rs_encode plain_gcm sample_keys [1, 2, 3] True 20 2 20 1 0 0
      (packetizer_new True) 0xffff = (Inr batch, p', seq')"
    using packetize_returns [OF copy_contracts wf_packetizer_new sample_size] by blast
  show ?thesis
    using packetize_numbering [OF copy_contracts(1,3) wf_packetizer_new run refl] run by blast
qed

text \<open>
  C2. No nonce is used twice: over any run of frames sealed under the same key data, the nonces in the
  prefixes of all shards are consecutive counter values, so they are pairwise distinct as long as fewer
  than \<open>2 ^ 64\<close> shards are sent.
\<close>

theorem video_nonces_distinct:
  assumes "rs_contract rs_new rs_encode" "gcm_contract gcm" "wf_packetizer rs_new p"
    and "cipher (maybe_update_cipher keys p) \<noteq> None"
    and "packetize_all rs_new rs_encode gcm keys frames p seq = Inr (shards, p', seq')"
    and "length shards \<le> 2 ^ 64"
  shows "distinct (map (take 12) shards) \<and>
    map (take 12) shards =
      map (\<lambda>i. video_iv (gcm_iv_counter (maybe_update_cipher keys p) + of_nat i)) [0..<length shards]"
proof -
  have "map (take 12) shards =
      map (\<lambda>i. video_iv (gcm_iv_counter (maybe_update_cipher keys p) + of_nat i)) [0..<length shards]"
    using packetize_all_nonces [OF assms(1-5)] by (intro nth_equalityI) simp_all
  then show ?thesis using distinct_counters [OF assms(6)] by simp
qed

definition sample_frame :: frame_args where
  "sample_frame = \<lparr>fa_data = [1, 2, 3], fa_key_frame = True, fa_packet_size = 20, fa_minimum_fec_packets = 0,
     fa_fec_percentage = 0, fa_number = 1, fa_timestamp = 0, fa_latency = 0\<rparr>"

theorem video_nonces_distinct_witness:
  "\<exists>shards p' seq'. packetize_all copy_rs_new copy_rs_encode plain_gcm sample_keys [sample_frame]
      (packetizer_new True) 0 = Inr (shards, p', seq') \<and> length shards = 3 \<and> distinct (map (take 12) shards)"
proof -
  let ?p = "packetizer_new True :: (nat \<times> nat) packetizer"
  let ?c = "packetize_ctx sample_keys [1, 2, 3] True 20 0 0 1 0 0 ?p"
  obtain batch p' seq' where run: "packetize copy_rs_new copy_rs_encode plain_gcm sample_keys [1, 2, 3] True 20 0 0 1 0 0
      ?p 0 = (Inr batch, p', seq')"
    using packetize_returns [OF copy_contracts wf_packetizer_new sample_size] by blast
  then have r: "packetize_all copy_rs_new copy_rs_encode plain_gcm sample_keys [sample_frame] ?p 0 =
      Inr (batch_shards batch, p', seq')"
    by (simp add: sample_frame_def)
  have "total_shards (block_sizes ?c (frame_blocks ?c)) = 3" by code_simp
  then have len: "length (batch_shards batch) = 3"
    using packetize_ok [OF copy_contracts(1,3) wf_packetizer_new run refl refl] by simp
  have "cipher (maybe_update_cipher sample_keys ?p) \<noteq> None"
    by (simp add: maybe_update_cipher_def sample_keys_def packetizer_new_def i64_MIN_def)
  from video_nonces_distinct [OF copy_contracts(1,3) wf_packetizer_new this r] len r show ?thesis by auto
qed

text \<open>
  The block plan of a frame: at most four FEC blocks, which between them cover every data shard
  once and in order; none is empty, only block 3 may exceed the per-block limit, and a block with parity
  stays within the 255 shards of the code.
\<close>

theorem packetize_block_plan:
  assumes "NV_VIDEO_PACKET_SIZE < sz"
    and "p1 = maybe_update_cipher keys p" and "c = frame_context p1 d k sz m pct f t l"
  shows "packetize rs_new rs_encode gcm keys d k sz m pct f t l p seq =
      packetize_blocks rs_new rs_encode gcm c (frame_blocks c) batch_empty p1 seq \<and>
    length (frame_blocks c) \<le> 4 \<and>
    concat (map (\<lambda>bi. [block_start c bi..<block_end c bi]) (frame_blocks c)) = [0..<fc_nr_data_shards c] \<and>
    (\<forall>bi \<in> set (frame_blocks c). 0 < block_nd c bi \<and>
       (bi < 3 \<longrightarrow> block_nd c bi \<le> nr_data_shards_per_block (unat pct)) \<and>
       (block_np c bi = 0 \<or> block_nd c bi + block_np c bi \<le> MAX_SHARDS))"
proof (intro conjI)
  have c: "c = packetize_ctx keys d k sz m pct f t l p" using assms(2,3) by simp
  have ok: "frame_ok c" unfolding c by (rule frame_ok_frame_context [OF assms(1)])
  have pos: "0 < fc_per_block c" "0 < fc_nr_data_shards c" using ok frame_ok_data [OF ok] by (simp_all add: frame_ok_def)
  show "packetize rs_new rs_encode gcm keys d k sz m pct f t l p seq =
      packetize_blocks rs_new rs_encode gcm c (frame_blocks c) batch_empty p1 seq"
    unfolding packetize_run [OF assms(1)] c assms(2) Let_def ..
  show "length (frame_blocks c) \<le> 4" by (simp add: frame_blocks_def)
  have "block_start c bi + block_nd c bi = block_end c bi" if "bi \<in> set (frame_blocks c)" for bi
    using frame_ok_block_ok(2) [OF ok that] by (simp add: block_nd_def)
  then have "map (\<lambda>bi. [block_start c bi..<block_end c bi]) (frame_blocks c) =
      map (\<lambda>bi. [block_start c bi..<block_start c bi + block_nd c bi]) (frame_blocks c)"
    by simp
  then show "concat (map (\<lambda>bi. [block_start c bi..<block_end c bi]) (frame_blocks c)) = [0..<fc_nr_data_shards c]"
    using frame_blocks_cover [OF pos] by (simp only:)
  have per: "fc_per_block c = nr_data_shards_per_block (unat pct)"
    by (simp add: assms(3) frame_context_def Let_def)
  have "block_nd c bi \<le> fc_per_block c" if "bi < 3" for bi
    using that by (auto simp: block_nd_def block_end_def block_start_def min_def)
  then show "\<forall>bi \<in> set (frame_blocks c). 0 < block_nd c bi \<and>
       (bi < 3 \<longrightarrow> block_nd c bi \<le> nr_data_shards_per_block (unat pct)) \<and>
       (block_np c bi = 0 \<or> block_nd c bi + block_np c bi \<le> MAX_SHARDS)"
    using frame_ok_block_ok(2) [OF ok] block_np_limit [of c] by (metis gr0I per)
qed

theorem packetize_block_plan_witness:
  "let c = frame_context (packetizer_new False :: (nat \<times> nat) packetizer) (replicate 400 1) False 17 0 200 1 0 0
   in fc_nr_data_shards c = 408 \<and> frame_blocks c = [0, 1, 2, 3] \<and>
     concat (map (\<lambda>bi. [block_start c bi..<block_end c bi]) [0, 1, 2, 3]) = [0..<408]"
proof -
  let ?p = "packetizer_new False :: (nat \<times> nat) packetizer"
  let ?c = "frame_context ?p (replicate 400 1) False 17 0 200 1 0 0"
  have "NV_VIDEO_PACKET_SIZE < 17" by (simp add: packet_sizes)
  from packetize_block_plan [OF this, of ?p sample_keys ?p, OF _ refl]
  have "concat (map (\<lambda>bi. [block_start ?c bi..<block_end ?c bi]) (frame_blocks ?c)) = [0..<fc_nr_data_shards ?c]"
    by (simp add: maybe_update_cipher_def packetizer_new_def)
  moreover have "fc_nr_data_shards ?c = 408"
    by (simp add: frame_context_def Let_def div_ceil_def packet_sizes)
  moreover have "frame_blocks ?c = [0, 1, 2, 3]"
    by (simp add: frame_blocks_def frame_context_def Let_def div_ceil_def packet_sizes nr_blocks_def
        nr_data_shards_per_block_def nr_parity_shards_per_block_def upt_rec)
  ultimately show ?thesis by (simp only: Let_def)
qed

lemma multi_fec_fields:
  assumes "bi < 4" and "lb < 4"
  shows "take_bit 2 (drop_bit 4 (push_bit 4 (of_nat bi) OR push_bit 6 (of_nat lb) :: u8)) = of_nat bi"
    and "drop_bit 6 (push_bit 4 (of_nat bi) OR push_bit 6 (of_nat lb) :: u8) = of_nat lb"
proof -
  have "bi \<in> {0, 1, 2, 3}" "lb \<in> {0, 1, 2, 3}" using assms by auto
  then show "take_bit 2 (drop_bit 4 (push_bit 4 (of_nat bi) OR push_bit 6 (of_nat lb) :: u8)) = of_nat bi"
    and "drop_bit 6 (push_bit 4 (of_nat bi) OR push_bit 6 (of_nat lb) :: u8) = of_nat lb"
    by auto
qed

lemma data_shard_flag_bits:
  "data_shard_flags i n AND rtp_flag_bits ContainsPicData \<noteq> 0"
  "(data_shard_flags i n AND rtp_flag_bits StartOfFrame \<noteq> 0) = (i = 0)"
  "(data_shard_flags i n AND rtp_flag_bits EndOfFrame \<noteq> 0) = (i = n - 1)"
  by (simp_all add: data_shard_flags_def Let_def)

text \<open>
  The header of a data shard decodes to what the sender knows: timestamp, frame number, start and
  end flags, block number and last block number, and, for a block of fewer than 1024 data shards and an FEC
  percentage below 256, the shard's index, the number of data shards and the percentage.
\<close>

theorem data_shard_header_decodes:
  assumes "NV_VIDEO_PACKET_SIZE < sz" and "c = frame_context p1 d k sz m pct f t l"
    and "bi \<in> set (frame_blocks c)" and "i < block_nd c bi" and "block_nd c bi < 2 ^ 10" and "fp < 2 ^ 8"
    and "w = write_data_shard c bi (block_nd c bi) fp seq i (zero_shard c)"
  shows "shard_seq w = ucast seq \<and> shard_timestamp w = t \<and> shard_frame_index w = f \<and>
    (shard_flags w AND rtp_flag_bits StartOfFrame \<noteq> 0 \<longleftrightarrow> i = 0) \<and>
    (shard_flags w AND rtp_flag_bits EndOfFrame \<noteq> 0 \<longleftrightarrow> i = block_nd c bi - 1) \<and>
    take_bit 2 (drop_bit 4 (shard_multi_fec w)) = of_nat bi \<and>
    drop_bit 6 (shard_multi_fec w) = of_nat (length (frame_blocks c) - 1) \<and>
    fec_shard_index (shard_fec_info w) = i \<and> fec_data_shards (shard_fec_info w) = block_nd c bi \<and>
    fec_percent (shard_fec_info w) = fp"
proof -
  have ok: "frame_ok c" unfolding assms(2) by (rule frame_ok_frame_context [OF assms(1)])
  have bok: "block_ok c bi (block_nd c bi)" by (rule frame_ok_block_ok [OF ok assms(3)])
  have off: "length (zero_shard c) = PAYLOAD_OFFSET + fc_payload_size c"
    "length (fc_header_bytes c) = VIDEO_FRAME_HEADER_SIZE"
    "(block_start c bi + i) * fc_payload_size c \<le> fc_packet_data_len c"
    using bok assms(4) by (simp_all add: block_ok_def)
  note F = write_data_shard_fields [OF off assms(7)]
  have q: "shard_seq w = ucast seq"
    using length_write_data_shard(2) [OF off] by (simp add: assms(7) shard_seq_def)
  let ?lb = "length (frame_blocks c) - 1"
  have lb: "bi < 4" "?lb < 4" using assms(3) by (auto simp: frame_blocks_def)
  have ctx: "fc_rtp_timestamp c = t" "fc_frame_number c = f"
    "fc_last_block_index c = push_bit 6 (of_nat (length (frame_blocks c)) - 1)"
    by (simp_all add: assms(2) frame_context_def Let_def frame_blocks_def)
  have one: "(of_nat (length (frame_blocks c)) - 1 :: u8) = of_nat ?lb"
    using frame_blocks_nonempty [of c] by (cases "length (frame_blocks c)") simp_all
  have M: "shard_multi_fec w = push_bit 4 (of_nat bi) OR push_bit 6 (of_nat ?lb)"
    unfolding F(4) multi_fec_blocks_def ctx(3) one ..
  note MF = multi_fec_fields [OF lb, folded M]
  have u: "unat (of_nat i :: u32) = i" "unat (of_nat (block_nd c bi) :: u32) = block_nd c bi"
    "unat (of_nat fp :: u32) = fp"
    using assms(4-6) by (simp_all add: unat_of_nat)
  have i: "i < 2 ^ 10" using assms(4,5) by linarith
  note I = fec_info_fields [OF i assms(5,6)]
  show ?thesis
    using q F(1,2) MF data_shard_flag_bits(2,3) [of i "block_nd c bi"]
    by (simp add: F(3,5) ctx fec_shard_index_def fec_data_shards_def fec_percent_def I u)
qed

theorem data_shard_header_decodes_witness:
  "let c = frame_context (packetizer_new False :: (nat \<times> nat) packetizer) [1, 2, 3] True 20 2 20 77 5 0;
       w = write_data_shard c 0 3 66 9 2 (zero_shard c)
   in shard_seq w = 9 \<and> shard_frame_index w = 77 \<and> fec_shard_index (shard_fec_info w) = 2 \<and>
      fec_data_shards (shard_fec_info w) = 3 \<and> fec_percent (shard_fec_info w) = 66"
proof -
  let ?p = "packetizer_new False :: (nat \<times> nat) packetizer"
  let ?c = "frame_context ?p [1, 2, 3] True 20 2 20 77 5 0"
  have nd: "block_nd ?c 0 = 3" by code_simp
  have bi: "0 \<in> set (frame_blocks ?c)" by code_simp
  from data_shard_header_decodes [OF sample_size(1) refl bi, of 2 66 _ 9, unfolded nd, OF _ _ _ refl]
  show ?thesis by (simp add: Let_def)
qed

end
