(* ===== verification/Keyboard.thy ===== *)
theory Keyboard
  imports Prelude
begin

text \<open>
  \<open>session/stream/control/input/keyboard.rs\<close>: the keys of the wire protocol (Windows virtual key
  codes), their parsing, and the translation to Linux evdev key codes. The two tables of the source are
  association lists in its order.
\<close>

text \<open>A key is named as the variant of the source's enum.\<close>

type_synonym key = string

definition key_codes :: "(key \<times> u8) list" where
  "key_codes =
    [(''Backspace'', 0x08), (''Tab'', 0x09), (''Clear'', 0x0C), (''Return'', 0x0D), (''Shift'', 0x10),
     (''Control'', 0x11), (''Alt'', 0x12), (''Pause'', 0x13), (''Capslock'', 0x14), (''Katakanahiragana'', 0x15),
     (''Hangeul'', 0x16), (''Hanja'', 0x17), (''Katakana'', 0x19), (''Escape'', 0x1B), (''Space'', 0x20),
     (''PageUp'', 0x21), (''PageDown'', 0x22), (''End'', 0x23), (''Home'', 0x24), (''Left'', 0x25), (''Up'', 0x26),
     (''Right'', 0x27), (''Down'', 0x28), (''Select'', 0x29), (''Print'', 0x2A), (''SysRq'', 0x2C),
     (''Insert'', 0x2D), (''Delete'', 0x2E), (''Help'', 0x2F), (''Num0'', 0x30), (''Num1'', 0x31), (''Num2'', 0x32),
     (''Num3'', 0x33), (''Num4'', 0x34), (''Num5'', 0x35), (''Num6'', 0x36), (''Num7'', 0x37), (''Num8'', 0x38),
     (''Num9'', 0x39), (''A'', 0x41), (''B'', 0x42), (''C'', 0x43), (''D'', 0x44), (''E'', 0x45), (''F'', 0x46),
     (''G'', 0x47), (''H'', 0x48), (''I'', 0x49), (''J'', 0x4A), (''K'', 0x4B), (''L'', 0x4C), (''M'', 0x4D),
     (''N'', 0x4E), (''O'', 0x4F), (''P'', 0x50), (''Q'', 0x51), (''R'', 0x52), (''S'', 0x53), (''T'', 0x54),
     (''U'', 0x55), (''V'', 0x56), (''W'', 0x57), (''X'', 0x58), (''Y'', 0x59), (''Z'', 0x5A), (''LeftMeta'', 0x5B),
     (''RightMeta'', 0x5C), (''Sleep'', 0x5F), (''Numpad0'', 0x60), (''Numpad1'', 0x61), (''Numpad2'', 0x62),
     (''Numpad3'', 0x63), (''Numpad4'', 0x64), (''Numpad5'', 0x65), (''Numpad6'', 0x66), (''Numpad7'', 0x67),
     (''Numpad8'', 0x68), (''Numpad9'', 0x69), (''NumpadAsterisk'', 0x6A), (''NumpadPlus'', 0x6B),
     (''NumpadComma'', 0x6C), (''NumpadMinus'', 0x6D), (''NumpadDot'', 0x6E), (''NumpadSlash'', 0x6F),
     (''F1'', 0x70), (''F2'', 0x71), (''F3'', 0x72), (''F4'', 0x73), (''F5'', 0x74), (''F6'', 0x75), (''F7'', 0x76),
     (''F8'', 0x77), (''F9'', 0x78), (''F10'', 0x79), (''F11'', 0x7A), (''F12'', 0x7B), (''F13'', 0x7C),
     (''F14'', 0x7D), (''F15'', 0x7E), (''F16'', 0x7F), (''F17'', 0x80), (''F18'', 0x81), (''F19'', 0x82),
     (''F20'', 0x83), (''F21'', 0x84), (''F22'', 0x85), (''F23'', 0x86), (''F24'', 0x87), (''Numlock'', 0x90),
     (''Scroll'', 0x91), (''LeftShift'', 0xA0), (''RightShift'', 0xA1), (''LeftControl'', 0xA2),
     (''RightControl'', 0xA3), (''LeftAlt'', 0xA4), (''RightAlt'', 0xA5), (''Semicolon'', 0xBA), (''Equal'', 0xBB),
     (''Comma'', 0xBC), (''Minus'', 0xBD), (''Dot'', 0xBE), (''Slash'', 0xBF), (''Grave'', 0xC0),
     (''LeftBrace'', 0xDB), (''Backslash'', 0xDC), (''RightBrace'', 0xDD), (''Apostrophe'', 0xDE),
     (''NonUsBackslash'', 0xE2)]"

definition linux_codes :: "(key \<times> u32) list" where
  "linux_codes =
    [(''Backspace'', 14), (''Tab'', 15), (''Return'', 28), (''Shift'', 42), (''Control'', 29), (''Alt'', 56),
     (''Pause'', 119), (''Capslock'', 58), (''Escape'', 1), (''Space'', 57), (''PageUp'', 104), (''PageDown'', 109),
     (''End'', 107), (''Home'', 102), (''Left'', 105), (''Up'', 103), (''Right'', 106), (''Down'', 108),
     (''Insert'', 110), (''Delete'', 111), (''Num0'', 11), (''Num1'', 2), (''Num2'', 3), (''Num3'', 4), (''Num4'', 5),
     (''Num5'', 6), (''Num6'', 7), (''Num7'', 8), (''Num8'', 9), (''Num9'', 10), (''A'', 30), (''B'', 48), (''C'', 46),
     (''D'', 32), (''E'', 18), (''F'', 33), (''G'', 34), (''H'', 35), (''I'', 23), (''J'', 36), (''K'', 37), (''L'', 38),
     (''M'', 50), (''N'', 49), (''O'', 24), (''P'', 25), (''Q'', 16), (''R'', 19), (''S'', 31), (''T'', 20), (''U'', 22),
     (''V'', 47), (''W'', 17), (''X'', 45), (''Y'', 21), (''Z'', 44), (''LeftMeta'', 125), (''RightMeta'', 126),
     (''Numpad0'', 82), (''Numpad1'', 79), (''Numpad2'', 80), (''Numpad3'', 81), (''Numpad4'', 75),
     (''Numpad5'', 76), (''Numpad6'', 77), (''Numpad7'', 71), (''Numpad8'', 72), (''Numpad9'', 73),
     (''NumpadAsterisk'', 55), (''NumpadPlus'', 78), (''NumpadMinus'', 74), (''NumpadDot'', 83),
     (''NumpadSlash'', 98), (''F1'', 59), (''F2'', 60), (''F3'', 61), (''F4'', 62), (''F5'', 63), (''F6'', 64),
     (''F7'', 65), (''F8'', 66), (''F9'', 67), (''F10'', 68), (''F11'', 87), (''F12'', 88), (''Numlock'', 69),
     (''Scroll'', 70), (''LeftShift'', 42), (''RightShift'', 54), (''LeftControl'', 29), (''RightControl'', 97),
     (''LeftAlt'', 56), (''RightAlt'', 100), (''Semicolon'', 39), (''Equal'', 13), (''Comma'', 51), (''Minus'', 12),
     (''Dot'', 52), (''Slash'', 53), (''Grave'', 41), (''LeftBrace'', 26), (''Backslash'', 43), (''RightBrace'', 27),
     (''Apostrophe'', 40), (''NonUsBackslash'', 86)]"

text \<open>\<open>Key::from_repr\<close> finds the variant with a given discriminant.\<close>

definition key_from_repr :: "u8 \<Rightarrow> key option" where
  "key_from_repr c = map_option fst (List.find (\<lambda>(k, d). d = c) key_codes)"

definition key_from_bytes :: "bytes \<Rightarrow> key res" where
  "key_from_bytes buffer =
     (if length buffer < 6 then Inl Err
      else let wire_keycode = from_le16 (slice 1 3 buffer);
               keycode = (ucast (wire_keycode AND 0x00FF) :: u8)
           in if keycode = 0x00 \<or> keycode = 0xFF then Inl Err
              else ok_or (key_from_repr keycode))"

definition to_linux_keycode :: "key \<Rightarrow> u32 option" where
  "to_linux_keycode k = map_of linux_codes k"

section \<open>The tables\<close>

lemma increasing_key_codes: "successively (<) (map snd key_codes)"
  by (simp add: key_codes_def)

lemma distinct_key_codes: "distinct (map snd key_codes)"
  using increasing_key_codes by (metis successively_iff_sorted_wrt_strong strict_sorted_iff order_less_trans)

lemma linux_codes_bound: "\<forall>(k, c) \<in> set linux_codes. 0 < c \<and> c < 128"
  by (simp add: linux_codes_def)

lemma linux_keys_known: "set (map fst linux_codes) \<subseteq> set (map fst key_codes)"
  by (simp add: linux_codes_def key_codes_def)

lemma key_from_repr_Some: "key_from_repr c = Some k \<longleftrightarrow> (k, c) \<in> set key_codes"
proof
  assume "key_from_repr c = Some k"
  then show "(k, c) \<in> set key_codes"
    unfolding key_from_repr_def by (auto simp: find_Some_iff) (metis nth_mem)
next
  assume mem: "(k, c) \<in> set key_codes"
  then obtain p where p: "List.find (\<lambda>(k, d). d = c) key_codes = Some p"
    by (cases "List.find (\<lambda>(k, d). d = c) key_codes") (auto simp: find_None_iff)
  then have "p \<in> set key_codes" "snd p = c" by (auto simp: find_Some_iff) (metis nth_mem)
  with mem distinct_key_codes have "p = (k, c)"
    by (metis eq_key_imp_eq_value distinct_map inj_on_eq_iff snd_conv)
  with p show "key_from_repr c = Some k" by (simp add: key_from_repr_def)
qed

lemma reserved_codes: "(k, 0) \<notin> set key_codes" "(k, 0xFF) \<notin> set key_codes"
  by (simp_all add: key_codes_def)

lemma low_byte:
  assumes "3 \<le> length b"
  shows "(ucast (from_le16 (slice 1 3 b) AND 0xFF) :: u8) = b ! 1"
proof -
  obtain x y z r where b: "b = x # y # z # r"
    using assms by (metis One_nat_def Suc_le_length_iff numeral_3_eq_3)
  have "from_le16 [y, z] AND 0xFF = ucast y"
  proof -
    have "(from_le16 [y, z] :: u16) = ucast y + 256 * ucast z"
      by (simp add: from_le16_def)
    moreover have "(ucast y + 256 * ucast z :: u16) AND 0xFF = ucast y"
    proof -
      have "(256 * ucast z :: u16) = push_bit 8 (ucast z)" by (simp add: push_bit_eq_mult)
      moreover have "(ucast y :: u16) AND push_bit 8 (ucast z) = 0"
        by (rule bit_eqI) (auto simp: bit_simps dest: bit_imp_le_length)
      ultimately have "(ucast y + 256 * ucast z :: u16) = ucast y OR push_bit 8 (ucast z)"
        by (simp add: disjunctive_add_eq_or)
      moreover have "(ucast y OR push_bit 8 (ucast z) :: u16) AND mask 8 = ucast y"
        by (rule bit_eqI) (auto simp: bit_simps dest: bit_imp_le_length)
      ultimately show ?thesis by (simp add: mask_eq_exp_minus_1)
    qed
    ultimately show ?thesis by simp
  qed
  moreover have "(ucast (ucast y :: u16) :: u8) = y" by (rule bit_eqI) (auto simp: bit_simps dest: bit_imp_le_length)
  ultimately show ?thesis by (simp add: b slice_def numeral_2_eq_2)
qed

section \<open>Properties\<close>

text \<open>
  A keyboard packet is accepted exactly when it has at least six bytes and its second byte is the
  code of a key of the table, whatever the other bytes are; the key it gives is that key, and the evdev code
  the compositor gets for it, if any, is between 1 and 127.
\<close>

theorem key_from_bytes_iff:
  "(key_from_bytes b = Inr k \<longleftrightarrow> 6 \<le> length b \<and> (k, b ! 1) \<in> set key_codes) \<and>
   key_from_bytes b \<noteq> Inl Panic \<and> pred_option (\<lambda>c. 0 < c \<and> c < 128) (to_linux_keycode k)"
proof -
  have "key_from_bytes b = Inr k \<longleftrightarrow> 6 \<le> length b \<and> (k, b ! 1) \<in> set key_codes"
    using reserved_codes [of k] low_byte [of b]
    by (auto simp: key_from_bytes_def Let_def key_from_repr_Some)
  moreover have "key_from_bytes b \<noteq> Inl Panic" by (auto simp: key_from_bytes_def Let_def)
  moreover have "pred_option (\<lambda>c. 0 < c \<and> c < 128) (to_linux_keycode k)"
    using linux_codes_bound by (cases "to_linux_keycode k") (auto simp: to_linux_keycode_def dest!: map_of_SomeD)
  ultimately show ?thesis by blast
qed

end
