(* ===== verification/Float_Bits.thy ===== *)
theory Float_Bits
  imports Prelude
begin

text \<open>
  The IEEE 754 operations of Rust's \<open>f32\<close> and \<open>f64\<close> that the input code uses, on the bit patterns:
  classification, \<open>clamp(0.0, 1.0)\<close>, comparison with a positive constant, multiplication with rounding to
  nearest even, and the saturating cast to \<open>u16\<close>. A value is its bit pattern read as a natural number.
\<close>

section \<open>Formats\<close>

record float_format =
  frac_bits :: nat
  exp_bits :: nat

definition f32_fmt :: float_format where "f32_fmt = \<lparr>frac_bits = 23, exp_bits = 8\<rparr>"
definition f64_fmt :: float_format where "f64_fmt = \<lparr>frac_bits = 52, exp_bits = 11\<rparr>"

definition exp_max :: "float_format \<Rightarrow> nat" where "exp_max F = 2 ^ exp_bits F - 1"
definition inf_bits :: "float_format \<Rightarrow> nat" where "inf_bits F = exp_max F * 2 ^ frac_bits F"
definition sign_bit :: "float_format \<Rightarrow> nat" where "sign_bit F = 2 ^ (frac_bits F + exp_bits F)"
definition negative :: "float_format \<Rightarrow> nat \<Rightarrow> bool" where "negative F w \<longleftrightarrow> sign_bit F \<le> w"
definition magnitude :: "float_format \<Rightarrow> nat \<Rightarrow> nat" where "magnitude F w = w mod sign_bit F"
definition biased_exp :: "float_format \<Rightarrow> nat \<Rightarrow> nat" where "biased_exp F w = magnitude F w div 2 ^ frac_bits F"
definition fraction :: "float_format \<Rightarrow> nat \<Rightarrow> nat" where "fraction F w = magnitude F w mod 2 ^ frac_bits F"
definition is_nan :: "float_format \<Rightarrow> nat \<Rightarrow> bool" where "is_nan F w \<longleftrightarrow> inf_bits F < magnitude F w"
definition is_finite :: "float_format \<Rightarrow> nat \<Rightarrow> bool" where "is_finite F w \<longleftrightarrow> magnitude F w < inf_bits F"

text \<open>\<open>w > c\<close> for a positive constant \<open>c\<close> or zero: on non-negative patterns the order of the values
  is the order of the patterns.\<close>

definition greater_than :: "float_format \<Rightarrow> nat \<Rightarrow> nat \<Rightarrow> bool" where
  "greater_than F w c \<longleftrightarrow> \<not> negative F w \<and> \<not> is_nan F w \<and> c < w"

definition clamp01 :: "float_format \<Rightarrow> nat \<Rightarrow> nat \<Rightarrow> nat" where
  "clamp01 F one w =
     (if is_nan F w then w
      else if negative F w \<and> magnitude F w \<noteq> 0 then 0
      else if greater_than F w one then one else w)"

section \<open>Multiplication and the cast to u16\<close>

fun bit_length :: "nat \<Rightarrow> nat" where
  "bit_length n = (if n = 0 then 0 else 1 + bit_length (n div 2))"

declare bit_length.simps [simp del]

text \<open>A finite pattern is \<open>mantissa * 2 ^ (scale - bias)\<close> with \<open>scale \<ge> 1\<close>.\<close>

definition mantissa :: "float_format \<Rightarrow> nat \<Rightarrow> nat" where
  "mantissa F w = (if biased_exp F w = 0 then fraction F w else 2 ^ frac_bits F + fraction F w)"

definition exponent :: "float_format \<Rightarrow> nat \<Rightarrow> int" where
  "exponent F w = int (max 1 (biased_exp F w)) - (2 ^ (exp_bits F - 1) - 1) - int (frac_bits F)"

definition min_exponent :: "float_format \<Rightarrow> int" where
  "min_exponent F = 1 - (2 ^ (exp_bits F - 1) - 1) - int (frac_bits F)"

definition shift_round :: "nat \<Rightarrow> nat \<Rightarrow> nat" where
  "shift_round k n =
     (let q = n div 2 ^ k; r = n mod 2 ^ k in
      if 2 * r > 2 ^ k \<or> (2 * r = 2 ^ k \<and> odd q) then q + 1 else q)"

text \<open>\<open>round_encode F n e\<close> is the magnitude of the value nearest to \<open>n * 2 ^ e\<close>.\<close>

definition round_encode :: "float_format \<Rightarrow> nat \<Rightarrow> int \<Rightarrow> nat" where
  "round_encode F n e =
     (let k = max (int (bit_length n) - int (frac_bits F + 1)) (min_exponent F - e);
          m = (if 0 \<le> k then shift_round (nat k) n else n * 2 ^ nat (- k));
          scale = nat (e + k - min_exponent F)
      in min (inf_bits F) (scale * 2 ^ frac_bits F + m))"

definition float_mul :: "float_format \<Rightarrow> nat \<Rightarrow> nat \<Rightarrow> nat" where
  "float_mul F a b =
     (let s = (if negative F a = negative F b then 0 else sign_bit F);
          nan = inf_bits F + 2 ^ (frac_bits F - 1)
      in if is_nan F a \<or> is_nan F b then nan
         else if \<not> is_finite F a then (if magnitude F b = 0 then nan else s + inf_bits F)
         else if \<not> is_finite F b then (if magnitude F a = 0 then nan else s + inf_bits F)
         else s + round_encode F (mantissa F a * mantissa F b) (exponent F a + exponent F b))"

definition float_to_u16 :: "float_format \<Rightarrow> nat \<Rightarrow> u16" where
  "float_to_u16 F w =
     (if is_nan F w \<or> negative F w then 0
      else if \<not> is_finite F w then 0xffff
      else let e = exponent F w;
               v = (if 0 \<le> e then mantissa F w * 2 ^ nat e else mantissa F w div 2 ^ nat (- e))
           in of_nat (min v 65535))"

section \<open>The two formats\<close>

definition f32_is_finite :: "u32 \<Rightarrow> bool" where "f32_is_finite w = is_finite f32_fmt (unat w)"
definition f32_clamp01 :: "u32 \<Rightarrow> u32" where "f32_clamp01 w = of_nat (clamp01 f32_fmt 0x3f800000 (unat w))"
definition f32_gt_half :: "u32 \<Rightarrow> bool" where "f32_gt_half w = greater_than f32_fmt (unat w) 0x3f000000"
definition f32_mul :: "u32 \<Rightarrow> u32 \<Rightarrow> u32" where "f32_mul a b = of_nat (float_mul f32_fmt (unat a) (unat b))"
definition f32_to_u16 :: "u32 \<Rightarrow> u16" where "f32_to_u16 w = float_to_u16 f32_fmt (unat w)"
definition u16_to_f32 :: "u16 \<Rightarrow> u32" where "u16_to_f32 n = of_nat (round_encode f32_fmt (unat n) 0)"

text \<open>\<open>f32::to_radians\<close> multiplies by the constant pi / 180.\<close>

definition f32_to_radians :: "u32 \<Rightarrow> u32" where "f32_to_radians w = f32_mul w 0x3c8efa35"

definition f64_positive :: "u64 \<Rightarrow> bool" where "f64_positive w = greater_than f64_fmt (unat w) 0"
definition f64_mul :: "u64 \<Rightarrow> u64 \<Rightarrow> u64" where "f64_mul a b = of_nat (float_mul f64_fmt (unat a) (unat b))"
definition f64_to_u16 :: "u64 \<Rightarrow> u16" where "f64_to_u16 w = float_to_u16 f64_fmt (unat w)"
definition f64_65535 :: u64 where "f64_65535 = 0x40efffe000000000"

lemmas float_fields = f32_fmt_def f64_fmt_def exp_max_def inf_bits_def sign_bit_def negative_def
  magnitude_def biased_exp_def fraction_def is_nan_def is_finite_def greater_than_def

lemma f32_clamp01_range:
  assumes "\<not> is_nan f32_fmt (unat w)"
  shows "unat (f32_clamp01 w) \<le> 0x3f800000 \<or> unat (f32_clamp01 w) = 0x80000000"
proof -
  have "unat w < 2 ^ 32" using unsigned_less [of w, where 'a = nat] by simp
  then have "clamp01 f32_fmt 0x3f800000 (unat w) \<le> 0x3f800000 \<or> clamp01 f32_fmt 0x3f800000 (unat w) = 0x80000000"
    using assms by (auto simp: clamp01_def float_fields)
  then show ?thesis
    by (auto simp: f32_clamp01_def unat_of_nat)
qed

end
