(* ===== verification/Input_Packets.thy ===== *)
theory Input_Packets
  imports Keyboard Float_Bits
begin

text \<open>
  \<open>input/mouse.rs\<close> and \<open>input/touch.rs\<close>: the packets of pointing devices. A signed 16-bit value is a
  \<open>u16\<close> pattern (read with \<open>sint\<close>), an \<open>f32\<close> is its 32-bit pattern.
\<close>

section \<open>The contract of a packet parser\<close>

text \<open>
  Every parser of a fixed-size packet refuses a short buffer with an error, never panics, and looks
  only at the bytes of the packet.
\<close>

lemma slice_take: "b \<le> n \<Longrightarrow> slice a b (take n xs) = slice a b xs"
  by (cases "a \<le> b") (simp_all add: slice_def take_drop min_def)

locale packet_parser =
  fixes parse :: "bytes \<Rightarrow> 'a res"
    and packet_size :: nat
  assumes short: "length b < packet_size \<Longrightarrow> parse b = Inl Err"
    and no_panic: "parse b \<noteq> Inl Panic"
    and prefix: "packet_size \<le> length b \<Longrightarrow> parse (take packet_size b) = parse b"
begin

lemma accepted_length: "parse b = Inr x \<Longrightarrow> packet_size \<le> length b"
  using short [of b] by (cases "length b < packet_size") auto

lemma ignores_tail: "parse b = Inr x \<Longrightarrow> parse (b @ tail) = Inr x"
  using accepted_length [of b x] prefix [of b] prefix [of "b @ tail"] by simp

lemma map_no_panic: "map_sum id f (parse b) \<noteq> Inl Panic"
  using no_panic [of b] by (cases "parse b") auto

end

interpretation key_parser: packet_parser key_from_bytes 6
  by unfold_locales (auto simp: key_from_bytes_def Let_def slice_take min_def)

section \<open>Mouse\<close>

record mouse_move_absolute =
  mma_x :: u16
  mma_y :: u16
  mma_screen_width :: u16
  mma_screen_height :: u16

definition mouse_move_absolute_from_bytes :: "bytes \<Rightarrow> mouse_move_absolute res" where
  "mouse_move_absolute_from_bytes buffer =
     (if length buffer < 10 then Inl Err
      else Inr \<lparr>mma_x = from_be16 (slice 0 2 buffer), mma_y = from_be16 (slice 2 4 buffer),
                mma_screen_width = from_be16 (slice 6 8 buffer),
                mma_screen_height = from_be16 (slice 8 10 buffer)\<rparr>)"

record mouse_move_relative =
  mmr_x :: u16
  mmr_y :: u16

definition mouse_move_relative_from_bytes :: "bytes \<Rightarrow> mouse_move_relative res" where
  "mouse_move_relative_from_bytes buffer =
     (if length buffer < 4 then Inl Err
      else Inr \<lparr>mmr_x = from_be16 (slice 0 2 buffer), mmr_y = from_be16 (slice 2 4 buffer)\<rparr>)"

datatype mouse_button = MB_Left | MB_Middle | MB_Right | MB_Side | MB_Extra

definition mouse_button_from_repr :: "u8 \<Rightarrow> mouse_button option" where
  "mouse_button_from_repr c =
     (if c = 0x01 then Some MB_Left else if c = 0x02 then Some MB_Middle else if c = 0x03 then Some MB_Right
      else if c = 0x04 then Some MB_Side else if c = 0x05 then Some MB_Extra else None)"

definition mouse_button_from_bytes :: "bytes \<Rightarrow> mouse_button res" where
  "mouse_button_from_bytes buffer =
     (if length buffer < 1 then Inl Err else ok_or (mouse_button_from_repr (buffer ! 0)))"

fun mouse_button_code :: "mouse_button \<Rightarrow> u32" where
  "mouse_button_code MB_Left = 0x110"
| "mouse_button_code MB_Middle = 0x112"
| "mouse_button_code MB_Right = 0x111"
| "mouse_button_code MB_Side = 0x113"
| "mouse_button_code MB_Extra = 0x114"

definition mouse_scroll_vertical_from_bytes :: "bytes \<Rightarrow> u16 res" where
  "mouse_scroll_vertical_from_bytes buffer =
     (if length buffer < 2 then Inl Err else Inr (from_be16 (slice 0 2 buffer)))"

definition mouse_scroll_horizontal_from_bytes :: "bytes \<Rightarrow> u16 res" where
  "mouse_scroll_horizontal_from_bytes buffer =
     (if length buffer < 2 then Inl Err else Inr (from_be16 (slice 0 2 buffer)))"

lemmas mouse_parsers = mouse_move_absolute_from_bytes_def mouse_move_relative_from_bytes_def
  mouse_button_from_bytes_def mouse_scroll_vertical_from_bytes_def mouse_scroll_horizontal_from_bytes_def

interpretation mouse_abs: packet_parser mouse_move_absolute_from_bytes 10
  by unfold_locales (auto simp: mouse_parsers slice_take min_def)

interpretation mouse_rel: packet_parser mouse_move_relative_from_bytes 4
  by unfold_locales (auto simp: mouse_parsers slice_take min_def)

interpretation mouse_btn: packet_parser mouse_button_from_bytes 1
  by unfold_locales (auto simp: mouse_parsers min_def)

interpretation mouse_scrollv: packet_parser mouse_scroll_vertical_from_bytes 2
  by unfold_locales (auto simp: mouse_parsers slice_take min_def)

interpretation mouse_scrollh: packet_parser mouse_scroll_horizontal_from_bytes 2
  by unfold_locales (auto simp: mouse_parsers slice_take min_def)

section \<open>Touch and pen\<close>

definition POINTER_PAYLOAD_SIZE :: nat where "POINTER_PAYLOAD_SIZE = 28"

datatype pointer_event_kind =
  PE_Hover | PE_Down | PE_Up | PE_Move | PE_Cancel | PE_ButtonOnly | PE_HoverLeave | PE_CancelAll

fun pointer_event_code :: "pointer_event_kind \<Rightarrow> u8" where
  "pointer_event_code PE_Hover = 0x00"
| "pointer_event_code PE_Down = 0x01"
| "pointer_event_code PE_Up = 0x02"
| "pointer_event_code PE_Move = 0x03"
| "pointer_event_code PE_Cancel = 0x04"
| "pointer_event_code PE_ButtonOnly = 0x05"
| "pointer_event_code PE_HoverLeave = 0x06"
| "pointer_event_code PE_CancelAll = 0x07"

definition pointer_event_from_repr :: "u8 \<Rightarrow> pointer_event_kind option" where
  "pointer_event_from_repr c = List.find (\<lambda>k. pointer_event_code k = c)
     [PE_Hover, PE_Down, PE_Up, PE_Move, PE_Cancel, PE_ButtonOnly, PE_HoverLeave, PE_CancelAll]"

fun has_position :: "pointer_event_kind \<Rightarrow> bool" where
  "has_position k = (k \<in> {PE_Hover, PE_Down, PE_Up, PE_Move})"

datatype pen_tool_kind = PT_Unknown | PT_Pen | PT_Eraser

fun pen_tool_code :: "pen_tool_kind \<Rightarrow> u8" where
  "pen_tool_code PT_Unknown = 0x00"
| "pen_tool_code PT_Pen = 0x01"
| "pen_tool_code PT_Eraser = 0x02"

definition pen_tool_from_repr :: "u8 \<Rightarrow> pen_tool_kind option" where
  "pen_tool_from_repr c = List.find (\<lambda>k. pen_tool_code k = c) [PT_Unknown, PT_Pen, PT_Eraser]"

record touch =
  touch_kind :: pointer_event_kind
  touch_pointer_id :: u32
  touch_x :: u32
  touch_y :: u32

definition touch_from_bytes :: "bytes \<Rightarrow> touch res" where
  "touch_from_bytes buffer =
     (if length buffer < POINTER_PAYLOAD_SIZE then Inl Err
      else rbind (ok_or (pointer_event_from_repr (buffer ! 0))) (\<lambda>event_kind.
        let x = from_le32 (slice 8 12 buffer); y = from_le32 (slice 12 16 buffer) in
        if has_position event_kind \<and> (\<not> f32_is_finite x \<or> \<not> f32_is_finite y) then Inl Err
        else Inr \<lparr>touch_kind = event_kind, touch_pointer_id = from_le32 (slice 4 8 buffer),
                  touch_x = x, touch_y = y\<rparr>))"

record pen =
  pen_kind :: pointer_event_kind
  pen_tool :: pen_tool_kind
  pen_buttons :: u8
  pen_x :: u32
  pen_y :: u32
  pen_pressure_or_distance :: u32
  pen_rotation :: u16
  pen_tilt :: u8

definition pen_from_bytes :: "bytes \<Rightarrow> pen res" where
  "pen_from_bytes buffer =
     (if length buffer < POINTER_PAYLOAD_SIZE then Inl Err
      else rbind (ok_or (pointer_event_from_repr (buffer ! 0))) (\<lambda>event_kind.
        rbind (ok_or (pen_tool_from_repr (buffer ! 1))) (\<lambda>tool_kind.
        let x = from_le32 (slice 4 8 buffer); y = from_le32 (slice 8 12 buffer);
            p = from_le32 (slice 12 16 buffer) in
        if has_position event_kind \<and> (\<not> f32_is_finite x \<or> \<not> f32_is_finite y \<or> \<not> f32_is_finite p) then Inl Err
        else Inr \<lparr>pen_kind = event_kind, pen_tool = tool_kind, pen_buttons = buffer ! 2,
                  pen_x = x, pen_y = y, pen_pressure_or_distance = p,
                  pen_rotation = from_le16 (slice 16 18 buffer), pen_tilt = buffer ! 18\<rparr>)))"

lemma rbind_ok_or_Panic: "rbind (ok_or m) f = Inl Panic \<longleftrightarrow> (\<exists>x. m = Some x \<and> f x = Inl Panic)"
  by (cases m) auto

interpretation touch_parser: packet_parser touch_from_bytes POINTER_PAYLOAD_SIZE
  by unfold_locales
    (auto simp: touch_from_bytes_def POINTER_PAYLOAD_SIZE_def slice_take min_def rbind_ok_or_Panic Let_def cong: if_cong)

interpretation pen_parser: packet_parser pen_from_bytes POINTER_PAYLOAD_SIZE
  by unfold_locales
    (auto simp: pen_from_bytes_def POINTER_PAYLOAD_SIZE_def slice_take min_def rbind_ok_or_Panic Let_def cong: if_cong)

text \<open>What passes: positions that the compositor may use are finite numbers.\<close>

lemma touch_from_bytes_finite:
  "touch_from_bytes b = Inr t \<Longrightarrow> has_position (touch_kind t) \<Longrightarrow>
    f32_is_finite (touch_x t) \<and> f32_is_finite (touch_y t)"
  by (auto simp: touch_from_bytes_def rbind_eq_Inr Let_def simp del: has_position.simps split: if_splits)

lemma pen_from_bytes_finite:
  "pen_from_bytes b = Inr t \<Longrightarrow> has_position (pen_kind t) \<Longrightarrow>
    f32_is_finite (pen_x t) \<and> f32_is_finite (pen_y t) \<and> f32_is_finite (pen_pressure_or_distance t)"
  by (auto simp: pen_from_bytes_def rbind_eq_Inr Let_def simp del: has_position.simps split: if_splits)

end
