(* ===== verification/Crypto.thy ===== *)
theory Crypto
  imports Prelude
begin

text \<open>
  \<open>crypto.rs\<close>: the wrappers around the AES crates. The ciphers are parameters: \<open>gcm_enc\<close> and
  \<open>gcm_dec\<close> are AES-128-GCM with the tag appended to the ciphertext, \<open>cbc_padded\<close> is AES-128-CBC
  encryption with PKCS#7 padding of the first \<open>n\<close> bytes of a buffer. Slices of the wrong size panic
  in \<open>Key::from_slice\<close>, \<open>Nonce::from_slice\<close> and \<open>copy_from_slice\<close>.
\<close>

type_synonym aead = "bytes \<Rightarrow> bytes \<Rightarrow> bytes \<Rightarrow> bytes option"

definition TAG_LEN :: nat where "TAG_LEN = 16"

definition encrypt :: "aead \<Rightarrow> bytes \<Rightarrow> bytes \<Rightarrow> bytes \<Rightarrow> bytes \<Rightarrow> (bytes \<times> bytes) res" where
  "encrypt gcm_enc plaintext key iv tag =
     (if length key \<noteq> 16 \<or> length iv \<noteq> 12 then Inl Panic
      else rbind (ok_or (gcm_enc key iv plaintext)) (\<lambda>ciphertext.
        if length ciphertext < TAG_LEN then Inl Err
        else let actual = length ciphertext - TAG_LEN in
          if length tag \<noteq> TAG_LEN then Inl Panic
          else Inr (take actual ciphertext, drop actual ciphertext)))"

definition decrypt :: "aead \<Rightarrow> bytes \<Rightarrow> bytes \<Rightarrow> bytes \<Rightarrow> bytes \<Rightarrow> bytes res" where
  "decrypt gcm_dec ciphertext key iv tag =
     (if length key \<noteq> 16 \<or> length iv \<noteq> 12 then Inl Panic
      else ok_or (gcm_dec key iv (ciphertext @ tag)))"

definition encrypt_cbc :: "(bytes \<Rightarrow> bytes \<Rightarrow> bytes \<Rightarrow> nat \<Rightarrow> bytes option) \<Rightarrow> bytes \<Rightarrow> bytes \<Rightarrow> bytes \<Rightarrow> bytes res" where
  "encrypt_cbc cbc_padded data key iv =
     (if length key \<noteq> 16 \<or> length iv \<noteq> 16 then Inl Err
      else let pad_len = 16 - length data mod 16;
               buffer = put_at 0 data (replicate (length data + pad_len) 0)
           in ok_or (cbc_padded key iv buffer (length data)))"

text \<open>What the crates document: GCM appends a 16-byte tag and opens what it sealed under the same
  key and nonce; sealing succeeds below the message limit. PKCS#7 padding of a message succeeds in a
  buffer with room for the padding and gives whole blocks, at least one more byte than the message.\<close>

definition aead_contract :: "aead \<Rightarrow> aead \<Rightarrow> bool" where
  "aead_contract gcm_enc gcm_dec \<longleftrightarrow>
     (\<forall>key iv x. length key = 16 \<longrightarrow> length iv = 12 \<longrightarrow> length x < 2 ^ 36 \<longrightarrow>
        (\<exists>c. gcm_enc key iv x = Some c \<and> length c = length x + TAG_LEN \<and>
        gcm_dec key iv c = Some x))"

definition cbc_contract :: "(bytes \<Rightarrow> bytes \<Rightarrow> bytes \<Rightarrow> nat \<Rightarrow> bytes option) \<Rightarrow> bool" where
  "cbc_contract cbc_padded \<longleftrightarrow>
     (\<forall>key iv buf n. length key = 16 \<longrightarrow> length iv = 16 \<longrightarrow> (n div 16 + 1) * 16 \<le> length buf \<longrightarrow>
        (\<exists>c. cbc_padded key iv buf n = Some c \<and> length c = (n div 16 + 1) * 16))"

lemma encrypt_ok:
  assumes "aead_contract gcm_enc gcm_dec" and "length key = 16" "length iv = 12" "length tag = TAG_LEN"
    and "length x < 2 ^ 36"
  obtains ct t where "encrypt gcm_enc x key iv tag = Inr (ct, t)" and "length ct = length x"
    and "length t = TAG_LEN" and "decrypt gcm_dec ct key iv t = Inr x"
proof -
  obtain c where c: "gcm_enc key iv x = Some c" "length c = length x + TAG_LEN" "gcm_dec key iv c = Some x"
    using assms(1,2,3,5) unfolding aead_contract_def by blast
  show ?thesis
    by (rule that [of "take (length x) c" "drop (length x) c"])
      (use assms c in \<open>simp_all add: encrypt_def decrypt_def Let_def\<close>)
qed

lemma encrypt_cbc_ok:
  assumes "cbc_contract cbc_padded" and "length key = 16" "length iv = 16"
  shows "\<exists>c. encrypt_cbc cbc_padded x key iv = Inr c \<and> length c = (length x div 16 + 1) * 16"
proof -
  define b where "b = put_at 0 x (replicate (length x + (16 - length x mod 16)) 0)"
  have len: "length b = length x + (16 - length x mod 16)" by (simp add: b_def put_at_def)
  have "length x + (16 - length x mod 16) = (length x div 16 + 1) * 16"
    by presburger
  with len have "(length x div 16 + 1) * 16 \<le> length b" by simp
  then obtain c where "cbc_padded key iv b (length x) = Some c" "length c = (length x div 16 + 1) * 16"
    using assms unfolding cbc_contract_def by blast
  then show ?thesis using assms(2,3) by (simp add: encrypt_cbc_def Let_def b_def)
qed

text \<open>A concrete AEAD: the plaintext followed by a tag that depends on key and nonce.\<close>

definition tagged_enc :: aead where
  "tagged_enc key iv x = Some (x @ map2 (XOR) key (iv @ replicate 4 0))"

definition tagged_dec :: aead where
  "tagged_dec key iv c = (if length c < 16 then None else Some (take (length c - 16) c))"

lemma tagged_contract: "aead_contract tagged_enc tagged_dec"
  by (simp add: aead_contract_def tagged_enc_def tagged_dec_def TAG_LEN_def)

end
