(* ===== verification/Control_Message.thy ===== *)
theory Control_Message
  imports Crypto
begin

text \<open>
  Messages of the control stream, \<open>session/stream/control/mod.rs\<close>: message types, parsing, the
  encrypted envelope, and the payloads the host builds; with the HDR metadata of
  \<open>compositor/frame.rs\<close> that one of them carries.
\<close>

section \<open>Message types\<close>

datatype control_message_type =
    T_Encrypted | T_TerminationExtended | T_RumbleData | T_HdrMode | T_Ping | T_LossStats | T_FrameStats
  | T_InputData | T_RequestIdrFrame | T_InvalidateReferenceFrames | T_StartB | T_RumbleTriggers
  | T_SetMotionEvent | T_SetRgbLed | T_SetTriggerEffect

fun type_code :: "control_message_type \<Rightarrow> u16" where
  "type_code T_Encrypted = 0x0001"
| "type_code T_TerminationExtended = 0x0109"
| "type_code T_RumbleData = 0x010b"
| "type_code T_HdrMode = 0x010e"
| "type_code T_Ping = 0x0200"
| "type_code T_LossStats = 0x0201"
| "type_code T_FrameStats = 0x0204"
| "type_code T_InputData = 0x0206"
| "type_code T_RequestIdrFrame = 0x0302"
| "type_code T_InvalidateReferenceFrames = 0x0301"
| "type_code T_StartB = 0x0307"
| "type_code T_RumbleTriggers = 0x5500"
| "type_code T_SetMotionEvent = 0x5501"
| "type_code T_SetRgbLed = 0x5502"
| "type_code T_SetTriggerEffect = 0x5503"

definition control_types :: "control_message_type list" where
  "control_types = [T_Encrypted, T_TerminationExtended, T_RumbleData, T_HdrMode, T_Ping, T_LossStats,
     T_FrameStats, T_InputData, T_RequestIdrFrame, T_InvalidateReferenceFrames, T_StartB,
     T_RumbleTriggers, T_SetMotionEvent, T_SetRgbLed, T_SetTriggerEffect]"

definition type_try_from :: "u16 \<Rightarrow> control_message_type option" where
  "type_try_from v = List.find (\<lambda>t. v = type_code t) control_types"

record encrypted_control_message =
  ecm_length :: u16
  ecm_sequence_number :: u32
  ecm_tag :: bytes
  ecm_payload :: bytes

datatype control_message =
    Encrypted encrypted_control_message | TerminationExtended | RumbleData | HdrMode | Ping | LossStats
  | FrameStats | InputData bytes | RequestIdrFrame | InvalidateReferenceFrames u32 u32 | StartB
  | RumbleTriggers | SetMotionEvent | SetRgbLed | SetTriggerEffect

section \<open>Parsing\<close>

definition ENCRYPTION_TAG_LENGTH :: nat where "ENCRYPTION_TAG_LENGTH = 16"
definition MINIMUM_ENCRYPTED_LENGTH :: nat where "MINIMUM_ENCRYPTED_LENGTH = 4 + ENCRYPTION_TAG_LENGTH + 4"

definition parse_encrypted :: "bytes \<Rightarrow> control_message res" where
  "parse_encrypted buffer =
     (if length buffer < MINIMUM_ENCRYPTED_LENGTH then Inl Err
      else let len = from_le16 (slice 2 4 buffer) in
        if unat len < MINIMUM_ENCRYPTED_LENGTH then Inl Err
        else Inr (Encrypted
          \<lparr>ecm_length = len, ecm_sequence_number = from_le32 (slice 4 8 buffer),
           ecm_tag = slice 8 (8 + ENCRYPTION_TAG_LENGTH) buffer,
           ecm_payload = drop (8 + ENCRYPTION_TAG_LENGTH) buffer\<rparr>))"

text \<open>The slice \<open>buffer[4..8]\<close> panics on a buffer of fewer than eight bytes.\<close>

definition parse_input_data :: "bytes \<Rightarrow> control_message res" where
  "parse_input_data buffer =
     (if length buffer < 8 then Inl Panic
      else if unat (from_be32 (slice 4 8 buffer)) \<noteq> length buffer - 8 then Inl Err
      else Inr (InputData (drop 8 buffer)))"

definition parse_invalidate :: "bytes \<Rightarrow> control_message" where
  "parse_invalidate buffer =
     (if 16 \<le> length buffer
      then InvalidateReferenceFrames (from_le32 (slice 4 8 buffer)) (from_le32 (slice 12 16 buffer))
      else InvalidateReferenceFrames 0 (- 1))"

definition control_from_bytes :: "bytes \<Rightarrow> control_message res" where
  "control_from_bytes buffer =
     (if length buffer < 4 then Inl Err
      else if unat (from_le16 (slice 2 4 buffer)) \<noteq> length buffer - 4 then Inl Err
      else rbind (ok_or (type_try_from (from_le16 (slice 0 2 buffer)))) (\<lambda>t.
        case t of
          T_Encrypted \<Rightarrow> parse_encrypted buffer
        | T_Ping \<Rightarrow> Inr Ping
        | T_TerminationExtended \<Rightarrow> Inr TerminationExtended
        | T_RumbleData \<Rightarrow> Inr RumbleData
        | T_LossStats \<Rightarrow> Inr LossStats
        | T_FrameStats \<Rightarrow> Inr FrameStats
        | T_InputData \<Rightarrow> parse_input_data buffer
        | T_InvalidateReferenceFrames \<Rightarrow> Inr (parse_invalidate buffer)
        | T_RequestIdrFrame \<Rightarrow> Inr RequestIdrFrame
        | T_StartB \<Rightarrow> Inr StartB
        | T_HdrMode \<Rightarrow> Inr HdrMode
        | T_RumbleTriggers \<Rightarrow> Inr RumbleTriggers
        | T_SetMotionEvent \<Rightarrow> Inr SetMotionEvent
        | T_SetRgbLed \<Rightarrow> Inr SetRgbLed
        | T_SetTriggerEffect \<Rightarrow> Inr SetTriggerEffect))"

section \<open>The encrypted envelope\<close>

definition encrypted_as_bytes :: "encrypted_control_message \<Rightarrow> bytes" where
  "encrypted_as_bytes m =
     to_le16 (type_code T_Encrypted) @ to_le16 (ecm_length m) @ to_le32 (ecm_sequence_number m) @
     ecm_tag m @ ecm_payload m"

text \<open>Nonces carry the sequence number and two letters: HC for messages of the host, CC for
  messages of the client.\<close>

definition control_iv :: "u8 \<Rightarrow> u32 \<Rightarrow> bytes" where
  "control_iv sender sequence_number =
     put_at 11 [0x43] (put_at 10 [sender] (put_at 0 (to_le32 sequence_number) (replicate 12 0)))"

definition host_iv :: "u32 \<Rightarrow> bytes" where "host_iv = control_iv 0x48"
definition client_iv :: "u32 \<Rightarrow> bytes" where "client_iv = control_iv 0x43"

definition encode_control :: "aead \<Rightarrow> bytes \<Rightarrow> u32 \<Rightarrow> bytes \<Rightarrow> bytes res" where
  "encode_control gcm_enc key sequence_number payload =
     (if length key \<noteq> 16 then Inl Err
      else rbind (encrypt gcm_enc payload key (host_iv sequence_number) (replicate 16 0)) (\<lambda>(payload, tag).
        if payload = [] then Inl Err
        else Inr (encrypted_as_bytes
          \<lparr>ecm_length = 4 + of_nat ENCRYPTION_TAG_LENGTH + of_nat (length payload),
           ecm_sequence_number = sequence_number, ecm_tag = tag, ecm_payload = payload\<rparr>)))"

text \<open>What the control loop does with an encrypted message before it looks at it.\<close>

definition open_encrypted :: "aead \<Rightarrow> bytes \<Rightarrow> encrypted_control_message \<Rightarrow> bytes res" where
  "open_encrypted gcm_dec key m =
     decrypt gcm_dec (ecm_payload m) key (client_iv (ecm_sequence_number m)) (ecm_tag m)"

section \<open>Payloads of the host\<close>

record hdr_metadata =
  display_primaries :: "(u16 \<times> u16) list"
  white_point :: "u16 \<times> u16"
  max_luminance :: u32
  min_luminance :: u32
  max_cll :: u16
  max_fall :: u16

record hdr_mode_state =
  hdr_enabled :: bool
  hdr_meta :: "hdr_metadata option"

definition hdr_mode_state_new :: "bool \<Rightarrow> hdr_mode_state" where
  "hdr_mode_state_new enabled = \<lparr>hdr_enabled = enabled, hdr_meta = None\<rparr>"

definition hdr_metadata_fallback :: hdr_metadata where
  "hdr_metadata_fallback =
     \<lparr>display_primaries = [(34000, 16000), (13250, 34500), (7500, 3000)], white_point = (15635, 16450),
      max_luminance = 10000000, min_luminance = 10, max_cll = 0, max_fall = 0\<rparr>"

definition u16_clamp :: "u32 \<Rightarrow> u16" where
  "u16_clamp w = ucast (min w 0xffff)"

definition hdr_metadata_bytes :: "hdr_metadata \<Rightarrow> bytes" where
  "hdr_metadata_bytes m =
     concat (map (\<lambda>(x, y). to_le16 x @ to_le16 y) (display_primaries m)) @
     to_le16 (fst (white_point m)) @ to_le16 (snd (white_point m)) @
     to_le16 (u16_clamp (max_luminance m div 10000)) @ to_le16 (u16_clamp (min_luminance m)) @
     to_le16 (max_cll m) @ to_le16 (max_fall m) @ to_le16 0 @ replicate 4 0"

definition build_hdr_mode_payload :: "bool \<Rightarrow> hdr_metadata option \<Rightarrow> bytes" where
  "build_hdr_mode_payload enabled metadata =
     to_le16 (type_code T_HdrMode) @ to_le16 (1 + 30) @ [if enabled then 1 else 0] @
     (case metadata of Some m \<Rightarrow> hdr_metadata_bytes m | None \<Rightarrow> replicate 30 0)"

definition build_termination_payload :: "u32 \<Rightarrow> bytes" where
  "build_termination_payload error_code =
     to_le16 (type_code T_TerminationExtended) @ to_le16 4 @ to_be32 error_code"

text \<open>The array of primaries has three entries.\<close>

definition wf_hdr_metadata :: "hdr_metadata \<Rightarrow> bool" where
  "wf_hdr_metadata m \<longleftrightarrow> length (display_primaries m) = 3"

lemma wf_hdr_metadata_fallback [simp]: "wf_hdr_metadata hdr_metadata_fallback"
  by (simp add: wf_hdr_metadata_def hdr_metadata_fallback_def)

section \<open>Type codes\<close>

lemma type_code_inject: "type_code t = type_code u \<longleftrightarrow> t = u"
  by (cases t; cases u) simp_all

lemma type_try_from_code [simp]: "type_try_from (type_code t) = Some t"
  by (cases t) (simp_all add: type_try_from_def control_types_def)

lemma type_try_from_Some: "type_try_from v = Some t \<longleftrightarrow> v = type_code t"
  using type_try_from_code [of t] by (auto simp: type_try_from_def find_Some_iff)

section \<open>Framed messages\<close>

text \<open>
  The V2 framing every host payload uses: type, length of the rest, rest. A builder with these laws
  gives messages that pass the checks in front of the parser.
\<close>

locale framed_builder =
  fixes build :: "'c \<Rightarrow> bytes"
    and msg_type :: "'c \<Rightarrow> control_message_type"
    and valid :: "'c \<Rightarrow> bool"
  assumes min_length: "valid c \<Longrightarrow> 4 \<le> length (build c) \<and> length (build c) < 2 ^ 16"
    and type_field: "valid c \<Longrightarrow> slice 0 2 (build c) = to_le16 (type_code (msg_type c))"
    and length_field: "valid c \<Longrightarrow> slice 2 4 (build c) = to_le16 (of_nat (length (build c) - 4))"
begin

lemma header_accepted:
  assumes "valid c"
  shows "4 \<le> length (build c)" and "unat (from_le16 (slice 2 4 (build c))) = length (build c) - 4"
    and "type_try_from (from_le16 (slice 0 2 (build c))) = Some (msg_type c)"
proof -
  define n where "n = length (build c) - 4"
  have n: "length (build c) = 4 + n" "n < 2 ^ 16" using min_length [OF assms] by (auto simp: n_def)
  show "4 \<le> length (build c)" using n by simp
  show "unat (from_le16 (slice 2 4 (build c))) = length (build c) - 4"
    using n by (simp add: length_field [OF assms] unat_of_nat)
  show "type_try_from (from_le16 (slice 0 2 (build c))) = Some (msg_type c)"
    by (simp add: type_field [OF assms])
qed

lemma parse_simple:
  assumes "valid c" and "msg_type c \<notin> {T_Encrypted, T_InputData}"
  shows "\<exists>m. control_from_bytes (build c) = Inr m"
  using header_accepted [OF assms(1)] assms(2)
  by (cases "msg_type c") (simp_all add: control_from_bytes_def)

end

lemma length_primaries: "length (concat (map (\<lambda>(x, y). to_le16 x @ to_le16 y) ps)) = 4 * length ps"
  by (induction ps) auto

lemma hdr_metadata_bytes_length: "wf_hdr_metadata m \<Longrightarrow> length (hdr_metadata_bytes m) = 30"
  by (simp add: hdr_metadata_bytes_def wf_hdr_metadata_def length_primaries)

lemma hdr_payload_frame:
  "slice 0 2 (build_hdr_mode_payload e m) = to_le16 (type_code T_HdrMode)"
  "slice 2 4 (build_hdr_mode_payload e m) = to_le16 31"
  "case m of None \<Rightarrow> True | Some m \<Rightarrow> wf_hdr_metadata m \<Longrightarrow> length (build_hdr_mode_payload e m) = 35"
  by (simp_all add: build_hdr_mode_payload_def slice_def hdr_metadata_bytes_length split: option.splits)

interpretation hdr_frame: framed_builder "\<lambda>p. build_hdr_mode_payload (fst p) (snd p)" "\<lambda>_. T_HdrMode"
  "\<lambda>p. case snd p of None \<Rightarrow> True | Some m \<Rightarrow> wf_hdr_metadata m"
  by unfold_locales (simp_all add: hdr_payload_frame)

interpretation termination_frame: framed_builder build_termination_payload "\<lambda>_. T_TerminationExtended" "\<lambda>_. True"
  by unfold_locales (auto simp: build_termination_payload_def slice_def)

section \<open>Round trip of the envelope\<close>

lemma length_control_iv [simp]: "length (control_iv s q) = 12"
  by (simp add: control_iv_def length_put_at)

lemma encode_control_ok:
  assumes "aead_contract gcm_enc gcm_dec" and "length key = 16"
    and "4 \<le> length payload" and "length payload + 20 < 2 ^ 16"
  obtains wire m where "encode_control gcm_enc key seq payload = Inr wire"
    and "control_from_bytes wire = Inr (Encrypted m)" and "ecm_sequence_number m = seq"
    and "decrypt gcm_dec (ecm_payload m) key (host_iv seq) (ecm_tag m) = Inr payload"
proof -
  have sz: "length payload < 2 ^ 36" using assms(4) by simp
  obtain ct tag where e: "encrypt gcm_enc payload key (host_iv seq) (replicate 16 0) = Inr (ct, tag)"
    and l: "length ct = length payload" "length tag = TAG_LEN"
    and d: "decrypt gcm_dec ct key (host_iv seq) tag = Inr payload"
    using encrypt_ok [OF assms(1,2) _ _ sz, of "host_iv seq" "replicate 16 0"]
    by (auto simp: host_iv_def TAG_LEN_def)
  define m where "m = \<lparr>ecm_length = of_nat (20 + length payload), ecm_sequence_number = seq,
    ecm_tag = tag, ecm_payload = ct\<rparr>"
  have enc: "encode_control gcm_enc key seq payload = Inr (encrypted_as_bytes m)"
    using assms(2,3) l by (auto simp: encode_control_def e m_def ENCRYPTION_TAG_LENGTH_def)
  have u: "unat (of_nat (20 + length payload) :: u16) = 20 + length payload"
    using assms(4) by (subst unat_of_nat) simp
  have len: "length (encrypted_as_bytes m) = 24 + length payload"
    using l by (simp add: encrypted_as_bytes_def m_def TAG_LEN_def)
  have fields: "slice 0 2 (encrypted_as_bytes m) = to_le16 (type_code T_Encrypted)"
    "slice 2 4 (encrypted_as_bytes m) = to_le16 (of_nat (20 + length payload))"
    "slice 4 8 (encrypted_as_bytes m) = to_le32 seq" "slice 8 24 (encrypted_as_bytes m) = tag"
    "drop 24 (encrypted_as_bytes m) = ct"
    using l by (simp_all add: encrypted_as_bytes_def m_def slice_def TAG_LEN_def)
  have "parse_encrypted (encrypted_as_bytes m) = Inr (Encrypted m)"
    using assms(3) len u unfolding parse_encrypted_def
    by (simp add: Let_def MINIMUM_ENCRYPTED_LENGTH_def ENCRYPTION_TAG_LENGTH_def fields
        del: of_nat_add) (simp add: m_def)
  then have "control_from_bytes (encrypted_as_bytes m) = Inr (Encrypted m)"
    using len u unfolding control_from_bytes_def fields(1,2) by (simp del: of_nat_add type_code.simps)
  with enc d show ?thesis by (intro that [of "encrypted_as_bytes m" m]) (simp_all add: m_def)
qed

fun message_type :: "control_message \<Rightarrow> control_message_type" where
  "message_type (Encrypted m) = T_Encrypted"
| "message_type TerminationExtended = T_TerminationExtended"
| "message_type RumbleData = T_RumbleData"
| "message_type HdrMode = T_HdrMode"
| "message_type Ping = T_Ping"
| "message_type LossStats = T_LossStats"
| "message_type FrameStats = T_FrameStats"
| "message_type (InputData e) = T_InputData"
| "message_type RequestIdrFrame = T_RequestIdrFrame"
| "message_type (InvalidateReferenceFrames a b) = T_InvalidateReferenceFrames"
| "message_type StartB = T_StartB"
| "message_type RumbleTriggers = T_RumbleTriggers"
| "message_type SetMotionEvent = T_SetMotionEvent"
| "message_type SetRgbLed = T_SetRgbLed"
| "message_type SetTriggerEffect = T_SetTriggerEffect"

definition header_matches :: "bytes \<Rightarrow> bool" where
  "header_matches b \<longleftrightarrow> 4 \<le> length b \<and> unat (from_le16 (slice 2 4 b)) = length b - 4"

lemma control_from_bytes_header:
  "\<not> header_matches b \<Longrightarrow> control_from_bytes b = Inl Err"
  by (auto simp: header_matches_def control_from_bytes_def)

lemma control_from_bytes_type:
  assumes "header_matches b"
  shows "control_from_bytes b = Inl Panic \<longleftrightarrow>
      length b < 8 \<and> from_le16 (slice 0 2 b) = type_code T_InputData" (is ?panic)
    and "control_from_bytes b = Inr m \<Longrightarrow> from_le16 (slice 0 2 b) = type_code (message_type m)"
proof -
  have run: "control_from_bytes b = rbind (ok_or (type_try_from (from_le16 (slice 0 2 b)))) (\<lambda>t.
        case t of
          T_Encrypted \<Rightarrow> parse_encrypted b | T_Ping \<Rightarrow> Inr Ping | T_TerminationExtended \<Rightarrow> Inr TerminationExtended
        | T_RumbleData \<Rightarrow> Inr RumbleData | T_LossStats \<Rightarrow> Inr LossStats | T_FrameStats \<Rightarrow> Inr FrameStats
        | T_InputData \<Rightarrow> parse_input_data b | T_InvalidateReferenceFrames \<Rightarrow> Inr (parse_invalidate b)
        | T_RequestIdrFrame \<Rightarrow> Inr RequestIdrFrame | T_StartB \<Rightarrow> Inr StartB | T_HdrMode \<Rightarrow> Inr HdrMode
        | T_RumbleTriggers \<Rightarrow> Inr RumbleTriggers | T_SetMotionEvent \<Rightarrow> Inr SetMotionEvent
        | T_SetRgbLed \<Rightarrow> Inr SetRgbLed | T_SetTriggerEffect \<Rightarrow> Inr SetTriggerEffect)"
    using assms by (simp add: control_from_bytes_def header_matches_def)
  show ?panic
  proof (cases "type_try_from (from_le16 (slice 0 2 b))")
    case None
    then show ?thesis by (metis rbind_simps(1) ok_or_simps(1) run type_try_from_code option.distinct(1)
          failure.distinct(1) Inl_inject)
  next
    case (Some t)
    then have "from_le16 (slice 0 2 b) = type_code t" by (simp add: type_try_from_Some)
    with Some show ?thesis unfolding run
      by (cases t) (auto simp: parse_encrypted_def parse_input_data_def Let_def type_code_inject simp del: type_code.simps)
  qed
  assume m: "control_from_bytes b = Inr m"
  then obtain t where t: "type_try_from (from_le16 (slice 0 2 b)) = Some t"
    unfolding run by (auto simp: rbind_eq_Inr)
  then have code: "from_le16 (slice 0 2 b) = type_code t" by (simp add: type_try_from_Some)
  have "message_type m = t" using m t unfolding run
    by (cases t) (auto simp: parse_encrypted_def parse_input_data_def parse_invalidate_def Let_def split: if_splits)
  then show "from_le16 (slice 0 2 b) = type_code (message_type m)" using code by simp
qed

section \<open>Properties\<close>

text \<open>
  The outcome of parsing a control message. A buffer shorter than four bytes or with a length field
  that is not the number of remaining bytes is refused; otherwise the message that is returned has the type
  the buffer names. The parser panics exactly on an input message of fewer than eight bytes.
\<close>

theorem control_from_bytes_outcome:
  shows "case control_from_bytes b of
      Inr m \<Rightarrow> header_matches b \<and> from_le16 (slice 0 2 b) = type_code (message_type m)
    | Inl Panic \<Rightarrow> header_matches b \<and> length b < 8 \<and> from_le16 (slice 0 2 b) = type_code T_InputData
    | Inl Err \<Rightarrow> \<not> (header_matches b \<and> length b < 8 \<and> from_le16 (slice 0 2 b) = type_code T_InputData)"
  using control_from_bytes_header [of b] control_from_bytes_type [of b]
  by (cases "header_matches b") (auto simp del: type_code.simps split: sum.splits failure.splits)

text \<open>
  The envelope is lossless: with a cipher that opens what it seals, a host payload of 4 to 65515
  bytes is encoded under a 16-byte key into a message that parses as encrypted, carries the sequence
  number, and opens to the payload under the nonce the client derives from that number.
\<close>

theorem encode_control_roundtrip:
  assumes "aead_contract gcm_enc gcm_dec" and "length key = 16"
    and "4 \<le> length payload" and "length payload + 20 < 2 ^ 16"
  shows "\<exists>wire m. encode_control gcm_enc key seq payload = Inr wire \<and>
    control_from_bytes wire = Inr (Encrypted m) \<and> ecm_sequence_number m = seq \<and>
    decrypt gcm_dec (ecm_payload m) key (host_iv seq) (ecm_tag m) = Inr payload"
  using encode_control_ok [OF assms] by metis

theorem encode_control_roundtrip_witness:
  "\<exists>wire m. encode_control tagged_enc (replicate 16 9) 5 (build_termination_payload 0x80030023) = Inr wire \<and>
    control_from_bytes wire = Inr (Encrypted m) \<and> ecm_sequence_number m = 5 \<and>
    decrypt tagged_dec (ecm_payload m) (replicate 16 9) (host_iv 5) (ecm_tag m) =
      Inr (build_termination_payload 0x80030023)"
  by (rule encode_control_roundtrip [OF tagged_contract]) (simp_all add: build_termination_payload_def)

end
