(* ===== verification/Feedback.thy ===== *)
theory Feedback
  imports Control_Message
begin

text \<open>
  \<open>session/stream/control/feedback.rs\<close>: the commands the host sends back to the client's gamepads,
  and their packets.
\<close>

record rumble_command =
  rumble_id :: u16
  low_frequency :: u16
  high_frequency :: u16

record set_led_command =
  led_id :: u16
  rgb :: "u8 \<times> u8 \<times> u8"

record enable_motion_event_command =
  motion_id :: u16
  report_rate :: u16
  motion_type :: u8

record trigger_effect_command =
  trigger_id :: u16
  trigger_event_flags :: u8
  type_left :: u8
  type_right :: u8
  left_effect :: bytes
  right_effect :: bytes

datatype feedback_command =
    Rumble rumble_command
  | SetLed set_led_command
  | EnableMotionEvent enable_motion_event_command
  | TriggerEffect trigger_effect_command

definition FEEDBACK_HEADER_LENGTH :: nat where "FEEDBACK_HEADER_LENGTH = 2 + 2"
definition RUMBLE_PAYLOAD_LENGTH :: nat where "RUMBLE_PAYLOAD_LENGTH = 4 + 2 + 2 + 2"
definition LED_PAYLOAD_LENGTH :: nat where "LED_PAYLOAD_LENGTH = 2 + 3 * 1"
definition MOTION_PAYLOAD_LENGTH :: nat where "MOTION_PAYLOAD_LENGTH = 2 + 2 + 1"
definition TRIGGER_PAYLOAD_LENGTH :: nat where "TRIGGER_PAYLOAD_LENGTH = 2 + 1 + 1 + 1 + 10 * 1 + 10 * 1"

lemmas feedback_lengths = FEEDBACK_HEADER_LENGTH_def RUMBLE_PAYLOAD_LENGTH_def LED_PAYLOAD_LENGTH_def
  MOTION_PAYLOAD_LENGTH_def TRIGGER_PAYLOAD_LENGTH_def

definition rumble_as_packet :: "rumble_command \<Rightarrow> bytes" where
  "rumble_as_packet c =
     put_at 12 (to_le16 (high_frequency c))
      (put_at 10 (to_le16 (low_frequency c))
        (put_at 8 (to_le16 (rumble_id c))
          (put_at 2 (to_le16 (of_nat RUMBLE_PAYLOAD_LENGTH))
            (put_at 0 (to_le16 (type_code T_RumbleData))
              (replicate (FEEDBACK_HEADER_LENGTH + RUMBLE_PAYLOAD_LENGTH) 0)))))"

definition set_led_as_packet :: "set_led_command \<Rightarrow> bytes" where
  "set_led_as_packet c =
     (case rgb c of (r, g, b) \<Rightarrow>
       put_at 8 [b] (put_at 7 [g] (put_at 6 [r]
        (put_at 4 (to_le16 (led_id c))
          (put_at 2 (to_le16 (of_nat LED_PAYLOAD_LENGTH))
            (put_at 0 (to_le16 (type_code T_SetRgbLed))
              (replicate (FEEDBACK_HEADER_LENGTH + LED_PAYLOAD_LENGTH) 0)))))))"

definition enable_motion_as_packet :: "enable_motion_event_command \<Rightarrow> bytes" where
  "enable_motion_as_packet c =
     put_at 8 [motion_type c]
      (put_at 6 (to_le16 (report_rate c))
        (put_at 4 (to_le16 (motion_id c))
          (put_at 2 (to_le16 (of_nat MOTION_PAYLOAD_LENGTH))
            (put_at 0 (to_le16 (type_code T_SetMotionEvent))
              (replicate (FEEDBACK_HEADER_LENGTH + MOTION_PAYLOAD_LENGTH) 0)))))"

definition trigger_effect_as_packet :: "trigger_effect_command \<Rightarrow> bytes" where
  "trigger_effect_as_packet c =
     put_at 19 (right_effect c)
      (put_at 9 (left_effect c)
        (put_at 8 [type_right c] (put_at 7 [type_left c] (put_at 6 [trigger_event_flags c]
          (put_at 4 (to_le16 (trigger_id c))
            (put_at 2 (to_le16 (of_nat TRIGGER_PAYLOAD_LENGTH))
              (put_at 0 (to_le16 (type_code T_SetTriggerEffect))
                (replicate (FEEDBACK_HEADER_LENGTH + TRIGGER_PAYLOAD_LENGTH) 0))))))))"

fun feedback_as_packet :: "feedback_command \<Rightarrow> bytes" where
  "feedback_as_packet (Rumble c) = rumble_as_packet c"
| "feedback_as_packet (SetLed c) = set_led_as_packet c"
| "feedback_as_packet (EnableMotionEvent c) = enable_motion_as_packet c"
| "feedback_as_packet (TriggerEffect c) = trigger_effect_as_packet c"

section \<open>The packets as messages\<close>

fun feedback_type :: "feedback_command \<Rightarrow> control_message_type" where
  "feedback_type (Rumble c) = T_RumbleData"
| "feedback_type (SetLed c) = T_SetRgbLed"
| "feedback_type (EnableMotionEvent c) = T_SetMotionEvent"
| "feedback_type (TriggerEffect c) = T_SetTriggerEffect"

text \<open>The effect parameters are arrays of ten bytes.\<close>

fun wf_feedback :: "feedback_command \<Rightarrow> bool" where
  "wf_feedback (TriggerEffect c) = (length (left_effect c) = 10 \<and> length (right_effect c) = 10)"
| "wf_feedback _ = True"

lemmas packet_defs = rumble_as_packet_def set_led_as_packet_def enable_motion_as_packet_def
  trigger_effect_as_packet_def feedback_lengths

lemma length_feedback_as_packet:
  "wf_feedback c \<Longrightarrow> length (feedback_as_packet c) =
    (case c of Rumble _ \<Rightarrow> 14 | SetLed _ \<Rightarrow> 9 | EnableMotionEvent _ \<Rightarrow> 9 | TriggerEffect _ \<Rightarrow> 29)"
  by (cases c) (auto simp: packet_defs length_put_at split: prod.splits)

lemma feedback_header:
  assumes "wf_feedback c"
  shows "slice 0 2 (feedback_as_packet c) = to_le16 (type_code (feedback_type c))"
    and "slice 2 4 (feedback_as_packet c) = to_le16 (of_nat (length (feedback_as_packet c) - 4))"
  using assms length_feedback_as_packet [OF assms]
  by (cases c; auto simp: packet_defs put_at_def slice_def split: prod.splits)+

interpretation feedback_frame: framed_builder feedback_as_packet feedback_type wf_feedback
proof unfold_locales
  fix c assume "wf_feedback c"
  then show "4 \<le> length (feedback_as_packet c) \<and> length (feedback_as_packet c) < 2 ^ 16"
    by (cases c) (simp_all add: length_feedback_as_packet del: feedback_as_packet.simps wf_feedback.simps)
qed (simp_all add: feedback_header)

text \<open>How the client reads a packet back, by its type.\<close>

definition decode_feedback :: "bytes \<Rightarrow> feedback_command option" where
  "decode_feedback p =
     (case type_try_from (from_le16 (slice 0 2 p)) of
        Some T_RumbleData \<Rightarrow> Some (Rumble
          \<lparr>rumble_id = from_le16 (slice 8 10 p), low_frequency = from_le16 (slice 10 12 p),
           high_frequency = from_le16 (slice 12 14 p)\<rparr>)
      | Some T_SetRgbLed \<Rightarrow> Some (SetLed \<lparr>led_id = from_le16 (slice 4 6 p), rgb = (p ! 6, p ! 7, p ! 8)\<rparr>)
      | Some T_SetMotionEvent \<Rightarrow> Some (EnableMotionEvent
          \<lparr>motion_id = from_le16 (slice 4 6 p), report_rate = from_le16 (slice 6 8 p), motion_type = p ! 8\<rparr>)
      | Some T_SetTriggerEffect \<Rightarrow> Some (TriggerEffect
          \<lparr>trigger_id = from_le16 (slice 4 6 p), trigger_event_flags = p ! 6, type_left = p ! 7,
           type_right = p ! 8, left_effect = slice 9 19 p, right_effect = slice 19 29 p\<rparr>)
      | _ \<Rightarrow> None)"

lemma decode_feedback_as_packet:
  assumes "wf_feedback c" shows "decode_feedback (feedback_as_packet c) = Some c"
proof -
  have t: "type_try_from (from_le16 (slice 0 2 (feedback_as_packet c))) = Some (feedback_type c)"
    by (rule feedback_frame.header_accepted(3) [OF assms])
  show ?thesis
  proof (cases c)
    case (TriggerEffect e)
    with assms t show ?thesis
      by (simp add: decode_feedback_def packet_defs put_at_def slice_def nth_append)
  next
    case (SetLed e)
    with t show ?thesis
      by (cases "rgb e") (simp add: decode_feedback_def packet_defs put_at_def slice_def nth_append)
  qed (use t in \<open>simp_all add: decode_feedback_def packet_defs put_at_def slice_def nth_append\<close>)
qed

section \<open>Properties\<close>

text \<open>
  Every feedback command reaches the client unchanged: its packet is accepted by the framing rules,
  survives the encrypted envelope, and the fields the client reads from it are those of the command.
\<close>

theorem feedback_roundtrip:
  assumes "aead_contract gcm_enc gcm_dec" and "length key = 16" and "wf_feedback c"
  shows "\<exists>wire m packet. encode_control gcm_enc key seq (feedback_as_packet c) = Inr wire \<and>
    control_from_bytes wire = Inr (Encrypted m) \<and>
    decrypt gcm_dec (ecm_payload m) key (host_iv seq) (ecm_tag m) = Inr packet \<and>
    (\<exists>msg. control_from_bytes packet = Inr msg) \<and> decode_feedback packet = Some c"
proof -
  have len: "4 \<le> length (feedback_as_packet c)" "length (feedback_as_packet c) + 20 < 2 ^ 16"
    using length_feedback_as_packet [OF assms(3)] by (cases c; simp)+
  obtain wire m where "encode_control gcm_enc key seq (feedback_as_packet c) = Inr wire"
    "control_from_bytes wire = Inr (Encrypted m)"
    "decrypt gcm_dec (ecm_payload m) key (host_iv seq) (ecm_tag m) = Inr (feedback_as_packet c)"
    using encode_control_ok [OF assms(1,2) len] by metis
  moreover have "\<exists>msg. control_from_bytes (feedback_as_packet c) = Inr msg"
    by (rule feedback_frame.parse_simple [OF assms(3)]) (cases c; simp)
  ultimately show ?thesis using decode_feedback_as_packet [OF assms(3)] by blast
qed

theorem feedback_roundtrip_witness:
  "\<exists>wire m packet. encode_control tagged_enc (replicate 16 3) 1
      (feedback_as_packet (SetLed \<lparr>led_id = 2, rgb = (10, 20, 30)\<rparr>)) = Inr wire \<and>
    control_from_bytes wire = Inr (Encrypted m) \<and>
    decrypt tagged_dec (ecm_payload m) (replicate 16 3) (host_iv 1) (ecm_tag m) = Inr packet \<and>
    (\<exists>msg. control_from_bytes packet = Inr msg) \<and>
    decode_feedback packet = Some (SetLed \<lparr>led_id = 2, rgb = (10, 20, 30)\<rparr>)"
  by (rule feedback_roundtrip [OF tagged_contract]) simp_all

end
