(* ===== verification/Gamepad.thy ===== *)
theory Gamepad
  imports Input_Packets Feedback
begin

text \<open>
  \<open>input/gamepad.rs\<close>: the gamepad packets and the wrapper around the virtual joypad. The joypad itself
  (inputtino) is outside: what the wrapper asks of it is a list of \<open>device_op\<close>s. The touchpad size is a
  constant of that library and a parameter here.
\<close>

section \<open>Configuration\<close>

record home_button_config =
  hold_ms :: u64
  rumble_duration_ms :: u64
  rumble_intensity :: u64
  suppress_home :: bool

definition home_button_default :: home_button_config where
  "home_button_default =
     \<lparr>hold_ms = 0, rumble_duration_ms = 50, rumble_intensity = 0x3fe0000000000000, suppress_home = False\<rparr>"

section \<open>Packets\<close>

datatype gamepad_kind = GK_Unknown | GK_Xbox | GK_PlayStation | GK_Nintendo

definition gamepad_kind_from_repr :: "u8 \<Rightarrow> gamepad_kind option" where
  "gamepad_kind_from_repr c =
     (if c = 0x00 then Some GK_Unknown else if c = 0x01 then Some GK_Xbox
      else if c = 0x02 then Some GK_PlayStation else if c = 0x03 then Some GK_Nintendo else None)"

record gamepad_info =
  info_index :: u8
  info_kind :: gamepad_kind
  capabilities :: u16
  supported_buttons :: u32

definition gamepad_info_from_bytes :: "bytes \<Rightarrow> gamepad_info res" where
  "gamepad_info_from_bytes buffer =
     (if length buffer < 8 then Inl Err
      else rbind (ok_or (gamepad_kind_from_repr (buffer ! 1))) (\<lambda>kind.
        Inr \<lparr>info_index = buffer ! 0, info_kind = kind, capabilities = from_le16 (slice 2 4 buffer),
             supported_buttons = from_le32 (slice 4 8 buffer)\<rparr>))"

definition default_for_index :: "u8 \<Rightarrow> gamepad_info" where
  "default_for_index index =
     \<lparr>info_index = index, info_kind = GK_Unknown, capabilities = 0, supported_buttons = 0\<rparr>"

definition has_capability :: "gamepad_info \<Rightarrow> u16 \<Rightarrow> bool" where
  "has_capability info capability \<longleftrightarrow> capabilities info AND capability \<noteq> 0"

record gamepad_touch =
  gt_index :: u8
  gt_event_type :: u8
  gt_pointer_id :: u32
  gt_x :: u32
  gt_y :: u32
  gt_pressure :: u32

definition gamepad_touch_from_bytes :: "bytes \<Rightarrow> gamepad_touch res" where
  "gamepad_touch_from_bytes buffer =
     (if length buffer < 20 then Inl Err
      else Inr \<lparr>gt_index = buffer ! 0, gt_event_type = buffer ! 1,
                gt_pointer_id = from_le32 (slice 4 8 buffer),
                gt_x = f32_clamp01 (from_le32 (slice 8 12 buffer)),
                gt_y = f32_clamp01 (from_le32 (slice 12 16 buffer)),
                gt_pressure = f32_clamp01 (from_le32 (slice 16 20 buffer))\<rparr>)"

record gamepad_update =
  gu_index :: u16
  active_gamepad_mask :: u16
  gu_button_flags :: u32
  left_trigger :: u8
  right_trigger :: u8
  left_stick :: "u16 \<times> u16"
  right_stick :: "u16 \<times> u16"

definition gamepad_update_from_bytes :: "bytes \<Rightarrow> gamepad_update res" where
  "gamepad_update_from_bytes buffer =
     (if length buffer < 26 then Inl Err
      else Inr \<lparr>gu_index = from_le16 (slice 2 4 buffer),
                active_gamepad_mask = from_le16 (slice 4 6 buffer),
                gu_button_flags = ucast (from_le16 (slice 8 10 buffer)) OR
                  push_bit 16 (ucast (from_le16 (slice 22 24 buffer))),
                left_trigger = buffer ! 10, right_trigger = buffer ! 11,
                left_stick = (from_le16 (slice 12 14 buffer), from_le16 (slice 14 16 buffer)),
                right_stick = (from_le16 (slice 16 18 buffer), from_le16 (slice 18 20 buffer))\<rparr>)"

datatype motion_kind = ACCELERATION | GYROSCOPE

record gamepad_motion =
  gm_index :: u8
  gm_type :: motion_kind
  gm_x :: u32
  gm_y :: u32
  gm_z :: u32

definition gamepad_motion_from_bytes :: "bytes \<Rightarrow> gamepad_motion res" where
  "gamepad_motion_from_bytes buffer =
     (if length buffer < 16 then Inl Err
      else rbind (ok_or (if buffer ! 1 = 1 then Some ACCELERATION
                         else if buffer ! 1 = 2 then Some GYROSCOPE else None)) (\<lambda>t.
        Inr \<lparr>gm_index = buffer ! 0, gm_type = t, gm_x = from_le32 (slice 4 8 buffer),
             gm_y = from_le32 (slice 8 12 buffer), gm_z = from_le32 (slice 12 16 buffer)\<rparr>))"

datatype battery_state =
  BS_Unknown | BS_NotPresent | BS_Discharging | BS_Charging | BS_NotCharging | BS_Full | BS_PercentageUnknown

definition battery_state_from_repr :: "u8 \<Rightarrow> battery_state option" where
  "battery_state_from_repr c =
     (if c = 0x00 then Some BS_Unknown else if c = 0x01 then Some BS_NotPresent
      else if c = 0x02 then Some BS_Discharging else if c = 0x03 then Some BS_Charging
      else if c = 0x04 then Some BS_NotCharging else if c = 0x05 then Some BS_Full
      else if c = 0xFF then Some BS_PercentageUnknown else None)"

record gamepad_battery =
  gb_index :: u8
  gb_state :: battery_state
  gb_percentage :: u8

definition gamepad_battery_from_bytes :: "bytes \<Rightarrow> gamepad_battery res" where
  "gamepad_battery_from_bytes buffer =
     (if length buffer < 4 then Inl Err
      else rbind (ok_or (battery_state_from_repr (buffer ! 1))) (\<lambda>s.
        Inr \<lparr>gb_index = buffer ! 0, gb_state = s, gb_percentage = buffer ! 2\<rparr>))"

lemmas gamepad_parsers = gamepad_info_from_bytes_def gamepad_touch_from_bytes_def
  gamepad_update_from_bytes_def gamepad_motion_from_bytes_def gamepad_battery_from_bytes_def

interpretation info_parser: packet_parser gamepad_info_from_bytes 8
  by unfold_locales (auto simp: gamepad_parsers slice_take min_def rbind_ok_or_Panic)

interpretation gtouch_parser: packet_parser gamepad_touch_from_bytes 20
  by unfold_locales (auto simp: gamepad_parsers slice_take min_def)

interpretation update_parser: packet_parser gamepad_update_from_bytes 26
  by unfold_locales (auto simp: gamepad_parsers slice_take min_def)

interpretation motion_parser: packet_parser gamepad_motion_from_bytes 16
  by unfold_locales (auto simp: gamepad_parsers slice_take min_def rbind_ok_or_Panic)

interpretation battery_parser: packet_parser gamepad_battery_from_bytes 4
  by unfold_locales (auto simp: gamepad_parsers slice_take min_def rbind_ok_or_Panic)

section \<open>The virtual joypad\<close>

datatype joypad_model = XboxOne | PS5 | Switch

text \<open>Calls into the joypad library. Sticks and triggers are signed 16-bit patterns, motion is in
  radians.\<close>

datatype device_op =
    SetPressed u32
  | SetSticks "u16 \<times> u16" "u16 \<times> u16"
  | SetTriggers u16 u16
  | PlaceFinger u32 u16 u16
  | ReleaseFinger u32
  | SetMotion motion_kind u32 u32 u32
  | SetBattery battery_state u8

record device_definition =
  dd_name :: string
  dd_vendor :: u16
  dd_product :: u16
  dd_version :: u16
  dd_id :: string

definition hex_digit :: "nat \<Rightarrow> char" where
  "hex_digit n = (''0123456789abcdef'') ! n"

definition device_id :: "u8 \<Rightarrow> string" where
  "device_id index = ''00:11:22:33:'' @ [hex_digit (unat index div 16), hex_digit (unat index mod 16)]"

fun joypad_model_of :: "gamepad_kind \<Rightarrow> joypad_model" where
  "joypad_model_of GK_Unknown = XboxOne"
| "joypad_model_of GK_Xbox = XboxOne"
| "joypad_model_of GK_PlayStation = PS5"
| "joypad_model_of GK_Nintendo = Switch"

definition gamepad_definition :: "gamepad_info \<Rightarrow> device_definition" where
  "gamepad_definition info =
     (let id = device_id (info_index info) in
      case joypad_model_of (info_kind info) of
        XboxOne \<Rightarrow> \<lparr>dd_name = ''Moonshine XOne controller'', dd_vendor = 0x045e, dd_product = 0x02dd,
                     dd_version = 0x0100, dd_id = id\<rparr>
      | PS5 \<Rightarrow> \<lparr>dd_name = ''Moonshine PS5 controller'', dd_vendor = 0x054C, dd_product = 0x0CE6,
                 dd_version = 0x8111, dd_id = id\<rparr>
      | Switch \<Rightarrow> \<lparr>dd_name = ''Moonshine Switch controller'', dd_vendor = 0x057e, dd_product = 0x2009,
                    dd_version = 0x8111, dd_id = id\<rparr>)"

text \<open>Creation of a joypad, which the environment grants or refuses (\<open>create\<close>), with the feedback sent
  to the client on the way; \<open>motion_code\<close> is the library's numbering of the motion types.\<close>

definition gamepad_new :: "(device_definition \<Rightarrow> bool) \<Rightarrow> (motion_kind \<Rightarrow> u8) \<Rightarrow> gamepad_info \<Rightarrow> (joypad_model \<times> feedback_command list) res" where
  "gamepad_new create motion_code info =
     (if \<not> create (gamepad_definition info) then Inl Err
      else let model = joypad_model_of (info_kind info);
               enable = (\<lambda>t. EnableMotionEvent \<lparr>motion_id = ucast (info_index info), report_rate = 100,
                               motion_type = motion_code t\<rparr>)
           in Inr (model, if model = PS5 then [enable ACCELERATION, enable GYROSCOPE] else []))"

text \<open>The callbacks the joypad library runs when a game drives the device. Their integer arguments are
  truncated.\<close>

definition on_led :: "u8 \<Rightarrow> int \<Rightarrow> int \<Rightarrow> int \<Rightarrow> feedback_command" where
  "on_led index r g b = SetLed \<lparr>led_id = ucast index, rgb = (of_int r, of_int g, of_int b)\<rparr>"

definition on_trigger_effect :: "u8 \<Rightarrow> u8 \<Rightarrow> u8 \<Rightarrow> u8 \<Rightarrow> bytes \<Rightarrow> bytes \<Rightarrow> feedback_command option" where
  "on_trigger_effect index flags tyl tyr l r =
     (if length l \<noteq> 10 \<or> length r \<noteq> 10 then None
      else Some (TriggerEffect \<lparr>trigger_id = ucast index, trigger_event_flags = flags, type_left = tyl,
                  type_right = tyr, left_effect = l, right_effect = r\<rparr>))"

definition on_rumble :: "u8 \<Rightarrow> int \<Rightarrow> int \<Rightarrow> feedback_command" where
  "on_rumble index low high =
     Rumble \<lparr>rumble_id = ucast index, low_frequency = of_int low, high_frequency = of_int high\<rparr>"

definition set_pressed :: "u32 \<Rightarrow> device_op list" where
  "set_pressed button_flags = [SetPressed button_flags]"

definition apply_update :: "gamepad_update \<Rightarrow> device_op list" where
  "apply_update u =
     [SetSticks (left_stick u) (right_stick u), SetTriggers (ucast (left_trigger u)) (ucast (right_trigger u))]"

definition gamepad_touch_ops :: "u16 \<Rightarrow> u16 \<Rightarrow> joypad_model \<Rightarrow> gamepad_touch \<Rightarrow> device_op list" where
  "gamepad_touch_ops touchpad_width touchpad_height model t =
     (if model = PS5 then
        if f32_gt_half (gt_pressure t)
        then [PlaceFinger (gt_pointer_id t) (f32_to_u16 (f32_mul (gt_x t) (u16_to_f32 touchpad_width)))
                (f32_to_u16 (f32_mul (gt_y t) (u16_to_f32 touchpad_height)))]
        else [ReleaseFinger (gt_pointer_id t)]
      else [])"

definition set_motion_ops :: "joypad_model \<Rightarrow> gamepad_motion \<Rightarrow> device_op list" where
  "set_motion_ops model m =
     (if model = PS5
      then [SetMotion (gm_type m) (f32_to_radians (gm_x m)) (f32_to_radians (gm_y m)) (f32_to_radians (gm_z m))]
      else [])"

definition set_battery_ops :: "joypad_model \<Rightarrow> gamepad_battery \<Rightarrow> device_op list" where
  "set_battery_ops model b =
     (if model = PS5 then
        (case gb_state b of
           BS_Discharging \<Rightarrow> [SetBattery BS_Discharging (gb_percentage b)]
         | BS_Charging \<Rightarrow> [SetBattery BS_Charging (gb_percentage b)]
         | BS_Full \<Rightarrow> [SetBattery BS_Full (gb_percentage b)]
         | _ \<Rightarrow> [])
      else [])"

section \<open>Callbacks give well-formed commands\<close>

lemma callbacks_wf:
  "wf_feedback (on_led i r g b)" "on_trigger_effect i f tyl tyr l r' = Some c \<Longrightarrow> wf_feedback c"
  "wf_feedback (on_rumble i lo hi)"
  by (auto simp: on_led_def on_trigger_effect_def on_rumble_def split: if_splits)

lemma gamepad_new_feedback_wf:
  "gamepad_new create motion_code info = Inr (m, fb) \<Longrightarrow> \<forall>c \<in> set fb. wf_feedback c"
  by (auto simp: gamepad_new_def Let_def split: if_splits)

end
