(* ===== verification/Input_Events.thy ===== *)
theory Input_Events
  imports Gamepad
begin

text \<open>
  The first half of \<open>input/mod.rs\<close>: decoding of input events and their dispatch to the compositor or to
  the gamepad handler. \<open>CompositorInputEvent\<close> is the enum of \<open>compositor/input.rs\<close>. A Rust \<open>String\<close> is
  its bytes, which are valid UTF-8.
\<close>

section \<open>UTF-8\<close>

text \<open>The well-formed byte sequences of the Unicode standard, as \<open>String::from_utf8\<close> accepts them.\<close>

definition continuation :: "u8 \<Rightarrow> bool" where "continuation b \<longleftrightarrow> 0x80 \<le> b \<and> b \<le> 0xBF"

fun utf8_valid :: "bytes \<Rightarrow> bool" where
  "utf8_valid [] = True"
| "utf8_valid (a # bs) =
     (if a \<le> 0x7F then utf8_valid bs
      else case bs of
        [] \<Rightarrow> False
      | b # bs1 \<Rightarrow>
          if 0xC2 \<le> a \<and> a \<le> 0xDF then continuation b \<and> utf8_valid bs1
          else case bs1 of
            [] \<Rightarrow> False
          | c # bs2 \<Rightarrow>
              if 0xE0 \<le> a \<and> a \<le> 0xEF then
                (if a = 0xE0 then 0xA0 \<le> b \<and> b \<le> 0xBF else if a = 0xED then 0x80 \<le> b \<and> b \<le> 0x9F else continuation b) \<and>
                continuation c \<and> utf8_valid bs2
              else case bs2 of
                [] \<Rightarrow> False
              | d # bs3 \<Rightarrow>
                  0xF0 \<le> a \<and> a \<le> 0xF4 \<and>
                  (if a = 0xF0 then 0x90 \<le> b \<and> b \<le> 0xBF else if a = 0xF4 then 0x80 \<le> b \<and> b \<le> 0x8F else continuation b) \<and>
                  continuation c \<and> continuation d \<and> utf8_valid bs3)"

section \<open>Events\<close>

datatype input_event_type =
    IT_KeyDown | IT_KeyUp | IT_MouseMoveAbsolute | IT_MouseMoveRelative | IT_MouseButtonDown | IT_MouseButtonUp
  | IT_MouseScrollVertical | IT_MouseScrollHorizontal | IT_Touch | IT_Pen | IT_GamepadInfo | IT_GamepadTouch
  | IT_GamepadMotion | IT_GamepadBattery | IT_GamepadUpdate | IT_GamepadEnableHaptics | IT_Utf8Text

definition input_type_codes :: "(u32 \<times> input_event_type) list" where
  "input_type_codes =
     [(0x00000003, IT_KeyDown), (0x00000004, IT_KeyUp), (0x00000005, IT_MouseMoveAbsolute),
      (0x00000007, IT_MouseMoveRelative), (0x00000008, IT_MouseButtonDown), (0x00000009, IT_MouseButtonUp),
      (0x0000000A, IT_MouseScrollVertical), (0x55000001, IT_MouseScrollHorizontal), (0x55000002, IT_Touch),
      (0x55000003, IT_Pen), (0x55000004, IT_GamepadInfo), (0x55000005, IT_GamepadTouch),
      (0x55000006, IT_GamepadMotion), (0x55000007, IT_GamepadBattery), (0x0000000C, IT_GamepadUpdate),
      (0x0000000D, IT_GamepadEnableHaptics), (0x00000017, IT_Utf8Text)]"

definition input_type_from_repr :: "u32 \<Rightarrow> input_event_type option" where
  "input_type_from_repr = map_of input_type_codes"

datatype input_event =
    IE_KeyDown key | IE_KeyUp key
  | IE_MouseMoveAbsolute mouse_move_absolute | IE_MouseMoveRelative mouse_move_relative
  | IE_MouseButtonDown mouse_button | IE_MouseButtonUp mouse_button
  | IE_MouseScrollVertical u16 | IE_MouseScrollHorizontal u16
  | IE_Touch touch | IE_Pen pen
  | IE_GamepadInfo gamepad_info | IE_GamepadTouch gamepad_touch | IE_GamepadMotion gamepad_motion
  | IE_GamepadBattery gamepad_battery | IE_GamepadUpdate gamepad_update | IE_GamepadEnableHaptics
  | IE_Utf8Text bytes

abbreviation rmap :: "('a \<Rightarrow> 'b) \<Rightarrow> 'a res \<Rightarrow> 'b res" where
  "rmap f m \<equiv> map_sum id f m"

definition text_from_bytes :: "bytes \<Rightarrow> bytes res" where
  "text_from_bytes b = (if \<not> utf8_valid b then Inl Err else if b = [] then Inl Err else Inr b)"

fun parse_input_event :: "input_event_type \<Rightarrow> bytes \<Rightarrow> input_event res" where
  "parse_input_event IT_KeyDown b = rmap IE_KeyDown (key_from_bytes b)"
| "parse_input_event IT_KeyUp b = rmap IE_KeyUp (key_from_bytes b)"
| "parse_input_event IT_MouseMoveAbsolute b = rmap IE_MouseMoveAbsolute (mouse_move_absolute_from_bytes b)"
| "parse_input_event IT_MouseMoveRelative b = rmap IE_MouseMoveRelative (mouse_move_relative_from_bytes b)"
| "parse_input_event IT_MouseButtonDown b = rmap IE_MouseButtonDown (mouse_button_from_bytes b)"
| "parse_input_event IT_MouseButtonUp b = rmap IE_MouseButtonUp (mouse_button_from_bytes b)"
| "parse_input_event IT_MouseScrollVertical b = rmap IE_MouseScrollVertical (mouse_scroll_vertical_from_bytes b)"
| "parse_input_event IT_MouseScrollHorizontal b = rmap IE_MouseScrollHorizontal (mouse_scroll_horizontal_from_bytes b)"
| "parse_input_event IT_Touch b = rmap IE_Touch (touch_from_bytes b)"
| "parse_input_event IT_Pen b = rmap IE_Pen (pen_from_bytes b)"
| "parse_input_event IT_GamepadInfo b = rmap IE_GamepadInfo (gamepad_info_from_bytes b)"
| "parse_input_event IT_GamepadTouch b = rmap IE_GamepadTouch (gamepad_touch_from_bytes b)"
| "parse_input_event IT_GamepadMotion b = rmap IE_GamepadMotion (gamepad_motion_from_bytes b)"
| "parse_input_event IT_GamepadBattery b = rmap IE_GamepadBattery (gamepad_battery_from_bytes b)"
| "parse_input_event IT_GamepadUpdate b = rmap IE_GamepadUpdate (gamepad_update_from_bytes b)"
| "parse_input_event IT_GamepadEnableHaptics b = Inr IE_GamepadEnableHaptics"
| "parse_input_event IT_Utf8Text b = rmap IE_Utf8Text (text_from_bytes b)"

definition input_event_from_bytes :: "bytes \<Rightarrow> input_event res" where
  "input_event_from_bytes buffer =
     (if length buffer < 4 then Inl Err
      else case input_type_from_repr (from_le32 (slice 0 4 buffer)) of
             None \<Rightarrow> Inl Err
           | Some t \<Rightarrow> parse_input_event t (drop 4 buffer))"

section \<open>Dispatch\<close>

datatype compositor_input_event =
    CE_KeyDown u32 | CE_KeyUp u32 | CE_MouseMoveAbsolute u16 u16 u16 u16 | CE_MouseMoveRelative u16 u16
  | CE_MouseButtonDown u32 | CE_MouseButtonUp u32 | CE_ScrollVertical u16 | CE_ScrollHorizontal u16
  | CE_TouchDown u32 u32 u32 | CE_TouchMove u32 u32 u32 | CE_TouchUp u32 | CE_TouchCancelAll
  | CE_Pen u8 u8 u8 u32 u32 u32 u16 u8 | CE_TypeText bytes

fun touch_compositor_event :: "touch \<Rightarrow> compositor_input_event option" where
  "touch_compositor_event t =
     (case touch_kind t of
        PE_Down \<Rightarrow> Some (CE_TouchDown (touch_pointer_id t) (touch_x t) (touch_y t))
      | PE_Move \<Rightarrow> Some (CE_TouchMove (touch_pointer_id t) (touch_x t) (touch_y t))
      | PE_Up \<Rightarrow> Some (CE_TouchUp (touch_pointer_id t))
      | PE_Cancel \<Rightarrow> Some (CE_TouchUp (touch_pointer_id t))
      | PE_CancelAll \<Rightarrow> Some CE_TouchCancelAll
      | _ \<Rightarrow> None)"

text \<open>Where an event goes: to the compositor channel, to the gamepad channel, or nowhere.\<close>

datatype dispatch = ToCompositor compositor_input_event | ToGamepads input_event | Dropped

definition option_dispatch :: "compositor_input_event option \<Rightarrow> dispatch" where
  "option_dispatch e = (case e of None \<Rightarrow> Dropped | Some c \<Rightarrow> ToCompositor c)"

fun dispatch_input :: "input_event \<Rightarrow> dispatch" where
  "dispatch_input (IE_KeyDown k) = option_dispatch (map_option CE_KeyDown (to_linux_keycode k))"
| "dispatch_input (IE_KeyUp k) = option_dispatch (map_option CE_KeyUp (to_linux_keycode k))"
| "dispatch_input (IE_MouseMoveAbsolute e) =
     ToCompositor (CE_MouseMoveAbsolute (mma_x e) (mma_y e) (mma_screen_width e) (mma_screen_height e))"
| "dispatch_input (IE_MouseMoveRelative e) = ToCompositor (CE_MouseMoveRelative (mmr_x e) (mmr_y e))"
| "dispatch_input (IE_MouseButtonDown b) = ToCompositor (CE_MouseButtonDown (mouse_button_code b))"
| "dispatch_input (IE_MouseButtonUp b) = ToCompositor (CE_MouseButtonUp (mouse_button_code b))"
| "dispatch_input (IE_MouseScrollVertical a) = ToCompositor (CE_ScrollVertical a)"
| "dispatch_input (IE_MouseScrollHorizontal a) = ToCompositor (CE_ScrollHorizontal a)"
| "dispatch_input (IE_Touch t) = option_dispatch (touch_compositor_event t)"
| "dispatch_input (IE_Pen p) = ToCompositor (CE_Pen (pointer_event_code (pen_kind p)) (pen_tool_code (pen_tool p))
     (pen_buttons p) (pen_x p) (pen_y p) (pen_pressure_or_distance p) (pen_rotation p) (pen_tilt p))"
| "dispatch_input (IE_Utf8Text t) = ToCompositor (CE_TypeText t)"
| "dispatch_input e = ToGamepads e"

text \<open>A closed compositor channel is ignored, a closed gamepad channel is an error.\<close>

definition handle_raw_input :: "bool \<Rightarrow> bytes \<Rightarrow> dispatch res" where
  "handle_raw_input gamepad_open event =
     rbind (input_event_from_bytes event) (\<lambda>e.
       case dispatch_input e of
         ToGamepads g \<Rightarrow> if gamepad_open then Inr (ToGamepads g) else Inl Err
       | d \<Rightarrow> Inr d)"

section \<open>Properties\<close>

lemmas parsers_no_panic = key_parser.map_no_panic mouse_abs.map_no_panic mouse_rel.map_no_panic mouse_btn.map_no_panic
    mouse_scrollv.map_no_panic mouse_scrollh.map_no_panic touch_parser.map_no_panic pen_parser.map_no_panic
    info_parser.map_no_panic gtouch_parser.map_no_panic motion_parser.map_no_panic
    battery_parser.map_no_panic update_parser.map_no_panic

lemma parse_input_event_no_panic: "parse_input_event t b \<noteq> Inl Panic"
  by (cases t) (auto simp: text_from_bytes_def parsers_no_panic)

text \<open>What the compositor may rely on in an event it receives.\<close>

fun compositor_safe :: "compositor_input_event \<Rightarrow> bool" where
  "compositor_safe (CE_KeyDown k) = (0 < k \<and> k < 128)"
| "compositor_safe (CE_KeyUp k) = (0 < k \<and> k < 128)"
| "compositor_safe (CE_MouseButtonDown b) = (0x110 \<le> b \<and> b \<le> 0x114)"
| "compositor_safe (CE_MouseButtonUp b) = (0x110 \<le> b \<and> b \<le> 0x114)"
| "compositor_safe (CE_TouchDown s x y) = (f32_is_finite x \<and> f32_is_finite y)"
| "compositor_safe (CE_TouchMove s x y) = (f32_is_finite x \<and> f32_is_finite y)"
| "compositor_safe (CE_Pen k t b x y p r i) =
     (k \<le> 7 \<and> t \<le> 2 \<and> (k \<le> 3 \<longrightarrow> f32_is_finite x \<and> f32_is_finite y \<and> f32_is_finite p))"
| "compositor_safe (CE_TypeText t) = (t \<noteq> [] \<and> utf8_valid t)"
| "compositor_safe _ = True"

fun event_safe :: "input_event \<Rightarrow> bool" where
  "event_safe (IE_Touch t) = (has_position (touch_kind t) \<longrightarrow> f32_is_finite (touch_x t) \<and> f32_is_finite (touch_y t))"
| "event_safe (IE_Pen p) = (has_position (pen_kind p) \<longrightarrow>
     f32_is_finite (pen_x p) \<and> f32_is_finite (pen_y p) \<and> f32_is_finite (pen_pressure_or_distance p))"
| "event_safe (IE_Utf8Text t) = (t \<noteq> [] \<and> utf8_valid t)"
| "event_safe _ = True"

lemma map_sum_Inr: "map_sum id f m = Inr y \<longleftrightarrow> (\<exists>x. m = Inr x \<and> y = f x)"
  by (cases m) auto

lemma parse_input_event_safe: "parse_input_event t b = Inr e \<Longrightarrow> event_safe e"
  using touch_from_bytes_finite [of b] pen_from_bytes_finite [of b]
  by (cases t) (auto simp: map_sum_Inr text_from_bytes_def simp del: has_position.simps split: if_splits)

lemma linux_keycode_bound: "to_linux_keycode k = Some c \<Longrightarrow> 0 < c \<and> c < 128"
  using linux_codes_bound by (auto simp: to_linux_keycode_def dest!: map_of_SomeD)

lemma mouse_code_bound: "0x110 \<le> mouse_button_code b \<and> mouse_button_code b \<le> 0x114"
  by (cases b) simp_all

lemma pen_codes_bound:
  "pointer_event_code k \<le> 7" "pen_tool_code t \<le> 2" "pointer_event_code k \<le> 3 \<longleftrightarrow> has_position k"
proof -
  show "pointer_event_code k \<le> 7" by (cases k) simp_all
  show "pen_tool_code t \<le> 2" by (cases t) simp_all
  show "pointer_event_code k \<le> 3 \<longleftrightarrow> has_position k" by (cases k) simp_all
qed

lemma contact_has_position: "has_position PE_Down" "has_position PE_Move"
  by simp_all

lemma dispatch_safe: "event_safe e \<Longrightarrow> dispatch_input e = ToCompositor c \<Longrightarrow> compositor_safe c"
  by (cases e) (auto simp: option_dispatch_def mouse_code_bound pen_codes_bound contact_has_position
      simp del: has_position.simps pen_tool_code.simps pointer_event_code.simps
      split: option.splits pointer_event_kind.splits dest!: linux_keycode_bound)

text \<open>
  Decoding and dispatching a raw input event never panics, whatever the client sends, and an event
  that reaches the compositor is one it can use: key codes of the evdev range, known mouse buttons, finite
  touch and pen positions, and non-empty valid UTF-8 text.
\<close>

theorem handle_raw_input_safe:
  shows "handle_raw_input gamepad_open event \<noteq> Inl Panic \<and>
    (\<forall>c. handle_raw_input gamepad_open event = Inr (ToCompositor c) \<longrightarrow> compositor_safe c)"
proof -
  have "input_event_from_bytes event \<noteq> Inl Panic"
    using parse_input_event_no_panic by (auto simp: input_event_from_bytes_def split: option.splits)
  moreover have "event_safe e" if "input_event_from_bytes event = Inr e" for e
    using that parse_input_event_safe by (auto simp: input_event_from_bytes_def split: option.splits if_splits)
  ultimately show ?thesis
  proof (cases "input_event_from_bytes event")
    case (Inr e)
    then show ?thesis
      using \<open>\<And>e. input_event_from_bytes event = Inr e \<Longrightarrow> event_safe e\<close> [OF Inr] dispatch_safe [of e]
      by (cases "dispatch_input e") (auto simp: handle_raw_input_def)
  qed (auto simp: handle_raw_input_def)
qed

theorem handle_raw_input_safe_witness:
  "\<exists>c. handle_raw_input True [0x17, 0, 0, 0, 0x68, 0xC3, 0xA9] = Inr (ToCompositor c) \<and> compositor_safe c"
proof -
  have "from_le32 (slice 0 4 [0x17, 0, 0, 0, 0x68, 0xC3, 0xA9]) = 0x17" by (simp add: slice_def from_le32_def)
  then have "handle_raw_input True [0x17, 0, 0, 0, 0x68, 0xC3, 0xA9] = Inr (ToCompositor (CE_TypeText [0x68, 0xC3, 0xA9]))"
    by (simp add: handle_raw_input_def input_event_from_bytes_def input_type_from_repr_def input_type_codes_def
        text_from_bytes_def continuation_def)
  with handle_raw_input_safe [of True "[0x17, 0, 0, 0, 0x68, 0xC3, 0xA9]"] show ?thesis by blast
qed

end
