(* ===== verification/Remap.thy ===== *)
theory Remap
  imports Gamepad
begin

text \<open>
  \<open>input/remap.rs\<close>: the hold-to-Home state machine. Holding Back for a configured time presses Home
  instead; a short press gives a synthetic tap of Back. Instants and durations are nanoseconds.
\<close>

section \<open>The machine\<close>

datatype hold_transition = NoTransition | HomeActivated

datatype hold_state = Inactive | Pending nat | HomeHeld | Tapping nat

definition BACK_FLAG :: u32 where "BACK_FLAG = 0x0020"
definition SPECIAL_FLAG :: u32 where "SPECIAL_FLAG = 0x0400"

definition from_millis :: "u64 \<Rightarrow> nat" where "from_millis ms = unat ms * 1000000"
definition TAP_DURATION :: nat where "TAP_DURATION = from_millis 100"

record hold_to_home =
  source_mask :: "u32 option"
  hold :: nat
  hstate :: hold_state
  source_pressed :: bool
  hsuppress_home :: bool
  last_passthrough :: u32

definition hold_to_home_new :: "home_button_config \<Rightarrow> hold_to_home" where
  "hold_to_home_new config =
     \<lparr>source_mask = (if hold_ms config \<noteq> 0 then Some BACK_FLAG else None),
      hold = from_millis (hold_ms config), hstate = Inactive, source_pressed = False,
      hsuppress_home = suppress_home config, last_passthrough = 0\<rparr>"

definition passthrough_flags :: "bool \<Rightarrow> u32 \<Rightarrow> u32 \<Rightarrow> u32" where
  "passthrough_flags suppress smask flags =
     (if suppress then flags AND NOT smask AND NOT SPECIAL_FLAG else flags AND NOT smask)"

definition remap_apply :: "u32 \<Rightarrow> nat \<Rightarrow> hold_to_home \<Rightarrow> (u32 \<times> hold_transition) \<times> hold_to_home" where
  "remap_apply flags now h =
     (case source_mask h of
        None \<Rightarrow> ((flags, NoTransition), h)
      | Some smask \<Rightarrow>
          let pressed = (flags AND smask \<noteq> 0);
              passthrough = passthrough_flags (hsuppress_home h) smask flags;
              h = h\<lparr>source_pressed := pressed, last_passthrough := passthrough\<rparr>
          in (case hstate h of
               Inactive \<Rightarrow>
                 ((passthrough, NoTransition), if pressed then h\<lparr>hstate := Pending (now + hold h)\<rparr> else h)
             | Pending deadline \<Rightarrow>
                 if \<not> pressed then
                   ((passthrough OR smask, NoTransition), h\<lparr>hstate := Tapping (now + TAP_DURATION)\<rparr>)
                 else if deadline \<le> now then
                   ((passthrough OR SPECIAL_FLAG, HomeActivated), h\<lparr>hstate := HomeHeld\<rparr>)
                 else ((passthrough, NoTransition), h)
             | HomeHeld \<Rightarrow>
                 if pressed then ((passthrough OR SPECIAL_FLAG, NoTransition), h)
                 else ((passthrough, NoTransition), h\<lparr>hstate := Inactive\<rparr>)
             | Tapping release_at \<Rightarrow>
                 if release_at \<le> now then ((passthrough, NoTransition), h\<lparr>hstate := Inactive\<rparr>)
                 else ((passthrough OR smask, NoTransition), h)))"

definition remap_advance :: "nat \<Rightarrow> hold_to_home \<Rightarrow> (u32 \<times> hold_transition) \<times> hold_to_home" where
  "remap_advance now h =
     (case source_mask h of
        None \<Rightarrow> ((0, NoTransition), h)
      | Some smask \<Rightarrow>
          let passthrough = last_passthrough h in
          (case hstate h of
            Pending deadline \<Rightarrow>
              if deadline \<le> now \<and> source_pressed h
              then ((passthrough OR SPECIAL_FLAG, HomeActivated), h\<lparr>hstate := HomeHeld\<rparr>)
              else ((0, NoTransition), h)
          | Tapping release_at \<Rightarrow>
              if release_at \<le> now then ((passthrough, NoTransition), h\<lparr>hstate := Inactive\<rparr>)
              else ((passthrough OR smask, NoTransition), h)
          | _ \<Rightarrow> ((0, NoTransition), h)))"

fun state_deadline :: "hold_state \<Rightarrow> nat option" where
  "state_deadline (Pending deadline) = Some deadline"
| "state_deadline (Tapping release_at) = Some release_at"
| "state_deadline Inactive = None"
| "state_deadline HomeHeld = None"

definition remap_next_deadline :: "hold_to_home \<Rightarrow> nat option" where
  "remap_next_deadline h = state_deadline (hstate h)"

section \<open>Runs\<close>

text \<open>
  The machine in time: input events and timer calls at non-decreasing instants. Two ghost components follow the input:
  \<open>since\<close> is the instant at which Back was first seen pressed in the current press, and \<open>flags\<close> are the buttons of the
  last input event.
\<close>

datatype remap_event = Apply u32 | Advance

fun remap_event_step :: "remap_event \<Rightarrow> nat \<Rightarrow> hold_to_home \<Rightarrow> (u32 \<times> hold_transition) \<times> hold_to_home" where
  "remap_event_step (Apply flags) now h = remap_apply flags now h"
| "remap_event_step Advance now h = remap_advance now h"

fun pressed_since :: "nat option \<Rightarrow> remap_event \<Rightarrow> nat \<Rightarrow> nat option" where
  "pressed_since since (Apply flags) now =
     (if flags AND BACK_FLAG = 0 then None else if since = None then Some now else since)"
| "pressed_since since Advance now = since"

fun latest_flags :: "u32 \<Rightarrow> remap_event \<Rightarrow> u32" where
  "latest_flags old (Apply flags) = flags"
| "latest_flags old Advance = old"

record remap_run =
  rr_machine :: hold_to_home
  rr_since :: "nat option"
  rr_flags :: u32
  rr_clock :: nat

definition remap_run_init :: "home_button_config \<Rightarrow> remap_run \<Rightarrow> bool" where
  "remap_run_init config r \<longleftrightarrow> rr_machine r = hold_to_home_new config \<and> rr_since r = None \<and> rr_flags r = 0"

inductive remap_run_step :: "remap_run \<Rightarrow> remap_run \<Rightarrow> bool" where
  "rr_clock r \<le> now \<Longrightarrow> snd (remap_event_step ev now (rr_machine r)) = h \<Longrightarrow>
   remap_run_step r \<lparr>rr_machine = h, rr_since = pressed_since (rr_since r) ev now,
     rr_flags = latest_flags (rr_flags r) ev, rr_clock = now\<rparr>"

inductive_cases remap_run_stepE: "remap_run_step r s"

definition wf_remap :: "hold_to_home \<Rightarrow> bool" where
  "wf_remap h \<longleftrightarrow> source_mask h \<in> {None, Some BACK_FLAG} \<and>
     (\<forall>d. hstate h = Pending d \<longrightarrow> source_pressed h) \<and>
     (source_mask h = None \<longrightarrow> hstate h = Inactive) \<and> last_passthrough h AND BACK_FLAG = 0 \<and>
     (hsuppress_home h \<longrightarrow> last_passthrough h AND SPECIAL_FLAG = 0)"

definition remap_inv :: "remap_run \<Rightarrow> bool" where
  "remap_inv r \<longleftrightarrow> wf_remap (rr_machine r) \<and>
     (source_mask (rr_machine r) \<noteq> None \<longrightarrow> (source_pressed (rr_machine r) \<longleftrightarrow> rr_since r \<noteq> None)) \<and>
     (\<forall>d. hstate (rr_machine r) = Pending d \<longrightarrow>
        (\<exists>t. rr_since r = Some t \<and> t + hold (rr_machine r) \<le> d)) \<and>
     (hstate (rr_machine r) = HomeHeld \<longrightarrow>
        (\<exists>t. rr_since r = Some t \<and> t + hold (rr_machine r) \<le> rr_clock r)) \<and>
     (source_mask (rr_machine r) \<noteq> None \<longrightarrow> last_passthrough (rr_machine r) AND SPECIAL_FLAG =
        (if hsuppress_home (rr_machine r) then 0 else rr_flags r AND SPECIAL_FLAG)) \<and>
     (\<forall>t. rr_since r = Some t \<longrightarrow> t \<le> rr_clock r)"

lemma flag_masks:
  "passthrough_flags s BACK_FLAG x AND BACK_FLAG = 0"
  "passthrough_flags True BACK_FLAG x AND SPECIAL_FLAG = 0"
  by (rule bit_eqI; auto simp: passthrough_flags_def bit_simps)+

lemma passthrough_special:
  "passthrough_flags s BACK_FLAG x AND SPECIAL_FLAG = (if s then 0 else x AND SPECIAL_FLAG)"
proof -
  have "(x AND NOT BACK_FLAG) AND SPECIAL_FLAG = x AND SPECIAL_FLAG"
    by (simp add: BACK_FLAG_def SPECIAL_FLAG_def and.assoc)
  then show ?thesis using flag_masks(2) [of x] by (simp add: passthrough_flags_def)
qed

text \<open>The transitions of an enabled machine, one equation per state.\<close>

definition seen :: "hold_to_home \<Rightarrow> u32 \<Rightarrow> hold_to_home" where
  "seen h flags = h\<lparr>source_pressed := flags AND BACK_FLAG \<noteq> 0,
     last_passthrough := passthrough_flags (hsuppress_home h) BACK_FLAG flags\<rparr>"

lemma seen_fields [simp]:
  "hstate (seen h f) = hstate h" "hold (seen h f) = hold h" "source_mask (seen h f) = source_mask h"
  "hsuppress_home (seen h f) = hsuppress_home h" "source_pressed (seen h f) = (f AND BACK_FLAG \<noteq> 0)"
  "last_passthrough (seen h f) = passthrough_flags (hsuppress_home h) BACK_FLAG f"
  by (simp_all add: seen_def)

lemma remap_apply_state:
  assumes "source_mask h = Some BACK_FLAG"
  defines "p \<equiv> \<lambda>f. passthrough_flags (hsuppress_home h) BACK_FLAG f"
  shows "hstate h = Inactive \<Longrightarrow> remap_apply f now h = ((p f, NoTransition),
      if f AND BACK_FLAG \<noteq> 0 then (seen h f)\<lparr>hstate := Pending (now + hold h)\<rparr> else seen h f)"
    and "hstate h = Pending d \<Longrightarrow> remap_apply f now h =
      (if f AND BACK_FLAG = 0 then ((p f OR BACK_FLAG, NoTransition), (seen h f)\<lparr>hstate := Tapping (now + TAP_DURATION)\<rparr>)
       else if d \<le> now then ((p f OR SPECIAL_FLAG, HomeActivated), (seen h f)\<lparr>hstate := HomeHeld\<rparr>)
       else ((p f, NoTransition), seen h f))"
    and "hstate h = HomeHeld \<Longrightarrow> remap_apply f now h =
      (if f AND BACK_FLAG \<noteq> 0 then ((p f OR SPECIAL_FLAG, NoTransition), seen h f)
       else ((p f, NoTransition), (seen h f)\<lparr>hstate := Inactive\<rparr>))"
    and "hstate h = Tapping r \<Longrightarrow> remap_apply f now h =
      (if r \<le> now then ((p f, NoTransition), (seen h f)\<lparr>hstate := Inactive\<rparr>)
       else ((p f OR BACK_FLAG, NoTransition), seen h f))"
  using assms(1) unfolding p_def remap_apply_def seen_def by (simp_all add: Let_def)

lemma remap_advance_state:
  assumes "source_mask h = Some BACK_FLAG"
  shows "hstate h = Inactive \<Longrightarrow> remap_advance now h = ((0, NoTransition), h)"
    and "hstate h = Pending d \<Longrightarrow> remap_advance now h =
      (if d \<le> now \<and> source_pressed h
       then ((last_passthrough h OR SPECIAL_FLAG, HomeActivated), h\<lparr>hstate := HomeHeld\<rparr>)
       else ((0, NoTransition), h))"
    and "hstate h = HomeHeld \<Longrightarrow> remap_advance now h = ((0, NoTransition), h)"
    and "hstate h = Tapping r \<Longrightarrow> remap_advance now h =
      (if r \<le> now then ((last_passthrough h, NoTransition), h\<lparr>hstate := Inactive\<rparr>)
       else ((last_passthrough h OR BACK_FLAG, NoTransition), h))"
  using assms by (simp_all add: remap_advance_def Let_def)

lemma remap_disabled:
  assumes "source_mask h = None"
  shows "remap_apply f now h = ((f, NoTransition), h)" and "remap_advance now h = ((0, NoTransition), h)"
  using assms by (simp_all add: remap_apply_def remap_advance_def)

lemma wf_remap_new: "wf_remap (hold_to_home_new config)"
  by (simp add: wf_remap_def hold_to_home_new_def)

lemma wf_remap_seen: "wf_remap h \<Longrightarrow> source_mask h = Some BACK_FLAG \<Longrightarrow>
    (\<forall>d. st = Pending d \<longrightarrow> f AND BACK_FLAG \<noteq> 0) \<Longrightarrow> wf_remap ((seen h f)\<lparr>hstate := st\<rparr>)"
  using flag_masks by (auto simp: wf_remap_def)

lemma remap_inv_seen:
  assumes "remap_inv r" and "rr_machine r = h" and "source_mask h = Some BACK_FLAG" and "rr_clock r \<le> now"
    and "\<And>d. st = Pending d \<Longrightarrow> f AND BACK_FLAG \<noteq> 0 \<and> (d = now + hold h \<or> hstate h = Pending d)"
    and "st = HomeHeld \<Longrightarrow> f AND BACK_FLAG \<noteq> 0 \<and> (hstate h = HomeHeld \<or> (\<exists>d. hstate h = Pending d \<and> d \<le> now))"
  shows "remap_inv \<lparr>rr_machine = (seen h f)\<lparr>hstate := st\<rparr>, rr_since = pressed_since (rr_since r) (Apply f) now,
    rr_flags = f, rr_clock = now\<rparr>"
proof -
  have "wf_remap ((seen h f)\<lparr>hstate := st\<rparr>)"
    using assms(1-3,5) by (intro wf_remap_seen) (auto simp: remap_inv_def)
  moreover have "\<exists>t. pressed_since (rr_since r) (Apply f) now = Some t \<and> t + hold h \<le> now" if "st = HomeHeld"
  proof -
    have f: "f AND BACK_FLAG \<noteq> 0" using assms(6) [OF that] by blast
    have "\<exists>t. rr_since r = Some t \<and> t + hold h \<le> now"
      using assms(1,2,4) assms(6) [OF that] by (fastforce simp: remap_inv_def)
    then show ?thesis using f by auto
  qed
  moreover have "\<exists>t. pressed_since (rr_since r) (Apply f) now = Some t \<and> t + hold h \<le> d" if "st = Pending d" for d
    using assms(1,2) assms(5) [OF that] assms(4) by (auto simp: remap_inv_def)
  ultimately show ?thesis using assms(1-4) by (auto simp: remap_inv_def passthrough_special)
qed

lemma seen_same_state: "(seen h f)\<lparr>hstate := hstate h\<rparr> = seen h f"
  by (simp add: seen_def)

lemma remap_apply_shape:
  assumes m: "source_mask h = Some BACK_FLAG" and run: "remap_apply flags now h = (out, h')"
  shows "h' = (seen h flags)\<lparr>hstate := hstate h'\<rparr>"
    and "hstate h' = Pending d \<Longrightarrow> flags AND BACK_FLAG \<noteq> 0 \<and> (d = now + hold h \<or> hstate h = Pending d)"
    and "hstate h' = HomeHeld \<Longrightarrow> flags AND BACK_FLAG \<noteq> 0 \<and>
      (hstate h = HomeHeld \<or> (\<exists>d. hstate h = Pending d \<and> d \<le> now))"
  using run remap_apply_state [OF m] seen_same_state [of h flags]
  by (cases "hstate h"; auto split: if_splits)+

lemma remap_advance_shape:
  assumes m: "source_mask h = Some BACK_FLAG" and run: "remap_advance now h = (out, h')"
  shows "h' = h \<or> h' = h\<lparr>hstate := HomeHeld\<rparr> \<and> (\<exists>d. hstate h = Pending d \<and> d \<le> now) \<or> h' = h\<lparr>hstate := Inactive\<rparr>"
  using run remap_advance_state [OF m] by (cases "hstate h") (auto split: if_splits)

lemma wf_remap_apply:
  assumes wf: "wf_remap h" and run: "remap_apply flags now h = (out, h')" shows "wf_remap h'"
proof (cases "source_mask h")
  case None
  then show ?thesis using assms by (auto simp: remap_disabled)
next
  case (Some m)
  then have m: "source_mask h = Some BACK_FLAG" using wf by (simp add: wf_remap_def)
  have "wf_remap ((seen h flags)\<lparr>hstate := hstate h'\<rparr>)"
    by (rule wf_remap_seen [OF wf m]) (use remap_apply_shape(2) [OF m run] in blast)
  then show ?thesis using remap_apply_shape(1) [OF m run] by simp
qed

lemma wf_remap_advance:
  assumes wf: "wf_remap h" and run: "remap_advance now h = (out, h')" shows "wf_remap h'"
proof (cases "source_mask h")
  case None
  then show ?thesis using assms by (auto simp: remap_disabled)
next
  case (Some m)
  then have m: "source_mask h = Some BACK_FLAG" using wf by (simp add: wf_remap_def)
  show ?thesis using remap_advance_shape [OF m run] wf m by (auto simp: wf_remap_def)
qed

lemma remap_inv_apply:
  assumes inv: "remap_inv r" and now: "rr_clock r \<le> now"
    and run: "remap_apply flags now (rr_machine r) = (out, h)"
  shows "remap_inv \<lparr>rr_machine = h, rr_since = pressed_since (rr_since r) (Apply flags) now,
    rr_flags = flags, rr_clock = now\<rparr>"
proof (cases "source_mask (rr_machine r)")
  case None
  then show ?thesis using assms by (auto simp: remap_disabled remap_inv_def wf_remap_def split: if_splits)
next
  case (Some m)
  let ?h = "rr_machine r"
  have m: "source_mask ?h = Some BACK_FLAG" using Some inv by (simp add: remap_inv_def wf_remap_def)
  have shape: "h = (seen ?h flags)\<lparr>hstate := hstate h\<rparr>"
    "\<And>d. hstate h = Pending d \<Longrightarrow> flags AND BACK_FLAG \<noteq> 0 \<and> (d = now + hold ?h \<or> hstate ?h = Pending d)"
    "hstate h = HomeHeld \<Longrightarrow> flags AND BACK_FLAG \<noteq> 0 \<and>
      (hstate ?h = HomeHeld \<or> (\<exists>d. hstate ?h = Pending d \<and> d \<le> now))"
    using remap_apply_shape [OF m run] by blast+
  have "remap_inv \<lparr>rr_machine = (seen ?h flags)\<lparr>hstate := hstate h\<rparr>,
      rr_since = pressed_since (rr_since r) (Apply flags) now, rr_flags = flags, rr_clock = now\<rparr>"
    by (rule remap_inv_seen [OF inv refl m now]) (use shape(2,3) in blast)+
  then show ?thesis by (simp only: shape(1) [symmetric])
qed

lemma remap_inv_advance:
  assumes inv: "remap_inv r" and now: "rr_clock r \<le> now"
    and run: "remap_advance now (rr_machine r) = (out, h)"
  shows "remap_inv \<lparr>rr_machine = h, rr_since = rr_since r, rr_flags = rr_flags r, rr_clock = now\<rparr>"
proof (cases "source_mask (rr_machine r)")
  case None
  then show ?thesis using assms by (auto simp: remap_disabled remap_inv_def)
next
  case (Some m)
  let ?h = "rr_machine r"
  have m: "source_mask ?h = Some BACK_FLAG" using Some inv by (simp add: remap_inv_def wf_remap_def)
  show ?thesis using remap_advance_shape [OF m run] inv now m by (fastforce simp: remap_inv_def wf_remap_def)
qed

interpretation remap_ts: transition_system "remap_run_init config" remap_run_step remap_inv for config
proof unfold_locales
  fix s assume "remap_run_init config s"
  then show "remap_inv s"
    by (simp add: remap_run_init_def remap_inv_def wf_remap_new) (simp add: hold_to_home_new_def)
next
  fix s t assume step: "remap_run_step s t" and inv: "remap_inv s"
  from step obtain now ev where now: "rr_clock s \<le> now"
    and t: "t = \<lparr>rr_machine = snd (remap_event_step ev now (rr_machine s)),
      rr_since = pressed_since (rr_since s) ev now, rr_flags = latest_flags (rr_flags s) ev, rr_clock = now\<rparr>"
    by (auto elim: remap_run_stepE)
  show "remap_inv t"
  proof (cases ev)
    case (Apply flags)
    obtain out h where "remap_apply flags now (rr_machine s) = (out, h)" by (metis surj_pair)
    with remap_inv_apply [OF inv now this] show ?thesis by (simp add: t Apply)
  next
    case Advance
    obtain out h where "remap_advance now (rr_machine s) = (out, h)" by (metis surj_pair)
    with remap_inv_advance [OF inv now this] show ?thesis by (simp add: t Advance)
  qed
qed

section \<open>Properties\<close>

lemma or_flags:
  "((x OR BACK_FLAG) AND BACK_FLAG) = BACK_FLAG" "((x OR SPECIAL_FLAG) AND SPECIAL_FLAG) = SPECIAL_FLAG"
  "((x OR SPECIAL_FLAG) AND BACK_FLAG) = x AND BACK_FLAG" "((x OR BACK_FLAG) AND SPECIAL_FLAG) = x AND SPECIAL_FLAG"
  "BACK_FLAG \<noteq> 0" "SPECIAL_FLAG \<noteq> 0"
proof -
  have d: "SPECIAL_FLAG AND BACK_FLAG = 0" "BACK_FLAG AND SPECIAL_FLAG = 0"
    by (simp_all add: BACK_FLAG_def SPECIAL_FLAG_def)
  show "((x OR BACK_FLAG) AND BACK_FLAG) = BACK_FLAG" "((x OR SPECIAL_FLAG) AND SPECIAL_FLAG) = SPECIAL_FLAG"
    by (rule bit_eqI; auto simp: bit_simps)+
  show "((x OR SPECIAL_FLAG) AND BACK_FLAG) = x AND BACK_FLAG" "((x OR BACK_FLAG) AND SPECIAL_FLAG) = x AND SPECIAL_FLAG"
    by (simp_all add: bit.conj_disj_distrib2 d)
qed (simp_all add: BACK_FLAG_def SPECIAL_FLAG_def)

definition other_buttons :: "u32 \<Rightarrow> u32" where
  "other_buttons flags = flags AND NOT (BACK_FLAG OR SPECIAL_FLAG)"

lemma other_buttons_simps:
  "other_buttons (x OR BACK_FLAG) = other_buttons x" "other_buttons (x OR SPECIAL_FLAG) = other_buttons x"
  "other_buttons (passthrough_flags s BACK_FLAG x) = other_buttons x"
  by (rule bit_eqI; auto simp: other_buttons_def passthrough_flags_def bit_simps)+

text \<open>
  What an input event turns into while the remap is enabled: buttons other than Back and Home pass
  unchanged; Back reaches the game only during a synthetic tap; Home is pressed exactly while the hold has
  been recognised, or by the physical button when that is not suppressed; and the activation is reported
  exactly on the step from pending to held.
\<close>

theorem remap_apply_output:
  assumes "source_mask h = Some BACK_FLAG" and "remap_apply flags now h = ((out, tr), h')"
  shows "other_buttons out = other_buttons flags \<and>
    (out AND BACK_FLAG \<noteq> 0 \<longleftrightarrow> (\<exists>r. hstate h' = Tapping r)) \<and>
    (out AND SPECIAL_FLAG \<noteq> 0 \<longleftrightarrow> hstate h' = HomeHeld \<or> \<not> hsuppress_home h \<and> flags AND SPECIAL_FLAG \<noteq> 0) \<and>
    (tr = HomeActivated \<longleftrightarrow> (\<exists>d. hstate h = Pending d) \<and> hstate h' = HomeHeld)"
  using assms(2) remap_apply_state [OF assms(1)]
  by (cases "hstate h") (auto simp: other_buttons_simps or_flags flag_masks passthrough_special split: if_splits)

definition sample_home_config :: home_button_config where
  "sample_home_config = home_button_default\<lparr>hold_ms := 1, suppress_home := True\<rparr>"

theorem remap_apply_output_witness:
  "\<exists>out tr h'. remap_apply (BACK_FLAG OR SPECIAL_FLAG OR 0x1000) 5 (hold_to_home_new sample_home_config) = ((out, tr), h') \<and>
    other_buttons out = 0x1000 \<and> \<not> out AND SPECIAL_FLAG \<noteq> 0"
proof -
  let ?f = "BACK_FLAG OR SPECIAL_FLAG OR 0x1000" and ?h = "hold_to_home_new sample_home_config"
  have m: "source_mask ?h = Some BACK_FLAG" "hstate ?h = Inactive" "hsuppress_home ?h"
    by (simp_all add: hold_to_home_new_def sample_home_config_def home_button_default_def)
  obtain out tr h' where run: "remap_apply ?f 5 ?h = ((out, tr), h')" by (metis surj_pair)
  have "hstate h' \<noteq> HomeHeld" using run remap_apply_state(1) [OF m(1,2)] m(2) by (auto split: if_splits)
  with remap_apply_output [OF m(1) run] m(3) have "other_buttons out = other_buttons ?f" "\<not> out AND SPECIAL_FLAG \<noteq> 0"
    by auto
  moreover have "other_buttons ?f = 0x1000" by (simp add: other_buttons_def BACK_FLAG_def SPECIAL_FLAG_def)
  ultimately show ?thesis using run by auto
qed

lemma remap_event_keeps:
  "hold (snd (remap_event_step ev now h)) = hold h" "hsuppress_home (snd (remap_event_step ev now h)) = hsuppress_home h"
  "source_mask (snd (remap_event_step ev now h)) = source_mask h"
  by (cases ev; auto simp: remap_apply_def remap_advance_def Let_def split: option.splits hold_state.splits)+

definition remap_configured :: "home_button_config \<Rightarrow> hold_to_home \<Rightarrow> bool" where
  "remap_configured config h \<longleftrightarrow> hold h = from_millis (hold_ms config) \<and> hsuppress_home h = suppress_home config \<and>
     (source_mask h = None \<longleftrightarrow> hold_ms config = 0)"

interpretation remap_config: transition_system "remap_run_init config" remap_run_step
  "\<lambda>r. remap_configured config (rr_machine r)" for config
  by unfold_locales
    (auto simp: remap_run_init_def remap_configured_def hold_to_home_new_def remap_event_keeps elim!: remap_run_stepE)

text \<open>Home in the output comes from a recognised hold or from the buttons that pass through.\<close>

lemma home_output:
  assumes "source_mask h = Some BACK_FLAG" and "remap_event_step ev now h = ((out, tr), h')"
  shows "out AND SPECIAL_FLAG \<noteq> 0 \<Longrightarrow> hstate h' = HomeHeld \<or>
      (case ev of Apply flags \<Rightarrow> \<not> hsuppress_home h \<and> flags AND SPECIAL_FLAG \<noteq> 0
       | Advance \<Rightarrow> last_passthrough h AND SPECIAL_FLAG \<noteq> 0)"
    and "tr = HomeActivated \<Longrightarrow> hstate h' = HomeHeld"
proof -
  show "hstate h' = HomeHeld \<or> (case ev of Apply flags \<Rightarrow> \<not> hsuppress_home h \<and> flags AND SPECIAL_FLAG \<noteq> 0
       | Advance \<Rightarrow> last_passthrough h AND SPECIAL_FLAG \<noteq> 0)" if "out AND SPECIAL_FLAG \<noteq> 0"
    using that assms(2) remap_apply_state [OF assms(1)] remap_advance_state [OF assms(1)]
    by (cases ev; cases "hstate h") (auto simp: or_flags passthrough_special split: if_splits)
  show "hstate h' = HomeHeld" if "tr = HomeActivated"
    using that assms(2) remap_apply_state [OF assms(1)] remap_advance_state [OF assms(1)]
    by (cases ev; cases "hstate h") (auto split: if_splits)
qed

text \<open>
  C11. Home is never pressed early: in every run from a fresh machine, whenever the buttons that an event gives the
  gamepad contain Home, Back has been seen pressed without interruption since some instant at least the configured
  hold time ago, or the client itself holds Home and the configuration lets it through (the remap is off or Home is
  not suppressed). An event that reports the activation (for the rumble pulse) always has the hold behind it.
\<close>

theorem home_requires_hold:
  assumes "remap_run_init config r0" and "remap_run_step\<^sup>*\<^sup>* r0 r" and "rr_clock r \<le> now"
    and "remap_event_step ev now (rr_machine r) = ((out, tr), h')"
  shows "(out AND SPECIAL_FLAG \<noteq> 0 \<longrightarrow>
      (\<exists>t. pressed_since (rr_since r) ev now = Some t \<and> t + from_millis (hold_ms config) \<le> now) \<or>
      (hold_ms config = 0 \<or> \<not> suppress_home config) \<and> latest_flags (rr_flags r) ev AND SPECIAL_FLAG \<noteq> 0) \<and>
    (tr = HomeActivated \<longrightarrow>
      (\<exists>t. pressed_since (rr_since r) ev now = Some t \<and> t + from_millis (hold_ms config) \<le> now))"
proof -
  let ?h = "rr_machine r"
  let ?r = "\<lparr>rr_machine = h', rr_since = pressed_since (rr_since r) ev now, rr_flags = latest_flags (rr_flags r) ev, rr_clock = now\<rparr>"
  note inv = remap_ts.reachable_inv [OF assms(1,2)]
  note config = remap_config.reachable_inv [OF assms(1,2), unfolded remap_configured_def]
  have step: "remap_run_step r ?r" using assms(3,4) by (auto intro: remap_run_step.intros)
  have "remap_inv ?r" using remap_ts.reachable_inv [OF assms(1) rtranclp.rtrancl_into_rtrancl [OF assms(2) step]] .
  moreover have "hold h' = from_millis (hold_ms config)" using remap_event_keeps(1) [of ev now ?h] config assms(4) by simp
  ultimately have held: "hstate h' = HomeHeld \<Longrightarrow>
      \<exists>t. pressed_since (rr_since r) ev now = Some t \<and> t + from_millis (hold_ms config) \<le> now"
    by (simp add: remap_inv_def)
  show ?thesis
  proof (cases "source_mask ?h")
    case None
    then have "hold_ms config = 0" "tr = NoTransition" "out AND SPECIAL_FLAG \<noteq> 0 \<longrightarrow> latest_flags (rr_flags r) ev AND SPECIAL_FLAG \<noteq> 0"
      using config assms(4) by (cases ev; simp add: remap_disabled)+
    then show ?thesis by simp
  next
    case (Some m)
    then have m: "source_mask ?h = Some BACK_FLAG" using inv by (simp add: remap_inv_def wf_remap_def)
    have "last_passthrough ?h AND SPECIAL_FLAG = (if suppress_home config then 0 else rr_flags r AND SPECIAL_FLAG)"
      using inv config m by (simp add: remap_inv_def)
    then show ?thesis using home_output [OF m assms(4)] held config by (cases ev) (auto split: if_splits)
  qed
qed

theorem home_requires_hold_witness:
  "\<exists>r t. remap_run_step\<^sup>*\<^sup>* \<lparr>rr_machine = hold_to_home_new sample_home_config, rr_since = None, rr_flags = 0, rr_clock = 0\<rparr> r \<and>
    pressed_since (rr_since r) Advance 1000005 = Some t \<and> t + 1000000 \<le> 1000005"
proof -
  let ?start = "\<lparr>rr_machine = hold_to_home_new sample_home_config, rr_since = None, rr_flags = 0, rr_clock = 0\<rparr>"
  let ?h = "hold_to_home_new sample_home_config"
  let ?r = "\<lparr>rr_machine = snd (remap_event_step (Apply BACK_FLAG) 5 ?h), rr_since = Some 5, rr_flags = BACK_FLAG, rr_clock = 5\<rparr>"
  have m: "source_mask ?h = Some BACK_FLAG" "hstate ?h = Inactive" "hold ?h = 1000000" "BACK_FLAG \<noteq> 0"
    by (simp_all add: hold_to_home_new_def sample_home_config_def home_button_default_def from_millis_def or_flags)
  have h: "snd (remap_event_step (Apply BACK_FLAG) 5 ?h) = (seen ?h BACK_FLAG)\<lparr>hstate := Pending 1000005\<rparr>"
    using remap_apply_state(1) [OF m(1,2)] by (simp add: m or_flags)
  have init: "remap_run_init sample_home_config ?start" unfolding remap_run_init_def by simp
  have "remap_run_step ?start ?r"
    using remap_run_step.intros [of ?start 5 "Apply BACK_FLAG"] by (simp add: or_flags)
  then have run: "remap_run_step\<^sup>*\<^sup>* ?start ?r" by (rule r_into_rtranclp)
  have m2: "source_mask (rr_machine ?r) = Some BACK_FLAG" "hstate (rr_machine ?r) = Pending 1000005"
    "source_pressed (rr_machine ?r)" using m(1) by (simp_all add: h [simplified] or_flags)
  have act: "\<exists>out h'. remap_event_step Advance 1000005 (rr_machine ?r) = ((out, HomeActivated), h')"
    using remap_advance_state(2) [OF m2(1,2)] m2(3) by simp
  have ms: "from_millis (hold_ms sample_home_config) = 1000000"
    by (simp add: sample_home_config_def from_millis_def)
  obtain out h' where "remap_event_step Advance 1000005 (rr_machine ?r) = ((out, HomeActivated), h')" using act by blast
  from home_requires_hold [OF init run _ this] show ?thesis using run ms by fastforce
qed

end
