(* ===== verification/Gamepad_Handler.thy ===== *)
theory Gamepad_Handler
  imports Input_Events Remap
begin

text \<open>
  The second half of \<open>input/mod.rs\<close>: gamepad slots with their remap and rumble state, the handler of
  gamepad commands, and the timer task. Both tasks run on one thread under one lock; a command and a timer
  pass are each one step. The instants at which \<open>Instant::now()\<close> is read are parameters of the steps.
\<close>

section \<open>Slots\<close>

record gamepad_slot =
  gs_model :: joypad_model
  gs_remap :: hold_to_home
  gs_index :: u8
  gs_intensity :: u64
  gs_duration :: nat
  gs_rumble_off_at :: "nat option"

text \<open>Effects: calls on the joypad of a slot, feedback offered to the client's channel, and the wake-up
  of the timer task.\<close>

datatype handler_effect = Device u8 device_op | SendFeedback feedback_command | WakeTimer

type_synonym slot_step = "handler_effect list \<times> gamepad_slot"

definition slot_new :: "(device_definition \<Rightarrow> bool) \<Rightarrow> (motion_kind \<Rightarrow> u8) \<Rightarrow> home_button_config \<Rightarrow>
    gamepad_info \<Rightarrow> slot_step res" where
  "slot_new create motion_code config info =
     rbind (gamepad_new create motion_code info) (\<lambda>(model, fb).
       Inr (map SendFeedback fb,
         \<lparr>gs_model = model, gs_remap = hold_to_home_new config, gs_index = info_index info,
          gs_intensity = rumble_intensity config, gs_duration = from_millis (rumble_duration_ms config),
          gs_rumble_off_at = None\<rparr>))"

definition slot_ops :: "gamepad_slot \<Rightarrow> device_op list \<Rightarrow> handler_effect list" where
  "slot_ops s ops = map (Device (gs_index s)) ops"

definition send_rumble :: "gamepad_slot \<Rightarrow> u16 \<Rightarrow> u16 \<Rightarrow> handler_effect list" where
  "send_rumble s low high =
     [SendFeedback (Rumble \<lparr>rumble_id = ucast (gs_index s), low_frequency = low, high_frequency = high\<rparr>)]"

definition check_rumble :: "nat \<Rightarrow> gamepad_slot \<Rightarrow> slot_step" where
  "check_rumble now s =
     (case gs_rumble_off_at s of
        Some off_at \<Rightarrow> if off_at \<le> now then (send_rumble s 0 0, s\<lparr>gs_rumble_off_at := None\<rparr>) else ([], s)
      | None \<Rightarrow> ([], s))"

definition maybe_fire_rumble :: "hold_transition \<Rightarrow> nat \<Rightarrow> gamepad_slot \<Rightarrow> slot_step" where
  "maybe_fire_rumble transition now s =
     (if transition = HomeActivated \<and> gs_rumble_off_at s = None \<and> f64_positive (gs_intensity s) \<and> gs_duration s \<noteq> 0
      then let intensity = f64_to_u16 (f64_mul (gs_intensity s) f64_65535) in
        (send_rumble s intensity intensity, s\<lparr>gs_rumble_off_at := Some (now + gs_duration s)\<rparr>)
      else ([], s))"

definition apply_buttons :: "u32 \<Rightarrow> nat \<Rightarrow> gamepad_slot \<Rightarrow> slot_step" where
  "apply_buttons flags now s =
     (let ((remapped, transition), h) = remap_apply flags now (gs_remap s);
          s = s\<lparr>gs_remap := h\<rparr>;
          (e1, s1) = check_rumble now s;
          (e2, s2) = maybe_fire_rumble transition now s1
      in (slot_ops s (set_pressed remapped) @ e1 @ [WakeTimer] @ e2, s2))"

definition slot_advance :: "nat \<Rightarrow> gamepad_slot \<Rightarrow> slot_step" where
  "slot_advance now s =
     (let (e1, s1) = check_rumble now s;
          ((remapped, transition), h) = remap_advance now (gs_remap s1);
          s2 = s1\<lparr>gs_remap := h\<rparr>;
          (e2, s3) = maybe_fire_rumble transition now s2
      in (e1 @ slot_ops s2 (set_pressed remapped) @ e2, s3))"

definition slot_next_deadline :: "gamepad_slot \<Rightarrow> nat option" where
  "slot_next_deadline s =
     (case (remap_next_deadline (gs_remap s), gs_rumble_off_at s) of
        (Some a, Some b) \<Rightarrow> Some (min a b)
      | (Some a, None) \<Rightarrow> Some a
      | (None, Some b) \<Rightarrow> Some b
      | (None, None) \<Rightarrow> None)"

section \<open>The handler\<close>

type_synonym gamepads = "gamepad_slot option list"
type_synonym handler_result = "handler_effect list \<times> gamepads"

definition gamepads_init :: gamepads where "gamepads_init = replicate 16 None"

definition create_slot :: "(device_definition \<Rightarrow> bool) \<Rightarrow> (motion_kind \<Rightarrow> u8) \<Rightarrow> home_button_config \<Rightarrow>
    gamepad_info \<Rightarrow> nat \<Rightarrow> gamepads \<Rightarrow> handler_result" where
  "create_slot create motion_code config info idx gs =
     (case slot_new create motion_code config info of
        Inr (eff, s) \<Rightarrow> (eff, gs[idx := Some s])
      | Inl _ \<Rightarrow> ([], gs))"

definition handle_info :: "(device_definition \<Rightarrow> bool) \<Rightarrow> (motion_kind \<Rightarrow> u8) \<Rightarrow> home_button_config \<Rightarrow>
    gamepad_info \<Rightarrow> gamepads \<Rightarrow> handler_result" where
  "handle_info create motion_code config info gs =
     (let idx = unat (info_index info) in
      if 16 \<le> idx then ([], gs)
      else if gs ! idx = None then create_slot create motion_code config info idx gs
      else ([], gs))"

text \<open>Touch, motion and battery events look up the slot by its index and pass the event to the joypad.\<close>

definition slot_event :: "u8 \<Rightarrow> (gamepad_slot \<Rightarrow> device_op list) \<Rightarrow> gamepads \<Rightarrow> handler_result" where
  "slot_event index ops gs =
     (if length gs \<le> unat index then ([], gs)
      else case gs ! unat index of
             Some s \<Rightarrow> (slot_ops s (ops s), gs)
           | None \<Rightarrow> ([], gs))"

definition mask_bit :: "u16 \<Rightarrow> nat \<Rightarrow> bool" where
  "mask_bit active i \<longleftrightarrow> active AND push_bit i 1 \<noteq> 0"

definition disconnect_inactive :: "u16 \<Rightarrow> gamepads \<Rightarrow> gamepads" where
  "disconnect_inactive active gs = map2 (\<lambda>i s. if s \<noteq> None \<and> \<not> mask_bit active i then None else s) [0..<length gs] gs"

definition apply_to_slot :: "gamepad_update \<Rightarrow> nat \<Rightarrow> nat \<Rightarrow> gamepads \<Rightarrow> handler_result" where
  "apply_to_slot u idx now gs =
     (case gs ! idx of
        Some s \<Rightarrow> let (eff, s') = apply_buttons (gu_button_flags u) now s
                  in (eff @ slot_ops s' (apply_update u), gs[idx := Some s'])
      | None \<Rightarrow> ([], gs))"

definition handle_update :: "(device_definition \<Rightarrow> bool) \<Rightarrow> (motion_kind \<Rightarrow> u8) \<Rightarrow> home_button_config \<Rightarrow>
    gamepad_update \<Rightarrow> nat \<Rightarrow> gamepads \<Rightarrow> handler_result" where
  "handle_update create motion_code config u now gs =
     (let idx = unat (gu_index u) in
      if 16 \<le> idx then ([], gs)
      else
        let (e1, gs1) = (if gs ! idx = None \<and> mask_bit (active_gamepad_mask u) idx
               then create_slot create motion_code config (default_for_index (ucast (gu_index u))) idx gs
               else ([], gs));
            (e2, gs2) = apply_to_slot u idx now gs1
        in (e1 @ e2, disconnect_inactive (active_gamepad_mask u) gs2))"

fun handle_gamepad :: "(device_definition \<Rightarrow> bool) \<Rightarrow> (motion_kind \<Rightarrow> u8) \<Rightarrow> u16 \<Rightarrow> u16 \<Rightarrow> home_button_config \<Rightarrow>
    input_event \<Rightarrow> nat \<Rightarrow> gamepads \<Rightarrow> handler_result" where
  "handle_gamepad create mc tw th config (IE_GamepadInfo info) now gs = handle_info create mc config info gs"
| "handle_gamepad create mc tw th config (IE_GamepadTouch t) now gs =
     slot_event (gt_index t) (\<lambda>s. gamepad_touch_ops tw th (gs_model s) t) gs"
| "handle_gamepad create mc tw th config (IE_GamepadMotion m) now gs =
     slot_event (gm_index m) (\<lambda>s. set_motion_ops (gs_model s) m) gs"
| "handle_gamepad create mc tw th config (IE_GamepadBattery b) now gs =
     slot_event (gb_index b) (\<lambda>s. set_battery_ops (gs_model s) b) gs"
| "handle_gamepad create mc tw th config (IE_GamepadUpdate u) now gs = handle_update create mc config u now gs"
| "handle_gamepad create mc tw th config _ now gs = ([], gs)"

section \<open>The timer task\<close>

fun min_deadline :: "nat option list \<Rightarrow> nat option" where
  "min_deadline [] = None"
| "min_deadline (None # ds) = min_deadline ds"
| "min_deadline (Some d # ds) = (case min_deadline ds of None \<Rightarrow> Some d | Some e \<Rightarrow> Some (min d e))"

definition timer_deadline :: "gamepads \<Rightarrow> nat option" where
  "timer_deadline gs = min_deadline (map (\<lambda>s. Option.bind s slot_next_deadline) gs)"

definition timer_slot :: "nat \<Rightarrow> gamepad_slot option \<Rightarrow> handler_effect list \<times> gamepad_slot option" where
  "timer_slot now s =
     (case s of
        None \<Rightarrow> ([], None)
      | Some s \<Rightarrow>
          (case slot_next_deadline s of
             Some d \<Rightarrow> if d \<le> now then map_prod id Some (slot_advance now s) else ([], Some s)
           | None \<Rightarrow> ([], Some s)))"

definition timer_pass :: "nat \<Rightarrow> gamepads \<Rightarrow> handler_result" where
  "timer_pass now gs =
     (let rs = map (timer_slot now) gs in (concat (map fst rs), map snd rs))"

section \<open>Slots keep their shape\<close>

definition slot_ok :: "nat \<Rightarrow> gamepad_slot \<Rightarrow> bool" where
  "slot_ok i s \<longleftrightarrow> gs_index s = of_nat i \<and> wf_remap (gs_remap s)"

definition gamepads_ok :: "gamepads \<Rightarrow> bool" where
  "gamepads_ok gs \<longleftrightarrow> length gs = 16 \<and> (\<forall>i < 16. \<forall>s. gs ! i = Some s \<longrightarrow> slot_ok i s)"

lemma check_rumble_fields:
  assumes "check_rumble now s = (e, s')"
  shows "gs_index s' = gs_index s" "gs_remap s' = gs_remap s" "gs_duration s' = gs_duration s"
    "gs_rumble_off_at s' = Some off \<Longrightarrow> now < off"
  using assms by (auto simp: check_rumble_def split: option.splits if_splits)

lemma maybe_fire_rumble_fields:
  assumes "maybe_fire_rumble tr now s = (e, s')"
  shows "gs_index s' = gs_index s" "gs_remap s' = gs_remap s"
    "(\<And>off. gs_rumble_off_at s = Some off \<Longrightarrow> now < off) \<Longrightarrow> gs_rumble_off_at s' = Some off \<Longrightarrow> now < off"
  using assms by (auto simp: maybe_fire_rumble_def Let_def split: if_splits)

lemma apply_buttons_ok:
  assumes "slot_ok i s" and "apply_buttons f now s = (e, s')" shows "slot_ok i s'"
proof -
  obtain r tr h where h: "remap_apply f now (gs_remap s) = ((r, tr), h)" by (metis surj_pair)
  obtain e1 s1 where c: "check_rumble now (s\<lparr>gs_remap := h\<rparr>) = (e1, s1)" by (metis surj_pair)
  obtain e2 s2 where m: "maybe_fire_rumble tr now s1 = (e2, s2)" by (metis surj_pair)
  have "s' = s2" using assms(2) h c m by (simp add: apply_buttons_def)
  then show ?thesis
    using assms(1) wf_remap_apply [OF _ h] check_rumble_fields(1,2) [OF c] maybe_fire_rumble_fields(1,2) [OF m]
    by (simp add: slot_ok_def)
qed

text \<open>A pass of the timer over one slot: what remains has its next deadline in the future.\<close>

definition future :: "nat \<Rightarrow> nat option \<Rightarrow> bool" where
  "future now d \<longleftrightarrow> (\<forall>t. d = Some t \<longrightarrow> now < t)"

lemma remap_advance_future:
  assumes "wf_remap h" and "remap_advance now h = (r, h')"
  shows "future now (remap_next_deadline h')"
proof (cases "source_mask h")
  case None
  with assms show ?thesis by (auto simp: remap_disabled wf_remap_def future_def remap_next_deadline_def)
next
  case (Some m)
  then have m: "source_mask h = Some BACK_FLAG" using assms(1) by (simp add: wf_remap_def)
  show ?thesis
    using assms remap_advance_state [OF m]
    by (cases "hstate h") (auto simp: future_def remap_next_deadline_def wf_remap_def split: if_splits)
qed

lemma slot_next_deadline_future:
  "future now (slot_next_deadline s) \<longleftrightarrow> future now (remap_next_deadline (gs_remap s)) \<and> future now (gs_rumble_off_at s)"
  by (auto simp: future_def slot_next_deadline_def split: option.splits)

lemma slot_advance_ok:
  assumes "slot_ok i s" and "slot_advance now s = (e, s')"
  shows "slot_ok i s'" and "future now (slot_next_deadline s')"
proof -
  obtain e1 s1 where c: "check_rumble now s = (e1, s1)" by (metis surj_pair)
  obtain r tr h where h: "remap_advance now (gs_remap s) = ((r, tr), h)" by (metis surj_pair)
  obtain e2 s2 where m: "maybe_fire_rumble tr now (s1\<lparr>gs_remap := h\<rparr>) = (e2, s2)" by (metis surj_pair)
  have s': "s' = s2" using assms(2) c h m check_rumble_fields(2) [OF c] by (simp add: slot_advance_def)
  have wf: "wf_remap (gs_remap s)" using assms(1) by (simp add: slot_ok_def)
  show "slot_ok i s'"
    using assms(1) wf_remap_advance [OF wf h] check_rumble_fields(1) [OF c] maybe_fire_rumble_fields(1,2) [OF m]
    by (simp add: slot_ok_def s')
  show "future now (slot_next_deadline s')"
    unfolding slot_next_deadline_future s'
    using remap_advance_future [OF wf h] maybe_fire_rumble_fields(2,3) [OF m] check_rumble_fields(4) [OF c]
    by (simp add: future_def)
qed

lemma timer_slot_ok:
  assumes "\<forall>t. s = Some t \<longrightarrow> slot_ok i t" and "snd (timer_slot now s) = Some s'"
  shows "slot_ok i s'" and "future now (slot_next_deadline s')"
proof -
  obtain t where t: "s = Some t" using assms(2) by (auto simp: timer_slot_def split: option.splits)
  then have ok: "slot_ok i t" using assms(1) by simp
  show "slot_ok i s'" "future now (slot_next_deadline s')"
    using assms(2) slot_advance_ok [OF ok, of now] t ok
    by (cases "slot_advance now t"; auto simp: timer_slot_def future_def split: option.splits if_splits)+
qed

lemma timer_pass_nth: "i < length gs \<Longrightarrow> snd (timer_pass now gs) ! i = snd (timer_slot now (gs ! i))"
  by (simp add: timer_pass_def Let_def)

lemma timer_pass_ok: "gamepads_ok gs \<Longrightarrow> gamepads_ok (snd (timer_pass now gs))"
proof -
  assume ok: "gamepads_ok gs"
  have "slot_ok i s" if "i < 16" "snd (timer_pass now gs) ! i = Some s" for i s
    using timer_slot_ok(1) [of "gs ! i" i now s] that ok by (simp add: gamepads_ok_def timer_pass_nth)
  then show ?thesis using ok by (simp add: gamepads_ok_def timer_pass_def Let_def)
qed

section \<open>Commands keep the slots\<close>

lemma slot_new_ok:
  assumes "slot_new create mc config info = Inr (e, s)" and "unat (info_index info) = i"
  shows "slot_ok i s"
  using assms by (auto simp: slot_new_def rbind_eq_Inr slot_ok_def wf_remap_new)

lemma gamepads_ok_update: "gamepads_ok gs \<Longrightarrow> i < 16 \<Longrightarrow> slot_ok i s \<Longrightarrow> gamepads_ok (gs[i := Some s])"
  by (auto simp: gamepads_ok_def nth_list_update)

lemma create_slot_ok:
  assumes "gamepads_ok gs" and "unat (info_index info) = i" and "i < 16"
  shows "gamepads_ok (snd (create_slot create mc config info i gs))"
  using assms slot_new_ok [OF _ assms(2)] gamepads_ok_update [OF assms(1,3)]
  by (auto simp: create_slot_def split: sum.splits)

lemma apply_to_slot_ok:
  assumes "gamepads_ok gs" and "i < 16" shows "gamepads_ok (snd (apply_to_slot u i now gs))"
proof (cases "gs ! i")
  case (Some s)
  obtain e s' where a: "apply_buttons (gu_button_flags u) now s = (e, s')" by (metis surj_pair)
  have "slot_ok i s'" using apply_buttons_ok [OF _ a] assms Some by (simp add: gamepads_ok_def)
  then show ?thesis using gamepads_ok_update [OF assms] Some a by (simp add: apply_to_slot_def)
qed (use assms in \<open>simp add: apply_to_slot_def\<close>)

lemma nth_disconnect: "i < length gs \<Longrightarrow> disconnect_inactive active gs ! i = (if mask_bit active i then gs ! i else None)"
  by (cases "gs ! i") (auto simp: disconnect_inactive_def)

lemma disconnect_ok: "gamepads_ok gs \<Longrightarrow> gamepads_ok (disconnect_inactive active gs)"
  by (auto simp: gamepads_ok_def nth_disconnect) (simp add: disconnect_inactive_def)

lemma handle_update_ok:
  assumes "gamepads_ok gs" shows "gamepads_ok (snd (handle_update create mc config u now gs))"
proof (cases "16 \<le> unat (gu_index u)")
  case True
  then show ?thesis using assms by (simp add: handle_update_def)
next
  case False
  let ?i = "unat (gu_index u)"
  define r where "r = (if gs ! ?i = None \<and> mask_bit (active_gamepad_mask u) ?i
      then create_slot create mc config (default_for_index (ucast (gu_index u))) ?i gs else ([], gs))"
  have i: "unat (info_index (default_for_index (ucast (gu_index u)))) = ?i"
      proof -
    have "(ucast (gu_index u) :: u8) = of_nat ?i" by (rule of_nat_unat [symmetric])
    moreover have "unat (of_nat ?i :: u8) = ?i" using False by (subst unat_of_nat) simp
    ultimately show ?thesis unfolding default_for_index_def by simp
  qed
  have "gamepads_ok (snd r)" using create_slot_ok [OF assms i] False assms by (simp add: r_def)
  then have "gamepads_ok (snd (apply_to_slot u ?i now (snd r)))" using apply_to_slot_ok False by simp
  then show ?thesis using False disconnect_ok
    by (simp add: handle_update_def Let_def r_def [symmetric] split: prod.splits) (metis snd_conv)
qed

lemma slot_event_same: "snd (slot_event i ops gs) = gs"
  by (auto simp: slot_event_def split: option.splits)

lemma handle_gamepad_ok:
  assumes "gamepads_ok gs" shows "gamepads_ok (snd (handle_gamepad create mc tw th config ev now gs))"
proof (cases ev)
  case (IE_GamepadInfo info)
  then show ?thesis using assms create_slot_ok [OF assms refl, of info] by (simp add: handle_info_def Let_def)
next
  case (IE_GamepadUpdate u)
  then show ?thesis using handle_update_ok [OF assms] by simp
qed (use assms in \<open>simp_all add: slot_event_same\<close>)

section \<open>Runs of the handler\<close>

inductive handler_step :: "(device_definition \<Rightarrow> bool) \<Rightarrow> (motion_kind \<Rightarrow> u8) \<Rightarrow> u16 \<Rightarrow> u16 \<Rightarrow> home_button_config \<Rightarrow>
    gamepads \<times> nat \<Rightarrow> gamepads \<times> nat \<Rightarrow> bool"
  for create motion_code tw th config where
  Command: "clock \<le> now \<Longrightarrow> handler_step create motion_code tw th config (gs, clock)
     (snd (handle_gamepad create motion_code tw th config ev now gs), now)"
| Timer: "clock \<le> now \<Longrightarrow> handler_step create motion_code tw th config (gs, clock) (snd (timer_pass now gs), now)"

inductive_cases handler_stepE: "handler_step create motion_code tw th config s t"

interpretation handler_ts: transition_system "\<lambda>s. fst s = gamepads_init"
  "handler_step create motion_code tw th config" "\<lambda>s. gamepads_ok (fst s)"
  for create motion_code tw th config
proof unfold_locales
  fix s :: "gamepads \<times> nat" assume "fst s = gamepads_init"
  then show "gamepads_ok (fst s)" by (simp add: gamepads_init_def gamepads_ok_def)
next
  fix s t assume "handler_step create motion_code tw th config s t" "gamepads_ok (fst s)"
  then show "gamepads_ok (fst t)"
    by (auto elim!: handler_stepE intro: handle_gamepad_ok timer_pass_ok)
qed

lemma min_deadline_in: "min_deadline ds = Some d \<Longrightarrow> Some d \<in> set ds"
proof (induction ds arbitrary: d rule: min_deadline.induct)
  case (3 e ds)
  then show ?case by (cases "min_deadline ds") (auto simp: min_def split: if_splits)
qed auto

lemma timer_pass_future:
  assumes "gamepads_ok gs" and "timer_deadline (snd (timer_pass now gs)) = Some d"
  shows "now < d"
proof -
  have "Some d \<in> set (map (\<lambda>s. Option.bind s slot_next_deadline) (snd (timer_pass now gs)))"
    using assms(2) unfolding timer_deadline_def by (rule min_deadline_in)
  then obtain s where s: "s \<in> set (snd (timer_pass now gs))" "Option.bind s slot_next_deadline = Some d"
    by auto
  then obtain t where t: "s = Some t" "slot_next_deadline t = Some d" by (auto simp: bind_eq_Some_conv)
  have len: "length (snd (timer_pass now gs)) = length gs" by (simp add: timer_pass_def Let_def)
  from s(1) obtain i where i: "i < length gs" "snd (timer_pass now gs) ! i = s" unfolding in_set_conv_nth len by blast
  then have "snd (timer_slot now (gs ! i)) = Some t" using t(1) by (simp add: timer_pass_nth)
  moreover have "\<forall>u. gs ! i = Some u \<longrightarrow> slot_ok i u" using assms(1) i by (simp add: gamepads_ok_def)
  ultimately have "future now (slot_next_deadline t)" by (intro timer_slot_ok(2) [of "gs ! i" i])
  with t(2) show ?thesis by (simp add: future_def)
qed

lemma nth_apply_to_slot: "i < length gs \<Longrightarrow> (snd (apply_to_slot u idx now gs) ! i = None) = (gs ! i = None)"
  by (cases "idx = i") (auto simp: apply_to_slot_def nth_list_update split: option.splits prod.splits)

lemma length_apply_to_slot: "length (snd (apply_to_slot u idx now gs)) = length gs"
  by (auto simp: apply_to_slot_def split: option.splits prod.splits)

lemma create_slot_always:
  assumes "\<And>d. create d" and "idx < length gs" and "i < length gs"
  shows "snd (create_slot create mc config info idx gs) ! i = None \<longleftrightarrow> gs ! i = None \<and> i \<noteq> idx"
    and "length (snd (create_slot create mc config info idx gs)) = length gs"
  using assms by (auto simp: create_slot_def slot_new_def gamepad_new_def Let_def nth_list_update)

lemma handle_update_presence:
  assumes create: "\<And>d. create d" and len: "length gs = 16" and idx: "unat (gu_index u) < 16" and i: "i < 16"
  shows "snd (handle_update create mc config u now gs) ! i \<noteq> None \<longleftrightarrow>
    mask_bit (active_gamepad_mask u) i \<and> (gs ! i \<noteq> None \<or> i = unat (gu_index u))"
proof -
  let ?i = "unat (gu_index u)"
  define r where "r = (if gs ! ?i = None \<and> mask_bit (active_gamepad_mask u) ?i
      then create_slot create mc config (default_for_index (ucast (gu_index u))) ?i gs else ([], gs))"
  have len_r: "length (snd r) = 16"
    using create_slot_always(2) [OF create, of ?i gs 0] len idx by (simp add: r_def)
  have r: "snd r ! i = None \<longleftrightarrow> gs ! i = None \<and> \<not> (i = ?i \<and> mask_bit (active_gamepad_mask u) ?i)"
    using create_slot_always(1) [OF create, of ?i gs i] len idx i by (auto simp: r_def)
  have "snd (handle_update create mc config u now gs) =
      disconnect_inactive (active_gamepad_mask u) (snd (apply_to_slot u ?i now (snd r)))"
    using idx by (auto simp: handle_update_def Let_def r_def [symmetric] split: prod.splits)
  then show ?thesis
    using nth_apply_to_slot [of i "snd r"] len_r i r by (auto simp: nth_disconnect length_apply_to_slot)
qed

text \<open>A press of Back on a slot that was just created arms the hold timer.\<close>

lemma handle_update_fresh:
  assumes create: "\<And>d. create d" and "length gs = 16" and "unat (gu_index u) < 16"
    and "gs ! unat (gu_index u) = None" and "mask_bit (active_gamepad_mask u) (unat (gu_index u))"
  shows "\<exists>s. gs_remap s = hold_to_home_new config \<and> gs_rumble_off_at s = None \<and>
    snd (handle_update create mc config u now gs) ! unat (gu_index u) =
      Some (snd (apply_buttons (gu_button_flags u) now s))"
proof -
  let ?i = "unat (gu_index u)"
  obtain e s where n: "slot_new create mc config (default_for_index (ucast (gu_index u))) = Inr (e, s)"
    and s: "gs_remap s = hold_to_home_new config" "gs_rumble_off_at s = None"
    using create by (auto simp: slot_new_def gamepad_new_def Let_def)
  have a: "apply_to_slot u ?i now (gs[?i := Some s]) =
      (fst (apply_buttons (gu_button_flags u) now s) @ slot_ops (snd (apply_buttons (gu_button_flags u) now s)) (apply_update u),
       gs[?i := Some (snd (apply_buttons (gu_button_flags u) now s))])"
    using assms(2,3) by (simp add: apply_to_slot_def split: prod.split)
  have "snd (handle_update create mc config u now gs) =
      disconnect_inactive (active_gamepad_mask u) (gs[?i := Some (snd (apply_buttons (gu_button_flags u) now s))])"
    using assms(3-5) by (simp add: handle_update_def Let_def create_slot_def n a)
  with assms(2,3,5) s show ?thesis by (auto simp: nth_disconnect)
qed

lemma apply_buttons_arms:
  assumes "gs_remap s = hold_to_home_new config" "gs_rumble_off_at s = None" "hold_ms config \<noteq> 0"
    and "flags AND BACK_FLAG \<noteq> 0"
  shows "slot_next_deadline (snd (apply_buttons flags now s)) = Some (now + from_millis (hold_ms config))"
proof -
  have m: "source_mask (gs_remap s) = Some BACK_FLAG" "hstate (gs_remap s) = Inactive"
    "hold (gs_remap s) = from_millis (hold_ms config)"
    using assms(1,3) by (simp_all add: hold_to_home_new_def)
  show ?thesis
    using remap_apply_state(1) [OF m(1,2)] assms(2,4) m(3)
    by (simp add: apply_buttons_def check_rumble_def maybe_fire_rumble_def slot_next_deadline_def
        remap_next_deadline_def Let_def)
qed

lemma in_map_nth: "i < length xs \<Longrightarrow> f (xs ! i) \<in> set (map f xs)"
  by simp

lemma length_timer_pass: "length (snd (timer_pass now gs)) = length gs"
  by (simp add: timer_pass_def Let_def)

lemma min_deadline_Some: "Some d \<in> set ds \<Longrightarrow> min_deadline ds \<noteq> None"
  by (induction ds rule: min_deadline.induct) (auto split: option.splits)

section \<open>Properties\<close>

text \<open>
  C14. In every state the handler and the timer can reach there are sixteen slots, the gamepad in slot
  \<open>i\<close> was created for index \<open>i\<close> (so feedback and device calls go to the right client gamepad), and a
  machine that waits for the hold threshold has Back pressed.
\<close>

theorem gamepad_slots_invariant:
  assumes "(handler_step create motion_code tw th config)\<^sup>*\<^sup>* (gamepads_init, t0) (gs, clock)"
  shows "length gs = 16 \<and> (\<forall>i < 16. \<forall>s. gs ! i = Some s \<longrightarrow>
    gs_index s = of_nat i \<and> (\<forall>d. hstate (gs_remap s) = Pending d \<longrightarrow> source_pressed (gs_remap s)))"
  using handler_ts.reachable_inv [OF _ assms] by (simp add: gamepads_ok_def slot_ok_def wf_remap_def)

definition sample_update :: gamepad_update where
  "sample_update = \<lparr>gu_index = 2, active_gamepad_mask = 4, gu_button_flags = BACK_FLAG, left_trigger = 0,
     right_trigger = 0, left_stick = (0, 0), right_stick = (0, 0)\<rparr>"

abbreviation sample_state :: "nat \<Rightarrow> gamepads" where
  "sample_state now \<equiv> snd (handle_gamepad (\<lambda>_. True) (\<lambda>_. 0) 1920 1080 sample_home_config
     (IE_GamepadUpdate sample_update) now gamepads_init)"

lemma sample_run: "(handler_step (\<lambda>_. True) (\<lambda>_. 0) 1920 1080 sample_home_config)\<^sup>*\<^sup>* (gamepads_init, 0) (sample_state 5, 5)"
  by (rule r_into_rtranclp, rule Command) simp

lemma sample_present: "sample_state 5 ! 2 \<noteq> None"
proof -
  have "mask_bit (active_gamepad_mask sample_update) 2" by (simp add: mask_bit_def sample_update_def)
  then show ?thesis
    using handle_update_presence [of "\<lambda>_. True" gamepads_init sample_update 2 "\<lambda>_. 0" sample_home_config 5]
    by (simp add: gamepads_init_def sample_update_def)
qed

theorem gamepad_slots_invariant_witness:
  "length (sample_state 5) = 16 \<and> (\<exists>s. sample_state 5 ! 2 = Some s \<and> gs_index s = 2)"
proof -
  obtain s where s: "sample_state 5 ! 2 = Some s" using sample_present by blast
  have "length (sample_state 5) = 16 \<and> gs_index s = of_nat 2"
    using gamepad_slots_invariant [OF sample_run] s by (metis numeral_less_iff semiring_norm(76,78))
  with s show ?thesis by simp
qed

text \<open>
  C12. The timer task never spins: after each pass over a reachable set of slots at an instant \<open>now\<close>, the
  deadline it next sleeps until, if there is one, is strictly later than \<open>now\<close>.
\<close>

theorem timer_pass_progress:
  assumes "(handler_step create motion_code tw th config)\<^sup>*\<^sup>* (gamepads_init, t0) (gs, clock)"
    and "timer_deadline (snd (timer_pass now gs)) = Some d"
  shows "now < d"
  using timer_pass_future [OF _ assms(2)] handler_ts.reachable_inv [OF _ assms(1)] by simp

theorem timer_pass_progress_witness:
  "\<exists>d. timer_deadline (snd (timer_pass 6 (sample_state 5))) = Some d \<and> 6 < d"
proof -
  have "mask_bit (active_gamepad_mask sample_update) 2" by (simp add: mask_bit_def sample_update_def)
  then obtain s where s: "gs_remap s = hold_to_home_new sample_home_config" "gs_rumble_off_at s = None"
    "sample_state 5 ! 2 = Some (snd (apply_buttons BACK_FLAG 5 s))"
    using handle_update_fresh [of "\<lambda>_. True" gamepads_init sample_update sample_home_config "\<lambda>_. 0" 5]
    by (auto simp: gamepads_init_def sample_update_def)
  have len: "length (sample_state 5) = 16"
    using gamepad_slots_invariant [OF sample_run] by blast
  have "slot_next_deadline (snd (apply_buttons BACK_FLAG 5 s)) = Some 1000005"
    using apply_buttons_arms [OF s(1,2), of BACK_FLAG 5]
    by (simp add: sample_home_config_def from_millis_def or_flags)
  then have "snd (timer_pass 6 (sample_state 5)) ! 2 = sample_state 5 ! 2 \<and>
      Option.bind (sample_state 5 ! 2) slot_next_deadline = Some 1000005"
    using s(3) len timer_pass_nth [of 2 "sample_state 5" 6] by (simp add: timer_slot_def)
  then have "Some 1000005 \<in> set (map (\<lambda>s. Option.bind s slot_next_deadline) (snd (timer_pass 6 (sample_state 5))))"
    using in_map_nth [of 2 "snd (timer_pass 6 (sample_state 5))" "\<lambda>s. Option.bind s slot_next_deadline"] len
    by (simp only: length_timer_pass)
  then have "timer_deadline (snd (timer_pass 6 (sample_state 5))) \<noteq> None"
    unfolding timer_deadline_def by (rule min_deadline_Some)
  then show ?thesis using timer_pass_progress [OF sample_run, of 6] by blast
qed

text \<open>
  Connecting and disconnecting: after an update for a slot below 16, with a device library that grants
  every joypad, exactly those slots hold a gamepad whose bit is set in the update's mask and that either held
  one before or is the slot of the update.
\<close>

theorem update_connects_and_disconnects:
  assumes "length gs = 16" and "unat (gu_index u) < 16" and "i < 16"
  shows "snd (handle_update (\<lambda>_. True) motion_code config u now gs) ! i \<noteq> None \<longleftrightarrow>
    mask_bit (active_gamepad_mask u) i \<and> (gs ! i \<noteq> None \<or> i = unat (gu_index u))"
  by (rule handle_update_presence) (use assms in simp_all)

theorem update_connects_and_disconnects_witness:
  "(\<exists>s. sample_state 5 ! 2 = Some s) \<and> sample_state 5 ! 3 = None"
  using update_connects_and_disconnects [of gamepads_init sample_update 2 "\<lambda>_. 0" sample_home_config 5]
    update_connects_and_disconnects [of gamepads_init sample_update 3 "\<lambda>_. 0" sample_home_config 5]
  by (simp add: gamepads_init_def sample_update_def mask_bit_def)

text \<open>
  When the activation pulse ends while Home is held, the timer pass stops the rumble and then presses
  no button at all: the joypad gets the flags 0, although the machine stays in the held state and Back is
  still down. Home and every other held button come back only with the client's next update.
\<close>

theorem rumble_timer_releases_buttons:
  assumes "source_mask (gs_remap s) = Some BACK_FLAG" and "hstate (gs_remap s) = HomeHeld"
    and "gs_rumble_off_at s = Some off_at" and "off_at \<le> now"
  shows "timer_slot now (Some s) =
    (send_rumble s 0 0 @ [Device (gs_index s) (SetPressed 0)], Some (s\<lparr>gs_rumble_off_at := None\<rparr>))"
proof -
  have "slot_next_deadline s = Some off_at"
    using assms by (simp add: slot_next_deadline_def remap_next_deadline_def)
  then show ?thesis
    using assms remap_advance_state(3) [OF assms(1,2)]
    by (simp add: timer_slot_def slot_advance_def check_rumble_def maybe_fire_rumble_def slot_ops_def set_pressed_def Let_def)
qed

definition sample_held_slot :: gamepad_slot where
  "sample_held_slot = \<lparr>gs_model = XboxOne,
     gs_remap = (hold_to_home_new sample_home_config)\<lparr>hstate := HomeHeld, source_pressed := True, last_passthrough := 0x1000\<rparr>,
     gs_index = 3, gs_intensity = 0x3fe0000000000000, gs_duration = 50000000, gs_rumble_off_at = Some 90\<rparr>"

theorem rumble_timer_releases_buttons_witness:
  "Device 3 (SetPressed 0) \<in> set (fst (timer_slot 100 (Some sample_held_slot)))"
proof -
  have m: "source_mask (gs_remap sample_held_slot) = Some BACK_FLAG" "hstate (gs_remap sample_held_slot) = HomeHeld"
    "gs_rumble_off_at sample_held_slot = Some 90"
    by (simp_all add: sample_held_slot_def hold_to_home_new_def sample_home_config_def home_button_default_def)
  show ?thesis using rumble_timer_releases_buttons [OF m, of 100] by (simp add: sample_held_slot_def)
qed

end
