(* ===== verification/Control_Loop.thy ===== *)
theory Control_Loop
  imports Feedback Input_Events
begin

text \<open>
  \<open>run_control_loop\<close> of \<open>session/stream/control/mod.rs\<close>. One turn of the loop is a function of the loop's
  variables and of what the environment supplies in that turn: the clock, the shutdown flag, the next
  feedback command, the answer of the ENet host, the session key each time it is read, and the HDR state
  channel (a version number stands for the change flag of the watch channel). Instants are nanoseconds.
\<close>

section \<open>State and environment\<close>

record control_state =
  stop_deadline :: nat
  sequence_number :: u32
  send_hdr_mode :: bool
  audio_triggered :: bool
  connected_peer :: "nat option"
  hdr_seen :: nat

datatype host_event = Connect nat | Disconnect nat | Receive bytes | NoEvent | HostError

record turn_env =
  te_shutdown :: bool
  te_now :: nat
  te_feedback :: "feedback_command option"
  te_feedback_key :: bytes
  te_event :: host_event
  te_decrypt_key :: bytes
  te_ping_now :: nat
  te_hdr_initial :: "nat \<times> hdr_mode_state"
  te_hdr_initial_key :: bytes
  te_hdr_update :: "nat \<times> hdr_mode_state"
  te_hdr_update_key :: bytes
  te_peer_connected :: "nat \<Rightarrow> bool"

text \<open>\<open>Send\<close> is a packet given to a peer.\<close>

datatype control_effect =
    Send nat bytes | RequestIdr | InvalidateFrames u32 u32 | TriggerVideo | TriggerAudio | RawInput bytes

datatype turn_end = Again | Leave

type_synonym control_step = "control_state \<times> control_effect list"

definition control_init :: "nat \<Rightarrow> u64 \<Rightarrow> nat \<Rightarrow> control_state" where
  "control_init now stream_timeout hdr_version =
     \<lparr>stop_deadline = now + unat stream_timeout * 1000000000, sequence_number = 0, send_hdr_mode = False,
      audio_triggered = False, connected_peer = None, hdr_seen = hdr_version\<rparr>"

section \<open>Sending\<close>

definition send_to_peer :: "aead \<Rightarrow> (nat \<Rightarrow> bool) \<Rightarrow> nat \<Rightarrow> bytes \<Rightarrow> u32 \<Rightarrow> bytes \<Rightarrow> control_effect list" where
  "send_to_peer gcm_enc peer_connected peer key seq payload =
     (case encode_control gcm_enc key seq payload of
        Inr packet \<Rightarrow> if peer_connected peer then [Send peer packet] else []
      | Inl _ \<Rightarrow> [])"

definition hdr_state_payload :: "hdr_mode_state \<Rightarrow> bytes" where
  "hdr_state_payload state =
     build_hdr_mode_payload (hdr_enabled state)
       (if hdr_enabled state
        then Some (case hdr_meta state of Some m \<Rightarrow> m | None \<Rightarrow> hdr_metadata_fallback)
        else None)"

definition send_hdr_state :: "aead \<Rightarrow> (nat \<Rightarrow> bool) \<Rightarrow> nat \<Rightarrow> hdr_mode_state \<Rightarrow> bytes \<Rightarrow> control_state \<Rightarrow> control_step" where
  "send_hdr_state gcm_enc peer_connected peer state key st =
     (st\<lparr>sequence_number := sequence_number st + 1\<rparr>,
      send_to_peer gcm_enc peer_connected peer key (sequence_number st) (hdr_state_payload state))"

definition feedback_phase :: "aead \<Rightarrow> turn_env \<Rightarrow> control_state \<Rightarrow> control_step" where
  "feedback_phase gcm_enc env st =
     (case (te_feedback env, connected_peer st) of
        (Some command, Some peer) \<Rightarrow>
          (st\<lparr>sequence_number := sequence_number st + 1\<rparr>,
           send_to_peer gcm_enc (te_peer_connected env) peer (te_feedback_key env) (sequence_number st)
             (feedback_as_packet command))
      | _ \<Rightarrow> (st, []))"

section \<open>Receiving\<close>

text \<open>A message after decryption; \<open>Inl Panic\<close> is the \<open>unreachable!\<close> of a message that is still
  encrypted.\<close>

fun handle_message :: "bool \<Rightarrow> u64 \<Rightarrow> nat \<Rightarrow> control_message \<Rightarrow> control_state \<Rightarrow> control_step res" where
  "handle_message hdr timeout now (Encrypted m) st = Inl Panic"
| "handle_message hdr timeout now RequestIdrFrame st = Inr (st, [RequestIdr])"
| "handle_message hdr timeout now (InvalidateReferenceFrames a b) st = Inr (st, [InvalidateFrames a b])"
| "handle_message hdr timeout now StartB st =
     Inr (st\<lparr>audio_triggered := True, send_hdr_mode := hdr\<rparr>,
          TriggerVideo # (if audio_triggered st then [] else [TriggerAudio]))"
| "handle_message hdr timeout now Ping st =
     Inr (st\<lparr>stop_deadline := now + unat timeout * 1000000000\<rparr>, [])"
| "handle_message hdr timeout now (InputData event) st = Inr (st, [RawInput event])"
| "handle_message hdr timeout now _ st = Inr (st, [])"

text \<open>How the rest of the turn goes on after a received packet: to the HDR phases, straight to the next
  turn, or out of the loop.\<close>

datatype receive_next = Proceed | Skip | Stop

definition open_message :: "aead \<Rightarrow> bytes \<Rightarrow> control_message \<Rightarrow> control_message option res" where
  "open_message gcm_dec key m =
     (case m of
        Encrypted e \<Rightarrow>
          (case open_encrypted gcm_dec key e of
             Inl Panic \<Rightarrow> Inl Panic
           | Inl Err \<Rightarrow> Inr None
           | Inr plain \<Rightarrow>
               (case control_from_bytes plain of
                  Inl Panic \<Rightarrow> Inl Panic
                | Inl Err \<Rightarrow> Inr None
                | Inr m' \<Rightarrow> Inr (Some m')))
      | _ \<Rightarrow> Inr (Some m))"

definition receive_packet :: "aead \<Rightarrow> bool \<Rightarrow> u64 \<Rightarrow> turn_env \<Rightarrow> bytes \<Rightarrow> control_state \<Rightarrow>
    (receive_next \<times> control_step) res" where
  "receive_packet gcm_dec hdr timeout env data st =
     (case control_from_bytes data of
        Inl Panic \<Rightarrow> Inl Panic
      | Inl Err \<Rightarrow> Inr (Stop, st, [])
      | Inr m \<Rightarrow>
          rbind (open_message gcm_dec (te_decrypt_key env) m) (\<lambda>r.
            case r of
              None \<Rightarrow> Inr (Skip, st, [])
            | Some m' \<Rightarrow> map_sum id (Pair Proceed) (handle_message hdr timeout (te_ping_now env) m' st)))"

definition event_phase :: "aead \<Rightarrow> bool \<Rightarrow> u64 \<Rightarrow> turn_env \<Rightarrow> control_state \<Rightarrow> (receive_next \<times> control_step) res" where
  "event_phase gcm_dec hdr timeout env st =
     (case te_event env of
        Connect peer \<Rightarrow> Inr (Proceed, st\<lparr>connected_peer := Some peer\<rparr>, [])
      | Disconnect peer \<Rightarrow>
          Inr (Proceed, if connected_peer st = Some peer then st\<lparr>connected_peer := None\<rparr> else st, [])
      | Receive data \<Rightarrow> receive_packet gcm_dec hdr timeout env data st
      | NoEvent \<Rightarrow> Inr (Proceed, st, [])
      | HostError \<Rightarrow> Inr (Stop, st, []))"

section \<open>The HDR phases\<close>

definition hdr_initial_phase :: "aead \<Rightarrow> turn_env \<Rightarrow> control_state \<Rightarrow> control_step" where
  "hdr_initial_phase gcm_enc env st =
     (if send_hdr_mode st then
        let st = st\<lparr>send_hdr_mode := False\<rparr> in
        (case connected_peer st of
           Some peer \<Rightarrow> send_hdr_state gcm_enc (te_peer_connected env) peer (snd (te_hdr_initial env))
             (te_hdr_initial_key env) (st\<lparr>hdr_seen := fst (te_hdr_initial env)\<rparr>)
         | None \<Rightarrow> (st, []))
      else (st, []))"

definition hdr_update_phase :: "aead \<Rightarrow> bool \<Rightarrow> turn_env \<Rightarrow> control_state \<Rightarrow> control_step" where
  "hdr_update_phase gcm_enc hdr env st =
     (if hdr \<and> fst (te_hdr_update env) \<noteq> hdr_seen st then
        (case connected_peer st of
           Some peer \<Rightarrow> send_hdr_state gcm_enc (te_peer_connected env) peer (snd (te_hdr_update env))
             (te_hdr_update_key env) (st\<lparr>hdr_seen := fst (te_hdr_update env)\<rparr>)
         | None \<Rightarrow> (st, []))
      else (st, []))"

section \<open>The loop\<close>

definition then_phase :: "control_step \<Rightarrow> (control_state \<Rightarrow> control_step) \<Rightarrow> control_step" where
  "then_phase r f = (let (st, e1) = r; (st', e2) = f st in (st', e1 @ e2))"

text \<open>One iteration of the loop. The sequence number wraps as in a release build, where a debug build panics.\<close>

definition control_turn :: "aead \<Rightarrow> aead \<Rightarrow> bool \<Rightarrow> u64 \<Rightarrow> turn_env \<Rightarrow> control_state \<Rightarrow> (turn_end \<times> control_step) res" where
  "control_turn gcm_enc gcm_dec hdr timeout env st =
     (if te_shutdown env then Inr (Leave, st, [])
      else if stop_deadline st < te_now env then Inr (Leave, st, [])
      else let (st1, e1) = feedback_phase gcm_enc env st in
        rbind (event_phase gcm_dec hdr timeout env st1) (\<lambda>(next, st2, e2).
          case next of
            Stop \<Rightarrow> Inr (Leave, st2, e1 @ e2)
          | Skip \<Rightarrow> Inr (Again, st2, e1 @ e2)
          | Proceed \<Rightarrow>
              Inr (Again, then_phase (then_phase (st2, e1 @ e2) (hdr_initial_phase gcm_enc env))
                     (hdr_update_phase gcm_enc hdr env))))"

text \<open>What follows the loop: the termination message.\<close>

definition control_finish :: "aead \<Rightarrow> bytes \<Rightarrow> (nat \<Rightarrow> bool) \<Rightarrow> control_state \<Rightarrow> control_effect list" where
  "control_finish gcm_enc key peer_connected st =
     (case connected_peer st of
        Some peer \<Rightarrow> send_to_peer gcm_enc peer_connected peer key (sequence_number st)
          (build_termination_payload 0x80030023)
      | None \<Rightarrow> [])"

text \<open>The loop over the turns of a run. A run whose turns are used up is still in the loop.\<close>

fun control_run :: "aead \<Rightarrow> aead \<Rightarrow> bool \<Rightarrow> u64 \<Rightarrow> turn_env list \<Rightarrow> control_state \<Rightarrow>
    (turn_end \<times> control_step) res" where
  "control_run gcm_enc gcm_dec hdr timeout [] st = Inr (Again, st, [])"
| "control_run gcm_enc gcm_dec hdr timeout (env # envs) st =
     rbind (control_turn gcm_enc gcm_dec hdr timeout env st) (\<lambda>(next, st1, e1).
       if next = Leave then Inr (Leave, st1, e1)
       else rbind (control_run gcm_enc gcm_dec hdr timeout envs st1) (\<lambda>(r, st2, e2). Inr (r, st2, e1 @ e2)))"

section \<open>Sequence numbers\<close>

text \<open>The sequence number that a sealed packet carries: its bytes 4 to 7.\<close>

definition packet_seq :: "bytes \<Rightarrow> u32" where
  "packet_seq packet = from_le32 (slice 4 8 packet)"

text \<open>A packet that is sealed under the nonce of the number it carries: tag and ciphertext follow eight bytes of header.\<close>

definition sealed :: "aead \<Rightarrow> bytes \<Rightarrow> bool" where
  "sealed gcm_enc packet \<longleftrightarrow>
     (\<exists>key plain ct tag. encrypt gcm_enc plain key (host_iv (packet_seq packet)) (replicate 16 0) = Inr (ct, tag) \<and>
        packet = take 8 packet @ tag @ ct)"

fun send_seq :: "control_effect \<Rightarrow> u32 list" where
  "send_seq (Send p b) = [packet_seq b]"
| "send_seq _ = []"

definition send_seqs :: "control_effect list \<Rightarrow> u32 list" where
  "send_seqs es = concat (map send_seq es)"

text \<open>A stretch of the run seals its packets under at most \<open>n\<close> numbers, each at most once and in increasing order,
  and leaves the counter behind the last.\<close>

definition sealed_sends :: "aead \<Rightarrow> control_effect list \<Rightarrow> bool" where
  "sealed_sends gcm_enc es \<longleftrightarrow> (\<forall>p packet. Send p packet \<in> set es \<longrightarrow> sealed gcm_enc packet)"

definition uses_seqs :: "aead \<Rightarrow> nat \<Rightarrow> control_state \<Rightarrow> control_state \<Rightarrow> control_effect list \<Rightarrow> bool" where
  "uses_seqs g n st st' es \<longleftrightarrow> sealed_sends g es \<and>
     (\<exists>k js. k \<le> n \<and> sequence_number st' = sequence_number st + of_nat k \<and> sorted_wrt (<) js \<and>
        (\<forall>j \<in> set js. j < k) \<and> send_seqs es = map (\<lambda>j. sequence_number st + of_nat j) js)"

lemma send_seqs_simps [simp]:
  "send_seqs [] = []" "send_seqs (e # es) = send_seq e @ send_seqs es" "send_seqs (xs @ ys) = send_seqs xs @ send_seqs ys"
  by (simp_all add: send_seqs_def)

lemma sealed_none: "send_seqs es = [] \<Longrightarrow> sealed_sends g es"
  by (force simp: sealed_sends_def send_seqs_def)

lemma uses_seqs_none: "sequence_number st' = sequence_number st \<Longrightarrow> send_seqs es = [] \<Longrightarrow> uses_seqs g n st st' es"
  unfolding uses_seqs_def by (intro conjI sealed_none exI [of _ 0] exI [of _ "[]"]) simp_all

lemma uses_seqs_trans:
  assumes "uses_seqs g m a b es" and "uses_seqs g n b c fs"
  shows "uses_seqs g (m + n) a c (es @ fs)"
proof -
  obtain k js where k: "k \<le> m" "sequence_number b = sequence_number a + of_nat k" "sorted_wrt (<) js"
    "\<forall>j \<in> set js. j < k" "send_seqs es = map (\<lambda>j. sequence_number a + of_nat j) js"
    using assms(1) by (auto simp: uses_seqs_def)
  obtain l ls where l: "l \<le> n" "sequence_number c = sequence_number b + of_nat l" "sorted_wrt (<) ls"
    "\<forall>j \<in> set ls. j < l" "send_seqs fs = map (\<lambda>j. sequence_number b + of_nat j) ls"
    using assms(2) by (auto simp: uses_seqs_def)
  have "sorted_wrt (<) (js @ map ((+) k) ls)"
    using k l by (auto simp: sorted_wrt_append sorted_wrt_map)
  moreover have "send_seqs (es @ fs) = map (\<lambda>j. sequence_number a + of_nat j) (js @ map ((+) k) ls)"
    using k l by (simp add: add.assoc)
  moreover have "sealed_sends g (es @ fs)" using assms by (auto simp: uses_seqs_def sealed_sends_def)
  moreover have "\<forall>j \<in> set (js @ map ((+) k) ls). j < k + l" using k l by auto
  ultimately show ?thesis
    unfolding uses_seqs_def using k l by (intro conjI exI [of _ "k + l"] exI [of _ "js @ map ((+) k) ls"]) (simp_all add: add.assoc)
qed

lemma uses_seqs_mono: "uses_seqs g m a b es \<Longrightarrow> m \<le> n \<Longrightarrow> uses_seqs g n a b es"
  unfolding uses_seqs_def using le_trans by blast

lemma encode_control_sealed:
  assumes "encode_control g key seq payload = Inr packet"
  shows "packet_seq packet = seq \<and> sealed g packet"
proof -
  obtain ct tag where e: "encrypt g payload key (host_iv seq) (replicate 16 0) = Inr (ct, tag)"
    and p: "packet = to_le16 (type_code T_Encrypted) @ to_le16 (4 + of_nat ENCRYPTION_TAG_LENGTH + of_nat (length ct)) @
      to_le32 seq @ tag @ ct"
    using assms by (auto simp: encode_control_def encrypted_as_bytes_def rbind_eq_Inr split: if_splits)
  have q: "packet_seq packet = seq" by (simp add: packet_seq_def p slice_def del: type_code.simps)
  have "packet = take 8 packet @ tag @ ct" by (simp add: p del: type_code.simps)
  then show ?thesis using e q unfolding sealed_def by metis
qed

lemma send_to_peer_seqs:
  "sealed_sends g (send_to_peer g pc p key seq payload) \<and>
   (send_seqs (send_to_peer g pc p key seq payload) = [] \<or> send_seqs (send_to_peer g pc p key seq payload) = [seq])"
  by (auto simp: send_to_peer_def sealed_sends_def dest: encode_control_sealed split: sum.splits)

lemma uses_seqs_send:
  assumes "sequence_number st' = sequence_number st + 1"
    and "sealed_sends g es \<and> (send_seqs es = [] \<or> send_seqs es = [sequence_number st])"
  shows "uses_seqs g (Suc 0) st st' es"
proof (cases "send_seqs es = []")
  case True
  then show ?thesis using assms unfolding uses_seqs_def by (intro conjI exI [of _ 1] exI [of _ "[]"]) simp_all
next
  case False
  then have "send_seqs es = [sequence_number st]" using assms(2) by blast
  then show ?thesis using assms unfolding uses_seqs_def by (intro conjI exI [of _ 1] exI [of _ "[0]"]) simp_all
qed

lemma uses_seqs_send_to_peer:
  "uses_seqs g (Suc 0) st (st\<lparr>sequence_number := sequence_number st + 1\<rparr>)
    (send_to_peer g pc p key (sequence_number st) payload)"
  by (rule uses_seqs_send) (simp, rule send_to_peer_seqs)

lemma feedback_phase_seqs: "feedback_phase g env st = (st', es) \<Longrightarrow> uses_seqs g (Suc 0) st st' es"
  by (auto simp: feedback_phase_def split: option.splits intro: uses_seqs_none uses_seqs_send_to_peer)

lemma send_hdr_state_seqs: "send_hdr_state g pc p s key st = (st', es) \<Longrightarrow> uses_seqs g (Suc 0) st st' es"
  by (auto simp: send_hdr_state_def intro: uses_seqs_send_to_peer)

lemma uses_seqs_cong: "uses_seqs g n a b es \<Longrightarrow> sequence_number a = sequence_number a' \<Longrightarrow> uses_seqs g n a' b es"
  by (simp add: uses_seqs_def)

lemma hdr_initial_seqs:
  assumes "hdr_initial_phase g env st = (st', es)" shows "uses_seqs g (Suc 0) st st' es"
proof (cases "send_hdr_mode st \<and> connected_peer st \<noteq> None")
  case True
  then obtain p where "connected_peer st = Some p" by blast
  then show ?thesis using assms True
    by (auto simp: hdr_initial_phase_def Let_def dest!: send_hdr_state_seqs intro: uses_seqs_cong)
qed (use assms in \<open>auto simp: hdr_initial_phase_def Let_def split: if_splits intro!: uses_seqs_none\<close>)

lemma hdr_update_seqs:
  assumes "hdr_update_phase g hdr env st = (st', es)" shows "uses_seqs g (Suc 0) st st' es"
proof (cases "hdr \<and> fst (te_hdr_update env) \<noteq> hdr_seen st \<and> connected_peer st \<noteq> None")
  case True
  then obtain p where "connected_peer st = Some p" by blast
  then show ?thesis using assms True
    by (auto simp: hdr_update_phase_def dest!: send_hdr_state_seqs intro: uses_seqs_cong)
qed (use assms in \<open>auto simp: hdr_update_phase_def split: if_splits option.splits intro!: uses_seqs_none\<close>)

lemma handle_message_seqs:
  "handle_message hdr t now m st = Inr (st', es) \<Longrightarrow> sequence_number st' = sequence_number st \<and> send_seqs es = []"
  by (cases m) (auto split: if_splits)

lemma receive_packet_step:
  assumes "receive_packet d hdr t env data st = Inr (nx, st', es)"
  shows "st' = st \<and> es = [] \<or> (nx = Proceed \<and> (\<exists>m. handle_message hdr t (te_ping_now env) m st = Inr (st', es)))"
  using assms
  by (auto simp: receive_packet_def rbind_eq_Inr map_sum_Inr split: sum.splits failure.splits option.splits)

lemma event_phase_step:
  assumes "event_phase d hdr t env st = Inr (nx, st', es)"
  obtains (quiet) p where "st' = st\<lparr>connected_peer := p\<rparr>" "es = []"
    | (message) m where "handle_message hdr t (te_ping_now env) m st = Inr (st', es)" "\<exists>data. te_event env = Receive data"
  using assms receive_packet_step [of d hdr t env _ st nx st' es]
  by (auto simp: event_phase_def split: host_event.splits if_splits) (metis control_state.surjective control_state.update_convs(5))+

lemma event_phase_seqs:
  "event_phase d hdr t env st = Inr (nx, st', es) \<Longrightarrow> uses_seqs g 0 st st' es"
  by (erule event_phase_step) (auto dest: handle_message_seqs intro!: uses_seqs_none)

lemma then_phase_seqs:
  assumes "\<And>st' es. r = (st', es) \<Longrightarrow> uses_seqs g m st st' es" and "\<And>a b es. f a = (b, es) \<Longrightarrow> uses_seqs g n a b es"
    and "then_phase r f = (st'', fs)"
  shows "uses_seqs g (m + n) st st'' fs"
  using assms(3) unfolding then_phase_def
  by (auto simp: Let_def split: prod.splits intro: uses_seqs_trans [OF assms(1) assms(2)])

lemma control_turn_seqs:
  assumes "control_turn g d hdr t env st = Inr (nx, st', es)" shows "uses_seqs g 3 st st' es"
proof (cases "te_shutdown env \<or> stop_deadline st < te_now env")
  case True
  then show ?thesis using assms by (auto simp: control_turn_def intro!: uses_seqs_none split: if_splits)
next
  case False
  obtain st1 e1 where f: "feedback_phase g env st = (st1, e1)" by (metis surj_pair)
  obtain n2 st2 e2 where e: "event_phase d hdr t env st1 = Inr (n2, st2, e2)"
    using assms False f by (auto simp: control_turn_def rbind_eq_Inr)
  have two: "uses_seqs g (Suc 0 + 0) st st2 (e1 @ e2)"
    by (rule uses_seqs_trans [OF feedback_phase_seqs [OF f] event_phase_seqs [OF e]])
  show ?thesis
  proof (cases n2)
    case Proceed
    then have r: "then_phase (then_phase (st2, e1 @ e2) (hdr_initial_phase g env)) (hdr_update_phase g hdr env) = (st', es)"
      using assms False f e by (simp add: control_turn_def)
    have "uses_seqs g (Suc 0 + 0 + Suc 0 + Suc 0) st st' es"
      by (rule then_phase_seqs [OF _ hdr_update_seqs r]) (rule then_phase_seqs [OF _ hdr_initial_seqs], use two in auto)
    then show ?thesis by (simp add: numeral_3_eq_3)
  qed (use assms False f e two in \<open>auto simp: control_turn_def intro: uses_seqs_mono\<close>)
qed

lemma control_run_seqs:
  "control_run g d hdr t envs st = Inr (r, st', es) \<Longrightarrow> uses_seqs g (3 * length envs) st st' es"
proof (induction envs arbitrary: st es)
  case Nil
  then show ?case by (auto intro!: uses_seqs_none)
next
  case (Cons env envs)
  then obtain nx st1 e1 where t: "control_turn g d hdr t env st = Inr (nx, st1, e1)"
    and rest: "if nx = Leave then (r, st', es) = (Leave, st1, e1)
      else \<exists>e2. control_run g d hdr t envs st1 = Inr (r, st', e2) \<and> es = e1 @ e2"
    by (auto simp: rbind_eq_Inr split: if_splits)
  note one = control_turn_seqs [OF t]
  show ?case
  proof (cases "nx = Leave")
    case True
    then show ?thesis using rest one by (auto intro: uses_seqs_mono)
  next
    case False
    then show ?thesis using rest uses_seqs_trans [OF one Cons.IH] by auto
  qed
qed

section \<open>Deadline and audio\<close>

lemma send_hdr_state_keeps:
  "send_hdr_state g pc p s key st = (st', es) \<Longrightarrow>
    stop_deadline st' = stop_deadline st \<and> audio_triggered st' = audio_triggered st \<and> TriggerAudio \<notin> set es"
  by (auto simp: send_hdr_state_def send_to_peer_def split: sum.splits if_splits)

lemma phases_keep:
  "feedback_phase g env st = (st', es) \<Longrightarrow>
    stop_deadline st' = stop_deadline st \<and> audio_triggered st' = audio_triggered st \<and> TriggerAudio \<notin> set es"
  "hdr_initial_phase g env st = (st', es) \<Longrightarrow>
    stop_deadline st' = stop_deadline st \<and> audio_triggered st' = audio_triggered st \<and> TriggerAudio \<notin> set es"
  "hdr_update_phase g hdr env st = (st', es) \<Longrightarrow>
    stop_deadline st' = stop_deadline st \<and> audio_triggered st' = audio_triggered st \<and> TriggerAudio \<notin> set es"
    apply (auto simp: feedback_phase_def send_to_peer_def split: option.splits sum.splits if_splits)[1]
   apply (auto simp: hdr_initial_phase_def Let_def dest: send_hdr_state_keeps split: option.splits if_splits)[1]
  apply (auto simp: hdr_update_phase_def dest: send_hdr_state_keeps split: option.splits if_splits)[1]
  done

definition audio_count :: "control_effect list \<Rightarrow> nat" where
  "audio_count es = length (filter (\<lambda>e. e = TriggerAudio) es)"

lemma audio_count_simps [simp]: "audio_count [] = 0" "audio_count (xs @ ys) = audio_count xs + audio_count ys"
  by (simp_all add: audio_count_def)

lemma audio_count_none: "TriggerAudio \<notin> set es \<Longrightarrow> audio_count es = 0"
  by (auto simp: audio_count_def filter_empty_conv)

lemma event_phase_audio:
  assumes "event_phase d hdr t env st = Inr (nx, st', es)"
  shows "audio_count es + (if audio_triggered st then 1 else 0) \<le> (if audio_triggered st' then 1 else 0)"
    and "stop_deadline st' = stop_deadline st \<or>
      (\<exists>data. te_event env = Receive data) \<and> stop_deadline st' = te_ping_now env + unat t * 1000000000"
  using assms
  by (atomize (full), elim event_phase_step) (auto, (case_tac m; auto simp: audio_count_def split: if_splits)+)

lemma control_turn_audio:
  assumes "control_turn g d hdr t env st = Inr (nx, st', es)"
  shows "audio_count es + (if audio_triggered st then 1 else 0) \<le> (if audio_triggered st' then 1 else 0)"
    and "stop_deadline st' = stop_deadline st \<or>
      (\<exists>data. te_event env = Receive data) \<and> stop_deadline st' = te_ping_now env + unat t * 1000000000"
proof -
  have "audio_count es + (if audio_triggered st then 1 else 0) \<le> (if audio_triggered st' then 1 else 0) \<and>
    (stop_deadline st' = stop_deadline st \<or>
      (\<exists>data. te_event env = Receive data) \<and> stop_deadline st' = te_ping_now env + unat t * 1000000000)"
  proof (cases "te_shutdown env \<or> stop_deadline st < te_now env")
    case True
    then show ?thesis using assms by (auto simp: control_turn_def split: if_splits)
  next
    case False
    obtain st1 e1 where f: "feedback_phase g env st = (st1, e1)" by (metis surj_pair)
    obtain n2 st2 e2 where e: "event_phase d hdr t env st1 = Inr (n2, st2, e2)"
      using assms False f by (auto simp: control_turn_def rbind_eq_Inr)
    note F = phases_keep(1) [OF f] and E = event_phase_audio [OF e]
    show ?thesis
    proof (cases n2)
      case Proceed
      obtain st3 e3 where i: "hdr_initial_phase g env st2 = (st3, e3)" by (metis surj_pair)
      obtain st4 e4 where u: "hdr_update_phase g hdr env st3 = (st4, e4)" by (metis surj_pair)
      have "st' = st4" "es = e1 @ e2 @ e3 @ e4"
        using assms False f e Proceed i u by (simp_all add: control_turn_def then_phase_def)
      with F E phases_keep(2) [OF i] phases_keep(3) [OF u] show ?thesis by (simp add: audio_count_none)
    qed (use assms False f e F E in \<open>auto simp: control_turn_def audio_count_none split: if_splits\<close>)
  qed
  then show "audio_count es + (if audio_triggered st then 1 else 0) \<le> (if audio_triggered st' then 1 else 0)"
    and "stop_deadline st' = stop_deadline st \<or>
      (\<exists>data. te_event env = Receive data) \<and> stop_deadline st' = te_ping_now env + unat t * 1000000000"
    by blast+
qed

lemma control_run_audio:
  "control_run g d hdr t envs st = Inr (r, st', es) \<Longrightarrow>
    audio_count es + (if audio_triggered st then 1 else 0) \<le> (if audio_triggered st' then 1 else (0 :: nat))"
proof (induction envs arbitrary: st es)
  case Nil
  then show ?case by auto
next
  case (Cons env envs)
  then obtain nx st1 e1 where t: "control_turn g d hdr t env st = Inr (nx, st1, e1)"
    and rest: "if nx = Leave then (r, st', es) = (Leave, st1, e1)
      else \<exists>e2. control_run g d hdr t envs st1 = Inr (r, st', e2) \<and> es = e1 @ e2"
    by (auto simp: rbind_eq_Inr split: if_splits)
  note one = control_turn_audio(1) [OF t]
  show ?case
  proof (cases "nx = Leave")
    case True
    then show ?thesis using rest one by simp
  next
    case False
    then obtain e2 where r2: "control_run g d hdr t envs st1 = Inr (r, st', e2)" "es = e1 @ e2" using rest by auto
    from one Cons.IH [OF r2(1)] show ?thesis by (simp add: r2(2) split: if_splits)
  qed
qed

section \<open>Nonces\<close>

lemma control_iv_parts: "take 4 (control_iv s q) = to_le32 q" "control_iv s q ! 10 = s"
  by (simp_all add: control_iv_def put_at_def nth_append)

lemma host_iv_inject: "host_iv a = host_iv b \<Longrightarrow> a = b"
  unfolding host_iv_def by (metis control_iv_parts(1) le32.enc_inject)

lemma host_client_iv: "host_iv a \<noteq> client_iv b"
proof
  assume "host_iv a = client_iv b"
  then have "(0x48 :: u8) = 0x43" by (metis control_iv_parts(2) host_iv_def client_iv_def)
  then show False by simp
qed

text \<open>The packets given to a peer, in order.\<close>

definition sent_packets :: "control_effect list \<Rightarrow> bytes list" where
  "sent_packets es = concat (map (\<lambda>e. case e of Send peer packet \<Rightarrow> [packet] | _ \<Rightarrow> []) es)"

lemma send_seqs_packets: "send_seqs es = map packet_seq (sent_packets es)"
  by (induction es) (simp_all add: sent_packets_def split: control_effect.split)

lemma in_sent_packets: "packet \<in> set (sent_packets es) \<longleftrightarrow> (\<exists>peer. Send peer packet \<in> set es)"
  by (force simp: sent_packets_def split: control_effect.splits)

lemma uses_seqs_distinct:
  assumes "uses_seqs g n st st' es" and "n \<le> 2 ^ 32" shows "distinct (send_seqs es)"
proof -
  obtain k js where k: "k \<le> n" "sorted_wrt (<) js" "\<forall>j \<in> set js. j < k"
    "send_seqs es = map (\<lambda>j. sequence_number st + of_nat j) js"
    using assms(1) by (auto simp: uses_seqs_def)
  have "inj_on (\<lambda>j. sequence_number st + (of_nat j :: u32)) (set js)"
  proof (rule inj_onI)
    fix i j assume ij: "i \<in> set js" "j \<in> set js"
      and eq: "sequence_number st + (of_nat i :: u32) = sequence_number st + of_nat j"
    then have "unat (of_nat i :: u32) = unat (of_nat j :: u32)" by simp
    moreover have "i < 2 ^ 32" "j < 2 ^ 32" using ij k(1,3) assms(2) by (meson less_le_trans)+
    ultimately show "i = j" by (simp add: unat_of_nat)
  qed
  then show ?thesis using k(2) by (simp add: k(4) distinct_map strict_sorted_iff)
qed

lemma control_finish_seqs:
  "uses_seqs g (Suc 0) st (st\<lparr>sequence_number := sequence_number st + 1\<rparr>) (control_finish g key pc st)"
  by (auto simp: control_finish_def split: option.splits intro!: uses_seqs_send_to_peer uses_seqs_send sealed_none)

section \<open>Properties\<close>

text \<open>
  C9. No nonce of the control stream is used twice: over a whole run of the loop, from the start to the termination
  message, every packet given to a peer is the AES-GCM encryption of some payload under the nonce of the sequence number
  in the packet itself, these nonces are distinct, and none of them is a nonce of the client. The run may have up to
  \<open>(2 ^ 32 - 1) / 3\<close> turns; after \<open>2 ^ 32\<close> packets the counter of a release build starts again at zero.
\<close>

theorem control_nonces_distinct:
  assumes "control_run gcm_enc gcm_dec hdr timeout envs st0 = Inr (r, st, effects)"
    and "3 * length envs + 1 \<le> 2 ^ 32"
    and "sent = sent_packets (effects @ control_finish gcm_enc key peer_connected st)"
  shows "distinct (map (\<lambda>packet. host_iv (packet_seq packet)) sent) \<and>
    (\<forall>packet \<in> set sent. sealed gcm_enc packet \<and> (\<forall>q. host_iv (packet_seq packet) \<noteq> client_iv q))"
proof -
  let ?es = "effects @ control_finish gcm_enc key peer_connected st"
  have use: "uses_seqs gcm_enc (3 * length envs + Suc 0) st0 (st\<lparr>sequence_number := sequence_number st + 1\<rparr>) ?es"
    by (rule uses_seqs_trans [OF control_run_seqs [OF assms(1)] control_finish_seqs])
  then have "distinct (send_seqs ?es)" by (rule uses_seqs_distinct) (use assms(2) in simp)
  moreover have "send_seqs es = map packet_seq (sent_packets es)" for es by (rule send_seqs_packets)
  ultimately have "distinct (map packet_seq sent)" unfolding assms(3) by metis
  moreover have "inj_on host_iv ss" for ss using host_iv_inject by (auto simp: inj_on_def)
  ultimately have "distinct (map host_iv (map packet_seq sent))" unfolding distinct_map by blast
  then have "distinct (map (\<lambda>packet. host_iv (packet_seq packet)) sent)" by (simp add: comp_def)
  moreover have "sealed gcm_enc packet" if "packet \<in> set sent" for packet
    using use that unfolding uses_seqs_def sealed_sends_def assms(3) in_sent_packets by blast
  ultimately show ?thesis using host_client_iv by blast
qed

text \<open>
  The session lives on pings: a turn that begins after the deadline leaves the loop without any
  effect; a turn that stays in the loop began before it, and the deadline moves only when a packet arrived, to
  the time of that packet plus the stream timeout.
\<close>

theorem control_turn_deadline:
  assumes "control_turn gcm_enc gcm_dec hdr timeout env st = Inr (next, st', effects)"
  shows "(stop_deadline st < te_now env \<longrightarrow> next = Leave \<and> st' = st \<and> effects = []) \<and>
    (next = Again \<longrightarrow> te_now env \<le> stop_deadline st) \<and>
    (stop_deadline st' = stop_deadline st \<or>
      (\<exists>data. te_event env = Receive data) \<and> stop_deadline st' = te_ping_now env + unat timeout * 1000000000)"
  using assms control_turn_audio(2) [OF assms]
  by (auto simp: control_turn_def split: if_splits)

text \<open>
  The audio stream is started at most once in a run, however often the client sends its start
  message.
\<close>

theorem audio_triggered_once:
  assumes "control_run gcm_enc gcm_dec hdr timeout envs st = Inr (r, st', effects)"
  shows "audio_count effects \<le> 1 \<and> (audio_triggered st \<longrightarrow> audio_count effects = 0)"
  using control_run_audio [OF assms] by (auto split: if_splits)

definition short_input :: "bytes \<Rightarrow> bool" where
  "short_input b \<longleftrightarrow> header_matches b \<and> length b < 8 \<and> from_le16 (slice 0 2 b) = type_code T_InputData"

lemma control_from_bytes_Panic: "control_from_bytes b = Inl Panic \<longleftrightarrow> short_input b"
  unfolding short_input_def using control_from_bytes_header control_from_bytes_type(1) by (metis Inl_inject failure.distinct(1))

lemma open_encrypted_Panic: "open_encrypted d key e = Inl Panic \<longleftrightarrow> length key \<noteq> 16"
  by (auto simp: open_encrypted_def decrypt_def client_iv_def)

lemma handle_message_Panic: "handle_message hdr t now m st = Inl Panic \<longleftrightarrow> (\<exists>e. m = Encrypted e)"
  by (cases m) auto

lemma handle_message_Err: "handle_message hdr t now m st \<noteq> Inl Err"
  by (cases m) auto

text \<open>
  C10. What a peer can do to crash the loop: a received packet panics exactly when it is an input message
  of fewer than eight bytes, or an encrypted message that meets a session key of the wrong length or opens
  to such a short input message or to another encrypted message.
\<close>

theorem receive_packet_panics_iff:
  shows "receive_packet gcm_dec hdr timeout env data st = Inl Panic \<longleftrightarrow>
    short_input data \<or>
    (\<exists>e. control_from_bytes data = Inr (Encrypted e) \<and>
      (length (te_decrypt_key env) \<noteq> 16 \<or>
       (\<exists>plain. open_encrypted gcm_dec (te_decrypt_key env) e = Inr plain \<and>
          (short_input plain \<or> (\<exists>e'. control_from_bytes plain = Inr (Encrypted e'))))))"
proof (cases "control_from_bytes data")
  case (Inl e)
  then show ?thesis
    by (cases e) (auto simp: receive_packet_def control_from_bytes_Panic [symmetric])
next
  case (Inr m)
  then have ns: "\<not> short_input data" by (simp add: control_from_bytes_Panic [symmetric])
  show ?thesis
  proof (cases "\<exists>e. m = Encrypted e")
    case True
    then obtain e where m: "m = Encrypted e" by blast
    show ?thesis
    proof (cases "open_encrypted gcm_dec (te_decrypt_key env) e")
      case (Inl f)
      then show ?thesis using open_encrypted_Panic [of gcm_dec "te_decrypt_key env" e] Inr m ns
        by (cases f) (auto simp: receive_packet_def open_message_def)
    next
      case (Inr plain)
      then have k: "length (te_decrypt_key env) = 16" using open_encrypted_Panic [of gcm_dec "te_decrypt_key env" e] by auto
      show ?thesis
      proof (cases "control_from_bytes plain")
        case (Inl f)
        then show ?thesis using \<open>control_from_bytes data = Inr m\<close> \<open>open_encrypted _ _ _ = Inr plain\<close> m ns k
          by (cases f) (auto simp: receive_packet_def open_message_def control_from_bytes_Panic [symmetric])
      next
        case (Inr m')
        then show ?thesis using \<open>control_from_bytes data = Inr m\<close> \<open>open_encrypted _ _ _ = Inr plain\<close> m ns k
            handle_message_Panic [of hdr timeout "te_ping_now env" m' st]
          by (cases "handle_message hdr timeout (te_ping_now env) m' st")
            (auto simp: receive_packet_def open_message_def control_from_bytes_Panic [symmetric])
      qed
    qed
  next
    case False
    then have "open_message gcm_dec (te_decrypt_key env) m = Inr (Some m)"
      by (auto simp: open_message_def split: control_message.splits)
    with False Inr ns handle_message_Panic [of hdr timeout "te_ping_now env" m st] show ?thesis
      by (cases "handle_message hdr timeout (te_ping_now env) m st") (auto simp: receive_packet_def)
  qed
qed

definition sample_env :: turn_env where
  "sample_env = \<lparr>te_shutdown = False, te_now = 10, te_feedback = Some (SetLed \<lparr>led_id = 0, rgb = (1, 2, 3)\<rparr>),
     te_feedback_key = replicate 16 3, te_event = Receive [0x07, 0x03, 0, 0], te_decrypt_key = replicate 16 3,
     te_ping_now = 10, te_hdr_initial = (1, hdr_mode_state_new True), te_hdr_initial_key = replicate 16 3,
     te_hdr_update = (2, hdr_mode_state_new True), te_hdr_update_key = replicate 16 3, te_peer_connected = (\<lambda>_. True)\<rparr>"

definition sample_control :: control_state where
  "sample_control = (control_init 0 30 0)\<lparr>connected_peer := Some 4\<rparr>"

lemma sample_start_message: "control_from_bytes [0x07, 0x03, 0, 0] = Inr StartB"
  by code_simp

lemma encode_16: "encode_control tagged_enc (replicate 16 3) q payload \<noteq> Inl e" if "payload \<noteq> []"
  using that by (simp add: encode_control_def encrypt_def tagged_enc_def TAG_LEN_def host_iv_def Let_def)

lemma sample_payloads: "feedback_as_packet c \<noteq> [] \<or> \<not> wf_feedback c" "hdr_state_payload s \<noteq> []"
  using length_feedback_as_packet [of c]
  by (cases c; auto) (simp add: hdr_state_payload_def build_hdr_mode_payload_def)

lemma sample_send:
  "payload \<noteq> [] \<Longrightarrow> \<exists>w. send_to_peer tagged_enc (\<lambda>_. True) p (replicate 16 3) q payload = [Send p w] \<and> packet_seq w = q"
  using encode_16 [of payload q] encode_control_sealed [of tagged_enc "replicate 16 3" q payload]
  by (auto simp: send_to_peer_def split: sum.splits)

lemma sample_turn:
  "\<exists>st es. control_turn tagged_enc tagged_dec True 30 sample_env sample_control = Inr (Again, st, es) \<and>
    send_seqs es = [0, 1, 2] \<and> audio_count es = 1"
proof -
  obtain w1 where w1: "send_to_peer tagged_enc (\<lambda>_. True) 4 (replicate 16 3) 0
      (feedback_as_packet (SetLed \<lparr>led_id = 0, rgb = (1, 2, 3)\<rparr>)) = [Send 4 w1]" and q1: "packet_seq w1 = 0"
    using sample_send sample_payloads(1) [of "SetLed \<lparr>led_id = 0, rgb = (1, 2, 3)\<rparr>"] by (metis wf_feedback.simps(3))
  obtain w2 where w2: "send_to_peer tagged_enc (\<lambda>_. True) 4 (replicate 16 3) 1
      (hdr_state_payload (hdr_mode_state_new True)) = [Send 4 w2]" and q2: "packet_seq w2 = 1" using sample_send sample_payloads(2) by metis
  obtain w3 where w3: "send_to_peer tagged_enc (\<lambda>_. True) 4 (replicate 16 3) 2
      (hdr_state_payload (hdr_mode_state_new True)) = [Send 4 w3]" and q3: "packet_seq w3 = 2" using sample_send sample_payloads(2) by metis
  show ?thesis
    by (simp add: control_turn_def sample_env_def sample_control_def control_init_def feedback_phase_def w1
        event_phase_def receive_packet_def sample_start_message open_message_def then_phase_def
        hdr_initial_phase_def hdr_update_phase_def send_hdr_state_def w2 w3 q1 q2 q3 audio_count_def Let_def
        del: feedback_as_packet.simps)
qed


theorem control_nonces_distinct_witness:
  "\<exists>st es packets. control_run tagged_enc tagged_dec True 30 [sample_env] sample_control = Inr (Again, st, es) \<and>
    map packet_seq packets = [0, 1, 2] \<and> (\<forall>packet \<in> set packets. (\<exists>p. Send p packet \<in> set es) \<and> sealed tagged_enc packet)"
proof -
  obtain st es where t: "control_turn tagged_enc tagged_dec True 30 sample_env sample_control = Inr (Again, st, es)"
    and q: "send_seqs es = [0, 1, 2]"
    using sample_turn by blast
  then have r: "control_run tagged_enc tagged_dec True 30 [sample_env] sample_control = Inr (Again, st, es)" by simp
  have "map packet_seq (sent_packets es) = [0, 1, 2]" using q send_seqs_packets by metis
  moreover have "\<forall>packet \<in> set (sent_packets es). sealed tagged_enc packet"
    using control_nonces_distinct [OF r _ refl, of "replicate 16 3" "\<lambda>_. True"] by (simp add: sent_packets_def)
  ultimately show ?thesis using r in_sent_packets by metis
qed

theorem control_turn_deadline_witness:
  "\<exists>st es. control_turn tagged_enc tagged_dec True 30 sample_env sample_control = Inr (Again, st, es) \<and>
    te_now sample_env \<le> stop_deadline sample_control"
proof -
  obtain st es where t: "control_turn tagged_enc tagged_dec True 30 sample_env sample_control = Inr (Again, st, es)"
    using sample_turn by blast
  show ?thesis using control_turn_deadline [OF t] t by blast
qed

theorem audio_triggered_once_witness:
  "\<exists>st es. control_run tagged_enc tagged_dec True 30 [sample_env] sample_control = Inr (Again, st, es) \<and>
    audio_count es = 1 \<and> audio_count es \<le> 1"
proof -
  obtain st es where t: "control_turn tagged_enc tagged_dec True 30 sample_env sample_control = Inr (Again, st, es)"
    and a: "audio_count es = 1"
    using sample_turn by blast
  then have r: "control_run tagged_enc tagged_dec True 30 [sample_env] sample_control = Inr (Again, st, es)" by simp
  show ?thesis using audio_triggered_once [OF r] r a by blast
qed

theorem receive_packet_panics_iff_witness:
  "receive_packet tagged_dec True 30 sample_env [0x06, 0x02, 0, 0] sample_control = Inl Panic"
proof -
  have "short_input [0x06, 0x02, 0, 0]"
    by (simp add: short_input_def header_matches_def slice_def from_le16_def)
  then show ?thesis
    using receive_packet_panics_iff [of tagged_dec True 30 sample_env "[0x06, 0x02, 0, 0]" sample_control] by blast
qed

end
