(* ===== verification/Stream_Config.thy ===== *)
theory Stream_Config
  imports Session_Types
begin

text \<open>
  What a stream is configured with: the audio layouts of \<open>session/stream/audio/mod.rs\<close>, the video parameters
  of \<open>session/stream/video/mod.rs\<close>, the server configuration of \<open>session/stream/mod.rs\<close>.
\<close>

section \<open>Audio\<close>

datatype audio_channels = Stereo | Surround51 | Surround71

fun channel_count :: "audio_channels \<Rightarrow> nat" where
  "channel_count Stereo = 2"
| "channel_count Surround51 = 6"
| "channel_count Surround71 = 8"

definition audio_channels_from :: "u8 \<Rightarrow> audio_channels" where
  "audio_channels_from value = (if value = 6 then Surround51 else if value = 8 then Surround71 else Stereo)"

record opus_stream_config =
  opus_channels :: audio_channels
  streams :: u8
  coupled_streams :: u8
  mapping :: "u8 list"
  opus_bitrate :: u32

definition OPUS_STEREO :: opus_stream_config where
  "OPUS_STEREO = \<lparr>opus_channels = Stereo, streams = 1, coupled_streams = 1,
     mapping = [0, 1, 0, 0, 0, 0, 0, 0], opus_bitrate = 96000\<rparr>"

definition OPUS_HIGH_STEREO :: opus_stream_config where
  "OPUS_HIGH_STEREO = \<lparr>opus_channels = Stereo, streams = 1, coupled_streams = 1,
     mapping = [0, 1, 0, 0, 0, 0, 0, 0], opus_bitrate = 512000\<rparr>"

definition OPUS_SURROUND51 :: opus_stream_config where
  "OPUS_SURROUND51 = \<lparr>opus_channels = Surround51, streams = 4, coupled_streams = 2,
     mapping = [0, 1, 4, 5, 2, 3, 0, 0], opus_bitrate = 256000\<rparr>"

definition OPUS_HIGH_SURROUND51 :: opus_stream_config where
  "OPUS_HIGH_SURROUND51 = \<lparr>opus_channels = Surround51, streams = 6, coupled_streams = 0,
     mapping = [0, 1, 2, 3, 4, 5, 0, 0], opus_bitrate = 1536000\<rparr>"

definition OPUS_SURROUND71 :: opus_stream_config where
  "OPUS_SURROUND71 = \<lparr>opus_channels = Surround71, streams = 5, coupled_streams = 3,
     mapping = [0, 1, 4, 5, 6, 7, 2, 3], opus_bitrate = 450000\<rparr>"

definition OPUS_HIGH_SURROUND71 :: opus_stream_config where
  "OPUS_HIGH_SURROUND71 = \<lparr>opus_channels = Surround71, streams = 8, coupled_streams = 0,
     mapping = [0, 1, 2, 3, 4, 5, 6, 7], opus_bitrate = 2048000\<rparr>"

definition ALL_AUDIO_CONFIGS :: "opus_stream_config list" where
  "ALL_AUDIO_CONFIGS = [OPUS_STEREO, OPUS_HIGH_STEREO, OPUS_SURROUND51, OPUS_HIGH_SURROUND51,
     OPUS_SURROUND71, OPUS_HIGH_SURROUND71]"

record audio_config =
  channels :: audio_channels
  channel_mask :: u32
  high_quality :: bool
  stream_config :: opus_stream_config

definition audio_config_default :: audio_config where
  "audio_config_default = \<lparr>channels = Stereo, channel_mask = 0x3, high_quality = True,
     stream_config = OPUS_HIGH_STEREO\<rparr>"

definition from_channels :: "audio_channels \<Rightarrow> u32 \<Rightarrow> bool \<Rightarrow> audio_config" where
  "from_channels chans cmask hq =
     \<lparr>channels = chans, channel_mask = cmask, high_quality = hq,
      stream_config =
        (case (chans, hq) of
           (Surround51, False) \<Rightarrow> OPUS_SURROUND51
         | (Surround51, True) \<Rightarrow> OPUS_HIGH_SURROUND51
         | (Surround71, False) \<Rightarrow> OPUS_SURROUND71
         | (Surround71, True) \<Rightarrow> OPUS_HIGH_SURROUND71
         | (_, False) \<Rightarrow> OPUS_STEREO
         | (_, True) \<Rightarrow> OPUS_HIGH_STEREO)\<rparr>"

record audio_stream_context =
  packet_duration_ms :: u32
  audio_qos :: bool
  audio_config :: audio_config
  encrypt_audio :: bool

record audio_stream_config =
  audio_port :: u16

definition audio_stream_config_default :: audio_stream_config where
  "audio_stream_config_default = \<lparr>audio_port = 48000\<rparr>"

lemmas opus_configs = OPUS_STEREO_def OPUS_HIGH_STEREO_def OPUS_SURROUND51_def OPUS_HIGH_SURROUND51_def
  OPUS_SURROUND71_def OPUS_HIGH_SURROUND71_def

section \<open>Video\<close>

datatype video_format = H264 | Hevc | Av1

definition video_format_try_from :: "u32 \<Rightarrow> video_format res" where
  "video_format_try_from value =
     (if value = 0 then Inr H264 else if value = 1 then Inr Hevc else if value = 2 then Inr Av1 else Inl Err)"

datatype video_dynamic_range = Sdr | Hdr

definition video_dynamic_range_try_from :: "u32 \<Rightarrow> video_dynamic_range res" where
  "video_dynamic_range_try_from value = (if value = 0 then Inr Sdr else if value = 1 then Inr Hdr else Inl Err)"

datatype video_chroma_sampling = Yuv420 | Yuv444

definition video_chroma_sampling_try_from :: "u32 \<Rightarrow> video_chroma_sampling res" where
  "video_chroma_sampling_try_from value = (if value = 0 then Inr Yuv420 else if value = 1 then Inr Yuv444 else Inl Err)"

record video_stream_context =
  width :: u32
  height :: u32
  fps :: u32
  packet_size :: nat
  bitrate :: nat
  minimum_fec_packets :: u32
  video_qos :: bool
  video_format :: video_format
  dynamic_range :: video_dynamic_range
  chroma_sampling_type :: video_chroma_sampling
  max_reference_frames :: u32
  full_range :: bool
  encrypt_video :: bool

record video_stream_config =
  video_port :: u16
  fec_percentage :: u8
  encrypt_enabled :: bool
  log_frame_spikes :: bool

definition video_stream_config_default :: video_stream_config where
  "video_stream_config_default = \<lparr>video_port = 47998, fec_percentage = 20, encrypt_enabled = False,
     log_frame_spikes = False\<rparr>"

section \<open>Lemmas\<close>

text \<open>A layout can be decoded: it has at most one coupled stream per stream, and the channels of the
  layout are mapped one to one to the decoded channels.\<close>

definition opus_layout_ok :: "opus_stream_config \<Rightarrow> bool" where
  "opus_layout_ok c \<longleftrightarrow>
     unat (coupled_streams c) \<le> unat (streams c) \<and> length (mapping c) = 8 \<and>
     unat (streams c) + unat (coupled_streams c) = channel_count (opus_channels c) \<and>
     sort (map unat (take (channel_count (opus_channels c)) (mapping c))) = [0 ..< channel_count (opus_channels c)]"

lemma all_opus_layouts_ok: "list_all opus_layout_ok ALL_AUDIO_CONFIGS"
  by code_simp

lemma from_channels_stream_config:
  "stream_config (from_channels c m q) \<in> set ALL_AUDIO_CONFIGS"
  "opus_channels (stream_config (from_channels c m q)) = c"
  by (cases c; cases q; simp add: from_channels_def ALL_AUDIO_CONFIGS_def opus_configs)+

end
