(* ===== verification/Text.thy ===== *)
theory Text
  imports Prelude "HOL-Library.Sublist"
begin

text \<open>
  The parts of Rust's string library the servers use, on the UTF-8 bytes of a string: decimal printing
  (\<open>to_string\<close>), the integer parsers of \<open>FromStr\<close>, \<open>trim\<close>, \<open>split\<close> on a character, \<open>strip_prefix\<close> and
  \<open>replace\<close>.
\<close>

section \<open>Decimal numbers\<close>

definition digit_char :: "nat \<Rightarrow> char" where
  "digit_char d = char_of (48 + d)"

fun show_nat :: "nat \<Rightarrow> string" where
  "show_nat n = (if n < 10 then [digit_char n] else show_nat (n div 10) @ [digit_char (n mod 10)])"

definition digit_value :: "char \<Rightarrow> nat option" where
  "digit_value c = (let v = of_char c :: nat in if 48 \<le> v \<and> v \<le> 57 then Some (v - 48) else None)"

definition digit_step :: "nat option \<Rightarrow> char \<Rightarrow> nat option" where
  "digit_step acc c = Option.bind acc (\<lambda>a. map_option (\<lambda>d. 10 * a + d) (digit_value c))"

definition digits_value :: "string \<Rightarrow> nat option" where
  "digits_value s = foldl digit_step (Some 0) s"

text \<open>\<open>FromStr\<close> of an unsigned type with values below \<open>bound\<close>: an optional plus sign, at least one digit,
  nothing else, and no overflow.\<close>

definition parse_unsigned :: "nat \<Rightarrow> string \<Rightarrow> nat option" where
  "parse_unsigned bound s =
     (let ds = (if take 1 s = ''+'' then drop 1 s else s) in
      if ds = [] then None
      else case digits_value ds of Some v \<Rightarrow> if v < bound then Some v else None | None \<Rightarrow> None)"

text \<open>\<open>FromStr\<close> of \<open>i32\<close>.\<close>

definition parse_i32 :: "string \<Rightarrow> int option" where
  "parse_i32 s =
     (if take 1 s = ''-'' then
        (if drop 1 s = [] then None
         else case digits_value (drop 1 s) of Some v \<Rightarrow> if v \<le> 2 ^ 31 then Some (- int v) else None | None \<Rightarrow> None)
      else map_option int (parse_unsigned (2 ^ 31) s))"

definition show_int :: "int \<Rightarrow> string" where
  "show_int i = (if i < 0 then CHR ''-'' # show_nat (nat (- i)) else show_nat (nat i))"

section \<open>Trimming, splitting, replacing\<close>

text \<open>The UTF-8 encodings of the characters with the property \<open>White_Space\<close>.\<close>

definition white_space :: "string list" where
  "white_space =
     map (\<lambda>n. [char_of (n :: nat)]) [9, 10, 11, 12, 13, 32] @
     map (map (\<lambda>n. char_of (n :: nat)))
       ([[0xC2, 0x85], [0xC2, 0xA0], [0xE1, 0x9A, 0x80]] @
        map (\<lambda>n. [0xE2, 0x80, n]) [0x80, 0x81, 0x82, 0x83, 0x84, 0x85, 0x86, 0x87, 0x88, 0x89, 0x8A, 0xA8, 0xA9, 0xAF] @
        [[0xE2, 0x81, 0x9F], [0xE3, 0x80, 0x80]])"

function strip_while_prefix :: "string list \<Rightarrow> string \<Rightarrow> string" where
  "strip_while_prefix ws s =
     (case find (\<lambda>w. w \<noteq> [] \<and> prefix w s) ws of
        None \<Rightarrow> s
      | Some w \<Rightarrow> strip_while_prefix ws (drop (length w) s))"
  by pat_completeness auto
termination
  by (relation "measure (\<lambda>(ws, s). length s)") (auto simp: find_Some_iff prefix_def)

definition trim :: "string \<Rightarrow> string" where
  "trim s = rev (strip_while_prefix (map rev white_space) (rev (strip_while_prefix white_space s)))"

fun split_on :: "char \<Rightarrow> string \<Rightarrow> string list" where
  "split_on c [] = [[]]"
| "split_on c (x # xs) = (if x = c then [] # split_on c xs
     else case split_on c xs of p # ps \<Rightarrow> (x # p) # ps | [] \<Rightarrow> [[x]])"

definition strip_prefix :: "string \<Rightarrow> string \<Rightarrow> string option" where
  "strip_prefix p s = (if prefix p s then Some (drop (length p) s) else None)"

text \<open>\<open>str::replace\<close> with a non-empty pattern: the matches are found from left to right and do not overlap.\<close>

function replace_all :: "string \<Rightarrow> string \<Rightarrow> string \<Rightarrow> string" where
  "replace_all pat with [] = []"
| "replace_all pat with (x # xs) =
     (if pat \<noteq> [] \<and> prefix pat (x # xs) then with @ replace_all pat with (drop (length pat) (x # xs))
      else x # replace_all pat with xs)"
  by pat_completeness auto
termination
  by (relation "measure (\<lambda>(p, w, s). length s)") (auto simp: prefix_def)

declare show_nat.simps [simp del] strip_while_prefix.simps [simp del]

section \<open>Lemmas\<close>

lemma digit_value_char [simp]: "d < 10 \<Longrightarrow> digit_value (digit_char d) = Some d"
  by (simp add: digit_value_def digit_char_def Let_def)

lemma digits_value_snoc [simp]: "digits_value (s @ [c]) = digit_step (digits_value s) c"
  by (simp add: digits_value_def)

lemma digits_value_show [simp]: "digits_value (show_nat n) = Some n"
proof (induction n rule: show_nat.induct)
  case (1 n)
  show ?case
  proof (cases "n < 10")
    case True
    then show ?thesis by (simp add: show_nat.simps [of n] digits_value_def digit_step_def)
  next
    case False
    with 1 have "digits_value (show_nat (n div 10)) = Some (n div 10)" by simp
    with False show ?thesis by (simp add: show_nat.simps [of n] digit_step_def)
  qed
qed

lemma show_nat_not_Nil [simp]: "show_nat n \<noteq> []"
  by (simp add: show_nat.simps [of n])

lemma show_nat_digits: "c \<in> set (show_nat n) \<Longrightarrow> \<exists>d < 10. c = digit_char d"
proof (induction n rule: show_nat.induct)
  case (1 n)
  then show ?case
    by (cases "n < 10") (auto simp: show_nat.simps [of n] intro: exI [of _ "n mod 10"])
qed

lemma digit_char_sign: "d < 10 \<Longrightarrow> digit_char d \<noteq> CHR ''+'' \<and> digit_char d \<noteq> CHR ''-''"
  by (auto simp: digit_char_def dest!: arg_cong [where f = "of_char :: char \<Rightarrow> nat"])

lemma show_nat_unsigned: "take 1 (show_nat n) \<noteq> ''+''" "take 1 (show_nat n) \<noteq> ''-''"
  using show_nat_digits [of _ n] digit_char_sign by (cases "show_nat n"; fastforce)+

lemma parse_show_nat [simp]: "n < bound \<Longrightarrow> parse_unsigned bound (show_nat n) = Some n"
  using show_nat_unsigned [of n] by (simp add: parse_unsigned_def Let_def del: take_Suc One_nat_def)

lemma parse_unsigned_bound: "parse_unsigned bound s = Some n \<Longrightarrow> n < bound"
  by (auto simp: parse_unsigned_def Let_def split: option.splits if_splits)

lemma parse_show_i32: "- (2 ^ 31) \<le> i \<Longrightarrow> i < 2 ^ 31 \<Longrightarrow> parse_i32 (show_int i) = Some i"
proof (cases "i < 0")
  case True
  assume "- (2 ^ 31) \<le> i"
  then have "nat (- i) \<le> 2 ^ 31" by (simp add: nat_le_iff)
  with True show ?thesis by (simp add: parse_i32_def show_int_def)
next
  case False
  assume "i < 2 ^ 31"
  then have "nat i < 2 ^ 31" using False by (simp add: nat_less_iff)
  then show ?thesis using False show_nat_unsigned [of "nat i"] parse_show_nat
    by (simp add: parse_i32_def show_int_def del: take_Suc One_nat_def parse_show_nat)
qed

end
