(* ===== verification/Session_Manager.thy ===== *)
theory Session_Manager
  imports Stream_Config Text "HOL-Library.Multiset"
begin

text \<open>
  The session life cycle: the states of \<open>session/mod.rs\<close> and the operations of \<open>session/manager.rs\<close>.
  Every operation is split where the source releases the manager's mutex, so that a launch or a start in
  flight interleaves with the other operations and with the watchdog task. A \<open>ShutdownManager\<close> and a watch
  channel are identities; what the source does to them is an effect. The compositor, the application and the
  streams are the environment: whether each can be created or started is an argument.
\<close>

section \<open>Session states\<close>

datatype session_shutdown_reason =
    ManagerShutdown | UserStopped | ApplicationStopped | VideoPacketHandlerStopped | VideoEncoderStopped
  | AudioPacketHandlerStopped | PulseServerStopped | AudioEncoderStopped | ControlStreamStopped
  | InputHandlerStopped | CompositorStopped

type_synonym chan = nat
type_synonym stop_id = nat

datatype session_keys = Keys session_key_data | Rx chan

definition session_keys_new :: "bytes \<Rightarrow> int \<Rightarrow> session_keys" where
  "session_keys_new key key_id = Keys \<lparr>remote_input_key = key, remote_input_key_id = key_id\<rparr>"

fun clone_rx :: "session_keys \<Rightarrow> chan option" where
  "clone_rx (Rx rx) = Some rx"
| "clone_rx (Keys _) = None"

record application_config =
  title :: string
  boxart :: "string option"
  command :: "string list"
  pre_command :: "string list list"
  post_command :: "string list list"
  app_stdout :: "string option"
  app_stderr :: "string option"
  launch_timeout_secs :: u64

definition default_launch_timeout :: u64 where
  "default_launch_timeout = 2"

definition application_config_default :: application_config where
  "application_config_default = \<lparr>title = [], boxart = None, command = [], pre_command = [], post_command = [],
     app_stdout = None, app_stderr = None, launch_timeout_secs = default_launch_timeout\<rparr>"

record session_context =
  application :: application_config
  application_id :: "32 word"
  resolution :: "u32 \<times> u32"
  refresh_rate :: u32
  keys :: session_keys
  audio_channels :: audio_channels
  audio_channel_mask :: u32
  sc_hdr :: bool

record initialized_session =
  is_context :: session_context
  is_stop :: stop_id

record launched_session =
  ls_context :: session_context
  ls_hdr :: bool

record active_session =
  as_context :: session_context
  sleep_inhibitor :: bool

datatype session_state =
    Initialized initialized_session | Launched launched_session | Active active_session

fun session_context_of :: "session_state \<Rightarrow> session_context" where
  "session_context_of (Initialized s) = is_context s"
| "session_context_of (Launched s) = ls_context s"
| "session_context_of (Active s) = as_context s"

section \<open>Effects\<close>

record compositor_ready =
  xdisplay :: u32
  wayland_display :: string
  ready_hdr :: bool

record application_context =
  unit_name :: string
  pulse_socket_path :: string
  ac_xdisplay :: u32
  ac_wayland_display :: string
  ac_hdr :: bool
  extra_env :: "(string \<times> string) list"

datatype manager_effect =
    TriggerShutdown stop_id session_shutdown_reason | TriggerGlobalShutdown | WaitShutdownComplete stop_id
  | SendKeys chan session_key_data | SpawnWatchdog stop_id | AbortWatchdog stop_id
  | NotifyOne nat | ResetVideoStream active_session
  | LaunchCompositor session_context | SpawnApplication application_config application_context stop_id
  | StartVideo video_stream_context chan stop_id | StartAudio audio_stream_context chan
  | StartControl u64 session_context bool nat nat

section \<open>Operations of the session states\<close>

text \<open>\<open>InitializedSession::new\<close>: the flags say whether the audio, video and control streams can be created.\<close>

definition initialized_session_new :: "bool \<Rightarrow> bool \<Rightarrow> bool \<Rightarrow> session_context \<Rightarrow> stop_id \<Rightarrow> initialized_session res" where
  "initialized_session_new audio_ok video_ok control_ok context stop =
     (if \<not> audio_ok then Inl Err
      else if \<not> video_ok then Inl Err
      else if \<not> control_ok then Inl Err
      else Inr \<lparr>is_context = context, is_stop = stop\<rparr>)"

definition session_extra_env :: "session_context \<Rightarrow> (string \<times> string) list" where
  "session_extra_env context =
     [(''MOONSHINE_CLIENT_WIDTH'', show_nat (unat (fst (resolution context)))),
      (''MOONSHINE_CLIENT_HEIGHT'', show_nat (unat (snd (resolution context)))),
      (''MOONSHINE_CLIENT_FRAMERATE'', show_nat (unat (refresh_rate context)))]"

text \<open>\<open>InitializedSession::launch\<close>: the compositor may fail to come up, and the application to be spawned.\<close>

definition initialized_launch :: "compositor_ready option \<Rightarrow> string \<Rightarrow> bool \<Rightarrow> initialized_session \<Rightarrow>
    manager_effect list \<times> launched_session res" where
  "initialized_launch compositor pulse_path spawn_ok s =
     (case compositor of
        None \<Rightarrow> ([LaunchCompositor (is_context s)], Inl Err)
      | Some ready \<Rightarrow>
          ([LaunchCompositor (is_context s),
            SpawnApplication (application (is_context s))
              \<lparr>unit_name = ''moonshine-session.service'', pulse_socket_path = pulse_path,
               ac_xdisplay = xdisplay ready, ac_wayland_display = wayland_display ready,
               ac_hdr = ready_hdr ready, extra_env = session_extra_env (is_context s)\<rparr> (is_stop s)],
           if spawn_ok then Inr \<lparr>ls_context = is_context s, ls_hdr = ready_hdr ready\<rparr> else Inl Err))"

text \<open>\<open>LaunchedSession::start\<close>: the video and audio streams return their start notifications, or fail.\<close>

record start_env =
  video_start :: "nat option"
  audio_start :: "nat option"
  inhibitor_acquired :: bool

definition launched_start :: "start_env \<Rightarrow> u64 \<Rightarrow> video_stream_context \<Rightarrow> audio_stream_context \<Rightarrow> stop_id \<Rightarrow>
    bool \<Rightarrow> launched_session \<Rightarrow> manager_effect list \<times> (active_session \<times> nat \<times> nat) res" where
  "launched_start env stream_timeout video_ctx audio_ctx stop inhibit_sleep s =
     (case clone_rx (keys (ls_context s)) of
        None \<Rightarrow> ([], Inl Err)
      | Some keys_rx \<Rightarrow>
          (case video_start env of
             None \<Rightarrow> ([StartVideo video_ctx keys_rx stop], Inl Err)
           | Some video_notify \<Rightarrow>
               (case audio_start env of
                  None \<Rightarrow> ([StartVideo video_ctx keys_rx stop, StartAudio audio_ctx keys_rx], Inl Err)
                | Some audio_notify \<Rightarrow>
                    ([StartVideo video_ctx keys_rx stop, StartAudio audio_ctx keys_rx,
                      StartControl stream_timeout (ls_context s) (ls_hdr s) video_notify audio_notify],
                     Inr (\<lparr>as_context = ls_context s,
                           sleep_inhibitor = (inhibit_sleep \<and> inhibitor_acquired env)\<rparr>,
                          video_notify, audio_notify)))))"

section \<open>The manager\<close>

text \<open>\<open>next_stop\<close> and \<open>next_chan\<close> name the shutdown managers and watch channels that are created.\<close>

record manager =
  stream_timeout :: u64
  inhibit_sleep :: bool
  session :: "session_state option"
  stop :: stop_id
  keys_tx :: "chan option"
  video_context :: "video_stream_context option"
  audio_context :: "audio_stream_context option"
  stop_watcher :: "stop_id option"
  video_start_notify :: "nat option"
  audio_start_notify :: "nat option"
  next_stop :: stop_id
  next_chan :: chan

definition manager_new :: "u64 \<Rightarrow> bool \<Rightarrow> manager" where
  "manager_new timeout inhibit =
     \<lparr>stream_timeout = timeout, inhibit_sleep = inhibit, session = None, stop = 0, keys_tx = None,
      video_context = None, audio_context = None, stop_watcher = None, video_start_notify = None,
      audio_start_notify = None, next_stop = 1, next_chan = 0\<rparr>"

type_synonym manager_step = "manager \<times> manager_effect list"

definition abort_watcher :: "manager \<Rightarrow> manager_effect list" where
  "abort_watcher m = (case stop_watcher m of Some w \<Rightarrow> [AbortWatchdog w] | None \<Rightarrow> [])"

definition reset_session :: "manager \<Rightarrow> manager_step" where
  "reset_session m =
     (m\<lparr>stop_watcher := None, session := None, keys_tx := None, video_context := None, audio_context := None,
        video_start_notify := None, audio_start_notify := None, stop := next_stop m, next_stop := next_stop m + 1\<rparr>,
      abort_watcher m)"

definition manager_drop :: "manager \<Rightarrow> manager_effect list" where
  "manager_drop m =
     abort_watcher m @
     (if session m \<noteq> None then [TriggerShutdown (stop m) ManagerShutdown, WaitShutdownComplete (stop m)] else [])"

definition trigger_streams_start :: "manager \<Rightarrow> manager_effect list" where
  "trigger_streams_start m =
     (case video_start_notify m of Some n \<Rightarrow> [NotifyOne n, NotifyOne n] | None \<Rightarrow> []) @
     (case audio_start_notify m of Some n \<Rightarrow> [NotifyOne n, NotifyOne n] | None \<Rightarrow> [])"

definition set_stream_context :: "video_stream_context \<Rightarrow> audio_stream_context \<Rightarrow> manager \<Rightarrow> manager \<times> unit res" where
  "set_stream_context video_ctx audio_ctx m =
     (case session m of
        Some (Launched _) \<Rightarrow> (m\<lparr>video_context := Some video_ctx, audio_context := Some audio_ctx\<rparr>, Inr ())
      | Some (Initialized _) \<Rightarrow> (m, Inl Err)
      | Some (Active _) \<Rightarrow> (m, Inr ())
      | None \<Rightarrow> (m, Inl Err))"

definition get_session_context :: "manager \<Rightarrow> session_context option" where
  "get_session_context m = map_option session_context_of (session m)"

definition spawn_session_watchdog :: "manager \<Rightarrow> manager_step" where
  "spawn_session_watchdog m =
     (if stop_watcher m \<noteq> None then (m, []) else (m\<lparr>stop_watcher := Some (stop m)\<rparr>, [SpawnWatchdog (stop m)]))"

definition initialize_session :: "bool \<Rightarrow> bool \<Rightarrow> bool \<Rightarrow> session_context \<Rightarrow> manager \<Rightarrow> manager_step \<times> unit res" where
  "initialize_session audio_ok video_ok control_ok context m =
     (if session m \<noteq> None \<or> keys_tx m \<noteq> None then ((m, []), Inl Err)
      else case keys context of
        Rx _ \<Rightarrow> ((m, []), Inl Err)
      | Keys data \<Rightarrow>
          let chan = next_chan m; m = m\<lparr>next_chan := chan + 1\<rparr> in
          (case initialized_session_new audio_ok video_ok control_ok (context\<lparr>keys := Rx chan\<rparr>) (stop m) of
             Inl e \<Rightarrow> ((m, []), Inl e)
           | Inr s \<Rightarrow>
               let (m', effects) = spawn_session_watchdog (m\<lparr>session := Some (Initialized s)\<rparr>) in
               ((m'\<lparr>keys_tx := Some chan\<rparr>, SendKeys chan data # effects), Inr ())))"

text \<open>\<open>launch_session\<close>: the mutex is held while the session is taken, released during the launch, and taken
  again for the result.\<close>

definition launch_begin :: "manager \<Rightarrow> manager \<times> initialized_session res" where
  "launch_begin m =
     (case session m of
        Some (Initialized s) \<Rightarrow> (m\<lparr>session := None\<rparr>, Inr s)
      | _ \<Rightarrow> (m, Inl Err))"

definition launch_end :: "launched_session res \<Rightarrow> manager \<Rightarrow> manager_step \<times> unit res" where
  "launch_end result m =
     (case result of
        Inr launched \<Rightarrow> ((m\<lparr>session := Some (Launched launched)\<rparr>, []), Inr ())
      | Inl _ \<Rightarrow> (reset_session m, Inl Err))"

text \<open>\<open>start_session\<close>: the first part ends in a reply, or in a start that is carried out under the mutex taken
  anew.\<close>

datatype start_next =
    Reply "unit res"
  | StartStreams launched_session video_stream_context audio_stream_context stop_id

definition start_begin :: "manager \<Rightarrow> manager_step \<times> start_next" where
  "start_begin m =
     (let video_ctx = video_context m; audio_ctx = audio_context m;
          m = m\<lparr>video_context := None, audio_context := None\<rparr> in
      case session m of
        Some (Launched launched) \<Rightarrow>
          ((m\<lparr>session := None\<rparr>, []),
           case video_ctx of
             None \<Rightarrow> Reply (Inl Err)
           | Some v \<Rightarrow> (case audio_ctx of None \<Rightarrow> Reply (Inl Err) | Some a \<Rightarrow> StartStreams launched v a (stop m)))
      | Some (Initialized _) \<Rightarrow> ((m, []), Reply (Inl Err))
      | Some (Active active) \<Rightarrow> ((m, [ResetVideoStream active]), Reply (Inr ()))
      | None \<Rightarrow> ((m, []), Reply (Inl Err)))"

definition start_end :: "start_env \<Rightarrow> launched_session \<Rightarrow> video_stream_context \<Rightarrow> audio_stream_context \<Rightarrow> stop_id \<Rightarrow>
    manager \<Rightarrow> manager_step \<times> unit res" where
  "start_end env launched video_ctx audio_ctx stop_clone m =
     (case launched_start env (stream_timeout m) video_ctx audio_ctx stop_clone (inhibit_sleep m) launched of
        (effects, Inr (active, video_notify, audio_notify)) \<Rightarrow>
          ((m\<lparr>session := Some (Active active), video_start_notify := Some video_notify,
              audio_start_notify := Some audio_notify\<rparr>, effects), Inr ())
      | (effects, Inl _) \<Rightarrow> (let (m', e) = reset_session m in ((m', effects @ e), Inl Err)))"

text \<open>The whole call: \<open>meanwhile\<close> is what others do to the manager while the mutex is released.\<close>

definition start_session :: "(manager \<Rightarrow> manager) \<Rightarrow> start_env \<Rightarrow> manager \<Rightarrow> manager_step \<times> unit res" where
  "start_session meanwhile env m =
     (case start_begin m of
        (step, Reply r) \<Rightarrow> (step, r)
      | ((m1, e1), StartStreams launched video_ctx audio_ctx stop_clone) \<Rightarrow>
          let ((m2, e2), r) = start_end env launched video_ctx audio_ctx stop_clone (meanwhile m1) in ((m2, e1 @ e2), r))"

text \<open>\<open>stop_session\<close> under the mutex, and \<open>wait_for_session_shutdown\<close> after it.\<close>

definition stop_begin :: "manager \<Rightarrow> manager_step \<times> stop_id option" where
  "stop_begin m = (case session m of Some _ \<Rightarrow> (reset_session m, Some (stop m)) | None \<Rightarrow> ((m, []), None))"

definition wait_for_session_shutdown :: "bool \<Rightarrow> stop_id \<Rightarrow> manager_effect list \<times> unit res" where
  "wait_for_session_shutdown in_time stop_clone =
     (if in_time then ([WaitShutdownComplete stop_clone], Inr ())
      else ([WaitShutdownComplete stop_clone, TriggerGlobalShutdown], Inl Err))"

definition stop_session :: "bool \<Rightarrow> manager \<Rightarrow> manager_step \<times> unit res" where
  "stop_session in_time m =
     (case stop_begin m of
        (step, None) \<Rightarrow> (step, Inr ())
      | ((m', effects), Some stop_clone) \<Rightarrow>
          let (waited, r) = wait_for_session_shutdown in_time stop_clone in
          ((m', effects @ TriggerShutdown stop_clone UserStopped # waited), r))"

definition update_keys :: "bool \<Rightarrow> session_key_data \<Rightarrow> manager \<Rightarrow> manager_effect list \<times> unit res" where
  "update_keys shutdown_triggered new_keys m =
     (if shutdown_triggered then ([], Inl Err)
      else case session m of
        Some (Active _) \<Rightarrow>
          (case keys_tx m of Some chan \<Rightarrow> ([SendKeys chan new_keys], Inr ()) | None \<Rightarrow> ([], Inl Err))
      | _ \<Rightarrow> ([], Inl Err))"

text \<open>The watchdog of the current session wakes up on a shutdown of the session, or on one of the whole
  application.\<close>

definition watchdog_wake :: "bool \<Rightarrow> stop_id \<Rightarrow> manager \<Rightarrow> manager_step" where
  "watchdog_wake global_shutdown watched m =
     (let (m', effects) = reset_session m in
      (m', (if global_shutdown then [TriggerShutdown watched ManagerShutdown] else []) @ effects @ [WaitShutdownComplete watched]))"

section \<open>Interleaving\<close>

text \<open>The launches and starts in flight are the calls that have released the mutex and not taken it again. A
  launch in flight is dropped when the HTTP request behind it times out or loses its connection.\<close>

record world =
  mgr :: manager
  launching :: "initialized_session list"
  starting :: "(launched_session \<times> video_stream_context \<times> audio_stream_context \<times> stop_id) list"

inductive world_step :: "world \<Rightarrow> world \<Rightarrow> bool" where
  initialize: "initialize_session a v c context (mgr w) = ((m, e), r) \<Longrightarrow> world_step w (w\<lparr>mgr := m\<rparr>)"
| launch_reject: "launch_begin (mgr w) = (m, Inl err) \<Longrightarrow> world_step w (w\<lparr>mgr := m\<rparr>)"
| launch_take: "launch_begin (mgr w) = (m, Inr s) \<Longrightarrow> world_step w (w\<lparr>mgr := m, launching := s # launching w\<rparr>)"
| launch_done: "s \<in> set (launching w) \<Longrightarrow> initialized_launch ready path ok s = (e, result) \<Longrightarrow>
    launch_end result (mgr w) = ((m, e'), r) \<Longrightarrow>
    world_step w (w\<lparr>mgr := m, launching := remove1 s (launching w)\<rparr>)"
| launch_dropped: "s \<in> set (launching w) \<Longrightarrow> world_step w (w\<lparr>launching := remove1 s (launching w)\<rparr>)"
| announce: "set_stream_context vc ac (mgr w) = (m, r) \<Longrightarrow> world_step w (w\<lparr>mgr := m\<rparr>)"
| start_reply: "start_begin (mgr w) = ((m, e), Reply r) \<Longrightarrow> world_step w (w\<lparr>mgr := m\<rparr>)"
| start_take: "start_begin (mgr w) = ((m, e), StartStreams s vc ac st) \<Longrightarrow>
    world_step w (w\<lparr>mgr := m, starting := (s, vc, ac, st) # starting w\<rparr>)"
| start_done: "(s, vc, ac, st) \<in> set (starting w) \<Longrightarrow> start_end env s vc ac st (mgr w) = ((m, e), r) \<Longrightarrow>
    world_step w (w\<lparr>mgr := m, starting := remove1 (s, vc, ac, st) (starting w)\<rparr>)"
| stop: "stop_session in_time (mgr w) = ((m, e), r) \<Longrightarrow> world_step w (w\<lparr>mgr := m\<rparr>)"
| watchdog: "stop_watcher (mgr w) = Some watched \<Longrightarrow>
    watchdog_wake g watched (mgr w) = (m, e) \<Longrightarrow> world_step w (w\<lparr>mgr := m\<rparr>)"

inductive_cases world_stepE: "world_step w w'"

text \<open>
  A run with a ghost flag: the session was \<open>overtaken\<close> when the last reset of the manager (which gives it another
  shutdown manager) came while a launch or a start was in flight.
\<close>

definition in_flight :: "world \<Rightarrow> bool" where
  "in_flight w \<longleftrightarrow> launching w \<noteq> [] \<or> starting w \<noteq> []"

inductive manager_run :: "world \<times> bool \<Rightarrow> world \<times> bool \<Rightarrow> bool" where
  "world_step w w' \<Longrightarrow>
   manager_run (w, overtaken) (w', if stop (mgr w') = stop (mgr w) then overtaken else in_flight w')"

definition world_init :: "u64 \<Rightarrow> bool \<Rightarrow> world" where
  "world_init timeout inhibit = \<lparr>mgr = manager_new timeout inhibit, launching = [], starting = []\<rparr>"

section \<open>The life cycle invariant\<close>

text \<open>The contexts of all sessions there are, in the manager or in flight.\<close>

definition live_contexts :: "world \<Rightarrow> session_context list" where
  "live_contexts w =
     (case session (mgr w) of Some s \<Rightarrow> [session_context_of s] | None \<Rightarrow> []) @
     map is_context (launching w) @ map (\<lambda>(s, _). ls_context s) (starting w)"

definition lifecycle_ok :: "world \<Rightarrow> bool" where
  "lifecycle_ok w \<longleftrightarrow>
     (let m = mgr w in
      length (live_contexts w) \<le> 1 \<and>
      (\<forall>c \<in> set (live_contexts w). \<exists>chan. keys c = Rx chan \<and> keys_tx m = Some chan) \<and>
      (keys_tx m = None \<longleftrightarrow> stop_watcher m = None) \<and>
      (\<forall>w. stop_watcher m = Some w \<longrightarrow> w = stop m) \<and>
      (video_context m = None \<longleftrightarrow> audio_context m = None) \<and>
      (video_context m \<noteq> None \<longrightarrow> (\<exists>l. session m = Some (Launched l))) \<and>
      (video_start_notify m \<noteq> None \<longrightarrow> (\<exists>a. session m = Some (Active a))) \<and>
      (video_start_notify m = None \<longleftrightarrow> audio_start_notify m = None) \<and>
      (\<forall>s. session m = Some (Initialized s) \<longrightarrow> is_stop s = stop m) \<and>
      (\<forall>s \<in> set (launching w). is_stop s = stop m) \<and>
      (\<forall>(s, vc, ac, st) \<in> set (starting w). st = stop m))"

lemma lifecycle_init: "lifecycle_ok (world_init timeout inhibit)"
  by (simp add: lifecycle_ok_def world_init_def manager_new_def live_contexts_def)

text \<open>After a reset nothing of the session is left.\<close>

lemma reset_session_idle:
  assumes "reset_session m = (m', e)"
  shows "session m' = None" "keys_tx m' = None" "stop_watcher m' = None" "video_context m' = None"
    "audio_context m' = None" "video_start_notify m' = None" "audio_start_notify m' = None"
    "stop m' = next_stop m" "next_chan m' = next_chan m"
    "stream_timeout m' = stream_timeout m" "inhibit_sleep m' = inhibit_sleep m"
  using assms by (auto simp: reset_session_def)

lemma lifecycle_reset:
  "reset_session m = (mgr w, e) \<Longrightarrow> launching w = [] \<Longrightarrow> starting w = [] \<Longrightarrow> lifecycle_ok w"
  by (simp add: lifecycle_ok_def live_contexts_def reset_session_idle)

lemma world_mgr_id [simp]: "w\<lparr>mgr := mgr w\<rparr> = w"
  by simp

lemma initialize_session_accepts:
  "snd (initialize_session a v c ctx m) = Inr () \<Longrightarrow> session m = None \<and> keys_tx m = None"
  unfolding initialize_session_def by (cases "session m \<noteq> None \<or> keys_tx m \<noteq> None") simp_all

lemma lifecycle_initialize:
  assumes "initialize_session a v c context (mgr w) = ((m, e), r)" and "lifecycle_ok w"
  shows "lifecycle_ok (w\<lparr>mgr := m\<rparr>)"
proof (cases "keys_tx (mgr w)")
  case None
  then have "live_contexts w = []" using assms(2)
    by (cases "live_contexts w") (auto simp: lifecycle_ok_def Let_def)
  with assms None show ?thesis
    by (auto simp: initialize_session_def lifecycle_ok_def live_contexts_def spawn_session_watchdog_def
        initialized_session_new_def Let_def split: session_keys.splits if_splits option.splits)
qed (use assms in \<open>auto simp: initialize_session_def\<close>)

lemma lifecycle_session_taken:
  assumes "lifecycle_ok w" and "session (mgr w) = Some s"
  shows "launching w = []" "starting w = []"
    "\<exists>chan. keys (session_context_of s) = Rx chan \<and> keys_tx (mgr w) = Some chan"
  using assms by (auto simp: lifecycle_ok_def live_contexts_def Let_def)

lemma lifecycle_watched: "lifecycle_ok w \<Longrightarrow> keys_tx (mgr w) \<noteq> None \<Longrightarrow> stop_watcher (mgr w) = Some (stop (mgr w))"
  unfolding lifecycle_ok_def Let_def by (metis option.exhaust)

lemma lifecycle_launch_take:
  assumes "launch_begin (mgr w) = (m, Inr s)" and "lifecycle_ok w"
  shows "lifecycle_ok (w\<lparr>mgr := m, launching := s # launching w\<rparr>)"
proof -
  have i: "session (mgr w) = Some (Initialized s)" "m = (mgr w)\<lparr>session := None\<rparr>"
    using assms(1) by (auto simp: launch_begin_def split: option.splits session_state.splits)
  with lifecycle_session_taken [OF assms(2) i(1)] assms(2) show ?thesis
    by (auto simp: lifecycle_ok_def live_contexts_def Let_def)
qed

lemma lifecycle_in_flight:
  assumes "lifecycle_ok w"
  shows "s \<in> set (launching w) \<Longrightarrow> launching w = [s] \<and> starting w = [] \<and> session (mgr w) = None"
    and "x \<in> set (starting w) \<Longrightarrow> starting w = [x] \<and> launching w = [] \<and> session (mgr w) = None"
proof -
  have len: "(if session (mgr w) = None then 0 else 1) + length (launching w) + length (starting w) \<le> 1"
    using assms by (auto simp: lifecycle_ok_def live_contexts_def Let_def split: option.splits)
  show "s \<in> set (launching w) \<Longrightarrow> launching w = [s] \<and> starting w = [] \<and> session (mgr w) = None"
    using len by (cases "launching w") (auto split: if_splits)
  show "x \<in> set (starting w) \<Longrightarrow> starting w = [x] \<and> launching w = [] \<and> session (mgr w) = None"
    using len by (cases "starting w") (auto split: if_splits)
qed

lemma initialized_launch_context:
  "initialized_launch ready path ok s = (e, Inr l) \<Longrightarrow> ls_context l = is_context s"
  by (auto simp: initialized_launch_def split: option.splits if_splits)

lemma launched_start_context:
  "launched_start env t vc ac st i s = (e, Inr (a, n)) \<Longrightarrow> as_context a = ls_context s"
  by (auto simp: launched_start_def split: option.splits)

lemma lifecycle_launch_done:
  assumes "s \<in> set (launching w)" and "initialized_launch ready path ok s = (e, result)"
    and "launch_end result (mgr w) = ((m, e'), r)" and ok: "lifecycle_ok w"
  shows "lifecycle_ok (w\<lparr>mgr := m, launching := remove1 s (launching w)\<rparr>)"
proof (cases result)
  case (Inl f)
  then have r: "reset_session (mgr w) = (m, e')" using assms(3) by (simp add: launch_end_def)
  show ?thesis
    by (rule lifecycle_reset) (use r lifecycle_in_flight(1) [OF ok assms(1)] in auto)
next
  case (Inr l)
  then have m: "m = (mgr w)\<lparr>session := Some (Launched l)\<rparr>" using assms(3) by (simp add: launch_end_def)
  have c: "ls_context l = is_context s" using assms(2) Inr by (simp add: initialized_launch_context)
  from lifecycle_in_flight(1) [OF ok assms(1)] ok show ?thesis
    by (auto simp: m c lifecycle_ok_def live_contexts_def Let_def)
qed

lemma lifecycle_launch_dropped:
  assumes "s \<in> set (launching w)" and ok: "lifecycle_ok w"
  shows "lifecycle_ok (w\<lparr>launching := remove1 s (launching w)\<rparr>)"
  using lifecycle_in_flight(1) [OF ok assms(1)] ok
  by (simp add: lifecycle_ok_def live_contexts_def Let_def, elim conjE, intro conjI) simp_all

lemma lifecycle_start_done:
  assumes "(s, vc, ac, st) \<in> set (starting w)" and "start_end env s vc ac st (mgr w) = ((m, e), r)" and ok: "lifecycle_ok w"
  shows "lifecycle_ok (w\<lparr>mgr := m, starting := remove1 (s, vc, ac, st) (starting w)\<rparr>)"
proof -
  note flight = lifecycle_in_flight(2) [OF ok assms(1)]
  obtain e1 res where l: "launched_start env (stream_timeout (mgr w)) vc ac st (inhibit_sleep (mgr w)) s = (e1, res)"
    by (metis surj_pair)
  show ?thesis
  proof (cases res)
    case (Inl f)
    then obtain e2 where r: "reset_session (mgr w) = (m, e2)" using assms(2) l
      by (auto simp: start_end_def split: prod.splits)
    show ?thesis
      by (rule lifecycle_reset) (use r flight in auto)
  next
    case (Inr x)
    then obtain a vn an where x: "res = Inr (a, vn, an)" by (cases x) auto
    have c: "as_context a = ls_context s" using l x launched_start_context by blast
    have "m = (mgr w)\<lparr>session := Some (Active a), video_start_notify := Some vn, audio_start_notify := Some an\<rparr>"
      using assms(2) l x by (simp add: start_end_def)
    with flight ok show ?thesis by (auto simp: c lifecycle_ok_def live_contexts_def Let_def)
  qed
qed

lemma lifecycle_start_begin:
  assumes "start_begin (mgr w) = ((m, e), nx)" and ok: "lifecycle_ok w"
  shows "lifecycle_ok (case nx of Reply r \<Rightarrow> w\<lparr>mgr := m\<rparr>
    | StartStreams s vc ac st \<Rightarrow> w\<lparr>mgr := m, starting := (s, vc, ac, st) # starting w\<rparr>)"
proof (cases "session (mgr w)")
  case None
  then have "m = (mgr w)\<lparr>video_context := None, audio_context := None\<rparr>" "nx = Reply (Inl Err)"
    using assms(1) by (simp_all add: start_begin_def Let_def)
  then show ?thesis using ok None by (simp add: lifecycle_ok_def live_contexts_def Let_def) blast
next
  case (Some s)
  note t = lifecycle_session_taken [OF ok Some]
  show ?thesis
  proof (cases s)
    case (Launched l)
    with assms Some t show ?thesis
      by (cases "video_context (mgr w)"; cases "audio_context (mgr w)")
        (auto simp: start_begin_def lifecycle_ok_def live_contexts_def Let_def)
  qed (use assms Some t in \<open>auto simp: start_begin_def lifecycle_ok_def live_contexts_def Let_def\<close>)
qed

lemma lifecycle_stop:
  assumes "stop_session in_time (mgr w) = ((m, e), r)" and ok: "lifecycle_ok w"
  shows "lifecycle_ok (w\<lparr>mgr := m\<rparr>)"
proof (cases "session (mgr w)")
  case None
  then show ?thesis using assms by (auto simp: stop_session_def stop_begin_def)
next
  case (Some s)
  obtain m' e' where r: "reset_session (mgr w) = (m', e')" by (metis surj_pair)
  then have "m = m'" using assms(1) Some
    by (auto simp: stop_session_def stop_begin_def Let_def split: prod.splits)
  with r lifecycle_session_taken [OF ok Some] show ?thesis by (intro lifecycle_reset) auto
qed

lemma lifecycle_announce:
  "set_stream_context vc ac (mgr w) = (m, r) \<Longrightarrow> lifecycle_ok w \<Longrightarrow> lifecycle_ok (w\<lparr>mgr := m\<rparr>)"
  by (auto simp: set_stream_context_def lifecycle_ok_def live_contexts_def Let_def
      split: option.splits session_state.splits)

lemma lifecycle_watchdog:
  assumes "watchdog_wake g watched (mgr w) = (m, e)" and "\<not> in_flight w"
  shows "lifecycle_ok (w\<lparr>mgr := m\<rparr>)"
  using assms by (auto simp: watchdog_wake_def in_flight_def Let_def split: prod.splits intro: lifecycle_reset)

lemma lifecycle_step:
  "world_step w w' \<Longrightarrow> lifecycle_ok w \<Longrightarrow>
   lifecycle_ok w' \<or> in_flight w' \<and> (\<exists>g watched m e. watchdog_wake g watched (mgr w) = (m, e) \<and> w' = w\<lparr>mgr := m\<rparr>)"
proof (induction rule: world_step.induct)
  case (watchdog w watched g m e)
  then show ?case using lifecycle_watchdog [of g watched w m e] by (cases "in_flight w") (auto simp: in_flight_def)
next
  case (start_reply w m e r)
  then show ?case using lifecycle_start_begin by fastforce
next
  case (start_take w m e s vc ac st)
  then show ?case using lifecycle_start_begin by fastforce
next
  case (launch_reject w m err)
  then have "m = mgr w" by (auto simp: launch_begin_def split: option.splits session_state.splits)
  with launch_reject show ?case by simp
next
  case (launch_dropped s w)
  then show ?case by (intro disjI1) (rule lifecycle_launch_dropped)
qed (rule disjI1, (rule lifecycle_initialize lifecycle_launch_take lifecycle_launch_done lifecycle_announce
    lifecycle_start_done lifecycle_stop; assumption))+

subsection \<open>What holds in every run\<close>

text \<open>
  Without any condition: the manager has a watchdog, that of the current shutdown manager, exactly when it has a key
  sender, and no two sessions there are share a key channel.
\<close>

definition channels_ok :: "world \<Rightarrow> bool" where
  "channels_ok w \<longleftrightarrow> (\<forall>c \<in> set (live_contexts w). \<exists>chan. keys c = Rx chan \<and> chan < next_chan (mgr w)) \<and>
     distinct (map keys (live_contexts w))"

definition watched_ok :: "manager \<Rightarrow> bool" where
  "watched_ok m \<longleftrightarrow> (keys_tx m = None \<longleftrightarrow> stop_watcher m = None) \<and> (\<forall>w. stop_watcher m = Some w \<longrightarrow> w = stop m) \<and>
     stop m < next_stop m"

lemma submset_distinct:
  assumes "mset xs \<subseteq># mset ys" and "distinct (map f ys)"
  shows "distinct (map f xs)"
proof -
  obtain zs where "mset ys = mset (xs @ zs)"
    using assms(1) by (metis mset_append mset_subset_eq_exists_conv ex_mset)
  then have "mset (map f ys) = mset (map f (xs @ zs))" by simp
  then have "distinct (map f (xs @ zs))" using assms(2) mset_eq_imp_distinct_iff by blast
  then show ?thesis by simp
qed

lemma channels_less:
  assumes "channels_ok w" and "mset (live_contexts w') \<subseteq># mset (live_contexts w)" and "next_chan (mgr w) \<le> next_chan (mgr w')"
  shows "channels_ok w'"
proof -
  have "set (live_contexts w') \<subseteq> set (live_contexts w)" using assms(2) by (metis set_mset_mono set_mset_mset)
  then have "\<exists>chan. keys c = Rx chan \<and> chan < next_chan (mgr w')" if "c \<in> set (live_contexts w')" for c
    using assms(1,3) that unfolding channels_ok_def by (meson subsetD less_le_trans)
  then show ?thesis using assms(1,2) submset_distinct unfolding channels_ok_def by blast
qed

lemma live_mset:
  "mset (live_contexts w) = (case session (mgr w) of Some s \<Rightarrow> {#session_context_of s#} | None \<Rightarrow> {#}) +
     image_mset is_context (mset (launching w)) + image_mset (\<lambda>(s, _). ls_context s) (mset (starting w))"
  by (simp add: live_contexts_def split: option.split)

text \<open>Every step but a new initialization only drops contexts or moves them.\<close>

definition drops_contexts :: "world \<Rightarrow> world \<Rightarrow> bool" where
  "drops_contexts w w' \<longleftrightarrow> mset (live_contexts w') \<subseteq># mset (live_contexts w) \<and> next_chan (mgr w') = next_chan (mgr w) \<and>
     (watched_ok (mgr w) \<longrightarrow> watched_ok (mgr w'))"

lemma reset_watched: "reset_session m = (m', e) \<Longrightarrow> watched_ok m'"
  by (auto simp: reset_session_def watched_ok_def)

lemma drops_reset:
  assumes "reset_session (mgr w) = (mgr w', e)" and "mset (launching w') \<subseteq># mset (launching w)" and "mset (starting w') \<subseteq># mset (starting w)"
  shows "drops_contexts w w'"
proof -
  have "mset (live_contexts w') =
      image_mset is_context (mset (launching w')) + image_mset (\<lambda>(s, _). ls_context s) (mset (starting w'))"
    using reset_session_idle(1) [OF assms(1)] by (simp add: live_mset)
  also have "\<dots> \<subseteq># image_mset is_context (mset (launching w)) + image_mset (\<lambda>(s, _). ls_context s) (mset (starting w))"
    using assms(2,3) by (intro subset_mset.add_mono image_mset_subseteq_mono)
  also have "\<dots> \<subseteq># mset (live_contexts w)" by (simp add: live_mset add.assoc)
  finally show ?thesis using reset_session_idle(9) [OF assms(1)] reset_watched [OF assms(1)] by (simp add: drops_contexts_def)
qed

lemma drops_moved:
  assumes "x \<in> set xs" and "f x = c"
  shows "add_mset c (image_mset f (mset (remove1 x xs))) = image_mset f (mset xs)"
  using assms by (metis image_mset_add_mset insert_DiffM mset_remove1 set_mset_mset)

lemma drops_launch_done:
  assumes "s \<in> set (launching w)" and "initialized_launch ready path ok s = (e, result)"
    and "launch_end result (mgr w) = ((m, e'), r)"
  shows "drops_contexts w (w\<lparr>mgr := m, launching := remove1 s (launching w)\<rparr>)"
proof (cases result)
  case (Inl f)
  then show ?thesis using assms(3) by (intro drops_reset [of w _ e']) (simp_all add: launch_end_def)
next
  case (Inr l)
  then have m: "m = (mgr w)\<lparr>session := Some (Launched l)\<rparr>" using assms(3) by (simp add: launch_end_def)
  have c: "ls_context l = is_context s" using assms(2) Inr by (simp add: initialized_launch_context)
  show ?thesis using drops_moved [OF assms(1), of is_context "is_context s"]
    by (simp add: drops_contexts_def live_mset m c watched_ok_def)
qed

lemma drops_start_done:
  assumes "(s, vc, ac, st) \<in> set (starting w)" and "start_end env s vc ac st (mgr w) = ((m, e), r)"
  shows "drops_contexts w (w\<lparr>mgr := m, starting := remove1 (s, vc, ac, st) (starting w)\<rparr>)"
proof -
  obtain e1 res where l: "launched_start env (stream_timeout (mgr w)) vc ac st (inhibit_sleep (mgr w)) s = (e1, res)"
    by (metis surj_pair)
  show ?thesis
  proof (cases res)
    case (Inl f)
    then obtain e2 where "reset_session (mgr w) = (m, e2)" using assms(2) l by (auto simp: start_end_def split: prod.splits)
    then show ?thesis by (intro drops_reset [of w _ e2]) simp_all
  next
    case (Inr x)
    then obtain a vn an where x: "res = Inr (a, vn, an)" by (cases x) auto
    have c: "as_context a = ls_context s" using l x launched_start_context by blast
    have m: "m = (mgr w)\<lparr>session := Some (Active a), video_start_notify := Some vn, audio_start_notify := Some an\<rparr>"
      using assms(2) l x by (simp add: start_end_def)
    show ?thesis using drops_moved [OF assms(1), of "\<lambda>(s, _). ls_context s" "ls_context s"]
      by (simp add: drops_contexts_def live_mset m c watched_ok_def)
  qed
qed

lemma drops_stop:
  assumes "stop_session in_time (mgr w) = ((m, e), r)"
  shows "drops_contexts w (w\<lparr>mgr := m\<rparr>)"
proof (cases "session (mgr w)")
  case None
  then show ?thesis using assms by (auto simp: stop_session_def stop_begin_def drops_contexts_def)
next
  case (Some s)
  obtain m' e' where r: "reset_session (mgr w) = (m', e')" by (metis surj_pair)
  then have "m = m'" using assms Some by (auto simp: stop_session_def stop_begin_def Let_def split: prod.splits)
  with r show ?thesis by (intro drops_reset [of w _ e']) simp_all
qed

lemma drops_step:
  assumes "world_step w w'"
  shows "drops_contexts w w' \<or> (\<exists>a v c context m e r. initialize_session a v c context (mgr w) = ((m, e), r) \<and> w' = w\<lparr>mgr := m\<rparr>)"
  using assms
proof (induction rule: world_step.induct)
  case (launch_take w m s)
  then show ?case
    by (auto simp: launch_begin_def drops_contexts_def live_mset watched_ok_def split: option.splits session_state.splits)
next
  case (launch_done s w ready path ok e result m e' r)
  then show ?case using drops_launch_done by blast
next
  case (launch_dropped s w)
  have "mset (remove1 s (launching w)) \<subseteq># mset (launching w)" by simp
  then show ?case by (simp add: drops_contexts_def live_mset image_mset_subseteq_mono)
next
  case (start_reply w m e r)
  then show ?case
    by (auto simp: start_begin_def drops_contexts_def live_mset watched_ok_def Let_def split: option.splits session_state.splits)
next
  case (start_take w m e s vc ac st)
  then show ?case
    by (auto simp: start_begin_def drops_contexts_def live_mset watched_ok_def Let_def split: option.splits session_state.splits)
next
  case (start_done s vc ac st w env m e r)
  then show ?case using drops_start_done by blast
next
  case (stop in_time w m e r)
  then show ?case using drops_stop by blast
next
  case (watchdog w watched g m e)
  then obtain e' where "reset_session (mgr w) = (m, e')" by (auto simp: watchdog_wake_def Let_def split: prod.splits)
  then show ?case by (intro disjI1 drops_reset [of w _ e']) simp_all
next
  case (initialize a v c ctx w m e r)
  then show ?case by blast
next
  case (launch_reject w m err)
  then show ?case by (auto simp: launch_begin_def drops_contexts_def split: option.splits session_state.splits)
next
  case (announce vc ac w m r)
  then show ?case
    by (auto simp: set_stream_context_def drops_contexts_def live_mset watched_ok_def split: option.splits session_state.splits)
qed

lemma channels_initialize:
  assumes "initialize_session a v c context (mgr w) = ((m, e), r)" and "channels_ok w" and "watched_ok (mgr w)"
  shows "channels_ok (w\<lparr>mgr := m\<rparr>) \<and> watched_ok m"
proof (cases "r = Inr ()")
  case True
  then obtain d where d: "keys context = Keys d" "session (mgr w) = None" "keys_tx (mgr w) = None"
    and m: "m = (mgr w)\<lparr>next_chan := next_chan (mgr w) + 1, keys_tx := Some (next_chan (mgr w)), stop_watcher := Some (stop (mgr w)),
      session := Some (Initialized \<lparr>is_context = context\<lparr>keys := Rx (next_chan (mgr w))\<rparr>, is_stop = stop (mgr w)\<rparr>)\<rparr>"
    using assms(1,3)
    by (auto simp: initialize_session_def initialized_session_new_def spawn_session_watchdog_def watched_ok_def Let_def
        split: session_keys.splits if_splits)
  have live: "live_contexts (w\<lparr>mgr := m\<rparr>) = context\<lparr>keys := Rx (next_chan (mgr w))\<rparr> # live_contexts w"
    using d(2) by (simp add: live_contexts_def m)
  have "\<forall>c \<in> set (live_contexts w). \<exists>chan. keys c = Rx chan \<and> chan < next_chan (mgr w)"
    using assms(2) by (simp add: channels_ok_def)
  then have "Rx (next_chan (mgr w)) \<notin> set (map keys (live_contexts w))" by fastforce
  then show ?thesis using assms(2,3) unfolding channels_ok_def live by (auto simp: m watched_ok_def less_Suc_eq)
next
  case False
  then have "m = (mgr w)\<lparr>next_chan := next_chan m\<rparr> \<and> next_chan (mgr w) \<le> next_chan m"
    using assms(1) by (auto simp: initialize_session_def Let_def split: session_keys.splits if_splits sum.splits prod.splits)
  then obtain n where m: "m = (mgr w)\<lparr>next_chan := n\<rparr>" "next_chan (mgr w) \<le> n" by blast
  have "channels_ok (w\<lparr>mgr := m\<rparr>)" by (rule channels_less [OF assms(2)]) (simp_all add: live_contexts_def m)
  then show ?thesis using assms(3) by (simp add: m watched_ok_def)
qed

text \<open>The invariant of a run: the ghost flag tells when the strict life cycle may be broken.\<close>

definition run_ok :: "world \<times> bool \<Rightarrow> bool" where
  "run_ok x \<longleftrightarrow> channels_ok (fst x) \<and> watched_ok (mgr (fst x)) \<and> (\<not> snd x \<longrightarrow> lifecycle_ok (fst x))"

lemma run_ok_init: "run_ok (world_init timeout inhibit, False)"
  using lifecycle_init
  by (simp add: run_ok_def) (simp add: world_init_def manager_new_def channels_ok_def watched_ok_def live_contexts_def)

text \<open>A step that gives the manager another shutdown manager has reset it.\<close>

lemma stop_changed_reset:
  "world_step w w' \<Longrightarrow> stop (mgr w') \<noteq> stop (mgr w) \<Longrightarrow> \<exists>e. reset_session (mgr w) = (mgr w', e)"
proof (induction rule: world_step.induct)
  case (initialize a v c ctx w m e r)
  then show ?case
    by (auto simp: initialize_session_def initialized_session_new_def spawn_session_watchdog_def Let_def
        split: session_keys.splits if_splits)
next
  case (start_done s vc ac st w env m e r)
  then show ?case by (auto simp: start_end_def Let_def split: sum.splits prod.splits)
next
  case (stop in_time w m e r)
  then show ?case by (auto simp: stop_session_def stop_begin_def Let_def split: option.splits prod.splits)
next
  case (watchdog w watched g m e)
  then show ?case by (auto simp: watchdog_wake_def Let_def split: prod.splits)
qed (auto simp: launch_begin_def launch_end_def set_stream_context_def start_begin_def Let_def
    split: option.splits session_state.splits sum.splits)

lemma run_ok_step:
  assumes "manager_run x y" and "run_ok x"
  shows "run_ok y"
proof -
  obtain w w' b where step: "world_step w w'" and x: "x = (w, b)"
    and y: "y = (w', if stop (mgr w') = stop (mgr w) then b else in_flight w')"
    using assms(1) by (auto elim: manager_run.cases)
  have ok: "channels_ok w" "watched_ok (mgr w)" using assms(2) by (simp_all add: run_ok_def x)
  have "channels_ok w' \<and> watched_ok (mgr w')"
    using drops_step [OF step]
  proof (elim disjE exE conjE)
    assume "drops_contexts w w'"
    then show ?thesis using channels_less [OF ok(1)] ok(2) unfolding drops_contexts_def by simp
  next
    fix a v c ctx m e r
    assume "initialize_session a v c ctx (mgr w) = ((m, e), r)" "w' = w\<lparr>mgr := m\<rparr>"
    then show ?thesis using channels_initialize ok by simp
  qed
  moreover have "lifecycle_ok w'" if "\<not> snd y"
  proof (cases "stop (mgr w') = stop (mgr w)")
    case True
    then have "lifecycle_ok w" using that assms(2) by (simp add: run_ok_def x y)
    moreover have "stop m \<noteq> stop (mgr w)" if "watchdog_wake g watched (mgr w) = (m, e)" for g watched m e
      using that ok(2) by (auto simp: watchdog_wake_def reset_session_def watched_ok_def Let_def)
    ultimately show ?thesis using lifecycle_step [OF step] True by fastforce
  next
    case False
    then have "\<not> in_flight w'" using that by (simp add: y)
    then show ?thesis using stop_changed_reset [OF step False] lifecycle_reset by (auto simp: in_flight_def)
  qed
  ultimately show ?thesis by (simp add: run_ok_def y)
qed

interpretation lifecycle: transition_system "\<lambda>x. x = (world_init timeout inhibit, False)" manager_run run_ok
  for timeout inhibit
  by unfold_locales (auto simp: run_ok_init run_ok_step)

lemma lifecycle_reached:
  "manager_run\<^sup>*\<^sup>* (world_init timeout inhibit, False) (w, False) \<Longrightarrow> lifecycle_ok w"
  using lifecycle.reachable_inv [OF refl] by (fastforce simp: run_ok_def)

section \<open>The abstract life cycle\<close>








section \<open>Properties\<close>

text \<open>
  C13. The session life cycle. In every reachable state the manager has a watchdog, that of the current shutdown
  manager, exactly when it has a key sender; no two sessions, in the manager or in flight, share a key channel; and a
  new session is initialized only when the manager holds none. As long as the last reset did not come while a launch
  or a start was in flight (\<open>overtaken\<close> is false) the life cycle is strict: there is at most one session, counting those
  in flight, the session in the manager is watched, its key channel is the one the manager sends new keys to, and a
  new session is initialized only when there is none anywhere. Only the watchdog can overtake a launch or a start, and
  the next reset with nothing in flight makes the life cycle strict again; a run at the end of this theory
  shows that the condition is needed.
\<close>

theorem session_lifecycle:
  assumes "manager_run\<^sup>*\<^sup>* (world_init timeout inhibit, False) (w, overtaken)"
  shows "(keys_tx (mgr w) = None \<longleftrightarrow> stop_watcher (mgr w) = None) \<and>
    (\<forall>watched. stop_watcher (mgr w) = Some watched \<longrightarrow> watched = stop (mgr w)) \<and>
    distinct (map keys (live_contexts w)) \<and>
    (\<forall>a v c context. snd (initialize_session a v c context (mgr w)) = Inr () \<longrightarrow> session (mgr w) = None) \<and>
    (\<not> overtaken \<longrightarrow>
      length (live_contexts w) \<le> 1 \<and>
      (\<forall>s. session (mgr w) = Some s \<longrightarrow> stop_watcher (mgr w) = Some (stop (mgr w)) \<and>
        (\<exists>chan. keys (session_context_of s) = Rx chan \<and> keys_tx (mgr w) = Some chan)) \<and>
      (\<forall>a v c context. snd (initialize_session a v c context (mgr w)) = Inr () \<longrightarrow> live_contexts w = []))"
proof -
  have inv: "run_ok (w, overtaken)" by (rule lifecycle.reachable_inv [OF refl assms])
  have strict: "length (live_contexts w) \<le> 1 \<and>
      (\<forall>s. session (mgr w) = Some s \<longrightarrow> stop_watcher (mgr w) = Some (stop (mgr w)) \<and>
        (\<exists>chan. keys (session_context_of s) = Rx chan \<and> keys_tx (mgr w) = Some chan)) \<and>
      (\<forall>a v c context. snd (initialize_session a v c context (mgr w)) = Inr () \<longrightarrow> live_contexts w = [])" if "\<not> overtaken"
  proof -
    have ok: "lifecycle_ok w" using inv that by (simp add: run_ok_def)
    have idle: "keys_tx (mgr w) = None \<Longrightarrow> live_contexts w = []"
      using ok by (cases "live_contexts w") (auto simp: lifecycle_ok_def Let_def)
    have "live_contexts w = []" if "snd (initialize_session a v c ctx (mgr w)) = Inr ()" for a v c ctx
      by (rule idle) (simp add: initialize_session_accepts [OF that])
    moreover have "session (mgr w) = Some s \<longrightarrow> stop_watcher (mgr w) = Some (stop (mgr w)) \<and>
        (\<exists>chan. keys (session_context_of s) = Rx chan \<and> keys_tx (mgr w) = Some chan)" for s
      using lifecycle_session_taken(3) [OF ok, of s] lifecycle_watched [OF ok] by auto
    moreover have "length (live_contexts w) \<le> 1" using ok unfolding lifecycle_ok_def Let_def by (rule conjunct1)
    ultimately show ?thesis by blast
  qed
  show ?thesis
    using inv strict initialize_session_accepts unfolding run_ok_def channels_ok_def watched_ok_def fst_conv by blast
qed


text \<open>
  New keys reach the running streams: when a client resumes a streaming session that is not shutting
  down, the keys are sent on the channel that the session's streams were started with.
\<close>

theorem resume_keys_reach_streams:
  assumes "manager_run\<^sup>*\<^sup>* (world_init timeout inhibit, False) (w, False)" and "session (mgr w) = Some (Active a)"
  shows "\<exists>chan. keys (as_context a) = Rx chan \<and> update_keys False k (mgr w) = ([SendKeys chan k], Inr ())"
  using lifecycle_session_taken(3) [OF lifecycle_reached [OF assms(1)] assms(2)] assms(2)
  by (auto simp: update_keys_def)

text \<open>
  Stopping gives a fresh manager: after a stop of a session the user's shutdown has been triggered on
  the old shutdown manager, an unfinished shutdown stops the whole application, and the next session can
  be initialized, under a new shutdown manager with a watchdog of its own.
\<close>

theorem stop_then_initialize:
  assumes "session m \<noteq> None" and "stop_session in_time m = ((m', effects), r)" and "keys context = Keys data"
  shows "TriggerShutdown (stop m) UserStopped \<in> set effects \<and>
    (\<not> in_time \<longrightarrow> TriggerGlobalShutdown \<in> set effects \<and> r = Inl Err) \<and>
    (\<exists>m'' e. initialize_session True True True context m' = ((m'', e), Inr ()) \<and>
       stop m'' = next_stop m \<and> stop_watcher m'' = Some (next_stop m) \<and> SpawnWatchdog (next_stop m) \<in> set e)"
proof -
  obtain n e where reset: "reset_session m = (n, e)" by (metis surj_pair)
  then have "m' = n" and eff: "TriggerShutdown (stop m) UserStopped \<in> set effects"
    "\<not> in_time \<longrightarrow> TriggerGlobalShutdown \<in> set effects \<and> r = Inl Err"
    using assms(1,2) by (auto simp: stop_session_def stop_begin_def wait_for_session_shutdown_def Let_def split: if_splits)
  with reset_session_idle [OF reset] assms(3) show ?thesis
    by (auto simp: initialize_session_def initialized_session_new_def spawn_session_watchdog_def Let_def)
qed

text \<open>
  PLAY before ANNOUNCE loses the session: the launched session is dropped and the call fails without a
  reset. From then on every operation is rejected and changes nothing, a new initialization included, and
  a stop does nothing and reports success; only the watchdog gets the manager out of this state.
\<close>

theorem play_before_announce_loses_session:
  assumes "manager_run\<^sup>*\<^sup>* (world_init timeout inhibit, False) (w, False)" and "session (mgr w) = Some (Launched l)"
    and "video_context (mgr w) = None"
  shows "\<exists>m. start_begin (mgr w) = ((m, []), Reply (Inl Err)) \<and> session m = None \<and>
    initialize_session a v c context m = ((m, []), Inl Err) \<and> launch_begin m = (m, Inl Err) \<and>
    start_begin m = ((m, []), Reply (Inl Err)) \<and> set_stream_context vc ac m = (m, Inl Err) \<and>
    update_keys sd k m = ([], Inl Err) \<and> stop_session t m = ((m, []), Inr ())"
proof -
  have ok: "lifecycle_ok w" by (rule lifecycle_reached [OF assms(1)])
  let ?m = "(mgr w)\<lparr>video_context := None, audio_context := None, session := None\<rparr>"
  have "start_begin (mgr w) = ((?m, []), Reply (Inl Err))" using assms(2,3) by (simp add: start_begin_def)
  moreover have "keys_tx ?m \<noteq> None" using lifecycle_session_taken(3) [OF ok assms(2)] by auto
  ultimately show ?thesis
    by (intro exI [of _ ?m])
      (auto simp: initialize_session_def launch_begin_def start_begin_def set_stream_context_def update_keys_def
        stop_session_def stop_begin_def)
qed

section \<open>Concrete runs\<close>

definition sample_context :: session_context where
  "sample_context = \<lparr>application = application_config_default, application_id = 1, resolution = (1920, 1080),
     refresh_rate = 60, keys = Keys \<lparr>remote_input_key = replicate 16 3, remote_input_key_id = 1\<rparr>,
     audio_channels = Stereo, audio_channel_mask = 3, sc_hdr = False\<rparr>"

definition sample_video :: video_stream_context where
  "sample_video = \<lparr>width = 1920, height = 1080, fps = 60, packet_size = 1024, bitrate = 10000000,
     minimum_fec_packets = 2, video_qos = False, video_format = Hevc, dynamic_range = Sdr,
     chroma_sampling_type = Yuv420, max_reference_frames = 1, full_range = False, encrypt_video = False\<rparr>"

definition sample_audio :: audio_stream_context where
  "sample_audio = \<lparr>packet_duration_ms = 5, audio_qos = False, audio_config = audio_config_default,
     encrypt_audio = True\<rparr>"

definition sample_initialized :: initialized_session where
  "sample_initialized = \<lparr>is_context = sample_context\<lparr>keys := Rx 0\<rparr>, is_stop = 0\<rparr>"

definition sample_launched :: launched_session where
  "sample_launched = \<lparr>ls_context = sample_context\<lparr>keys := Rx 0\<rparr>, ls_hdr = False\<rparr>"

definition sample_manager :: "session_state option \<Rightarrow> manager" where
  "sample_manager s = (manager_new 60 True)\<lparr>session := s, keys_tx := Some 0, stop_watcher := Some 0, next_chan := 1\<rparr>"

abbreviation sample_world :: "session_state option \<Rightarrow> world" where
  "sample_world s \<equiv> \<lparr>mgr = sample_manager s, launching = [], starting = []\<rparr>"

definition sample_active :: active_session where
  "sample_active = \<lparr>as_context = sample_context\<lparr>keys := Rx 0\<rparr>, sleep_inhibitor = True\<rparr>"

abbreviation sample_active_world :: world where
  "sample_active_world \<equiv>
     \<lparr>mgr = (sample_manager (Some (Active sample_active)))\<lparr>video_start_notify := Some 1, audio_start_notify := Some 2\<rparr>,
      launching = [], starting = []\<rparr>"

lemmas sample_defs = sample_manager_def sample_initialized_def sample_launched_def sample_active_def manager_new_def

lemma run_on:
  "manager_run\<^sup>*\<^sup>* x (w, b) \<Longrightarrow> world_step w w' \<Longrightarrow> stop (mgr w') = stop (mgr w) \<Longrightarrow> manager_run\<^sup>*\<^sup>* x (w', b)"
  using manager_run.intros [of w w' b] by (simp add: rtranclp.rtrancl_into_rtrancl)

lemma run_reset:
  "manager_run\<^sup>*\<^sup>* x (w, b) \<Longrightarrow> world_step w w' \<Longrightarrow> stop (mgr w') \<noteq> stop (mgr w) \<Longrightarrow> manager_run\<^sup>*\<^sup>* x (w', in_flight w')"
  using manager_run.intros [of w w' b] by (simp add: rtranclp.rtrancl_into_rtrancl)

lemma sample_initialize:
  "initialize_session True True True sample_context (manager_new 60 True) =
    ((sample_manager (Some (Initialized sample_initialized)),
      [SendKeys 0 \<lparr>remote_input_key = replicate 16 3, remote_input_key_id = 1\<rparr>, SpawnWatchdog 0]), Inr ())"
  by (simp add: initialize_session_def initialized_session_new_def spawn_session_watchdog_def sample_defs
      sample_context_def)

lemma sample_launch:
  "initialized_launch (Some \<lparr>xdisplay = 0, wayland_display = ''wayland-1'', ready_hdr = False\<rparr>) [] True sample_initialized =
    (fst (initialized_launch (Some \<lparr>xdisplay = 0, wayland_display = ''wayland-1'', ready_hdr = False\<rparr>) [] True sample_initialized),
     Inr sample_launched)"
  by (simp add: initialized_launch_def sample_launched_def sample_initialized_def)

lemma sample_manager_stop [simp]: "stop (sample_manager s) = 0"
  by (simp add: sample_manager_def manager_new_def)

lemma sample_to_launching:
  "manager_run\<^sup>*\<^sup>* (world_init 60 True, False)
    (\<lparr>mgr = sample_manager None, launching = [sample_initialized], starting = []\<rparr>, False)"
proof -
  have 1: "world_step (world_init 60 True) (sample_world (Some (Initialized sample_initialized)))"
    using world_step.initialize [of True True True sample_context "world_init 60 True"] sample_initialize
    by (simp add: world_init_def)
  have 2: "world_step (sample_world (Some (Initialized sample_initialized)))
      \<lparr>mgr = sample_manager None, launching = [sample_initialized], starting = []\<rparr>"
    using world_step.launch_take [of "sample_world (Some (Initialized sample_initialized))" "sample_manager None"]
    by (simp add: launch_begin_def sample_manager_def)
  have "stop (mgr (world_init 60 True)) = 0" by (simp add: world_init_def manager_new_def)
  then have "manager_run\<^sup>*\<^sup>* (world_init 60 True, False) (sample_world (Some (Initialized sample_initialized)), False)"
    using run_on [OF rtranclp.rtrancl_refl 1] by simp
  then show ?thesis by (rule run_on [OF _ 2]) simp
qed

lemma sample_manager_session [simp]: "sample_manager s\<lparr>session := t\<rparr> = sample_manager t"
  by (simp add: sample_manager_def)

lemma sample_launch_done:
  assumes "launching w = [sample_initialized]"
  shows "world_step w (w\<lparr>mgr := (mgr w)\<lparr>session := Some (Launched sample_launched)\<rparr>, launching := []\<rparr>)"
  using world_step.launch_done [of sample_initialized w, OF _ sample_launch] assms by (simp add: launch_end_def)

lemma sample_to_launched:
  "manager_run\<^sup>*\<^sup>* (world_init 60 True, False) (sample_world (Some (Launched sample_launched)), False)"
  using run_on [OF sample_to_launching sample_launch_done] by simp

lemma sample_to_active: "manager_run\<^sup>*\<^sup>* (world_init 60 True, False) (sample_active_world, False)"
proof -
  let ?l = "sample_manager (Some (Launched sample_launched))"
  let ?m = "?l\<lparr>video_context := Some sample_video, audio_context := Some sample_audio\<rparr>"
  let ?env = "\<lparr>video_start = Some 1, audio_start = Some 2, inhibitor_acquired = True\<rparr>"
  let ?f = "(sample_launched, sample_video, sample_audio, 0)"
  have 1: "world_step (sample_world (Some (Launched sample_launched))) \<lparr>mgr = ?m, launching = [], starting = []\<rparr>"
    using world_step.announce [of sample_video sample_audio "sample_world (Some (Launched sample_launched))" ?m]
    by (simp add: set_stream_context_def sample_manager_def)
  have "start_begin ?m = ((sample_manager None, []), StartStreams sample_launched sample_video sample_audio 0)"
    by (simp add: start_begin_def sample_manager_def manager_new_def)
  then have 2: "world_step \<lparr>mgr = ?m, launching = [], starting = []\<rparr>
      \<lparr>mgr = sample_manager None, launching = [], starting = [?f]\<rparr>"
    using world_step.start_take [of "\<lparr>mgr = ?m, launching = [], starting = []\<rparr>"] by simp
  obtain e where "start_end ?env sample_launched sample_video sample_audio 0 (sample_manager None) =
      ((mgr sample_active_world, e), Inr ())"
    by (auto simp: start_end_def launched_start_def sample_defs sample_context_def)
  then have 3: "world_step \<lparr>mgr = sample_manager None, launching = [], starting = [?f]\<rparr> sample_active_world"
    using world_step.start_done [of sample_launched sample_video sample_audio 0
        "\<lparr>mgr = sample_manager None, launching = [], starting = [?f]\<rparr>" ?env] by simp
  have "manager_run\<^sup>*\<^sup>* (world_init 60 True, False) (\<lparr>mgr = ?m, launching = [], starting = []\<rparr>, False)"
    by (rule run_on [OF sample_to_launched 1]) simp
  then have "manager_run\<^sup>*\<^sup>* (world_init 60 True, False) (\<lparr>mgr = sample_manager None, launching = [], starting = [?f]\<rparr>, False)"
    by (rule run_on [OF _ 2]) simp
  then show ?thesis by (rule run_on [OF _ 3]) simp
qed

text \<open>
  C33. A launch that finishes late: when the watchdog wakes during a launch (a compositor that dies while the
  application is being started), the launch still installs its session afterwards. That session has no
  watchdog and no key sender, so a later shutdown of it is never noticed and keys of a resuming client are
  rejected even once it streams.
\<close>

theorem late_launch_unwatched:
  "\<exists>w l. manager_run\<^sup>*\<^sup>* (world_init 60 True, False) (w, True) \<and> session (mgr w) = Some (Launched l) \<and>
    keys_tx (mgr w) = None \<and> stop_watcher (mgr w) = None \<and>
    (\<forall>a k sd. update_keys sd k ((mgr w)\<lparr>session := Some (Active a)\<rparr>) = ([], Inl Err))"
proof -
  let ?w = "\<lparr>mgr = sample_manager None, launching = [sample_initialized], starting = []\<rparr>"
  obtain m e where r: "reset_session (sample_manager None) = (m, e)" by (metis surj_pair)
  then have "watchdog_wake False 0 (mgr ?w) = (m, e @ [WaitShutdownComplete 0])" by (simp add: watchdog_wake_def)
  then have 1: "world_step ?w (?w\<lparr>mgr := m\<rparr>)"
    by (rule world_step.watchdog [rotated 1]) (simp_all add: sample_manager_def)
  have 2: "world_step (?w\<lparr>mgr := m\<rparr>)
      \<lparr>mgr = m\<lparr>session := Some (Launched sample_launched)\<rparr>, launching = [], starting = []\<rparr>"
    using sample_launch_done [of "?w\<lparr>mgr := m\<rparr>"] by simp
  let ?v = "\<lparr>mgr = m\<lparr>session := Some (Launched sample_launched)\<rparr>, launching = [], starting = []\<rparr>"
  have "stop m \<noteq> 0" using reset_session_idle(8) [OF r] by (simp add: sample_manager_def manager_new_def)
  then have "manager_run\<^sup>*\<^sup>* (world_init 60 True, False) (?w\<lparr>mgr := m\<rparr>, True)"
    using run_reset [OF sample_to_launching 1] by (simp add: in_flight_def)
  then have "manager_run\<^sup>*\<^sup>* (world_init 60 True, False) (?v, True)" by (rule run_on [OF _ 2]) simp
  with reset_session_idle [OF r] show ?thesis
    by (intro exI [of _ ?v] exI [of _ sample_launched]) (simp add: update_keys_def)
qed

theorem session_lifecycle_witness: "length (live_contexts sample_active_world) = 1"
  using session_lifecycle [OF sample_to_active] by (simp add: live_contexts_def sample_manager_def)


theorem resume_keys_reach_streams_witness:
  "update_keys False \<lparr>remote_input_key = replicate 16 9, remote_input_key_id = 2\<rparr> (mgr sample_active_world) =
    ([SendKeys 0 \<lparr>remote_input_key = replicate 16 9, remote_input_key_id = 2\<rparr>], Inr ())"
  using resume_keys_reach_streams [OF sample_to_active, of sample_active]
  by (simp add: sample_defs)

theorem stop_then_initialize_witness:
  "\<exists>m effects. stop_session True (sample_manager (Some (Launched sample_launched))) = ((m, effects), Inr ()) \<and>
    TriggerShutdown 0 UserStopped \<in> set effects \<and>
    snd (initialize_session True True True sample_context m) = Inr ()"
proof -
  obtain m e where r: "stop_session True (sample_manager (Some (Launched sample_launched))) = ((m, e), Inr ())"
    by (auto simp: stop_session_def stop_begin_def wait_for_session_shutdown_def sample_manager_def reset_session_def)
  have "keys sample_context = Keys \<lparr>remote_input_key = replicate 16 3, remote_input_key_id = 1\<rparr>"
    by (simp add: sample_context_def)
  from stop_then_initialize [OF _ r this] r show ?thesis by (auto simp: sample_manager_def manager_new_def)
qed

theorem play_before_announce_loses_session_witness:
  "\<exists>m. start_begin (sample_manager (Some (Launched sample_launched))) = ((m, []), Reply (Inl Err)) \<and>
    initialize_session True True True sample_context m = ((m, []), Inl Err)"
  using play_before_announce_loses_session [OF sample_to_launched, of sample_launched True True True sample_context
      sample_video sample_audio True undefined True]
  by (simp add: sample_manager_def manager_new_def) blast

end
