(* ===== verification/Rtsp.thy ===== *)
theory Rtsp
  imports Session_Manager Input_Events
begin

text \<open>
  The RTSP server of \<open>rtsp.rs\<close>. Messages are modelled as \<open>rtsp_types\<close> hands them over: \<open>parse_message\<close> and
  \<open>sdp_parse\<close> stand for the parsers of \<open>rtsp_types\<close> and \<open>sdp_types\<close>. Strings are their UTF-8 bytes.
\<close>

unbundle bit_operations_syntax

section \<open>Messages\<close>

datatype rtsp_method = Announce | Describe | Options | Setup | Play | OtherMethod string

datatype transport = TransportRtp | TransportOther

datatype rtsp_version = V1_0 | V2_0

datatype status_code = StatusOk | BadRequest | InternalServerError

record rtsp_request =
  rq_version :: rtsp_version
  rq_method :: rtsp_method
  rq_cseq :: "string option"
  rq_transports :: "transport list option res"
  rq_query :: "(string \<times> string) list option"
  rq_body :: bytes

record rtsp_reply =
  rp_version :: rtsp_version
  rp_status :: status_code
  rp_headers :: "(string \<times> string) list"
  rp_body :: string

datatype rtsp_message = Request rtsp_request | OtherMessage

datatype parse_result = Parsed rtsp_message | Incomplete | Malformed

definition rtsp_ok :: "int \<Rightarrow> rtsp_version \<Rightarrow> (string \<times> string) list \<Rightarrow> string \<Rightarrow> rtsp_reply" where
  "rtsp_ok cseq version headers body =
     \<lparr>rp_version = version, rp_status = StatusOk, rp_headers = (''CSeq'', show_int cseq) # headers, rp_body = body\<rparr>"

definition rtsp_response :: "int \<Rightarrow> rtsp_version \<Rightarrow> status_code \<Rightarrow> rtsp_reply" where
  "rtsp_response cseq version status =
     \<lparr>rp_version = version, rp_status = status, rp_headers = [(''CSeq'', show_int cseq)], rp_body = []\<rparr>"

section \<open>The server's answers\<close>

record rtsp_server =
  rs_video :: video_stream_config
  rs_audio :: audio_stream_config
  rs_control_port :: u16

datatype server_capability = PenTouchEvents | ControllerTouchEvents

fun server_capability_bit :: "server_capability \<Rightarrow> u8" where
  "server_capability_bit PenTouchEvents = 0x01"
| "server_capability_bit ControllerTouchEvents = 0x02"

datatype encryption_flag = ControlV2 | VideoFlag | AudioFlag

fun encryption_bit :: "encryption_flag \<Rightarrow> u8" where
  "encryption_bit ControlV2 = 0x01"
| "encryption_bit VideoFlag = 0x02"
| "encryption_bit AudioFlag = 0x04"

definition capabilities :: u8 where
  "capabilities = server_capability_bit PenTouchEvents OR server_capability_bit ControllerTouchEvents"

definition encryption_flags_supported :: "rtsp_server \<Rightarrow> u8" where
  "encryption_flags_supported server =
     (let flags = encryption_bit ControlV2 OR encryption_bit AudioFlag in
      if encrypt_enabled (rs_video server) then flags OR encryption_bit VideoFlag else flags)"

definition NEWLINE :: string where
  "NEWLINE = [char_of (10 :: nat)]"

definition advertised_mapping :: "nat \<Rightarrow> opus_stream_config \<Rightarrow> u8 list" where
  "advertised_mapping i config =
     (let n = channel_count (opus_channels config); is_normal_surround = (i = 2 \<or> i = 4) in
      if is_normal_surround \<and> channel_count Surround51 \<le> n
      then take 3 (mapping config) @ rotate1 (slice 3 n (mapping config)) @ drop n (mapping config)
      else mapping config)"

definition surround_params :: "nat \<Rightarrow> opus_stream_config \<Rightarrow> string" where
  "surround_params i config =
     show_nat (channel_count (opus_channels config)) @ show_nat (unat (streams config)) @
     show_nat (unat (coupled_streams config)) @
     concat (map (\<lambda>m. show_nat (unat m)) (take (channel_count (opus_channels config)) (advertised_mapping i config)))"

definition description :: "rtsp_server \<Rightarrow> string" where
  "description server =
     ''a=x-ss-general.featureFlags:'' @ show_nat (unat capabilities) @ NEWLINE @
     ''a=x-ss-general.encryptionSupported:'' @ show_nat (unat (encryption_flags_supported server)) @ NEWLINE @
     ''sprop-parameter-sets=AAAAAU'' @ NEWLINE @
     ''a=x-nv-video[0].refPicInvalidation:1'' @ NEWLINE @
     ''a=rtpmap:98 AV1/90000'' @ NEWLINE @
     ''a=fmtp:96 packetization-mode=1'' @ NEWLINE @
     concat (map (\<lambda>(i, config). ''a=fmtp:97 surround-params='' @ surround_params i config @ NEWLINE)
       (enumerate 0 ALL_AUDIO_CONFIGS))"

definition handle_options_request :: "rtsp_request \<Rightarrow> int \<Rightarrow> rtsp_reply" where
  "handle_options_request request cseq =
     rtsp_ok cseq (rq_version request) [(''Public'', ''OPTIONS DESCRIBE SETUP PLAY'')] []"

definition stream_port :: "rtsp_server \<Rightarrow> string \<Rightarrow> u16 option" where
  "stream_port server stream =
     (if stream = ''video'' then Some (video_port (rs_video server))
      else if stream = ''audio'' then Some (audio_port (rs_audio server))
      else if stream = ''control'' then Some (rs_control_port server)
      else None)"

definition handle_setup_request :: "rtsp_server \<Rightarrow> rtsp_request \<Rightarrow> int \<Rightarrow> rtsp_reply" where
  "handle_setup_request server request cseq =
     (let bad = rtsp_response cseq (rq_version request) BadRequest in
      case rq_transports request of
        Inl _ \<Rightarrow> bad
      | Inr None \<Rightarrow> bad
      | Inr (Some []) \<Rightarrow> bad
      | Inr (Some (TransportRtp # _)) \<Rightarrow> bad
      | Inr (Some (TransportOther # _)) \<Rightarrow>
          (case rq_query request of
             None \<Rightarrow> bad
           | Some [] \<Rightarrow> bad
           | Some ((name, value) # _) \<Rightarrow>
               if name \<noteq> ''streamid'' then bad
               else (case stream_port server (hd (split_on (CHR ''/'') value)) of
                       None \<Rightarrow> bad
                     | Some port \<Rightarrow>
                         rtsp_ok cseq (rq_version request)
                           [(''Session'', ''MoonshineSession;timeout = 90''),
                            (''Transport'', ''server_port='' @ show_nat (unat port))] [])))"

definition handle_describe_request :: "rtsp_server \<Rightarrow> rtsp_request \<Rightarrow> int \<Rightarrow> rtsp_reply" where
  "handle_describe_request server request cseq = rtsp_ok cseq (rq_version request) [] (description server)"

section \<open>ANNOUNCE\<close>

text \<open>An SDP session, as \<open>get_first_attribute_value\<close> sees it: the lookup may fail, the attribute be missing.\<close>

type_synonym sdp = "string \<Rightarrow> string option res"

definition get_optional_sdp_attribute :: "(string \<Rightarrow> 'a option) \<Rightarrow> sdp \<Rightarrow> string \<Rightarrow> 'a option" where
  "get_optional_sdp_attribute parse sdp_session attribute =
     (case sdp_session attribute of Inr (Some s) \<Rightarrow> parse (trim s) | _ \<Rightarrow> None)"

definition get_sdp_attribute :: "(string \<Rightarrow> 'a option) \<Rightarrow> sdp \<Rightarrow> string \<Rightarrow> 'a res" where
  "get_sdp_attribute parse sdp_session attribute =
     rbind (sdp_session attribute) (\<lambda>v. rbind (ok_or v) (\<lambda>s. ok_or (parse (trim s))))"

definition parse_u8 :: "string \<Rightarrow> u8 option" where
  "parse_u8 s = map_option of_nat (parse_unsigned (2 ^ 8) s)"

definition parse_u32 :: "string \<Rightarrow> u32 option" where
  "parse_u32 s = map_option of_nat (parse_unsigned (2 ^ 32) s)"

definition parse_usize :: "string \<Rightarrow> nat option" where
  "parse_usize s = parse_unsigned (2 ^ 64) s"

definition unwrap_or :: "'a \<Rightarrow> 'a option \<Rightarrow> 'a" where
  "unwrap_or d x = (case x of Some v \<Rightarrow> v | None \<Rightarrow> d)"

definition ok_or_default :: "'a \<Rightarrow> 'a res \<Rightarrow> 'a" where
  "ok_or_default d x = (case x of Inr v \<Rightarrow> v | Inl _ \<Rightarrow> d)"

definition announce_video :: "rtsp_server \<Rightarrow> sdp \<Rightarrow> video_stream_context res" where
  "announce_video server sdp =
     rbind (get_sdp_attribute parse_u32 sdp ''x-nv-video[0].clientViewportWd'') (\<lambda>w.
     rbind (get_sdp_attribute parse_u32 sdp ''x-nv-video[0].clientViewportHt'') (\<lambda>h.
     rbind (get_sdp_attribute parse_u32 sdp ''x-nv-video[0].maxFPS'') (\<lambda>rate.
     rbind (get_sdp_attribute parse_usize sdp ''x-nv-video[0].packetSize'') (\<lambda>psize.
     rbind (get_sdp_attribute parse_usize sdp ''x-ml-video.configuredBitrateKbps'') (\<lambda>kbps.
     rbind (get_sdp_attribute parse_u32 sdp ''x-nv-vqos[0].fec.minRequiredFecPackets'') (\<lambda>fec.
     rbind (get_sdp_attribute Some sdp ''x-nv-vqos[0].qosTrafficType'') (\<lambda>qos_type.
     rbind (get_sdp_attribute parse_u32 sdp ''x-nv-vqos[0].bitStreamFormat'') (\<lambda>format_code.
     rbind (video_format_try_from format_code) (\<lambda>format.
       let range_code = unwrap_or 0 (get_optional_sdp_attribute parse_u32 sdp ''x-nv-video[0].dynamicRangeMode'');
           chroma_code = unwrap_or 0 (get_optional_sdp_attribute parse_u32 sdp ''x-ss-video[0].chromaSamplingType'');
           references = unwrap_or 1 (get_optional_sdp_attribute parse_u32 sdp ''x-nv-video[0].maxNumReferenceFrames'');
           csc_mode = unwrap_or 0 (get_optional_sdp_attribute parse_u32 sdp ''x-nv-video[0].encoderCscMode'');
           flags = unwrap_or 0 (get_optional_sdp_attribute parse_u8 sdp ''x-ss-general.encryptionEnabled'')
       in Inr \<lparr>width = w, height = h, fps = rate, packet_size = psize, bitrate = kbps * 1000 mod 2 ^ 64,
            minimum_fec_packets = fec, video_qos = (qos_type \<noteq> ''0''), video_format = format,
            dynamic_range = ok_or_default Sdr (video_dynamic_range_try_from range_code),
            chroma_sampling_type = ok_or_default Yuv420 (video_chroma_sampling_try_from chroma_code),
            max_reference_frames = references, full_range = (csc_mode AND 1 \<noteq> 0),
            encrypt_video = (encrypt_enabled (rs_video server) \<and> flags AND encryption_bit VideoFlag \<noteq> 0)\<rparr>)))))))))"

definition announce_audio :: "sdp \<Rightarrow> session_context option \<Rightarrow> audio_stream_context res" where
  "announce_audio sdp session_ctx =
     rbind (get_sdp_attribute parse_u32 sdp ''x-nv-aqos.packetDuration'') (\<lambda>packet_duration.
     rbind (get_sdp_attribute Some sdp ''x-nv-aqos.qosTrafficType'') (\<lambda>qos_type.
       let surround_channels = unwrap_or 2 (get_optional_sdp_attribute parse_u8 sdp ''x-nv-audio.surround.numChannels'');
           surround_mask = unwrap_or 0x3 (get_optional_sdp_attribute parse_u32 sdp ''x-nv-audio.surround.channelMask'');
           surround_enable = unwrap_or 0 (get_optional_sdp_attribute parse_u8 sdp ''x-nv-audio.surround.enable'');
           audio_quality = unwrap_or 1 (get_optional_sdp_attribute parse_u8 sdp ''x-nv-audio.surround.AudioQuality'');
           flags = unwrap_or 0 (get_optional_sdp_attribute parse_u8 sdp ''x-ss-general.encryptionEnabled'');
           (chans, cmask) =
             (if surround_enable \<noteq> 0 then (audio_channels_from surround_channels, surround_mask)
              else case session_ctx of
                Some ctx \<Rightarrow> (audio_channels ctx, audio_channel_mask ctx)
              | None \<Rightarrow> (Stereo, 0x3))
       in Inr \<lparr>packet_duration_ms = packet_duration, audio_qos = (qos_type \<noteq> ''0''),
            audio_config = from_channels chans cmask (audio_quality \<noteq> 0),
            encrypt_audio = (flags AND encryption_bit AudioFlag \<noteq> 0)\<rparr>))"

text \<open>The mutex of the manager is taken once for the context of the session and once for the contexts of
  the streams; \<open>session_ctx\<close> is what the first call returned.\<close>

definition handle_announce_request :: "(bytes \<Rightarrow> sdp res) \<Rightarrow> rtsp_server \<Rightarrow> session_context option \<Rightarrow> rtsp_request \<Rightarrow>
    int \<Rightarrow> manager \<Rightarrow> manager \<times> rtsp_reply" where
  "handle_announce_request sdp_parse server session_ctx request cseq m =
     (let version = rq_version request in
      case rbind (sdp_parse (rq_body request)) (\<lambda>sdp.
             rbind (announce_video server sdp) (\<lambda>v. rbind (announce_audio sdp session_ctx) (\<lambda>a. Inr (v, a)))) of
        Inl _ \<Rightarrow> (m, rtsp_response cseq version BadRequest)
      | Inr (v, a) \<Rightarrow>
          (case set_stream_context v a m of
             (m', Inl _) \<Rightarrow> (m', rtsp_response cseq version InternalServerError)
           | (m', Inr _) \<Rightarrow> (m', rtsp_ok cseq version [] [])))"

section \<open>Connections\<close>

text \<open>PLAY runs \<open>start_session\<close> and tells how it went; \<open>meanwhile\<close> and \<open>env\<close> are its arguments.\<close>

definition handle_play_request :: "(manager \<Rightarrow> manager) \<Rightarrow> start_env \<Rightarrow> rtsp_request \<Rightarrow> int \<Rightarrow> manager \<Rightarrow>
    manager_step \<times> rtsp_reply" where
  "handle_play_request meanwhile env request cseq m =
     (case start_session meanwhile env m of
        (step, Inl _) \<Rightarrow> (step, rtsp_response cseq (rq_version request) InternalServerError)
      | (step, Inr _) \<Rightarrow> (step, rtsp_ok cseq (rq_version request) [] []))"

definition to_text :: "bytes \<Rightarrow> string" where
  "to_text bs = map (\<lambda>b. char_of (unat b)) bs"

datatype read_result = ReadError | Chunk bytes

datatype read_outcome = GotMessage rtsp_message | ClosedEarly | ReadFailed | Waiting

definition patch_request :: "string \<Rightarrow> string" where
  "patch_request buffer =
     replace_all ''PLAY /'' ''PLAY rtsp://localhost/'' (replace_all ''streamid'' ''rtsp://localhost?streamid'' buffer)"

text \<open>The read loop over what the connection delivers; \<open>Waiting\<close> when that is used up.\<close>

fun read_message :: "(string \<Rightarrow> parse_result) \<Rightarrow> read_result list \<Rightarrow> string \<Rightarrow> read_outcome" where
  "read_message parse_message [] buffer = Waiting"
| "read_message parse_message (ReadError # reads) buffer = ReadFailed"
| "read_message parse_message (Chunk bs # reads) buffer =
     (if bs = [] then ClosedEarly
      else if \<not> utf8_valid bs then ReadFailed
      else let buffer = buffer @ to_text bs in
        case parse_message (patch_request buffer) of
          Parsed m \<Rightarrow> GotMessage m
        | Incomplete \<Rightarrow> read_message parse_message reads buffer
        | Malformed \<Rightarrow> ReadFailed)"

datatype connection_outcome = NoReply | Failed | ReplyWith rtsp_reply | StillReading

text \<open>
  The manager is that of the moment the request is handled, and \<open>announce_ctx\<close> and \<open>gate_ctx\<close> are what it answered when
  the ANNOUNCE handler and, before the first read, the connection asked for the session. Only PLAY has effects beyond
  the manager's fields.
\<close>

definition handle_request :: "(bytes \<Rightarrow> sdp res) \<Rightarrow> rtsp_server \<Rightarrow> session_context option \<Rightarrow> (manager \<Rightarrow> manager) \<Rightarrow> start_env \<Rightarrow>
    rtsp_request \<Rightarrow> int \<Rightarrow> manager \<Rightarrow> manager_step \<times> rtsp_reply" where
  "handle_request sdp_parse server announce_ctx meanwhile env request cseq m =
     (case rq_method request of
        Announce \<Rightarrow> (let (m', reply) = handle_announce_request sdp_parse server announce_ctx request cseq m in ((m', []), reply))
      | Describe \<Rightarrow> ((m, []), handle_describe_request server request cseq)
      | Options \<Rightarrow> ((m, []), handle_options_request request cseq)
      | Setup \<Rightarrow> ((m, []), handle_setup_request server request cseq)
      | Play \<Rightarrow> handle_play_request meanwhile env request cseq m
      | OtherMethod _ \<Rightarrow> ((m, []), rtsp_response cseq (rq_version request) BadRequest))"

definition handle_connection :: "(string \<Rightarrow> parse_result) \<Rightarrow> (bytes \<Rightarrow> sdp res) \<Rightarrow> rtsp_server \<Rightarrow> session_context option \<Rightarrow>
    session_context option \<Rightarrow> (manager \<Rightarrow> manager) \<Rightarrow> start_env \<Rightarrow> read_result list \<Rightarrow> manager \<Rightarrow> manager_step \<times> connection_outcome" where
  "handle_connection parse_message sdp_parse server gate_ctx announce_ctx meanwhile env reads m =
     (case gate_ctx of
        None \<Rightarrow> ((m, []), NoReply)
      | Some _ \<Rightarrow>
          (case read_message parse_message reads [] of
             Waiting \<Rightarrow> ((m, []), StillReading)
           | ClosedEarly \<Rightarrow> ((m, []), NoReply)
           | ReadFailed \<Rightarrow> ((m, []), Failed)
           | GotMessage OtherMessage \<Rightarrow> ((m, []), ReplyWith (rtsp_response 0 V2_0 BadRequest))
           | GotMessage (Request request) \<Rightarrow>
               (case Option.bind (rq_cseq request) parse_i32 of
                  None \<Rightarrow> ((m, []), Failed)
                | Some cseq \<Rightarrow>
                    map_prod id ReplyWith (handle_request sdp_parse server announce_ctx meanwhile env request cseq m))))"

section \<open>Reading back numbers\<close>

lemma strip_while_prefix_id:
  assumes "\<forall>w \<in> set ws. w \<noteq> [] \<longrightarrow> hd w \<noteq> c"
  shows "strip_while_prefix ws (c # s) = c # s"
proof -
  have "find (\<lambda>w. w \<noteq> [] \<and> prefix w (c # s)) ws = None"
    using assms by (auto simp: find_None_iff prefix_Cons)
  then show ?thesis by (simp add: strip_while_prefix.simps)
qed

lemma white_space_no_digit: "\<forall>w \<in> set (white_space @ map rev white_space). digit_value (hd w) = None"
  by (simp add: white_space_def digit_value_def Let_def)

lemma trim_digits:
  assumes "s \<noteq> []" and "\<forall>c \<in> set s. digit_value c \<noteq> None"
  shows "trim s = s"
proof -
  obtain c t where s: "s = c # t" using assms(1) by (cases s) auto
  obtain d u where r: "rev s = d # u" using assms(1) by (cases "rev s") auto
  have "c \<in> set s" "d \<in> set s" using s r set_rev [of s] by auto
  then have "digit_value c \<noteq> None" "digit_value d \<noteq> None" using assms(2) by blast+
  then have "strip_while_prefix white_space s = s" "strip_while_prefix (map rev white_space) (rev s) = rev s"
    unfolding s [symmetric] r using white_space_no_digit s by (auto intro!: strip_while_prefix_id)
  then show ?thesis by (simp add: trim_def)
qed

lemma trim_show_nat [simp]: "trim (show_nat n) = show_nat n"
  by (rule trim_digits) (auto dest: show_nat_digits)

lemma parse_words [simp]:
  "parse_u8 (show_nat (unat a)) = Some a" "parse_u32 (show_nat (unat b)) = Some b"
  "n < 2 ^ 64 \<Longrightarrow> parse_usize (show_nat n) = Some n"
proof -
  have "unat a < 2 ^ 8" "unat b < 2 ^ 32" using unsigned_less [of a] unsigned_less [of b] by simp_all
  then show "parse_u8 (show_nat (unat a)) = Some a" "parse_u32 (show_nat (unat b)) = Some b"
    by (simp_all add: parse_u8_def parse_u32_def)
qed (simp add: parse_usize_def)

lemma get_sdp_attributeI: "sdp k = Inr (Some s) \<Longrightarrow> parse (trim s) = Some x \<Longrightarrow> get_sdp_attribute parse sdp k = Inr x"
  by (simp add: get_sdp_attribute_def rbind_def ok_or_def)

lemma get_optional_sdp_attributeI:
  "sdp k = Inr (Some s) \<Longrightarrow> parse (trim s) = Some x \<Longrightarrow> get_optional_sdp_attribute parse sdp k = Some x"
  by (simp add: get_optional_sdp_attribute_def)

section \<open>What a client offers\<close>

record client_offer =
  of_width :: u32
  of_height :: u32
  of_fps :: u32
  of_packet_size :: nat
  of_kbps :: nat
  of_fec :: u32
  of_video_qos :: bool
  of_format :: video_format
  of_range :: video_dynamic_range
  of_chroma :: video_chroma_sampling
  of_references :: u32
  of_full_range :: bool
  of_flags :: u8
  of_duration :: u32
  of_audio_qos :: bool
  of_channels :: audio_channels
  of_mask :: u32
  of_high_quality :: bool

fun video_format_code :: "video_format \<Rightarrow> nat" where
  "video_format_code H264 = 0" | "video_format_code Hevc = 1" | "video_format_code Av1 = 2"

fun dynamic_range_code :: "video_dynamic_range \<Rightarrow> nat" where
  "dynamic_range_code Sdr = 0" | "dynamic_range_code Hdr = 1"

fun chroma_code :: "video_chroma_sampling \<Rightarrow> nat" where
  "chroma_code Yuv420 = 0" | "chroma_code Yuv444 = 1"

definition show_bit :: "bool \<Rightarrow> string" where
  "show_bit b = show_nat (if b then 1 else 0)"

definition offer_attributes :: "client_offer \<Rightarrow> (string \<times> string) list" where
  "offer_attributes cl =
     [(''x-nv-video[0].clientViewportWd'', show_nat (unat (of_width cl))),
      (''x-nv-video[0].clientViewportHt'', show_nat (unat (of_height cl))),
      (''x-nv-video[0].maxFPS'', show_nat (unat (of_fps cl))),
      (''x-nv-video[0].packetSize'', show_nat (of_packet_size cl)),
      (''x-ml-video.configuredBitrateKbps'', show_nat (of_kbps cl)),
      (''x-nv-vqos[0].fec.minRequiredFecPackets'', show_nat (unat (of_fec cl))),
      (''x-nv-vqos[0].qosTrafficType'', show_bit (of_video_qos cl)),
      (''x-nv-vqos[0].bitStreamFormat'', show_nat (video_format_code (of_format cl))),
      (''x-nv-video[0].dynamicRangeMode'', show_nat (dynamic_range_code (of_range cl))),
      (''x-ss-video[0].chromaSamplingType'', show_nat (chroma_code (of_chroma cl))),
      (''x-nv-video[0].maxNumReferenceFrames'', show_nat (unat (of_references cl))),
      (''x-nv-video[0].encoderCscMode'', show_bit (of_full_range cl)),
      (''x-ss-general.encryptionEnabled'', show_nat (unat (of_flags cl))),
      (''x-nv-aqos.packetDuration'', show_nat (unat (of_duration cl))),
      (''x-nv-aqos.qosTrafficType'', show_bit (of_audio_qos cl)),
      (''x-nv-audio.surround.numChannels'', show_nat (channel_count (of_channels cl))),
      (''x-nv-audio.surround.channelMask'', show_nat (unat (of_mask cl))),
      (''x-nv-audio.surround.enable'', show_bit True),
      (''x-nv-audio.surround.AudioQuality'', show_bit (of_high_quality cl))]"

definition offer_sdp :: "client_offer \<Rightarrow> sdp" where
  "offer_sdp cl attribute = Inr (map_of (offer_attributes cl) attribute)"

definition offer_video :: "rtsp_server \<Rightarrow> client_offer \<Rightarrow> video_stream_context" where
  "offer_video server cl =
     \<lparr>width = of_width cl, height = of_height cl, fps = of_fps cl, packet_size = of_packet_size cl,
      bitrate = 1000 * of_kbps cl, minimum_fec_packets = of_fec cl, video_qos = of_video_qos cl,
      video_format = of_format cl, dynamic_range = of_range cl, chroma_sampling_type = of_chroma cl,
      max_reference_frames = of_references cl, full_range = of_full_range cl,
      encrypt_video = (encrypt_enabled (rs_video server) \<and> of_flags cl AND 2 \<noteq> 0)\<rparr>"

definition offer_audio :: "client_offer \<Rightarrow> audio_stream_context" where
  "offer_audio cl =
     \<lparr>packet_duration_ms = of_duration cl, audio_qos = of_audio_qos cl,
      audio_config = from_channels (of_channels cl) (of_mask cl) (of_high_quality cl),
      encrypt_audio = (of_flags cl AND 4 \<noteq> 0)\<rparr>"

lemma show_bit_simps [simp]:
  "trim (show_bit b) = show_bit b" "show_bit b = ''0'' \<longleftrightarrow> \<not> b"
  "parse_u8 (show_bit b) = Some (if b then 1 else 0)" "parse_u32 (show_bit b) = Some (if b then 1 else 0)"
proof -
  have "show_nat 0 = ''0''" "show_nat 1 = ''1''" by code_simp+
  then show "show_bit b = ''0'' \<longleftrightarrow> \<not> b" by (simp add: show_bit_def)
qed (simp_all add: show_bit_def parse_u8_def parse_u32_def)

lemma parse_codes [simp]:
  "parse_u32 (show_nat (video_format_code f)) = Some (of_nat (video_format_code f))"
  "parse_u32 (show_nat (dynamic_range_code r)) = Some (of_nat (dynamic_range_code r))"
  "parse_u32 (show_nat (chroma_code c)) = Some (of_nat (chroma_code c))"
  "parse_u8 (show_nat (channel_count a)) = Some (of_nat (channel_count a))"
  by (cases f; cases r; cases c; cases a; simp add: parse_u32_def parse_u8_def)+

lemma try_from_codes [simp]:
  "video_format_try_from (of_nat (video_format_code f)) = Inr f"
  "video_dynamic_range_try_from (of_nat (dynamic_range_code r)) = Inr r"
  "video_chroma_sampling_try_from (of_nat (chroma_code c)) = Inr c"
  "audio_channels_from (of_nat (channel_count a)) = a"
  by (cases f; cases r; cases c; cases a; simp add: video_format_try_from_def video_dynamic_range_try_from_def
      video_chroma_sampling_try_from_def audio_channels_from_def)+

lemmas offer_lookup = offer_sdp_def offer_attributes_def get_sdp_attribute_def get_optional_sdp_attribute_def
  rbind_def ok_or_def unwrap_or_def ok_or_default_def

section \<open>Properties\<close>

lemma announce_video_offer:
  assumes "of_packet_size cl < 2 ^ 64" and "1000 * of_kbps cl < 2 ^ 64"
  shows "announce_video server (offer_sdp cl) = Inr (offer_video server cl)"
proof -
  have "of_kbps cl < 2 ^ 64" using assms(2) by simp
  then show ?thesis using assms by (simp add: announce_video_def offer_video_def offer_lookup mult.commute)
qed

text \<open>
  C19. What a client offers is what the streams get: for an offer with a packet size and a bit rate that fit the
  machine word, ANNOUNCE builds exactly the offered video and audio parameters, with video encrypted only
  when the server allows it and the client asked for it.
\<close>

theorem announce_roundtrip:
  assumes "of_packet_size cl < 2 ^ 64" and "1000 * of_kbps cl < 2 ^ 64"
  shows "announce_video server (offer_sdp cl) = Inr (offer_video server cl) \<and>
    announce_audio (offer_sdp cl) session_ctx = Inr (offer_audio cl)"
proof
  show "announce_video server (offer_sdp cl) = Inr (offer_video server cl)"
    using assms by (rule announce_video_offer)
  show "announce_audio (offer_sdp cl) session_ctx = Inr (offer_audio cl)"
    by (simp add: announce_audio_def offer_audio_def offer_lookup)
qed

text \<open>How the client reads a \<open>surround-params\<close> value: one digit at a time, and for the normal-quality surround
  layouts with the rotation of the channels behind the third undone.\<close>

definition decode_surround :: "bool \<Rightarrow> string \<Rightarrow> nat \<times> nat \<times> nat \<times> nat list" where
  "decode_surround rotated s =
     (let ds = map (\<lambda>c. case digit_value c of Some d \<Rightarrow> d | None \<Rightarrow> 0) s; m = drop 3 ds in
      (ds ! 0, ds ! 1, ds ! 2, if rotated then take 3 m @ rev (rotate1 (rev (drop 3 m))) else m))"

text \<open>
  Every advertised audio layout is read back by the client as the layout the encoder uses: all values
  are single digits, and the rotated mappings of the normal-quality layouts come out unrotated.
\<close>

theorem surround_params_decode:
  "list_all (\<lambda>(i, c). decode_surround (i = 2 \<or> i = 4) (surround_params i c) =
      (channel_count (opus_channels c), unat (streams c), unat (coupled_streams c),
       map unat (take (channel_count (opus_channels c)) (mapping c))))
    (enumerate 0 ALL_AUDIO_CONFIGS)"
  by code_simp

lemma set_stream_context_changes:
  assumes "set_stream_context v a m = (m', r)"
  shows "m' = m \<or> (\<exists>l. session m = Some (Launched l)) \<and> m' = m\<lparr>video_context := Some v, audio_context := Some a\<rparr>"
  using assms by (auto simp: set_stream_context_def split: option.splits session_state.splits)

lemma handle_announce_changes:
  assumes "handle_announce_request sdp_parse server ctx request cseq m = (m', r)"
  shows "m' = m \<or> (\<exists>l. session m = Some (Launched l)) \<and>
    (\<exists>v a. m' = m\<lparr>video_context := Some v, audio_context := Some a\<rparr>)"
proof (cases "rbind (sdp_parse (rq_body request)) (\<lambda>sdp.
     rbind (announce_video server sdp) (\<lambda>v. rbind (announce_audio sdp ctx) (\<lambda>a. Inr (v, a))))")
  case (Inr x)
  obtain v a where x: "x = (v, a)" by (cases x)
  obtain m1 r1 where s: "set_stream_context v a m = (m1, r1)" by (metis surj_pair)
  have "m' = m1" using assms Inr by (auto simp: handle_announce_request_def Let_def x s split: sum.splits)
  then show ?thesis using set_stream_context_changes [OF s] by blast
qed (use assms in \<open>simp add: handle_announce_request_def\<close>)

lemma rtsp_reply_cseq:
  "(''CSeq'', show_int q) \<in> set (rp_headers (rtsp_ok q v hs b))" "rp_version (rtsp_ok q v hs b) = v"
  "(''CSeq'', show_int q) \<in> set (rp_headers (rtsp_response q v s))" "rp_version (rtsp_response q v s) = v"
  by (simp_all add: rtsp_ok_def rtsp_response_def)

lemma handle_setup_cseq:
  "(''CSeq'', show_int q) \<in> set (rp_headers (handle_setup_request server request q))"
  "rp_version (handle_setup_request server request q) = rq_version request"
  by (simp_all add: handle_setup_request_def Let_def rtsp_reply_cseq split: sum.split option.split list.split transport.split prod.split)

lemma handle_announce_cseq:
  assumes "handle_announce_request sdp_parse server ctx request q m = (m', r)"
  shows "(''CSeq'', show_int q) \<in> set (rp_headers r) \<and> rp_version r = rq_version request"
  using assms by (auto simp: handle_announce_request_def Let_def rtsp_reply_cseq split: sum.splits prod.splits)

lemma handle_play_reply:
  assumes "handle_play_request meanwhile env request q m = (step, reply)"
  shows "(''CSeq'', show_int q) \<in> set (rp_headers reply) \<and> rp_version reply = rq_version request"
    and "\<exists>r. start_session meanwhile env m = (step, r) \<and> (rp_status reply = StatusOk \<longleftrightarrow> r = Inr ())"
  using assms by (auto simp: handle_play_request_def rtsp_reply_cseq rtsp_ok_def rtsp_response_def split: prod.splits sum.splits)

lemma handle_request_cseq:
  assumes "handle_request sdp_parse server ctx meanwhile env request q m = (step, r)"
  shows "(''CSeq'', show_int q) \<in> set (rp_headers r) \<and> rp_version r = rq_version request"
  using assms handle_setup_cseq [where q = q and server = server and request = request]
    handle_play_reply(1) [of meanwhile env request q m step r]
  by (cases "rq_method request")
    (auto simp: handle_request_def handle_describe_request_def handle_options_request_def
      rtsp_reply_cseq handle_announce_cseq split: prod.splits)

lemma handle_request_changes:
  assumes "handle_request sdp_parse server ctx meanwhile env request q m = ((m', effects), r)" and "m' \<noteq> m \<or> effects \<noteq> []"
  shows "rq_method request = Announce \<and> effects = [] \<and> (\<exists>l. session m = Some (Launched l)) \<and>
      (\<exists>v a. m' = m\<lparr>video_context := Some v, audio_context := Some a\<rparr>) \<or>
    rq_method request = Play"
  using assms handle_announce_changes [of sdp_parse server ctx request q m]
  by (cases "rq_method request") (auto simp: handle_request_def split: prod.splits)

text \<open>The streams that \<open>start_session\<close> starts.\<close>

lemma reset_starts_nothing: "reset_session m = (m', e) \<Longrightarrow> StartVideo v c st \<notin> set e"
  by (auto simp: reset_session_def abort_watcher_def split: option.splits)

lemma start_end_starts:
  assumes "start_end env l vc ac sc m = ((m', e), r)" and "StartVideo v c st \<in> set e"
  shows "v = vc \<and> clone_rx (keys (ls_context l)) = Some c \<and> st = sc"
  using assms reset_starts_nothing
  by (auto simp: start_end_def launched_start_def Let_def split: option.splits prod.splits)

lemma start_session_starts:
  assumes "start_session meanwhile env m = ((m', e), r)" and "StartVideo v c st \<in> set e"
  shows "\<exists>l. session m = Some (Launched l) \<and> keys (ls_context l) = Rx c \<and> video_context m = Some v \<and>
    audio_context m \<noteq> None \<and> st = stop m"
proof -
  have rx: "clone_rx k = Some c \<Longrightarrow> k = Rx c" for k by (cases k) simp_all
  obtain step nx where s: "start_begin m = (step, nx)" by fastforce
  have quiet: "StartVideo v c st \<notin> set (snd step)"
    using s by (auto simp: start_begin_def Let_def split: option.splits session_state.splits)
  show ?thesis
  proof (cases nx)
    case (Reply x)
    then show ?thesis using assms s quiet by (simp add: start_session_def)
  next
    case (StartStreams l vc ac sc)
    then have l: "session m = Some (Launched l)" "video_context m = Some vc" "audio_context m = Some ac" "sc = stop m"
      using s by (auto simp: start_begin_def Let_def split: option.splits session_state.splits)
    obtain m2 e2 r2 where e: "start_end env l vc ac sc (meanwhile (fst step)) = ((m2, e2), r2)" by (metis surj_pair)
    then have "StartVideo v c st \<in> set e2" using assms s StartStreams quiet by (cases step) (auto simp: start_session_def)
    from start_end_starts [OF e this] l rx show ?thesis by auto
  qed
qed

text \<open>
  C20. What an RTSP connection can do. Without a session it is closed unread. A reply to a request carries the
  CSeq number and the version of that request. The manager changes, or something happens outside of it, only by an
  ANNOUNCE that arrives while a session is launched, which sets the two stream contexts, or by a PLAY, which does
  exactly what \<open>start_session\<close> does and is answered with OK if and only if that succeeds. So a connection starts the
  streams only by a PLAY for a launched session, with the announced video context, on the session's own key channel and
  under the current shutdown manager.
\<close>

theorem rtsp_connection_contract:
  assumes "handle_connection parse_message sdp_parse server gate_ctx announce_ctx meanwhile env reads m = ((m', effects), outcome)"
  shows "(gate_ctx = None \<longrightarrow> m' = m \<and> effects = [] \<and> outcome = NoReply) \<and>
    (\<forall>r request. outcome = ReplyWith r \<and> read_message parse_message reads [] = GotMessage (Request request) \<longrightarrow>
       (\<exists>s q. rq_cseq request = Some s \<and> parse_i32 s = Some q \<and> (''CSeq'', show_int q) \<in> set (rp_headers r)) \<and>
       rp_version r = rq_version request) \<and>
    (m' \<noteq> m \<or> effects \<noteq> [] \<longrightarrow>
       (\<exists>request reply. read_message parse_message reads [] = GotMessage (Request request) \<and> outcome = ReplyWith reply \<and>
         (rq_method request = Announce \<and> effects = [] \<and> (\<exists>l. session m = Some (Launched l)) \<and>
            (\<exists>v a. m' = m\<lparr>video_context := Some v, audio_context := Some a\<rparr>) \<or>
          rq_method request = Play \<and>
            (\<exists>r. start_session meanwhile env m = ((m', effects), r) \<and> (rp_status reply = StatusOk \<longleftrightarrow> r = Inr ()))))) \<and>
    (\<forall>v c st. StartVideo v c st \<in> set effects \<longrightarrow>
       (\<exists>l. session m = Some (Launched l) \<and> keys (ls_context l) = Rx c) \<and> video_context m = Some v \<and> st = stop m)"
proof (cases gate_ctx)
  case None
  then show ?thesis using assms by (simp add: handle_connection_def)
next
  case (Some g)
  show ?thesis
  proof (cases "\<exists>request s q. read_message parse_message reads [] = GotMessage (Request request) \<and>
      rq_cseq request = Some s \<and> parse_i32 s = Some q")
    case True
    then obtain request s q where rq: "read_message parse_message reads [] = GotMessage (Request request)"
      "rq_cseq request = Some s" "parse_i32 s = Some q" by blast
    then obtain reply where r: "handle_request sdp_parse server announce_ctx meanwhile env request q m = ((m', effects), reply)"
      "outcome = ReplyWith reply"
      using assms Some by (cases "handle_request sdp_parse server announce_ctx meanwhile env request q m")
        (auto simp: handle_connection_def)
    have play: "\<exists>x. start_session meanwhile env m = ((m', effects), x) \<and> (rp_status reply = StatusOk \<longleftrightarrow> x = Inr ())"
      if "rq_method request = Play"
      using handle_play_reply(2) that r(1) by (simp add: handle_request_def)
    have starts: "(\<exists>l. session m = Some (Launched l) \<and> keys (ls_context l) = Rx c) \<and> video_context m = Some v \<and> st = stop m"
      if "StartVideo v c st \<in> set effects" for v c st
    proof -
      have "rq_method request = Play" using handle_request_changes [OF r(1)] that by force
      then show ?thesis using play start_session_starts that by blast
    qed
    show ?thesis using Some rq r(2) handle_request_cseq [OF r(1)] handle_request_changes [OF r(1)] play starts by simp blast
  next
    case False
    then have "m' = m \<and> effects = [] \<and> (\<forall>r request. outcome = ReplyWith r \<longrightarrow> read_message parse_message reads [] \<noteq> GotMessage (Request request))"
      using assms Some
      by (auto simp: handle_connection_def bind_eq_Some_conv split: read_outcome.splits rtsp_message.splits option.splits)
    then show ?thesis using Some by auto
  qed
qed

text \<open>
  C0. SETUP tells the port of the stream the client names, and only then succeeds: the first transport is not
  RTP and the first query parameter is \<open>streamid\<close> with the name of one of the three streams before a slash.
\<close>

theorem setup_reply_iff:
  "rp_status (handle_setup_request server request cseq) = StatusOk \<longleftrightarrow>
    (\<exists>ts qs value port. rq_transports request = Inr (Some (TransportOther # ts)) \<and>
       rq_query request = Some ((''streamid'', value) # qs) \<and>
       stream_port server (hd (split_on (CHR ''/'') value)) = Some port \<and>
       (''Transport'', ''server_port='' @ show_nat (unat port)) \<in>
         set (rp_headers (handle_setup_request server request cseq)))"
  by (auto simp: handle_setup_request_def rtsp_ok_def rtsp_response_def Let_def
      split: sum.splits option.splits list.splits transport.splits prod.splits if_splits)

definition sample_server :: rtsp_server where
  "sample_server = \<lparr>rs_video = video_stream_config_default, rs_audio = audio_stream_config_default,
     rs_control_port = 47999\<rparr>"

definition sample_offer :: client_offer where
  "sample_offer = \<lparr>of_width = 1920, of_height = 1080, of_fps = 60, of_packet_size = 1024, of_kbps = 20000,
     of_fec = 2, of_video_qos = True, of_format = Hevc, of_range = Hdr, of_chroma = Yuv420, of_references = 1,
     of_full_range = False, of_flags = 5, of_duration = 5, of_audio_qos = True, of_channels = Surround51,
     of_mask = 0x3F, of_high_quality = True\<rparr>"

theorem announce_roundtrip_witness:
  "announce_video sample_server (offer_sdp sample_offer) = Inr (offer_video sample_server sample_offer) \<and>
   announce_audio (offer_sdp sample_offer) None = Inr (offer_audio sample_offer)"
  by (rule announce_roundtrip) (simp_all add: sample_offer_def)

definition sample_request :: rtsp_request where
  "sample_request = \<lparr>rq_version = V1_0, rq_method = Play, rq_cseq = Some ''3'', rq_transports = Inr None,
     rq_query = None, rq_body = []\<rparr>"

definition sample_announced :: manager where
  "sample_announced =
     (sample_manager (Some (Launched sample_launched)))\<lparr>video_context := Some sample_video, audio_context := Some sample_audio\<rparr>"

definition sample_start :: start_env where
  "sample_start = \<lparr>video_start = Some 1, audio_start = Some 2, inhibitor_acquired = True\<rparr>"

theorem rtsp_connection_contract_witness:
  "\<exists>m e r. handle_connection (\<lambda>_. Parsed (Request sample_request)) (\<lambda>_. Inl Err) sample_server (Some sample_context) None
      id sample_start [Chunk [79]] sample_announced = ((m, e), ReplyWith r) \<and>
    StartVideo sample_video 0 0 \<in> set e \<and> session m = Some (Active sample_active) \<and> rp_status r = StatusOk \<and> rp_version r = V1_0"
proof -
  let ?parse = "\<lambda>_. Parsed (Request sample_request)"
  have "show_int 3 = ''3''" by code_simp
  then have q: "parse_i32 ''3'' = Some 3" using parse_show_i32 [of 3] by simp
  have u: "utf8_valid [79]" by code_simp
  have r: "read_message ?parse [Chunk [79]] [] = GotMessage (Request sample_request)" using u by simp
  obtain m e where st: "start_session id sample_start sample_announced = ((m, e), Inr ())"
    "session m = Some (Active sample_active)" "StartVideo sample_video 0 0 \<in> set e"
    by (simp add: start_session_def start_begin_def start_end_def launched_start_def sample_announced_def sample_start_def
        sample_defs sample_context_def)
  have c: "handle_connection ?parse (\<lambda>_. Inl Err) sample_server (Some sample_context) None id sample_start [Chunk [79]]
      sample_announced = ((m, e), ReplyWith (rtsp_ok 3 V1_0 [] []))"
    unfolding handle_connection_def r by (simp add: handle_request_def handle_play_request_def st(1) sample_request_def q)
  have "rq_version sample_request = V1_0" by (simp add: sample_request_def)
  with rtsp_connection_contract [OF c] r c st show ?thesis by (auto simp: rtsp_ok_def)
qed

end
