(* ===== verification/Persistent_State.thy ===== *)
theory Persistent_State
  imports Prelude
begin

text \<open>
  The state file of \<open>state.rs\<close>: the paired clients and certificates, in memory and on disk. \<open>toml\<close> is a
  parameter (a printer that may fail and a parser); whether a write succeeds is an argument. The locks are
  never poisoned here, since no code panics while it holds one.
\<close>

record state_data =
  unique_id :: string
  clients :: "string set"
  paired_certs :: "string set"

definition state_data_new :: "string \<Rightarrow> state_data" where
  "state_data_new uuid = \<lparr>unique_id = uuid, clients = {}, paired_certs = {}\<rparr>"

record persistent_state =
  data :: state_data
  disk_file :: "string option"

record toml =
  to_toml :: "state_data \<Rightarrow> string option"
  from_toml :: "string \<Rightarrow> state_data option"

text \<open>What \<open>toml\<close> promises: what it prints it reads back.\<close>

definition toml_contract :: "toml \<Rightarrow> bool" where
  "toml_contract t \<longleftrightarrow> (\<forall>d s. to_toml t d = Some s \<longrightarrow> from_toml t s = Some d)"

section \<open>Operations\<close>

definition save :: "toml \<Rightarrow> bool \<Rightarrow> persistent_state \<Rightarrow> persistent_state \<times> unit res" where
  "save t write_ok st =
     (case to_toml t (data st) of
        None \<Rightarrow> (st, Inl Err)
      | Some s \<Rightarrow> if write_ok then (st\<lparr>disk_file := Some s\<rparr>, Inr ()) else (st, Inl Err))"

definition persistent_state_new :: "toml \<Rightarrow> bool \<Rightarrow> string \<Rightarrow> string option \<Rightarrow> persistent_state res" where
  "persistent_state_new t write_ok uuid disk =
     rbind (case disk of Some s \<Rightarrow> ok_or (from_toml t s) | None \<Rightarrow> Inr (state_data_new uuid)) (\<lambda>d.
       let (st, r) = save t write_ok \<lparr>data = d, disk_file = disk\<rparr> in
       rbind r (\<lambda>_. Inr st))"

definition get_uuid :: "persistent_state \<Rightarrow> string" where
  "get_uuid st = unique_id (data st)"

definition has_client :: "string \<Rightarrow> persistent_state \<Rightarrow> bool" where
  "has_client client st = (client \<in> clients (data st))"

definition add_client :: "toml \<Rightarrow> bool \<Rightarrow> string \<Rightarrow> persistent_state \<Rightarrow> persistent_state \<times> bool res" where
  "add_client t write_ok client st =
     (if client \<in> clients (data st) then (st, Inr False)
      else
        let (st', r) = save t write_ok (st\<lparr>data := (data st)\<lparr>clients := insert client (clients (data st))\<rparr>\<rparr>) in
        (st', rbind r (\<lambda>_. Inr True)))"

definition has_paired_cert :: "string \<Rightarrow> persistent_state \<Rightarrow> bool" where
  "has_paired_cert fingerprint st = (fingerprint \<in> paired_certs (data st))"

definition add_paired_cert :: "toml \<Rightarrow> bool \<Rightarrow> string \<Rightarrow> persistent_state \<Rightarrow> persistent_state \<times> bool res" where
  "add_paired_cert t write_ok fingerprint st =
     (let inserted = (fingerprint \<notin> paired_certs (data st));
          st = st\<lparr>data := (data st)\<lparr>paired_certs := insert fingerprint (paired_certs (data st))\<rparr>\<rparr> in
      if inserted then
        let (st', r) = save t write_ok st in (st', rbind r (\<lambda>_. Inr True))
      else (st, Inr False))"

section \<open>A persistent set\<close>

text \<open>What both collections promise: membership after an addition is membership before or the element
  added, whatever happens to the file; and an addition that reports a new element has written the file.\<close>

locale persistent_set =
  fixes members :: "persistent_state \<Rightarrow> string set"
    and add :: "bool \<Rightarrow> string \<Rightarrow> persistent_state \<Rightarrow> persistent_state \<times> bool res"
    and written :: "persistent_state \<Rightarrow> bool"
  assumes members_add: "members (fst (add ok x st)) = insert x (members st)"
    and add_known: "x \<in> members st \<Longrightarrow> add ok x st = (st, Inr False)"
    and add_written: "snd (add ok x st) = Inr True \<Longrightarrow> written (fst (add ok x st))"
    and add_fresh: "x \<notin> members st \<Longrightarrow> snd (add ok x st) \<noteq> Inr False"
begin

lemma add_idempotent: "add ok' x (fst (add ok x st)) = (fst (add ok x st), Inr False)"
  by (rule add_known) (simp add: members_add)

lemma add_Inr_written:
  assumes "snd (add ok x st) = Inr b" and "written st" shows "written (fst (add ok x st))"
proof (cases "x \<in> members st")
  case True
  then show ?thesis using assms(2) by (simp add: add_known)
next
  case False
  then show ?thesis using assms(1) add_fresh [of x st ok] add_written [of ok x st] by (cases b) auto
qed

lemma members_fold:
  "members (fold (\<lambda>(ok, x) st. fst (add ok x st)) xs st) = members st \<union> snd ` set xs"
  by (induction xs arbitrary: st) (auto simp: members_add)

end

text \<open>Memory and file agree.\<close>

definition on_disk :: "toml \<Rightarrow> persistent_state \<Rightarrow> bool" where
  "on_disk t st \<longleftrightarrow> (\<exists>s. disk_file st = Some s \<and> to_toml t (data st) = Some s)"

lemma save_data [simp]: "data (fst (save t ok st)) = data st"
  by (simp add: save_def split: option.split)

lemma save_on_disk: "snd (save t ok st) = Inr u \<Longrightarrow> on_disk t (fst (save t ok st))"
  by (auto simp: save_def on_disk_def split: option.splits if_splits)

lemma snd_rbind_save: "rbind (snd (save t ok st)) (\<lambda>_. Inr True) = Inr b \<longleftrightarrow> b = True \<and> snd (save t ok st) = Inr ()"
  by (cases "snd (save t ok st)") (auto simp: rbind_def)

interpretation client_set: persistent_set "\<lambda>st. clients (data st)" "add_client t" "on_disk t" for t
proof
  fix ok x st
  show "snd (add_client t ok x st) = Inr True \<Longrightarrow> on_disk t (fst (add_client t ok x st))"
    by (auto simp: add_client_def split_beta snd_rbind_save intro!: save_on_disk split: if_splits)
qed (auto simp: add_client_def split_beta snd_rbind_save Let_def)

interpretation cert_set: persistent_set "\<lambda>st. paired_certs (data st)" "add_paired_cert t" "on_disk t" for t
proof
  fix ok x st
  show "snd (add_paired_cert t ok x st) = Inr True \<Longrightarrow> on_disk t (fst (add_paired_cert t ok x st))"
    by (auto simp: add_paired_cert_def Let_def split_beta snd_rbind_save intro!: save_on_disk split: if_splits)
  show "x \<in> paired_certs (data st) \<Longrightarrow> add_paired_cert t ok x st = (st, Inr False)"
    by (simp add: add_paired_cert_def insert_absorb)
qed (auto simp: add_paired_cert_def split_beta snd_rbind_save Let_def)

section \<open>Runs\<close>

datatype state_op = AddClient string | AddCert string

fun state_op_step :: "toml \<Rightarrow> bool \<Rightarrow> state_op \<Rightarrow> persistent_state \<Rightarrow> persistent_state \<times> bool res" where
  "state_op_step t ok (AddClient x) st = add_client t ok x st"
| "state_op_step t ok (AddCert x) st = add_paired_cert t ok x st"

text \<open>A run in which every operation succeeded.\<close>

fun successful_run :: "toml \<Rightarrow> (bool \<times> state_op) list \<Rightarrow> persistent_state \<Rightarrow> persistent_state option" where
  "successful_run t [] st = Some st"
| "successful_run t ((ok, op) # ops) st =
     (case state_op_step t ok op st of (st', Inr _) \<Rightarrow> successful_run t ops st' | (_, Inl _) \<Rightarrow> None)"

lemma successful_run_on_disk: "successful_run t ops st = Some st' \<Longrightarrow> on_disk t st \<Longrightarrow> on_disk t st'"
proof (induction t ops st rule: successful_run.induct)
  case (2 t ok op ops st)
  then obtain st1 b where s: "state_op_step t ok op st = (st1, Inr b)"
    by (auto split: prod.splits sum.splits)
  then have "on_disk t st1"
    using client_set.add_Inr_written [of t ok _ st b] cert_set.add_Inr_written [of t ok _ st b] 2(3)
    by (cases op) (metis fst_conv snd_conv state_op_step.simps)+
  with 2 s show ?case by simp
qed simp

lemma persistent_state_new_on_disk: "persistent_state_new t ok uuid disk = Inr st \<Longrightarrow> on_disk t st"
  using save_on_disk by (fastforce simp: persistent_state_new_def rbind_eq_Inr split_beta Let_def)

text \<open>
  C17. Pairings survive a restart: after any run of successful additions, starting again from the file gives
  the same clients, certificates and unique id.
\<close>

theorem state_survives_restart:
  assumes "toml_contract t" and "persistent_state_new t ok uuid disk = Inr st"
    and "successful_run t ops st = Some st'"
  shows "persistent_state_new t True uuid' (disk_file st') = Inr st'"
proof -
  obtain s where s: "disk_file st' = Some s" "to_toml t (data st') = Some s"
    using successful_run_on_disk [OF assms(3) persistent_state_new_on_disk [OF assms(2)]] by (auto simp: on_disk_def)
  then have "from_toml t s = Some (data st')" using assms(1) by (simp add: toml_contract_def)
  with s show ?thesis by (simp add: persistent_state_new_def ok_or_def rbind_def save_def)
qed

text \<open>
  A failed write still pairs: an addition whose file write fails reports an error, yet the element is a
  member from then on, and repeating the addition reports success without writing the file.
\<close>

theorem failed_write_still_pairs:
  assumes "fingerprint \<notin> paired_certs (data st)"
  shows "\<exists>st'. add_paired_cert t False fingerprint st = (st', Inl Err) \<and> has_paired_cert fingerprint st' \<and>
    disk_file st' = disk_file st \<and> add_paired_cert t True fingerprint st' = (st', Inr False)"
proof -
  let ?st = "fst (add_paired_cert t False fingerprint st)"
  have "add_paired_cert t False fingerprint st = (?st, Inl Err)" "disk_file ?st = disk_file st"
    using assms by (auto simp: add_paired_cert_def save_def rbind_def Let_def split: option.split)
  with cert_set.members_add [of t False fingerprint st] cert_set.add_idempotent [of t True fingerprint False st]
  show ?thesis by (auto simp: has_paired_cert_def)
qed

text \<open>A concrete printer for the witnesses: the clients of a state that is empty or holds one client.\<close>

definition sample_toml :: toml where
  "sample_toml = \<lparr>to_toml = (\<lambda>d. if clients d = {} \<and> paired_certs d = {} then Some (CHR ''0'' # unique_id d)
       else if clients d = {''a''} \<and> paired_certs d = {} then Some (CHR ''1'' # unique_id d) else None),
     from_toml = (\<lambda>s. case s of
         c # u \<Rightarrow> if c = CHR ''0'' then Some \<lparr>unique_id = u, clients = {}, paired_certs = {}\<rparr>
           else if c = CHR ''1'' then Some \<lparr>unique_id = u, clients = {''a''}, paired_certs = {}\<rparr> else None
       | [] \<Rightarrow> None)\<rparr>"

lemma sample_toml_contract: "toml_contract sample_toml"
  by (auto simp: toml_contract_def sample_toml_def split: if_splits)

theorem state_survives_restart_witness:
  "\<exists>st. persistent_state_new sample_toml True ''x'' (disk_file st) = Inr st \<and> has_client ''a'' st"
proof -
  let ?e = "\<lparr>data = \<lparr>unique_id = ''u'', clients = {}, paired_certs = {}\<rparr>, disk_file = Some ''0u''\<rparr>"
  let ?a = "\<lparr>data = \<lparr>unique_id = ''u'', clients = {''a''}, paired_certs = {}\<rparr>, disk_file = Some ''1u''\<rparr>"
  have "persistent_state_new sample_toml True ''u'' None = Inr ?e"
    by (simp add: persistent_state_new_def rbind_def save_def sample_toml_def state_data_new_def)
  moreover have "successful_run sample_toml [(True, AddClient ''a'')] ?e = Some ?a"
    by (simp add: add_client_def save_def sample_toml_def rbind_def)
  ultimately have "persistent_state_new sample_toml True ''x'' (disk_file ?a) = Inr ?a"
    by (rule state_survives_restart [OF sample_toml_contract])
  then show ?thesis by (intro exI [of _ ?a]) (simp add: has_client_def)
qed

theorem failed_write_still_pairs_witness:
  "\<exists>st'. add_paired_cert sample_toml False ''f'' \<lparr>data = state_data_new ''u'', disk_file = None\<rparr> = (st', Inl Err) \<and>
    has_paired_cert ''f'' st'"
  using failed_write_still_pairs [of "''f''" "\<lparr>data = state_data_new ''u'', disk_file = None\<rparr>" sample_toml]
  by (auto simp: state_data_new_def)

end
