(* ===== verification/Clients.thy ===== *)
theory Clients
  imports Persistent_State Input_Events
begin

text \<open>
  The pairing protocol of \<open>clients.rs\<close>. SHA-256, the AES block cipher, X.509 parsing, RSA signatures and the
  hex printer are third-party code and collected in a record of parameters; the random secrets are arguments
  (\<open>None\<close> when the generator fails). Certificates and keys are their PEM texts.
\<close>

record pair_crypto =
  sha256 :: "bytes \<Rightarrow> bytes"
  aes_enc :: "bytes \<Rightarrow> bytes \<Rightarrow> bytes"
  aes_dec :: "bytes \<Rightarrow> bytes \<Rightarrow> bytes"
  pem_contents :: "string \<Rightarrow> bytes option"
  x509_signature :: "bytes \<Rightarrow> bytes option"
  x509_public_key :: "bytes \<Rightarrow> bytes option"
  rsa_sign :: "string \<Rightarrow> bytes \<Rightarrow> bytes option"
  rsa_verify :: "bytes \<Rightarrow> bytes \<Rightarrow> bytes \<Rightarrow> bool"
  hex_encode :: "bytes \<Rightarrow> string"

text \<open>What the cipher and the hash promise.\<close>

definition block_contract :: "pair_crypto \<Rightarrow> bool" where
  "block_contract cr \<longleftrightarrow>
     (\<forall>k b. length k = 16 \<and> length b = 16 \<longrightarrow>
        length (aes_enc cr k b) = 16 \<and> aes_dec cr k (aes_enc cr k b) = b) \<and>
     (\<forall>m. length (sha256 cr m) = 32)"

section \<open>Primitives\<close>

definition aes_encrypt_ecb :: "pair_crypto \<Rightarrow> bytes \<Rightarrow> bytes \<Rightarrow> bytes res" where
  "aes_encrypt_ecb cr bs key =
     (if length bs mod 16 \<noteq> 0 then Inl Err else Inr (concat (map (aes_enc cr key) (chunks 16 bs))))"

definition aes_decrypt_ecb :: "pair_crypto \<Rightarrow> bytes \<Rightarrow> bytes \<Rightarrow> bytes res" where
  "aes_decrypt_ecb cr bs key =
     (if length bs mod 16 \<noteq> 0 then Inl Err else Inr (concat (map (aes_dec cr key) (chunks 16 bs))))"

definition text_bytes :: "string \<Rightarrow> bytes" where
  "text_bytes s = map (\<lambda>c. of_nat (of_char c)) s"

definition create_key :: "pair_crypto \<Rightarrow> bytes \<Rightarrow> string \<Rightarrow> bytes" where
  "create_key cr salt pin = take 16 (sha256 cr (salt @ text_bytes pin))"

definition extract_certificate_signature :: "pair_crypto \<Rightarrow> string \<Rightarrow> bytes res" where
  "extract_certificate_signature cr pem = rbind (ok_or (pem_contents cr pem)) (\<lambda>der. ok_or (x509_signature cr der))"

definition verify_client_signature :: "pair_crypto \<Rightarrow> string \<Rightarrow> bytes \<Rightarrow> bytes \<Rightarrow> unit res" where
  "verify_client_signature cr pem secret signature =
     rbind (ok_or (pem_contents cr pem)) (\<lambda>der.
     rbind (ok_or (x509_public_key cr der)) (\<lambda>public_key.
       if rsa_verify cr public_key secret signature then Inr () else Inl Err))"

definition cert_pem_fingerprint :: "pair_crypto \<Rightarrow> string \<Rightarrow> string option" where
  "cert_pem_fingerprint cr pem = map_option (\<lambda>der. hex_encode cr (sha256 cr der)) (pem_contents cr pem)"

section \<open>Clients in the pairing process\<close>

record pending_client =
  pc_id :: string
  pc_pem :: string
  pc_salt :: bytes
  pc_key :: "bytes option"
  pc_server_secret :: "bytes option"
  pc_server_challenge :: "bytes option"
  pc_client_hash :: "bytes option"

record client_manager =
  pending_clients :: "string \<rightharpoonup> pending_client"
  cm_state :: persistent_state
  server_cert_pem :: string
  server_private_key_pem :: string

definition is_paired :: "string \<Rightarrow> client_manager \<Rightarrow> bool" where
  "is_paired client_id cm = has_client client_id (cm_state cm)"

definition is_cert_paired :: "string \<Rightarrow> client_manager \<Rightarrow> bool" where
  "is_cert_paired fingerprint cm = has_paired_cert fingerprint (cm_state cm)"

definition put_client :: "pending_client \<Rightarrow> string \<Rightarrow> client_manager \<Rightarrow> client_manager" where
  "put_client c client_id cm = cm\<lparr>pending_clients := (pending_clients cm)(client_id \<mapsto> c)\<rparr>"

definition start_pairing :: "pending_client \<Rightarrow> client_manager \<Rightarrow> client_manager" where
  "start_pairing c cm = put_client c (pc_id c) cm"

definition register_pin :: "pair_crypto \<Rightarrow> string \<Rightarrow> string \<Rightarrow> client_manager \<Rightarrow> client_manager \<times> unit res" where
  "register_pin cr client_id pin cm =
     (case pending_clients cm client_id of
        None \<Rightarrow> (cm, Inl Err)
      | Some c \<Rightarrow> (put_client (c\<lparr>pc_key := Some (create_key cr (pc_salt c) pin)\<rparr>) client_id cm, Inr ()))"

text \<open>\<open>secret\<close> and \<open>challenge\<close> are the two random values.\<close>

definition client_challenge :: "pair_crypto \<Rightarrow> bytes option \<Rightarrow> bytes option \<Rightarrow> string \<Rightarrow> bytes \<Rightarrow> client_manager \<Rightarrow>
    client_manager \<times> bytes res" where
  "client_challenge cr secret challenge client_id request cm =
     (case pending_clients cm client_id of
        None \<Rightarrow> (cm, Inl Err)
      | Some c \<Rightarrow>
          (case pc_key c of
             None \<Rightarrow> (cm, Inl Err)
           | Some key \<Rightarrow>
               (case secret of
                  None \<Rightarrow> (cm, Inl Err)
                | Some server_secret \<Rightarrow>
                    let c = c\<lparr>pc_server_secret := Some server_secret\<rparr>; cm = put_client c client_id cm in
                    (case rbind (aes_decrypt_ecb cr request key) (\<lambda>decrypted.
                            rbind (extract_certificate_signature cr (server_cert_pem cm)) (\<lambda>signature.
                              Inr (decrypted @ signature @ server_secret))) of
                       Inl e \<Rightarrow> (cm, Inl e)
                     | Inr answered \<Rightarrow>
                         (case challenge of
                            None \<Rightarrow> (cm, Inl Err)
                          | Some server_challenge \<Rightarrow>
                              (put_client (c\<lparr>pc_server_challenge := Some server_challenge\<rparr>) client_id cm,
                               aes_encrypt_ecb cr (sha256 cr answered @ server_challenge) key))))))"

definition server_challenge_response :: "pair_crypto \<Rightarrow> string \<Rightarrow> bytes \<Rightarrow> client_manager \<Rightarrow> client_manager \<times> bytes res" where
  "server_challenge_response cr client_id challenge_response cm =
     (case pending_clients cm client_id of
        None \<Rightarrow> (cm, Inl Err)
      | Some c \<Rightarrow>
          (case pc_key c of
             None \<Rightarrow> (cm, Inl Err)
           | Some key \<Rightarrow>
               (case aes_decrypt_ecb cr challenge_response key of
                  Inl e \<Rightarrow> (cm, Inl e)
                | Inr decrypted \<Rightarrow>
                    (put_client (c\<lparr>pc_client_hash := Some decrypted\<rparr>) client_id cm,
                     rbind (ok_or (pc_server_secret c)) (\<lambda>server_secret.
                     rbind (ok_or (rsa_sign cr (server_private_key_pem cm) server_secret)) (\<lambda>signed.
                       Inr (server_secret @ signed)))))))"

definition verify_pairing_secret :: "pair_crypto \<Rightarrow> pending_client \<Rightarrow> bytes \<Rightarrow> unit res" where
  "verify_pairing_secret cr c client_secret =
     (case pc_client_hash c of
        None \<Rightarrow> Inl Err
      | Some client_hash \<Rightarrow>
          (case pc_server_challenge c of
             None \<Rightarrow> Inl Err
           | Some server_challenge \<Rightarrow>
               if length client_secret < 16 then Inl Err
               else
                 rbind (extract_certificate_signature cr (pc_pem c)) (\<lambda>signature.
                   if sha256 cr (server_challenge @ signature @ take 16 client_secret) \<noteq> client_hash then Inl Err
                   else verify_client_signature cr (pc_pem c) (take 16 client_secret) (drop 16 client_secret))))"

text \<open>The two flags say whether the state file can be written, for the certificate and for the client.\<close>

definition check_client_pairing_secret :: "pair_crypto \<Rightarrow> toml \<Rightarrow> bool \<Rightarrow> bool \<Rightarrow> string \<Rightarrow> bytes \<Rightarrow> client_manager \<Rightarrow>
    client_manager \<times> unit res" where
  "check_client_pairing_secret cr t cert_ok client_ok client_id client_secret cm =
     (case pending_clients cm client_id of
        None \<Rightarrow> (cm, Inl Err)
      | Some c \<Rightarrow>
          (case verify_pairing_secret cr c client_secret of
             Inl e \<Rightarrow> (cm, Inl e)
           | Inr _ \<Rightarrow>
               let (st1, r1) =
                 (case cert_pem_fingerprint cr (pc_pem c) of
                    Some fp \<Rightarrow> add_paired_cert t cert_ok fp (cm_state cm)
                  | None \<Rightarrow> (cm_state cm, Inr False))
               in case r1 of
                 Inl _ \<Rightarrow> (cm\<lparr>cm_state := st1\<rparr>, Inl Err)
               | Inr _ \<Rightarrow>
                   if has_client client_id st1 then (cm\<lparr>cm_state := st1\<rparr>, Inr ())
                   else
                     let (st2, r2) = add_client t client_ok client_id st1 in
                     (cm\<lparr>cm_state := st2\<rparr>, rbind r2 (\<lambda>_. Inr ()))))"

section \<open>The block mode\<close>

lemma chunks_16_length: "length xs mod 16 = 0 \<Longrightarrow> \<forall>b \<in> set (chunks 16 xs). length b = 16"
  using chunks_dvd [of 16 16 xs] chunks_bounds [of _ 16 xs] by (meson dvd_imp_le dvd_refl le_antisym mod_eq_0_iff_dvd)

lemma length_concat_blocks: "\<forall>b \<in> set bs. length b = 16 \<Longrightarrow> length (concat bs) mod 16 = 0"
  by (induction bs) auto

lemma create_key_length: "block_contract cr \<Longrightarrow> length (create_key cr salt pin) = 16"
  by (simp add: block_contract_def create_key_def)

lemma aes_ecb_roundtrip:
  assumes "block_contract cr" and "length key = 16" and "aes_encrypt_ecb cr bs key = Inr ciphertext"
  shows "aes_decrypt_ecb cr ciphertext key = Inr bs"
proof -
  have m: "length bs mod 16 = 0" and c: "ciphertext = concat (map (aes_enc cr key) (chunks 16 bs))"
    using assms(3) by (auto simp: aes_encrypt_ecb_def split: if_splits)
  have b: "\<forall>b \<in> set (map (aes_enc cr key) (chunks 16 bs)). length b = 16"
    using chunks_16_length [OF m] assms(1,2) by (auto simp: block_contract_def)
  have "chunks 16 ciphertext = map (aes_enc cr key) (chunks 16 bs)" unfolding c by (rule chunks_concat) (use b in auto)
  moreover have "map (aes_dec cr key) (map (aes_enc cr key) (chunks 16 bs)) = chunks 16 bs"
    using chunks_16_length [OF m] assms(1,2) by (auto simp: block_contract_def intro!: map_idI)
  ultimately show ?thesis using length_concat_blocks [OF b] concat_chunks [of 16 bs] by (simp add: aes_decrypt_ecb_def c)
qed

lemma aes_encrypt_total: "length bs mod 16 = 0 \<Longrightarrow> \<exists>c. aes_encrypt_ecb cr bs key = Inr c"
  by (simp add: aes_encrypt_ecb_def)

section \<open>Runs of the pairing protocol\<close>

definition fresh_pending :: "string \<Rightarrow> string \<Rightarrow> bytes \<Rightarrow> pending_client" where
  "fresh_pending client_id pem salt = \<lparr>pc_id = client_id, pc_pem = pem, pc_salt = salt, pc_key = None,
     pc_server_secret = None, pc_server_challenge = None, pc_client_hash = None\<rparr>"

text \<open>The manager and the PINs a user has entered so far.\<close>

record pair_world =
  pw_manager :: client_manager
  pw_pins :: "(string \<times> string) set"

inductive pair_step :: "pair_crypto \<Rightarrow> toml \<Rightarrow> pair_world \<Rightarrow> pair_world \<Rightarrow> bool" for cr t where
  start: "pair_step cr t w (w\<lparr>pw_manager := start_pairing (fresh_pending client_id pem salt) (pw_manager w)\<rparr>)"
| pin: "register_pin cr client_id pin (pw_manager w) = (cm, r) \<Longrightarrow>
    pair_step cr t w (w\<lparr>pw_manager := cm, pw_pins := insert (client_id, pin) (pw_pins w)\<rparr>)"
| challenge: "client_challenge cr secret chal client_id request (pw_manager w) = (cm, r) \<Longrightarrow>
    pair_step cr t w (w\<lparr>pw_manager := cm\<rparr>)"
| response: "server_challenge_response cr client_id response (pw_manager w) = (cm, r) \<Longrightarrow>
    pair_step cr t w (w\<lparr>pw_manager := cm\<rparr>)"
| check: "check_client_pairing_secret cr t a b client_id secret (pw_manager w) = (cm, r) \<Longrightarrow>
    pair_step cr t w (w\<lparr>pw_manager := cm\<rparr>)"

text \<open>A key comes from an entered PIN; a client hash was decrypted under such a key.\<close>

definition pending_ok :: "pair_crypto \<Rightarrow> (string \<times> string) set \<Rightarrow> string \<Rightarrow> pending_client \<Rightarrow> bool" where
  "pending_ok cr pins client_id c \<longleftrightarrow>
     (\<forall>k. pc_key c = Some k \<longrightarrow> (\<exists>pin. (client_id, pin) \<in> pins \<and> k = create_key cr (pc_salt c) pin)) \<and>
     (\<forall>h. pc_client_hash c = Some h \<longrightarrow>
        (\<exists>pin response. (client_id, pin) \<in> pins \<and>
           aes_decrypt_ecb cr response (create_key cr (pc_salt c) pin) = Inr h))"

definition pair_ok :: "pair_crypto \<Rightarrow> pair_world \<Rightarrow> bool" where
  "pair_ok cr w \<longleftrightarrow>
     (\<forall>client_id c. pending_clients (pw_manager w) client_id = Some c \<longrightarrow> pending_ok cr (pw_pins w) client_id c)"

lemma pending_ok_mono: "pending_ok cr pins client_id c \<Longrightarrow> pins \<subseteq> pins' \<Longrightarrow> pending_ok cr pins' client_id c"
  unfolding pending_ok_def by (meson subset_iff)

lemma pair_ok_put:
  assumes "pair_ok cr w" and "pending_ok cr pins client_id c" and "pw_pins w \<subseteq> pins"
  shows "pair_ok cr (w\<lparr>pw_manager := put_client c client_id (pw_manager w), pw_pins := pins\<rparr>)"
proof -
  have "pending_ok cr pins i d" if "pending_clients (pw_manager w) i = Some d" for i d
    using assms(1,3) that by (auto simp: pair_ok_def intro: pending_ok_mono)
  with assms(2) show ?thesis by (simp add: pair_ok_def put_client_def)
qed

lemma pair_ok_put_same:
  assumes "pair_ok cr w" and "pending_ok cr (pw_pins w) client_id c"
  shows "pair_ok cr (w\<lparr>pw_manager := put_client c client_id (pw_manager w)\<rparr>)"
  using pair_ok_put [OF assms subset_refl] by simp

lemma check_pending: "check_client_pairing_secret cr t a b client_id secret cm = (cm', r) \<Longrightarrow>
    pending_clients cm' = pending_clients cm"
  by (auto simp: check_client_pairing_secret_def Let_def split: option.splits sum.splits prod.splits if_splits)

lemma client_challenge_updates:
  assumes "client_challenge cr secret chal client_id request cm = (cm', r)"
  shows "cm' = cm \<or> (\<exists>c s ch. pending_clients cm client_id = Some c \<and>
    cm' = put_client (c\<lparr>pc_server_secret := s, pc_server_challenge := ch\<rparr>) client_id cm)"
proof -
  have id: "c\<lparr>pc_server_secret := s\<rparr> = c\<lparr>pc_server_secret := s, pc_server_challenge := pc_server_challenge c\<rparr>" for c s
    by simp
  have twice: "put_client d i (put_client c i cm) = put_client d i cm" for c d i
    by (simp add: put_client_def)
  show ?thesis
    using assms unfolding client_challenge_def Let_def
    by (auto simp: twice split: option.splits sum.splits) (metis id)+
qed

lemma pair_step_ok:
  assumes "pair_step cr t w w'" and "pair_ok cr w" shows "pair_ok cr w'"
  using assms
proof (induction rule: pair_step.induct)
  case (start w client_id pem salt)
  then show ?case unfolding start_pairing_def
    by (intro pair_ok_put_same) (simp_all add: fresh_pending_def pending_ok_def)
next
  case (pin client_id p w cm r)
  show ?case
  proof (cases "pending_clients (pw_manager w) client_id")
    case None
    with pin pending_ok_mono [of cr "pw_pins w"] show ?thesis
      by (auto simp: register_pin_def pair_ok_def subset_insertI)
  next
    case (Some c)
    then have "pending_ok cr (pw_pins w) client_id c" using pin(2) by (simp add: pair_ok_def)
    then have "pending_ok cr (insert (client_id, p) (pw_pins w)) client_id
        (c\<lparr>pc_key := Some (create_key cr (pc_salt c) p)\<rparr>)"
      using pending_ok_mono [of cr "pw_pins w" client_id c "insert (client_id, p) (pw_pins w)"]
      by (auto simp: pending_ok_def subset_insertI)
    then have "pair_ok cr (w\<lparr>pw_manager := put_client (c\<lparr>pc_key := Some (create_key cr (pc_salt c) p)\<rparr>) client_id (pw_manager w),
        pw_pins := insert (client_id, p) (pw_pins w)\<rparr>)"
      by (intro pair_ok_put [OF pin(2)]) auto
    then show ?thesis using pin(1) Some by (auto simp: register_pin_def)
  qed
next
  case (challenge secret chal client_id request w cm r)
  from client_challenge_updates [OF challenge(1)] show ?case
  proof
    assume "\<exists>c s ch. pending_clients (pw_manager w) client_id = Some c \<and>
      cm = put_client (c\<lparr>pc_server_secret := s, pc_server_challenge := ch\<rparr>) client_id (pw_manager w)"
    then obtain c s ch where c: "pending_clients (pw_manager w) client_id = Some c"
      "cm = put_client (c\<lparr>pc_server_secret := s, pc_server_challenge := ch\<rparr>) client_id (pw_manager w)" by blast
    then have "pending_ok cr (pw_pins w) client_id (c\<lparr>pc_server_secret := s, pc_server_challenge := ch\<rparr>)"
      using challenge(2) by (simp add: pair_ok_def pending_ok_def)
    then show ?thesis unfolding c(2) by (rule pair_ok_put_same [OF challenge(2)])
  qed (use challenge(2) in simp)
next
  case (response client_id response w cm r)
  show ?case
  proof (cases "cm = pw_manager w")
    case False
    then obtain c k h where c: "pending_clients (pw_manager w) client_id = Some c" "pc_key c = Some k"
      "aes_decrypt_ecb cr response k = Inr h" "cm = put_client (c\<lparr>pc_client_hash := Some h\<rparr>) client_id (pw_manager w)"
      using response(1) by (auto simp: server_challenge_response_def split: option.splits sum.splits)
    have "pending_ok cr (pw_pins w) client_id c" using c(1) response(2) by (simp add: pair_ok_def)
    with c have "pending_ok cr (pw_pins w) client_id (c\<lparr>pc_client_hash := Some h\<rparr>)"
      unfolding pending_ok_def by auto
    then show ?thesis unfolding c(4) by (rule pair_ok_put_same [OF response(2)])
  qed (use response in simp)
next
  case (check a b client_id secret w cm r)
  then show ?case using check_pending [OF check(1)] by (simp add: pair_ok_def)
qed

interpretation pairing: transition_system "\<lambda>w. pending_clients (pw_manager w) = Map.empty" "pair_step cr t" "pair_ok cr" for cr t
  by unfold_locales (simp add: pair_ok_def, rule pair_step_ok)

section \<open>Properties\<close>

lemma verify_pairing_secret_Inr:
  assumes "verify_pairing_secret cr c secret = Inr u"
  shows "\<exists>ch sg. pc_server_challenge c = Some ch \<and> extract_certificate_signature cr (pc_pem c) = Inr sg \<and>
    16 \<le> length secret \<and> pc_client_hash c = Some (sha256 cr (ch @ sg @ take 16 secret)) \<and>
    verify_client_signature cr (pc_pem c) (take 16 secret) (drop 16 secret) = Inr ()"
  using assms by (auto simp: verify_pairing_secret_def rbind_eq_Inr split: option.splits if_splits)

lemma check_outcome:
  assumes "check_client_pairing_secret cr t a b client_id secret cm = (cm', r)"
    and "clients (data (cm_state cm')) \<noteq> clients (data (cm_state cm)) \<or>
      paired_certs (data (cm_state cm')) \<noteq> paired_certs (data (cm_state cm))"
  obtains c where "pending_clients cm client_id = Some c" "verify_pairing_secret cr c secret = Inr ()"
  using assms by (auto simp: check_client_pairing_secret_def split: option.splits sum.splits)

lemma add_cert_clients: "clients (data (fst (add_paired_cert t ok fp st))) = clients (data st)"
  by (simp add: add_paired_cert_def Let_def split_beta)

lemma add_client_certs: "paired_certs (data (fst (add_client t ok x st))) = paired_certs (data st)"
  by (simp add: add_client_def Let_def split_beta)

text \<open>
  C15. Nobody is paired without the PIN and the private key. In every run of the protocol from a manager with no
  pending clients, whatever is sent in whatever order, a check that pairs a new client or certificate was made for
  a pending client for whose id a PIN was entered; the hash the client had committed to decrypts under
  the key of such a PIN to the digest of the server's challenge, the signature of the client's
  certificate and the secret; and the secret is signed with the key of that certificate.
\<close>

theorem pairing_needs_pin_and_signature:
  assumes "pending_clients (pw_manager w0) = Map.empty" and "(pair_step cr t)\<^sup>*\<^sup>* w0 w"
    and "check_client_pairing_secret cr t a b client_id secret (pw_manager w) = (cm', r)"
    and "clients (data (cm_state cm')) \<noteq> clients (data (cm_state (pw_manager w))) \<or>
      paired_certs (data (cm_state cm')) \<noteq> paired_certs (data (cm_state (pw_manager w)))"
  shows "\<exists>c pin response ch sg. pending_clients (pw_manager w) client_id = Some c \<and> (client_id, pin) \<in> pw_pins w \<and>
    pc_server_challenge c = Some ch \<and> extract_certificate_signature cr (pc_pem c) = Inr sg \<and>
    aes_decrypt_ecb cr response (create_key cr (pc_salt c) pin) = Inr (sha256 cr (ch @ sg @ take 16 secret)) \<and>
    verify_client_signature cr (pc_pem c) (take 16 secret) (drop 16 secret) = Inr ()"
proof -
  obtain c where c: "pending_clients (pw_manager w) client_id = Some c" "verify_pairing_secret cr c secret = Inr ()"
    using check_outcome [OF assms(3,4)] by blast
  have "pending_ok cr (pw_pins w) client_id c"
    using pairing.reachable_inv [OF assms(1,2)] c(1) by (simp add: pair_ok_def)
  with verify_pairing_secret_Inr [OF c(2)] c(1) show ?thesis by (fastforce simp: pending_ok_def)
qed

text \<open>What an honest client does with the answers of the server.\<close>

record pair_client =
  cl_id :: string
  cl_pem :: string
  cl_salt :: bytes
  cl_pin :: string
  cl_challenge :: bytes
  cl_secret :: bytes
  cl_signature :: bytes

definition honest_pairing :: "pair_crypto \<Rightarrow> toml \<Rightarrow> bytes \<Rightarrow> bytes \<Rightarrow> bytes \<Rightarrow> pair_client \<Rightarrow> client_manager \<Rightarrow> client_manager res" where
  "honest_pairing cr t secret challenge server_signature cl cm =
     (let key = create_key cr (cl_salt cl) (cl_pin cl);
          cm1 = start_pairing (fresh_pending (cl_id cl) (cl_pem cl) (cl_salt cl)) cm;
          (cm2, pin_result) = register_pin cr (cl_id cl) (cl_pin cl) cm1
      in rbind (aes_encrypt_ecb cr (cl_challenge cl) key) (\<lambda>request.
         let (cm3, answer) = client_challenge cr (Some secret) (Some challenge) (cl_id cl) request cm2 in
         rbind answer (\<lambda>encrypted.
         rbind (aes_decrypt_ecb cr encrypted key) (\<lambda>plain.
         rbind (extract_certificate_signature cr (cl_pem cl)) (\<lambda>signature.
         rbind (aes_encrypt_ecb cr (sha256 cr (drop 32 plain @ signature @ cl_secret cl)) key) (\<lambda>response.
         let (cm4, answer) = server_challenge_response cr (cl_id cl) response cm3 in
         rbind answer (\<lambda>pairing_secret.
           if take 32 plain \<noteq> sha256 cr (cl_challenge cl @ server_signature @ take 16 pairing_secret) then Inl Err
           else
             let (cm5, r) = check_client_pairing_secret cr t True True (cl_id cl) (cl_secret cl @ cl_signature cl) cm4 in
             rbind r (\<lambda>_. Inr cm5))))))))"

text \<open>The exchange the client sees, step by step.\<close>

lemma honest_challenge:
  assumes contract: "block_contract cr" and "length challenge = 16"
    and "pending_clients cm client_id = Some c" and "pc_key c = Some key" and "length key = 16"
    and "extract_certificate_signature cr (server_cert_pem cm) = Inr server_signature"
    and "aes_encrypt_ecb cr request key = Inr encrypted"
  obtains answer where
    "client_challenge cr (Some secret) (Some challenge) client_id encrypted cm =
      (put_client (c\<lparr>pc_server_secret := Some secret, pc_server_challenge := Some challenge\<rparr>) client_id cm, Inr answer)"
    "aes_decrypt_ecb cr answer key = Inr (sha256 cr (request @ server_signature @ secret) @ challenge)"
proof -
  let ?plain = "sha256 cr (request @ server_signature @ secret) @ challenge"
  have "length ?plain mod 16 = 0" using contract assms(2) by (simp add: block_contract_def)
  then obtain answer where a: "aes_encrypt_ecb cr ?plain key = Inr answer" by (auto simp: aes_encrypt_ecb_def)
  have d: "aes_decrypt_ecb cr encrypted key = Inr request" by (rule aes_ecb_roundtrip [OF contract assms(5,7)])
  show thesis
  proof (rule that [of answer])
    show "client_challenge cr (Some secret) (Some challenge) client_id encrypted cm =
        (put_client (c\<lparr>pc_server_secret := Some secret, pc_server_challenge := Some challenge\<rparr>) client_id cm, Inr answer)"
      using assms(3,4,6) a d by (simp add: client_challenge_def put_client_def rbind_def)
    show "aes_decrypt_ecb cr answer key = Inr ?plain" by (rule aes_ecb_roundtrip [OF contract assms(5) a])
  qed
qed

lemma honest_check:
  assumes "pending_clients cm client_id = Some c" and "verify_pairing_secret cr c secret = Inr ()"
    and "\<And>d. to_toml t d \<noteq> None" and "cert_pem_fingerprint cr (pc_pem c) = Some fp"
  obtains cm' where "check_client_pairing_secret cr t True True client_id secret cm = (cm', Inr ())"
    "is_paired client_id cm'" "is_cert_paired fp cm'"
proof -
  have sv: "snd (save t True st) = Inr ()" for st using assms(3) [of "data st"] by (auto simp: save_def)
  have c: "snd (add_paired_cert t True fp st) \<noteq> Inl e" "snd (add_client t True x st) \<noteq> Inl e" for st x e
    using sv by (auto simp: add_paired_cert_def add_client_def Let_def split_beta rbind_def)
  obtain s1 b where b: "add_paired_cert t True fp (cm_state cm) = (s1, Inr b)"
    using c(1) [of "cm_state cm"] by (metis prod.collapse obj_sumE)
  obtain s2 b2 where b2: "add_client t True client_id s1 = (s2, Inr b2)"
    using c(2) [of client_id s1] by (metis prod.collapse obj_sumE)
  let ?s2 = "if has_client client_id s1 then s1 else s2"
  have "check_client_pairing_secret cr t True True client_id secret cm = (cm\<lparr>cm_state := ?s2\<rparr>, Inr ())"
    using assms(1,2,4) by (simp add: check_client_pairing_secret_def b b2 rbind_def)
  moreover have "client_id \<in> clients (data ?s2)" "fp \<in> paired_certs (data ?s2)"
    using cert_set.members_add [of t True fp "cm_state cm"] client_set.members_add [of t True client_id s1]
      add_client_certs [of t True client_id s1]
    by (auto simp: has_client_def b b2)
  ultimately show thesis by (intro that [of "cm\<lparr>cm_state := ?s2\<rparr>"]) (simp_all add: is_paired_def is_cert_paired_def has_client_def has_paired_cert_def)
qed

text \<open>
  C16. Honest pairing succeeds: with a cipher that decrypts what it encrypts, a client that knows the PIN the user
  entered and holds the key of its certificate goes through the whole exchange, accepts the
  server's answers, and ends up paired, by id and by certificate.
\<close>

theorem honest_pairing_completes:
  assumes contract: "block_contract cr" and toml: "\<And>d. to_toml t d \<noteq> None"
    and "length (cl_challenge cl) = 16" and "length (cl_secret cl) = 16" and "length secret = 16" and "length challenge = 16"
    and server: "extract_certificate_signature cr (server_cert_pem cm) = Inr server_signature"
    and signs: "rsa_sign cr (server_private_key_pem cm) secret = Some server_signed"
    and cert: "extract_certificate_signature cr (cl_pem cl) = Inr client_signature"
    and verify: "verify_client_signature cr (cl_pem cl) (cl_secret cl) (cl_signature cl) = Inr ()"
    and fp: "cert_pem_fingerprint cr (cl_pem cl) = Some fp"
  shows "\<exists>cm'. honest_pairing cr t secret challenge server_signature cl cm = Inr cm' \<and>
    is_paired (cl_id cl) cm' \<and> is_cert_paired fp cm'"
proof -
  let ?id = "cl_id cl" and ?key = "create_key cr (cl_salt cl) (cl_pin cl)"
  let ?c = "(fresh_pending ?id (cl_pem cl) (cl_salt cl))\<lparr>pc_key := Some ?key\<rparr>"
  let ?c3 = "?c\<lparr>pc_server_secret := Some secret, pc_server_challenge := Some challenge\<rparr>"
  let ?hash = "sha256 cr (challenge @ client_signature @ cl_secret cl)"
  note key = create_key_length [OF contract, of "cl_salt cl" "cl_pin cl"]
  have pin: "register_pin cr ?id (cl_pin cl) (start_pairing (fresh_pending ?id (cl_pem cl) (cl_salt cl)) cm) =
      (put_client ?c ?id cm, Inr ())"
    by (simp add: register_pin_def start_pairing_def put_client_def fresh_pending_def)
  obtain request where request: "aes_encrypt_ecb cr (cl_challenge cl) ?key = Inr request"
    using assms(3) by (auto simp: aes_encrypt_ecb_def)
  obtain answer where ch: "client_challenge cr (Some secret) (Some challenge) ?id request (put_client ?c ?id cm) =
      (put_client ?c3 ?id (put_client ?c ?id cm), Inr answer)"
    and plain: "aes_decrypt_ecb cr answer ?key = Inr (sha256 cr (cl_challenge cl @ server_signature @ secret) @ challenge)"
    by (rule honest_challenge [OF contract assms(6) _ _ key _ request, of "put_client ?c ?id cm" ?id ?c server_signature secret])
      (simp_all add: put_client_def server)
  obtain response where response: "aes_encrypt_ecb cr ?hash ?key = Inr response"
    using contract by (auto simp: aes_encrypt_ecb_def block_contract_def)
  have hash: "aes_decrypt_ecb cr response ?key = Inr ?hash" by (rule aes_ecb_roundtrip [OF contract key response])
  let ?cm4 = "put_client (?c3\<lparr>pc_client_hash := Some ?hash\<rparr>) ?id (put_client ?c3 ?id (put_client ?c ?id cm))"
  have scr: "server_challenge_response cr ?id response (put_client ?c3 ?id (put_client ?c ?id cm)) =
      (?cm4, Inr (secret @ server_signed))"
    using hash signs by (simp add: server_challenge_response_def put_client_def rbind_def ok_or_def)
  have v: "verify_pairing_secret cr (?c3\<lparr>pc_client_hash := Some ?hash\<rparr>) (cl_secret cl @ cl_signature cl) = Inr ()"
    using assms(4) cert verify by (simp add: verify_pairing_secret_def rbind_def fresh_pending_def)
  obtain cm' where "check_client_pairing_secret cr t True True ?id (cl_secret cl @ cl_signature cl) ?cm4 = (cm', Inr ())"
    "is_paired ?id cm'" "is_cert_paired fp cm'"
    by (rule honest_check [OF _ v toml, of ?cm4 ?id fp]) (simp_all add: put_client_def fresh_pending_def fp)
  moreover have "length (sha256 cr m) = 32" for m using contract by (simp add: block_contract_def)
  ultimately show ?thesis
    using assms(5) by (simp add: honest_pairing_def pin request ch plain cert response scr rbind_def Let_def)
qed

section \<open>A concrete instance\<close>

text \<open>A transparent cipher, a constant digest and signatures that repeat what they sign.\<close>

definition sample_crypto :: pair_crypto where
  "sample_crypto = \<lparr>sha256 = (\<lambda>m. replicate 32 7), aes_enc = (\<lambda>k b. b), aes_dec = (\<lambda>k b. b),
     pem_contents = (\<lambda>p. Some (text_bytes p)), x509_signature = (\<lambda>d. Some d), x509_public_key = (\<lambda>d. Some d),
     rsa_sign = (\<lambda>k m. Some m), rsa_verify = (\<lambda>k m s. s = m), hex_encode = (\<lambda>b. ''fp'')\<rparr>"

definition total_toml :: toml where
  "total_toml = \<lparr>to_toml = (\<lambda>d. Some ''state''), from_toml = (\<lambda>s. None)\<rparr>"

definition sample_client :: pair_client where
  "sample_client = \<lparr>cl_id = ''id'', cl_pem = ''pem'', cl_salt = replicate 16 1, cl_pin = ''1234'',
     cl_challenge = replicate 16 2, cl_secret = replicate 16 3, cl_signature = replicate 16 3\<rparr>"

definition sample_client_manager :: client_manager where
  "sample_client_manager = \<lparr>pending_clients = Map.empty, cm_state = \<lparr>data = state_data_new ''u'', disk_file = None\<rparr>,
     server_cert_pem = ''s'', server_private_key_pem = ''k''\<rparr>"

lemma sample_block_contract: "block_contract sample_crypto"
  by (simp add: block_contract_def sample_crypto_def)

lemma sample_crypto_facts:
  "extract_certificate_signature sample_crypto p = Inr (text_bytes p)"
  "verify_client_signature sample_crypto p m s = (if s = m then Inr () else Inl Err)"
  "cert_pem_fingerprint sample_crypto p = Some ''fp''" "rsa_sign sample_crypto pk m = Some m"
  "length m mod 16 = 0 \<Longrightarrow> aes_decrypt_ecb sample_crypto m k = Inr m"
  "length m mod 16 = 0 \<Longrightarrow> aes_encrypt_ecb sample_crypto m k = Inr m"
  "create_key sample_crypto salt pin = replicate 16 7" "sha256 sample_crypto m = replicate 32 7"
  by (simp_all add: extract_certificate_signature_def verify_client_signature_def cert_pem_fingerprint_def
      sample_crypto_def rbind_def ok_or_def aes_decrypt_ecb_def aes_encrypt_ecb_def concat_chunks create_key_def)

theorem honest_pairing_completes_witness:
  "\<exists>cm'. honest_pairing sample_crypto total_toml (replicate 16 4) (replicate 16 5) (text_bytes ''s'') sample_client
      sample_client_manager = Inr cm' \<and> is_paired ''id'' cm'"
  using honest_pairing_completes [OF sample_block_contract, where t = total_toml and cl = sample_client and secret = "replicate 16 4"
      and challenge = "replicate 16 5" and cm = sample_client_manager and server_signature = "text_bytes ''s''"
      and server_signed = "replicate 16 4" and client_signature = "text_bytes ''pem''" and fp = "''fp''"]
  by (simp add: sample_crypto_facts total_toml_def sample_client_def sample_client_manager_def) blast

definition sample_pending :: pending_client where
  "sample_pending = \<lparr>pc_id = ''id'', pc_pem = ''pem'', pc_salt = [], pc_key = Some (replicate 16 7),
     pc_server_secret = Some (replicate 16 4), pc_server_challenge = Some (replicate 16 5),
     pc_client_hash = Some (replicate 32 7)\<rparr>"

abbreviation sample_pair_world :: "(string \<rightharpoonup> pending_client) \<Rightarrow> (string \<times> string) set \<Rightarrow> pair_world" where
  "sample_pair_world p pins \<equiv> \<lparr>pw_manager = sample_client_manager\<lparr>pending_clients := p\<rparr>, pw_pins = pins\<rparr>"

lemma sample_pair_run:
  "(pair_step sample_crypto total_toml)\<^sup>*\<^sup>* (sample_pair_world Map.empty {})
    (sample_pair_world [''id'' \<mapsto> sample_pending] {(''id'', ''1234'')})"
proof -
  let ?step = "pair_step sample_crypto total_toml"
  let ?f = "fresh_pending ''id'' ''pem'' []"
  let ?k = "?f\<lparr>pc_key := Some (replicate 16 7)\<rparr>"
  let ?c = "?k\<lparr>pc_server_secret := Some (replicate 16 4), pc_server_challenge := Some (replicate 16 5)\<rparr>"
  let ?w = "sample_pair_world Map.empty {}" and ?wf = "sample_pair_world [''id'' \<mapsto> ?f] {}"
  let ?wk = "sample_pair_world [''id'' \<mapsto> ?k] {(''id'', ''1234'')}"
  let ?wc = "sample_pair_world [''id'' \<mapsto> ?c] {(''id'', ''1234'')}"
  have 1: "?step ?w ?wf"
    using pair_step.start [of sample_crypto total_toml ?w "''id''" "''pem''" "[]"]
    by (simp add: start_pairing_def put_client_def sample_client_manager_def fresh_pending_def)
  have "register_pin sample_crypto ''id'' ''1234'' (pw_manager ?wf) = (pw_manager ?wk, Inr ())"
    by (simp add: register_pin_def put_client_def sample_client_manager_def sample_crypto_facts)
  from pair_step.pin [OF this] have 2: "?step ?wf ?wk" by simp
  have "client_challenge sample_crypto (Some (replicate 16 4)) (Some (replicate 16 5)) ''id'' [] (pw_manager ?wk) =
      (pw_manager ?wc, Inr (replicate 32 7 @ replicate 16 5))"
    by (simp add: client_challenge_def put_client_def sample_client_manager_def sample_crypto_facts rbind_def)
  from pair_step.challenge [OF this] have 3: "?step ?wk ?wc" by simp
  have "server_challenge_response sample_crypto ''id'' (replicate 32 7) (pw_manager ?wc) =
      (pw_manager (sample_pair_world [''id'' \<mapsto> sample_pending] {}), Inr (replicate 16 4 @ replicate 16 4))"
    by (simp add: server_challenge_response_def put_client_def sample_client_manager_def sample_crypto_facts rbind_def
        ok_or_def sample_pending_def fresh_pending_def)
  from pair_step.response [OF this] have 4: "?step ?wc (sample_pair_world [''id'' \<mapsto> sample_pending] {(''id'', ''1234'')})"
    by simp
  show ?thesis
    by (rule rtranclp.rtrancl_into_rtrancl [where r = ?step, OF rtranclp.rtrancl_into_rtrancl [where r = ?step,
        OF rtranclp.rtrancl_into_rtrancl [where r = ?step, OF r_into_rtranclp [where r = ?step, OF 1] 2] 3] 4])
qed

theorem pairing_needs_pin_and_signature_witness:
  "\<exists>cm' (c :: pending_client). check_client_pairing_secret sample_crypto total_toml True True ''id'' (replicate 32 3)
      (sample_client_manager\<lparr>pending_clients := [''id'' \<mapsto> sample_pending]\<rparr>) = (cm', Inr ()) \<and>
    ''id'' \<in> clients (data (cm_state cm')) \<and>
    verify_client_signature sample_crypto (pc_pem c) (take 16 (replicate 32 3)) (drop 16 (replicate 32 3)) = Inr ()"
proof -
  let ?cm = "sample_client_manager\<lparr>pending_clients := [''id'' \<mapsto> sample_pending]\<rparr>"
  have v: "verify_pairing_secret sample_crypto sample_pending (replicate 32 3) = Inr ()"
    by (simp add: verify_pairing_secret_def sample_pending_def sample_crypto_facts rbind_def)
  obtain cm' where c: "check_client_pairing_secret sample_crypto total_toml True True ''id'' (replicate 32 3) ?cm = (cm', Inr ())"
    "is_paired ''id'' cm'"
    by (rule honest_check [OF _ v, of ?cm "''id''" total_toml "''fp''"]) (simp_all add: total_toml_def sample_crypto_facts)
  then have n: "clients (data (cm_state cm')) \<noteq> clients (data (cm_state ?cm))"
    by (auto simp: is_paired_def has_client_def sample_client_manager_def state_data_new_def)
  let ?w = "sample_pair_world [''id'' \<mapsto> sample_pending] {(''id'', ''1234'')}"
  have w: "check_client_pairing_secret sample_crypto total_toml True True ''id'' (replicate 32 3) (pw_manager ?w) = (cm', Inr ())"
    "clients (data (cm_state cm')) \<noteq> clients (data (cm_state (pw_manager ?w)))" using c(1) n by simp_all
  obtain d :: pending_client where "verify_client_signature sample_crypto (pc_pem d) (take 16 (replicate 32 3)) (drop 16 (replicate 32 3)) = Inr ()"
    using pairing_needs_pin_and_signature [OF _ sample_pair_run w(1) disjI1 [OF w(2)]] by auto
  with c show ?thesis unfolding is_paired_def has_client_def by blast
qed

end
