(* ===== verification/Webserver.thy ===== *)
theory Webserver
  imports Rtsp Clients
begin

text \<open>
  The web server of \<open>webserver/mod.rs\<close> and \<open>webserver/pairing.rs\<close>: routing, authorization, the pairing requests,
  and the requests that launch, resume and cancel a session. The HTTP library, the URL and hex decoders, the
  hash behind application ids and the box art images are parameters. The wording of a diagnostic message is
  kept as its kind (\<open>web_error\<close>), since it prints hash maps and library errors.
\<close>

section \<open>Requests and responses\<close>

datatype http_method = GET | POST | OtherVerb

type_synonym params = "string \<rightharpoonup> string"

datatype web_error =
    MissingParam string | BadNumber string | BadMode | BadHex string | BadUtf8 | BadSalt | UnknownApplication
  | StartFailed | LaunchFailed | KeysFailed | StopFailed | PairingDisabled | UnknownPhrase string | UnknownPairCommand
  | ChallengeFailed | ResponseFailed | SecretFailed | ShuttingDown | BodyTooLong | PinFailed
  | NotPaired | NoCertificate | NotFound

datatype web_body = Text string | Diagnostic web_error | XmlError nat web_error

datatype content_type = ApplicationXml | TextHtml | NoContentType

record response =
  status :: nat
  content_type :: content_type
  body :: web_body

definition bad_request :: "web_error \<Rightarrow> response" where
  "bad_request e = \<lparr>status = 400, content_type = NoContentType, body = Diagnostic e\<rparr>"

definition unauthorized :: "web_error \<Rightarrow> response" where
  "unauthorized e = \<lparr>status = 401, content_type = NoContentType, body = Diagnostic e\<rparr>"

definition not_found :: response where
  "not_found = \<lparr>status = 404, content_type = NoContentType, body = Diagnostic NotFound\<rparr>"

definition xml_error :: "nat \<Rightarrow> web_error \<Rightarrow> response" where
  "xml_error code e = \<lparr>status = 200, content_type = ApplicationXml, body = XmlError code e\<rparr>"

definition xml_response :: "string \<Rightarrow> response" where
  "xml_response text = \<lparr>status = 200, content_type = ApplicationXml, body = Text text\<rparr>"

definition escape_xml :: "string \<Rightarrow> string" where
  "escape_xml input =
     replace_all [CHR 0x27] ''&apos;'' (replace_all [CHR 0x22] ''&quot;'' (replace_all ''>'' ''&gt;''
       (replace_all ''<'' ''&lt;'' (replace_all ''&'' ''&amp;'' input))))"

section \<open>Addresses\<close>

datatype ip_addr = V4 "u8 list" | V6 "u16 list"

definition to_ipv4_mapped :: "u16 list \<Rightarrow> u8 list option" where
  "to_ipv4_mapped segs =
     (if take 6 segs = [0, 0, 0, 0, 0, 0xFFFF]
      then Some [ucast (drop_bit 8 (segs ! 6)), ucast (segs ! 6), ucast (drop_bit 8 (segs ! 7)), ucast (segs ! 7)]
      else None)"

fun unmap_v4_mapped :: "ip_addr \<Rightarrow> ip_addr" where
  "unmap_v4_mapped (V6 segs) = (case to_ipv4_mapped segs of Some v4 \<Rightarrow> V4 v4 | None \<Rightarrow> V6 segs)"
| "unmap_v4_mapped (V4 v4) = V4 v4"

fun join_with :: "char \<Rightarrow> string list \<Rightarrow> string" where
  "join_with c [] = []"
| "join_with c [s] = s"
| "join_with c (s # t # ts) = s @ c # join_with c (t # ts)"

definition show_v4 :: "u8 list \<Rightarrow> string" where
  "show_v4 v4 = join_with (CHR ''.'') (map (\<lambda>b. show_nat (unat b)) v4)"

text \<open>How the standard library prints an IPv6 address: lower-case hexadecimal groups, with the first of the
  longest runs of at least two zero groups left out.\<close>

definition hex_char :: "nat \<Rightarrow> char" where
  "hex_char d = char_of (if d < 10 then 48 + d else 87 + d)"

fun show_hex :: "nat \<Rightarrow> string" where
  "show_hex n = (if n < 16 then [hex_char n] else show_hex (n div 16) @ [hex_char (n mod 16)])"

declare show_hex.simps [simp del]

definition zero_run :: "u16 list \<Rightarrow> nat \<times> nat" where
  "zero_run segs =
     foldl (\<lambda>(start, len) i. let l = length (takeWhile (\<lambda>s. s = 0) (drop i segs)) in if len < l then (i, l) else (start, len))
       (0, 0) [0 ..< length segs]"

definition show_groups :: "u16 list \<Rightarrow> string" where
  "show_groups segs = join_with (CHR '':'') (map (\<lambda>s. show_hex (unat s)) segs)"

definition show_v6 :: "u16 list \<Rightarrow> string" where
  "show_v6 segs =
     (case to_ipv4_mapped segs of
        Some v4 \<Rightarrow> ''::ffff:'' @ show_v4 v4
      | None \<Rightarrow>
          let (start, len) = zero_run segs in
          if 1 < len then show_groups (take start segs) @ ''::'' @ show_groups (drop (start + len) segs)
          else show_groups segs)"

fun rtsp_host :: "ip_addr \<Rightarrow> string" where
  "rtsp_host (V4 v4) = show_v4 v4"
| "rtsp_host (V6 segs) = ''['' @ show_v6 segs @ '']''"

fun ip_to_string :: "ip_addr \<Rightarrow> string" where
  "ip_to_string (V4 v4) = show_v4 v4"
| "ip_to_string (V6 segs) = show_v6 segs"

text \<open>The interfaces of the machine: their addresses and hardware address.\<close>

fun get_mac_address :: "ip_addr \<Rightarrow> (ip_addr list \<times> string option) list \<Rightarrow> string option" where
  "get_mac_address address [] = None"
| "get_mac_address address ((addrs, mac) # interfaces) =
     (if address \<in> set addrs then mac else get_mac_address address interfaces)"

section \<open>The server\<close>

record web_env =
  hex_decode :: "string \<Rightarrow> bytes option"
  hex_print :: "bytes \<Rightarrow> string"
  app_id :: "application_config \<Rightarrow> int"
  form_parse :: "bytes \<Rightarrow> (string \<times> string) list"
  pin_html :: string
  crypto :: pair_crypto
  toml_lib :: toml

record webserver_config =
  http_port :: u16
  port_https :: u16
  enable_pairing :: bool

definition webserver_config_default :: webserver_config where
  "webserver_config_default = \<lparr>http_port = 47989, port_https = 47984, enable_pairing = True\<rparr>"

record webserver =
  server_name :: string
  rtsp_port :: u16
  webserver_config :: webserver_config
  applications :: "application_config list"
  server_unique_id :: string
  server_certs :: string
  supported_codecs :: u32
  hdr_supported :: bool

record web_state =
  web_clients :: client_manager
  web_sessions :: manager

text \<open>What the rest of the world does during one request: the random numbers and file writes of pairing, how
  the streams, the launch and the stop turn out.\<close>

datatype launch_outcome = LaunchRuns "compositor_ready option" string bool | LaunchTimesOut

record request_env =
  rnd_secret :: "bytes option"
  rnd_challenge :: "bytes option"
  cert_write_ok :: bool
  client_write_ok :: bool
  pin_arrives :: bool
  streams_ok :: "bool \<times> bool \<times> bool"
  launch_outcome :: launch_outcome
  stop_in_time :: bool
  session_stopping :: bool

section \<open>Pairing requests\<close>

definition paired_xml_response :: "string \<Rightarrow> response" where
  "paired_xml_response inner =
     xml_response (''<root status_code='' @ [CHR 0x22] @ ''200'' @ [CHR 0x22] @ ''><paired>1</paired>'' @ inner @ ''</root>'')"

definition element :: "string \<Rightarrow> string \<Rightarrow> string" where
  "element tag inner = ''<'' @ tag @ ''>'' @ inner @ ''</'' @ tag @ ''>''"

definition hex_param :: "web_env \<Rightarrow> params \<Rightarrow> string \<Rightarrow> (web_error, bytes) sum" where
  "hex_param we params key =
     (case params key of
        None \<Rightarrow> Inl (MissingParam key)
      | Some v \<Rightarrow> (case hex_decode we v of None \<Rightarrow> Inl (BadHex key) | Some bs \<Rightarrow> Inr bs))"

definition get_server_cert :: "web_env \<Rightarrow> webserver \<Rightarrow> request_env \<Rightarrow> params \<Rightarrow> client_manager \<Rightarrow> client_manager \<times> response" where
  "get_server_cert we server env params cm =
     (case hex_param we params ''clientcert'' of
        Inl e \<Rightarrow> (cm, bad_request e)
      | Inr client_cert \<Rightarrow>
          if \<not> utf8_valid client_cert then (cm, bad_request BadUtf8)
          else
            (case params ''uniqueid'' of
               None \<Rightarrow> (cm, bad_request (MissingParam ''uniqueid''))
             | Some uid \<Rightarrow>
                 (case hex_param we params ''salt'' of
                    Inl e \<Rightarrow> (cm, bad_request e)
                  | Inr salt \<Rightarrow>
                      if length salt \<noteq> 16 then (cm, bad_request BadSalt)
                      else
                        (start_pairing (fresh_pending uid (to_text client_cert) salt) cm,
                         if pin_arrives env
                         then paired_xml_response (element ''plaincert'' (hex_print we (text_bytes (server_certs server))))
                         else bad_request ShuttingDown))))"

definition pair_client_challenge :: "web_env \<Rightarrow> request_env \<Rightarrow> params \<Rightarrow> client_manager \<Rightarrow> client_manager \<times> response" where
  "pair_client_challenge we env params cm =
     (case params ''uniqueid'' of
        None \<Rightarrow> (cm, bad_request (MissingParam ''uniqueid''))
      | Some uid \<Rightarrow>
          (case hex_param we params ''clientchallenge'' of
             Inl e \<Rightarrow> (cm, bad_request e)
           | Inr challenge \<Rightarrow>
               (case client_challenge (crypto we) (rnd_secret env) (rnd_challenge env) uid challenge cm of
                  (cm', Inl _) \<Rightarrow> (cm', bad_request ChallengeFailed)
                | (cm', Inr answer) \<Rightarrow>
                    (cm', paired_xml_response (element ''challengeresponse'' (hex_print we answer))))))"

definition pair_server_challenge_response :: "web_env \<Rightarrow> params \<Rightarrow> client_manager \<Rightarrow> client_manager \<times> response" where
  "pair_server_challenge_response we params cm =
     (case hex_param we params ''serverchallengeresp'' of
        Inl e \<Rightarrow> (cm, bad_request e)
      | Inr challenge_response \<Rightarrow>
          (case params ''uniqueid'' of
             None \<Rightarrow> (cm, bad_request (MissingParam ''uniqueid''))
           | Some uid \<Rightarrow>
               (case server_challenge_response (crypto we) uid challenge_response cm of
                  (cm', Inl _) \<Rightarrow> (cm', bad_request ResponseFailed)
                | (cm', Inr secret) \<Rightarrow>
                    (cm', paired_xml_response (element ''pairingsecret'' (hex_print we secret))))))"

definition pair_challenge :: "params \<Rightarrow> response" where
  "pair_challenge params =
     (if params ''uniqueid'' = None then bad_request (MissingParam ''uniqueid'') else paired_xml_response [])"

definition client_pairing_secret :: "web_env \<Rightarrow> request_env \<Rightarrow> params \<Rightarrow> client_manager \<Rightarrow> client_manager \<times> response" where
  "client_pairing_secret we env params cm =
     (case hex_param we params ''clientpairingsecret'' of
        Inl e \<Rightarrow> (cm, bad_request e)
      | Inr secret \<Rightarrow>
          (case params ''uniqueid'' of
             None \<Rightarrow> (cm, bad_request (MissingParam ''uniqueid''))
           | Some uid \<Rightarrow>
               (case check_client_pairing_secret (crypto we) (toml_lib we) (cert_write_ok env) (client_write_ok env)
                       uid secret cm of
                  (cm', Inl _) \<Rightarrow> (cm', bad_request SecretFailed)
                | (cm', Inr _) \<Rightarrow> (cm', paired_xml_response []))))"

definition handle_pair_request :: "web_env \<Rightarrow> webserver \<Rightarrow> request_env \<Rightarrow> params \<Rightarrow> client_manager \<Rightarrow> client_manager \<times> response" where
  "handle_pair_request we server env params cm =
     (case params ''phrase'' of
        Some phrase \<Rightarrow>
          if phrase = ''getservercert'' then get_server_cert we server env (params(''phrase'' := None)) cm
          else if phrase = ''pairchallenge'' then (cm, pair_challenge (params(''phrase'' := None)))
          else (cm, bad_request (UnknownPhrase phrase))
      | None \<Rightarrow>
          if params ''clientchallenge'' \<noteq> None then pair_client_challenge we env params cm
          else if params ''serverchallengeresp'' \<noteq> None then pair_server_challenge_response we params cm
          else if params ''clientpairingsecret'' \<noteq> None then client_pairing_secret we env params cm
          else (cm, bad_request UnknownPairCommand))"

section \<open>Information\<close>

definition open_root :: string where
  "open_root = ''<root status_code='' @ [CHR 0x22] @ ''200'' @ [CHR 0x22] @ ''>''"

definition app_list :: "web_env \<Rightarrow> webserver \<Rightarrow> response" where
  "app_list we server =
     xml_response (open_root @
       concat (map (\<lambda>app. ''<App>'' @
           element ''IsHdrSupported'' (show_nat (if hdr_supported server then 1 else 0)) @
           element ''AppTitle'' (escape_xml (title app)) @
           element ''ID'' (show_int (app_id we app)) @ ''</App>'')
         (applications server)) @ ''</root>'')"

definition server_info :: "webserver \<Rightarrow> params \<Rightarrow> ip_addr option \<Rightarrow> string option \<Rightarrow> bool \<Rightarrow> web_state \<Rightarrow> response" where
  "server_info server params local_address mac https st =
     (let session_context = get_session_context (web_sessions st);
          paired = (https \<and> (case params ''uniqueid'' of Some u \<Rightarrow> is_paired u (web_clients st) | None \<Rightarrow> False));
          local_ip = (case local_address of Some ip \<Rightarrow> ip_to_string ip | None \<Rightarrow> [])
      in xml_response (open_root @
        element ''hostname'' (escape_xml (server_name server)) @
        element ''appversion'' ''7.1.431.-1'' @
        element ''GfeVersion'' ''3.23.0.74'' @
        element ''uniqueid'' (server_unique_id server) @
        element ''HttpsPort'' (show_nat (unat (port_https (webserver_config server)))) @
        element ''ExternalPort'' (show_nat (unat (http_port (webserver_config server)))) @
        element ''mac'' (case mac of Some m \<Rightarrow> m | None \<Rightarrow> []) @
        element ''MaxLumaPixelsHEVC'' ''1869449984'' @
        element ''LocalIP'' (escape_xml local_ip) @
        element ''ServerCodecModeSupport'' (show_nat (unat (supported_codecs server))) @
        element ''SupportedDisplayMode'' [] @
        element ''PairStatus'' (if paired then ''1'' else ''0'') @
        element ''currentgame'' (case session_context of Some c \<Rightarrow> show_int (sint (application_id c)) | None \<Rightarrow> ''0'') @
        element ''state'' (case session_context of Some _ \<Rightarrow> ''MOONSHINE_SERVER_BUSY'' | None \<Rightarrow> ''MOONSHINE_SERVER_FREE'') @
        ''</root>''))"

definition is_ascii_hexdigit :: "char \<Rightarrow> bool" where
  "is_ascii_hexdigit c =
     (let v = of_char c :: nat in 48 \<le> v \<and> v \<le> 57 \<or> 65 \<le> v \<and> v \<le> 70 \<or> 97 \<le> v \<and> v \<le> 102)"

definition pin_page :: "web_env \<Rightarrow> params \<Rightarrow> response" where
  "pin_page we params =
     (let cleaned = (case params ''uniqueid'' of Some u \<Rightarrow> take 16 (filter is_ascii_hexdigit u) | None \<Rightarrow> []);
          uid = (if cleaned = [] then ''0123456789ABCDEF'' else cleaned)
      in \<lparr>status = 200, content_type = TextHtml, body = Text (replace_all ''{{UNIQUE_ID}}'' uid (pin_html we))\<rparr>)"

text \<open>The body of a PIN submission is refused above one kilobyte; later parameters of a name win.\<close>

definition submit_pin :: "web_env \<Rightarrow> bytes \<Rightarrow> client_manager \<Rightarrow> client_manager \<times> response" where
  "submit_pin we request_body cm =
     (if 1024 < length request_body then (cm, bad_request BodyTooLong)
      else
        let params = map_of (rev (form_parse we request_body)) in
        (case params ''uniqueid'' of
           None \<Rightarrow> (cm, bad_request (MissingParam ''uniqueid''))
         | Some uid \<Rightarrow>
             (case params ''pin'' of
                None \<Rightarrow> (cm, bad_request (MissingParam ''pin''))
              | Some pin \<Rightarrow>
                  (case register_pin (crypto we) uid pin cm of
                     (cm', Inr _) \<Rightarrow> (cm', \<lparr>status = 200, content_type = NoContentType, body = Text ''PIN accepted.''\<rparr>)
                   | (cm', Inl _) \<Rightarrow> (cm', bad_request PinFailed)))))"

definition unpair :: response where
  "unpair = xml_response (''<root status_code='' @ [CHR 0x22] @ ''200'' @ [CHR 0x22] @ ''/>'')"

section \<open>Sessions\<close>

text \<open>\<open>FromStr\<close> of \<open>i64\<close>.\<close>

definition parse_i64 :: "string \<Rightarrow> int option" where
  "parse_i64 s =
     (if take 1 s = ''-'' then
        (if drop 1 s = [] then None
         else case digits_value (drop 1 s) of Some v \<Rightarrow> if v \<le> 2 ^ 63 then Some (- int v) else None | None \<Rightarrow> None)
      else map_option int (parse_unsigned (2 ^ 63) s))"

definition key_params :: "web_env \<Rightarrow> params \<Rightarrow> (web_error, session_key_data) sum" where
  "key_params we params =
     (case hex_param we params ''rikey'' of
        Inl e \<Rightarrow> Inl e
      | Inr key \<Rightarrow>
          (case params ''rikeyid'' of
             None \<Rightarrow> Inl (MissingParam ''rikeyid'')
           | Some s \<Rightarrow>
               (case parse_i64 s of
                  None \<Rightarrow> Inl (BadNumber ''rikeyid'')
                | Some key_id \<Rightarrow> Inr \<lparr>remote_input_key = key, remote_input_key_id = key_id\<rparr>)))"

definition mode_params :: "string \<Rightarrow> (web_error, u32 \<times> u32 \<times> u32) sum" where
  "mode_params mode =
     (case split_on (CHR ''x'') mode of
        [w, h, r] \<Rightarrow>
          (case parse_u32 w of
             None \<Rightarrow> Inl (BadNumber ''width'')
           | Some w \<Rightarrow>
               (case parse_u32 h of
                  None \<Rightarrow> Inl (BadNumber ''height'')
                | Some h \<Rightarrow>
                    (case parse_u32 r of None \<Rightarrow> Inl (BadNumber ''refresh rate'') | Some r \<Rightarrow> Inr (w, h, r))))
      | _ \<Rightarrow> Inl BadMode)"

definition optional_u32 :: "u32 \<Rightarrow> params \<Rightarrow> string \<Rightarrow> u32" where
  "optional_u32 d params key = unwrap_or d (Option.bind (params key) parse_u32)"

text \<open>Error messages carry no numbers, so \<open>application_id - 1\<close> of the message about an unknown application, which
  overflows in a debug build for the smallest number, is left out.\<close>

definition launch_context :: "web_env \<Rightarrow> webserver \<Rightarrow> params \<Rightarrow> (web_error, session_context) sum" where
  "launch_context we server params =
     (case params ''appid'' of
        None \<Rightarrow> Inl (MissingParam ''appid'')
      | Some s \<Rightarrow>
          (case parse_i32 s of
             None \<Rightarrow> Inl (BadNumber ''appid'')
           | Some appid \<Rightarrow>
               (case params ''mode'' of
                  None \<Rightarrow> Inl (MissingParam ''mode'')
                | Some mode \<Rightarrow>
                    (case mode_params mode of
                       Inl e \<Rightarrow> Inl e
                     | Inr (w, h, r) \<Rightarrow>
                         (case key_params we params of
                            Inl e \<Rightarrow> Inl e
                          | Inr key_data \<Rightarrow>
                              let surround = optional_u32 196610 params ''surroundAudioInfo'';
                                  hdr_mode = optional_u32 0 params ''hdrMode'' in
                              (case find (\<lambda>a. app_id we a = appid) (applications server) of
                                 None \<Rightarrow> Inl UnknownApplication
                               | Some app \<Rightarrow>
                                   Inr \<lparr>application = app, application_id = word_of_int appid, resolution = (w, h),
                                     refresh_rate = r,
                                     keys = session_keys_new (remote_input_key key_data) (remote_input_key_id key_data),
                                     audio_channels = audio_channels_from (ucast (surround AND 0xFFFF)),
                                     audio_channel_mask = drop_bit 16 surround, sc_hdr = (hdr_mode \<noteq> 0)\<rparr>))))))"

definition session_url :: "webserver \<Rightarrow> ip_addr option \<Rightarrow> string" where
  "session_url server local_address =
     (case local_address of
        Some ip \<Rightarrow> element ''sessionUrl0''
          (''rtsp://'' @ rtsp_host ip @ '':'' @ show_nat (unat (rtsp_port server)))
      | None \<Rightarrow> [])"

text \<open>\<open>launch\<close>, with the launch itself run to its end or dropped by the timeout.\<close>

definition launch_phase :: "request_env \<Rightarrow> manager \<Rightarrow> manager_step \<times> bool" where
  "launch_phase env m =
     (case launch_begin m of
        (m1, Inl _) \<Rightarrow> ((m1, []), False)
      | (m1, Inr s) \<Rightarrow>
          (case launch_outcome env of
             LaunchTimesOut \<Rightarrow> ((m1, []), False)
           | LaunchRuns ready path spawned \<Rightarrow>
               let (e1, result) = initialized_launch ready path spawned s;
                   ((m2, e2), r) = launch_end result m1
               in ((m2, e1 @ e2), r = Inr ())))"

definition launch :: "web_env \<Rightarrow> webserver \<Rightarrow> request_env \<Rightarrow> params \<Rightarrow> ip_addr option \<Rightarrow> manager \<Rightarrow> manager_step \<times> response" where
  "launch we server env params local_address m =
     (case launch_context we server params of
        Inl e \<Rightarrow> ((m, []), xml_error 400 e)
      | Inr context \<Rightarrow>
          (case (case streams_ok env of (a, v, c) \<Rightarrow> initialize_session a v c context m) of
             (step, Inl _) \<Rightarrow> (step, xml_error 400 StartFailed)
           | ((m1, e1), Inr _) \<Rightarrow>
               (case launch_phase env m1 of
                  ((m2, e2), False) \<Rightarrow>
                    let ((m3, e3), _) = stop_session (stop_in_time env) m2
                    in ((m3, e1 @ e2 @ e3), xml_error 503 LaunchFailed)
                | ((m2, e2), True) \<Rightarrow>
                    ((m2, e1 @ e2),
                     xml_response (open_root @ element ''gamesession'' ''1'' @ session_url server local_address @
                       ''</root>'')))))"

definition resume :: "web_env \<Rightarrow> webserver \<Rightarrow> request_env \<Rightarrow> params \<Rightarrow> ip_addr option \<Rightarrow> manager \<Rightarrow> manager_effect list \<times> response" where
  "resume we server env params local_address m =
     (case key_params we params of
        Inl e \<Rightarrow> ([], xml_error 400 e)
      | Inr key_data \<Rightarrow>
          (case update_keys (session_stopping env) key_data m of
             (effects, Inl _) \<Rightarrow> (effects, xml_error 400 KeysFailed)
           | (effects, Inr _) \<Rightarrow>
               (effects, xml_response (open_root @ session_url server local_address @ element ''resume'' ''1'' @ ''</root>''))))"

definition cancel :: "request_env \<Rightarrow> manager \<Rightarrow> manager_step \<times> response" where
  "cancel env m =
     (case stop_session (stop_in_time env) m of
        (step, Inl _) \<Rightarrow> (step, bad_request StopFailed)
      | (step, Inr _) \<Rightarrow> (step, xml_response (open_root @ element ''cancel'' ''1'' @ ''</root>'')))"

section \<open>Routing\<close>

record request =
  verb :: http_method
  path :: string
  query :: "bytes option"
  request_body :: bytes
  local_address :: "ip_addr option"
  mac_address :: "string option"
  via_https :: bool
  peer_cert :: "string option"

definition verify_paired_client :: "string option \<Rightarrow> client_manager \<Rightarrow> response option" where
  "verify_paired_client peer_cert_fingerprint cm =
     (case peer_cert_fingerprint of
        Some fingerprint \<Rightarrow> if is_cert_paired fingerprint cm then None else Some (unauthorized NotPaired)
      | None \<Rightarrow> Some (unauthorized NoCertificate))"

text \<open>A request gives a new state, effects on the session and a response.\<close>

type_synonym served = "web_state \<times> manager_effect list \<times> response"

definition with_clients :: "web_state \<Rightarrow> client_manager \<times> response \<Rightarrow> served" where
  "with_clients st r = (st\<lparr>web_clients := fst r\<rparr>, [], snd r)"

definition with_sessions :: "web_state \<Rightarrow> manager_step \<times> response \<Rightarrow> served" where
  "with_sessions st r = (st\<lparr>web_sessions := fst (fst r)\<rparr>, snd (fst r), snd r)"

definition authorized :: "request \<Rightarrow> web_state \<Rightarrow> served \<Rightarrow> served" where
  "authorized req st served =
     (case verify_paired_client (peer_cert req) (web_clients st) of Some r \<Rightarrow> (st, [], r) | None \<Rightarrow> served)"

definition pairing_enabled :: "webserver \<Rightarrow> web_state \<Rightarrow> served \<Rightarrow> served" where
  "pairing_enabled server st served =
     (if enable_pairing (webserver_config server) then served else (st, [], bad_request PairingDisabled))"

definition request_params :: "web_env \<Rightarrow> request \<Rightarrow> params" where
  "request_params we req = (case query req of Some q \<Rightarrow> map_of (rev (form_parse we q)) | None \<Rightarrow> Map.empty)"

text \<open>Box art is read from disk and scaled; what that answers is the argument \<open>app_asset\<close>.\<close>

definition serve :: "web_env \<Rightarrow> webserver \<Rightarrow> request_env \<Rightarrow> response \<Rightarrow> request \<Rightarrow> web_state \<Rightarrow> served" where
  "serve we server env app_asset req st =
     (let params = request_params we req;
          info = (st, [], server_info server params (local_address req) (mac_address req) (via_https req) st);
          pair = pairing_enabled server st (with_clients st (handle_pair_request we server env params (web_clients st)))
      in
      if via_https req then
        (if verb req \<noteq> GET then (st, [], not_found)
         else if path req = ''/serverinfo'' then info
         else if path req = ''/applist'' then authorized req st (st, [], app_list we server)
         else if path req = ''/appasset'' then authorized req st (st, [], app_asset)
         else if path req = ''/pair'' then pair
         else if path req = ''/unpair'' then (st, [], unpair)
         else if path req = ''/launch'' then
           authorized req st (with_sessions st (launch we server env params (local_address req) (web_sessions st)))
         else if path req = ''/resume'' then
           authorized req st (st, resume we server env params (local_address req) (web_sessions st))
         else if path req = ''/cancel'' then authorized req st (with_sessions st (cancel env (web_sessions st)))
         else (st, [], not_found))
      else
        (if verb req = GET \<and> path req = ''/serverinfo'' then info
         else if verb req = GET \<and> path req = ''/pair'' then pair
         else if verb req = GET \<and> path req = ''/pin'' then pairing_enabled server st (st, [], pin_page we params)
         else if verb req = POST \<and> path req = ''/submit-pin'' then
           pairing_enabled server st (with_clients st (submit_pin we (request_body req) (web_clients st)))
         else if verb req = GET \<and> path req = ''/unpair'' then (st, [], unpair)
         else (st, [], not_found)))"

section \<open>Escaping\<close>

definition escape_char :: "char \<Rightarrow> string" where
  "escape_char c =
     (if c = CHR ''&'' then ''&amp;'' else if c = CHR ''<'' then ''&lt;'' else if c = CHR ''>'' then ''&gt;''
      else if c = CHR 0x22 then ''&quot;'' else if c = CHR 0x27 then ''&apos;'' else [c])"

lemma replace_all_single: "replace_all [c] w s = concat (map (\<lambda>x. if x = c then w else [x]) s)"
  by (induction s) auto

lemma concat_map_twice: "concat (map f (concat (map g s))) = concat (map (\<lambda>x. concat (map f (g x))) s)"
  by (induction s) auto

lemma escape_xml_chars: "escape_xml s = concat (map escape_char s)"
  unfolding escape_xml_def replace_all_single concat_map_twice
  by (intro arg_cong [where f = concat] map_cong refl) (simp add: escape_char_def)

text \<open>How the client reads a text back.\<close>

definition entities :: "(string \<times> char) list" where
  "entities = [(''&amp;'', CHR ''&''), (''&lt;'', CHR ''<''), (''&gt;'', CHR ''>''), (''&quot;'', CHR 0x22), (''&apos;'', CHR 0x27)]"

function unescape_xml :: "string \<Rightarrow> string" where
  "unescape_xml [] = []"
| "unescape_xml (x # xs) =
     (case find (\<lambda>(e, c). prefix e (x # xs)) entities of
        Some (e, c) \<Rightarrow> c # unescape_xml (drop (length e) (x # xs))
      | None \<Rightarrow> x # unescape_xml xs)"
  by pat_completeness auto
termination
  by (relation "measure length") (auto simp: entities_def split: if_splits)

declare unescape_xml.simps(2) [simp del]

lemma unescape_escape_char: "unescape_xml (escape_char c @ s) = c # unescape_xml s"
  by (auto simp: escape_char_def entities_def unescape_xml.simps(2))

lemma unescape_escape: "unescape_xml (concat (map escape_char s)) = s"
  by (induction s) (auto simp: unescape_escape_char)

section \<open>Properties\<close>

text \<open>
  C18. Only paired clients touch a session: a request that does not come over HTTPS with the certificate of a
  paired client neither changes the session manager nor has an effect on the session, and is refused
  with status 401 where it asks for the application list, box art, a launch, a resume or a cancel.
\<close>

theorem protected_endpoints:
  assumes "serve we server env app_asset req st = (st', effects, r)"
    and "\<not> (via_https req \<and> (\<exists>fp. peer_cert req = Some fp \<and> is_cert_paired fp (web_clients st)))"
  shows "web_sessions st' = web_sessions st \<and> effects = [] \<and>
    (via_https req \<and> verb req = GET \<and>
      path req \<in> {''/applist'', ''/appasset'', ''/launch'', ''/resume'', ''/cancel''} \<longrightarrow> status r = 401)"
proof (cases "via_https req")
  case True
  then have "\<exists>e. verify_paired_client (peer_cert req) (web_clients st) = Some (unauthorized e)"
    using assms(2) by (auto simp: verify_paired_client_def split: option.splits)
  then obtain e where a: "authorized req st served = (st, [], unauthorized e)" for served
    by (auto simp: authorized_def)
  show ?thesis using assms(1) True
    by (auto simp: serve_def a Let_def unauthorized_def not_found_def pairing_enabled_def with_clients_def split: if_splits)
next
  case False
  then show ?thesis using assms(1)
    by (auto simp: serve_def Let_def pairing_enabled_def with_clients_def split: if_splits)
qed

text \<open>
  Escaped text is safe and lossless: it contains no angle bracket and no quote, and the client reads back
  the original.
\<close>

theorem escape_xml_roundtrip:
  "unescape_xml (escape_xml s) = s \<and> set (escape_xml s) \<inter> {CHR ''<'', CHR ''>'', CHR 0x22, CHR 0x27} = {}"
  by (auto simp: escape_xml_chars unescape_escape) (auto simp: escape_char_def split: if_splits)

lemma initialize_idle:
  assumes "session m = None" and "keys_tx m = None" and "keys ctx = Keys d"
  obtains m1 e1 where "initialize_session True True True ctx m = ((m1, e1), Inr ())" "keys_tx m1 = Some (next_chan m)"
    "session m1 = Some (Initialized \<lparr>is_context = ctx\<lparr>keys := Rx (next_chan m)\<rparr>, is_stop = stop m\<rparr>)"
  using assms
  by (cases "stop_watcher m") (auto simp: initialize_session_def initialized_session_new_def spawn_session_watchdog_def Let_def)

lemma launch_context_keys: "launch_context we server params = Inr ctx \<Longrightarrow> \<exists>d. keys ctx = Keys d"
  by (auto simp: launch_context_def session_keys_new_def Let_def split: option.splits sum.splits prod.splits)

lemma launch_needs_idle:
  assumes "keys_tx m \<noteq> None"
  shows "\<exists>e. launch we server env params addr m = ((m, []), xml_error 400 e)"
  using assms by (cases "launch_context we server params"; cases "streams_ok env")
    (auto simp: launch_def initialize_session_def)

lemma launch_initialized:
  assumes "session m = None" and "keys_tx m = None" and "launch_context we server params = Inr ctx"
    and "streams_ok env = (True, True, True)"
  obtains m1 e1 where "keys_tx m1 = Some (next_chan m)"
    "session m1 = Some (Initialized \<lparr>is_context = ctx\<lparr>keys := Rx (next_chan m)\<rparr>, is_stop = stop m\<rparr>)"
    "launch we server env params addr m =
      (case launch_phase env m1 of
         ((m2, e2), False) \<Rightarrow>
           let ((m3, e3), _) = stop_session (stop_in_time env) m2 in ((m3, e1 @ e2 @ e3), xml_error 503 LaunchFailed)
       | ((m2, e2), True) \<Rightarrow> ((m2, e1 @ e2), xml_response (open_root @ element ''gamesession'' ''1'' @ session_url server addr @ ''</root>'')))"
proof -
  obtain d where "keys ctx = Keys d" using launch_context_keys [OF assms(3)] by blast
  then obtain m1 e1 where i: "initialize_session True True True ctx m = ((m1, e1), Inr ())"
    "keys_tx m1 = Some (next_chan m)"
    "session m1 = Some (Initialized \<lparr>is_context = ctx\<lparr>keys := Rx (next_chan m)\<rparr>, is_stop = stop m\<rparr>)"
    using initialize_idle [OF assms(1,2)] by blast
  show thesis by (rule that [OF i(2,3)]) (simp add: launch_def assms(3,4) i(1))
qed

text \<open>
  How a launch on an idle manager with working streams ends. When compositor and application start, the
  session is launched with the requested parameters. When one of them fails, the manager is idle again. When
  the launch times out, the session is gone but the manager stays reserved: the stop that should clean up
  finds no session, and every later launch is refused.
\<close>

theorem launch_ends:
  assumes "session m = None" and "keys_tx m = None" and "launch_context we server params = Inr ctx"
    and "streams_ok env = (True, True, True)"
    and "launch we server env params addr m = ((m', effects), r)"
  shows "(\<forall>ready p. launch_outcome env = LaunchRuns (Some ready) p True \<longrightarrow>
      session m' = Some (Launched \<lparr>ls_context = ctx\<lparr>keys := Rx (next_chan m)\<rparr>, ls_hdr = ready_hdr ready\<rparr>)) \<and>
    (\<forall>ready p spawned. launch_outcome env = LaunchRuns ready p spawned \<and> (ready = None \<or> \<not> spawned) \<longrightarrow>
      r = xml_error 503 LaunchFailed \<and> session m' = None \<and> keys_tx m' = None \<and> stop_watcher m' = None) \<and>
    (launch_outcome env = LaunchTimesOut \<longrightarrow>
      r = xml_error 503 LaunchFailed \<and> session m' = None \<and> keys_tx m' \<noteq> None \<and>
      (\<forall>we' server' env' params' addr'. \<exists>e. launch we' server' env' params' addr' m' = ((m', []), xml_error 400 e)))"
proof -
  obtain m1 e1 where m1: "keys_tx m1 = Some (next_chan m)"
    "session m1 = Some (Initialized \<lparr>is_context = ctx\<lparr>keys := Rx (next_chan m)\<rparr>, is_stop = stop m\<rparr>)"
    and l: "launch we server env params addr m =
      (case launch_phase env m1 of
         ((m2, e2), False) \<Rightarrow>
           let ((m3, e3), _) = stop_session (stop_in_time env) m2 in ((m3, e1 @ e2 @ e3), xml_error 503 LaunchFailed)
       | ((m2, e2), True) \<Rightarrow> ((m2, e1 @ e2), xml_response (open_root @ element ''gamesession'' ''1'' @ session_url server addr @ ''</root>'')))"
    by (rule launch_initialized [OF assms(1-4)])
  let ?s = "\<lparr>is_context = ctx\<lparr>keys := Rx (next_chan m)\<rparr>, is_stop = stop m\<rparr>"
  have b: "launch_begin m1 = (m1\<lparr>session := None\<rparr>, Inr ?s)" by (simp add: launch_begin_def m1)
  have quiet: "session x = None \<Longrightarrow> stop_session t x = ((x, []), Inr ())" for x t
    by (simp add: stop_session_def stop_begin_def)
  have k: "keys_tx m1 \<noteq> None" by (simp add: m1)
  show ?thesis
  proof (cases "launch_outcome env")
    case LaunchTimesOut
    then have "launch_phase env m1 = ((m1\<lparr>session := None\<rparr>, []), False)" by (simp add: launch_phase_def b)
    then have "m' = m1\<lparr>session := None\<rparr>" "r = xml_error 503 LaunchFailed" using l assms(5) quiet by simp_all
    then show ?thesis using LaunchTimesOut k launch_needs_idle [of m'] by auto
  next
    case (LaunchRuns ready p spawned)
    show ?thesis
    proof (cases "\<exists>rd. ready = Some rd \<and> spawned")
      case True
      then obtain rd where rd: "ready = Some rd" "spawned" by blast
      obtain e2 where "launch_phase env m1 = ((m1\<lparr>session := Some (Launched \<lparr>ls_context = ctx\<lparr>keys := Rx (next_chan m)\<rparr>,
          ls_hdr = ready_hdr rd\<rparr>)\<rparr>, e2), True)"
        using LaunchRuns rd by (auto simp: launch_phase_def b initialized_launch_def launch_end_def)
      then show ?thesis using l assms(5) LaunchRuns rd by auto
    next
      case False
      obtain n e where reset: "reset_session (m1\<lparr>session := None\<rparr>) = (n, e)" by (metis surj_pair)
      obtain e2 where "launch_phase env m1 = ((n, e2), False)"
        using LaunchRuns False reset
        by (cases ready) (auto simp: launch_phase_def b initialized_launch_def launch_end_def)
      then have "m' = n" "r = xml_error 503 LaunchFailed" using l assms(5) quiet [of n] reset_session_idle(1) [OF reset] by simp_all
      then show ?thesis using LaunchRuns False reset_session_idle [OF reset] by auto
    qed
  qed
qed

section \<open>A concrete server\<close>

definition sample_web_env :: web_env where
  "sample_web_env = \<lparr>hex_decode = (\<lambda>s. Some (text_bytes s)), hex_print = (\<lambda>b. to_text b), app_id = (\<lambda>a. 1),
     form_parse = (\<lambda>b. []), pin_html = [], crypto = sample_crypto, toml_lib = total_toml\<rparr>"

definition sample_webserver :: webserver where
  "sample_webserver = \<lparr>server_name = ''host'', rtsp_port = 48010, webserver_config = webserver_config_default,
     applications = [application_config_default], server_unique_id = ''u'', server_certs = ''c'',
     supported_codecs = 1, hdr_supported = False\<rparr>"

definition sample_request_env :: "launch_outcome \<Rightarrow> request_env" where
  "sample_request_env outcome = \<lparr>rnd_secret = None, rnd_challenge = None, cert_write_ok = True, client_write_ok = True,
     pin_arrives = True, streams_ok = (True, True, True), launch_outcome = outcome, stop_in_time = True,
     session_stopping = False\<rparr>"

definition sample_launch_params :: params where
  "sample_launch_params = [''appid'' \<mapsto> ''1'', ''mode'' \<mapsto> ''4x3x2'', ''rikey'' \<mapsto> ''key'', ''rikeyid'' \<mapsto> ''5'']"

lemma sample_numbers:
  "parse_u32 ''4'' = Some 4" "parse_u32 ''3'' = Some 3" "parse_u32 ''2'' = Some 2" "parse_i32 ''1'' = Some 1"
  "parse_i64 ''5'' = Some 5"
proof -
  have lit: "n < b \<Longrightarrow> show_nat n = s \<Longrightarrow> parse_unsigned b s = Some n" for n b s using parse_show_nat by blast
  have "show_nat 4 = ''4''" "show_nat 3 = ''3''" "show_nat 2 = ''2''" "show_nat 1 = ''1''" "show_nat 5 = ''5''"
    by code_simp+
  note lits = this [THEN lit [rotated]]
  show "parse_u32 ''4'' = Some 4" "parse_u32 ''3'' = Some 3" "parse_u32 ''2'' = Some 2" "parse_i32 ''1'' = Some 1"
    "parse_i64 ''5'' = Some 5"
    by (simp_all add: parse_u32_def parse_i32_def parse_i64_def lits)
qed

definition sample_launch_context :: session_context where
  "sample_launch_context = \<lparr>application = application_config_default, application_id = 1, resolution = (4, 3),
     refresh_rate = 2, keys = Keys \<lparr>remote_input_key = text_bytes ''key'', remote_input_key_id = 5\<rparr>,
     audio_channels = Stereo, audio_channel_mask = 3, sc_hdr = False\<rparr>"

lemma sample_launch_context:
  "launch_context sample_web_env sample_webserver sample_launch_params = Inr sample_launch_context"
  by (simp add: launch_context_def sample_launch_params_def sample_web_env_def sample_webserver_def sample_numbers
      mode_params_def key_params_def hex_param_def optional_u32_def unwrap_or_def session_keys_new_def
      audio_channels_from_def sample_launch_context_def)

theorem launch_ends_witness:
  "\<exists>m e. launch sample_web_env sample_webserver (sample_request_env LaunchTimesOut) sample_launch_params None
      (manager_new 60 True) = ((m, e), xml_error 503 LaunchFailed) \<and> session m = None \<and> keys_tx m \<noteq> None"
proof -
  obtain m e r where l: "launch sample_web_env sample_webserver (sample_request_env LaunchTimesOut) sample_launch_params None
      (manager_new 60 True) = ((m, e), r)" by (metis surj_pair)
  have "session (manager_new 60 True) = None" "keys_tx (manager_new 60 True) = None"
    "streams_ok (sample_request_env LaunchTimesOut) = (True, True, True)"
    "launch_outcome (sample_request_env LaunchTimesOut) = LaunchTimesOut"
    by (simp_all add: manager_new_def sample_request_env_def)
  with launch_ends [OF _ _ sample_launch_context _ l] l show ?thesis by auto
qed

definition sample_http_request :: request where
  "sample_http_request = \<lparr>verb = GET, path = ''/launch'', query = None, request_body = [], local_address = None,
     mac_address = None, via_https = True, peer_cert = None\<rparr>"

theorem protected_endpoints_witness:
  "\<exists>st r. serve sample_web_env sample_webserver (sample_request_env LaunchTimesOut) not_found sample_http_request
      \<lparr>web_clients = sample_client_manager, web_sessions = manager_new 60 True\<rparr> = (st, [], r) \<and> status r = 401"
proof -
  obtain st e r where s: "serve sample_web_env sample_webserver (sample_request_env LaunchTimesOut) not_found sample_http_request
      \<lparr>web_clients = sample_client_manager, web_sessions = manager_new 60 True\<rparr> = (st, e, r)" by (metis surj_pair)
  from protected_endpoints [OF s] s show ?thesis by (simp add: sample_http_request_def)
qed

end
