(* ===== verification/Audio_Encoder.thy ===== *)
theory Audio_Encoder
  imports Session_Types Crypto
begin

text \<open>
  \<open>session/stream/audio/encoder.rs\<close>: the audio thread turns captured frames into RTP packets and
  adds two parity packets after every four data packets. Opus, AES-CBC and the Reed-Solomon coder
  are parameters: \<open>encode_float\<close> and \<open>reset_state\<close> are the Opus encoder with its state,
  \<open>fec_encode\<close>, \<open>fec_reset\<close> and \<open>fec_reset_force\<close> the incremental coder
  \<open>fec_rs::ShardByShard\<close>, which works in place on the slices it is given.
  An out-of-range raw copy is undefined behaviour in the code; it is the outcome \<open>Panic\<close> here,
  and it is shown not to happen.
\<close>

section \<open>Packet layout\<close>

definition NR_DATA_SHARDS :: nat where "NR_DATA_SHARDS = 4"
definition NR_PARITY_SHARDS :: nat where "NR_PARITY_SHARDS = 2"
definition NR_TOTAL_SHARDS :: nat where "NR_TOTAL_SHARDS = NR_DATA_SHARDS + NR_PARITY_SHARDS"
definition MAX_SHARD_SIZE :: nat where "MAX_SHARD_SIZE = (2048 + 15) div 16 * 16"
definition AUDIO_RTP_SIZE :: nat where "AUDIO_RTP_SIZE = 12"
definition AUDIO_FEC_HEADER_SIZE :: nat where "AUDIO_FEC_HEADER_SIZE = 12"
definition ENCODED_AUDIO_SIZE :: nat where "ENCODED_AUDIO_SIZE = 1400"

text \<open>The header fields are stored big-endian; \<open>ssrc\<close> is 0.\<close>

definition write_audio_rtp :: "bytes \<Rightarrow> u16 \<Rightarrow> u32 \<Rightarrow> bytes" where
  "write_audio_rtp shard sequence_number timestamp =
     put_at 8 (to_be32 0)
      (put_at 4 (to_be32 timestamp)
        (put_at 2 (to_be16 sequence_number) (put_at 1 [97] (put_at 0 [0x80] shard))))"

text \<open>The header of a parity packet keeps its first byte: it is what the coder computed there.\<close>

definition write_parity_rtp :: "bytes \<Rightarrow> u16 \<Rightarrow> bytes" where
  "write_parity_rtp shard sequence_number =
     put_at 8 (to_be32 0)
      (put_at 4 (to_be32 0) (put_at 1 [127] (put_at 2 (to_be16 sequence_number) shard)))"

record audio_fec_header =
  afh_shard_index :: u8
  afh_payload_type :: u8
  afh_base_sequence_number :: bytes
  afh_base_timestamp :: bytes
  afh_ssrc :: u32

definition audio_fec_header_bytes :: "audio_fec_header \<Rightarrow> bytes" where
  "audio_fec_header_bytes h =
     [afh_shard_index h, afh_payload_type h] @ afh_base_sequence_number h @ afh_base_timestamp h
       @ to_be32 (afh_ssrc h)"

text \<open>\<open>remote_input_key_id as u32 + sequence_number as u32\<close> wraps in a release build, the model's choice; a debug build panics.\<close>

definition audio_iv :: "int \<Rightarrow> u16 \<Rightarrow> bytes" where
  "audio_iv key_id sequence_number =
     to_be32 (word_of_int key_id + ucast sequence_number) @ replicate 12 0"

definition audio_payload :: "(bytes \<Rightarrow> bytes \<Rightarrow> bytes \<Rightarrow> nat \<Rightarrow> bytes option) \<Rightarrow> bool \<Rightarrow>
    session_key_data \<Rightarrow> u16 \<Rightarrow> bytes \<Rightarrow> bytes res" where
  "audio_payload cbc_padded encrypted keys sequence_number encoded =
     (if encrypted
      then encrypt_cbc cbc_padded encoded (remote_input_key keys)
             (audio_iv (remote_input_key_id keys) sequence_number)
      else Inr encoded)"

definition audio_timestamp :: "nat \<Rightarrow> u32" where
  "audio_timestamp elapsed_us = word_of_nat (elapsed_us div (1000 div 90))"

text \<open>The parity matrix installed with \<open>set_parity_matrix\<close>, one row per parity shard.\<close>

definition PARITY_MATRIX :: "u8 list" where
  "PARITY_MATRIX = [0x77, 0x40, 0x38, 0x0e, 0xc7, 0xa7, 0x0d, 0x6c]"

definition parity_coefficient :: "nat \<Rightarrow> nat \<Rightarrow> u8" where
  "parity_coefficient p j = PARITY_MATRIX ! (p * NR_DATA_SHARDS + j)"

section \<open>The encode loop\<close>

record ('enc, 'fec) audio_encoder =
  ae_opus :: 'enc
  ae_fec :: 'fec
  ae_shards :: "bytes list"
  ae_sequence_number :: u16
  ae_base_sequence_number :: bytes
  ae_base_timestamp :: bytes

definition audio_encoder_new :: "'enc \<Rightarrow> 'fec \<Rightarrow> ('enc, 'fec) audio_encoder" where
  "audio_encoder_new opus fec =
     \<lparr>ae_opus = opus, ae_fec = fec,
      ae_shards = replicate NR_TOTAL_SHARDS (replicate MAX_SHARD_SIZE 0),
      ae_sequence_number = 0, ae_base_sequence_number = [0, 0], ae_base_timestamp = [0, 0, 0, 0]\<rparr>"

text \<open>One turn's inputs: the frame received, the time since the stream started, the keys read
  from the watch channel, and whether the packet channel takes the \<open>n\<close>-th packet of the turn.\<close>

record 'fr audio_input =
  ai_frame :: 'fr
  ai_elapsed_us :: nat
  ai_keys :: session_key_data
  ai_tx_open :: "nat \<Rightarrow> bool"

datatype loop_exit = Continue | Break

text \<open>The result of a turn: state, packets sent, whether the frame was given back for recycling,
  and whether the loop goes on.\<close>

type_synonym ('enc, 'fec) audio_result =
  "(('enc, 'fec) audio_encoder \<times> bytes list \<times> bool \<times> loop_exit) res"

definition parity_packet :: "u16 \<Rightarrow> bytes \<Rightarrow> bytes \<Rightarrow> nat \<Rightarrow> nat \<Rightarrow> bytes \<Rightarrow> bytes res" where
  "parity_packet sequence_number base_seq base_ts payload_len shard_index shard =
     (let shard1 = write_parity_rtp shard (sequence_number + word_of_nat shard_index);
          payload = slice AUDIO_RTP_SIZE (AUDIO_RTP_SIZE + payload_len) shard1 in
      if length shard < AUDIO_RTP_SIZE + AUDIO_FEC_HEADER_SIZE + payload_len then Inl Panic
      else let moved = put_at (AUDIO_RTP_SIZE + AUDIO_FEC_HEADER_SIZE) payload shard1;
               header = \<lparr>afh_shard_index = word_of_nat shard_index, afh_payload_type = 97,
                         afh_base_sequence_number = base_seq, afh_base_timestamp = base_ts,
                         afh_ssrc = 0\<rparr>
           in Inr (put_at AUDIO_RTP_SIZE (audio_fec_header_bytes header) moved))"

text \<open>The loop over the parity shards: the shards are rewritten one by one until a send fails.\<close>

fun send_parity :: "u16 \<Rightarrow> bytes \<Rightarrow> bytes \<Rightarrow> nat \<Rightarrow> (nat \<Rightarrow> bool) \<Rightarrow> nat \<Rightarrow> bytes list \<Rightarrow>
    (bytes list \<times> bytes list) res" where
  "send_parity sequence_number base_seq base_ts payload_len tx_open shard_index [] = Inr ([], [])"
| "send_parity sequence_number base_seq base_ts payload_len tx_open shard_index (shard # rest) =
     rbind (parity_packet sequence_number base_seq base_ts payload_len shard_index shard) (\<lambda>shard'.
       if \<not> tx_open (Suc shard_index) then Inr (shard' # rest, [])
       else rbind (send_parity sequence_number base_seq base_ts payload_len tx_open
                     (Suc shard_index) rest) (\<lambda>(rest', packets).
         Inr (shard' # rest',
              take (AUDIO_RTP_SIZE + AUDIO_FEC_HEADER_SIZE + payload_len) shard' # packets)))"

definition audio_fec_phase :: "('fec \<Rightarrow> bytes list \<Rightarrow> 'fec \<times> bytes list) \<Rightarrow> ('fec \<Rightarrow> 'fec option) \<Rightarrow>
    ('fec \<Rightarrow> 'fec) \<Rightarrow> (nat \<Rightarrow> bool) \<Rightarrow> nat \<Rightarrow> bytes \<Rightarrow> ('enc, 'fec) audio_encoder \<Rightarrow>
    ('enc, 'fec) audio_result" where
  "audio_fec_phase fec_encode fec_reset fec_reset_force tx_open payload_len data_shard st =
     (let data_shard_size = AUDIO_RTP_SIZE + payload_len;
          (fec', slices) = fec_encode (ae_fec st) (map (take data_shard_size) (ae_shards st));
          shards' = map2 (put_at 0) slices (ae_shards st) in
      if unat (ae_sequence_number st) mod NR_DATA_SHARDS \<noteq> 0
      then Inr (st\<lparr>ae_fec := fec', ae_shards := shards'\<rparr>, [data_shard], True, Continue)
      else case fec_reset fec' of
          None \<Rightarrow> Inr (st\<lparr>ae_fec := fec_reset_force fec', ae_shards := shards'\<rparr>,
                        [data_shard], True, Continue)
        | Some fec'' \<Rightarrow>
            rbind (send_parity (ae_sequence_number st) (ae_base_sequence_number st)
                     (ae_base_timestamp st) payload_len tx_open 0 (drop NR_DATA_SHARDS shards'))
              (\<lambda>(parity', packets).
                 Inr (st\<lparr>ae_fec := fec'', ae_shards := take NR_DATA_SHARDS shards' @ parity'\<rparr>,
                      data_shard # packets, True, Continue)))"

text \<open>The turn's data packet is written into shard \<open>sequence_number % 4\<close>; the first of four also
  leaves its sequence number and timestamp for the parity packets.\<close>

definition store_data_shard :: "u32 \<Rightarrow> bytes \<Rightarrow> ('enc, 'fec) audio_encoder \<Rightarrow> ('enc, 'fec) audio_encoder" where
  "store_data_shard timestamp payload st =
     (let seq = ae_sequence_number st;
          index = unat seq mod NR_DATA_SHARDS;
          shard = write_audio_rtp (ae_shards st ! index) seq timestamp;
          first = (index = 0) in
      st\<lparr>ae_sequence_number := seq + 1,
         ae_base_sequence_number := (if first then slice 2 4 shard else ae_base_sequence_number st),
         ae_base_timestamp := (if first then slice 4 8 shard else ae_base_timestamp st),
         ae_shards := (ae_shards st)[index := put_at AUDIO_RTP_SIZE payload shard]\<rparr>)"

definition audio_data_phase :: "('fec \<Rightarrow> bytes list \<Rightarrow> 'fec \<times> bytes list) \<Rightarrow> ('fec \<Rightarrow> 'fec option) \<Rightarrow>
    ('fec \<Rightarrow> 'fec) \<Rightarrow> (nat \<Rightarrow> bool) \<Rightarrow> u32 \<Rightarrow> bytes \<Rightarrow> ('enc, 'fec) audio_encoder \<Rightarrow>
    ('enc, 'fec) audio_result" where
  "audio_data_phase fec_encode fec_reset fec_reset_force tx_open timestamp payload st =
     (let index = unat (ae_sequence_number st) mod NR_DATA_SHARDS;
          data_shard_size = AUDIO_RTP_SIZE + length payload;
          st' = store_data_shard timestamp payload st in
      if length (ae_shards st ! index) < data_shard_size then Inl Panic
      else if \<not> tx_open 0 then Inr (st', [], False, Break)
      else audio_fec_phase fec_encode fec_reset fec_reset_force tx_open (length payload)
             (take data_shard_size (ae_shards st' ! index)) st')"

definition audio_turn :: "('enc \<Rightarrow> 'fr \<Rightarrow> bytes option \<times> 'enc) \<Rightarrow> ('enc \<Rightarrow> 'enc) \<Rightarrow>
    (bytes \<Rightarrow> bytes \<Rightarrow> bytes \<Rightarrow> nat \<Rightarrow> bytes option) \<Rightarrow>
    ('fec \<Rightarrow> bytes list \<Rightarrow> 'fec \<times> bytes list) \<Rightarrow> ('fec \<Rightarrow> 'fec option) \<Rightarrow> ('fec \<Rightarrow> 'fec) \<Rightarrow>
    bool \<Rightarrow> 'fr audio_input \<Rightarrow> ('enc, 'fec) audio_encoder \<Rightarrow> ('enc, 'fec) audio_result" where
  "audio_turn encode_float reset_state cbc_padded fec_encode fec_reset fec_reset_force encrypted inp st =
     (case encode_float (ae_opus st) (ai_frame inp) of
        (None, opus) \<Rightarrow> Inr (st\<lparr>ae_opus := reset_state opus\<rparr>, [], True, Continue)
      | (Some encoded, opus) \<Rightarrow>
          if ENCODED_AUDIO_SIZE < length encoded then Inl Panic
          else case audio_payload cbc_padded encrypted (ai_keys inp) (ae_sequence_number st) encoded of
              Inl Panic \<Rightarrow> Inl Panic
            | Inl Err \<Rightarrow> Inr (st\<lparr>ae_opus := opus\<rparr>, [], True, Continue)
            | Inr payload \<Rightarrow>
                audio_data_phase fec_encode fec_reset fec_reset_force (ai_tx_open inp)
                  (audio_timestamp (ai_elapsed_us inp)) payload (st\<lparr>ae_opus := opus\<rparr>))"

text \<open>The loop: it ends when the shutdown is triggered, the frame channel is closed or a data
  packet cannot be handed on.\<close>

datatype 'fr audio_event = AudioShutdown | FramesClosed | AudioInput "'fr audio_input"

fun audio_run :: "('enc \<Rightarrow> 'fr \<Rightarrow> bytes option \<times> 'enc) \<Rightarrow> ('enc \<Rightarrow> 'enc) \<Rightarrow>
    (bytes \<Rightarrow> bytes \<Rightarrow> bytes \<Rightarrow> nat \<Rightarrow> bytes option) \<Rightarrow>
    ('fec \<Rightarrow> bytes list \<Rightarrow> 'fec \<times> bytes list) \<Rightarrow> ('fec \<Rightarrow> 'fec option) \<Rightarrow> ('fec \<Rightarrow> 'fec) \<Rightarrow>
    bool \<Rightarrow> 'fr audio_event list \<Rightarrow> ('enc, 'fec) audio_encoder \<Rightarrow>
    (('enc, 'fec) audio_encoder \<times> bytes list) res" where
  "audio_run encode_float reset_state cbc_padded fec_encode fec_reset fec_reset_force encrypted [] st =
     Inr (st, [])"
| "audio_run encode_float reset_state cbc_padded fec_encode fec_reset fec_reset_force encrypted
      (AudioShutdown # evs) st = Inr (st, [])"
| "audio_run encode_float reset_state cbc_padded fec_encode fec_reset fec_reset_force encrypted
      (FramesClosed # evs) st = Inr (st, [])"
| "audio_run encode_float reset_state cbc_padded fec_encode fec_reset fec_reset_force encrypted
      (AudioInput inp # evs) st =
     rbind (audio_turn encode_float reset_state cbc_padded fec_encode fec_reset fec_reset_force
              encrypted inp st) (\<lambda>(st', packets, _, next).
       case next of
         Break \<Rightarrow> Inr (st', packets)
       | Continue \<Rightarrow>
           rbind (audio_run encode_float reset_state cbc_padded fec_encode fec_reset fec_reset_force
                    encrypted evs st') (\<lambda>(st'', rest). Inr (st'', packets @ rest)))"

section \<open>Memory safety\<close>

lemmas audio_sizes = NR_DATA_SHARDS_def NR_PARITY_SHARDS_def NR_TOTAL_SHARDS_def MAX_SHARD_SIZE_def
  AUDIO_RTP_SIZE_def AUDIO_FEC_HEADER_SIZE_def ENCODED_AUDIO_SIZE_def

definition opus_contract :: "('enc \<Rightarrow> 'fr \<Rightarrow> bytes option \<times> 'enc) \<Rightarrow> bool" where
  "opus_contract encode_float \<longleftrightarrow>
     (\<forall>opus frame encoded opus'. encode_float opus frame = (Some encoded, opus') \<longrightarrow>
        length encoded \<le> ENCODED_AUDIO_SIZE)"

definition fec_in_place :: "('fec \<Rightarrow> bytes list \<Rightarrow> 'fec \<times> bytes list) \<Rightarrow> bool" where
  "fec_in_place fec_encode \<longleftrightarrow>
     (\<forall>fec slices. list_all2 (\<lambda>a b. length a = length b) (snd (fec_encode fec slices)) slices)"

definition audio_inv :: "('enc, 'fec) audio_encoder \<Rightarrow> bool" where
  "audio_inv st \<longleftrightarrow>
     length (ae_shards st) = 6 \<and> (\<forall>shard \<in> set (ae_shards st). length shard = 2048) \<and>
     length (ae_base_sequence_number st) = 2 \<and> length (ae_base_timestamp st) = 4"

lemma audio_inv_new: "audio_inv (audio_encoder_new opus fec)"
  by (simp add: audio_inv_def audio_encoder_new_def audio_sizes)

lemma length_write_audio_rtp [simp]: "12 \<le> length shard \<Longrightarrow> length (write_audio_rtp shard seq ts) = length shard"
  by (simp add: write_audio_rtp_def length_put_at)

lemma length_write_parity_rtp [simp]: "12 \<le> length shard \<Longrightarrow> length (write_parity_rtp shard seq) = length shard"
  by (simp add: write_parity_rtp_def length_put_at)

lemma length_audio_fec_header [simp]:
  "length (afh_base_sequence_number h) = 2 \<Longrightarrow> length (afh_base_timestamp h) = 4 \<Longrightarrow>
     length (audio_fec_header_bytes h) = 12"
  by (simp add: audio_fec_header_bytes_def)

lemma length_audio_iv [simp]: "length (audio_iv key_id seq) = 16"
  by (simp add: audio_iv_def)

lemma audio_payload_length:
  assumes "cbc_contract cbc_padded" and "length encoded \<le> ENCODED_AUDIO_SIZE"
    and "audio_payload cbc_padded encrypted keys seq encoded = Inr payload"
  shows "length payload \<le> 1408"
proof (cases encrypted)
  case True
  then have e: "encrypt_cbc cbc_padded encoded (remote_input_key keys)
      (audio_iv (remote_input_key_id keys) seq) = Inr payload"
    using assms(3) by (simp add: audio_payload_def)
  then have "length (remote_input_key keys) = 16"
    by (auto simp: encrypt_cbc_def split: if_splits)
  from encrypt_cbc_ok [OF assms(1) this length_audio_iv [of "remote_input_key_id keys" seq], of encoded] e
  have "length payload = (length encoded div 16 + 1) * 16" by simp
  then show ?thesis using assms(2) by (simp add: audio_sizes)
next
  case False
  then show ?thesis using assms by (simp add: audio_payload_def audio_sizes)
qed

lemma audio_payload_not_Panic: "audio_payload cbc_padded encrypted keys seq encoded \<noteq> Inl Panic"
  by (auto simp: audio_payload_def encrypt_cbc_def Let_def)

lemma parity_packet_ok:
  assumes "length shard = 2048" and "n \<le> 1408" and "length bs = 2" "length bt = 4"
  shows "\<exists>shard'. parity_packet seq bs bt n k shard = Inr shard' \<and> length shard' = 2048"
  using assms by (simp add: parity_packet_def Let_def audio_sizes length_put_at length_slice)

lemma send_parity_ok:
  assumes "\<forall>shard \<in> set shards. length shard = 2048" and "n \<le> 1408" and "length bs = 2" "length bt = 4"
  shows "\<exists>shards' packets. send_parity seq bs bt n tx k shards = Inr (shards', packets) \<and>
    length shards' = length shards \<and> (\<forall>shard \<in> set shards'. length shard = 2048)"
  using assms(1)
proof (induction shards arbitrary: k)
  case Nil
  then show ?case by simp
next
  case (Cons shard shards)
  obtain shard' where "parity_packet seq bs bt n k shard = Inr shard'" "length shard' = 2048"
    using parity_packet_ok [of shard n bs bt seq k] Cons.prems assms by auto
  moreover obtain shards' packets where "send_parity seq bs bt n tx (Suc k) shards = Inr (shards', packets)"
    "length shards' = length shards" "\<forall>shard \<in> set shards'. length shard = 2048"
    using Cons.IH [of "Suc k"] Cons.prems by auto
  ultimately show ?case using Cons.prems by auto
qed

lemma fec_slices:
  assumes "fec_in_place fec_encode" and "\<forall>shard \<in> set shards. length shard = 2048" and "n \<le> 2048"
    and "fec_encode fec (map (take n) shards) = (fec', slices)"
  shows "length (map2 (put_at 0) slices shards) = length shards"
    and "\<forall>shard \<in> set (map2 (put_at 0) slices shards). length shard = 2048"
proof -
  have len: "list_all2 (\<lambda>a b. length a = length b) slices (map (take n) shards)"
    using assms(1,4) unfolding fec_in_place_def by (metis snd_conv)
  then show "length (map2 (put_at 0) slices shards) = length shards"
    by (simp add: list_all2_lengthD)
  show "\<forall>shard \<in> set (map2 (put_at 0) slices shards). length shard = 2048"
  proof
    fix shard assume "shard \<in> set (map2 (put_at 0) slices shards)"
    then obtain i where i: "i < length slices" "i < length shards"
      and s: "shard = put_at 0 (slices ! i) (shards ! i)"
      by (auto simp: in_set_conv_nth)
    then have "length (slices ! i) = min (length (shards ! i)) n"
      using list_all2_nthD [OF len, of i] by simp
    moreover have "length (shards ! i) = 2048" using assms(2) i by simp
    ultimately show "length shard = 2048" using s by (simp add: length_put_at)
  qed
qed

lemma audio_fec_phase_ok:
  assumes "fec_in_place fec_encode" and "audio_inv st" and "n \<le> 1408"
  shows "\<exists>st' packets. audio_fec_phase fec_encode fec_reset force tx n d st = Inr (st', packets, True, Continue) \<and>
    audio_inv st'"
proof -
  obtain fec' slices where f: "fec_encode (ae_fec st) (map (take (12 + n)) (ae_shards st)) = (fec', slices)"
    by (rule prod.exhaust)
  define sh where "sh = map2 (put_at 0) slices (ae_shards st)"
  have inv: "\<forall>shard \<in> set (ae_shards st). length shard = 2048" "length (ae_shards st) = 6"
    "length (ae_base_sequence_number st) = 2" "length (ae_base_timestamp st) = 4"
    using assms(2) by (simp_all add: audio_inv_def)
  have sh: "length sh = 6" "\<forall>shard \<in> set sh. length shard = 2048"
    using fec_slices [OF assms(1) inv(1) _ f] assms(3) inv(2) unfolding sh_def by simp_all
  then have "\<forall>shard \<in> set (drop 4 sh). length shard = 2048" by (meson in_set_dropD)
  then obtain ps packets where p: "send_parity (ae_sequence_number st) (ae_base_sequence_number st)
      (ae_base_timestamp st) n tx 0 (drop 4 sh) = Inr (ps, packets)"
      "length ps = length (drop 4 sh)" "\<forall>shard \<in> set ps. length shard = 2048"
    using send_parity_ok [of "drop 4 sh"] assms(3) inv(3,4) by blast
  have t: "\<forall>shard \<in> set (take 4 sh). length shard = 2048" using sh(2) by (meson in_set_takeD)
  note f' = f [folded AUDIO_RTP_SIZE_def] and p' = p(1)
  show ?thesis
    unfolding audio_fec_phase_def Let_def AUDIO_RTP_SIZE_def NR_DATA_SHARDS_def f prod.case sh_def [symmetric]
    using p t sh inv by (auto simp: audio_inv_def split: option.split)
qed

lemma store_data_shard_inv:
  assumes "audio_inv st" and "length payload \<le> 1408"
  shows "audio_inv (store_data_shard ts payload st)"
proof -
  define index where "index = unat (ae_sequence_number st) mod 4"
  define shard where "shard = write_audio_rtp (ae_shards st ! index) (ae_sequence_number st) ts"
  have inv: "\<forall>shard \<in> set (ae_shards st). length shard = 2048" "length (ae_shards st) = 6"
    using assms(1) by (simp_all add: audio_inv_def)
  then have l: "length shard = 2048" by (simp add: shard_def index_def)
  then have "length (slice 2 4 shard) = 2" "length (slice 4 8 shard) = 4"
    "length (put_at 12 payload shard) = 2048"
    using assms(2) by (simp_all add: length_slice length_put_at)
  with assms inv show ?thesis
    unfolding store_data_shard_def Let_def AUDIO_RTP_SIZE_def NR_DATA_SHARDS_def
      index_def [symmetric] shard_def [symmetric]
    by (auto simp: audio_inv_def dest!: subsetD [OF set_update_subset_insert])
qed

lemma audio_data_phase_ok:
  assumes "fec_in_place fec_encode" and "audio_inv st" and "length payload \<le> 1408"
  shows "\<exists>st' packets r x. audio_data_phase fec_encode fec_reset force tx ts payload st = Inr (st', packets, r, x) \<and>
    audio_inv st' \<and> (x = Continue \<longrightarrow> r)"
proof -
  have inv: "audio_inv (store_data_shard ts payload st)" by (rule store_data_shard_inv [OF assms(2,3)])
  have "length (ae_shards st ! (unat (ae_sequence_number st) mod 4)) = 2048"
    using assms(2) by (simp add: audio_inv_def)
  with assms(3) inv show ?thesis
    using audio_fec_phase_ok [OF assms(1) inv assms(3), of fec_reset force tx]
    unfolding audio_data_phase_def Let_def AUDIO_RTP_SIZE_def NR_DATA_SHARDS_def
    by (cases "tx 0") fastforce+
qed

lemma audio_turn_ok:
  assumes "opus_contract encode_float" "cbc_contract cbc_padded" "fec_in_place fec_encode" and "audio_inv st"
  shows "\<exists>st' packets r x. audio_turn encode_float reset_state cbc_padded fec_encode fec_reset force encrypted inp st
      = Inr (st', packets, r, x) \<and> audio_inv st' \<and> (x = Continue \<longrightarrow> r)"
proof -
  obtain eo opus where e: "encode_float (ae_opus st) (ai_frame inp) = (eo, opus)" by (rule prod.exhaust)
  have inv: "audio_inv (st\<lparr>ae_opus := opus'\<rparr>)" for opus' using assms(4) by (simp add: audio_inv_def)
  show ?thesis
  proof (cases eo)
    case None
    with e inv show ?thesis by (auto simp: audio_turn_def)
  next
    case (Some encoded)
    with e assms(1) have l: "length encoded \<le> ENCODED_AUDIO_SIZE"
      unfolding opus_contract_def by blast
    show ?thesis
    proof (cases "audio_payload cbc_padded encrypted (ai_keys inp) (ae_sequence_number st) encoded")
      case (Inl f)
      with audio_payload_not_Panic have "f = Err" by (metis failure.exhaust)
      with Inl Some e l inv show ?thesis by (auto simp: audio_turn_def)
    next
      case (Inr payload)
      from audio_payload_length [OF assms(2) l Inr] have "length payload \<le> 1408" .
      from audio_data_phase_ok [OF assms(3) inv this] Inr Some e l show ?thesis
        by (simp add: audio_turn_def)
    qed
  qed
qed

section \<open>What a turn sends\<close>

definition data_packet :: "u16 \<Rightarrow> u32 \<Rightarrow> bytes \<Rightarrow> bytes" where
  "data_packet seq timestamp payload =
     [0x80, 97] @ to_be16 seq @ to_be32 timestamp @ to_be32 0 @ payload"

lemma write_audio_rtp_eq:
  "12 \<le> length shard \<Longrightarrow>
     write_audio_rtp shard seq ts = [0x80, 97] @ to_be16 seq @ to_be32 ts @ to_be32 0 @ drop 12 shard"
  by (simp add: write_audio_rtp_def put_at_def)

lemma write_parity_rtp_eq:
  assumes "12 \<le> length shard"
  shows "write_parity_rtp shard seq =
    [hd shard, 127] @ to_be16 seq @ to_be32 0 @ to_be32 0 @ drop 12 shard"
proof -
  obtain a b rest where "shard = a # b # rest"
    using assms by (cases shard; cases "tl shard") auto
  with assms show ?thesis by (simp add: write_parity_rtp_def put_at_def)
qed

lemma nat_to_le_0: "nat_to_le n 0 = replicate n 0"
  by (induction n) auto

lemma to_be32_zeros: "replicate 8 0 = to_be32 0 @ to_be32 0" "replicate 4 0 = to_be32 0"
  by (simp_all add: to_be32_def to_le32_def nat_to_le_0 flip: replicate_add)

lemma parity_packet_eq:
  assumes "length shard = 2048" and "n \<le> 1408" and "length bs = 2" "length bt = 4"
  shows "\<exists>shard'. parity_packet seq bs bt n k shard = Inr shard' \<and>
    take (24 + n) shard' = [hd shard, 127] @ to_be16 (seq + word_of_nat k) @ replicate 8 0
      @ [word_of_nat k, 97] @ bs @ bt @ replicate 4 0 @ slice 12 (12 + n) shard"
proof -
  note z = to_be32_zeros
  define s1 where "s1 = write_parity_rtp shard (seq + word_of_nat k)"
  define r where "r = [hd shard, 127] @ to_be16 (seq + word_of_nat k) @ to_be32 0 @ to_be32 0"
  have r: "length r = 12" by (simp add: r_def)
  have s1: "s1 = r @ drop 12 shard"
    using assms(1) by (simp add: s1_def r_def write_parity_rtp_eq)
  have sl: "slice 12 (12 + n) s1 = take n (drop 12 shard)"
    unfolding s1 by (simp add: slice_def r)
  then have sl': "length (slice 12 (12 + n) s1) = n" using assms(1,2) by simp
  define h where "h = [word_of_nat k, 97] @ bs @ bt @ to_be32 0"
  have lh: "length h = 12" using assms(3,4) by (simp add: h_def)
  have "put_at 12 h (put_at 24 (slice 12 (12 + n) s1) s1) =
     r @ h @ take n (drop 12 shard) @ drop (24 + n) s1"
    using assms(1,2) sl' lh r unfolding sl unfolding put_at_def s1 by simp
  then have t: "take (24 + n) (put_at 12 h (put_at 24 (slice 12 (12 + n) s1) s1)) =
     r @ h @ take n (drop 12 shard)"
    using assms(1,2) lh r by simp
  have "parity_packet seq bs bt n k shard = Inr (put_at 12 h (put_at 24 (slice 12 (12 + n) s1) s1))"
    using assms(1,2)
    by (simp add: parity_packet_def Let_def audio_sizes s1_def audio_fec_header_bytes_def h_def)
  with t show ?thesis unfolding z by (simp add: r_def h_def slice_def)
qed

lemma store_data_shard_shards:
  assumes "audio_inv st" and "length payload \<le> 1408"
  defines "i \<equiv> unat (ae_sequence_number st) mod 4"
  shows "take (12 + length payload) (ae_shards (store_data_shard ts payload st) ! i) =
      data_packet (ae_sequence_number st) ts payload"
    and "k < 6 \<Longrightarrow> k \<noteq> i \<Longrightarrow> ae_shards (store_data_shard ts payload st) ! k = ae_shards st ! k"
    and "i = 0 \<Longrightarrow> ae_base_sequence_number (store_data_shard ts payload st) = to_be16 (ae_sequence_number st)"
    and "i = 0 \<Longrightarrow> ae_base_timestamp (store_data_shard ts payload st) = to_be32 ts"
proof -
  have l: "length (ae_shards st ! i) = 2048" "i < length (ae_shards st)"
    using assms(1) by (simp_all add: audio_inv_def i_def)
  note d = store_data_shard_def Let_def AUDIO_RTP_SIZE_def NR_DATA_SHARDS_def i_def [symmetric]
  show "take (12 + length payload) (ae_shards (store_data_shard ts payload st) ! i) =
      data_packet (ae_sequence_number st) ts payload"
  proof -
    have "ae_shards (store_data_shard ts payload st) ! i = data_packet (ae_sequence_number st) ts payload @
        drop (12 + length payload) (write_audio_rtp (ae_shards st ! i) (ae_sequence_number st) ts)"
      using l unfolding d by (simp add: data_packet_def put_at_def write_audio_rtp_eq)
    moreover have "length (data_packet (ae_sequence_number st) ts payload) = 12 + length payload"
      by (simp add: data_packet_def)
    ultimately show ?thesis by simp
  qed
  show "k < 6 \<Longrightarrow> k \<noteq> i \<Longrightarrow> ae_shards (store_data_shard ts payload st) ! k = ae_shards st ! k"
    unfolding d by simp
  show "i = 0 \<Longrightarrow> ae_base_sequence_number (store_data_shard ts payload st) = to_be16 (ae_sequence_number st)"
    using l unfolding d by (simp add: write_audio_rtp_eq slice_def)
  show "i = 0 \<Longrightarrow> ae_base_timestamp (store_data_shard ts payload st) = to_be32 ts"
    using l unfolding d by (simp add: write_audio_rtp_eq slice_def)
qed

lemma store_data_shard_fields [simp]:
  "ae_sequence_number (store_data_shard ts payload st) = ae_sequence_number st + 1"
  "ae_fec (store_data_shard ts payload st) = ae_fec st"
  "ae_opus (store_data_shard ts payload st) = ae_opus st"
  by (simp_all add: store_data_shard_def Let_def)

section \<open>A block of four data packets and its parity\<close>

text \<open>
  What \<open>fec_rs::ShardByShard\<close> documents, with \<open>count\<close> the number of data shards it has taken:
  each call multiplies the next data shard by its column of the matrix, overwriting the parity
  shards at the first call and adding into them at the others; \<open>reset\<close> succeeds once all four are in.
  \<open>gf\<close> is multiplication in the field of 256 elements.
\<close>

definition gf_contract :: "(u8 \<Rightarrow> u8 \<Rightarrow> u8) \<Rightarrow> bool" where
  "gf_contract gf \<longleftrightarrow> (\<forall>b. gf 1 b = b) \<and> (\<forall>a b c. gf (a XOR b) c = gf a c XOR gf b c)"

definition sbs_contract :: "(u8 \<Rightarrow> u8 \<Rightarrow> u8) \<Rightarrow> ('fec \<Rightarrow> nat) \<Rightarrow> ('fec \<Rightarrow> bytes list \<Rightarrow> 'fec \<times> bytes list) \<Rightarrow>
    ('fec \<Rightarrow> 'fec option) \<Rightarrow> bool" where
  "sbs_contract gf count fec_encode fec_reset \<longleftrightarrow>
     (\<forall>fec slices n fec' slices'.
        count fec < 4 \<longrightarrow> length slices = 6 \<longrightarrow> (\<forall>s \<in> set slices. length s = n) \<longrightarrow>
        fec_encode fec slices = (fec', slices') \<longrightarrow>
          count fec' = Suc (count fec) \<and> take 4 slices' = take 4 slices \<and>
          (\<forall>p < 2. slices' ! (4 + p) =
             (let term = map (gf (parity_coefficient p (count fec))) (slices ! count fec) in
              if count fec = 0 then term else map2 (XOR) (slices ! (4 + p)) term))) \<and>
     (\<forall>fec. count fec = 4 \<longrightarrow> (\<exists>fec'. fec_reset fec = Some fec' \<and> count fec' = 0))"

text \<open>The parity of the data shards taken so far.\<close>

fun parity_sum :: "(u8 \<Rightarrow> u8 \<Rightarrow> u8) \<Rightarrow> nat \<Rightarrow> nat \<Rightarrow> bytes list \<Rightarrow> bytes" where
  "parity_sum gf p 0 ds = []"
| "parity_sum gf p (Suc j) ds =
     (let term = map (gf (parity_coefficient p j)) (ds ! j) in
      if j = 0 then term else map2 (XOR) (parity_sum gf p j ds) term)"

text \<open>The state between the \<open>j\<close>-th and the next turn of a block whose data packets are \<open>ds\<close>.\<close>

definition in_block :: "(u8 \<Rightarrow> u8 \<Rightarrow> u8) \<Rightarrow> ('fec \<Rightarrow> nat) \<Rightarrow> nat \<Rightarrow> nat \<Rightarrow> bytes list \<Rightarrow>
    ('enc, 'fec) audio_encoder \<Rightarrow> bool" where
  "in_block gf count n j ds st \<longleftrightarrow>
     audio_inv st \<and> count (ae_fec st) = j \<and> unat (ae_sequence_number st) mod 4 = j \<and>
     (0 < j \<longrightarrow> (\<forall>p < 2. take n (ae_shards st ! (4 + p)) = parity_sum gf p j ds))"

lemma unat_Suc_mod4: "unat ((w :: u16) + 1) mod 4 = Suc (unat w) mod 4"
proof -
  have "unat (w + 1) = Suc (unat w) mod 65536"
    by (simp add: unat_word_ariths)
  then show ?thesis by (simp add: mod_mod_cancel)
qed

lemma sbs_encode:
  assumes "sbs_contract gf count fec_encode fec_reset" and "count fec < 4" and "length slices = 6"
    and "\<forall>s \<in> set slices. length s = n" and "fec_encode fec slices = (fec', slices')"
  shows "count fec' = Suc (count fec)"
    and "p < 2 \<Longrightarrow> slices' ! (4 + p) =
      (let term = map (gf (parity_coefficient p (count fec))) (slices ! count fec) in
       if count fec = 0 then term else map2 (XOR) (slices ! (4 + p)) term)"
  using assms unfolding sbs_contract_def by blast+

lemma block_fec:
  assumes sbs: "sbs_contract gf count fec_encode fec_reset" and ip: "fec_in_place fec_encode"
    and inv: "audio_inv st" and count: "count (ae_fec st) = j" "j < 4" and n: "n \<le> 2048"
    and d: "take n (ae_shards st ! j) = ds ! j"
    and acc: "0 < j \<Longrightarrow> p < 2 \<Longrightarrow> take n (ae_shards st ! (4 + p)) = parity_sum gf p j ds"
    and f: "fec_encode (ae_fec st) (map (take n) (ae_shards st)) = (fec', slices)"
    and p: "p < (2 :: nat)"
  shows "count fec' = Suc j" and "take n (map2 (put_at 0) slices (ae_shards st) ! (4 + p)) = parity_sum gf p (Suc j) ds"
proof -
  have l: "length (ae_shards st) = 6" "\<forall>s \<in> set (ae_shards st). length s = 2048"
    using inv by (simp_all add: audio_inv_def)
  have ls: "list_all2 (\<lambda>a b. length a = length b) slices (map (take n) (ae_shards st))"
    using ip f unfolding fec_in_place_def by (metis snd_conv)
  have ln: "\<forall>s \<in> set (map (take n) (ae_shards st)). length s = n" using l n by simp
  have c: "count fec' = Suc (count (ae_fec st))"
    and sl: "slices ! (4 + p) = (let term = map (gf (parity_coefficient p j)) (map (take n) (ae_shards st) ! j) in
       if j = 0 then term else map2 (XOR) (map (take n) (ae_shards st) ! (4 + p)) term)"
    using sbs_encode [OF sbs _ _ ln f] count l p by simp_all
  from c count show "count fec' = Suc j" by simp
  have "slices ! (4 + p) = parity_sum gf p (Suc j) ds"
    using sl d acc p l count by (simp add: Let_def)
  moreover have "length (slices ! (4 + p)) = n"
    using list_all2_nthD [OF ls, of "4 + p"] list_all2_lengthD [OF ls] l p n by simp
  moreover have "map2 (put_at 0) slices (ae_shards st) ! (4 + p) = put_at 0 (slices ! (4 + p)) (ae_shards st ! (4 + p))"
    using list_all2_lengthD [OF ls] l p by simp
  ultimately show "take n (map2 (put_at 0) slices (ae_shards st) ! (4 + p)) = parity_sum gf p (Suc j) ds"
    by (simp add: put_at_def)
qed


text \<open>A turn inside a block sends its data packet; the last of the block sends the two parity packets too.\<close>

definition fec_packet :: "u16 \<Rightarrow> bytes \<Rightarrow> bytes \<Rightarrow> nat \<Rightarrow> bytes \<Rightarrow> bytes" where
  "fec_packet seq bs bt k parity =
     [hd parity, 127] @ to_be16 (seq + word_of_nat k) @ replicate 8 0
       @ [word_of_nat k, 97] @ bs @ bt @ replicate 4 0 @ drop 12 parity"

lemma block_absorb:
  assumes sbs: "sbs_contract gf count fec_encode fec_reset" and ip: "fec_in_place fec_encode"
    and blk: "in_block gf count (12 + n) j ds st" "j < 4"
    and ds: "ds ! j = data_packet (ae_sequence_number st) ts payload" "length payload = n" "n \<le> 1408"
    and tx: "\<forall>k. tx k"
  obtains fec' slices where
    "fec_encode (ae_fec st) (map (take (12 + n)) (ae_shards (store_data_shard ts payload st))) = (fec', slices)"
    "audio_inv ((store_data_shard ts payload st)\<lparr>ae_fec := fec',
        ae_shards := map2 (put_at 0) slices (ae_shards (store_data_shard ts payload st))\<rparr>)"
    "count fec' = Suc j"
    "\<forall>p < 2. take (12 + n) (map2 (put_at 0) slices (ae_shards (store_data_shard ts payload st)) ! (4 + p)) =
       parity_sum gf p (Suc j) ds"
    "\<forall>force. audio_data_phase fec_encode fec_reset force tx ts payload st =
      audio_fec_phase fec_encode fec_reset force tx n (ds ! j) (store_data_shard ts payload st)"
proof -
  have inv: "audio_inv st" "count (ae_fec st) = j" "unat (ae_sequence_number st) mod 4 = j"
    using blk by (simp_all add: in_block_def)
  define s2 where "s2 = store_data_shard ts payload st"
  have i2: "audio_inv s2" using store_data_shard_inv [OF inv(1), of payload ts] ds by (simp add: s2_def)
  obtain fec' slices where f: "fec_encode (ae_fec s2) (map (take (12 + n)) (ae_shards s2)) = (fec', slices)"
    by (rule prod.exhaust)
  have d: "take (12 + n) (ae_shards s2 ! j) = ds ! j"
    using store_data_shard_shards(1) [of st payload ts] inv ds by (simp add: s2_def)
  have acc: "take (12 + n) (ae_shards s2 ! (4 + p)) = parity_sum gf p j ds" if "0 < j" "p < 2" for p
    using store_data_shard_shards(2) [of st payload "4 + p" ts] blk inv ds that
    by (simp add: s2_def in_block_def)
  have c: "count (ae_fec s2) = j" using inv by (simp add: s2_def)
  have n: "12 + n \<le> 2048" using ds by simp
  have step: "count fec' = Suc j"
    "\<forall>p < 2. take (12 + n) (map2 (put_at 0) slices (ae_shards s2) ! (4 + p)) = parity_sum gf p (Suc j) ds"
    using block_fec [OF sbs ip i2 c blk(2) n d acc f] by (blast intro: zero_less_numeral)+
  have len: "length (ae_shards st ! j) = 2048" using inv(1) blk(2) by (simp add: audio_inv_def)
  have ph: "\<forall>force. audio_data_phase fec_encode fec_reset force tx ts payload st =
      audio_fec_phase fec_encode fec_reset force tx n (ds ! j) s2"
    using len inv ds tx d unfolding audio_data_phase_def Let_def AUDIO_RTP_SIZE_def NR_DATA_SHARDS_def s2_def
    by simp
  have "audio_inv (s2\<lparr>ae_fec := fec', ae_shards := map2 (put_at 0) slices (ae_shards s2)\<rparr>)"
    using fec_slices [OF ip _ _ f] i2 ds by (simp add: audio_inv_def)
  with that [of fec' slices] f step ph show ?thesis by (simp add: s2_def)
qed

lemma block_turn:
  assumes sbs: "sbs_contract gf count fec_encode fec_reset" and ip: "fec_in_place fec_encode"
    and blk: "in_block gf count (12 + n) j ds st" "j < 3"
    and ds: "ds ! j = data_packet (ae_sequence_number st) ts payload" "length payload = n" "n \<le> 1408"
    and tx: "\<forall>k. tx k"
  shows "\<exists>st'. audio_data_phase fec_encode fec_reset force tx ts payload st =
      Inr (st', [ds ! j], True, Continue) \<and> in_block gf count (12 + n) (Suc j) ds st' \<and>
      ae_sequence_number st' = ae_sequence_number st + 1 \<and> ae_opus st' = ae_opus st \<and>
      (if j = 0 then ae_base_sequence_number st' = to_be16 (ae_sequence_number st) \<and> ae_base_timestamp st' = to_be32 ts
       else ae_base_sequence_number st' = ae_base_sequence_number st \<and> ae_base_timestamp st' = ae_base_timestamp st)"
proof -
  from blk have j: "j < 4" by simp
  have inv: "audio_inv st" "unat (ae_sequence_number st) mod 4 = j" using blk by (simp_all add: in_block_def)
  define s2 where "s2 = store_data_shard ts payload st"
  have nz: "unat (ae_sequence_number s2) mod 4 = Suc j"
    using blk(2) inv(2) unat_Suc_mod4 [of "ae_sequence_number st"] by (simp add: s2_def mod_Suc)
  obtain fec' slices where a: "fec_encode (ae_fec st) (map (take (12 + n)) (ae_shards s2)) = (fec', slices)"
    "audio_inv (s2\<lparr>ae_fec := fec', ae_shards := map2 (put_at 0) slices (ae_shards s2)\<rparr>)"
    "count fec' = Suc j"
    "\<forall>p < 2. take (12 + n) (map2 (put_at 0) slices (ae_shards s2) ! (4 + p)) = parity_sum gf p (Suc j) ds"
    "\<forall>force. audio_data_phase fec_encode fec_reset force tx ts payload st =
      audio_fec_phase fec_encode fec_reset force tx n (ds ! j) s2"
    using block_absorb [OF sbs ip blk(1) j ds tx] unfolding s2_def by blast
  define st' where "st' = s2\<lparr>ae_fec := fec', ae_shards := map2 (put_at 0) slices (ae_shards s2)\<rparr>"
  have "audio_data_phase fec_encode fec_reset force tx ts payload st = Inr (st', [ds ! j], True, Continue)"
    using a(1,5) nz by (simp add: audio_fec_phase_def Let_def audio_sizes st'_def) (simp add: s2_def)
  moreover have "in_block gf count (12 + n) (Suc j) ds st'"
    using a nz by (simp add: in_block_def st'_def)
  moreover have "if j = 0 then ae_base_sequence_number st' = to_be16 (ae_sequence_number st) \<and> ae_base_timestamp st' = to_be32 ts
       else ae_base_sequence_number st' = ae_base_sequence_number st \<and> ae_base_timestamp st' = ae_base_timestamp st"
  proof (cases "j = 0")
    case True
    then show ?thesis using store_data_shard_shards(3,4) [OF inv(1), of payload ts] inv ds
      by (simp add: st'_def s2_def)
  next
    case False
    then show ?thesis using inv by (simp add: st'_def s2_def store_data_shard_def Let_def audio_sizes)
  qed
  ultimately show ?thesis by (auto simp: st'_def s2_def)
qed

lemma block_end:
  assumes sbs: "sbs_contract gf count fec_encode fec_reset" and ip: "fec_in_place fec_encode"
    and blk: "in_block gf count (12 + n) 3 ds st"
    and ds: "ds ! 3 = data_packet (ae_sequence_number st) ts payload" "length payload = n" "n \<le> 1408"
    and tx: "\<forall>k. tx k"
  shows "\<exists>st'. audio_data_phase fec_encode fec_reset force tx ts payload st =
      Inr (st', [ds ! 3,
        fec_packet (ae_sequence_number st + 1) (ae_base_sequence_number st) (ae_base_timestamp st) 0 (parity_sum gf 0 4 ds),
        fec_packet (ae_sequence_number st + 1) (ae_base_sequence_number st) (ae_base_timestamp st) 1 (parity_sum gf 1 4 ds)],
        True, Continue) \<and> in_block gf count (12 + n') 0 ds' st' \<and>
      ae_sequence_number st' = ae_sequence_number st + 1 \<and> ae_opus st' = ae_opus st"
proof -
  have j: "3 < (4::nat)" by simp
  have inv: "audio_inv st" "unat (ae_sequence_number st) mod 4 = 3" using blk by (simp_all add: in_block_def)
  define s2 where "s2 = store_data_shard ts payload st"
  have nz: "unat (ae_sequence_number s2) mod 4 = 0"
    using inv(2) unat_Suc_mod4 [of "ae_sequence_number st"] by (simp add: s2_def mod_Suc)
  obtain fec' slices where a: "fec_encode (ae_fec st) (map (take (12 + n)) (ae_shards s2)) = (fec', slices)"
    "audio_inv (s2\<lparr>ae_fec := fec', ae_shards := map2 (put_at 0) slices (ae_shards s2)\<rparr>)"
    "count fec' = Suc 3"
    "\<forall>p < 2. take (12 + n) (map2 (put_at 0) slices (ae_shards s2) ! (4 + p)) = parity_sum gf p (Suc 3) ds"
    "\<forall>force. audio_data_phase fec_encode fec_reset force tx ts payload st =
      audio_fec_phase fec_encode fec_reset force tx n (ds ! 3) s2"
    using block_absorb [OF sbs ip blk j ds tx] unfolding s2_def by blast
  define sh where "sh = map2 (put_at 0) slices (ae_shards s2)"
  have sh: "length sh = 6" "\<forall>s \<in> set sh. length s = 2048"
    "length (ae_base_sequence_number s2) = 2" "length (ae_base_timestamp s2) = 4"
    using a(2) by (simp_all add: audio_inv_def sh_def [symmetric])
  obtain fec'' where r: "fec_reset fec' = Some fec''" "count fec'' = 0"
    using sbs a(3) unfolding sbs_contract_def by auto
  have p: "\<exists>x. parity_packet (ae_sequence_number st + 1) (ae_base_sequence_number st) (ae_base_timestamp st) n p (sh ! (4 + p)) = Inr x \<and>
      length x = 2048 \<and> take (24 + n) x = fec_packet (ae_sequence_number st + 1) (ae_base_sequence_number st)
        (ae_base_timestamp st) p (parity_sum gf p 4 ds)" if "p < 2" for p
  proof -
    have l: "length (sh ! (4 + p)) = 2048" using sh that by simp
    have t: "take (12 + n) (sh ! (4 + p)) = parity_sum gf p 4 ds"
      using a(4) that by (simp add: sh_def)
    have "hd (parity_sum gf p 4 ds) = hd (sh ! (4 + p))"
      "drop 12 (parity_sum gf p 4 ds) = slice 12 (12 + n) (sh ! (4 + p))"
      by (simp_all add: slice_def drop_take flip: t)
    then show ?thesis
      using parity_packet_eq [OF l ds(3), of "ae_base_sequence_number st" "ae_base_timestamp st" "ae_sequence_number st + 1" p]
        parity_packet_ok [OF l ds(3), of "ae_base_sequence_number st" "ae_base_timestamp st" "ae_sequence_number st + 1" p]
        inv(1) by (auto simp: fec_packet_def audio_inv_def)
  qed
  obtain x0 where x0: "parity_packet (ae_sequence_number st + 1) (ae_base_sequence_number st) (ae_base_timestamp st) n 0 (sh ! 4) = Inr x0"
      "length x0 = 2048" "take (24 + n) x0 = fec_packet (ae_sequence_number st + 1) (ae_base_sequence_number st)
        (ae_base_timestamp st) 0 (parity_sum gf 0 4 ds)" using p [of 0] by auto
  obtain x1 where x1: "parity_packet (ae_sequence_number st + 1) (ae_base_sequence_number st) (ae_base_timestamp st) n 1 (sh ! 5) = Inr x1"
      "length x1 = 2048" "take (24 + n) x1 = fec_packet (ae_sequence_number st + 1) (ae_base_sequence_number st)
        (ae_base_timestamp st) 1 (parity_sum gf 1 4 ds)" using p [of 1] by auto
  have dr: "drop 4 sh = [sh ! 4, sh ! 5]"
    using sh(1) by (simp add: Cons_nth_drop_Suc [symmetric, of _ sh] numeral_eq_Suc)
  have base: "ae_base_sequence_number s2 = ae_base_sequence_number st" "ae_base_timestamp s2 = ae_base_timestamp st"
    using inv(2) by (simp_all add: s2_def store_data_shard_def Let_def audio_sizes)
  define st' where "st' = s2\<lparr>ae_fec := fec'', ae_shards := take 4 sh @ [x0, x1]\<rparr>"
  have "audio_data_phase fec_encode fec_reset force tx ts payload st = Inr (st', [ds ! 3, take (24 + n) x0, take (24 + n) x1], True, Continue)"
  proof -
    have "send_parity (ae_sequence_number s2) (ae_base_sequence_number s2) (ae_base_timestamp s2) n tx 0 (drop 4 sh)
        = Inr ([x0, x1], [take (24 + n) x0, take (24 + n) x1])"
      using x0(1) x1(1) tx unfolding base dr by (simp add: s2_def audio_sizes)
    moreover have "ae_fec s2 = ae_fec st" by (simp add: s2_def)
    ultimately show ?thesis
      using a(1,5) nz r(1) unfolding sh_def st'_def by (simp add: audio_fec_phase_def Let_def AUDIO_RTP_SIZE_def NR_DATA_SHARDS_def)
  qed
  moreover have "\<forall>s \<in> set (take 4 sh). length s = 2048" using sh(2) by (meson in_set_takeD)
  then have "in_block gf count (12 + n') 0 ds' st'"
    using r(2) nz sh x0(2) x1(2) by (simp add: in_block_def st'_def audio_inv_def)
  ultimately show ?thesis by (auto simp: st'_def s2_def x0(3) x1(3))
qed

text \<open>The reference the packets are compared with: the parity of four payloads byte by byte.\<close>

definition parity_of :: "(u8 \<Rightarrow> u8 \<Rightarrow> u8) \<Rightarrow> nat \<Rightarrow> bytes list \<Rightarrow> bytes" where
  "parity_of gf p ds =
     map (\<lambda>i. gf (parity_coefficient p 0) (ds ! 0 ! i) XOR gf (parity_coefficient p 1) (ds ! 1 ! i) XOR
              gf (parity_coefficient p 2) (ds ! 2 ! i) XOR gf (parity_coefficient p 3) (ds ! 3 ! i))
       [0..<length (ds ! 0)]"

lemma parity_sum_eq:
  assumes "\<forall>j < 4. length (ds ! j) = m"
  shows "parity_sum gf p 4 ds = parity_of gf p ds"
proof (rule nth_equalityI)
  show "length (parity_sum gf p 4 ds) = length (parity_of gf p ds)"
    using assms by (simp add: eval_nat_numeral parity_of_def Let_def)
next
  fix i assume "i < length (parity_sum gf p 4 ds)"
  with assms show "parity_sum gf p 4 ds ! i = parity_of gf p ds ! i"
    by (simp add: eval_nat_numeral parity_of_def Let_def xor.assoc)
qed

lemma parity_of_packets:
  assumes "gf_contract gf" and "length a = m" "length b = m" "length c = m" "length d = m" and "p < 2"
    and "ds = [data_packet q0 t0 a, data_packet q1 t1 b, data_packet q2 t2 c, data_packet q3 t3 d]"
  shows "hd (parity_of gf p ds) = 0x80" and "drop 12 (parity_of gf p ds) = parity_of gf p [a, b, c, d]"
proof -
  have lin: "gf x y XOR gf x' y = gf (x XOR x') y" for x x' y
    using assms(1) by (simp add: gf_contract_def)
  have one: "parity_coefficient p 0 XOR (parity_coefficient p (Suc 0) XOR (parity_coefficient p 2 XOR parity_coefficient p 3)) = 1"
  proof -
    from assms(6) consider "p = 0" | "p = 1" by linarith
    then show ?thesis by cases (simp_all add: parity_coefficient_def PARITY_MATRIX_def NR_DATA_SHARDS_def)
  qed
  have l: "length (ds ! 0) = 12 + m" using assms by (simp add: data_packet_def)
  have "hd (parity_of gf p ds) = parity_of gf p ds ! 0"
    using l by (simp add: parity_of_def hd_conv_nth)
  also have "\<dots> = gf 1 0x80"
    using l assms(7) by (simp add: parity_of_def data_packet_def lin one)
  finally show "hd (parity_of gf p ds) = 0x80" using assms(1) by (simp add: gf_contract_def)
  show "drop 12 (parity_of gf p ds) = parity_of gf p [a, b, c, d]"
  proof (rule nth_equalityI)
    show "length (drop 12 (parity_of gf p ds)) = length (parity_of gf p [a, b, c, d])"
      using l assms by (simp add: parity_of_def)
  next
    fix i assume "i < length (drop 12 (parity_of gf p ds))"
    then have i: "i < m" using l by (simp add: parity_of_def)
    have n: "data_packet q t x ! (12 + i) = x ! i" for q t x
      by (simp add: data_packet_def nth_append)
    show "drop 12 (parity_of gf p ds) ! i = parity_of gf p [a, b, c, d] ! i"
      using i l assms n by (simp add: parity_of_def)
  qed
qed

text \<open>The payloads of consecutive frames, when all of them encode.\<close>

fun encode_frames :: "('enc \<Rightarrow> 'fr \<Rightarrow> bytes option \<times> 'enc) \<Rightarrow>
    (bytes \<Rightarrow> bytes \<Rightarrow> bytes \<Rightarrow> nat \<Rightarrow> bytes option) \<Rightarrow> bool \<Rightarrow> 'enc \<Rightarrow> u16 \<Rightarrow> 'fr audio_input list \<Rightarrow>
    bytes list option" where
  "encode_frames encode_float cbc_padded encrypted opus seq [] = Some []"
| "encode_frames encode_float cbc_padded encrypted opus seq (inp # inps) =
     (case encode_float opus (ai_frame inp) of
        (None, _) \<Rightarrow> None
      | (Some encoded, opus') \<Rightarrow>
          (case audio_payload cbc_padded encrypted (ai_keys inp) seq encoded of
             Inl _ \<Rightarrow> None
           | Inr payload \<Rightarrow>
               map_option ((#) payload)
                 (encode_frames encode_float cbc_padded encrypted opus' (seq + 1) inps)))"

lemma audio_turn_encoded:
  assumes "opus_contract encode_float" "cbc_contract cbc_padded"
    and "encode_frames encode_float cbc_padded encrypted (ae_opus st) (ae_sequence_number st) (inp # inps) = Some ps"
  obtains opus' payload qs where "ps = payload # qs" "length payload \<le> 1408"
    "encode_frames encode_float cbc_padded encrypted opus' (ae_sequence_number st + 1) inps = Some qs"
    "\<forall>reset_state fec_encode fec_reset force.
      audio_turn encode_float reset_state cbc_padded fec_encode fec_reset force encrypted inp st =
        audio_data_phase fec_encode fec_reset force (ai_tx_open inp)
          (audio_timestamp (ai_elapsed_us inp)) payload (st\<lparr>ae_opus := opus'\<rparr>)"
proof -
  obtain eo opus' where e: "encode_float (ae_opus st) (ai_frame inp) = (eo, opus')" by (rule prod.exhaust)
  with assms(3) obtain encoded where eo: "eo = Some encoded" by (cases eo) auto
  have l: "length encoded \<le> ENCODED_AUDIO_SIZE"
    using assms(1) e eo unfolding opus_contract_def by blast
  from assms(3) e eo obtain payload where
    p: "audio_payload cbc_padded encrypted (ai_keys inp) (ae_sequence_number st) encoded = Inr payload"
    by (auto split: sum.splits)
  from assms(3) e eo p obtain qs where
    "encode_frames encode_float cbc_padded encrypted opus' (ae_sequence_number st + 1) inps = Some qs" "ps = payload # qs"
    by auto
  then show thesis
    using that [of payload qs opus'] audio_payload_length [OF assms(2) l p] e eo p l by (simp add: audio_turn_def)
qed

definition fec_block_start :: "('fec \<Rightarrow> nat) \<Rightarrow> ('enc, 'fec) audio_encoder \<Rightarrow> bool" where
  "fec_block_start count st \<longleftrightarrow>
     audio_inv st \<and> count (ae_fec st) = 0 \<and> unat (ae_sequence_number st) mod 4 = 0"

lemma fec_block_start_in_block: "fec_block_start count st \<longleftrightarrow> in_block gf count n 0 ds st"
  by (simp add: fec_block_start_def in_block_def)

lemma in_block_opus [simp]: "in_block gf count n j ds (st\<lparr>ae_opus := x\<rparr>) = in_block gf count n j ds st"
  by (simp add: in_block_def audio_inv_def)

text \<open>A turn that encodes, in the middle and at the end of a block.\<close>

lemma block_audio_turn:
  assumes c: "opus_contract encode_float" "cbc_contract cbc_padded"
      "sbs_contract gf count fec_encode fec_reset" "fec_in_place fec_encode"
    and blk: "in_block gf count (12 + n) j ds st" "j < 3"
    and enc: "encode_frames encode_float cbc_padded encrypted (ae_opus st) (ae_sequence_number st) (inp # inps) = Some (payload # ps)"
    and ds: "ds ! j = data_packet (ae_sequence_number st) (audio_timestamp (ai_elapsed_us inp)) payload" "length payload = n"
    and tx: "\<forall>k. ai_tx_open inp k"
  obtains st' where "audio_turn encode_float reset_state cbc_padded fec_encode fec_reset force encrypted inp st =
      Inr (st', [ds ! j], True, Continue)" "in_block gf count (12 + n) (Suc j) ds st'"
    "ae_sequence_number st' = ae_sequence_number st + 1"
    "encode_frames encode_float cbc_padded encrypted (ae_opus st') (ae_sequence_number st') inps = Some ps"
    "j = 0 \<longrightarrow> ae_base_sequence_number st' = to_be16 (ae_sequence_number st) \<and>
       ae_base_timestamp st' = to_be32 (audio_timestamp (ai_elapsed_us inp))"
    "j \<noteq> 0 \<longrightarrow> ae_base_sequence_number st' = ae_base_sequence_number st \<and> ae_base_timestamp st' = ae_base_timestamp st"
proof -
  obtain opus' where o: "length payload \<le> 1408"
    "encode_frames encode_float cbc_padded encrypted opus' (ae_sequence_number st + 1) inps = Some ps"
    "audio_turn encode_float reset_state cbc_padded fec_encode fec_reset force encrypted inp st =
        audio_data_phase fec_encode fec_reset force (ai_tx_open inp)
          (audio_timestamp (ai_elapsed_us inp)) payload (st\<lparr>ae_opus := opus'\<rparr>)"
    using audio_turn_encoded [OF c(1,2) enc] by (metis list.inject)
  have b: "in_block gf count (12 + n) j ds (st\<lparr>ae_opus := opus'\<rparr>)" using blk by simp
  have d: "ds ! j = data_packet (ae_sequence_number (st\<lparr>ae_opus := opus'\<rparr>)) (audio_timestamp (ai_elapsed_us inp)) payload"
    "n \<le> 1408" using ds o(1) by simp_all
  from block_turn [OF c(3,4) b blk(2) d(1) ds(2) d(2) tx, of force] o show thesis
    by (auto intro!: that split: if_splits)
qed

lemma block_audio_end:
  assumes c: "opus_contract encode_float" "cbc_contract cbc_padded"
      "sbs_contract gf count fec_encode fec_reset" "fec_in_place fec_encode"
    and blk: "in_block gf count (12 + n) 3 ds st"
    and enc: "encode_frames encode_float cbc_padded encrypted (ae_opus st) (ae_sequence_number st) (inp # inps) = Some (payload # ps)"
    and ds: "ds ! 3 = data_packet (ae_sequence_number st) (audio_timestamp (ai_elapsed_us inp)) payload" "length payload = n"
    and tx: "\<forall>k. ai_tx_open inp k"
  obtains st' where "audio_turn encode_float reset_state cbc_padded fec_encode fec_reset force encrypted inp st =
      Inr (st', [ds ! 3,
        fec_packet (ae_sequence_number st + 1) (ae_base_sequence_number st) (ae_base_timestamp st) 0 (parity_sum gf 0 4 ds),
        fec_packet (ae_sequence_number st + 1) (ae_base_sequence_number st) (ae_base_timestamp st) 1 (parity_sum gf 1 4 ds)],
        True, Continue)"
    "fec_block_start count st'" "ae_sequence_number st' = ae_sequence_number st + 1"
proof -
  obtain opus' where o: "length payload \<le> 1408"
    "audio_turn encode_float reset_state cbc_padded fec_encode fec_reset force encrypted inp st =
        audio_data_phase fec_encode fec_reset force (ai_tx_open inp)
          (audio_timestamp (ai_elapsed_us inp)) payload (st\<lparr>ae_opus := opus'\<rparr>)"
    using audio_turn_encoded [OF c(1,2) enc] by (metis list.inject)
  have b: "in_block gf count (12 + n) 3 ds (st\<lparr>ae_opus := opus'\<rparr>)" using blk by simp
  have d: "ds ! 3 = data_packet (ae_sequence_number (st\<lparr>ae_opus := opus'\<rparr>)) (audio_timestamp (ai_elapsed_us inp)) payload"
    "n \<le> 1408" using ds o(1) by simp_all
  from block_end [OF c(3,4) b d(1) ds(2) d(2) tx, of force n ds] o show thesis
    by (auto intro!: that simp flip: fec_block_start_in_block)
qed

section \<open>Whole runs\<close>

lemma send_parity_packets:
  assumes "\<forall>shard \<in> set shards. length shard = 2048" and "n \<le> 1408" and "length bs = 2" "length bt = 4"
    and "send_parity seq bs bt n tx k shards = Inr (shards', packets)"
  shows "\<forall>p \<in> set packets. p ! 1 = 127 \<and> length p = 24 + n"
  using assms(1,5)
proof (induction shards arbitrary: k shards' packets)
  case Nil
  then show ?case by simp
next
  case (Cons shard shards)
  obtain x where x: "parity_packet seq bs bt n k shard = Inr x" "length x = 2048"
    using parity_packet_ok [of shard n bs bt seq k] Cons.prems assms by auto
  have "take (24 + n) x ! 1 = 127"
    using parity_packet_eq [of shard n bs bt seq k] x Cons.prems assms by auto
  moreover have "length (take (24 + n) x) = 24 + n" using x assms(2) by simp
  moreover obtain r where "tx (Suc k) \<Longrightarrow> send_parity seq bs bt n tx (Suc k) shards = Inr r"
    using send_parity_ok [of shards n bs bt seq tx "Suc k"] Cons.prems assms by auto
  ultimately show ?case
    using x Cons.IH [of "Suc k"] Cons.prems by (cases r) (auto simp: audio_sizes split: if_splits)
qed

lemma audio_fec_phase_packets:
  assumes "fec_in_place fec_encode" and "audio_inv st" and "n \<le> 1408"
    and "audio_fec_phase fec_encode fec_reset force tx n d st = Inr (st', packets, r, x)"
  shows "\<exists>ps. packets = d # ps \<and> (\<forall>p \<in> set ps. p ! 1 = 127 \<and> length p = 24 + n) \<and>
    ae_sequence_number st' = ae_sequence_number st"
proof -
  obtain fec' slices where f: "fec_encode (ae_fec st) (map (take (12 + n)) (ae_shards st)) = (fec', slices)"
    by (rule prod.exhaust)
  define sh where "sh = map2 (put_at 0) slices (ae_shards st)"
  have inv: "\<forall>shard \<in> set (ae_shards st). length shard = 2048"
    "length (ae_base_sequence_number st) = 2" "length (ae_base_timestamp st) = 4"
    using assms(2) by (simp_all add: audio_inv_def)
  then have "\<forall>shard \<in> set sh. length shard = 2048"
    using fec_slices(2) [OF assms(1) inv(1) _ f] assms(3) unfolding sh_def by simp
  then have sh: "\<forall>shard \<in> set (drop 4 sh). length shard = 2048" by (meson in_set_dropD)
  have "audio_fec_phase fec_encode fec_reset force tx n d st =
     (if unat (ae_sequence_number st) mod 4 \<noteq> 0 then Inr (st\<lparr>ae_fec := fec', ae_shards := sh\<rparr>, [d], True, Continue)
      else case fec_reset fec' of
          None \<Rightarrow> Inr (st\<lparr>ae_fec := force fec', ae_shards := sh\<rparr>, [d], True, Continue)
        | Some fec'' \<Rightarrow>
            rbind (send_parity (ae_sequence_number st) (ae_base_sequence_number st)
                     (ae_base_timestamp st) n tx 0 (drop 4 sh))
              (\<lambda>(parity', packets).
                 Inr (st\<lparr>ae_fec := fec'', ae_shards := take 4 sh @ parity'\<rparr>, d # packets, True, Continue)))"
    unfolding audio_fec_phase_def Let_def AUDIO_RTP_SIZE_def NR_DATA_SHARDS_def f prod.case sh_def by (rule refl)
  with assms(4) show ?thesis
    using send_parity_packets [OF sh assms(3) inv(2,3)]
    by (auto simp: rbind_eq_Inr split: if_splits option.splits)
qed

lemma audio_data_phase_packets:
  assumes "fec_in_place fec_encode" and "audio_inv st" and "length payload \<le> 1408"
    and "audio_data_phase fec_encode fec_reset force tx ts payload st = Inr (st', packets, r, x)"
  shows "(packets = [] \<and> x = Break) \<or>
    (\<exists>ps. packets = data_packet (ae_sequence_number st) ts payload # ps \<and>
       (\<forall>p \<in> set ps. p ! 1 = 127 \<and> length p = 24 + length payload) \<and>
       ae_sequence_number st' = ae_sequence_number st + 1)"
proof (cases "tx 0")
  case True
  let ?s = "store_data_shard ts payload st"
  let ?i = "unat (ae_sequence_number st) mod 4"
  have "length (ae_shards st ! ?i) = 2048" using assms(2) by (simp add: audio_inv_def)
  with True assms have "audio_fec_phase fec_encode fec_reset force tx (length payload)
      (take (12 + length payload) (ae_shards ?s ! ?i)) ?s = Inr (st', packets, r, x)"
    by (simp add: audio_data_phase_def Let_def AUDIO_RTP_SIZE_def NR_DATA_SHARDS_def)
  from audio_fec_phase_packets [OF assms(1) store_data_shard_inv [OF assms(2,3)] assms(3) this]
  show ?thesis by (simp add: store_data_shard_shards(1) [OF assms(2,3)])
next
  case False
  with assms(4) show ?thesis by (auto simp: audio_data_phase_def Let_def split: if_splits)
qed

lemma audio_turn_packets:
  assumes "opus_contract encode_float" "cbc_contract cbc_padded" "fec_in_place fec_encode" and "audio_inv st"
    and "audio_turn encode_float reset_state cbc_padded fec_encode fec_reset force encrypted inp st =
      Inr (st', packets, r, x)"
  shows "(packets = [] \<and> (x = Break \<or> ae_sequence_number st' = ae_sequence_number st)) \<or>
    (\<exists>encoded payload ps. packets = data_packet (ae_sequence_number st) (audio_timestamp (ai_elapsed_us inp)) payload # ps \<and>
       audio_payload cbc_padded encrypted (ai_keys inp) (ae_sequence_number st) encoded = Inr payload \<and>
       length payload \<le> 1408 \<and> (\<forall>p \<in> set ps. p ! 1 = 127 \<and> length p = 24 + length payload) \<and>
       ae_sequence_number st' = ae_sequence_number st + 1)"
proof -
  obtain eo opus where e: "encode_float (ae_opus st) (ai_frame inp) = (eo, opus)" by (rule prod.exhaust)
  show ?thesis
  proof (cases eo)
    case None
    with e assms(5) show ?thesis by (auto simp: audio_turn_def)
  next
    case (Some encoded)
    with e assms(1) have l: "length encoded \<le> ENCODED_AUDIO_SIZE" unfolding opus_contract_def by blast
    show ?thesis
    proof (cases "audio_payload cbc_padded encrypted (ai_keys inp) (ae_sequence_number st) encoded")
      case (Inl f)
      with audio_payload_not_Panic have "f = Err" by (metis failure.exhaust)
      with Inl Some e l assms(5) show ?thesis by (auto simp: audio_turn_def)
    next
      case (Inr payload)
      have inv: "audio_inv (st\<lparr>ae_opus := opus\<rparr>)" using assms(4) by (simp add: audio_inv_def)
      have p: "length payload \<le> 1408" by (rule audio_payload_length [OF assms(2) l Inr])
      have "audio_data_phase fec_encode fec_reset force (ai_tx_open inp) (audio_timestamp (ai_elapsed_us inp))
          payload (st\<lparr>ae_opus := opus\<rparr>) = Inr (st', packets, r, x)"
        using assms(5) Inr Some e l by (simp add: audio_turn_def)
      from audio_data_phase_packets [OF assms(3) inv p this] Inr p show ?thesis by auto
    qed
  qed
qed


text \<open>What a finished stretch of packets looks like: its data packets are numbered from \<open>q\<close> on.\<close>

definition numbered_from :: "u16 \<Rightarrow> (u16 \<Rightarrow> bytes \<Rightarrow> bool) \<Rightarrow> bytes list \<Rightarrow> bool" where
  "numbered_from q ok packets \<longleftrightarrow>
     (\<forall>i < length packets. \<exists>ts payload. packets ! i = data_packet (q + word_of_nat i) ts payload \<and>
        ok (q + word_of_nat i) payload)"

lemma numbered_from_Nil [simp]: "numbered_from q ok []"
  by (simp add: numbered_from_def)

lemma numbered_from_Cons:
  assumes "ok q payload" and "numbered_from (q + 1) ok packets"
  shows "numbered_from q ok (data_packet q ts payload # packets)"
  unfolding numbered_from_def
proof (intro allI impI)
  fix i assume "i < length (data_packet q ts payload # packets)"
  with assms show "\<exists>ts' payload'. (data_packet q ts payload # packets) ! i = data_packet (q + word_of_nat i) ts' payload' \<and>
      ok (q + word_of_nat i) payload'"
    by (cases i) (auto simp: numbered_from_def add.assoc)
qed

lemma numbered_from_mono:
  "numbered_from q ok packets \<Longrightarrow> (\<And>seq payload. ok seq payload \<Longrightarrow> ok' seq payload) \<Longrightarrow> numbered_from q ok' packets"
  by (auto simp: numbered_from_def) blast

text \<open>Payloads encoded from one of the inputs of a run.\<close>

definition payload_of :: "(bytes \<Rightarrow> bytes \<Rightarrow> bytes \<Rightarrow> nat \<Rightarrow> bytes option) \<Rightarrow> bool \<Rightarrow> 'fr audio_event list \<Rightarrow>
    u16 \<Rightarrow> bytes \<Rightarrow> bool" where
  "payload_of cbc_padded encrypted evs seq payload \<longleftrightarrow>
     (\<exists>inp encoded. AudioInput inp \<in> set evs \<and>
        audio_payload cbc_padded encrypted (ai_keys inp) seq encoded = Inr payload)"

lemma payload_of_Cons:
  "payload_of cbc_padded encrypted evs seq payload \<Longrightarrow> payload_of cbc_padded encrypted (ev # evs) seq payload"
  by (auto simp: payload_of_def)

lemma data_packet_type: "data_packet q ts payload ! Suc 0 = 97"
  by (simp add: data_packet_def)

lemma audio_run_packets:
  assumes c: "opus_contract encode_float" "cbc_contract cbc_padded" "fec_in_place fec_encode" and "audio_inv st"
  shows "\<exists>st' packets. audio_run encode_float reset_state cbc_padded fec_encode fec_reset force encrypted evs st =
      Inr (st', packets) \<and> (\<forall>p \<in> set packets. length p \<le> 1432) \<and>
      numbered_from (ae_sequence_number st) (payload_of cbc_padded encrypted evs) (filter (\<lambda>p. p ! 1 = 97) packets)"
  using assms(4)
proof (induction evs arbitrary: st)
  case Nil
  then show ?case by simp
next
  case (Cons ev evs)
  show ?case
  proof (cases ev)
    case (AudioInput inp)
    let ?ok = "payload_of cbc_padded encrypted (ev # evs)"
    obtain st1 ps r x where t: "audio_turn encode_float reset_state cbc_padded fec_encode fec_reset force encrypted inp st
        = Inr (st1, ps, r, x)" and inv: "audio_inv st1"
      using audio_turn_ok [OF c Cons.prems] by metis
    obtain st2 qs where run: "audio_run encode_float reset_state cbc_padded fec_encode fec_reset force encrypted evs st1 =
      Inr (st2, qs)" "\<forall>p \<in> set qs. length p \<le> 1432"
      "numbered_from (ae_sequence_number st1) ?ok (filter (\<lambda>p. p ! 1 = 97) qs)"
      using Cons.IH [OF inv] payload_of_Cons numbered_from_mono by metis
    from audio_turn_packets [OF c Cons.prems t] show ?thesis
    proof (elim disjE conjE exE)
      assume "ps = []" "x = Break"
      with t AudioInput show ?thesis by simp
    next
      assume "ps = []" "ae_sequence_number st1 = ae_sequence_number st"
      with t AudioInput run show ?thesis by (cases x) simp_all
    next
      fix encoded payload ps'
      assume ps: "ps = data_packet (ae_sequence_number st) (audio_timestamp (ai_elapsed_us inp)) payload # ps'"
        and p: "audio_payload cbc_padded encrypted (ai_keys inp) (ae_sequence_number st) encoded = Inr payload"
        and l: "length payload \<le> 1408" "\<forall>p \<in> set ps'. p ! 1 = 127 \<and> length p = 24 + length payload"
        and q: "ae_sequence_number st1 = ae_sequence_number st + 1"
      have ok: "?ok (ae_sequence_number st) payload" unfolding payload_of_def AudioInput
        using p by (intro exI [of _ inp] exI [of _ encoded]) simp
      have f: "filter (\<lambda>p. p ! Suc 0 = 97) ps' = []" using l(2) by (auto simp: filter_empty_conv)
      have len: "\<forall>p \<in> set ps. length p \<le> 1432" using l ps by (auto simp: data_packet_def)
      show ?thesis
        using t AudioInput run len f numbered_from_Cons [of ?ok, OF ok] q
        by (cases x) (auto simp: ps data_packet_type)
    qed
  qed simp_all
qed

text \<open>The initialization vectors of two packets are equal exactly when their numbers agree modulo 65536.\<close>

lemma audio_iv_eq_iff:
  "audio_iv key_id (word_of_nat i) = audio_iv key_id (word_of_nat j) \<longleftrightarrow> i mod 65536 = j mod 65536"
proof -
  have "audio_iv key_id a = audio_iv key_id b \<longleftrightarrow> a = b" for a b :: u16
  proof
    assume "audio_iv key_id a = audio_iv key_id b"
    then have "to_be32 (word_of_int key_id + ucast a) = to_be32 (word_of_int key_id + ucast b)"
      by (simp add: audio_iv_def)
    then have "ucast a = (ucast b :: u32)" by (simp add: be32.enc_inject)
    then have "unat (ucast a :: u32) = unat (ucast b :: u32)" by simp
    moreover have "unat (ucast c :: u32) = unat c" for c :: u16
      using unsigned_less [of c, where 'a = nat] by (simp add: unsigned_ucast_eq take_bit_eq_mod)
    ultimately have "unat a = unat b" by simp
    then show "a = b" by (simp add: word_unat_eq_iff)
  qed simp
  moreover have "word_of_nat i = (word_of_nat j :: u16) \<longleftrightarrow> i mod 65536 = j mod 65536"
    by (simp add: word_of_nat_eq_iff take_bit_eq_mod)
  ultimately show ?thesis by blast
qed


section \<open>Concrete providers\<close>

text \<open>The field of 256 elements with reduction by 0x11d, a coder over it, an encoder that keeps bytes, and
  a cipher that pads.\<close>

definition xtime :: "u8 \<Rightarrow> u8" where
  "xtime b = push_bit 1 b XOR (if bit b 7 then 0x1d else 0)"

definition gf256 :: "u8 \<Rightarrow> u8 \<Rightarrow> u8" where
  "gf256 a b = foldr (\<lambda>i acc. (if bit a i then (xtime ^^ i) b else 0) XOR acc) [0..<8] 0"

lemma gf256_contract: "gf_contract gf256"
proof -
  have lin: "foldr (\<lambda>i acc. (if bit (a XOR b) i then f i else 0) XOR acc) is 0 =
      foldr (\<lambda>i acc. (if bit a i then f i else 0) XOR acc) is 0 XOR
      foldr (\<lambda>i acc. (if bit b i then f i else 0) XOR acc) is (0 :: u8)" for a b :: u8 and f "is"
    by (induction "is") (auto simp: bit_xor_iff ac_simps)
  have "gf256 1 b = b" for b
    by (simp add: gf256_def upt_rec bit_1_iff)
  with lin show ?thesis by (simp add: gf_contract_def gf256_def)
qed

definition gf_encode :: "nat \<Rightarrow> bytes list \<Rightarrow> nat \<times> bytes list" where
  "gf_encode k slices =
     (if k < 4 \<and> length slices = 6 \<and> list_all (\<lambda>s. length s = length (slices ! 0)) slices
      then (Suc k, take 4 slices @ map (\<lambda>p.
              let term = map (gf256 (parity_coefficient p k)) (slices ! k) in
              if k = 0 then term else map2 (XOR) (slices ! (4 + p)) term) [0..<2])
      else (k, slices))"

definition gf_reset :: "nat \<Rightarrow> nat option" where
  "gf_reset k = (if k = 4 \<or> k = 0 then Some 0 else None)"

definition plain_opus :: "unit \<Rightarrow> bytes \<Rightarrow> bytes option \<times> unit" where
  "plain_opus u frame = (if frame = [] then None else Some (take 1400 frame), ())"

definition pad_cbc :: "bytes \<Rightarrow> bytes \<Rightarrow> bytes \<Rightarrow> nat \<Rightarrow> bytes option" where
  "pad_cbc key iv buf n = (if (n div 16 + 1) * 16 \<le> length buf then Some (take ((n div 16 + 1) * 16) buf) else None)"

lemma concrete_contracts:
  "opus_contract plain_opus" "cbc_contract pad_cbc" "sbs_contract gf256 id gf_encode gf_reset" "fec_in_place gf_encode"
proof -
  show "opus_contract plain_opus"
    by (auto simp: opus_contract_def plain_opus_def audio_sizes)
  show "cbc_contract pad_cbc"
    by (auto simp: cbc_contract_def pad_cbc_def)
  show "sbs_contract gf256 id gf_encode gf_reset"
    unfolding sbs_contract_def
  proof (intro conjI allI impI)
    fix fec :: nat and slices n fec' slices'
    assume a: "id fec < 4" "length slices = 6" "\<forall>s \<in> set slices. length s = n" "gf_encode fec slices = (fec', slices')"
    have "list_all (\<lambda>s. length s = length (slices ! 0)) slices"
      using a(2,3) by (simp add: list_all_iff)
    with a have s: "fec' = Suc fec" "slices' = take 4 slices @ map (\<lambda>p.
              let term = map (gf256 (parity_coefficient p fec)) (slices ! fec) in
              if fec = 0 then term else map2 (XOR) (slices ! (4 + p)) term) [0..<2]"
      by (simp_all add: gf_encode_def)
    show "id fec' = Suc (id fec)" using s by simp
    show "take 4 slices' = take 4 slices" using s a(2) by simp
    fix p :: nat assume "p < 2"
    then show "slices' ! (4 + p) = (let term = map (gf256 (parity_coefficient p (id fec))) (slices ! id fec) in
        if id fec = 0 then term else map2 (XOR) (slices ! (4 + p)) term)"
      using s a(2) by (simp add: nth_append Let_def)
  qed (auto simp: gf_reset_def)
  show "fec_in_place gf_encode"
    unfolding fec_in_place_def
  proof (intro allI)
    fix fec slices
    show "list_all2 (\<lambda>a b. length a = length b) (snd (gf_encode fec slices)) slices"
    proof (cases "fec < 4 \<and> length slices = 6 \<and> list_all (\<lambda>s. length s = length (slices ! 0)) slices")
      case False
      then have "gf_encode fec slices = (fec, slices)" unfolding gf_encode_def by (rule if_not_P)
      then show ?thesis by (simp add: list_all2_refl)
    next
      case True
      define F where "F = (\<lambda>p. let term = map (gf256 (parity_coefficient p fec)) (slices ! fec) in
        if fec = 0 then term else map2 (XOR) (slices ! (4 + p)) term)"
      have g: "snd (gf_encode fec slices) = take 4 slices @ map F [0..<2]"
        using True by (simp add: gf_encode_def F_def)
      have l: "length (slices ! i) = length (slices ! 0)" if "i < 6" for i
      proof -
        from True have "list_all (\<lambda>s. length s = length (slices ! 0)) slices" by blast
        with True that show ?thesis unfolding list_all_length by metis
      qed
      have "length (F p) = length (slices ! 0)" if "p < 2" for p
      proof -
        from True have "fec < 6" by simp
        then show ?thesis using that l [of fec] l [of "4 + p"] unfolding F_def Let_def by simp
      qed
      then have "length ((take 4 slices @ map F [0..<2]) ! i) = length (slices ! i)" if "i < 6" for i
        using that l [of i] conjunct1 [OF conjunct2 [OF True]] by (simp add: nth_append)
      with True show ?thesis unfolding g by (intro list_all2_all_nthI) auto
    qed
  qed
qed

section \<open>Properties\<close>

text \<open>
  C21. From the start of a block, four frames whose payloads have one length (Opus runs at constant bitrate) give six
  packets: the four data packets with consecutive sequence numbers and their payloads, and two parity packets
  of type 127 numbered after them, which name the first packet of the block and carry the Reed-Solomon parity
  of the four payloads under the installed matrix. Their first byte, which the code leaves to the coder, is the
  RTP version byte 0x80. The encoder is then at the start of the next block.
\<close>

theorem audio_block_packets:
  assumes c: "opus_contract encode_float" "cbc_contract cbc_padded" "gf_contract gf"
      "sbs_contract gf count fec_encode fec_reset" "fec_in_place fec_encode"
    and st: "fec_block_start count st" and inps: "inps = [i0, i1, i2, i3]"
    and enc: "encode_frames encode_float cbc_padded encrypted (ae_opus st) (ae_sequence_number st) inps = Some ps"
    and len: "\<forall>p \<in> set ps. length p = n" and tx: "\<forall>inp \<in> set inps. \<forall>k. ai_tx_open inp k"
  shows "\<exists>st'. audio_run encode_float reset_state cbc_padded fec_encode fec_reset force encrypted (map AudioInput inps) st =
      Inr (st',
        map (\<lambda>j. data_packet (ae_sequence_number st + word_of_nat j) (audio_timestamp (ai_elapsed_us (inps ! j))) (ps ! j)) [0..<4] @
        map (\<lambda>k. [0x80, 127] @ to_be16 (ae_sequence_number st + word_of_nat (4 + k)) @ replicate 8 0 @
               [word_of_nat k, 97] @ to_be16 (ae_sequence_number st) @ to_be32 (audio_timestamp (ai_elapsed_us i0)) @
               replicate 4 0 @ parity_of gf k ps) [0..<2]) \<and>
      fec_block_start count st' \<and> ae_sequence_number st' = ae_sequence_number st + 4"
proof -
  define q where "q = ae_sequence_number st"
  define ts where "ts = (\<lambda>inp :: 'b audio_input. audio_timestamp (ai_elapsed_us inp))"
  have "length ps = 4"
    using enc inps by (auto split: prod.splits option.splits sum.splits)
  then obtain a b c' d where ps: "ps = [a, b, c', d]"
    by (auto simp: eval_nat_numeral length_Suc_conv)
  define ds where "ds = [data_packet q (ts i0) a, data_packet (q + 1) (ts i1) b,
      data_packet (q + 2) (ts i2) c', data_packet (q + 3) (ts i3) d]"
  have l: "length a = n" "length b = n" "length c' = n" "length d = n" using len ps by auto
  note cs = c(1,2,4,5)
  have b0: "in_block gf count (12 + n) 0 ds st" using st by (simp flip: fec_block_start_in_block)
  have dsn: "ds ! 0 = data_packet q (ts i0) a" "ds ! Suc 0 = data_packet (q + 1) (ts i1) b"
    "ds ! Suc (Suc 0) = data_packet (q + 2) (ts i2) c'" "ds ! 3 = data_packet (q + 3) (ts i3) d"
    by (simp_all add: ds_def)
  have t: "\<forall>k. ai_tx_open i0 k" "\<forall>k. ai_tx_open i1 k" "\<forall>k. ai_tx_open i2 k" "\<forall>k. ai_tx_open i3 k"
    using tx inps by simp_all
  have q: "q = ae_sequence_number st" by (simp add: q_def)
  obtain s1 where s1: "audio_turn encode_float reset_state cbc_padded fec_encode fec_reset force encrypted i0 st =
      Inr (s1, [ds ! 0], True, Continue)" "in_block gf count (12 + n) (Suc 0) ds s1"
      "ae_sequence_number s1 = ae_sequence_number st + 1"
      "encode_frames encode_float cbc_padded encrypted (ae_opus s1) (ae_sequence_number s1) [i1, i2, i3] = Some [b, c', d]"
      "ae_base_sequence_number s1 = to_be16 q" "ae_base_timestamp s1 = to_be32 (ts i0)"
    by (rule block_audio_turn [OF cs b0 _ enc [unfolded inps ps] dsn(1) [unfolded q ts_def] l(1) t(1),
          of reset_state force]) (simp, simp only: q ts_def simp_thms)
  have q1: "ae_sequence_number s1 = q + 1" using s1 q by simp
  obtain s2 where s2: "audio_turn encode_float reset_state cbc_padded fec_encode fec_reset force encrypted i1 s1 =
      Inr (s2, [ds ! Suc 0], True, Continue)" "in_block gf count (12 + n) (Suc (Suc 0)) ds s2"
      "ae_sequence_number s2 = ae_sequence_number s1 + 1"
      "encode_frames encode_float cbc_padded encrypted (ae_opus s2) (ae_sequence_number s2) [i2, i3] = Some [c', d]"
      "ae_base_sequence_number s2 = ae_base_sequence_number s1" "ae_base_timestamp s2 = ae_base_timestamp s1"
    by (rule block_audio_turn [OF cs s1(2) _ s1(4) dsn(2) [folded q1, unfolded ts_def] l(2) t(2),
          of reset_state force]) (simp, simp only: simp_thms nat.simps)
  have q2: "ae_sequence_number s2 = q + 2" using s2 q1 by simp
  obtain s3 where s3: "audio_turn encode_float reset_state cbc_padded fec_encode fec_reset force encrypted i2 s2 =
      Inr (s3, [ds ! Suc (Suc 0)], True, Continue)" "in_block gf count (12 + n) (Suc (Suc (Suc 0))) ds s3"
      "ae_sequence_number s3 = ae_sequence_number s2 + 1"
      "encode_frames encode_float cbc_padded encrypted (ae_opus s3) (ae_sequence_number s3) [i3] = Some [d]"
      "ae_base_sequence_number s3 = ae_base_sequence_number s2" "ae_base_timestamp s3 = ae_base_timestamp s2"
    by (rule block_audio_turn [OF cs s2(2) _ s2(4) dsn(3) [folded q2, unfolded ts_def] l(3) t(3),
          of reset_state force]) (simp, simp only: simp_thms nat.simps)
  have q3: "ae_sequence_number s3 = q + 3" using s3 q2 by simp
  have b3: "in_block gf count (12 + n) 3 ds s3" using s3(2) by (simp add: numeral_3_eq_3)
  have base: "ae_base_sequence_number s3 = to_be16 q" "ae_base_timestamp s3 = to_be32 (ts i0)"
    using s1 s2 s3 by simp_all
  obtain s4 where s4: "audio_turn encode_float reset_state cbc_padded fec_encode fec_reset force encrypted i3 s3 =
      Inr (s4, [ds ! 3, fec_packet (q + 4) (to_be16 q) (to_be32 (ts i0)) 0 (parity_sum gf 0 4 ds),
        fec_packet (q + 4) (to_be16 q) (to_be32 (ts i0)) 1 (parity_sum gf 1 4 ds)], True, Continue)"
      "fec_block_start count s4" "ae_sequence_number s4 = q + 4"
    by (rule block_audio_end [OF cs b3 s3(4) dsn(4) [folded q3, unfolded ts_def] l(4) t(4),
          of reset_state force]) (simp add: base q3 add.assoc)
  have dl: "\<forall>j < 4. length (ds ! j) = 12 + n"
    using l by (auto simp: ds_def data_packet_def less_Suc_eq numeral_eq_Suc)
  have par: "fec_packet (q + 4) (to_be16 q) (to_be32 (ts i0)) k (parity_sum gf k 4 ds) =
      [0x80, 127] @ to_be16 (q + word_of_nat (4 + k)) @ replicate 8 0 @ [word_of_nat k, 97] @ to_be16 q @
        to_be32 (ts i0) @ replicate 4 0 @ parity_of gf k ps" if "k < 2" for k
    using parity_of_packets [OF c(3) l that ds_def] ps
    by (simp add: fec_packet_def parity_sum_eq [OF dl] add.assoc)
  show ?thesis
    using s1(1) s2(1) s3(1) s4 par [of 0] par [of 1]
    by (simp add: inps ps dsn ts_def upt_rec flip: q_def)
qed


definition sample_input :: "bytes \<Rightarrow> nat \<Rightarrow> bytes audio_input" where
  "sample_input frame elapsed = \<lparr>ai_frame = frame, ai_elapsed_us = elapsed,
     ai_keys = \<lparr>remote_input_key = replicate 16 7, remote_input_key_id = 5\<rparr>, ai_tx_open = \<lambda>_. True\<rparr>"

theorem audio_block_packets_witness:
  "\<exists>st'. audio_run plain_opus id pad_cbc gf_encode gf_reset id False
      (map AudioInput [sample_input [1, 2] 0, sample_input [3, 4] 5000, sample_input [5, 6] 10000, sample_input [7, 8] 15000])
      (audio_encoder_new () 0) =
    Inr (st',
      map (\<lambda>j. data_packet (0 + word_of_nat j) (audio_timestamp (ai_elapsed_us
          ([sample_input [1, 2] 0, sample_input [3, 4] 5000, sample_input [5, 6] 10000, sample_input [7, 8] 15000] ! j)))
          ([[1, 2], [3, 4], [5, 6], [7, 8]] ! j)) [0..<4] @
      map (\<lambda>k. [0x80, 127] @ to_be16 (0 + word_of_nat (4 + k)) @ replicate 8 0 @
             [word_of_nat k, 97] @ to_be16 0 @ to_be32 (audio_timestamp 0) @
             replicate 4 0 @ parity_of gf256 k [[1, 2], [3, 4], [5, 6], [7, 8]]) [0..<2]) \<and>
    fec_block_start id st' \<and> ae_sequence_number st' = 0 + 4"
proof -
  have b: "fec_block_start id (audio_encoder_new () 0)"
    by (simp add: fec_block_start_def audio_inv_new) (simp add: audio_encoder_new_def)
  have f: "encode_frames plain_opus pad_cbc False (ae_opus (audio_encoder_new () 0)) (ae_sequence_number (audio_encoder_new () (0 :: nat)))
      [sample_input [1, 2] 0, sample_input [3, 4] 5000, sample_input [5, 6] 10000, sample_input [7, 8] 15000] =
      Some [[1, 2], [3, 4], [5, 6], [7, 8]]"
    by (simp add: plain_opus_def sample_input_def audio_payload_def)
  have s: "ae_sequence_number (audio_encoder_new () (0 :: nat)) = 0" "ai_elapsed_us (sample_input [1, 2] 0) = 0"
    by (simp_all add: audio_encoder_new_def sample_input_def)
  show ?thesis
    using audio_block_packets [OF concrete_contracts(1,2) gf256_contract concrete_contracts(3,4) b refl f, of 2 id id, unfolded s]
    by (simp add: sample_input_def)
qed

text \<open>
  C22. Every run of the audio encoder ends without an out-of-range copy: all packets it sends have at most 1432
  bytes, below the Ethernet limit, and its \<open>i\<close>-th data packet carries the number \<open>i\<close> modulo 65536 and a payload
  encoded under that number. Under one key two packets share the CBC initialization vector exactly when their
  numbers agree modulo 65536, so a vector is used again after 65536 packets, that is, after 5 min 28 s
  of 5 ms packets.
\<close>

theorem audio_run_safe:
  assumes "opus_contract encode_float" "cbc_contract cbc_padded" "fec_in_place fec_encode"
  shows "(\<exists>st packets. audio_run encode_float reset_state cbc_padded fec_encode fec_reset force encrypted evs
        (audio_encoder_new opus fec) = Inr (st, packets) \<and> (\<forall>p \<in> set packets. length p \<le> 1432) \<and>
      (let ds = filter (\<lambda>p. p ! 1 = 97) packets in
       \<forall>i < length ds. \<exists>ts inp encoded payload. ds ! i = data_packet (word_of_nat i) ts payload \<and>
         AudioInput inp \<in> set evs \<and>
         audio_payload cbc_padded encrypted (ai_keys inp) (word_of_nat i) encoded = Inr payload)) \<and>
    (\<forall>i j. audio_iv key_id (word_of_nat i) = audio_iv key_id (word_of_nat j) \<longleftrightarrow> i mod 65536 = j mod 65536)"
proof
  have q: "ae_sequence_number (audio_encoder_new opus fec) = 0" by (simp add: audio_encoder_new_def)
  show "\<exists>st packets. audio_run encode_float reset_state cbc_padded fec_encode fec_reset force encrypted evs
        (audio_encoder_new opus fec) = Inr (st, packets) \<and> (\<forall>p \<in> set packets. length p \<le> 1432) \<and>
      (let ds = filter (\<lambda>p. p ! 1 = 97) packets in
       \<forall>i < length ds. \<exists>ts inp encoded payload. ds ! i = data_packet (word_of_nat i) ts payload \<and>
         AudioInput inp \<in> set evs \<and>
         audio_payload cbc_padded encrypted (ai_keys inp) (word_of_nat i) encoded = Inr payload)"
    using audio_run_packets [OF assms audio_inv_new, of reset_state fec_reset force encrypted evs opus fec]
    unfolding numbered_from_def q payload_of_def Let_def add_0 by metis
  show "\<forall>i j. audio_iv key_id (word_of_nat i) = audio_iv key_id (word_of_nat j) \<longleftrightarrow> i mod 65536 = j mod 65536"
    using audio_iv_eq_iff by blast
qed

theorem audio_run_safe_witness:
  "(\<exists>st packets. audio_run plain_opus id pad_cbc gf_encode gf_reset id True
      (map AudioInput [sample_input [1, 2] 0, sample_input [3, 4] 5000]) (audio_encoder_new () 0) = Inr (st, packets) \<and>
    (\<forall>p \<in> set packets. length p \<le> 1432)) \<and> audio_iv 5 (word_of_nat 0) = audio_iv 5 (word_of_nat 65536)"
  using audio_run_safe [OF concrete_contracts(1,2,4), of id gf_reset id True
      "map AudioInput [sample_input [1, 2] 0, sample_input [3, 4] 5000]" "()" 0 5]
  by (metis mod_0 mod_self)

end
