(* ===== verification/Packet_Handlers.thy ===== *)
theory Packet_Handlers
  imports Gso_Socket
begin

text \<open>
  The tasks that put media packets on the wire: \<open>spawn_handle_audio_packets\<close> of
  \<open>session/stream/audio/mod.rs\<close> and \<open>spawn_handle_video_packets\<close> of \<open>session/stream/video/mod.rs\<close>.
  Each waits for packets from its encoder and for datagrams from the client; the address of the last PING
  is where packets go. A run is the sequence of branches its \<open>select!\<close> takes; shutdown cancels either
  branch. What the socket is asked to send is the output.
\<close>

section \<open>Branches of the loops\<close>

datatype ('p, 'addr) handler_event =
    PacketReceived 'p
  | PacketChannelClosed
  | MessageReceived bytes 'addr
  | ReceiveFailed
  | HandlerCancelled

datatype handler_next = HandlerContinue | HandlerBreak

definition PING :: bytes where
  "PING = [0x50, 0x49, 0x4e, 0x47]"

text \<open>\<open>recv_from\<close> fills a buffer of 1024 bytes and drops the rest of a longer datagram.\<close>

definition received_message :: "bytes \<Rightarrow> bytes" where
  "received_message message = take 1024 message"

definition ping_address :: "bytes \<Rightarrow> 'addr \<Rightarrow> 'addr option \<Rightarrow> 'addr option" where
  "ping_address message address client_address =
     (if received_message message = PING then Some address else client_address)"

section \<open>Audio\<close>

text \<open>A failed \<open>send_to\<close> is logged and forgotten.\<close>

fun audio_handler_step :: "(bytes, 'addr) handler_event \<Rightarrow> 'addr option \<Rightarrow>
    'addr option \<times> ('addr \<times> wire_op) list \<times> handler_next" where
  "audio_handler_step (PacketReceived packet) client_address =
     (client_address,
      (case client_address of Some a \<Rightarrow> [(a, SendTo packet)] | None \<Rightarrow> []), HandlerContinue)"
| "audio_handler_step PacketChannelClosed client_address = (client_address, [], HandlerBreak)"
| "audio_handler_step (MessageReceived message address) client_address =
     (ping_address message address client_address, [], HandlerContinue)"
| "audio_handler_step ReceiveFailed client_address = (client_address, [], HandlerBreak)"
| "audio_handler_step HandlerCancelled client_address = (client_address, [], HandlerBreak)"

fun handle_audio_packets :: "(bytes, 'addr) handler_event list \<Rightarrow> 'addr option \<Rightarrow> ('addr \<times> wire_op) list" where
  "handle_audio_packets [] client_address = []"
| "handle_audio_packets (ev # evs) client_address =
     (case audio_handler_step ev client_address of
        (client_address', out, HandlerBreak) \<Rightarrow> out
      | (client_address', out, HandlerContinue) \<Rightarrow> out @ handle_audio_packets evs client_address')"

section \<open>Video\<close>

text \<open>A batch comes with what the kernel answers to its sends and the segment limits read meanwhile.
  A send that never returns is cancelled by the shutdown, which ends the loop.\<close>

record video_batch =
  vb_batch :: shard_batch
  vb_net :: "nat \<Rightarrow> send_answer"
  vb_udp :: "nat \<Rightarrow> bool"
  vb_max_at_check :: nat
  vb_max_at_use :: nat

fun video_handler_step :: "(video_batch, 'addr) handler_event \<Rightarrow> 'addr option \<Rightarrow>
    'addr option \<times> ('addr \<times> wire_op) list \<times> handler_next" where
  "video_handler_step (PacketReceived b) client_address =
     (case client_address of
        None \<Rightarrow> (client_address, [], HandlerContinue)
      | Some a \<Rightarrow>
          if batch_shard_count (vb_batch b) = 0 then (client_address, [], HandlerContinue)
          else case send_batch (vb_udp b) (vb_net b) 0 (vb_max_at_check b) (vb_max_at_use b) (vb_batch b) of
              None \<Rightarrow> (client_address, [], HandlerBreak)
            | Some (failed_chunks, ops) \<Rightarrow> (client_address, map (Pair a) ops, HandlerContinue))"
| "video_handler_step PacketChannelClosed client_address = (client_address, [], HandlerBreak)"
| "video_handler_step (MessageReceived message address) client_address =
     (ping_address message address client_address, [], HandlerContinue)"
| "video_handler_step ReceiveFailed client_address = (client_address, [], HandlerBreak)"
| "video_handler_step HandlerCancelled client_address = (client_address, [], HandlerBreak)"

fun handle_video_packets :: "(video_batch, 'addr) handler_event list \<Rightarrow> 'addr option \<Rightarrow> ('addr \<times> wire_op) list" where
  "handle_video_packets [] client_address = []"
| "handle_video_packets (ev # evs) client_address =
     (case video_handler_step ev client_address of
        (client_address', out, HandlerBreak) \<Rightarrow> out
      | (client_address', out, HandlerContinue) \<Rightarrow> out @ handle_video_packets evs client_address')"

section \<open>The contract of a packet handler\<close>

text \<open>The last client that said PING before a point of the run.\<close>

fun last_ping :: "('p, 'addr) handler_event list \<Rightarrow> 'addr option \<Rightarrow> 'addr option" where
  "last_ping [] a = a"
| "last_ping (MessageReceived message address # evs) a = last_ping evs (ping_address message address a)"
| "last_ping (ev # evs) a = last_ping evs a"

lemma last_ping_append: "last_ping (xs @ ys) a = last_ping ys (last_ping xs a)"
  by (induction xs a rule: last_ping.induct) auto

locale packet_handler =
  fixes step :: "('p, 'addr) handler_event \<Rightarrow> 'addr option \<Rightarrow> 'addr option \<times> ('addr \<times> wire_op) list \<times> handler_next"
    and run :: "('p, 'addr) handler_event list \<Rightarrow> 'addr option \<Rightarrow> ('addr \<times> wire_op) list"
  assumes run_Nil: "run [] a = []"
    and run_Cons: "run (ev # evs) a = (case step ev a of
        (a', out, HandlerBreak) \<Rightarrow> out | (a', out, HandlerContinue) \<Rightarrow> out @ run evs a')"
    and step_packet: "step (PacketReceived p) a = (a', out, n) \<Longrightarrow> a' = a \<and> fst ` set out \<subseteq> set_option a"
    and step_message: "step (MessageReceived m addr) a = (ping_address m addr a, [], HandlerContinue)"
    and step_exit: "ev \<in> {PacketChannelClosed, ReceiveFailed, HandlerCancelled} \<Longrightarrow> step ev a = (a, [], HandlerBreak)"
begin

lemma step_address:
  assumes "step ev a = (a', out, n)"
  shows "a' = last_ping [ev] a" and "fst ` set out \<subseteq> set_option (last_ping [] a)"
  using assms step_packet [of _ a] step_message step_exit [of ev a] by (cases ev; auto)+

text \<open>Everything the handler sends at a point of the run goes to the client of the last PING before it.\<close>

lemma sends_to_last_ping:
  "x \<in> set (run evs a) \<Longrightarrow> \<exists>pre p post. evs = pre @ PacketReceived p # post \<and> last_ping pre a = Some (fst x)"
proof (induction evs arbitrary: a)
  case Nil
  then show ?case by (simp add: run_Nil)
next
  case (Cons ev evs)
  obtain a' out n where s: "step ev a = (a', out, n)" by (rule prod_cases3)
  note ad = step_address [OF s]
  from Cons.prems s have "x \<in> set out \<or> (n = HandlerContinue \<and> x \<in> set (run evs a'))"
    by (cases n) (auto simp: run_Cons)
  then show ?case
  proof
    assume x: "x \<in> set out"
    then obtain p where "ev = PacketReceived p"
      using s step_message step_exit [of ev a] by (cases ev) auto
    moreover have "a = Some (fst x)" using ad(2) x by (cases a) auto
    ultimately show ?thesis by (intro exI [of _ "[]"]) auto
  next
    assume "n = HandlerContinue \<and> x \<in> set (run evs a')"
    with Cons.IH obtain pre p post where "evs = pre @ PacketReceived p # post" "last_ping pre a' = Some (fst x)"
      by blast
    then have "ev # evs = (ev # pre) @ PacketReceived p # post" "last_ping (ev # pre) a = Some (fst x)"
      using ad(1) last_ping_append [of "[ev]" pre a] by simp_all
    then show ?thesis by blast
  qed
qed

lemma silent_before_ping:
  assumes "\<forall>m addr. MessageReceived m addr \<in> set evs \<longrightarrow> received_message m \<noteq> PING"
  shows "run evs None = []"
proof -
  have "last_ping pre None = None" if "set pre \<subseteq> set evs" for pre
    using that assms
    by (induction pre "None :: 'addr option" rule: last_ping.induct) (auto simp: ping_address_def)
  then have "\<nexists>pre p post x. evs = pre @ PacketReceived p # post \<and> last_ping pre None = Some x" by fastforce
  then have "\<nexists>x. x \<in> set (run evs None)" using sends_to_last_ping by blast
  then show ?thesis by (meson last_in_set)
qed

end

interpretation audio_handler: packet_handler audio_handler_step handle_audio_packets
  by unfold_locales (auto split: option.splits)

interpretation video_handler: packet_handler video_handler_step handle_video_packets
  by unfold_locales (auto split: option.splits if_splits prod.splits)

section \<open>Properties\<close>

text \<open>
  Media goes only to the client: every datagram the audio or video handler sends goes to the address from
  which the last PING before it came, and until the first PING nothing is sent.
\<close>

theorem media_follows_ping:
  "(\<forall>(x :: 'addr \<times> wire_op) \<in> set (handle_audio_packets aevs None).
      \<exists>pre p post. aevs = pre @ PacketReceived p # post \<and> last_ping pre None = Some (fst x)) \<and>
   (\<forall>(x :: 'addr \<times> wire_op) \<in> set (handle_video_packets vevs None).
      \<exists>pre p post. vevs = pre @ PacketReceived p # post \<and> last_ping pre None = Some (fst x)) \<and>
   ((\<forall>m addr. MessageReceived m addr \<in> set aevs \<longrightarrow> received_message m \<noteq> PING) \<longrightarrow> handle_audio_packets aevs (None :: 'addr option) = []) \<and>
   ((\<forall>m addr. MessageReceived m addr \<in> set vevs \<longrightarrow> received_message m \<noteq> PING) \<longrightarrow> handle_video_packets vevs (None :: 'addr option) = [])"
  using audio_handler.sends_to_last_ping video_handler.sends_to_last_ping
    audio_handler.silent_before_ping video_handler.silent_before_ping by blast

theorem media_follows_ping_witness:
  "handle_audio_packets [PacketReceived [1], MessageReceived PING (7 :: nat), PacketReceived [2]] None = [(7, SendTo [2])] \<and>
   handle_audio_packets [PacketReceived [1]] (None :: nat option) = []"
  using media_follows_ping [of "[PacketReceived [1]]" "[] :: (video_batch, nat) handler_event list"]
  by (simp add: ping_address_def received_message_def PING_def)

end
