(* ===== verification/Audio_Buffer.thy ===== *)
theory Audio_Buffer
  imports Prelude
begin

text \<open>
  \<open>session/stream/audio/buffer.rs\<close> and \<open>pulse_server/dyn_buffer.rs\<close>: the queue between a PulseAudio client and
  the mixer. Raw bytes go in, frames at the output rate come out. Samples have an abstract type with the
  operations of \<open>f32\<close> and dasp's conversions as a record of parameters; the rate converter of dasp is a
  parameter that says how many source frames it pulls before it emits the next output frame.
\<close>

section \<open>Formats and samples\<close>

datatype sample_format = U8 | S16Le | S16Be | Float32Le | Float32Be | S32Le | S32Be | S24Le | S24Be
  | InvalidFormat | OtherFormat nat

datatype channel_position = Mono | FrontLeft | FrontRight | FrontCenter | Lfe | RearLeft | SideLeft
  | RearRight | SideRight | RearCenter | FrontLeftOfCenter | FrontRightOfCenter | OtherPosition nat

record sample_spec =
  ss_format :: sample_format
  ss_channels :: u8
  ss_sample_rate :: u32

text \<open>\<open>fo_read\<close> converts the bytes of a sample in little-endian order; \<open>fo_sum_unit\<close> is the value
  \<open>Iterator::sum\<close> starts from.\<close>

record 'f float_ops =
  fo_zero :: 'f
  fo_sum_unit :: 'f
  fo_one :: 'f
  fo_half :: 'f
  fo_frac_1_sqrt_2 :: 'f
  fo_add :: "'f \<Rightarrow> 'f \<Rightarrow> 'f"
  fo_mul :: "'f \<Rightarrow> 'f \<Rightarrow> 'f"
  fo_read :: "sample_format \<Rightarrow> bytes \<Rightarrow> 'f"

text \<open>How many bytes \<open>read_sample\<close> takes and whether they are big-endian; other formats are unreachable.\<close>

fun sample_width :: "sample_format \<Rightarrow> nat option" where
  "sample_width U8 = Some 1"
| "sample_width S16Le = Some 2"
| "sample_width S16Be = Some 2"
| "sample_width S24Le = Some 3"
| "sample_width S24Be = Some 3"
| "sample_width S32Le = Some 4"
| "sample_width S32Be = Some 4"
| "sample_width Float32Le = Some 4"
| "sample_width Float32Be = Some 4"
| "sample_width InvalidFormat = None"
| "sample_width (OtherFormat n) = None"

definition is_big_endian :: "sample_format \<Rightarrow> bool" where
  "is_big_endian f \<longleftrightarrow> f \<in> {S16Be, S24Be, S32Be, Float32Be}"

section \<open>Downmix coefficients\<close>

record 'f downmix =
  dm_left :: "'f list"
  dm_right :: "'f list"

fun downmix_gains :: "'f float_ops \<Rightarrow> channel_position \<Rightarrow> 'f \<times> 'f" where
  "downmix_gains ops Mono = (fo_frac_1_sqrt_2 ops, fo_frac_1_sqrt_2 ops)"
| "downmix_gains ops FrontLeft = (fo_one ops, fo_zero ops)"
| "downmix_gains ops FrontRight = (fo_zero ops, fo_one ops)"
| "downmix_gains ops FrontCenter = (fo_frac_1_sqrt_2 ops, fo_frac_1_sqrt_2 ops)"
| "downmix_gains ops Lfe = (fo_frac_1_sqrt_2 ops, fo_frac_1_sqrt_2 ops)"
| "downmix_gains ops RearLeft = (fo_frac_1_sqrt_2 ops, fo_zero ops)"
| "downmix_gains ops SideLeft = (fo_frac_1_sqrt_2 ops, fo_zero ops)"
| "downmix_gains ops RearRight = (fo_zero ops, fo_frac_1_sqrt_2 ops)"
| "downmix_gains ops SideRight = (fo_zero ops, fo_frac_1_sqrt_2 ops)"
| "downmix_gains ops RearCenter = (fo_half ops, fo_half ops)"
| "downmix_gains ops FrontLeftOfCenter = (fo_one ops, fo_frac_1_sqrt_2 ops)"
| "downmix_gains ops FrontRightOfCenter = (fo_frac_1_sqrt_2 ops, fo_one ops)"
| "downmix_gains ops (OtherPosition n) = (fo_half ops, fo_half ops)"

text \<open>Positions beyond the channel count are ignored; channels without a position keep gain 0.\<close>

definition from_channel_map :: "'f float_ops \<Rightarrow> channel_position list \<Rightarrow> u8 \<Rightarrow> 'f downmix" where
  "from_channel_map ops channel_map channels =
     (let gains = map (downmix_gains ops) (take (unat channels) channel_map);
          pad = replicate (unat channels - length gains) (fo_zero ops) in
      \<lparr>dm_left = map fst gains @ pad, dm_right = map snd gains @ pad\<rparr>)"

definition mix :: "'f float_ops \<Rightarrow> 'f list \<Rightarrow> 'f list \<Rightarrow> 'f" where
  "mix ops coeffs samples = foldl (fo_add ops) (fo_sum_unit ops) (map2 (fo_mul ops) coeffs samples)"

section \<open>Buffer\<close>

record 'f buffer =
  bf_inner :: bytes
  bf_sample_spec :: sample_spec
  bf_downmix :: "'f downmix"
  bf_bpp :: nat

definition buffer_new :: "'f float_ops \<Rightarrow> (sample_format \<Rightarrow> nat) \<Rightarrow> sample_spec \<Rightarrow> channel_position list \<Rightarrow> 'f buffer" where
  "buffer_new ops bytes_per_sample spec channel_map =
     \<lparr>bf_inner = [], bf_sample_spec = spec,
      bf_downmix = from_channel_map ops channel_map (ss_channels spec),
      bf_bpp = bytes_per_sample (ss_format spec)\<rparr>"

definition len_bytes :: "'f buffer \<Rightarrow> nat" where
  "len_bytes b = length (bf_inner b)"

definition frame_bytes :: "'f buffer \<Rightarrow> nat" where
  "frame_bytes b = unat (ss_channels (bf_sample_spec b)) * bf_bpp b"

text \<open>A division by zero panics.\<close>

definition len_frames :: "'f buffer \<Rightarrow> nat res" where
  "len_frames b = (if frame_bytes b = 0 then Inl Panic else Inr (len_bytes b div frame_bytes b))"

definition read_sample :: "'f float_ops \<Rightarrow> 'f buffer \<Rightarrow> ('f option \<times> 'f buffer) res" where
  "read_sample ops b =
     (let format = ss_format (bf_sample_spec b) in
      case sample_width format of
        None \<Rightarrow> Inl Panic
      | Some w \<Rightarrow>
          if length (bf_inner b) < w then Inr (None, b\<lparr>bf_inner := []\<rparr>)
          else let raw = take w (bf_inner b) in
               Inr (Some (fo_read ops format (if is_big_endian format then rev raw else raw)),
                    b\<lparr>bf_inner := drop w (bf_inner b)\<rparr>))"

fun read_samples :: "'f float_ops \<Rightarrow> nat \<Rightarrow> 'f buffer \<Rightarrow> ('f list \<times> 'f buffer) res" where
  "read_samples ops 0 b = Inr ([], b)"
| "read_samples ops (Suc n) b =
     rbind (read_sample ops b) (\<lambda>(s, b').
       case s of
         None \<Rightarrow> Inl Panic
       | Some x \<Rightarrow> rbind (read_samples ops n b') (\<lambda>(xs, b''). Inr (x # xs, b'')))"

text \<open>The sample array has 32 entries; \<open>channels\<close> is the output channel count.\<close>

definition convert_frame :: "'f float_ops \<Rightarrow> nat \<Rightarrow> 'f downmix \<Rightarrow> nat \<Rightarrow> 'f list \<Rightarrow> 'f list res" where
  "convert_frame ops channels downmix input_channels samples =
     (if input_channels = channels then Inr (take channels samples)
      else if input_channels < channels then
        (if input_channels = 1
         then Inr (map (\<lambda>ch. if ch < 2 then samples ! 0 else fo_zero ops) [0..<channels])
         else Inr (map (\<lambda>ch. if ch < input_channels then samples ! ch else fo_zero ops) [0..<channels]))
      else if channels = 2 then
        (if 32 < input_channels then Inl Panic
         else Inr [mix ops (dm_left downmix) (take input_channels samples),
                   mix ops (dm_right downmix) (take input_channels samples)])
      else Inr (take channels samples))"

definition read_frame :: "'f float_ops \<Rightarrow> nat \<Rightarrow> 'f buffer \<Rightarrow> ('f list option \<times> 'f buffer) res" where
  "read_frame ops channels b =
     rbind (len_frames b) (\<lambda>n.
       if n = 0 then Inr (None, b)
       else let input_channels = unat (ss_channels (bf_sample_spec b)) in
         rbind (read_samples ops (min input_channels 32) b) (\<lambda>(xs, b').
           rbind (convert_frame ops channels (bf_downmix b) input_channels
                    (xs @ replicate (32 - length xs) (fo_zero ops))) (\<lambda>frame.
             Inr (Some frame, b'))))"

definition equilibrium :: "'f float_ops \<Rightarrow> nat \<Rightarrow> 'f list" where
  "equilibrium ops channels = replicate channels (fo_zero ops)"

definition signal_next :: "'f float_ops \<Rightarrow> nat \<Rightarrow> 'f buffer \<Rightarrow> ('f list \<times> 'f buffer) res" where
  "signal_next ops channels b =
     rbind (read_frame ops channels b) (\<lambda>(frame, b').
       Inr (case frame of Some f \<Rightarrow> f | None \<Rightarrow> equilibrium ops channels, b'))"

fun pull_frames :: "'f float_ops \<Rightarrow> nat \<Rightarrow> nat \<Rightarrow> 'f buffer \<Rightarrow> ('f list list \<times> 'f buffer) res" where
  "pull_frames ops channels 0 b = Inr ([], b)"
| "pull_frames ops channels (Suc n) b =
     rbind (signal_next ops channels b) (\<lambda>(f, b').
       rbind (pull_frames ops channels n b') (\<lambda>(fs, b''). Inr (f # fs, b'')))"

section \<open>Playback buffer\<close>

text \<open>The converter is a state with the number of source frames it pulls for its next output frame and what
  it emits for them.\<close>

record ('f, 'c) converter_ops =
  co_need :: "'c \<Rightarrow> nat"
  co_emit :: "'c \<Rightarrow> 'f list list \<Rightarrow> 'f list \<times> 'c"
  co_new :: "u32 \<Rightarrow> u32 \<Rightarrow> 'c"

datatype ('f, 'c) playback_buffer =
    Passthrough "'f buffer"
  | Resampling "'f buffer" 'c u32

definition playback_new :: "'f float_ops \<Rightarrow> ('f, 'c) converter_ops \<Rightarrow> (sample_format \<Rightarrow> nat) \<Rightarrow> nat \<Rightarrow> sample_spec \<Rightarrow>
    channel_position list \<Rightarrow> sample_spec \<Rightarrow> ('f, 'c) playback_buffer res" where
  "playback_new ops conv bytes_per_sample channels spec channel_map output_spec =
     rbind (guard (unat (ss_channels output_spec) = channels) Panic) (\<lambda>_.
       let b = buffer_new ops bytes_per_sample spec channel_map in
       Inr (if ss_sample_rate spec = ss_sample_rate output_spec then Passthrough b
            else Resampling b (co_new conv (ss_sample_rate spec) (ss_sample_rate output_spec))
                   (ss_sample_rate output_spec)))"

fun pb_buffer :: "('f, 'c) playback_buffer \<Rightarrow> 'f buffer" where
  "pb_buffer (Passthrough b) = b"
| "pb_buffer (Resampling b c rate) = b"

fun pb_buffer_mut :: "('f buffer \<Rightarrow> 'f buffer) \<Rightarrow> ('f, 'c) playback_buffer \<Rightarrow> ('f, 'c) playback_buffer" where
  "pb_buffer_mut g (Passthrough b) = Passthrough (g b)"
| "pb_buffer_mut g (Resampling b c rate) = Resampling (g b) c rate"

definition pb_len_bytes :: "('f, 'c) playback_buffer \<Rightarrow> nat" where
  "pb_len_bytes pb = len_bytes (pb_buffer pb)"

definition pb_len_frames :: "('f, 'c) playback_buffer \<Rightarrow> nat res" where
  "pb_len_frames pb = len_frames (pb_buffer pb)"

definition pb_is_empty :: "('f, 'c) playback_buffer \<Rightarrow> bool res" where
  "pb_is_empty pb = rbind (pb_len_frames pb) (\<lambda>n. Inr (n = 0))"

definition pb_write :: "bytes \<Rightarrow> ('f, 'c) playback_buffer \<Rightarrow> ('f, 'c) playback_buffer" where
  "pb_write payload = pb_buffer_mut (\<lambda>b. b\<lparr>bf_inner := bf_inner b @ payload\<rparr>)"

definition pb_clear :: "('f, 'c) playback_buffer \<Rightarrow> ('f, 'c) playback_buffer" where
  "pb_clear = pb_buffer_mut (\<lambda>b. b\<lparr>bf_inner := []\<rparr>)"

fun converter_next :: "'f float_ops \<Rightarrow> ('f, 'c) converter_ops \<Rightarrow> nat \<Rightarrow> nat \<Rightarrow> 'f buffer \<Rightarrow> 'c \<Rightarrow>
    ('f list list \<times> 'f buffer \<times> 'c) res" where
  "converter_next ops conv channels 0 b c = Inr ([], b, c)"
| "converter_next ops conv channels (Suc n) b c =
     rbind (pull_frames ops channels (co_need conv c) b) (\<lambda>(src, b').
       let (f, c') = co_emit conv c src in
       rbind (converter_next ops conv channels n b' c') (\<lambda>(fs, b'', c''). Inr (f # fs, b'', c'')))"

text \<open>
  \<open>drain\<close> gives a signal of \<open>num_frames\<close> frames, or nothing when there is too little data; dropping the signal
  reads what is left of it, so a successful drain takes exactly \<open>num_frames\<close> frames.
\<close>

definition div_ceil_rate :: "nat \<Rightarrow> nat \<Rightarrow> nat res" where
  "div_ceil_rate a b = (if b = 0 then Inl Panic else Inr ((a + b - 1) div b))"

fun pb_drain :: "'f float_ops \<Rightarrow> ('f, 'c) converter_ops \<Rightarrow> nat \<Rightarrow> nat \<Rightarrow> ('f, 'c) playback_buffer \<Rightarrow>
    ('f list list option \<times> ('f, 'c) playback_buffer) res" where
  "pb_drain ops conv channels num_frames (Passthrough b) =
     rbind (len_frames b) (\<lambda>n.
       if n < num_frames then Inr (None, Passthrough b)
       else rbind (pull_frames ops channels num_frames b) (\<lambda>(fs, b'). Inr (Some fs, Passthrough b')))"
| "pb_drain ops conv channels num_frames (Resampling b c output_rate) =
     rbind (div_ceil_rate (unat (ss_sample_rate (bf_sample_spec b)) * num_frames) (unat output_rate)) (\<lambda>needed.
       rbind (len_frames b) (\<lambda>n.
         if n < needed then Inr (None, Resampling b c output_rate)
         else rbind (converter_next ops conv channels num_frames b c) (\<lambda>(fs, b', c').
                Inr (Some fs, Resampling b' c' output_rate))))"

text \<open>The mixer: sample \<open>i\<close> of the output gets sample \<open>i\<close> of the drained frames, scaled.\<close>

definition mix_into :: "'f float_ops \<Rightarrow> 'f list \<Rightarrow> 'f list \<Rightarrow> 'f list \<Rightarrow> 'f list" where
  "mix_into ops vol samples output =
     map (\<lambda>i. fo_add ops (output ! i)
            (fo_mul ops (if i < length samples then samples ! i else fo_zero ops) (vol ! (i mod length vol))))
       [0..<length output]"

definition drain_and_mix :: "'f float_ops \<Rightarrow> ('f, 'c) converter_ops \<Rightarrow> nat \<Rightarrow> nat \<Rightarrow> 'f list \<Rightarrow> 'f list \<Rightarrow>
    ('f, 'c) playback_buffer \<Rightarrow> (bool \<times> 'f list \<times> ('f, 'c) playback_buffer) res" where
  "drain_and_mix ops conv channels num_frames output vol pb =
     rbind (pb_drain ops conv channels num_frames pb) (\<lambda>(frames, pb').
       case frames of
         None \<Rightarrow> Inr (False, output, pb')
       | Some fs \<Rightarrow>
           if vol = [] \<and> output \<noteq> [] then Inl Panic
           else Inr (True, mix_into ops vol (concat fs) output, pb'))"

text \<open>\<open>DynPlaybackBuffer\<close>: the output channel count picks the instance.\<close>

definition dyn_channels :: "u8 \<Rightarrow> nat" where
  "dyn_channels channels = (if channels = 6 then 6 else if channels = 8 then 8 else 2)"

definition dyn_new :: "'f float_ops \<Rightarrow> ('f, 'c) converter_ops \<Rightarrow> (sample_format \<Rightarrow> nat) \<Rightarrow> sample_spec \<Rightarrow>
    channel_position list \<Rightarrow> sample_spec \<Rightarrow> ('f, 'c) playback_buffer res" where
  "dyn_new ops conv bytes_per_sample spec channel_map output_spec =
     playback_new ops conv bytes_per_sample (dyn_channels (ss_channels output_spec)) spec channel_map output_spec"

section \<open>What a playable buffer does\<close>

text \<open>The buffers whose frames fit the sample array: a supported format with its sample size and one to 32 channels.\<close>

definition playable :: "'f buffer \<Rightarrow> bool" where
  "playable b \<longleftrightarrow> sample_width (ss_format (bf_sample_spec b)) = Some (bf_bpp b) \<and>
     0 < unat (ss_channels (bf_sample_spec b)) \<and> unat (ss_channels (bf_sample_spec b)) \<le> 32"

lemma sample_width_pos: "sample_width f = Some w \<Longrightarrow> 0 < w"
  by (cases f) auto

lemma playable_frame_bytes: "playable b \<Longrightarrow> 0 < frame_bytes b \<and> 0 < bf_bpp b"
  by (auto simp: playable_def frame_bytes_def dest: sample_width_pos)

lemma playable_inner [simp]: "playable (b\<lparr>bf_inner := x\<rparr>) = playable b"
  "frame_bytes (b\<lparr>bf_inner := x\<rparr>) = frame_bytes b"
  by (simp_all add: playable_def frame_bytes_def)

text \<open>The reference: a frame is the samples of its bytes, converted to the output channels.\<close>

definition decode_sample :: "'f float_ops \<Rightarrow> sample_format \<Rightarrow> bytes \<Rightarrow> 'f" where
  "decode_sample ops format raw = fo_read ops format (if is_big_endian format then rev raw else raw)"

definition decode_frame :: "'f float_ops \<Rightarrow> nat \<Rightarrow> 'f buffer \<Rightarrow> bytes \<Rightarrow> 'f list" where
  "decode_frame ops channels b raw =
     (let n = unat (ss_channels (bf_sample_spec b));
          xs = map (decode_sample ops (ss_format (bf_sample_spec b))) (chunks (bf_bpp b) raw) in
      case convert_frame ops channels (bf_downmix b) n (xs @ replicate (32 - length xs) (fo_zero ops)) of
        Inr f \<Rightarrow> f | Inl e \<Rightarrow> [])"

lemma chunks_take:
  "0 < w \<Longrightarrow> Suc n * w \<le> length xs \<Longrightarrow> chunks w (take (Suc n * w) xs) = take w xs # chunks w (take (n * w) (drop w xs))"
  by (subst chunks_step) (auto simp: drop_take min_def)

lemma length_chunks_exact: "0 < w \<Longrightarrow> n * w \<le> length xs \<Longrightarrow> length (chunks w (take (n * w) xs)) = n"
proof (induction n arbitrary: xs)
  case (Suc n)
  then show ?case by (subst chunks_take) auto
qed simp

lemma read_samples_eq:
  assumes "playable b" and "n * bf_bpp b \<le> length (bf_inner b)"
  shows "read_samples ops n b =
    Inr (map (decode_sample ops (ss_format (bf_sample_spec b))) (chunks (bf_bpp b) (take (n * bf_bpp b) (bf_inner b))),
         b\<lparr>bf_inner := drop (n * bf_bpp b) (bf_inner b)\<rparr>)"
  using assms
proof (induction n arbitrary: b)
  case 0
  then show ?case by simp
next
  case (Suc n)
  let ?w = "bf_bpp b"
  have w: "sample_width (ss_format (bf_sample_spec b)) = Some ?w" "0 < ?w"
    using Suc.prems playable_frame_bytes by (auto simp: playable_def)
  define b' where "b' = b\<lparr>bf_inner := drop ?w (bf_inner b)\<rparr>"
  have f: "bf_bpp b' = ?w" "bf_sample_spec b' = bf_sample_spec b" "bf_inner b' = drop ?w (bf_inner b)"
    by (simp_all add: b'_def)
  have "read_samples ops n b' = Inr (map (decode_sample ops (ss_format (bf_sample_spec b')))
      (chunks (bf_bpp b') (take (n * bf_bpp b') (bf_inner b'))), b'\<lparr>bf_inner := drop (n * bf_bpp b') (bf_inner b')\<rparr>)"
    using Suc.prems by (intro Suc.IH) (auto simp: b'_def)
  then have ih: "read_samples ops n b' = Inr (map (decode_sample ops (ss_format (bf_sample_spec b)))
      (chunks ?w (take (n * ?w) (drop ?w (bf_inner b)))), b\<lparr>bf_inner := drop (n * ?w + ?w) (bf_inner b)\<rparr>)"
    unfolding f by (simp add: b'_def add.commute)
  have "read_sample ops b = Inr (Some (decode_sample ops (ss_format (bf_sample_spec b)) (take ?w (bf_inner b))), b')"
    using w Suc.prems(2) by (simp add: read_sample_def decode_sample_def b'_def)
  with ih show ?case
    using chunks_take [OF w(2) Suc.prems(2)] by (simp add: add.commute)
qed

lemma convert_frame_ok: "n \<le> 32 \<Longrightarrow> \<exists>f. convert_frame ops channels dm n samples = Inr f"
  by (simp add: convert_frame_def)

lemma read_frame_eq:
  assumes "playable b" and "frame_bytes b \<le> len_bytes b"
  shows "read_frame ops channels b =
    Inr (Some (decode_frame ops channels b (take (frame_bytes b) (bf_inner b))), b\<lparr>bf_inner := drop (frame_bytes b) (bf_inner b)\<rparr>)"
proof -
  let ?n = "unat (ss_channels (bf_sample_spec b))"
  have n: "0 < ?n" "?n \<le> 32" "frame_bytes b = ?n * bf_bpp b"
    using assms(1) by (auto simp: playable_def frame_bytes_def)
  have fb: "0 < frame_bytes b" "0 < bf_bpp b" using playable_frame_bytes [OF assms(1)] by auto
  have lf: "\<exists>k. len_frames b = Inr (Suc k)"
    using fb assms(2) by (auto simp: len_frames_def div_greater_zero_iff intro!: gr0_implies_Suc)
  define xs where "xs = map (decode_sample ops (ss_format (bf_sample_spec b)))
      (chunks (bf_bpp b) (take (?n * bf_bpp b) (bf_inner b)))"
  have "read_samples ops (min ?n 32) b = Inr (xs, b\<lparr>bf_inner := drop (frame_bytes b) (bf_inner b)\<rparr>)"
    using read_samples_eq [OF assms(1), of ?n ops] assms(2) n
    by (simp add: min_def xs_def len_bytes_def)
  moreover obtain f where "convert_frame ops channels (bf_downmix b) ?n (xs @ replicate (32 - length xs) (fo_zero ops)) = Inr f"
    using convert_frame_ok n(2) by blast
  ultimately show ?thesis
    using lf by (auto simp: read_frame_def decode_frame_def Let_def n(3) simp flip: xs_def)
qed

lemma pull_frames_eq:
  assumes "playable b" and "n * frame_bytes b \<le> len_bytes b"
  shows "pull_frames ops channels n b =
    Inr (map (decode_frame ops channels b) (chunks (frame_bytes b) (take (n * frame_bytes b) (bf_inner b))),
         b\<lparr>bf_inner := drop (n * frame_bytes b) (bf_inner b)\<rparr>)"
  using assms
proof (induction n arbitrary: b)
  case 0
  then show ?case by simp
next
  case (Suc n)
  let ?w = "frame_bytes b"
  have w: "0 < ?w" using playable_frame_bytes [OF Suc.prems(1)] by simp
  define b' where "b' = b\<lparr>bf_inner := drop ?w (bf_inner b)\<rparr>"
  have d: "decode_frame ops channels b' = decode_frame ops channels b"
    by (rule ext) (simp add: decode_frame_def b'_def)
  have len: "Suc n * ?w \<le> length (bf_inner b)" using Suc.prems(2) by (simp add: len_bytes_def)
  have "pull_frames ops channels n b' = Inr (map (decode_frame ops channels b')
      (chunks (frame_bytes b') (take (n * frame_bytes b') (bf_inner b'))), b'\<lparr>bf_inner := drop (n * frame_bytes b') (bf_inner b')\<rparr>)"
    using Suc.prems by (intro Suc.IH) (auto simp: b'_def len_bytes_def)
  then have ih: "pull_frames ops channels n b' = Inr (map (decode_frame ops channels b)
      (chunks ?w (take (n * ?w) (drop ?w (bf_inner b)))), b\<lparr>bf_inner := drop (n * ?w + ?w) (bf_inner b)\<rparr>)"
    unfolding d by (simp add: b'_def add.commute)
  have "signal_next ops channels b = Inr (decode_frame ops channels b (take ?w (bf_inner b)), b')"
    using read_frame_eq [OF Suc.prems(1), of ops channels] Suc.prems(2)
    by (simp add: signal_next_def b'_def)
  with ih show ?case using chunks_take [OF w len] by (simp add: add.commute)
qed

lemma len_frames_less:
  "playable b \<Longrightarrow> len_frames b = Inr (len_bytes b div frame_bytes b) \<and>
     (len_bytes b div frame_bytes b < n \<longleftrightarrow> len_bytes b < n * frame_bytes b)"
  using playable_frame_bytes [of b] by (simp add: len_frames_def div_less_iff_less_mult)

lemma pull_frames_any:
  assumes "playable b"
  shows "\<exists>fs k. pull_frames ops channels n b = Inr (fs, b\<lparr>bf_inner := drop (k * frame_bytes b) (bf_inner b)\<rparr>) \<and>
    k * frame_bytes b \<le> len_bytes b"
  using assms
proof (induction n arbitrary: b)
  case 0
  then have "b\<lparr>bf_inner := drop (0 * frame_bytes b) (bf_inner b)\<rparr> = b" by simp
  then show ?case by (metis le0 mult_0 pull_frames.simps(1))
next
  case (Suc n)
  show ?case
  proof (cases "frame_bytes b \<le> len_bytes b")
    case True
    define b' where "b' = b\<lparr>bf_inner := drop (frame_bytes b) (bf_inner b)\<rparr>"
    obtain fs k where "pull_frames ops channels n b' = Inr (fs, b'\<lparr>bf_inner := drop (k * frame_bytes b') (bf_inner b')\<rparr>)"
      "k * frame_bytes b' \<le> len_bytes b'"
      using Suc.IH [of b'] Suc.prems by (auto simp: b'_def)
    then have "pull_frames ops channels (Suc n) b =
        Inr (decode_frame ops channels b (take (frame_bytes b) (bf_inner b)) # fs,
             b\<lparr>bf_inner := drop (Suc k * frame_bytes b) (bf_inner b)\<rparr>)"
      "Suc k * frame_bytes b \<le> len_bytes b"
      using read_frame_eq [OF Suc.prems True, of ops channels] True
      by (simp_all add: signal_next_def b'_def len_bytes_def add.commute)
    then show ?thesis by blast
  next
    case False
    then have "signal_next ops channels b = Inr (equilibrium ops channels, b)"
      using len_frames_less [OF Suc.prems, of 1] by (simp add: signal_next_def read_frame_def)
    moreover obtain fs k where "pull_frames ops channels n b = Inr (fs, b\<lparr>bf_inner := drop (k * frame_bytes b) (bf_inner b)\<rparr>)"
      "k * frame_bytes b \<le> len_bytes b"
      using Suc.IH [OF Suc.prems] by blast
    ultimately show ?thesis by auto
  qed
qed

lemma converter_next_any:
  assumes "playable b"
  shows "\<exists>fs k c'. converter_next ops conv channels n b c =
      Inr (fs, b\<lparr>bf_inner := drop (k * frame_bytes b) (bf_inner b)\<rparr>, c') \<and> k * frame_bytes b \<le> len_bytes b"
  using assms
proof (induction n arbitrary: b c)
  case 0
  then have "b\<lparr>bf_inner := drop (0 * frame_bytes b) (bf_inner b)\<rparr> = b" by simp
  then show ?case by (metis le0 mult_0 converter_next.simps(1))
next
  case (Suc n)
  obtain src k where p: "pull_frames ops channels (co_need conv c) b = Inr (src, b\<lparr>bf_inner := drop (k * frame_bytes b) (bf_inner b)\<rparr>)"
    "k * frame_bytes b \<le> len_bytes b"
    using pull_frames_any [OF Suc.prems] by blast
  define b' where "b' = b\<lparr>bf_inner := drop (k * frame_bytes b) (bf_inner b)\<rparr>"
  obtain f c1 where e: "co_emit conv c src = (f, c1)" by (rule prod.exhaust)
  obtain fs j c' where "converter_next ops conv channels n b' c1 =
      Inr (fs, b'\<lparr>bf_inner := drop (j * frame_bytes b') (bf_inner b')\<rparr>, c')" "j * frame_bytes b' \<le> len_bytes b'"
    using Suc.IH [of b' c1] Suc.prems by (auto simp: b'_def)
  then have "converter_next ops conv channels (Suc n) b c =
      Inr (f # fs, b\<lparr>bf_inner := drop ((j + k) * frame_bytes b) (bf_inner b)\<rparr>, c')"
    "(j + k) * frame_bytes b \<le> len_bytes b"
    using p e by (simp_all add: b'_def len_bytes_def algebra_simps)
  then show ?case by blast
qed

definition pb_playable :: "('f, 'c) playback_buffer \<Rightarrow> bool" where
  "pb_playable pb \<longleftrightarrow> playable (pb_buffer pb) \<and> (\<forall>b c rate. pb = Resampling b c rate \<longrightarrow> rate \<noteq> 0)"

lemma pb_buffer_mut_buffer [simp]: "pb_buffer (pb_buffer_mut g pb) = g (pb_buffer pb)"
  by (cases pb) auto

lemma pb_write_simps [simp]:
  "pb_len_bytes (pb_write payload pb) = pb_len_bytes pb + length payload"
  "pb_playable (pb_write payload pb) = pb_playable pb"
  "frame_bytes (pb_buffer (pb_write payload pb)) = frame_bytes (pb_buffer pb)"
  by (cases pb; simp add: pb_write_def pb_len_bytes_def len_bytes_def pb_playable_def)+

lemma pb_clear_simps [simp]:
  "pb_len_bytes (pb_clear pb) = 0"
  "pb_playable (pb_clear pb) = pb_playable pb"
  "frame_bytes (pb_buffer (pb_clear pb)) = frame_bytes (pb_buffer pb)"
  by (cases pb; simp add: pb_clear_def pb_len_bytes_def len_bytes_def pb_playable_def)+

text \<open>A drain either finds too little data and leaves the buffer alone, or removes a number of whole frames
  from its front.\<close>

lemma drain_and_mix_any:
  assumes "pb_playable pb" and "vol \<noteq> []"
  obtains drained out pb' where "drain_and_mix ops conv channels n output vol pb = Inr (drained, out, pb')"
    "pb_playable pb'" "frame_bytes (pb_buffer pb') = frame_bytes (pb_buffer pb)" "length out = length output"
    "\<not> drained \<longrightarrow> pb' = pb \<and> out = output"
    "pb_len_bytes pb' \<le> pb_len_bytes pb"
    "frame_bytes (pb_buffer pb) dvd pb_len_bytes pb - pb_len_bytes pb'"
    "\<forall>b. pb = Passthrough b \<longrightarrow> (drained \<longleftrightarrow> n * frame_bytes b \<le> len_bytes b) \<and>
       (\<exists>b'. pb' = Passthrough b' \<and> (drained \<longrightarrow> len_bytes b' = len_bytes b - n * frame_bytes b))"
proof (cases pb)
  case (Passthrough b)
  have pl: "playable b" using assms(1) Passthrough by (simp add: pb_playable_def)
  note lf = len_frames_less [OF pl, of n]
  show ?thesis
  proof (cases "len_bytes b < n * frame_bytes b")
    case True
    with lf have "drain_and_mix ops conv channels n output vol pb = Inr (False, output, pb)"
      using Passthrough by (simp add: drain_and_mix_def)
    then show ?thesis by (rule that) (use Passthrough True assms(1) in simp_all)
  next
    case False
    define b' where "b' = b\<lparr>bf_inner := drop (n * frame_bytes b) (bf_inner b)\<rparr>"
    have "drain_and_mix ops conv channels n output vol pb =
        Inr (True, mix_into ops vol (concat (map (decode_frame ops channels b)
          (chunks (frame_bytes b) (take (n * frame_bytes b) (bf_inner b))))) output, Passthrough b')"
      using False lf pull_frames_eq [OF pl, of n ops channels] Passthrough assms(2)
      by (simp add: drain_and_mix_def b'_def)
    then show ?thesis
      by (rule that) (use False Passthrough pl in
        \<open>auto simp: pb_playable_def b'_def mix_into_def pb_len_bytes_def len_bytes_def\<close>)
  qed
next
  case (Resampling b c rate)
  have pl: "playable b" "rate \<noteq> 0" using assms(1) Resampling by (auto simp: pb_playable_def)
  define needed where "needed = (unat (ss_sample_rate (bf_sample_spec b)) * n + unat rate - 1) div unat rate"
  have nd: "div_ceil_rate (unat (ss_sample_rate (bf_sample_spec b)) * n) (unat rate) = Inr needed"
    using pl(2) by (simp add: div_ceil_rate_def needed_def unat_eq_zero)
  note lf = len_frames_less [OF pl(1), of needed]
  show ?thesis
  proof (cases "len_bytes b < needed * frame_bytes b")
    case True
    with lf nd have "drain_and_mix ops conv channels n output vol pb = Inr (False, output, pb)"
      using Resampling by (simp add: drain_and_mix_def)
    then show ?thesis by (rule that) (use Resampling assms(1) in simp_all)
  next
    case False
    obtain fs k c' where cn: "converter_next ops conv channels n b c =
      Inr (fs, b\<lparr>bf_inner := drop (k * frame_bytes b) (bf_inner b)\<rparr>, c')" "k * frame_bytes b \<le> len_bytes b"
      using converter_next_any [OF pl(1), of ops conv channels n c] by auto
    define b' where "b' = b\<lparr>bf_inner := drop (k * frame_bytes b) (bf_inner b)\<rparr>"
    have "drain_and_mix ops conv channels n output vol pb =
        Inr (True, mix_into ops vol (concat fs) output, Resampling b' c' rate)"
      using False lf nd cn(1) Resampling assms(2) by (simp add: drain_and_mix_def b'_def)
    moreover have l: "pb_len_bytes (Resampling b' c' rate) = pb_len_bytes pb - k * frame_bytes b"
      "pb_len_bytes pb = len_bytes b"
      by (simp_all add: Resampling b'_def pb_len_bytes_def len_bytes_def)
    moreover have "pb_len_bytes pb - (pb_len_bytes pb - k * frame_bytes b) = k * frame_bytes b"
      using cn(2) l(2) by simp
    moreover have "playable b'" "frame_bytes b' = frame_bytes b" using pl(1) by (simp_all add: b'_def)
    ultimately show ?thesis
      using pl(2)
      by (intro that [of True "mix_into ops vol (concat fs) output" "Resampling b' c' rate"])
        (simp_all add: Resampling pb_playable_def, simp_all add: mix_into_def)
  qed
qed

subsection \<open>Buffers of any number of channels\<close>

text \<open>Nothing keeps a client from more than 32 channels; a frame then takes only 32 samples.\<close>

definition sized :: "'f buffer \<Rightarrow> bool" where
  "sized b \<longleftrightarrow> sample_width (ss_format (bf_sample_spec b)) = Some (bf_bpp b) \<and> 0 < unat (ss_channels (bf_sample_spec b))"

definition wide :: "'f buffer \<Rightarrow> bool" where
  "wide b \<longleftrightarrow> 32 < unat (ss_channels (bf_sample_spec b))"

lemma playable_iff: "playable b \<longleftrightarrow> sized b \<and> \<not> wide b"
  by (auto simp: playable_def sized_def wide_def)

lemma sized_frame_bytes: "sized b \<Longrightarrow> 0 < frame_bytes b \<and> 0 < bf_bpp b"
  by (auto simp: sized_def frame_bytes_def dest: sample_width_pos)

lemma sized_inner [simp]: "sized (b\<lparr>bf_inner := x\<rparr>) = sized b" "wide (b\<lparr>bf_inner := x\<rparr>) = wide b"
  by (simp_all add: sized_def wide_def)

lemma sized_len_frames: "sized b \<Longrightarrow> len_frames b = Inr (len_bytes b div frame_bytes b)"
  using sized_frame_bytes [of b] by (simp add: len_frames_def)

lemma read_samples_count:
  assumes "sized b" and "n * bf_bpp b \<le> length (bf_inner b)"
  shows "\<exists>xs. read_samples ops n b = Inr (xs, b\<lparr>bf_inner := drop (n * bf_bpp b) (bf_inner b)\<rparr>)"
  using assms
proof (induction n arbitrary: b)
  case 0
  then show ?case by simp
next
  case (Suc n)
  define b' where "b' = b\<lparr>bf_inner := drop (bf_bpp b) (bf_inner b)\<rparr>"
  have "\<exists>xs. read_samples ops n b' = Inr (xs, b'\<lparr>bf_inner := drop (n * bf_bpp b') (bf_inner b')\<rparr>)"
    using Suc.prems by (intro Suc.IH) (auto simp: b'_def)
  moreover have "\<exists>x. read_sample ops b = Inr (Some x, b')"
    using Suc.prems by (auto simp: read_sample_def b'_def sized_def Let_def)
  ultimately show ?case by (auto simp: b'_def add.commute)
qed

lemma convert_frame_wide:
  "32 < n \<Longrightarrow> (\<exists>f. channels \<noteq> 2 \<and> convert_frame ops channels dm n samples = Inr f) \<or>
     channels = 2 \<and> convert_frame ops channels dm n samples = Inl Panic"
  by (simp add: convert_frame_def)

lemma signal_next_wide:
  assumes "sized b" and "wide b"
  shows "(channels = 2 \<and> frame_bytes b \<le> len_bytes b \<and> signal_next ops channels b = Inl Panic) \<or>
    (\<not> (channels = 2 \<and> frame_bytes b \<le> len_bytes b) \<and>
     (\<exists>f k. signal_next ops channels b = Inr (f, b\<lparr>bf_inner := drop k (bf_inner b)\<rparr>) \<and> k \<le> len_bytes b))"
proof (cases "frame_bytes b \<le> len_bytes b")
  case False
  then have "signal_next ops channels b = Inr (equilibrium ops channels, b\<lparr>bf_inner := drop 0 (bf_inner b)\<rparr>)"
    using sized_len_frames [OF assms(1)] by (simp add: signal_next_def read_frame_def)
  then show ?thesis using False by (metis le0)
next
  case True
  let ?n = "unat (ss_channels (bf_sample_spec b))"
  have n: "32 < ?n" using assms(2) by (simp add: wide_def)
  have lf: "len_bytes b div frame_bytes b \<noteq> 0" using True sized_frame_bytes [OF assms(1)] by (simp add: div_eq_0_iff)
  have "32 * bf_bpp b \<le> frame_bytes b" using n by (simp add: frame_bytes_def)
  then have len: "32 * bf_bpp b \<le> len_bytes b" using True by linarith
  then obtain xs where xs: "read_samples ops 32 b = Inr (xs, b\<lparr>bf_inner := drop (32 * bf_bpp b) (bf_inner b)\<rparr>)"
    using read_samples_count [OF assms(1), of 32] by (auto simp: len_bytes_def)
  have "read_frame ops channels b = rbind (convert_frame ops channels (bf_downmix b) ?n (xs @ replicate (32 - length xs) (fo_zero ops)))
      (\<lambda>frame. Inr (Some frame, b\<lparr>bf_inner := drop (32 * bf_bpp b) (bf_inner b)\<rparr>))"
    using xs lf n sized_len_frames [OF assms(1)] by (simp add: read_frame_def Let_def min_def)
  with convert_frame_wide [OF n, of channels ops "bf_downmix b" "xs @ replicate (32 - length xs) (fo_zero ops)"] True len
  show ?thesis unfolding signal_next_def by fastforce
qed

lemma pull_frames_wide:
  assumes "sized b" and "wide b"
  shows "channels = 2 \<and> pull_frames ops channels n b = Inl Panic \<or>
    (\<exists>fs k. pull_frames ops channels n b = Inr (fs, b\<lparr>bf_inner := drop k (bf_inner b)\<rparr>) \<and> k \<le> len_bytes b)"
  using assms
proof (induction n arbitrary: b)
  case 0
  then have "pull_frames ops channels 0 b = Inr ([], b\<lparr>bf_inner := drop 0 (bf_inner b)\<rparr>)" by simp
  then show ?case by blast
next
  case (Suc n)
  from signal_next_wide [OF Suc.prems, of channels ops] show ?case
  proof (elim disjE conjE exE)
    fix f k assume s: "signal_next ops channels b = Inr (f, b\<lparr>bf_inner := drop k (bf_inner b)\<rparr>)" "k \<le> len_bytes b"
    define b' where "b' = b\<lparr>bf_inner := drop k (bf_inner b)\<rparr>"
    have "sized b'" "wide b'" using Suc.prems by (simp_all add: b'_def)
    from Suc.IH [OF this] show ?thesis
    proof (elim disjE exE conjE)
      fix fs j assume "pull_frames ops channels n b' = Inr (fs, b'\<lparr>bf_inner := drop j (bf_inner b')\<rparr>)" "j \<le> len_bytes b'"
      then have "pull_frames ops channels (Suc n) b = Inr (f # fs, b\<lparr>bf_inner := drop (j + k) (bf_inner b)\<rparr>)" "j + k \<le> len_bytes b"
        using s by (simp_all add: b'_def len_bytes_def)
      then show ?thesis by blast
    qed (use s in \<open>simp add: b'_def\<close>)
  qed simp
qed

lemma converter_next_wide:
  assumes "sized b" and "wide b"
  shows "channels = 2 \<and> converter_next ops conv channels n b c = Inl Panic \<or>
    (\<exists>fs k c'. converter_next ops conv channels n b c = Inr (fs, b\<lparr>bf_inner := drop k (bf_inner b)\<rparr>, c') \<and> k \<le> len_bytes b)"
  using assms
proof (induction n arbitrary: b c)
  case 0
  then have "converter_next ops conv channels 0 b c = Inr ([], b\<lparr>bf_inner := drop 0 (bf_inner b)\<rparr>, c)" by simp
  then show ?case by blast
next
  case (Suc n)
  from pull_frames_wide [OF Suc.prems, of channels ops "co_need conv c"] show ?case
  proof (elim disjE conjE exE)
    fix src k assume s: "pull_frames ops channels (co_need conv c) b = Inr (src, b\<lparr>bf_inner := drop k (bf_inner b)\<rparr>)" "k \<le> len_bytes b"
    define b' where "b' = b\<lparr>bf_inner := drop k (bf_inner b)\<rparr>"
    obtain f c1 where e: "co_emit conv c src = (f, c1)" by (rule prod.exhaust)
    have "sized b'" "wide b'" using Suc.prems by (simp_all add: b'_def)
    from Suc.IH [OF this, of c1] show ?thesis
    proof (elim disjE exE conjE)
      fix fs j c' assume "converter_next ops conv channels n b' c1 = Inr (fs, b'\<lparr>bf_inner := drop j (bf_inner b')\<rparr>, c')" "j \<le> len_bytes b'"
      then have "converter_next ops conv channels (Suc n) b c = Inr (f # fs, b\<lparr>bf_inner := drop (j + k) (bf_inner b)\<rparr>, c')"
        "j + k \<le> len_bytes b"
        using s e by (simp_all add: b'_def len_bytes_def)
      then show ?thesis by blast
    qed (use s e in \<open>simp add: b'_def\<close>)
  qed simp
qed

definition pb_sized :: "('f, 'c) playback_buffer \<Rightarrow> bool" where
  "pb_sized pb \<longleftrightarrow> sized (pb_buffer pb) \<and> (\<forall>b c rate. pb = Resampling b c rate \<longrightarrow> rate \<noteq> 0)"

lemma pb_playable_iff: "pb_playable pb \<longleftrightarrow> pb_sized pb \<and> \<not> wide (pb_buffer pb)"
  by (auto simp: pb_playable_def pb_sized_def playable_iff)

lemma pb_sized_simps [simp]:
  "pb_sized (pb_write payload pb) = pb_sized pb" "pb_sized (pb_clear pb) = pb_sized pb"
  by (cases pb; simp add: pb_write_def pb_clear_def pb_sized_def)+

text \<open>A drain of any buffer panics only when it mixes more than 32 channels down to stereo.\<close>

lemma drain_and_mix_sized:
  assumes "pb_sized pb" and "vol \<noteq> []"
  obtains (panic) "drain_and_mix ops conv channels n output vol pb = Inl Panic" "channels = 2" "wide (pb_buffer pb)"
  | (drained) drained out pb' where "drain_and_mix ops conv channels n output vol pb = Inr (drained, out, pb')"
    "pb_sized pb'" "wide (pb_buffer pb') = wide (pb_buffer pb)" "length out = length output" "\<not> drained \<longrightarrow> pb' = pb \<and> out = output"
    "pb_len_bytes pb' \<le> pb_len_bytes pb"
proof (cases "wide (pb_buffer pb)")
  case False
  then have "pb_playable pb" using assms(1) by (simp add: pb_playable_iff)
  then show thesis
    by (rule drain_and_mix_any [OF _ assms(2), of pb ops conv channels n "output"])
      (rule drained, use False in \<open>auto simp: pb_playable_iff\<close>)
next
  case w: True
  show thesis
  proof (cases pb)
    case (Passthrough b)
    have b: "sized b" "wide b" using assms(1) w Passthrough by (simp_all add: pb_sized_def)
    note lf = sized_len_frames [OF b(1)]
    show thesis
    proof (cases "len_bytes b div frame_bytes b < n")
      case True
      then have "drain_and_mix ops conv channels n output vol pb = Inr (False, output, pb)"
        using lf Passthrough by (simp add: drain_and_mix_def)
      then show thesis by (rule drained) (use assms(1) in simp_all)
    next
      case False
      from pull_frames_wide [OF b, of channels ops n] show thesis
      proof (elim disjE exE conjE)
        assume "channels = 2" "pull_frames ops channels n b = Inl Panic"
        then show thesis using False lf Passthrough w by (intro panic) (simp_all add: drain_and_mix_def)
      next
        fix fs k assume p: "pull_frames ops channels n b = Inr (fs, b\<lparr>bf_inner := drop k (bf_inner b)\<rparr>)"
        then have "drain_and_mix ops conv channels n output vol pb =
            Inr (True, mix_into ops vol (concat fs) output, Passthrough (b\<lparr>bf_inner := drop k (bf_inner b)\<rparr>))"
          using False lf Passthrough assms(2) by (simp add: drain_and_mix_def)
        then show thesis
          by (rule drained) (use b Passthrough in \<open>simp_all add: pb_sized_def pb_len_bytes_def len_bytes_def mix_into_def\<close>)
      qed
    qed
  next
    case (Resampling b c rate)
    have b: "sized b" "wide b" "rate \<noteq> 0" using assms(1) w Resampling by (auto simp: pb_sized_def)
    note lf = sized_len_frames [OF b(1)]
    define needed where "needed = (unat (ss_sample_rate (bf_sample_spec b)) * n + unat rate - 1) div unat rate"
    have nd: "div_ceil_rate (unat (ss_sample_rate (bf_sample_spec b)) * n) (unat rate) = Inr needed"
      using b(3) by (simp add: div_ceil_rate_def needed_def unat_eq_zero)
    show thesis
    proof (cases "len_bytes b div frame_bytes b < needed")
      case True
      then have "drain_and_mix ops conv channels n output vol pb = Inr (False, output, pb)"
        using lf nd Resampling by (simp add: drain_and_mix_def)
      then show thesis by (rule drained) (use assms(1) in simp_all)
    next
      case False
      from converter_next_wide [OF b(1,2), of channels ops conv n c] show thesis
      proof (elim disjE exE conjE)
        assume "channels = 2" "converter_next ops conv channels n b c = Inl Panic"
        then show thesis using False lf nd Resampling w by (intro panic) (simp_all add: drain_and_mix_def)
      next
        fix fs k c' assume p: "converter_next ops conv channels n b c = Inr (fs, b\<lparr>bf_inner := drop k (bf_inner b)\<rparr>, c')"
        then have "drain_and_mix ops conv channels n output vol pb =
            Inr (True, mix_into ops vol (concat fs) output, Resampling (b\<lparr>bf_inner := drop k (bf_inner b)\<rparr>) c' rate)"
          using False lf nd Resampling assms(2) by (simp add: drain_and_mix_def)
        then show thesis
          by (rule drained) (use b Resampling in \<open>simp_all add: pb_sized_def pb_len_bytes_def len_bytes_def mix_into_def\<close>)
      qed
    qed
  qed
qed

lemma drain_and_mix_wide_panics:
  assumes "sized b" and "wide b" and "0 < n" and "n * frame_bytes b \<le> len_bytes b"
  shows "drain_and_mix ops conv 2 n output vol (Passthrough b) = Inl Panic"
proof -
  have fb: "0 < frame_bytes b" using sized_frame_bytes [OF assms(1)] by blast
  have "frame_bytes b \<le> n * frame_bytes b" using assms(3) by simp
  then have "frame_bytes b \<le> len_bytes b" using assms(4) by linarith
  then have "signal_next ops 2 b = Inl Panic" using signal_next_wide [OF assms(1,2), of 2 ops] by simp
  moreover obtain m where "n = Suc m" using assms(3) gr0_implies_Suc by blast
  moreover have "\<not> len_bytes b div frame_bytes b < n" using assms(4) fb by (simp add: div_less_iff_less_mult)
  ultimately show ?thesis using sized_len_frames [OF assms(1)] by (simp add: drain_and_mix_def)
qed

section \<open>Properties\<close>

text \<open>
  C23. Draining a buffer at the output rate equals the direct reading of its bytes: with data for \<open>n\<close> frames the
  mixer adds exactly the first \<open>n\<close> frames, decoded one by one, and they leave the buffer; with less the output and
  the buffer are unchanged.
\<close>

theorem drain_and_mix_passthrough:
  assumes "playable b" and "vol \<noteq> []"
  shows "drain_and_mix ops conv channels n output vol (Passthrough b) =
    (if len_bytes b < n * frame_bytes b then Inr (False, output, Passthrough b)
     else Inr (True,
       mix_into ops vol (concat (map (decode_frame ops channels b)
         (chunks (frame_bytes b) (take (n * frame_bytes b) (bf_inner b))))) output,
       Passthrough (b\<lparr>bf_inner := drop (n * frame_bytes b) (bf_inner b)\<rparr>)))"
  using len_frames_less [OF assms(1), of n] pull_frames_eq [OF assms(1), of n ops channels] assms(2)
  by (simp add: drain_and_mix_def)

definition nat_ops :: "int float_ops" where
  "nat_ops = \<lparr>fo_zero = 0, fo_sum_unit = 0, fo_one = 2, fo_half = 1, fo_frac_1_sqrt_2 = 1, fo_add = (+), fo_mul = (*),
     fo_read = (\<lambda>f raw. int (le_to_nat raw))\<rparr>"

theorem drain_and_mix_passthrough_witness:
  "drain_and_mix nat_ops (undefined :: (int, unit) converter_ops) 2 2 [10, 20, 30, 40] [1, 3]
     (Passthrough \<lparr>bf_inner = [1, 2, 3, 4, 5], bf_sample_spec = \<lparr>ss_format = U8, ss_channels = 2, ss_sample_rate = 48000\<rparr>,
        bf_downmix = \<lparr>dm_left = [], dm_right = []\<rparr>, bf_bpp = 1\<rparr>) =
   Inr (True, [11, 26, 33, 52],
     Passthrough \<lparr>bf_inner = [5], bf_sample_spec = \<lparr>ss_format = U8, ss_channels = 2, ss_sample_rate = 48000\<rparr>,
        bf_downmix = \<lparr>dm_left = [], dm_right = []\<rparr>, bf_bpp = 1\<rparr>)"
  by (subst drain_and_mix_passthrough)
    (simp_all add: playable_def frame_bytes_def len_bytes_def chunks.simps decode_frame_def convert_frame_def
      decode_sample_def is_big_endian_def nat_ops_def mix_into_def upt_rec mod_Suc)

end
