(* ===== verification/Pulse_Commands.thy ===== *)
theory Pulse_Commands
  imports Audio_Buffer Text
begin

text \<open>
  \<open>pulse_server/commands.rs\<close> and the stream state of \<open>pulse_server/mod.rs\<close>: what the PulseAudio server does
  with a command or a block of samples of a client. The wire format of the \<open>pulseaudio\<close> crate is the
  parameter \<open>pe_encode\<close>, its sample sizes and volume conversions are parameters too. Buffer attributes are 32-bit
  words whose arithmetic wraps as in a release build; byte counters are unbounded.
\<close>

section \<open>Messages and commands\<close>

record buffer_attr =
  ba_max_length :: u32
  ba_target_length :: u32
  ba_pre_buffering :: u32
  ba_minimum_request_length :: u32

datatype pulse_error = NoEntity | NotSupported | NotImplemented | NoExtension | Internal

record create_stream_reply =
  cr_channel :: u32
  cr_stream_index :: u32
  cr_sample_spec :: sample_spec
  cr_channel_map :: "channel_position list"
  cr_buffer_attr :: buffer_attr
  cr_requested_bytes :: u32
  cr_sink_name :: string
  cr_stream_latency :: nat

record latency_reply =
  lr_sink_usec :: nat
  lr_playing :: bool
  lr_local_time :: nat
  lr_write_offset :: nat
  lr_read_offset :: nat
  lr_playing_for :: nat

record sink_input_info =
  si_index :: u32
  si_name :: string
  si_client_index :: u32
  si_sink_index :: u32
  si_sample_spec :: sample_spec
  si_cvolume :: "u32 list"
  si_muted :: bool
  si_corked :: bool

record sink_info =
  sk_index :: u32
  sk_name :: string
  sk_description :: string
  sk_sample_spec :: sample_spec
  sk_channel_map :: "channel_position list"
  sk_port_name :: string

datatype list_kind = ClientList | CardList | SourceOutputList | SourceList | ModuleList | SampleList

datatype pulse_reply =
    AuthReply u16
  | SetClientNameReply u32
  | ServerInfoReply sample_spec "channel_position list"
  | ClientInfoReply u32
  | EmptyListReply list_kind
  | SinkInfoReply sink_info
  | SinkInfoListReply "sink_info list"
  | CreatePlaybackStreamReply create_stream_reply
  | PlaybackLatencyReply latency_reply
  | LookupReply u32
  | StatReply
  | SinkInputInfoReply sink_input_info
  | SinkInputInfoListReply "sink_input_info list"
  | SetPlaybackStreamBufferAttrReply buffer_attr nat

datatype pulse_message =
    ReplyMessage u32 pulse_reply
  | ErrorMessage u32 pulse_error
  | AckMessage u32
  | UnderflowMessage u32
  | RequestMessage u32 u32
  | OverflowMessage u32
  | StartedMessage u32

datatype format_prop = FormatSampleFormat | FormatRate | FormatChannels | OtherProp nat

record create_stream_params =
  cp_sample_spec :: sample_spec
  cp_channel_map :: "channel_position list"
  cp_formats :: "(format_prop \<Rightarrow> string option) list"
  cp_buffer_attr :: buffer_attr
  cp_cvolume :: "u32 list option"
  cp_fix_channels :: bool
  cp_start_corked :: bool
  cp_start_muted :: "bool option"

datatype pulse_command =
    Auth u16
  | SetClientName string
  | GetServerInfo
  | GetClientInfo u32
  | GetClientInfoList
  | GetCardInfo
  | GetCardInfoList
  | GetSinkInfo
  | GetSinkInfoList
  | GetSourceInfo
  | GetSourceOutputInfoList
  | GetSourceInfoList
  | Subscribe
  | CreatePlaybackStream create_stream_params
  | DrainPlaybackStream u32
  | GetPlaybackLatency u32 nat
  | UpdatePlaybackStreamProplist
  | CorkPlaybackStream u32 bool
  | FlushPlaybackStream u32
  | Extension
  | SetSinkInputVolume u32 "u32 list"
  | SetSinkInputMute u32 bool
  | SetSinkVolume "u32 list"
  | SetSinkMute bool
  | DeletePlaybackStream u32
  | LookupSink string
  | Stat
  | TriggerPlaybackStream u32
  | PrebufPlaybackStream u32
  | GetSinkInputInfo u32
  | GetSinkInputInfoList
  | SetPlaybackStreamBufferAttr u32 buffer_attr
  | GetModuleInfoList
  | GetSampleInfoList
  | OtherCommand nat

section \<open>State\<close>

datatype stream_state = Prebuffering nat | Corked | Playing | Draining u32

record ('f, 'c) playback_stream =
  ps_stream_index :: u32
  ps_state :: stream_state
  ps_buffer_attr :: buffer_attr
  ps_buffer :: "('f, 'c) playback_buffer"
  ps_volume :: "'f list"
  ps_muted :: bool
  ps_missing :: int
  ps_requested :: nat
  ps_played_bytes :: nat
  ps_write_offset :: nat
  ps_read_offset :: nat

text \<open>Streams are kept in the order of their channel number, as in the \<open>BTreeMap\<close>.\<close>

type_synonym ('f, 'c) streams = "(u32 \<times> ('f, 'c) playback_stream) list"

record ('f, 'c) pulse_client =
  pc_id :: u32
  pc_protocol_version :: u16
  pc_props :: "string option"
  pc_incoming :: bytes
  pc_outgoing :: bytes
  pc_writable_registered :: bool
  pc_playback_streams :: "('f, 'c) streams"

record 'f server_state =
  sv_sinks :: "sink_info list"
  sv_next_playback_channel_index :: u32
  sv_next_stream_index :: u32
  sv_sink_volume :: "'f list"
  sv_sink_muted :: bool
  sv_capture_channels :: u8
  sv_capture_spec :: sample_spec

record ('f, 'c) pulse_env =
  pe_ops :: "'f float_ops"
  pe_conv :: "('f, 'c) converter_ops"
  pe_bytes_per_sample :: "sample_format \<Rightarrow> nat"
  pe_to_linear :: "u32 \<Rightarrow> 'f"
  pe_from_linear :: "'f \<Rightarrow> u32"
  pe_volume_norm :: u32
  pe_max_version :: u16
  pe_encode :: "u16 \<Rightarrow> pulse_message \<Rightarrow> bytes"

definition SINK_NAME :: string where "SINK_NAME = ''moonshine''"

definition send_message :: "('f, 'c) pulse_env \<Rightarrow> pulse_message \<Rightarrow> ('f, 'c) pulse_client \<Rightarrow> ('f, 'c) pulse_client" where
  "send_message env msg client =
     client\<lparr>pc_outgoing := pc_outgoing client @ pe_encode env (pc_protocol_version client) msg\<rparr>"

definition get_stream :: "u32 \<Rightarrow> ('f, 'c) pulse_client \<Rightarrow> ('f, 'c) playback_stream option" where
  "get_stream channel client = map_of (pc_playback_streams client) channel"

fun insert_sorted :: "u32 \<Rightarrow> 'v \<Rightarrow> (u32 \<times> 'v) list \<Rightarrow> (u32 \<times> 'v) list" where
  "insert_sorted k v [] = [(k, v)]"
| "insert_sorted k v ((k', v') # xs) =
     (if k < k' then (k, v) # (k', v') # xs
      else if k = k' then (k, v) # xs
      else (k', v') # insert_sorted k v xs)"

definition set_stream :: "u32 \<Rightarrow> ('f, 'c) playback_stream \<Rightarrow> ('f, 'c) pulse_client \<Rightarrow> ('f, 'c) pulse_client" where
  "set_stream channel s client =
     client\<lparr>pc_playback_streams := insert_sorted channel s (pc_playback_streams client)\<rparr>"

definition remove_stream :: "u32 \<Rightarrow> ('f, 'c) pulse_client \<Rightarrow> ('f, 'c) pulse_client" where
  "remove_stream channel client =
     client\<lparr>pc_playback_streams := filter (\<lambda>(k, s). k \<noteq> channel) (pc_playback_streams client)\<rparr>"

section \<open>Helpers\<close>

text \<open>\<open>pop_missing\<close> turns accumulated demand into in-flight credit.\<close>

definition pop_missing :: "int \<Rightarrow> nat \<Rightarrow> nat \<Rightarrow> bool \<Rightarrow> nat \<times> int \<times> nat" where
  "pop_missing missing requested min_req in_prebuf =
     (if missing \<le> 0 then (0, missing, requested)
      else if nat missing < min_req \<and> \<not> in_prebuf then (0, missing, requested)
      else (nat missing, 0, requested + nat missing))"

definition stream_pop_missing :: "bool \<Rightarrow> ('f, 'c) playback_stream \<Rightarrow> nat \<times> ('f, 'c) playback_stream" where
  "stream_pop_missing in_prebuf s =
     (let (req, missing, requested) = pop_missing (ps_missing s) (ps_requested s)
            (unat (ba_minimum_request_length (ps_buffer_attr s))) in_prebuf in
      (req, s\<lparr>ps_missing := missing, ps_requested := requested\<rparr>))"

definition is_prebuffering :: "stream_state \<Rightarrow> bool" where
  "is_prebuffering st \<longleftrightarrow> (case st of Prebuffering n \<Rightarrow> True | _ \<Rightarrow> False)"

definition is_supported_format :: "sample_format \<Rightarrow> bool" where
  "is_supported_format f \<longleftrightarrow>
     f \<in> {U8, S16Le, S16Be, Float32Le, Float32Be, S32Le, S32Be, S24Le, S24Be}"

text \<open>A property value is a C string; a value with bytes outside ASCII is no valid number and no format name,
  whether or not it is UTF-8.\<close>

definition trim_quotes :: "string \<Rightarrow> string" where
  "trim_quotes s = rev (dropWhile ((=) CHR 0x22) (rev (dropWhile ((=) CHR 0x22) s)))"

definition sanitize_prop_str :: "string \<Rightarrow> string res" where
  "sanitize_prop_str b =
     (if b = [] \<or> last b \<noteq> CHR 0x00 \<or> CHR 0x00 \<in> set (butlast b) then Inl Err
      else if list_ex (\<lambda>c. 128 \<le> (of_char c :: nat)) b then Inl Err
      else Inr (trim_quotes (butlast b)))"

definition format_of_name :: "string \<Rightarrow> sample_format option" where
  "format_of_name s = map_of
     [(''s16le'', S16Le), (''s16be'', S16Be), (''u8'', U8), (''s32le'', S32Le), (''s32be'', S32Be),
      (''s24le'', S24Le), (''s24be'', S24Be), (''float32le'', Float32Le), (''float32be'', Float32Be)] s"

definition sample_spec_from_format :: "(format_prop \<Rightarrow> string option) \<Rightarrow> sample_spec res" where
  "sample_spec_from_format props =
     rbind (ok_or (props FormatSampleFormat)) (\<lambda>format.
     rbind (ok_or (props FormatRate)) (\<lambda>rate.
     rbind (ok_or (props FormatChannels)) (\<lambda>channels.
     rbind (sanitize_prop_str format) (\<lambda>format_str.
     rbind (ok_or (format_of_name format_str)) (\<lambda>fmt.
     rbind (sanitize_prop_str rate) (\<lambda>rate_str.
     rbind (ok_or (parse_unsigned (2 ^ 32) rate_str)) (\<lambda>r.
     rbind (sanitize_prop_str channels) (\<lambda>channels_str.
     rbind (ok_or (parse_unsigned 256 channels_str)) (\<lambda>ch.
       Inr \<lparr>ss_format = fmt, ss_channels = word_of_nat ch, ss_sample_rate = word_of_nat r\<rparr>)))))))))"

text \<open>\<open>u32::next_multiple_of\<close> panics on 0 and wraps beyond the largest value.\<close>

definition next_multiple_of :: "u32 \<Rightarrow> u32 \<Rightarrow> u32 res" where
  "next_multiple_of a b =
     (if b = 0 then Inl Panic else Inr (if a mod b = 0 then a else a + (b - a mod b)))"

definition len_10ms :: "(sample_format \<Rightarrow> nat) \<Rightarrow> sample_spec \<Rightarrow> u32" where
  "len_10ms bytes_per_sample spec =
     word_of_nat (unat (ss_channels spec) * bytes_per_sample (ss_format spec) *
       unat (ss_sample_rate spec) div 100)"

definition configure_max_length :: "u32 \<Rightarrow> u32 \<Rightarrow> u32 \<Rightarrow> u32 res" where
  "configure_max_length frame_size l10 m =
     (if m = - 1 then Inr (l10 * 20)
      else rbind (next_multiple_of m frame_size) (\<lambda>m'. Inr (min m' (l10 * 100))))"

definition configure_min_request :: "u32 \<Rightarrow> u32 \<Rightarrow> u32 \<Rightarrow> u32 res" where
  "configure_min_request frame_size l10 m =
     (if m = - 1 then next_multiple_of (l10 div 2) frame_size
      else rbind (next_multiple_of m frame_size) (\<lambda>m'. Inr (max m' (l10 div 2))))"

definition configure_target :: "u32 \<Rightarrow> u32 \<Rightarrow> u32 \<Rightarrow> u32 \<Rightarrow> u32 res" where
  "configure_target l10 max_length min_request t =
     (if t = - 1 then rbind (next_multiple_of (l10 * 6) min_request) (\<lambda>t'. Inr (min t' max_length))
      else rbind (next_multiple_of t min_request) (\<lambda>t'.
        let t'' = min (max t' (l10 * 6)) max_length in
        Inr (if t'' < min_request * 2 then min_request * 2 else t'')))"

definition configure_prebuf :: "u32 \<Rightarrow> u32 \<Rightarrow> u32 \<Rightarrow> u32 res" where
  "configure_prebuf min_request target p =
     (if p = - 1 then Inr target
      else rbind (next_multiple_of p min_request) (\<lambda>p'. Inr (min p' target)))"

text \<open>The products and sums of the attributes wrap as in a release build, where a debug build panics.\<close>

definition configure_buffer :: "(sample_format \<Rightarrow> nat) \<Rightarrow> sample_spec \<Rightarrow> buffer_attr \<Rightarrow> buffer_attr res" where
  "configure_buffer bytes_per_sample spec attr =
     (let frame_size = word_of_nat (unat (ss_channels spec) * bytes_per_sample (ss_format spec));
          l10 = len_10ms bytes_per_sample spec in
      rbind (configure_max_length frame_size l10 (ba_max_length attr)) (\<lambda>max_length.
      rbind (configure_min_request frame_size l10 (ba_minimum_request_length attr)) (\<lambda>min_request.
      rbind (configure_target l10 max_length min_request (ba_target_length attr)) (\<lambda>target.
      rbind (configure_prebuf min_request target (ba_pre_buffering attr)) (\<lambda>prebuf.
        Inr \<lparr>ba_max_length = max_length, ba_target_length = target, ba_pre_buffering = prebuf,
             ba_minimum_request_length = min_request\<rparr>)))))"

definition cvolume_to_linear :: "('f, 'c) pulse_env \<Rightarrow> u32 list \<Rightarrow> u8 \<Rightarrow> 'f list" where
  "cvolume_to_linear env vols out_channels =
     map (\<lambda>i. if i < length vols then pe_to_linear env (vols ! i)
              else if vols \<noteq> [] then pe_to_linear env (last vols)
              else fo_one (pe_ops env))
       [0..<unat out_channels]"

definition linear_to_cvolume :: "('f, 'c) pulse_env \<Rightarrow> 'f list \<Rightarrow> u32 list" where
  "linear_to_cvolume env vol = map (pe_from_linear env) vol"

definition sink_input_info_from_stream :: "('f, 'c) pulse_env \<Rightarrow> ('f, 'c) playback_stream \<Rightarrow> u32 \<Rightarrow> sink_input_info" where
  "sink_input_info_from_stream env s client_id =
     \<lparr>si_index = ps_stream_index s, si_name = ''stream-'' @ show_nat (unat (ps_stream_index s)),
      si_client_index = client_id, si_sink_index = 1,
      si_sample_spec = bf_sample_spec (pb_buffer (ps_buffer s)),
      si_cvolume = linear_to_cvolume env (ps_volume s), si_muted = ps_muted s,
      si_corked = (ps_state s = Corked)\<rparr>"

section \<open>Commands\<close>

type_synonym ('f, 'c) pulse_state = "('f, 'c) pulse_client \<times> 'f server_state"

definition resolve_spec :: "create_stream_params \<Rightarrow> sample_spec" where
  "resolve_spec params =
     (let spec = cp_sample_spec params in
      if ss_format spec = InvalidFormat then
        (case find (\<lambda>r. \<exists>ss. r = Inr ss) (map sample_spec_from_format (cp_formats params)) of
           Some (Inr ss) \<Rightarrow> ss
         | _ \<Rightarrow> spec)
      else spec)"

definition new_stream :: "('f, 'c) pulse_env \<Rightarrow> create_stream_params \<Rightarrow> 'f server_state \<Rightarrow> sample_spec \<Rightarrow>
    ('f, 'c) playback_buffer \<Rightarrow> buffer_attr \<Rightarrow> ('f, 'c) playback_stream" where
  "new_stream env params server stream_spec buffer attr =
     \<lparr>ps_stream_index = sv_next_stream_index server,
      ps_state = (if ba_pre_buffering attr = 0 \<or> cp_start_corked params then Corked
                  else Prebuffering (unat (ba_pre_buffering attr))),
      ps_buffer_attr = attr, ps_buffer = buffer,
      ps_volume = cvolume_to_linear env
        (case cp_cvolume params of Some v \<Rightarrow> v
         | None \<Rightarrow> replicate (unat (ss_channels stream_spec)) (pe_volume_norm env))
        (sv_capture_channels server),
      ps_muted = (cp_start_muted params = Some True),
      ps_missing = int (unat (ba_target_length attr)), ps_requested = 0,
      ps_played_bytes = 0, ps_write_offset = 0, ps_read_offset = 0\<rparr>"

definition create_playback_stream :: "('f, 'c) pulse_env \<Rightarrow> u32 \<Rightarrow> create_stream_params \<Rightarrow>
    ('f, 'c) pulse_state \<Rightarrow> ('f, 'c) pulse_state res" where
  "create_playback_stream env seq params = (\<lambda>(client, server).
     (let sample_spec = resolve_spec params in
      if \<not> is_supported_format (ss_format sample_spec)
      then Inr (send_message env (ErrorMessage seq NotSupported) client, server)
      else
        let (stream_spec, channel_map) =
              (if cp_fix_channels params
               then (sample_spec\<lparr>ss_channels := ss_channels (sv_capture_spec server)\<rparr>,
                     sk_channel_map (hd (sv_sinks server)))
               else (sample_spec, cp_channel_map params)) in
        rbind (configure_buffer (pe_bytes_per_sample env) stream_spec (cp_buffer_attr params)) (\<lambda>attr.
        rbind (dyn_new (pe_ops env) (pe_conv env) (pe_bytes_per_sample env) stream_spec channel_map
                 (sv_capture_spec server)) (\<lambda>buffer.
          let stream = new_stream env params server stream_spec buffer attr;
              channel = sv_next_playback_channel_index server;
              (req, stream') = stream_pop_missing (is_prebuffering (ps_state stream)) stream;
              reply = \<lparr>cr_channel = channel, cr_stream_index = sv_next_stream_index server,
                       cr_sample_spec = stream_spec, cr_channel_map = channel_map, cr_buffer_attr = attr,
                       cr_requested_bytes = word_of_nat req, cr_sink_name = SINK_NAME,
                       cr_stream_latency = 10000\<rparr> in
          Inr (send_message env (ReplyMessage seq (CreatePlaybackStreamReply reply))
                 (set_stream channel stream' client),
               server\<lparr>sv_next_playback_channel_index := channel + 1,
                      sv_next_stream_index := sv_next_stream_index server + 1\<rparr>)))))"

text \<open>Uncorking asks for a full buffer at once; the stream then waits for as many bytes as it asked for.\<close>

definition uncork_stream :: "('f, 'c) playback_stream \<Rightarrow> nat \<times> ('f, 'c) playback_stream" where
  "uncork_stream s =
     (let s1 = s\<lparr>ps_missing := int (unat (ba_target_length (ps_buffer_attr s)) - pb_len_bytes (ps_buffer s)),
                 ps_requested := 0\<rparr>;
          (req, s2) = stream_pop_missing True s1 in
      (req, s2\<lparr>ps_state := (if 0 < req then Prebuffering req else Playing)\<rparr>))"

definition cork_playback_stream :: "('f, 'c) pulse_env \<Rightarrow> u32 \<Rightarrow> bool \<Rightarrow> ('f, 'c) pulse_client \<Rightarrow> ('f, 'c) pulse_client" where
  "cork_playback_stream env channel cork client =
     (case get_stream channel client of
        None \<Rightarrow> client
      | Some s \<Rightarrow>
          if cork then
            (if ps_state s = Playing \<or> is_prebuffering (ps_state s)
             then set_stream channel (s\<lparr>ps_state := Corked\<rparr>) client else client)
          else if ps_state s = Corked then
            (let (req, s') = uncork_stream s in
             set_stream channel s'
               (if 0 < req then send_message env (RequestMessage channel (word_of_nat req)) client else client))
          else client)"

definition flush_stream :: "('f, 'c) playback_stream \<Rightarrow> ('f, 'c) playback_stream" where
  "flush_stream s =
     s\<lparr>ps_buffer := pb_clear (ps_buffer s),
       ps_missing := int (unat (ba_target_length (ps_buffer_attr s))),
       ps_requested := 0, ps_played_bytes := 0, ps_read_offset := ps_write_offset s\<rparr>"

text \<open>The underrun path and the prebuf command enter prebuffering the same way.\<close>

definition enter_prebuffering :: "('f, 'c) playback_stream \<Rightarrow> ('f, 'c) playback_stream" where
  "enter_prebuffering s =
     s\<lparr>ps_state := Prebuffering (unat (ba_pre_buffering (ps_buffer_attr s))),
       ps_missing := int (unat (ba_pre_buffering (ps_buffer_attr s))), ps_requested := 0\<rparr>"

definition with_stream :: "u32 \<Rightarrow> (('f, 'c) playback_stream \<Rightarrow> ('f, 'c) playback_stream) \<Rightarrow>
    ('f, 'c) pulse_client \<Rightarrow> ('f, 'c) pulse_client" where
  "with_stream channel g client =
     (case get_stream channel client of None \<Rightarrow> client | Some s \<Rightarrow> set_stream channel (g s) client)"

definition for_stream_index :: "u32 \<Rightarrow> (('f, 'c) playback_stream \<Rightarrow> ('f, 'c) playback_stream) \<Rightarrow>
    ('f, 'c) pulse_client \<Rightarrow> ('f, 'c) pulse_client" where
  "for_stream_index index g client =
     client\<lparr>pc_playback_streams :=
       map (\<lambda>(k, s). (k, if ps_stream_index s = index then g s else s)) (pc_playback_streams client)\<rparr>"

definition set_buffer_attr :: "('f, 'c) pulse_env \<Rightarrow> buffer_attr \<Rightarrow> ('f, 'c) playback_stream \<Rightarrow>
    ('f, 'c) playback_stream res" where
  "set_buffer_attr env attr s =
     rbind (configure_buffer (pe_bytes_per_sample env) (bf_sample_spec (pb_buffer (ps_buffer s))) attr) (\<lambda>attr'.
       Inr (s\<lparr>ps_buffer_attr := attr',
              ps_missing := int (unat (ba_target_length attr') -
                (pb_len_bytes (ps_buffer s) + ps_requested s))\<rparr>))"

definition latency_of :: "nat \<Rightarrow> ('f, 'c) playback_stream \<Rightarrow> latency_reply" where
  "latency_of now s =
     \<lparr>lr_sink_usec = 10000, lr_playing = (ps_state s = Playing), lr_local_time = now,
      lr_write_offset = ps_write_offset s, lr_read_offset = ps_read_offset s,
      lr_playing_for = ps_played_bytes s\<rparr>"

fun handle_command :: "('f, 'c) pulse_env \<Rightarrow> u32 \<Rightarrow> pulse_command \<Rightarrow> ('f, 'c) pulse_state \<Rightarrow>
    ('f, 'c) pulse_state res" where
  "handle_command env seq (Auth version) (client, server) =
     (let client' = client\<lparr>pc_protocol_version := min version (pe_max_version env)\<rparr> in
      Inr (send_message env (ReplyMessage seq (AuthReply (pe_max_version env))) client', server))"
| "handle_command env seq (SetClientName props) (client, server) =
     (let client' = client\<lparr>pc_props := Some props\<rparr> in
      Inr (send_message env (ReplyMessage seq (SetClientNameReply (pc_id client))) client', server))"
| "handle_command env seq GetServerInfo (client, server) =
     Inr (send_message env (ReplyMessage seq (ServerInfoReply (sv_capture_spec server)
            (sk_channel_map (hd (sv_sinks server))))) client, server)"
| "handle_command env seq (GetClientInfo index) (client, server) =
     Inr (send_message env (ReplyMessage seq (ClientInfoReply index)) client, server)"
| "handle_command env seq GetClientInfoList (client, server) =
     Inr (send_message env (ReplyMessage seq (EmptyListReply ClientList)) client, server)"
| "handle_command env seq GetCardInfo (client, server) =
     Inr (send_message env (ErrorMessage seq NoEntity) client, server)"
| "handle_command env seq GetCardInfoList (client, server) =
     Inr (send_message env (ReplyMessage seq (EmptyListReply CardList)) client, server)"
| "handle_command env seq GetSinkInfo (client, server) =
     Inr (send_message env (ReplyMessage seq (SinkInfoReply (hd (sv_sinks server)))) client, server)"
| "handle_command env seq GetSinkInfoList (client, server) =
     Inr (send_message env (ReplyMessage seq (SinkInfoListReply (sv_sinks server))) client, server)"
| "handle_command env seq GetSourceInfo (client, server) =
     Inr (send_message env (ErrorMessage seq NoEntity) client, server)"
| "handle_command env seq GetSourceOutputInfoList (client, server) =
     Inr (send_message env (ReplyMessage seq (EmptyListReply SourceOutputList)) client, server)"
| "handle_command env seq GetSourceInfoList (client, server) =
     Inr (send_message env (ReplyMessage seq (EmptyListReply SourceList)) client, server)"
| "handle_command env seq Subscribe (client, server) =
     Inr (send_message env (AckMessage seq) client, server)"
| "handle_command env seq (CreatePlaybackStream params) (client, server) =
     create_playback_stream env seq params (client, server)"
| "handle_command env seq (DrainPlaybackStream channel) (client, server) =
     (case get_stream channel client of
        Some s \<Rightarrow> Inr (set_stream channel (s\<lparr>ps_state := Draining seq\<rparr>) client, server)
      | None \<Rightarrow> Inr (send_message env (ErrorMessage seq NoEntity) client, server))"
| "handle_command env seq (GetPlaybackLatency channel now) (client, server) =
     (case get_stream channel client of
        Some s \<Rightarrow> Inr (send_message env (ReplyMessage seq (PlaybackLatencyReply (latency_of now s))) client, server)
      | None \<Rightarrow> Inr (send_message env (ErrorMessage seq NoEntity) client, server))"
| "handle_command env seq UpdatePlaybackStreamProplist (client, server) =
     Inr (send_message env (AckMessage seq) client, server)"
| "handle_command env seq (CorkPlaybackStream channel cork) (client, server) =
     Inr (send_message env (AckMessage seq) (cork_playback_stream env channel cork client), server)"
| "handle_command env seq (FlushPlaybackStream channel) (client, server) =
     Inr (send_message env (AckMessage seq) (with_stream channel flush_stream client), server)"
| "handle_command env seq Extension (client, server) =
     Inr (send_message env (ErrorMessage seq NoExtension) client, server)"
| "handle_command env seq (SetSinkInputVolume index volume) (client, server) =
     Inr (send_message env (AckMessage seq)
            (for_stream_index index
               (\<lambda>s. s\<lparr>ps_volume := cvolume_to_linear env volume (sv_capture_channels server)\<rparr>) client), server)"
| "handle_command env seq (SetSinkInputMute index mute) (client, server) =
     Inr (send_message env (AckMessage seq)
            (for_stream_index index (\<lambda>s. s\<lparr>ps_muted := mute\<rparr>) client), server)"
| "handle_command env seq (SetSinkVolume volume) (client, server) =
     Inr (send_message env (AckMessage seq) client,
          server\<lparr>sv_sink_volume := cvolume_to_linear env volume (sv_capture_channels server)\<rparr>)"
| "handle_command env seq (SetSinkMute mute) (client, server) =
     Inr (send_message env (AckMessage seq) client, server\<lparr>sv_sink_muted := mute\<rparr>)"
| "handle_command env seq (DeletePlaybackStream channel) (client, server) =
     Inr (send_message env (AckMessage seq) (remove_stream channel client), server)"
| "handle_command env seq (LookupSink name) (client, server) =
     (if name = SINK_NAME
      then Inr (send_message env (ReplyMessage seq (LookupReply 1)) client, server)
      else Inr (send_message env (ErrorMessage seq NoEntity) client, server))"
| "handle_command env seq Stat (client, server) =
     Inr (send_message env (ReplyMessage seq StatReply) client, server)"
| "handle_command env seq (TriggerPlaybackStream channel) (client, server) =
     Inr (send_message env (AckMessage seq)
            (with_stream channel
               (\<lambda>s. if is_prebuffering (ps_state s) then s\<lparr>ps_state := Playing\<rparr> else s) client), server)"
| "handle_command env seq (PrebufPlaybackStream channel) (client, server) =
     Inr (send_message env (AckMessage seq)
            (with_stream channel
               (\<lambda>s. if ps_state s = Playing then enter_prebuffering s else s) client), server)"
| "handle_command env seq (GetSinkInputInfo index) (client, server) =
     (case find (\<lambda>s. ps_stream_index s = index) (map snd (pc_playback_streams client)) of
        Some s \<Rightarrow> Inr (send_message env (ReplyMessage seq
                        (SinkInputInfoReply (sink_input_info_from_stream env s (pc_id client)))) client, server)
      | None \<Rightarrow> Inr (send_message env (ErrorMessage seq NoEntity) client, server))"
| "handle_command env seq GetSinkInputInfoList (client, server) =
     Inr (send_message env (ReplyMessage seq (SinkInputInfoListReply
            (map (\<lambda>(k, s). sink_input_info_from_stream env s (pc_id client)) (pc_playback_streams client)))) client, server)"
| "handle_command env seq (SetPlaybackStreamBufferAttr channel attr) (client, server) =
     (case get_stream channel client of
        Some s \<Rightarrow>
          rbind (set_buffer_attr env attr s) (\<lambda>s'.
            Inr (send_message env (ReplyMessage seq (SetPlaybackStreamBufferAttrReply (ps_buffer_attr s') 10000))
                   (set_stream channel s' client), server))
      | None \<Rightarrow> Inr (send_message env (ErrorMessage seq NoEntity) client, server))"
| "handle_command env seq GetModuleInfoList (client, server) =
     Inr (send_message env (ReplyMessage seq (EmptyListReply ModuleList)) client, server)"
| "handle_command env seq GetSampleInfoList (client, server) =
     Inr (send_message env (ReplyMessage seq (EmptyListReply SampleList)) client, server)"
| "handle_command env seq (OtherCommand tag) (client, server) =
     Inr (send_message env (ErrorMessage seq NotImplemented) client, server)"

section \<open>Samples\<close>

text \<open>A block of samples is cut to the room left, counts against the prebuffering goal and is queued. A block for
  an unknown channel is an error, which drops the client.\<close>

definition stream_write :: "('f, 'c) pulse_env \<Rightarrow> u32 \<Rightarrow> bytes \<Rightarrow> ('f, 'c) playback_stream \<Rightarrow>
    pulse_message list \<times> ('f, 'c) playback_stream" where
  "stream_write env channel payload s =
     (let remaining = unat (ba_max_length (ps_buffer_attr s)) - pb_len_bytes (ps_buffer s);
          overflow = (if remaining < length payload
                      then [OverflowMessage (word_of_nat (length payload - remaining))] else []);
          taken = take remaining payload;
          (started, state') =
            (case ps_state s of
               Prebuffering n \<Rightarrow>
                 (if 0 < n - length taken then ([], Prebuffering (n - length taken))
                  else ([StartedMessage channel], Playing))
             | st \<Rightarrow> ([], st)) in
      (overflow @ started,
       s\<lparr>ps_state := state', ps_buffer := pb_write taken (ps_buffer s),
         ps_requested := ps_requested s - length taken,
         ps_write_offset := ps_write_offset s + length taken\<rparr>))"

definition handle_stream_write :: "('f, 'c) pulse_env \<Rightarrow> u32 \<Rightarrow> bytes \<Rightarrow> ('f, 'c) pulse_client \<Rightarrow>
    ('f, 'c) pulse_client res" where
  "handle_stream_write env channel payload client =
     (case get_stream channel client of
        None \<Rightarrow> Inl Err
      | Some s \<Rightarrow>
          let (msgs, s') = stream_write env channel payload s in
          Inr (set_stream channel s' (foldl (\<lambda>c m. send_message env m c) client msgs)))"

end
