(* ===== verification/Pulse_Server.thy ===== *)
theory Pulse_Server
  imports Pulse_Commands
begin

text \<open>
  \<open>pulse_server/mod.rs\<close>: the PulseAudio server thread. Sockets, poll and timer are the environment: a read or
  write is answered by a function of the call's number, and the events of the loop come with those answers.
  \<open>recv\<close> may loop for ever, which is the value \<open>None\<close>.
\<close>

section \<open>Sockets\<close>

definition MAX_OUTGOING_BUFFER :: nat where "MAX_OUTGOING_BUFFER = 64 * 1024 * 1024"
definition CAPTURE_SAMPLE_RATE :: nat where "CAPTURE_SAMPLE_RATE = 48000"
definition DEFAULT_CLOCK_RATE_HZ :: nat where "DEFAULT_CLOCK_RATE_HZ = 200"
definition MAX_PAYLOAD_SIZE :: nat where "MAX_PAYLOAD_SIZE = 4 * 1024 * 1024"

text \<open>The size of a frame descriptor of the protocol: five 32-bit words.\<close>

definition DESCRIPTOR_SIZE :: nat where "DESCRIPTOR_SIZE = 20"

datatype write_answer = Wrote nat | WriteWouldBlock | WriteFailed
datatype flush_result = FlushDone | FlushBlocked | FlushDead

text \<open>A write takes at most the bytes it is given; 0 means that the peer is gone.\<close>

function client_flush :: "(nat \<Rightarrow> write_answer) \<Rightarrow> nat \<Rightarrow> bytes \<Rightarrow> flush_result \<times> bytes" where
  "client_flush net i outgoing =
     (if outgoing = [] then (FlushDone, outgoing)
      else case net i of
          Wrote n \<Rightarrow>
            (if n = 0 then (FlushDead, outgoing) else client_flush net (Suc i) (drop n outgoing))
        | WriteWouldBlock \<Rightarrow> (FlushBlocked, outgoing)
        | WriteFailed \<Rightarrow> (FlushDead, outgoing))"
  by pat_completeness auto
termination
  by (relation "measure (\<lambda>(net, i, outgoing). length outgoing)") auto

declare client_flush.simps [simp del]

text \<open>\<open>flush_client\<close> for one client; \<open>None\<close> is the client's removal.\<close>

definition flush_one :: "(nat \<Rightarrow> write_answer) \<Rightarrow> ('f, 'c) pulse_client \<Rightarrow> ('f, 'c) pulse_client option" where
  "flush_one net client =
     (if MAX_OUTGOING_BUFFER < length (pc_outgoing client) then None
      else case client_flush net 0 (pc_outgoing client) of
          (FlushDone, rest) \<Rightarrow>
            Some (client\<lparr>pc_outgoing := rest, pc_writable_registered := False\<rparr>)
        | (FlushBlocked, rest) \<Rightarrow>
            Some (client\<lparr>pc_outgoing := rest, pc_writable_registered := True\<rparr>)
        | (FlushDead, rest) \<Rightarrow> None)"

datatype ('f, 'c) command_read = Decoded u32 pulse_command | Unimplemented u32 | DecodeFailed

record wire =
  pw_read_descriptor :: "bytes \<Rightarrow> (u32 \<times> u32) option"
  pw_read_command :: "bytes \<Rightarrow> u16 \<Rightarrow> (unit, unit) command_read"

text \<open>The inner loop of \<open>recv\<close>: complete messages are taken from the front of what was received. It ends with
  the number of bytes the next read asks for, or with an error; the server state keeps what earlier messages did.\<close>

definition handle_pulse_message :: "('f, 'c) pulse_env \<Rightarrow> wire \<Rightarrow> u32 \<Rightarrow> bytes \<Rightarrow> ('f, 'c) pulse_state \<Rightarrow>
    ('f, 'c) pulse_state res" where
  "handle_pulse_message env wire channel payload = (\<lambda>(client, server).
     (if channel = - 1 then
        (case pw_read_command wire payload (pc_protocol_version client) of
           DecodeFailed \<Rightarrow> Inl Err
         | Unimplemented seq \<Rightarrow> Inr (send_message env (ErrorMessage seq NotImplemented) client, server)
         | Decoded seq cmd \<Rightarrow> handle_command env seq cmd (client, server))
      else rbind (handle_stream_write env channel payload client) (\<lambda>client'. Inr (client', server))))"

function process_incoming :: "('f, 'c) pulse_env \<Rightarrow> wire \<Rightarrow> bytes \<Rightarrow> ('f, 'c) pulse_state \<Rightarrow>
    (failure \<times> 'f server_state) + (bytes \<times> ('f, 'c) pulse_state \<times> nat)" where
  "process_incoming env wire incoming st =
     (if length incoming < DESCRIPTOR_SIZE then Inr (incoming, st, 8192)
      else case pw_read_descriptor wire (take DESCRIPTOR_SIZE incoming) of
          None \<Rightarrow> Inl (Err, snd st)
        | Some (len, channel) \<Rightarrow>
            (if MAX_PAYLOAD_SIZE < unat len then Inl (Err, snd st)
             else if length incoming < unat len + DESCRIPTOR_SIZE
             then Inr (incoming, st, unat len + DESCRIPTOR_SIZE - length incoming)
             else case handle_pulse_message env wire channel
                         (slice DESCRIPTOR_SIZE (DESCRIPTOR_SIZE + unat len) incoming) st of
                 Inl e \<Rightarrow> Inl (e, snd st)
               | Inr st' \<Rightarrow> process_incoming env wire (drop (DESCRIPTOR_SIZE + unat len) incoming) st'))"
  by pat_completeness auto
termination
  by (relation "measure (\<lambda>(env, wire, incoming, st). length incoming)") (auto simp: DESCRIPTOR_SIZE_def)

declare process_incoming.simps [simp del]

text \<open>A read into a buffer of a given size: some bytes (none at the end of the stream), or no data now.\<close>

datatype read_answer = ReadBytes bytes | ReadWouldBlock | ReadFailed

partial_function (option) recv_loop :: "('f, 'c) pulse_env \<Rightarrow> wire \<Rightarrow> (nat \<Rightarrow> nat \<Rightarrow> read_answer) \<Rightarrow> nat \<Rightarrow> nat \<Rightarrow>
    bytes \<Rightarrow> ('f, 'c) pulse_state \<Rightarrow>
    ((failure \<times> 'f server_state) + (bytes \<times> ('f, 'c) pulse_state)) option" where
  "recv_loop env wire net i read_size incoming st =
     (case net i read_size of
        ReadWouldBlock \<Rightarrow> Some (Inr (incoming, st))
      | ReadFailed \<Rightarrow> Some (Inl (Err, snd st))
      | ReadBytes bs \<Rightarrow>
          (case process_incoming env wire (incoming @ bs) st of
             Inl e \<Rightarrow> Some (Inl e)
           | Inr (incoming', st', read_size') \<Rightarrow>
               recv_loop env wire net (Suc i) read_size' incoming' st'))"

section \<open>The server\<close>

record ('f, 'c) pulse_server =
  srv_clients :: "(nat \<times> ('f, 'c) pulse_client) list"
  srv_state :: "'f server_state"
  srv_spare_frame :: bool
  srv_clock_rate_hz :: nat
  srv_next_client_token :: nat

definition pulse_channel_map :: "u8 \<Rightarrow> channel_position list" where
  "pulse_channel_map channels =
     (if channels = 6 then [FrontLeft, FrontRight, FrontCenter, Lfe, RearLeft, RearRight]
      else if channels = 8
      then [FrontLeft, FrontRight, FrontCenter, Lfe, RearLeft, RearRight, SideLeft, SideRight]
      else [FrontLeft, FrontRight])"

definition pulse_port_name :: "u8 \<Rightarrow> string" where
  "pulse_port_name channels =
     (if channels = 6 then ''Surround 5.1 Output''
      else if channels = 8 then ''Surround 7.1 Output'' else ''Stereo Output'')"

definition pulse_clock_rate :: "nat \<Rightarrow> nat" where
  "pulse_clock_rate packet_duration_ms =
     (if packet_duration_ms = 5 \<or> packet_duration_ms = 10 then 1000 div packet_duration_ms
      else DEFAULT_CLOCK_RATE_HZ)"

definition pulse_server_new :: "('f, 'c) pulse_env \<Rightarrow> u8 \<Rightarrow> nat \<Rightarrow> ('f, 'c) pulse_server" where
  "pulse_server_new env channels packet_duration_ms =
     (let capture_spec = \<lparr>ss_format = Float32Le, ss_channels = channels,
                          ss_sample_rate = word_of_nat CAPTURE_SAMPLE_RATE\<rparr>;
          sink = \<lparr>sk_index = 1, sk_name = SINK_NAME, sk_description = ''Moonshine virtual output'',
                  sk_sample_spec = capture_spec, sk_channel_map = pulse_channel_map channels,
                  sk_port_name = pulse_port_name channels\<rparr> in
      \<lparr>srv_clients = [],
       srv_state = \<lparr>sv_sinks = [sink], sv_next_playback_channel_index = 0, sv_next_stream_index = 0,
         sv_sink_volume = replicate (unat channels) (fo_one (pe_ops env)), sv_sink_muted = False,
         sv_capture_channels = channels, sv_capture_spec = capture_spec\<rparr>,
       srv_spare_frame = False, srv_clock_rate_hz = pulse_clock_rate packet_duration_ms,
       srv_next_client_token = 1024\<rparr>)"

definition find_client :: "nat \<Rightarrow> ('f, 'c) pulse_server \<Rightarrow> ('f, 'c) pulse_client option" where
  "find_client token srv = map_of (srv_clients srv) token"

definition remove_client :: "nat \<Rightarrow> ('f, 'c) pulse_server \<Rightarrow> ('f, 'c) pulse_server" where
  "remove_client token srv = srv\<lparr>srv_clients := filter (\<lambda>(t, c). t \<noteq> token) (srv_clients srv)\<rparr>"

definition update_client :: "nat \<Rightarrow> ('f, 'c) pulse_client \<Rightarrow> ('f, 'c) pulse_server \<Rightarrow> ('f, 'c) pulse_server" where
  "update_client token client srv =
     srv\<lparr>srv_clients := map (\<lambda>(t, c). (t, if t = token then client else c)) (srv_clients srv)\<rparr>"

definition flush_client :: "(nat \<Rightarrow> write_answer) \<Rightarrow> nat \<Rightarrow> ('f, 'c) pulse_server \<Rightarrow> ('f, 'c) pulse_server" where
  "flush_client net token srv =
     (case find_client token srv of
        None \<Rightarrow> srv
      | Some client \<Rightarrow>
          (case flush_one net client of
             Some client' \<Rightarrow> update_client token client' srv
           | None \<Rightarrow> remove_client token srv))"

text \<open>\<open>recv\<close> with the caller's handling of an error: the client is removed.\<close>

definition recv :: "('f, 'c) pulse_env \<Rightarrow> wire \<Rightarrow> (nat \<Rightarrow> nat \<Rightarrow> read_answer) \<Rightarrow> (nat \<Rightarrow> write_answer) \<Rightarrow> nat \<Rightarrow>
    ('f, 'c) pulse_client \<Rightarrow> ('f, 'c) pulse_server \<Rightarrow> ('f, 'c) pulse_server res option" where
  "recv env wire reads writes token client srv =
     (case recv_loop env wire reads 0 8192 (pc_incoming client) (client, srv_state srv) of
        None \<Rightarrow> None
      | Some (Inl (Panic, server)) \<Rightarrow> Some (Inl Panic)
      | Some (Inl (Err, server)) \<Rightarrow> Some (Inr (remove_client token (srv\<lparr>srv_state := server\<rparr>)))
      | Some (Inr (incoming, client', server)) \<Rightarrow>
          Some (Inr (flush_client writes token
            (update_client token (client'\<lparr>pc_incoming := incoming\<rparr>) (srv\<lparr>srv_state := server\<rparr>)))))"

section \<open>The clock tick\<close>

text \<open>The drain phase of a stream: messages, the stream, the mixed frame, and whether it is drained.\<close>

definition tick_drain :: "('f, 'c) pulse_env \<Rightarrow> nat \<Rightarrow> nat \<Rightarrow> u32 \<Rightarrow> ('f, 'c) playback_stream \<Rightarrow> 'f list \<Rightarrow>
    (pulse_message list \<times> ('f, 'c) playback_stream \<times> 'f list \<times> bool) res" where
  "tick_drain env channels num_frames channel s frame =
     (let draining = (case ps_state s of Draining seq \<Rightarrow> True | _ \<Rightarrow> False) in
      if ps_state s \<noteq> Playing \<and> \<not> draining then Inr ([], s, frame, False)
      else if ps_muted s \<and> 8 < length (ps_volume s) then Inl Panic
      else
        let vol = (if ps_muted s then replicate (length (ps_volume s)) (fo_zero (pe_ops env)) else ps_volume s) in
        rbind (drain_and_mix (pe_ops env) (pe_conv env) channels num_frames frame vol (ps_buffer s))
          (\<lambda>(drained, frame', buffer').
             let s' = s\<lparr>ps_buffer := buffer'\<rparr> in
             if \<not> drained then
               Inr ([UnderflowMessage channel],
                    (if 0 < unat (ba_pre_buffering (ps_buffer_attr s)) \<and> ps_state s = Playing
                     then enter_prebuffering s' else s'), frame', False)
             else
               let read_len = pb_len_bytes (ps_buffer s) - pb_len_bytes buffer' in
               rbind (if draining then pb_is_empty buffer' else Inr False) (\<lambda>drained_out.
                 Inr ([], s'\<lparr>ps_read_offset := ps_read_offset s + read_len,
                            ps_played_bytes := ps_played_bytes s + read_len,
                            ps_missing := ps_missing s + int read_len\<rparr>, frame', drained_out))))"

definition tick_request :: "u32 \<Rightarrow> ('f, 'c) playback_stream \<Rightarrow> pulse_message list \<times> ('f, 'c) playback_stream" where
  "tick_request channel s =
     (if ps_state s = Playing \<or> ps_state s = Corked \<or> is_prebuffering (ps_state s) then
        (let (req, s') = stream_pop_missing (is_prebuffering (ps_state s)) s in
         ((if 0 < req then [RequestMessage channel (word_of_nat req)] else []), s'))
      else ([], s))"

definition tick_stream :: "('f, 'c) pulse_env \<Rightarrow> nat \<Rightarrow> nat \<Rightarrow> u32 \<Rightarrow> ('f, 'c) playback_stream \<Rightarrow> 'f list \<Rightarrow>
    (pulse_message list \<times> ('f, 'c) playback_stream \<times> 'f list \<times> bool) res" where
  "tick_stream env channels num_frames channel s frame =
     rbind (tick_drain env channels num_frames channel s frame) (\<lambda>(msgs, s', frame', drained_out).
       let (msgs', s'') = tick_request channel s' in Inr (msgs @ msgs', s'', frame', drained_out))"

text \<open>All streams of a client, then the removal of the drained ones with their acknowledgements.\<close>

fun tick_streams :: "('f, 'c) pulse_env \<Rightarrow> nat \<Rightarrow> nat \<Rightarrow> ('f, 'c) streams \<Rightarrow> 'f list \<Rightarrow>
    (pulse_message list \<times> pulse_message list \<times> ('f, 'c) streams \<times> 'f list) res" where
  "tick_streams env channels num_frames [] frame = Inr ([], [], [], frame)"
| "tick_streams env channels num_frames ((channel, s) # rest) frame =
     rbind (tick_stream env channels num_frames channel s frame) (\<lambda>(msgs, s', frame', drained_out).
     rbind (tick_streams env channels num_frames rest frame') (\<lambda>(msgs', acks, rest', frame'').
       Inr (msgs @ msgs',
            (if drained_out then (case ps_state s' of Draining seq \<Rightarrow> [AckMessage seq] | _ \<Rightarrow> []) else []) @ acks,
            (if drained_out then [] else [(channel, s')]) @ rest', frame'')))"

definition tick_client :: "('f, 'c) pulse_env \<Rightarrow> nat \<Rightarrow> nat \<Rightarrow> ('f, 'c) pulse_client \<Rightarrow> 'f list \<Rightarrow>
    (('f, 'c) pulse_client \<times> 'f list) res" where
  "tick_client env channels num_frames client frame =
     rbind (tick_streams env channels num_frames (pc_playback_streams client) frame)
       (\<lambda>(msgs, acks, streams', frame').
          Inr ((foldl (\<lambda>c m. send_message env m c) client (msgs @ acks))\<lparr>pc_playback_streams := streams'\<rparr>, frame'))"

fun tick_clients :: "('f, 'c) pulse_env \<Rightarrow> nat \<Rightarrow> nat \<Rightarrow> (nat \<times> ('f, 'c) pulse_client) list \<Rightarrow> 'f list \<Rightarrow>
    ((nat \<times> ('f, 'c) pulse_client) list \<times> 'f list) res" where
  "tick_clients env channels num_frames [] frame = Inr ([], frame)"
| "tick_clients env channels num_frames ((token, client) # rest) frame =
     rbind (tick_client env channels num_frames client frame) (\<lambda>(client', frame').
     rbind (tick_clients env channels num_frames rest frame') (\<lambda>(rest', frame'').
       Inr ((token, client') # rest', frame'')))"

definition apply_sink_volume :: "('f, 'c) pulse_env \<Rightarrow> 'f server_state \<Rightarrow> 'f list \<Rightarrow> 'f list res" where
  "apply_sink_volume env server frame =
     (if sv_sink_muted server then Inr (replicate (length frame) (fo_zero (pe_ops env)))
      else if list_ex (\<lambda>v. v \<noteq> fo_one (pe_ops env)) (sv_sink_volume server) then
        (let vol = sv_sink_volume server in
         Inr (map (\<lambda>i. fo_mul (pe_ops env) (frame ! i) (vol ! (i mod length vol))) [0..<length frame]))
      else Inr frame)"

datatype recycle_answer = RecycledFrame | NoFrame | RecycleDisconnected
datatype frame_answer = FrameTaken | FrameQueueFull | FrameReceiverGone

definition clock_tick :: "('f, 'c) pulse_env \<Rightarrow> recycle_answer \<Rightarrow> frame_answer \<Rightarrow> (nat \<Rightarrow> nat \<Rightarrow> write_answer) \<Rightarrow>
    ('f, 'c) pulse_server \<Rightarrow> (('f, 'c) pulse_server \<times> 'f list option) res" where
  "clock_tick env recycle taken writes srv =
     (if recycle = RecycleDisconnected then Inr (srv, None)
      else
        let channels = unat (sv_capture_channels (srv_state srv));
            num_frames = CAPTURE_SAMPLE_RATE div srv_clock_rate_hz srv;
            frame = replicate (num_frames * channels) (fo_zero (pe_ops env));
            spare = (if recycle = NoFrame then False else srv_spare_frame srv) in
        rbind (tick_clients env channels num_frames (srv_clients srv) frame) (\<lambda>(clients', frame').
        let srv1 = srv\<lparr>srv_clients := clients', srv_spare_frame := spare\<rparr>;
            srv2 = foldl (\<lambda>s t. flush_client (writes t) t s) srv1 (map fst clients') in
        rbind (apply_sink_volume env (srv_state srv) frame') (\<lambda>out.
          case taken of
            FrameTaken \<Rightarrow> Inr (srv2, Some out)
          | FrameQueueFull \<Rightarrow> Inr (srv2\<lparr>srv_spare_frame := True\<rparr>, None)
          | FrameReceiverGone \<Rightarrow> Inr (srv2, None))))"

section \<open>The event loop\<close>

datatype timer_answer = TimerRead recycle_answer frame_answer "nat \<Rightarrow> nat \<Rightarrow> write_answer"
  | TimerWouldBlock | TimerFailed

text \<open>What an event finds: the expired clock, connections to accept (then no more, or a failure), or a client's socket.\<close>

datatype server_event =
    ClockEvent timer_answer
  | ListenerEvent nat bool
  | ClientClosed nat
  | ClientReadable nat "nat \<Rightarrow> nat \<Rightarrow> read_answer" "nat \<Rightarrow> write_answer"
  | ClientWritable nat "nat \<Rightarrow> write_answer"

definition new_client :: "('f, 'c) pulse_env \<Rightarrow> nat \<Rightarrow> ('f, 'c) pulse_client" where
  "new_client env token =
     \<lparr>pc_id = word_of_nat token, pc_protocol_version = pe_max_version env, pc_props = None,
      pc_incoming = [], pc_outgoing = [], pc_writable_registered = False, pc_playback_streams = []\<rparr>"

fun accept_clients :: "('f, 'c) pulse_env \<Rightarrow> nat \<Rightarrow> ('f, 'c) pulse_server \<Rightarrow> ('f, 'c) pulse_server" where
  "accept_clients env 0 srv = srv"
| "accept_clients env (Suc n) srv =
     (let token = srv_next_client_token srv in
      accept_clients env n
        (srv\<lparr>srv_clients := srv_clients srv @ [(token, new_client env token)],
             srv_next_client_token := Suc token\<rparr>))"

text \<open>A readable event of a client that is gone is looked at as a writable one, which finds no client either.\<close>

fun handle_event :: "('f, 'c) pulse_env \<Rightarrow> wire \<Rightarrow> server_event \<Rightarrow> ('f, 'c) pulse_server \<Rightarrow>
    ('f, 'c) pulse_server res option" where
  "handle_event env wire (ClockEvent (TimerRead recycle taken writes)) srv =
     Some (rbind (clock_tick env recycle taken writes srv) (\<lambda>(srv', out). Inr srv'))"
| "handle_event env wire (ClockEvent TimerWouldBlock) srv = Some (Inr srv)"
| "handle_event env wire (ClockEvent TimerFailed) srv = Some (Inl Err)"
| "handle_event env wire (ListenerEvent n failed) srv =
     Some (if failed then Inl Err else Inr (accept_clients env n srv))"
| "handle_event env wire (ClientClosed token) srv = Some (Inr (remove_client token srv))"
| "handle_event env wire (ClientReadable token reads writes) srv =
     (case find_client token srv of
        None \<Rightarrow> Some (Inr srv)
      | Some client \<Rightarrow> recv env wire reads writes token client srv)"
| "handle_event env wire (ClientWritable token writes) srv =
     Some (Inr (flush_client writes token srv))"

end
