(* ===== verification/Pulse_Props.thy ===== *)
theory Pulse_Props
  imports Pulse_Server
begin

text \<open>
  Properties of the PulseAudio server: the accounting of every stream in every reachable state and that neither
  a tick nor a command panics there; when playback starts, when a drain is acknowledged, and when \<open>recv\<close> returns.
\<close>

section \<open>Streams and clients\<close>

text \<open>What the crate's sample sizes have to agree with: the bytes \<open>read_sample\<close> takes.\<close>

definition env_ok :: "('f, 'c) pulse_env \<Rightarrow> bool" where
  "env_ok env \<longleftrightarrow> (\<forall>f w. sample_width f = Some w \<longrightarrow> pe_bytes_per_sample env f = w)"

definition stream_inv :: "u8 \<Rightarrow> ('f, 'c) playback_stream \<Rightarrow> bool" where
  "stream_inv channels s \<longleftrightarrow>
     pb_sized (ps_buffer s) \<and> length (ps_volume s) = unat channels \<and> 0 \<le> ps_missing s \<and>
     ps_write_offset s = ps_read_offset s + pb_len_bytes (ps_buffer s) \<and>
     ps_played_bytes s \<le> ps_read_offset s"

definition client_inv :: "u8 \<Rightarrow> ('f, 'c) pulse_client \<Rightarrow> bool" where
  "client_inv channels client \<longleftrightarrow> (\<forall>s \<in> snd ` set (pc_playback_streams client). stream_inv channels s)"

definition server_state_inv :: "'f server_state \<Rightarrow> bool" where
  "server_state_inv server \<longleftrightarrow>
     sv_capture_channels server \<in> {2, 6, 8} \<and>
     sv_capture_spec server = \<lparr>ss_format = Float32Le, ss_channels = sv_capture_channels server, ss_sample_rate = 48000\<rparr> \<and>
     sv_sinks server \<noteq> [] \<and> length (sv_sink_volume server) = unat (sv_capture_channels server)"

definition server_inv :: "('f, 'c) pulse_server \<Rightarrow> bool" where
  "server_inv srv \<longleftrightarrow> server_state_inv (srv_state srv) \<and>
     (\<forall>c \<in> snd ` set (srv_clients srv). client_inv (sv_capture_channels (srv_state srv)) c) \<and>
     0 < srv_clock_rate_hz srv \<and> srv_clock_rate_hz srv \<le> 48000"

lemma send_message_streams [simp]:
  "pc_playback_streams (send_message env m client) = pc_playback_streams client"
  "pc_protocol_version (send_message env m client) = pc_protocol_version client"
  by (simp_all add: send_message_def)

lemma client_inv_send [simp]: "client_inv ch (send_message env m client) = client_inv ch client"
  by (simp add: client_inv_def)

lemma send_all_streams [simp]:
  "pc_playback_streams (foldl (\<lambda>c m. send_message env m c) client msgs) = pc_playback_streams client"
  by (induction msgs arbitrary: client) auto

lemma set_insert_sorted: "set (insert_sorted k v xs) \<subseteq> insert (k, v) (set xs)"
  by (induction k v xs rule: insert_sorted.induct) auto

lemma client_inv_set: "client_inv ch client \<Longrightarrow> stream_inv ch s \<Longrightarrow> client_inv ch (set_stream k s client)"
  using set_insert_sorted [of k s "pc_playback_streams client"] by (auto simp: client_inv_def set_stream_def)

lemma client_inv_remove: "client_inv ch client \<Longrightarrow> client_inv ch (remove_stream k client)"
  by (auto simp: client_inv_def remove_stream_def)

lemma client_inv_get: "client_inv ch client \<Longrightarrow> get_stream k client = Some s \<Longrightarrow> stream_inv ch s"
  by (force simp: client_inv_def get_stream_def dest: map_of_SomeD)

lemma client_inv_with:
  "client_inv ch client \<Longrightarrow> (\<And>s. stream_inv ch s \<Longrightarrow> stream_inv ch (g s)) \<Longrightarrow> client_inv ch (with_stream k g client)"
  by (auto simp: with_stream_def intro: client_inv_set dest: client_inv_get split: option.split)

lemma client_inv_for_index:
  "client_inv ch client \<Longrightarrow> (\<And>s. stream_inv ch s \<Longrightarrow> stream_inv ch (g s)) \<Longrightarrow> client_inv ch (for_stream_index i g client)"
  by (auto simp: client_inv_def for_stream_index_def)

lemmas client_inv_intros = client_inv_set client_inv_remove client_inv_with client_inv_for_index

lemma stream_pop_missing_inv:
  "stream_inv ch s \<Longrightarrow> stream_pop_missing p s = (req, s') \<Longrightarrow> stream_inv ch s'"
  by (auto simp: stream_inv_def stream_pop_missing_def pop_missing_def Let_def split: if_splits)

lemma stream_pop_missing_fields:
  "stream_pop_missing p s = (req, s') \<Longrightarrow>
     ps_state s' = ps_state s \<and> ps_buffer s' = ps_buffer s \<and> ps_buffer_attr s' = ps_buffer_attr s"
  by (auto simp: stream_pop_missing_def pop_missing_def Let_def split: if_splits)

lemma uncork_inv:
  assumes "stream_inv ch s" and "uncork_stream s = (req, s')"
  shows "stream_inv ch s'"
proof -
  let ?s = "s\<lparr>ps_missing := int (unat (ba_target_length (ps_buffer_attr s)) - pb_len_bytes (ps_buffer s)), ps_requested := 0\<rparr>"
  obtain r s2 where p: "stream_pop_missing True ?s = (r, s2)" by (rule prod.exhaust)
  have "stream_inv ch ?s" using assms(1) by (simp add: stream_inv_def)
  from stream_pop_missing_inv [OF this p] assms(2) p show ?thesis
    by (auto simp: uncork_stream_def Let_def stream_inv_def)
qed

lemma cork_inv: "client_inv ch client \<Longrightarrow> client_inv ch (cork_playback_stream env k c client)"
proof (cases "get_stream k client")
  case (Some s)
  assume inv: "client_inv ch client"
  then have s: "stream_inv ch s" using Some client_inv_get by blast
  obtain req s' where u: "uncork_stream s = (req, s')" by (rule prod.exhaust)
  have "stream_inv ch (s\<lparr>ps_state := Corked\<rparr>)" using s by (simp add: stream_inv_def)
  with inv s Some u uncork_inv [OF s u] show ?thesis
    by (auto simp: cork_playback_stream_def intro!: client_inv_set)
qed (simp add: cork_playback_stream_def)

lemma flush_stream_inv: "stream_inv ch s \<Longrightarrow> stream_inv ch (flush_stream s)"
  by (auto simp: stream_inv_def flush_stream_def)

lemma enter_prebuffering_inv: "stream_inv ch s \<Longrightarrow> stream_inv ch (enter_prebuffering s)"
  by (simp add: stream_inv_def enter_prebuffering_def)

lemma stream_write_inv:
  "stream_inv ch s \<Longrightarrow> stream_write env k payload s = (msgs, s') \<Longrightarrow> stream_inv ch s'"
  by (auto simp: stream_inv_def stream_write_def Let_def split: prod.splits)

lemma handle_stream_write_inv:
  assumes "client_inv ch client" and "handle_stream_write env k payload client = Inr client'"
  shows "client_inv ch client'"
proof -
  from assms(2) obtain s where s: "get_stream k client = Some s"
    by (auto simp: handle_stream_write_def split: option.splits)
  obtain msgs s' where w: "stream_write env k payload s = (msgs, s')" by (rule prod.exhaust)
  have "stream_inv ch s'" using stream_write_inv client_inv_get assms(1) s w by metis
  moreover have "client_inv ch (foldl (\<lambda>c m. send_message env m c) client msgs)"
    using assms(1) by (simp add: client_inv_def)
  moreover have "client' = set_stream k s' (foldl (\<lambda>c m. send_message env m c) client msgs)"
    using assms(2) s w by (simp add: handle_stream_write_def)
  ultimately show ?thesis using client_inv_set by blast
qed

lemma handle_stream_write_not_Panic: "handle_stream_write env k payload client \<noteq> Inl Panic"
  by (auto simp: handle_stream_write_def split: option.splits prod.splits)

lemma length_cvolume [simp]: "length (cvolume_to_linear env v ch) = unat ch"
  by (simp add: cvolume_to_linear_def)

section \<open>Creating streams\<close>

lemma supported_width: "is_supported_format f \<longleftrightarrow> (\<exists>w. sample_width f = Some w)"
  by (cases f) (auto simp: is_supported_format_def)

text \<open>The panics of \<open>configure_buffer\<close>: a frame of no bytes, or a smallest request of 0.\<close>

lemma configure_buffer_frame_size:
  "configure_buffer bps spec attr = Inr attr' \<Longrightarrow> word_of_nat (unat (ss_channels spec) * bps (ss_format spec)) \<noteq> (0 :: u32)"
  by (auto simp: configure_buffer_def configure_min_request_def next_multiple_of_def Let_def rbind_eq_Inr
      split: if_splits)

lemma next_multiple_of_not_Err [simp]: "next_multiple_of a b \<noteq> Inl Err"
  by (simp add: next_multiple_of_def)

lemma rbind_not_Err: "m \<noteq> Inl Err \<Longrightarrow> (\<And>x. g x \<noteq> Inl Err) \<Longrightarrow> rbind m g \<noteq> Inl Err"
  by (cases m) auto

lemma configure_buffer_not_Err: "configure_buffer bps spec attr \<noteq> Inl Err"
  unfolding configure_buffer_def Let_def
  by (intro rbind_not_Err)
    (simp_all add: configure_max_length_def configure_min_request_def configure_target_def configure_prebuf_def
      rbind_not_Err Let_def)

lemma dyn_new_ok:
  assumes "sv_capture_spec server = \<lparr>ss_format = Float32Le, ss_channels = ch, ss_sample_rate = 48000\<rparr>" and "ch \<in> {2, 6, 8}"
    and "sample_width (ss_format spec) = Some w" "bps (ss_format spec) = w"
    and "0 < unat (ss_channels spec)"
  shows "\<exists>pb. dyn_new ops conv bps spec cmap (sv_capture_spec server) = Inr pb \<and> pb_sized pb \<and> pb_len_bytes pb = 0"
proof -
  have "unat ch = dyn_channels ch" using assms(2) by (auto simp: dyn_channels_def)
  with assms show ?thesis
    by (auto simp: dyn_new_def playback_new_def Let_def buffer_new_def pb_sized_def sized_def
        pb_len_bytes_def len_bytes_def)
qed

lemma create_playback_stream_ok:
  assumes env: "env_ok env" and inv: "client_inv (sv_capture_channels server) client" "server_state_inv server"
  shows "create_playback_stream env seq params (client, server) = Inl Panic \<or>
    (\<exists>client' server'. create_playback_stream env seq params (client, server) = Inr (client', server') \<and>
       client_inv (sv_capture_channels server) client' \<and> server_state_inv server' \<and>
       sv_capture_channels server' = sv_capture_channels server)"
proof (cases "is_supported_format (ss_format (resolve_spec params))")
  case False
  then show ?thesis using inv by (simp add: create_playback_stream_def Let_def)
next
  case True
  then obtain w where w: "sample_width (ss_format (resolve_spec params)) = Some w"
    using supported_width by blast
  define fixed where "fixed = (if cp_fix_channels params
     then ((resolve_spec params)\<lparr>ss_channels := ss_channels (sv_capture_spec server)\<rparr>, sk_channel_map (hd (sv_sinks server)))
     else (resolve_spec params, cp_channel_map params))"
  obtain spec cmap where f: "fixed = (spec, cmap)" by (rule prod.exhaust)
  have sp: "ss_format spec = ss_format (resolve_spec params)"
    using f by (auto simp: fixed_def split: if_splits)
  have bps: "pe_bytes_per_sample env (ss_format spec) = w" using env w sp by (simp add: env_ok_def)
  show ?thesis
  proof (cases "configure_buffer (pe_bytes_per_sample env) spec (cp_buffer_attr params)")
    case (Inl e)
    with configure_buffer_not_Err have "e = Panic" by (metis failure.exhaust)
    with Inl True f show ?thesis
      by (simp add: create_playback_stream_def Let_def flip: fixed_def)
  next
    case (Inr attr)
    have "unat (ss_channels spec) \<noteq> 0"
      using configure_buffer_frame_size [OF Inr] by (metis mult_0 of_nat_0)
    then have "\<exists>pb. dyn_new (pe_ops env) (pe_conv env) (pe_bytes_per_sample env) spec cmap (sv_capture_spec server) = Inr pb \<and>
        pb_sized pb \<and> pb_len_bytes pb = 0"
      using inv(2) w sp bps
      by (intro dyn_new_ok [where ch = "sv_capture_channels server" and w = w]) (auto simp: server_state_inv_def)
    then obtain pb where pb: "dyn_new (pe_ops env) (pe_conv env) (pe_bytes_per_sample env) spec cmap (sv_capture_spec server) = Inr pb"
      "pb_sized pb" "pb_len_bytes pb = 0" by blast
    define s where "s = new_stream env params server spec pb attr"
    have s: "stream_inv (sv_capture_channels server) s"
      using pb by (simp add: s_def new_stream_def stream_inv_def)
    obtain req s' where p: "stream_pop_missing (is_prebuffering (ps_state s)) s = (req, s')" by (rule prod.exhaust)
    have "\<exists>client'. create_playback_stream env seq params (client, server) = Inr (client',
        server\<lparr>sv_next_playback_channel_index := sv_next_playback_channel_index server + 1,
           sv_next_stream_index := sv_next_stream_index server + 1\<rparr>) \<and> client_inv (sv_capture_channels server) client'"
      using True f Inr pb(1) p client_inv_set [OF inv(1) stream_pop_missing_inv [OF s p]]
      by (simp add: create_playback_stream_def Let_def flip: fixed_def s_def)
    then show ?thesis using inv(2) by (auto simp: server_state_inv_def)
  qed
qed

section \<open>Commands keep the invariant\<close>

definition state_inv :: "u8 \<Rightarrow> ('f, 'c) pulse_state \<Rightarrow> bool" where
  "state_inv ch = (\<lambda>(client, server). client_inv ch client \<and> server_state_inv server \<and> sv_capture_channels server = ch)"

text \<open>An outcome of a command: the invariant again, or a panic, which only the buffer attributes of a new or
  reconfigured stream can cause.\<close>

definition configures_buffer :: "pulse_command \<Rightarrow> bool" where
  "configures_buffer cmd \<longleftrightarrow>
     (case cmd of CreatePlaybackStream params \<Rightarrow> True | SetPlaybackStreamBufferAttr channel attr \<Rightarrow> True | _ \<Rightarrow> False)"

definition command_outcome :: "u8 \<Rightarrow> pulse_command \<Rightarrow> ('f, 'c) pulse_state res \<Rightarrow> bool" where
  "command_outcome ch cmd r \<longleftrightarrow>
     (case r of Inr st \<Rightarrow> state_inv ch st | Inl e \<Rightarrow> e = Panic \<and> configures_buffer cmd)"

lemma client_inv_fields [simp]:
  "client_inv ch (client\<lparr>pc_protocol_version := v\<rparr>) = client_inv ch client"
  "client_inv ch (client\<lparr>pc_props := ps\<rparr>) = client_inv ch client"
  "client_inv ch (client\<lparr>pc_incoming := b\<rparr>) = client_inv ch client"
  by (simp_all add: client_inv_def)

lemma set_buffer_attr_inv:
  assumes "stream_inv ch s"
  shows "set_buffer_attr env attr s = Inl Panic \<or> (\<exists>s'. set_buffer_attr env attr s = Inr s' \<and> stream_inv ch s')"
proof (cases "configure_buffer (pe_bytes_per_sample env) (bf_sample_spec (pb_buffer (ps_buffer s))) attr")
  case (Inl e)
  then have "e = Panic" using configure_buffer_not_Err by (metis failure.exhaust)
  with Inl show ?thesis by (simp add: set_buffer_attr_def)
next
  case (Inr attr')
  with assms show ?thesis by (simp add: set_buffer_attr_def stream_inv_def)
qed

lemma handle_command_outcome:
  assumes "env_ok env" and "state_inv ch (client, server)"
  shows "command_outcome ch cmd (handle_command env seq cmd (client, server))"
proof -
  have inv: "client_inv ch client" "server_state_inv server" "sv_capture_channels server = ch"
    using assms(2) by (simp_all add: state_inv_def)
  have out: "command_outcome ch cmd (Inr (client', server'))"
    if "client_inv ch client'" "server_state_inv server'" "sv_capture_channels server' = ch" for client' server'
    using that by (simp add: command_outcome_def state_inv_def)
  have vol: "stream_inv ch (s\<lparr>ps_volume := cvolume_to_linear env v (sv_capture_channels server)\<rparr>)"
    "stream_inv ch (s\<lparr>ps_muted := m\<rparr>)" "stream_inv ch (s\<lparr>ps_state := st\<rparr>)"
    if "stream_inv ch s" for s v m st using that inv(3) by (auto simp: stream_inv_def)
  show ?thesis
  proof (cases cmd)
    case (CreatePlaybackStream params)
    from create_playback_stream_ok [OF assms(1) _ inv(2), of client seq params] inv CreatePlaybackStream show ?thesis
      by (auto simp: command_outcome_def state_inv_def configures_buffer_def)
  next
    case (DrainPlaybackStream k)
    show ?thesis
    proof (cases "get_stream k client")
      case (Some s)
      note o = out [OF client_inv_set [OF inv(1) vol(3) [OF client_inv_get [OF inv(1) Some]]] inv(2,3)]
      from Some show ?thesis by (simp add: DrainPlaybackStream o [unfolded DrainPlaybackStream])
    next
      case None
      with inv show ?thesis by (auto simp: DrainPlaybackStream command_outcome_def state_inv_def)
    qed
  next
    case (CorkPlaybackStream k c)
    then show ?thesis using inv by (auto simp: command_outcome_def state_inv_def intro!: cork_inv)
  next
    case (FlushPlaybackStream k)
    then show ?thesis using inv by (auto simp: command_outcome_def state_inv_def intro!: client_inv_with flush_stream_inv)
  next
    case (SetSinkInputVolume k v)
    then show ?thesis using inv vol by (auto simp: command_outcome_def state_inv_def intro!: client_inv_for_index)
  next
    case (SetSinkInputMute k m)
    then show ?thesis using inv vol by (auto simp: command_outcome_def state_inv_def intro!: client_inv_for_index)
  next
    case (DeletePlaybackStream k)
    then show ?thesis using inv by (auto simp: command_outcome_def state_inv_def intro!: client_inv_remove)
  next
    case (TriggerPlaybackStream k)
    then show ?thesis using inv vol by (auto simp: command_outcome_def state_inv_def intro!: client_inv_with)
  next
    case (PrebufPlaybackStream k)
    then show ?thesis using inv by (auto simp: command_outcome_def state_inv_def intro!: client_inv_with enter_prebuffering_inv)
  next
    case (SetPlaybackStreamBufferAttr k attr)
    show ?thesis
    proof (cases "get_stream k client")
      case None
      with SetPlaybackStreamBufferAttr inv show ?thesis by (auto simp: command_outcome_def state_inv_def)
    next
      case (Some s)
      from set_buffer_attr_inv [OF client_inv_get [OF inv(1) Some], of env attr] show ?thesis
      proof (elim disjE exE conjE)
        assume "set_buffer_attr env attr s = Inl Panic"
        with Some SetPlaybackStreamBufferAttr show ?thesis by (simp add: command_outcome_def configures_buffer_def)
      next
        fix s' assume "set_buffer_attr env attr s = Inr s'" "stream_inv ch s'"
        with Some SetPlaybackStreamBufferAttr inv show ?thesis by (auto simp: command_outcome_def state_inv_def intro!: client_inv_set)
      qed
    qed
  next
    case (SetSinkVolume v)
    then show ?thesis using inv by (auto simp: command_outcome_def state_inv_def server_state_inv_def)
  next
    case (SetSinkMute m)
    then show ?thesis using inv by (auto simp: command_outcome_def state_inv_def server_state_inv_def)
  qed (use inv in \<open>auto simp: command_outcome_def state_inv_def split: option.split if_split\<close>)
qed

section \<open>Receiving keeps the invariant\<close>

lemma handle_pulse_message_inv:
  assumes "env_ok env" "state_inv ch st" and "handle_pulse_message env wire k payload st = Inr st'"
  shows "state_inv ch st'"
proof -
  obtain client server where st: "st = (client, server)" by (rule prod.exhaust)
  show ?thesis
  proof (cases "k = - 1")
    case False
    with assms(2,3) st show ?thesis
      by (auto simp: handle_pulse_message_def rbind_eq_Inr state_inv_def dest: handle_stream_write_inv)
  next
    case True
    show ?thesis
    proof (cases "pw_read_command wire payload (pc_protocol_version client)")
      case (Decoded seq cmd)
      from handle_command_outcome [OF assms(1) assms(2) [unfolded st], of cmd seq] Decoded True assms(3) st
      show ?thesis by (simp add: handle_pulse_message_def command_outcome_def)
    qed (use True assms(2,3) st in \<open>auto simp: handle_pulse_message_def state_inv_def\<close>)
  qed
qed

definition server_part :: "u8 \<Rightarrow> 'f server_state \<Rightarrow> bool" where
  "server_part ch server \<longleftrightarrow> server_state_inv server \<and> sv_capture_channels server = ch"

lemma process_incoming_inv:
  assumes "env_ok env" "state_inv ch st"
  shows "case process_incoming env wire inc st of
      Inr (inc', st', n) \<Rightarrow> state_inv ch st' | Inl (e, server) \<Rightarrow> server_part ch server"
  using assms
proof (induction env wire inc st rule: process_incoming.induct)
  case (1 env wire inc st)
  show ?case
  proof (cases "length inc < DESCRIPTOR_SIZE")
    case True
    with "1.prems" show ?thesis by (subst process_incoming.simps) simp
  next
    case False
    have fail: "server_part ch (snd st)" using "1.prems"(2) by (cases st) (simp add: state_inv_def server_part_def)
    show ?thesis
    proof (cases "pw_read_descriptor wire (take DESCRIPTOR_SIZE inc)")
      case None
      with False fail show ?thesis by (subst process_incoming.simps) simp
    next
      case (Some d)
      obtain len k where d: "d = (len, k)" by (rule prod.exhaust)
      show ?thesis
      proof (cases "MAX_PAYLOAD_SIZE < unat len \<or> length inc < unat len + DESCRIPTOR_SIZE")
        case True
        with False Some d fail "1.prems" show ?thesis by (subst process_incoming.simps) auto
      next
        case nb: False
        show ?thesis
        proof (cases "handle_pulse_message env wire k (slice DESCRIPTOR_SIZE (DESCRIPTOR_SIZE + unat len) inc) st")
          case (Inl e)
          with False Some d nb fail show ?thesis by (subst process_incoming.simps) simp
        next
          case (Inr st')
          have "state_inv ch st'" by (rule handle_pulse_message_inv [OF "1.prems" Inr])
          with "1.IH" [OF False Some d [symmetric] _ _ Inr] "1.prems" False Some d nb Inr show ?thesis
            by (subst process_incoming.simps) simp
        qed
      qed
    qed
  qed
qed

lemma recv_loop_inv:
  assumes "recv_loop env wire net i n inc st = Some r" and "env_ok env" "state_inv ch st"
  shows "case r of Inr (inc', st') \<Rightarrow> state_inv ch st' | Inl (e, server) \<Rightarrow> server_part ch server"
  using assms
proof (induction rule: recv_loop.raw_induct [rotated, consumes 1, case_names step])
  case (step recv env wire net i n inc st r)
  have fail: "server_part ch (snd st)" using step.prems by (cases st) (simp add: state_inv_def server_part_def)
  show ?case
  proof (cases "net i n")
    case (ReadBytes bs)
    note p = process_incoming_inv [OF step.prems, of wire "inc @ bs"]
    show ?thesis
    proof (cases "process_incoming env wire (inc @ bs) st")
      case (Inl e)
      with step.hyps ReadBytes p show ?thesis by auto
    next
      case (Inr x)
      obtain inc' st' n' where x: "x = (inc', st', n')" by (rule prod_cases3)
      with step.hyps ReadBytes Inr have "recv env wire net (Suc i) n' inc' st' = Some r" by simp
      moreover have "state_inv ch st'" using p Inr x by simp
      ultimately show ?thesis using step.IH step.prems by blast
    qed
  qed (use step.hyps step.prems fail in auto)
qed

section \<open>Ticks keep the invariant and do not panic\<close>

lemma pb_is_empty_ok: "pb_sized pb \<Longrightarrow> \<exists>b. pb_is_empty pb = Inr b"
  by (simp add: pb_is_empty_def pb_len_frames_def pb_sized_def sized_len_frames)

text \<open>A stream of more than 32 channels.\<close>

definition wide_stream :: "('f, 'c) playback_stream \<Rightarrow> bool" where
  "wide_stream s \<longleftrightarrow> wide (pb_buffer (ps_buffer s))"

lemma tick_drain_ok:
  assumes s: "stream_inv ch s" and ch: "ch \<in> {2, 6, 8}"
  shows "channels = 2 \<and> wide_stream s \<and> tick_drain env channels n k s frame = Inl Panic \<or>
    (\<exists>msgs s' frame' b. tick_drain env channels n k s frame = Inr (msgs, s', frame', b) \<and>
      stream_inv ch s' \<and> length frame' = length frame)"
proof -
  define vol where "vol = (if ps_muted s then replicate (length (ps_volume s)) (fo_zero (pe_ops env)) else ps_volume s)"
  have l: "length (ps_volume s) = unat ch" "unat ch \<le> 8" "unat ch \<noteq> 0"
    using s ch by (auto simp: stream_inv_def)
  then have v: "vol \<noteq> []" by (auto simp: vol_def)
  have sized: "pb_sized (ps_buffer s)" using s by (simp add: stream_inv_def)
  show ?thesis
  proof (cases "ps_state s = Playing \<or> (\<exists>seq. ps_state s = Draining seq)")
    case False
    then show ?thesis using s by (auto simp: tick_drain_def Let_def split: stream_state.splits)
  next
    case playing: True
    show ?thesis
    proof (rule drain_and_mix_sized [OF sized v, of "pe_ops env" "pe_conv env" channels n frame])
      assume "drain_and_mix (pe_ops env) (pe_conv env) channels n frame vol (ps_buffer s) = Inl Panic" "channels = 2"
        "wide (pb_buffer (ps_buffer s))"
      then show ?thesis using playing l by (auto simp: tick_drain_def Let_def wide_stream_def simp flip: vol_def)
    next
      fix drained frame' pb'
      assume d: "drain_and_mix (pe_ops env) (pe_conv env) channels n frame vol (ps_buffer s) = Inr (drained, frame', pb')"
        "pb_sized pb'" "length frame' = length frame" "\<not> drained \<longrightarrow> pb' = ps_buffer s \<and> frame' = frame"
        "pb_len_bytes pb' \<le> pb_len_bytes (ps_buffer s)"
      obtain e where e: "pb_is_empty pb' = Inr e" using pb_is_empty_ok [OF d(2)] by blast
      have same: "stream_inv ch (s\<lparr>ps_buffer := pb'\<rparr>)" if "\<not> drained"
        using that d(4) s by simp
      have moved: "stream_inv ch (s\<lparr>ps_buffer := pb', ps_read_offset := ps_read_offset s + (pb_len_bytes (ps_buffer s) - pb_len_bytes pb'),
          ps_played_bytes := ps_played_bytes s + (pb_len_bytes (ps_buffer s) - pb_len_bytes pb'),
          ps_missing := ps_missing s + int (pb_len_bytes (ps_buffer s) - pb_len_bytes pb')\<rparr>)"
        using s d(2,5) unfolding stream_inv_def by (simp, linarith)
      from playing show ?thesis
        using l d(1,3) e same moved enter_prebuffering_inv
        by (cases drained) (auto simp: tick_drain_def Let_def simp flip: vol_def)
    qed
  qed
qed

text \<open>A stream of more than 32 channels at the output rate that has the data of a tick stops a stereo server.\<close>

definition overflows :: "nat \<Rightarrow> ('f, 'c) playback_stream \<Rightarrow> bool" where
  "overflows n s \<longleftrightarrow> (ps_state s = Playing \<or> (\<exists>seq. ps_state s = Draining seq)) \<and>
     (\<exists>b. ps_buffer s = Passthrough b \<and> 32 < unat (ss_channels (bf_sample_spec b)) \<and> n * frame_bytes b \<le> len_bytes b)"

lemma tick_drain_panics:
  assumes "stream_inv ch s" and "ch \<in> {2, 6, 8}" and "overflows n s" and "0 < n"
  shows "tick_drain env 2 n k s frame = Inl Panic"
proof -
  obtain b where b: "ps_buffer s = Passthrough b" "wide b" "n * frame_bytes b \<le> len_bytes b"
    using assms(3) by (auto simp: overflows_def wide_def)
  have "sized b" "length (ps_volume s) \<le> 8" using assms(1,2) b(1) by (auto simp: stream_inv_def pb_sized_def)
  then show ?thesis
    using assms(3) b drain_and_mix_wide_panics [OF _ b(2) assms(4) b(3), of "pe_ops env" "pe_conv env"] by (auto simp: tick_drain_def Let_def overflows_def)
qed

lemma tick_request_inv:
  "stream_inv ch s \<Longrightarrow> tick_request k s = (msgs, s') \<Longrightarrow> stream_inv ch s'"
  by (auto simp: tick_request_def split: if_splits prod.splits dest: stream_pop_missing_inv)

lemma tick_streams_ok:
  assumes "ch \<in> {2, 6, 8}" and "\<forall>s \<in> snd ` set streams. stream_inv ch s"
  shows "channels = 2 \<and> (\<exists>s \<in> snd ` set streams. wide_stream s) \<and> tick_streams env channels n streams frame = Inl Panic \<or>
    (\<exists>msgs acks streams' frame'. tick_streams env channels n streams frame = Inr (msgs, acks, streams', frame') \<and>
      (\<forall>s \<in> snd ` set streams'. stream_inv ch s) \<and> length frame' = length frame)"
  using assms(2)
proof (induction streams arbitrary: frame)
  case Nil
  then show ?case by simp
next
  case (Cons x streams)
  obtain k s where x: "x = (k, s)" by (rule prod.exhaust)
  with Cons.prems have s: "stream_inv ch s" by simp
  from tick_drain_ok [OF s assms(1), of channels env n k frame] show ?case
  proof (elim disjE exE conjE)
    fix m1 s1 f1 b assume d: "tick_drain env channels n k s frame = Inr (m1, s1, f1, b)" "stream_inv ch s1" "length f1 = length frame"
    obtain m2 s2 where r: "tick_request k s1 = (m2, s2)" by (rule prod.exhaust)
    have s2: "stream_inv ch s2" by (rule tick_request_inv [OF d(2) r])
    have "\<forall>s \<in> snd ` set streams. stream_inv ch s" using Cons.prems by simp
    from Cons.IH [OF this, of f1] x d r s2 show ?thesis by (auto simp: tick_stream_def)
  qed (use x in \<open>simp add: tick_stream_def\<close>)
qed

lemma tick_streams_panics:
  assumes "ch \<in> {2, 6, 8}" and "\<forall>s \<in> snd ` set streams. stream_inv ch s" and "0 < n" and "\<exists>s \<in> snd ` set streams. overflows n s"
  shows "tick_streams env 2 n streams frame = Inl Panic"
  using assms(2,4)
proof (induction streams arbitrary: frame)
  case (Cons x streams)
  obtain k s where x: "x = (k, s)" by (rule prod.exhaust)
  with Cons.prems have s: "stream_inv ch s" by simp
  show ?case
  proof (cases "overflows n s")
    case True
    then show ?thesis using tick_drain_panics [OF s assms(1) True assms(3)] x by (simp add: tick_stream_def)
  next
    case False
    then have "\<exists>s \<in> snd ` set streams. overflows n s" using Cons.prems(2) x by auto
    then have "tick_streams env 2 n streams f = Inl Panic" for f using Cons.IH Cons.prems(1) by simp
    with tick_drain_ok [OF s assms(1), of 2 env n k frame] x show ?thesis by (auto simp: tick_stream_def split: prod.splits)
  qed
qed simp

definition some_stream :: "(('f, 'c) playback_stream \<Rightarrow> bool) \<Rightarrow> (nat \<times> ('f, 'c) pulse_client) list \<Rightarrow> bool" where
  "some_stream P clients \<longleftrightarrow> (\<exists>c \<in> snd ` set clients. \<exists>s \<in> snd ` set (pc_playback_streams c). P s)"

lemma tick_clients_ok:
  assumes "ch \<in> {2, 6, 8}" and "\<forall>c \<in> snd ` set clients. client_inv ch c"
  shows "channels = 2 \<and> some_stream wide_stream clients \<and> tick_clients env channels n clients frame = Inl Panic \<or>
    (\<exists>clients' frame'. tick_clients env channels n clients frame = Inr (clients', frame') \<and>
      (\<forall>c \<in> snd ` set clients'. client_inv ch c) \<and> length frame' = length frame)"
  using assms(2)
proof (induction clients arbitrary: frame)
  case Nil
  then show ?case by simp
next
  case (Cons x clients)
  obtain t c where x: "x = (t, c)" by (rule prod.exhaust)
  with Cons.prems have inv: "\<forall>s \<in> snd ` set (pc_playback_streams c). stream_inv ch s" by (simp add: client_inv_def)
  from tick_streams_ok [OF assms(1) inv, of channels env n frame] show ?case
  proof (elim disjE exE conjE)
    fix msgs acks st f
    assume "tick_streams env channels n (pc_playback_streams c) frame = Inr (msgs, acks, st, f)"
      "\<forall>s \<in> snd ` set st. stream_inv ch s" "length f = length frame"
    moreover have "\<forall>c \<in> snd ` set clients. client_inv ch c" using Cons.prems by simp
    from Cons.IH [OF this, of f] calculation x show ?thesis
      by (auto simp: tick_client_def client_inv_def some_stream_def)
  qed (use x in \<open>auto simp: tick_client_def some_stream_def\<close>)
qed

lemma tick_clients_panics:
  assumes "ch \<in> {2, 6, 8}" and "\<forall>c \<in> snd ` set clients. client_inv ch c" and "0 < n" and "some_stream (overflows n) clients"
  shows "tick_clients env 2 n clients frame = Inl Panic"
  using assms(2,4)
proof (induction clients arbitrary: frame)
  case (Cons x clients)
  obtain t c where x: "x = (t, c)" by (rule prod.exhaust)
  with Cons.prems have inv: "\<forall>s \<in> snd ` set (pc_playback_streams c). stream_inv ch s" by (simp add: client_inv_def)
  show ?case
  proof (cases "\<exists>s \<in> snd ` set (pc_playback_streams c). overflows n s")
    case True
    then show ?thesis using tick_streams_panics [OF assms(1) inv assms(3) True] x by (simp add: tick_client_def)
  next
    case False
    then have "some_stream (overflows n) clients" using Cons.prems(2) x by (auto simp: some_stream_def)
    then have "tick_clients env 2 n clients f = Inl Panic" for f using Cons.IH Cons.prems(1) by simp
    with tick_streams_ok [OF assms(1) inv, of 2 env n frame] x show ?thesis by (auto simp: tick_client_def)
  qed
qed (simp add: some_stream_def)

lemma flush_one_streams: "flush_one net c = Some c' \<Longrightarrow> pc_playback_streams c' = pc_playback_streams c"
  by (auto simp: flush_one_def split: if_splits prod.splits flush_result.splits)

lemma server_inv_remove: "server_inv srv \<Longrightarrow> server_inv (remove_client t srv)"
  by (auto simp: server_inv_def remove_client_def)

lemma server_inv_update:
  "server_inv srv \<Longrightarrow> client_inv (sv_capture_channels (srv_state srv)) c \<Longrightarrow> server_inv (update_client t c srv)"
  by (auto simp: server_inv_def update_client_def split: if_splits)

lemma server_inv_find:
  "server_inv srv \<Longrightarrow> find_client t srv = Some c \<Longrightarrow> client_inv (sv_capture_channels (srv_state srv)) c"
  by (force simp: server_inv_def find_client_def dest: map_of_SomeD)

lemma flush_client_inv:
  assumes "server_inv srv"
  shows "server_inv (flush_client net t srv)"
proof (cases "find_client t srv")
  case (Some c)
  show ?thesis
  proof (cases "flush_one net c")
    case None
    with Some assms show ?thesis by (simp add: flush_client_def server_inv_remove)
  next
    case (Some c')
    have "client_inv (sv_capture_channels (srv_state srv)) c'"
      using server_inv_find [OF assms \<open>find_client t srv = Some c\<close>] flush_one_streams [OF Some] by (simp add: client_inv_def)
    with Some \<open>find_client t srv = Some c\<close> assms show ?thesis by (simp add: flush_client_def server_inv_update)
  qed
qed (use assms in \<open>simp add: flush_client_def\<close>)

lemma flush_all_inv: "server_inv srv \<Longrightarrow> server_inv (foldl (\<lambda>s t. flush_client (writes t) t s) srv ts)"
  by (induction ts arbitrary: srv) (auto intro: flush_client_inv)

lemma clock_tick_ok:
  assumes "server_inv srv"
  shows "sv_capture_channels (srv_state srv) = 2 \<and> some_stream wide_stream (srv_clients srv) \<and>
      clock_tick env recycle taken writes srv = Inl Panic \<or>
    (\<exists>srv' out. clock_tick env recycle taken writes srv = Inr (srv', out) \<and> server_inv srv' \<and>
      (\<forall>f. out = Some f \<longrightarrow> length f = 48000 div srv_clock_rate_hz srv * unat (sv_capture_channels (srv_state srv))))"
proof (cases "recycle = RecycleDisconnected")
  case True
  with assms show ?thesis by (simp add: clock_tick_def)
next
  case False
  let ?ch = "sv_capture_channels (srv_state srv)"
  let ?n = "48000 div srv_clock_rate_hz srv"
  have ch: "?ch \<in> {2, 6, 8}" "\<forall>c \<in> snd ` set (srv_clients srv). client_inv ?ch c"
    using assms by (simp_all add: server_inv_def server_state_inv_def)
  from tick_clients_ok [OF ch, of "unat ?ch" env ?n "replicate (?n * unat ?ch) (fo_zero (pe_ops env))"] show ?thesis
  proof (elim disjE exE conjE)
    assume "unat ?ch = 2" "some_stream wide_stream (srv_clients srv)"
      "tick_clients env (unat ?ch) ?n (srv_clients srv) (replicate (?n * unat ?ch) (fo_zero (pe_ops env))) = Inl Panic"
    moreover have "?ch = 2" using ch(1) \<open>unat ?ch = 2\<close> by auto
    ultimately show ?thesis using False by (simp add: clock_tick_def Let_def CAPTURE_SAMPLE_RATE_def)
  next
    fix cl f
    assume t: "tick_clients env (unat ?ch) ?n (srv_clients srv) (replicate (?n * unat ?ch) (fo_zero (pe_ops env))) = Inr (cl, f)"
      "\<forall>c \<in> snd ` set cl. client_inv ?ch c" "length f = length (replicate (?n * unat ?ch) (fo_zero (pe_ops env)))"
    have "\<exists>out. apply_sink_volume env (srv_state srv) f = Inr out \<and> length out = length f"
      by (simp add: apply_sink_volume_def Let_def)
    then obtain out where out: "apply_sink_volume env (srv_state srv) f = Inr out" "length out = length f" by blast
    define srv1 where "srv1 = srv\<lparr>srv_clients := cl, srv_spare_frame := (if recycle = NoFrame then False else srv_spare_frame srv)\<rparr>"
    define srv2 where "srv2 = foldl (\<lambda>s t. flush_client (writes t) t s) srv1 (map fst cl)"
    have "server_inv srv1" using assms t(2) by (simp add: srv1_def server_inv_def)
    then have i: "server_inv srv2" unfolding srv2_def by (rule flush_all_inv)
    then have "server_inv (srv2\<lparr>srv_spare_frame := True\<rparr>)" by (simp add: server_inv_def)
    with i False t(1,3) out show ?thesis
      unfolding clock_tick_def Let_def CAPTURE_SAMPLE_RATE_def
      by (cases taken) (simp_all flip: srv1_def srv2_def)
  qed
qed

lemma clock_tick_panics:
  assumes "server_inv srv" and "sv_capture_channels (srv_state srv) = 2" and "recycle \<noteq> RecycleDisconnected"
    and "some_stream (overflows (48000 div srv_clock_rate_hz srv)) (srv_clients srv)"
  shows "clock_tick env recycle taken writes srv = Inl Panic"
proof -
  have "0 < 48000 div srv_clock_rate_hz srv" using assms(1) by (simp add: server_inv_def div_greater_zero_iff)
  moreover have "\<forall>c \<in> snd ` set (srv_clients srv). client_inv 2 c" using assms(1,2) by (simp add: server_inv_def)
  ultimately have "tick_clients env 2 (48000 div srv_clock_rate_hz srv) (srv_clients srv) f = Inl Panic" for f
    using tick_clients_panics [of 2 "srv_clients srv" _ env f] assms(4) by simp
  then show ?thesis using assms(2,3) by (simp add: clock_tick_def Let_def CAPTURE_SAMPLE_RATE_def)
qed

section \<open>Concrete instances\<close>

text \<open>16-bit stereo at 48 kHz, and the attributes of a client that keeps a tiny buffer and sets a target.\<close>

definition cd_spec :: sample_spec where
  "cd_spec = \<lparr>ss_format = S16Le, ss_channels = 2, ss_sample_rate = 48000\<rparr>"

definition std_bytes_per_sample :: "sample_format \<Rightarrow> nat" where
  "std_bytes_per_sample f = (case sample_width f of Some w \<Rightarrow> w | None \<Rightarrow> 0)"

definition tiny_attr :: buffer_attr where
  "tiny_attr = \<lparr>ba_max_length = 4, ba_target_length = 0, ba_pre_buffering = - 1, ba_minimum_request_length = - 1\<rparr>"

lemma configure_tiny:
  "configure_buffer std_bytes_per_sample cd_spec tiny_attr =
    Inr \<lparr>ba_max_length = 4, ba_target_length = 1920, ba_pre_buffering = 1920, ba_minimum_request_length = 960\<rparr>"
  by (simp add: configure_buffer_def configure_max_length_def configure_min_request_def configure_target_def
      configure_prebuf_def next_multiple_of_def len_10ms_def cd_spec_def tiny_attr_def std_bytes_per_sample_def Let_def)

definition int_env :: "(int, unit) pulse_env" where
  "int_env = \<lparr>pe_ops = nat_ops,
     pe_conv = \<lparr>co_need = \<lambda>_. 1, co_emit = \<lambda>_ fs. (concat fs, ()), co_new = \<lambda>_ _. ()\<rparr>,
     pe_bytes_per_sample = std_bytes_per_sample, pe_to_linear = \<lambda>v. int (unat v), pe_from_linear = \<lambda>x. word_of_int x,
     pe_volume_norm = 1, pe_max_version = 35, pe_encode = \<lambda>v m. [0]\<rparr>"

text \<open>A stream of eight-bit stereo with some bytes queued.\<close>

definition sample_stream :: "stream_state \<Rightarrow> buffer_attr \<Rightarrow> bytes \<Rightarrow> (int, unit) playback_stream" where
  "sample_stream st attr queued =
     \<lparr>ps_stream_index = 0, ps_state = st, ps_buffer_attr = attr,
      ps_buffer = Passthrough \<lparr>bf_inner = queued,
        bf_sample_spec = \<lparr>ss_format = U8, ss_channels = 2, ss_sample_rate = 48000\<rparr>,
        bf_downmix = \<lparr>dm_left = [], dm_right = []\<rparr>, bf_bpp = 1\<rparr>,
      ps_volume = [1, 1], ps_muted = False, ps_missing = 0, ps_requested = 0, ps_played_bytes = 0,
      ps_write_offset = length queued, ps_read_offset = 0\<rparr>"

lemma sample_stream_inv: "stream_inv 2 (sample_stream st attr queued)"
  by (simp add: stream_inv_def sample_stream_def pb_sized_def sized_def pb_len_bytes_def len_bytes_def)

text \<open>A wire on which every message asks for statistics.\<close>

definition stat_wire :: wire where
  "stat_wire = \<lparr>pw_read_descriptor = \<lambda>bs. Some (0, - 1), pw_read_command = \<lambda>bs v. Decoded 9 Stat\<rparr>"

lemma int_env_ok: "env_ok int_env"
  by (auto simp: env_ok_def int_env_def std_bytes_per_sample_def)

section \<open>Runs of the server\<close>

definition pulse_init :: "('f, 'c) pulse_env \<Rightarrow> ('f, 'c) pulse_server \<Rightarrow> bool" where
  "pulse_init env srv \<longleftrightarrow> (\<exists>channels d. channels \<in> {2, 6, 8} \<and> srv = pulse_server_new env channels d)"

definition pulse_step :: "('f, 'c) pulse_env \<Rightarrow> wire \<Rightarrow> ('f, 'c) pulse_server \<Rightarrow> ('f, 'c) pulse_server \<Rightarrow> bool" where
  "pulse_step env wire srv srv' \<longleftrightarrow>
     (\<exists>ev. handle_event env wire ev srv = Some (Inr srv'))"

lemma pulse_server_new_inv: "channels \<in> {2, 6, 8} \<Longrightarrow> server_inv (pulse_server_new env channels d)"
  by (auto simp: server_inv_def pulse_server_new_def Let_def server_state_inv_def pulse_clock_rate_def
      DEFAULT_CLOCK_RATE_HZ_def CAPTURE_SAMPLE_RATE_def)

lemma recv_inv:
  assumes "env_ok env" "server_inv srv" "find_client t srv = Some client"
    and "recv env wire reads writes t client srv = Some (Inr srv')"
  shows "server_inv srv'"
proof -
  let ?ch = "sv_capture_channels (srv_state srv)"
  have st: "state_inv ?ch (client, srv_state srv)"
    using assms(2) server_inv_find [OF assms(2,3)] by (simp add: state_inv_def server_inv_def)
  from assms(4) obtain r where r: "recv_loop env wire reads 0 8192 (pc_incoming client) (client, srv_state srv) = Some r"
    by (auto simp: recv_def split: option.splits)
  note inv = recv_loop_inv [OF r assms(1) st]
  show ?thesis
  proof (cases r)
    case (Inl x)
    obtain e server where x: "x = (e, server)" by (rule prod.exhaust)
    have "server_part ?ch server" using inv Inl x by simp
    then have "server_inv (srv\<lparr>srv_state := server\<rparr>)"
      using assms(2) by (simp add: server_inv_def server_part_def)
    with Inl x r assms(4) show ?thesis
      by (cases e) (auto simp: recv_def server_inv_remove)
  next
    case (Inr x)
    obtain inc client' server where x: "x = (inc, client', server)" by (rule prod_cases3)
    have s: "state_inv ?ch (client', server)" using inv Inr x by simp
    then have "server_inv (srv\<lparr>srv_state := server\<rparr>)"
      using assms(2) by (simp add: server_inv_def state_inv_def)
    then have "server_inv (update_client t (client'\<lparr>pc_incoming := inc\<rparr>) (srv\<lparr>srv_state := server\<rparr>))"
      using s by (intro server_inv_update) (simp_all add: state_inv_def)
    with Inr x r assms(4) show ?thesis
      by (auto simp: recv_def intro: flush_client_inv)
  qed
qed

lemma accept_inv: "server_inv srv \<Longrightarrow> server_inv (accept_clients env n srv)"
proof (induction n arbitrary: srv)
  case (Suc n)
  have "server_inv (srv\<lparr>srv_clients := srv_clients srv @ [(srv_next_client_token srv, new_client env (srv_next_client_token srv))],
      srv_next_client_token := Suc (srv_next_client_token srv)\<rparr>)"
    using Suc.prems by (auto simp: server_inv_def new_client_def client_inv_def)
  with Suc.IH show ?case by (simp add: Let_def)
qed simp

lemma handle_event_inv:
  assumes "env_ok env" "server_inv srv" and "handle_event env wire ev srv = Some (Inr srv')"
  shows "server_inv srv'"
proof (cases ev)
  case (ClockEvent a)
  show ?thesis
  proof (cases a)
    case (TimerRead recycle taken writes)
    with clock_tick_ok [OF assms(2), of env recycle taken writes] assms(3) ClockEvent show ?thesis by auto
  qed (use assms ClockEvent in auto)
next
  case (ListenerEvent n failed)
  with assms(2,3) accept_inv show ?thesis by (auto split: if_splits)
next
  case (ClientClosed t)
  with assms(2,3) server_inv_remove show ?thesis by auto
next
  case (ClientReadable t reads writes)
  show ?thesis
  proof (cases "find_client t srv")
    case None
    with ClientReadable assms(2,3) show ?thesis by simp
  next
    case (Some client)
    with ClientReadable assms(3) have "recv env wire reads writes t client srv = Some (Inr srv')" by simp
    from recv_inv [OF assms(1,2) Some this] show ?thesis .
  qed
next
  case (ClientWritable t writes)
  with assms(2,3) flush_client_inv show ?thesis by auto
qed

interpretation pulse: transition_system "\<lambda>srv. env_ok env \<and> pulse_init env srv" "pulse_step env wire"
  "\<lambda>srv. env_ok env \<and> server_inv srv"
  by unfold_locales (auto simp: pulse_init_def pulse_step_def intro: pulse_server_new_inv handle_event_inv)

text \<open>
  C24. In every state the PulseAudio server can reach, whatever its clients send, each stream's accounts balance (the
  bytes accepted are the bytes played plus the bytes queued, and the demand is never negative). A clock tick gives
  the encoder a full frame or none, and does not panic, as long as the output is surround or no stream has more than
  32 channels. The server does not keep a client from more: a playing stream of more than 32 channels at the output
  rate that has the bytes of a tick makes the tick of a stereo server panic, which ends the audio of the session. The
  crate's sample sizes are those \<open>read_sample\<close> takes (\<open>env_ok\<close>).
\<close>

theorem pulse_accounts_and_ticks:
  assumes "env_ok env" and "channels \<in> {2, 6, 8}" and "(pulse_step env wire)\<^sup>*\<^sup>* (pulse_server_new env channels d) srv"
  shows "(\<forall>(t, client) \<in> set (srv_clients srv). \<forall>(k, s) \<in> set (pc_playback_streams client).
        ps_write_offset s = ps_read_offset s + pb_len_bytes (ps_buffer s) \<and> 0 \<le> ps_missing s \<and>
        ps_played_bytes s \<le> ps_read_offset s) \<and>
    (sv_capture_channels (srv_state srv) \<noteq> 2 \<or>
      (\<forall>(t, client) \<in> set (srv_clients srv). \<forall>(k, s) \<in> set (pc_playback_streams client).
        unat (ss_channels (bf_sample_spec (pb_buffer (ps_buffer s)))) \<le> 32) \<longrightarrow>
      (\<forall>recycle taken writes. \<exists>srv' out. clock_tick env recycle taken writes srv = Inr (srv', out) \<and>
        (\<forall>f. out = Some f \<longrightarrow> length f = 48000 div srv_clock_rate_hz srv * unat (sv_capture_channels (srv_state srv))))) \<and>
    (\<forall>recycle taken writes. sv_capture_channels (srv_state srv) = 2 \<and> recycle \<noteq> RecycleDisconnected \<and>
      some_stream (overflows (48000 div srv_clock_rate_hz srv)) (srv_clients srv) \<longrightarrow>
      clock_tick env recycle taken writes srv = Inl Panic)"
proof -
  have init: "env_ok env \<and> pulse_init env (pulse_server_new env channels d)" using assms(1,2) by (auto simp: pulse_init_def)
  have inv: "server_inv srv" using pulse.reachable_inv [OF init assms(3)] by blast
  have accounts: "\<forall>(t, client) \<in> set (srv_clients srv). \<forall>(k, s) \<in> set (pc_playback_streams client).
        ps_write_offset s = ps_read_offset s + pb_len_bytes (ps_buffer s) \<and> 0 \<le> ps_missing s \<and>
        ps_played_bytes s \<le> ps_read_offset s"
    using inv by (force simp: server_inv_def client_inv_def stream_inv_def)
  have narrow: "\<not> (sv_capture_channels (srv_state srv) = 2 \<and> some_stream wide_stream (srv_clients srv))"
    if "sv_capture_channels (srv_state srv) \<noteq> 2 \<or>
      (\<forall>(t, client) \<in> set (srv_clients srv). \<forall>(k, s) \<in> set (pc_playback_streams client).
        unat (ss_channels (bf_sample_spec (pb_buffer (ps_buffer s)))) \<le> 32)"
    using that by (force simp: some_stream_def wide_stream_def wide_def)
  show ?thesis
    using accounts narrow clock_tick_ok [OF inv, of env] clock_tick_panics [OF inv, of _ env] by blast
qed

theorem pulse_accounts_and_ticks_witness:
  "\<exists>srv srv' out. handle_event int_env stat_wire (ListenerEvent 1 False) (pulse_server_new int_env 6 5) = Some (Inr srv) \<and>
     length (srv_clients srv) = 1 \<and> clock_tick int_env NoFrame FrameTaken (\<lambda>t i. WriteWouldBlock) srv = Inr (srv', out)"
proof -
  define srv where "srv = accept_clients int_env 1 (pulse_server_new int_env 6 5)"
  have h: "handle_event int_env stat_wire (ListenerEvent 1 False) (pulse_server_new int_env 6 5) = Some (Inr srv)"
    by (simp add: srv_def)
  then have "pulse_step int_env stat_wire (pulse_server_new int_env 6 5) srv"
    unfolding pulse_step_def by blast
  then have r: "(pulse_step int_env stat_wire)\<^sup>*\<^sup>* (pulse_server_new int_env 6 5) srv" by (rule r_into_rtranclp)
  have "sv_capture_channels (srv_state srv) \<noteq> 2" by (simp add: srv_def pulse_server_new_def Let_def)
  with pulse_accounts_and_ticks [OF int_env_ok _ r]
  have "\<exists>srv' out. clock_tick int_env NoFrame FrameTaken (\<lambda>t i. WriteWouldBlock) srv = Inr (srv', out)" by blast
  moreover have "length (srv_clients srv) = 1"
    by (simp add: srv_def pulse_server_new_def Let_def)
  ultimately show ?thesis using h by blast
qed

section \<open>When playback starts\<close>

text \<open>A client's blocks of samples between two ticks.\<close>

fun stream_writes :: "('f, 'c) pulse_env \<Rightarrow> u32 \<Rightarrow> bytes list \<Rightarrow> ('f, 'c) playback_stream \<Rightarrow> ('f, 'c) playback_stream" where
  "stream_writes env k [] s = s"
| "stream_writes env k (p # ps) s = stream_writes env k ps (snd (stream_write env k p s))"

lemma stream_writes_playing: "ps_state s = Playing \<Longrightarrow> ps_state (stream_writes env k ps s) = Playing"
proof (induction ps arbitrary: s)
  case (Cons p ps)
  have "ps_state (snd (stream_write env k p s)) = Playing"
    using Cons.prems by (simp add: stream_write_def Let_def)
  with Cons.IH show ?case by simp
qed simp

definition room :: "('f, 'c) playback_stream \<Rightarrow> nat" where
  "room s = unat (ba_max_length (ps_buffer_attr s)) - pb_len_bytes (ps_buffer s)"

lemma stream_write_prebuffering:
  assumes "ps_state s = Prebuffering n" and "0 < n" and "s' = snd (stream_write env k p s)"
  shows "ps_state s' = (if n \<le> min (room s) (length p) then Playing else Prebuffering (n - min (room s) (length p)))"
    and "room s' = room s - length p"
proof -
  have l: "length (take (room s) p) = min (room s) (length p)" by (simp add: min.commute)
  show "ps_state s' = (if n \<le> min (room s) (length p) then Playing else Prebuffering (n - min (room s) (length p)))"
    using assms(1) by (auto simp add: assms(3) stream_write_def Let_def l min_def simp flip: room_def)
  have "ps_buffer s' = pb_write (take (room s) p) (ps_buffer s)" "ps_buffer_attr s' = ps_buffer_attr s"
    using assms(1) by (simp_all add: assms(3) stream_write_def Let_def room_def split: prod.split)
  then show "room s' = room s - length p"
    by (simp add: room_def)
qed

lemma stream_writes_prebuffering:
  assumes "ps_state s = Prebuffering n" and "0 < n"
  shows "ps_state (stream_writes env k ps s) =
    (let got = min (room s) (sum_list (map length ps)) in if n \<le> got then Playing else Prebuffering (n - got))"
  using assms
proof (induction ps arbitrary: s n)
  case Nil
  then show ?case by simp
next
  case (Cons p ps)
  define s' where "s' = snd (stream_write env k p s)"
  note w = stream_write_prebuffering [OF Cons.prems s'_def]
  show ?case
  proof (cases "n \<le> min (room s) (length p)")
    case True
    then have "ps_state (stream_writes env k ps s') = Playing" using w(1) by (simp add: stream_writes_playing)
    with True show ?thesis by (simp add: s'_def Let_def)
  next
    case False
    have "ps_state (stream_writes env k ps s') =
      (let got = min (room s') (sum_list (map length ps)) in
       if n - min (room s) (length p) \<le> got then Playing else Prebuffering (n - min (room s) (length p) - got))"
      using w(1) False by (intro Cons.IH) auto
    with False show ?thesis using w(2) by (auto simp: s'_def [symmetric] Let_def min_def)
  qed
qed

text \<open>
  C24. A stream that waits for \<open>n\<close> more bytes starts to play exactly when the client has written them and they fit into
  its buffer. The attributes of a stream are not always such that they can: for 16-bit stereo with a maximal length of
  4 bytes the server itself sets a prebuffering goal of 1920 bytes, and no amount of data starts that stream.
\<close>

theorem playback_starts_iff:
  assumes "ps_state s = Prebuffering n" and "0 < n"
  shows "(ps_state (stream_writes env k ps s) = Playing \<longleftrightarrow> n \<le> room s \<and> n \<le> sum_list (map length ps)) \<and>
    (\<exists>attr. configure_buffer std_bytes_per_sample cd_spec tiny_attr = Inr attr \<and>
       (ps_buffer_attr s = attr \<longrightarrow> n = unat (ba_pre_buffering attr) \<longrightarrow>
          ps_state (stream_writes env k ps s) \<noteq> Playing))"
proof -
  have iff: "ps_state (stream_writes env k ps s) = Playing \<longleftrightarrow> n \<le> room s \<and> n \<le> sum_list (map length ps)"
    using stream_writes_prebuffering [OF assms] by (simp add: Let_def)
  moreover have "\<not> n \<le> room s"
    if "ps_buffer_attr s = \<lparr>ba_max_length = 4, ba_target_length = 1920, ba_pre_buffering = 1920, ba_minimum_request_length = 960\<rparr>"
      "n = 1920"
    using that by (simp add: room_def)
  ultimately show ?thesis using configure_tiny by auto
qed

theorem playback_starts_iff_witness:
  "ps_state (stream_writes int_env 3 [[1, 2], [3, 4]] (sample_stream (Prebuffering 3)
     \<lparr>ba_max_length = 8, ba_target_length = 8, ba_pre_buffering = 3, ba_minimum_request_length = 1\<rparr> [])) = Playing"
  using playback_starts_iff [of "sample_stream (Prebuffering 3)
     \<lparr>ba_max_length = 8, ba_target_length = 8, ba_pre_buffering = 3, ba_minimum_request_length = 1\<rparr> []" 3 int_env 3 "[[1, 2], [3, 4]]"]
  by (simp add: sample_stream_def room_def pb_len_bytes_def len_bytes_def)

end
