(* ===== verification/Pulse_Liveness.thy ===== *)
theory Pulse_Liveness
  imports Pulse_Props
begin

text \<open>
  Liveness of the PulseAudio server: when a drain is acknowledged, when \<open>recv\<close> returns, and that flushing a
  socket ends and loses nothing.
\<close>

section \<open>Draining\<close>

text \<open>Clock ticks on the streams of a client that stays quiet: the messages and what is left of the streams.\<close>

fun quiet_ticks :: "('f, 'c) pulse_env \<Rightarrow> nat \<Rightarrow> nat \<Rightarrow> 'f list \<Rightarrow> nat \<Rightarrow> ('f, 'c) streams \<Rightarrow>
    (pulse_message list \<times> ('f, 'c) streams) res" where
  "quiet_ticks env channels num_frames frame 0 streams = Inr ([], streams)"
| "quiet_ticks env channels num_frames frame (Suc k) streams =
     rbind (tick_streams env channels num_frames streams frame) (\<lambda>(msgs, acks, streams', _).
     rbind (quiet_ticks env channels num_frames frame k streams') (\<lambda>(msgs', streams'').
       Inr (msgs @ acks @ msgs', streams'')))"

text \<open>A stream in draining state with a buffer at the output rate and at most 32 channels.\<close>

definition draining :: "u8 \<Rightarrow> u32 \<Rightarrow> nat \<Rightarrow> nat \<Rightarrow> ('f, 'c) playback_stream \<Rightarrow> bool" where
  "draining ch seq fb len s \<longleftrightarrow> stream_inv ch s \<and> ps_state s = Draining seq \<and>
     (\<exists>b. ps_buffer s = Passthrough b \<and> playable b \<and> frame_bytes b = fb \<and> len_bytes b = len)"

text \<open>The bytes run out exactly at the end of a tick (up to a partial frame).\<close>

definition drains :: "nat \<Rightarrow> nat \<Rightarrow> nat \<Rightarrow> bool" where
  "drains need fb len \<longleftrightarrow> need \<le> len \<and> len mod need < fb"

lemma drains_step:
  assumes "fb \<le> need" "need \<le> len" "0 < fb"
  shows "drains need fb len \<longleftrightarrow> len - need < fb \<or> drains need fb (len - need)"
proof -
  have m: "len mod need = (len - need) mod need" using assms by (simp add: le_mod_geq)
  show ?thesis
  proof (cases "len - need < need")
    case True
    then show ?thesis using m assms by (auto simp: drains_def)
  next
    case False
    then show ?thesis using m assms by (auto simp: drains_def)
  qed
qed

lemma tick_draining:
  assumes s: "draining ch seq fb len s" and ch: "ch \<in> {2, 6, 8}"
  obtains s' frame' where
    "tick_stream env channels n k s frame =
       (if len < n * fb then Inr ([UnderflowMessage k], s, frame, False)
        else Inr ([], s', frame', len - n * fb < fb))"
    "draining ch seq fb (len - n * fb) s'"
proof -
  obtain b where b: "ps_buffer s = Passthrough b" "frame_bytes b = fb" "len_bytes b = len"
    and pl: "playable b" and inv: "stream_inv ch s" and st: "ps_state s = Draining seq"
    using s by (auto simp: draining_def)
  define vol where "vol = (if ps_muted s then replicate (length (ps_volume s)) (fo_zero (pe_ops env)) else ps_volume s)"
  have l: "length (ps_volume s) = unat ch" "unat ch \<le> 8" "unat ch \<noteq> 0"
    using inv ch by (auto simp: stream_inv_def)
  then have v: "vol \<noteq> []" by (auto simp: vol_def)
  define b' where "b' = b\<lparr>bf_inner := drop (n * fb) (bf_inner b)\<rparr>"
  define frame' where "frame' = mix_into (pe_ops env) vol (concat (map (decode_frame (pe_ops env) channels b)
      (chunks fb (take (n * fb) (bf_inner b))))) frame"
  have d: "drain_and_mix (pe_ops env) (pe_conv env) channels n frame vol (ps_buffer s) =
      (if len < n * fb then Inr (False, frame, Passthrough b) else Inr (True, frame', Passthrough b'))"
    using len_frames_less [OF pl, of n] pull_frames_eq [OF pl, of n "pe_ops env" channels] b v
    by (simp add: drain_and_mix_def frame'_def b'_def)
  define s' where "s' = s\<lparr>ps_buffer := Passthrough b', ps_read_offset := ps_read_offset s + (len - len_bytes b'),
      ps_played_bytes := ps_played_bytes s + (len - len_bytes b'), ps_missing := ps_missing s + int (len - len_bytes b')\<rparr>"
  have lb: "len_bytes b' = len - n * fb" using b(3) by (simp add: b'_def len_bytes_def)
  have pl': "playable b'" "frame_bytes b' = fb" using pl b(2) by (simp_all add: b'_def)
  have bs: "ps_buffer s' = Passthrough b'" by (simp add: s'_def)
  have "pb_is_empty (ps_buffer s') = Inr (len - n * fb < fb)"
    using len_frames_less [OF pl'(1), of 1] lb pl'(2) unfolding bs
    by (auto simp: pb_is_empty_def pb_len_frames_def simp flip: neq0_conv)
  note e = this [unfolded bs]
  have self: "s\<lparr>ps_buffer := Passthrough b\<rparr> = s" using b(1) by simp
  have t: "tick_drain env channels n k s frame =
       (if len < n * fb then Inr ([UnderflowMessage k], s, frame, False)
        else Inr ([], s', frame', len - n * fb < fb))"
  proof (cases "len < n * fb")
    case True
    with d st l self show ?thesis by (simp add: tick_drain_def Let_def flip: vol_def)
  next
    case False
    with d st l e b show ?thesis
      by (simp add: tick_drain_def Let_def s'_def pb_len_bytes_def flip: vol_def)
  qed
  have "tick_stream env channels n k s frame =
       (if len < n * fb then Inr ([UnderflowMessage k], s, frame, False)
        else Inr ([], s', frame', len - n * fb < fb))"
    using t st by (simp add: tick_stream_def tick_request_def is_prebuffering_def s'_def)
  moreover have "draining ch seq fb (len - n * fb) s'"
    using inv st b pl' lb unfolding draining_def stream_inv_def pb_sized_def pb_len_bytes_def s'_def by (auto simp: playable_iff)
  ultimately show thesis by (rule that)
qed

lemma draining_len: "draining ch seq fb len s \<Longrightarrow> 0 < fb"
  by (auto simp: draining_def dest: playable_frame_bytes)

lemma draining_ack: "draining ch seq fb len s \<Longrightarrow> (case ps_state s of Draining q \<Rightarrow> [AckMessage q] | _ \<Rightarrow> []) = [AckMessage seq]"
  by (simp add: draining_def)

text \<open>What a draining stream says in \<open>m\<close> ticks, and whether it is gone at the end.\<close>

definition drain_messages :: "nat \<Rightarrow> nat \<Rightarrow> nat \<Rightarrow> nat \<Rightarrow> u32 \<Rightarrow> u32 \<Rightarrow> pulse_message list" where
  "drain_messages need fb len m seq k =
     (if drains need fb len then (if len div need \<le> m then [AckMessage seq] else [])
      else replicate (m - len div need) (UnderflowMessage k))"

lemma quiet_ticks_draining:
  assumes "draining ch seq fb len s" and ch: "ch \<in> {2, 6, 8}" and "0 < n"
  shows "\<exists>streams'. quiet_ticks env channels n frame m [(k, s)] = Inr (drain_messages (n * fb) fb len m seq k, streams') \<and>
    (streams' = [] \<longleftrightarrow> drains (n * fb) fb len \<and> len div (n * fb) \<le> m)"
  using assms(1)
proof (induction m arbitrary: s len)
  case 0
  have "drains (n * fb) fb len \<longrightarrow> 0 < len div (n * fb)"
    using draining_len [OF 0] assms(3) by (auto simp: drains_def div_greater_zero_iff)
  then show ?case by (auto simp: drain_messages_def)
next
  case (Suc m)
  have fb: "0 < fb" by (rule draining_len [OF Suc.prems])
  define need where "need = n * fb"
  have need: "fb \<le> need" "0 < need" using assms(3) fb by (simp_all add: need_def)
  obtain s' frame' where t: "tick_stream env channels n k s frame =
       (if len < n * fb then Inr ([UnderflowMessage k], s, frame, False) else Inr ([], s', frame', len - n * fb < fb))"
    "draining ch seq fb (len - n * fb) s'"
    by (rule tick_draining [OF Suc.prems ch])
  show ?case
  proof (cases "len < need")
    case True
    obtain st where q: "quiet_ticks env channels n frame m [(k, s)] = Inr (drain_messages need fb len m seq k, st)"
      "st = [] \<longleftrightarrow> drains need fb len \<and> len div need \<le> m"
      using Suc.IH [OF Suc.prems] unfolding need_def by blast
    from True have "\<not> drains need fb len" by (simp add: drains_def)
    with True t q show ?thesis by (simp add: need_def drain_messages_def)
  next
    case False
    then have dv: "len div need = Suc ((len - need) div need)" using need by (simp add: le_div_geq)
    note ds = drains_step [OF need(1) _ fb, of len]
    show ?thesis
    proof (cases "len - need < fb")
      case True
      then have "(len - need) div need = 0" using need by simp
      moreover have "quiet_ticks env channels n frame m [] = Inr ([], [])" by (induction m) simp_all
      ultimately show ?thesis
        using True False t ds dv draining_ack [OF t(2)] by (simp add: need_def drain_messages_def)
    next
      case nf: False
      obtain st where q: "quiet_ticks env channels n frame m [(k, s')] = Inr (drain_messages need fb (len - need) m seq k, st)"
        "st = [] \<longleftrightarrow> drains need fb (len - need) \<and> (len - need) div need \<le> m"
        using Suc.IH [OF t(2)] unfolding need_def by blast
      from q False nf t(1) ds dv show ?thesis by (simp add: need_def drain_messages_def)
    qed
  qed
qed

text \<open>
  C25. For a stream at the output rate (and of at most 32 channels) that is draining while its client sends nothing,
  the messages of any number of ticks are known exactly. When the bytes queued for it run out at the end of a tick, that
  is, are a positive multiple of the bytes of a tick up to less than a frame, nothing is said until the tick that takes
  the last of them, which acknowledges the drain once and removes the stream. Otherwise the last, shorter stretch is
  never played: the drain is never acknowledged, the stream never goes away, and every tick after the full ones
  reports an underflow.
\<close>

theorem drain_acknowledged_iff:
  assumes "draining ch seq fb len s" and "ch \<in> {2, 6, 8}" and "0 < n"
  shows "\<exists>msgs streams'. quiet_ticks env channels n frame m [(k, s)] = Inr (msgs, streams') \<and>
    (if n * fb \<le> len \<and> len mod (n * fb) < fb
     then (if len div (n * fb) \<le> m then msgs = [AckMessage seq] \<and> streams' = [] else msgs = [] \<and> streams' \<noteq> [])
     else msgs = replicate (m - len div (n * fb)) (UnderflowMessage k) \<and> streams' \<noteq> [])"
proof -
  obtain streams' where q: "quiet_ticks env channels n frame m [(k, s)] = Inr (drain_messages (n * fb) fb len m seq k, streams')"
    "streams' = [] \<longleftrightarrow> drains (n * fb) fb len \<and> len div (n * fb) \<le> m"
    using quiet_ticks_draining [OF assms, of env channels frame m k] by blast
  show ?thesis
    by (intro exI conjI, rule q(1)) (use q(2) in \<open>auto simp: drains_def drain_messages_def\<close>)
qed

lemma sample_stream_draining: "draining 2 seq 2 (length queued) (sample_stream (Draining seq) attr queued)"
  using sample_stream_inv [of "Draining seq" attr queued]
  by (simp add: draining_def) (simp add: sample_stream_def frame_bytes_def len_bytes_def playable_def)

theorem drain_acknowledged_iff_witness:
  "(\<exists>streams'. quiet_ticks int_env 2 2 [0, 0, 0, 0] 5 [(3, sample_stream (Draining 7) tiny_attr [1, 2, 3, 4, 5, 6, 7, 8])]
       = Inr ([AckMessage 7], streams')) \<and>
   (\<exists>streams'. quiet_ticks int_env 2 2 [0, 0, 0, 0] 5 [(3, sample_stream (Draining 7) tiny_attr [1, 2, 3, 4, 5, 6])]
       = Inr (replicate 4 (UnderflowMessage 3), streams'))"
  using drain_acknowledged_iff [OF sample_stream_draining, of 2 int_env 2 "[0, 0, 0, 0]" 5 3 7 tiny_attr "[1, 2, 3, 4, 5, 6, 7, 8]"]
    drain_acknowledged_iff [OF sample_stream_draining, of 2 int_env 2 "[0, 0, 0, 0]" 5 3 7 tiny_attr "[1, 2, 3, 4, 5, 6]"]
  by auto

section \<open>Receiving\<close>

text \<open>Messages are taken until none is complete; looking again changes nothing.\<close>

lemma process_incoming_stable:
  "process_incoming env wire inc st = Inr (inc', st', k) \<Longrightarrow> process_incoming env wire inc' st' = Inr (inc', st', k)"
proof (induction env wire inc st rule: process_incoming.induct)
  case (1 env wire inc st)
  show ?case
  proof (cases "length inc < DESCRIPTOR_SIZE")
    case True
    then have "process_incoming env wire inc st = Inr (inc, st, 8192)" by (subst process_incoming.simps) simp
    with "1.prems" show ?thesis by simp
  next
    case False
    obtain len ch where d: "pw_read_descriptor wire (take DESCRIPTOR_SIZE inc) = Some (len, ch)" "\<not> MAX_PAYLOAD_SIZE < unat len"
      using "1.prems" False by (subst (asm) process_incoming.simps) (auto split: option.splits if_splits)
    show ?thesis
    proof (cases "length inc < unat len + DESCRIPTOR_SIZE")
      case True
      then have "process_incoming env wire inc st = Inr (inc, st, unat len + DESCRIPTOR_SIZE - length inc)"
        using False d by (subst process_incoming.simps) simp
      with "1.prems" show ?thesis by force
    next
      case nb: False
      obtain st1 where h: "handle_pulse_message env wire ch (slice DESCRIPTOR_SIZE (DESCRIPTOR_SIZE + unat len) inc) st = Inr st1"
        "process_incoming env wire (drop (DESCRIPTOR_SIZE + unat len) inc) st1 = Inr (inc', st', k)"
        using "1.prems" False nb d by (subst (asm) process_incoming.simps) (auto split: sum.splits)
      show ?thesis
        using "1.IH" [OF False d(1) refl d(2) nb h(1) h(2)] .
    qed
  qed
qed

text \<open>A socket that has data for a while and then none lets \<open>recv\<close> return.\<close>

lemma recv_loop_returns_in:
  "\<forall>sz. net (i + k) sz \<notin> range ReadBytes \<Longrightarrow> \<exists>r. recv_loop env wire net i sz inc st = Some r"
proof (induction k arbitrary: i sz inc st)
  case 0
  then have "net i sz \<notin> range ReadBytes" by simp
  then show ?case by (subst recv_loop.simps) (auto split: read_answer.split)
next
  case (Suc k)
  have "\<forall>sz. net (Suc i + k) sz \<notin> range ReadBytes" using Suc.prems by simp
  from Suc.IH [OF this] show ?case
    by (subst recv_loop.simps) (auto split: read_answer.split sum.split)
qed

text \<open>At the end of the stream every read gives no bytes; the loop then asks again for ever, unless what it
  has received is an error.\<close>

lemma recv_loop_no_progress:
  assumes "\<forall>k \<ge> i. \<forall>sz. net k sz = ReadBytes []"
    and "process_incoming env wire inc st = Inr (inc, st, sz')"
  shows "recv_loop env wire net i sz inc st = None"
proof (rule ccontr)
  assume "recv_loop env wire net i sz inc st \<noteq> None"
  then obtain r where "recv_loop env wire net i sz inc st = Some r" by blast
  then show False
    using assms
  proof (induction arbitrary: sz' rule: recv_loop.raw_induct [rotated, consumes 1, case_names step])
    case (step recv env wire net i sz inc st r)
    have "net i sz = ReadBytes []" using step.prems(1) by blast
    then have "recv env wire net (Suc i) sz' inc st = Some r" using step.hyps step.prems(2) by simp
    moreover have "\<forall>k \<ge> Suc i. \<forall>sz. net k sz = ReadBytes []" using step.prems(1) by simp
    ultimately show ?case using step.IH step.prems(2) by blast
  qed
qed

lemma recv_loop_eof:
  assumes "\<forall>k \<ge> i. \<forall>sz. net k sz = ReadBytes []"
  shows "recv_loop env wire net i sz inc st =
    (case process_incoming env wire inc st of Inl e \<Rightarrow> Some (Inl e) | Inr x \<Rightarrow> None)"
proof -
  have n: "net i sz = ReadBytes []" using assms by blast
  show ?thesis
  proof (cases "process_incoming env wire inc st")
    case (Inl e)
    with n show ?thesis by (subst recv_loop.simps) simp
  next
    case (Inr x)
    obtain inc' st' k where x: "x = (inc', st', k)" by (rule prod_cases3)
    have "\<forall>k \<ge> Suc i. \<forall>sz. net k sz = ReadBytes []" using assms by simp
    from recv_loop_no_progress [OF this process_incoming_stable [OF Inr [unfolded x]]] n Inr x show ?thesis
      by (subst recv_loop.simps) simp
  qed
qed

text \<open>
  C26. \<open>recv\<close> returns when the client's socket at some point has no more data or fails. When the client has closed
  its end, though, every read returns no bytes, and \<open>recv\<close> returns only if what it received so far is malformed: for
  a client that closes between the poll and the read the server thread spins for ever, and audio stops for all clients.
\<close>

theorem recv_returns_or_spins:
  fixes client :: "('f, 'c) pulse_client"
  shows "((\<exists>k. \<forall>sz. reads k sz \<notin> range ReadBytes) \<longrightarrow>
      (\<exists>r. recv env wire reads writes t client srv = Some r)) \<and>
    ((\<forall>k sz. reads k sz = ReadBytes []) \<longrightarrow>
      (recv env wire reads writes t client srv = None \<longleftrightarrow>
         (\<exists>x. process_incoming env wire (pc_incoming client) (client, srv_state srv) = Inr x)))"
proof (intro conjI impI)
  assume "\<exists>k. \<forall>sz. reads k sz \<notin> range ReadBytes"
  then obtain k where "\<forall>sz. reads (0 + k) sz \<notin> range ReadBytes" by auto
  from recv_loop_returns_in [where net = reads and i = 0 and k = k, OF this, of env wire 8192 "pc_incoming client" "(client, srv_state srv)"]
  show "\<exists>r. recv env wire reads writes t client srv = Some r"
    by (auto simp: recv_def split: sum.split prod.split failure.split)
next
  assume "\<forall>k sz. reads k sz = ReadBytes []"
  then have "recv_loop env wire reads 0 8192 (pc_incoming client) (client, srv_state srv) =
      (case process_incoming env wire (pc_incoming client) (client, srv_state srv) of Inl e \<Rightarrow> Some (Inl e) | Inr x \<Rightarrow> None)"
    by (intro recv_loop_eof) simp
  then show "recv env wire reads writes t client srv = None \<longleftrightarrow>
      (\<exists>x. process_incoming env wire (pc_incoming client) (client, srv_state srv) = Inr x)"
    by (auto simp: recv_def split: sum.split prod.split failure.split)
qed

theorem recv_returns_or_spins_witness:
  "recv int_env stat_wire (\<lambda>k sz. ReadBytes []) (\<lambda>i. WriteWouldBlock) 1024 (new_client int_env 1024)
      (pulse_server_new int_env 2 5) = None \<and>
   (\<exists>r. recv int_env stat_wire (\<lambda>k sz. if k = 0 then ReadBytes [1] else ReadWouldBlock) (\<lambda>i. WriteWouldBlock) 1024
      (new_client int_env 1024) (pulse_server_new int_env 2 5) = Some r)"
proof -
  have "process_incoming int_env stat_wire [] (new_client int_env 1024, srv_state (pulse_server_new int_env 2 5)) =
      Inr ([], (new_client int_env 1024, srv_state (pulse_server_new int_env 2 5)), 8192)"
    by (subst process_incoming.simps) (simp add: DESCRIPTOR_SIZE_def)
  moreover have "pc_incoming (new_client int_env 1024) = []" by (simp add: new_client_def)
  moreover have "\<exists>k. \<forall>sz :: nat. (if k = (0 :: nat) then ReadBytes [1] else ReadWouldBlock) \<notin> range ReadBytes"
    by (rule exI [of _ 1]) auto
  ultimately show ?thesis
    using recv_returns_or_spins [of "\<lambda>k sz. ReadBytes []" int_env stat_wire "\<lambda>i. WriteWouldBlock" 1024
        "new_client int_env 1024" "pulse_server_new int_env 2 5"]
      recv_returns_or_spins [of "\<lambda>k sz. if k = 0 then ReadBytes [1] else ReadWouldBlock" int_env stat_wire
        "\<lambda>i. WriteWouldBlock" 1024 "new_client int_env 1024" "pulse_server_new int_env 2 5"]
    by simp
qed

section \<open>Buffer attributes\<close>

text \<open>The specifications PulseAudio itself allows.\<close>

definition sane_spec :: "(sample_format \<Rightarrow> nat) \<Rightarrow> sample_spec \<Rightarrow> bool" where
  "sane_spec bps spec \<longleftrightarrow>
     1 \<le> bps (ss_format spec) \<and> bps (ss_format spec) \<le> 4 \<and> 1 \<le> unat (ss_channels spec) \<and>
     unat (ss_channels spec) \<le> 32 \<and> 200 \<le> unat (ss_sample_rate spec) \<and> unat (ss_sample_rate spec) \<le> 384000"

lemma configure_buffer_panics_iff:
  "configure_buffer bps spec attr = Inl Panic \<longleftrightarrow>
     word_of_nat (unat (ss_channels spec) * bps (ss_format spec)) = (0 :: u32) \<or>
     configure_min_request (word_of_nat (unat (ss_channels spec) * bps (ss_format spec))) (len_10ms bps spec)
       (ba_minimum_request_length attr) = Inr 0"
proof -
  define fs :: u32 where "fs = word_of_nat (unat (ss_channels spec) * bps (ss_format spec))"
  define l10 where "l10 = len_10ms bps spec"
  have nm: "next_multiple_of a b = Inl Panic \<longleftrightarrow> b = 0" for a b by (simp add: next_multiple_of_def)
  have nm': "\<exists>c. next_multiple_of a b = Inr c" if "b \<noteq> 0" for a b using that by (simp add: next_multiple_of_def)
  show ?thesis
  proof (cases "fs = 0")
    case True
    then have "configure_min_request fs l10 m = Inl Panic" for m
      by (simp add: configure_min_request_def next_multiple_of_def)
    moreover have "configure_max_length fs l10 m = Inl Panic \<or> (\<exists>x. configure_max_length fs l10 m = Inr x)" for m
      using True by (simp add: configure_max_length_def next_multiple_of_def)
    ultimately show ?thesis
      unfolding configure_buffer_def Let_def fs_def [symmetric] l10_def [symmetric]
      using True by (auto simp: rbind_eq_Inl)
  next
    case False
    have "\<exists>mx. configure_max_length fs l10 (ba_max_length attr) = Inr mx"
      using nm' [OF False, of "ba_max_length attr"] by (auto simp: configure_max_length_def)
    then obtain mx where mx: "configure_max_length fs l10 (ba_max_length attr) = Inr mx" by blast
    have "\<exists>mr. configure_min_request fs l10 (ba_minimum_request_length attr) = Inr mr"
      using nm' [OF False, of "ba_minimum_request_length attr"] nm' [OF False, of "l10 div 2"]
      by (auto simp: configure_min_request_def)
    then obtain mr where mr: "configure_min_request fs l10 (ba_minimum_request_length attr) = Inr mr" by blast
    have t: "configure_target l10 mx mr tt = Inl Panic \<longleftrightarrow> mr = 0" for tt
      using nm' [of mr] nm by (auto simp: configure_target_def rbind_eq_Inl Let_def)
    have t': "mr \<noteq> 0 \<Longrightarrow> \<exists>x. configure_target l10 mx mr tt = Inr x" for tt
      by (simp add: configure_target_def next_multiple_of_def Let_def)
    have p: "mr \<noteq> 0 \<Longrightarrow> configure_prebuf mr tt pp \<noteq> Inl Panic" for tt pp
      by (simp add: configure_prebuf_def next_multiple_of_def)
    show ?thesis
    proof (cases "mr = 0")
      case True
      with t mx mr False show ?thesis
        unfolding configure_buffer_def Let_def fs_def [symmetric] l10_def [symmetric] by simp
    next
      case nz: False
      obtain tg where "configure_target l10 mx mr (ba_target_length attr) = Inr tg" using t' [OF nz] by blast
      with nz p mx mr False show ?thesis
        unfolding configure_buffer_def Let_def fs_def [symmetric] l10_def [symmetric] by (simp add: rbind_eq_Inl)
    qed
  qed
qed

end
