(* ===== verification/Hdr_Sei.thy ===== *)
theory Hdr_Sei
  imports Control_Message Stream_Config
begin

text \<open>
  HDR10 metadata in the encoded bitstream (\<open>session/stream/video/pipeline/hdr_sei.rs\<close>):
  the mastering-display and content-light payloads, the SEI NAL units of H.264 and H.265 with their
  emulation prevention, the metadata OBUs of AV1 with their LEB128 sizes and unit conversions, the
  two scanners that find the insertion point, and the insertion itself.

  A shift of a 64-bit value by 64 or more is an arithmetic trap and is a \<open>Panic\<close>. Positions
  are lengths of buffers in memory and are natural numbers.
\<close>

section \<open>Payloads\<close>

definition be16_pair :: "u16 \<times> u16 \<Rightarrow> bytes" where
  "be16_pair p = to_be16 (fst p) @ to_be16 (snd p)"

definition build_mdcv_sei_payload :: "hdr_metadata \<Rightarrow> bool \<Rightarrow> bytes" where
  "build_mdcv_sei_payload m is_hevc =
     (if is_hevc then concat (map (\<lambda>i. be16_pair (display_primaries m ! i)) [1, 2, 0])
      else concat (map be16_pair (display_primaries m))) @
     be16_pair (white_point m) @ to_be32 (max_luminance m) @ to_be32 (min_luminance m)"

definition build_clli_sei_payload :: "hdr_metadata \<Rightarrow> bytes" where
  "build_clli_sei_payload m = to_be16 (max_cll m) @ to_be16 (max_fall m)"

section \<open>SEI NAL units\<close>

fun rbsp_escape_loop :: "nat \<Rightarrow> bytes \<Rightarrow> bytes" where
  "rbsp_escape_loop zeros [] = []"
| "rbsp_escape_loop zeros (byte # data) =
     (if 2 \<le> zeros \<and> byte \<le> 3
      then 3 # byte # rbsp_escape_loop (if byte = 0 then 1 else 0) data
      else byte # rbsp_escape_loop (if byte = 0 then zeros + 1 else 0) data)"

definition rbsp_escape :: "bytes \<Rightarrow> bytes" where
  "rbsp_escape data = rbsp_escape_loop 0 data"

fun ff_coded :: "nat \<Rightarrow> bytes" where
  "ff_coded n = (if 255 \<le> n then 0xff # ff_coded (n - 255) else [word_of_nat n])"

declare ff_coded.simps [simp del]

definition sei_message :: "u8 \<Rightarrow> bytes \<Rightarrow> bytes" where
  "sei_message payload_type payload =
     ff_coded (unat payload_type) @ ff_coded (length payload) @ payload @ [0x80]"

definition sei_nal_header :: "bool \<Rightarrow> bytes" where
  "sei_nal_header is_hevc = (if is_hevc then [0x4e, 0x01] else [0x06])"

definition build_sei_nal :: "u8 \<Rightarrow> bytes \<Rightarrow> bool \<Rightarrow> bytes" where
  "build_sei_nal payload_type payload is_hevc =
     [0, 0, 0, 1] @ sei_nal_header is_hevc @ rbsp_escape (sei_message payload_type payload)"

section \<open>AV1 metadata OBUs\<close>

definition av1_chromaticity :: "u16 \<Rightarrow> u16" where
  "av1_chromaticity value = word_of_nat (min ((unat value * 65536 + 25000) div 50000) 65535)"

definition av1_luminance_max :: "u32 \<Rightarrow> u32" where
  "av1_luminance_max value = word_of_nat ((unat value * 256 + 5000) div 10000)"

definition av1_luminance_min :: "u32 \<Rightarrow> u32" where
  "av1_luminance_min value = word_of_nat (min ((unat value * 16384 + 5000) div 10000) (2 ^ 32 - 1))"

lemma unat_drop_bit: "unat (drop_bit n (v :: 'a :: len word)) = unat v div 2 ^ n"
  by (subst unsigned_drop_bit_eq) (simp add: drop_bit_eq_div take_bit_nat_eq_self)

text \<open>The low seven bits of the value, with the continuation bit while more follow.\<close>

function leb128_encode :: "u64 \<Rightarrow> bytes" where
  "leb128_encode value =
     (let byte = ucast (value AND 0x7f); rest = drop_bit 7 value
      in if rest \<noteq> 0 then (byte OR 0x80) # leb128_encode rest else [byte])"
  by pat_completeness (erule subst, rule refl)
termination
proof (relation "measure unat")
  fix v rest :: u64 and byte :: u8
  assume r: "rest = drop_bit 7 v" and "rest \<noteq> 0"
  then have "unat rest \<noteq> 0" by (simp add: unat_eq_zero)
  with r show "(rest, v) \<in> measure unat" by (simp add: unat_drop_bit)
qed simp

declare leb128_encode.simps [simp del]

definition build_av1_metadata_obu :: "bytes \<Rightarrow> bytes" where
  "build_av1_metadata_obu payload = [0x2a] @ leb128_encode (word_of_nat (length payload + 1)) @ payload @ [0x80]"

definition build_av1_cll_obu :: "hdr_metadata \<Rightarrow> bytes" where
  "build_av1_cll_obu m = build_av1_metadata_obu ([1] @ to_be16 (max_cll m) @ to_be16 (max_fall m))"

definition av1_point :: "u16 \<times> u16 \<Rightarrow> bytes" where
  "av1_point p = be16_pair (av1_chromaticity (fst p), av1_chromaticity (snd p))"

definition build_av1_mdcv_obu :: "hdr_metadata \<Rightarrow> bytes" where
  "build_av1_mdcv_obu m =
     build_av1_metadata_obu
       ([2] @ concat (map av1_point (display_primaries m)) @ av1_point (white_point m) @
        to_be32 (av1_luminance_max (max_luminance m)) @ to_be32 (av1_luminance_min (min_luminance m)))"

text \<open>The value read so far, the shift of the next group and the bytes consumed.\<close>

fun leb128_decode_loop :: "u64 \<Rightarrow> nat \<Rightarrow> nat \<Rightarrow> bytes \<Rightarrow> (u64 \<times> nat) res" where
  "leb128_decode_loop value shift used [] = Inr (value, used)"
| "leb128_decode_loop value shift used (byte # data) =
     rbind (guard (shift < 64) Panic) (\<lambda>_.
       (let value = value OR push_bit shift (ucast (byte AND 0x7f))
        in if byte AND 0x80 = 0 then Inr (value, used + 1)
           else leb128_decode_loop value (shift + 7) (used + 1) data))"

definition leb128_decode :: "bytes \<Rightarrow> (u64 \<times> nat) res" where
  "leb128_decode data = leb128_decode_loop 0 0 0 data"

section \<open>The insertion point\<close>

definition start_code_at :: "bytes \<Rightarrow> nat \<Rightarrow> nat option" where
  "start_code_at data i =
     (if i + 4 \<le> length data \<and> slice i (i + 4) data = [0, 0, 0, 1] then Some 4
      else if i + 3 \<le> length data \<and> slice i (i + 3) data = [0, 0, 1] then Some 3
      else None)"

definition is_vcl :: "bool \<Rightarrow> u8 \<Rightarrow> bool" where
  "is_vcl is_hevc byte =
     (if is_hevc then drop_bit 1 byte AND 0x3f \<le> 31 else 1 \<le> byte AND 0x1f \<and> byte AND 0x1f \<le> 5)"

lemma start_code_at_pos: "start_code_at data i = Some n \<Longrightarrow> 3 \<le> n \<and> i + n \<le> length data"
  by (auto simp: start_code_at_def split: if_splits)

function find_first_vcl_nal_from :: "bytes \<Rightarrow> bool \<Rightarrow> nat \<Rightarrow> nat" where
  "find_first_vcl_nal_from data is_hevc i =
     (if i < length data
      then (case start_code_at data i of
              None \<Rightarrow> find_first_vcl_nal_from data is_hevc (i + 1)
            | Some start_code_len \<Rightarrow>
                if length data \<le> i + start_code_len \<or> is_vcl is_hevc (data ! (i + start_code_len)) then i
                else find_first_vcl_nal_from data is_hevc (i + start_code_len))
      else length data)"
  by pat_completeness auto
termination
  by (relation "measure (\<lambda>(data, _, i). length data - i)") (auto dest: start_code_at_pos)

declare find_first_vcl_nal_from.simps [simp del]

definition find_first_vcl_nal :: "bytes \<Rightarrow> bool \<Rightarrow> nat" where
  "find_first_vcl_nal data is_hevc = find_first_vcl_nal_from data is_hevc 0"

definition obu_type :: "u8 \<Rightarrow> u8" where
  "obu_type header = drop_bit 3 header AND 0x0f"

definition obu_has_size :: "u8 \<Rightarrow> bool" where
  "obu_has_size header \<longleftrightarrow> drop_bit 1 header AND 1 = 1"

definition obu_has_extension :: "u8 \<Rightarrow> bool" where
  "obu_has_extension header \<longleftrightarrow> drop_bit 2 header AND 1 = 1"

text \<open>One turn of the walk over the OBUs at position \<open>i\<close>: the result of the function
  (\<open>Inl\<close>) or the position of the next OBU (\<open>Inr\<close>). The code saturates the sum at the
  largest \<open>usize\<close>; the next position is only compared with the length of the data, which is
  smaller, so the exact sum ends the walk in the same cases.\<close>

definition obu_step :: "bytes \<Rightarrow> nat \<Rightarrow> (nat + nat) res" where
  "obu_step data i =
     (let header = data ! i;
          offset = i + 1 + (if obu_has_extension header then 1 else 0)
      in if obu_type header = 6 \<or> obu_type header = 3 then Inr (Inl i)
         else if length data < offset then Inr (Inl (length data))
         else if obu_has_size header then
           rbind (leb128_decode (drop offset data)) (\<lambda>(size, bytes_read).
             Inr (Inr (offset + bytes_read + unat size)))
         else Inr (Inl (length data)))"

lemma obu_step_advances: "obu_step data i = Inr (Inr j) \<Longrightarrow> i < j"
  by (auto simp: obu_step_def Let_def rbind_eq_Inr split: if_splits)

function find_first_frame_obu_from :: "bytes \<Rightarrow> nat \<Rightarrow> nat res" where
  "find_first_frame_obu_from data i =
     (if i < length data
      then (case obu_step data i of
              Inl e \<Rightarrow> Inl e
            | Inr (Inl r) \<Rightarrow> Inr r
            | Inr (Inr j) \<Rightarrow> find_first_frame_obu_from data j)
      else Inr (length data))"
  by pat_completeness auto
termination
  by (relation "measure (\<lambda>(data, i). length data - i)") (auto dest: obu_step_advances)

declare find_first_frame_obu_from.simps [simp del]

definition find_first_frame_obu :: "bytes \<Rightarrow> nat res" where
  "find_first_frame_obu data = find_first_frame_obu_from data 0"

section \<open>Insertion\<close>

definition insert_at :: "nat \<Rightarrow> bytes \<Rightarrow> bytes \<Rightarrow> bytes" where
  "insert_at pos new data = take pos data @ new @ drop pos data"

definition inject_h26x_sei :: "bytes \<Rightarrow> hdr_metadata \<Rightarrow> bool \<Rightarrow> bytes" where
  "inject_h26x_sei data m is_hevc =
     insert_at (find_first_vcl_nal data is_hevc)
       (build_sei_nal 137 (build_mdcv_sei_payload m is_hevc) is_hevc @
        build_sei_nal 144 (build_clli_sei_payload m) is_hevc) data"

definition inject_av1_metadata :: "bytes \<Rightarrow> hdr_metadata \<Rightarrow> bytes res" where
  "inject_av1_metadata data m =
     rbind (find_first_frame_obu data) (\<lambda>insert_pos.
       Inr (insert_at insert_pos (build_av1_mdcv_obu m @ build_av1_cll_obu m) data))"

fun inject_hdr_metadata :: "bytes \<Rightarrow> hdr_metadata \<Rightarrow> video_format \<Rightarrow> bytes res" where
  "inject_hdr_metadata data m H264 = Inr (inject_h26x_sei data m False)"
| "inject_hdr_metadata data m Hevc = Inr (inject_h26x_sei data m True)"
| "inject_hdr_metadata data m Av1 = inject_av1_metadata data m"

section \<open>Emulation prevention\<close>

text \<open>The decoder of the standard: a byte 3 after two zeros is dropped.\<close>

fun rbsp_unescape :: "nat \<Rightarrow> bytes \<Rightarrow> bytes" where
  "rbsp_unescape zeros [] = []"
| "rbsp_unescape zeros (byte # data) =
     (if 2 \<le> zeros \<and> byte = 3 then rbsp_unescape 0 data
      else byte # rbsp_unescape (if byte = 0 then zeros + 1 else 0) data)"

text \<open>A byte of at most 2 after two zeros: the patterns the standard forbids inside a NAL unit.\<close>

fun has_forbidden :: "nat \<Rightarrow> bytes \<Rightarrow> bool" where
  "has_forbidden zeros [] = False"
| "has_forbidden zeros (byte # data) =
     (2 \<le> zeros \<and> byte \<le> 2 \<or> has_forbidden (if byte = 0 then zeros + 1 else 0) data)"

lemma rbsp_unescape_escape_loop: "rbsp_unescape zeros (rbsp_escape_loop zeros data) = data"
  by (induction zeros data rule: rbsp_escape_loop.induct) auto

lemma escape_loop_not_forbidden: "\<not> has_forbidden zeros (rbsp_escape_loop zeros data)"
proof (induction zeros data rule: rbsp_escape_loop.induct)
  case (2 zeros byte data)
  have "\<not> byte \<le> 3 \<Longrightarrow> \<not> byte \<le> 2" by (simp add: word_le_nat_alt)
  with 2 show ?case by auto
qed simp

lemma escape_loop_snoc_last: "rbsp_escape_loop zeros data \<noteq> [] \<longleftrightarrow> data \<noteq> []"
  by (cases data) auto

lemma last_escape_loop: "data \<noteq> [] \<Longrightarrow> last (rbsp_escape_loop zeros data) = last data"
proof (induction zeros data rule: rbsp_escape_loop.induct)
  case (2 zeros byte data)
  then show ?case by (cases data) auto
qed simp

section \<open>The scanner on suffixes\<close>

text \<open>The scan looks only forward, so its result at \<open>i\<close> is a function of the rest of the data.\<close>

definition code_len :: "bytes \<Rightarrow> nat option" where
  "code_len xs =
     (if take 4 xs = [0, 0, 0, 1] then Some 4 else if take 3 xs = [0, 0, 1] then Some 3 else None)"

lemma start_code_at_drop: "start_code_at data i = code_len (drop i data)"
proof -
  have "take n (drop i data) = xs \<Longrightarrow> length xs = n \<Longrightarrow> 0 < n \<Longrightarrow> i + n \<le> length data" for n xs
    by (auto simp: min_def split: if_splits)
  from this [of 4 "[0, 0, 0, 1]"] this [of 3 "[0, 0, 1]"] show ?thesis
    by (auto simp: start_code_at_def code_len_def slice_def)
qed

lemma code_len_pos: "code_len xs = Some n \<Longrightarrow> 3 \<le> n \<and> n \<le> length xs"
  using start_code_at_pos [of xs 0 n] by (simp add: start_code_at_drop)

function vcl_scan :: "bool \<Rightarrow> bytes \<Rightarrow> nat" where
  "vcl_scan h xs =
     (if xs = [] then 0
      else (case code_len xs of
              None \<Rightarrow> 1 + vcl_scan h (drop 1 xs)
            | Some n \<Rightarrow> if length xs \<le> n \<or> is_vcl h (xs ! n) then 0 else n + vcl_scan h (drop n xs)))"
  by pat_completeness auto
termination
  by (relation "measure (\<lambda>(_, xs). length xs)") (auto dest: code_len_pos)

declare vcl_scan.simps [simp del]

lemma vcl_scan_Nil [simp]: "vcl_scan h [] = 0"
  by (simp add: vcl_scan.simps)

lemma vcl_scan_None: "xs \<noteq> [] \<Longrightarrow> code_len xs = None \<Longrightarrow> vcl_scan h xs = 1 + vcl_scan h (drop 1 xs)"
  by (subst vcl_scan.simps) simp

lemma vcl_scan_Some:
  "code_len xs = Some n \<Longrightarrow>
   vcl_scan h xs = (if length xs \<le> n \<or> is_vcl h (xs ! n) then 0 else n + vcl_scan h (drop n xs))"
  using code_len_pos [of xs n] by (subst vcl_scan.simps) auto

lemma find_first_vcl_nal_from_scan:
  "i \<le> length data \<Longrightarrow> find_first_vcl_nal_from data h i = i + vcl_scan h (drop i data)"
proof (induction data h i rule: find_first_vcl_nal_from.induct)
  case (1 data h i)
  show ?case
  proof (cases "i < length data")
    case True
    show ?thesis
    proof (cases "code_len (drop i data)")
      case None
      with True 1 show ?thesis
        by (subst find_first_vcl_nal_from.simps) (simp add: start_code_at_drop vcl_scan_None)
    next
      case (Some n)
      with True have "n \<le> length data - i" using code_len_pos [of "drop i data" n] by simp
      with True Some 1 show ?thesis
        by (subst find_first_vcl_nal_from.simps)
          (auto simp: start_code_at_drop vcl_scan_Some add.commute)
    qed
  qed (use 1 in \<open>simp add: find_first_vcl_nal_from.simps\<close>)
qed

lemma find_first_vcl_nal_scan: "find_first_vcl_nal data h = vcl_scan h data"
  by (simp add: find_first_vcl_nal_def find_first_vcl_nal_from_scan)

lemma vcl_scan_result:
  "vcl_scan h xs \<le> length xs \<and>
   (drop (vcl_scan h xs) xs = [] \<or> code_len (drop (vcl_scan h xs) xs) \<noteq> None)"
proof (induction h xs rule: vcl_scan.induct)
  case (1 h xs)
  show ?case
  proof (cases "xs = []")
    case False
    show ?thesis
    proof (cases "code_len xs")
      case None
      have "vcl_scan h (drop 1 xs) \<le> length (drop 1 xs) \<and>
        (drop (vcl_scan h (drop 1 xs)) (drop 1 xs) = [] \<or>
         code_len (drop (vcl_scan h (drop 1 xs)) (drop 1 xs)) \<noteq> None)"
        using "1.IH"(1) False None by blast
      with False None show ?thesis
        by (cases xs) (auto simp: vcl_scan_None)
    next
      case (Some n)
      show ?thesis
      proof (cases "length xs \<le> n \<or> is_vcl h (xs ! n)")
        case False
        then have "vcl_scan h (drop n xs) \<le> length (drop n xs) \<and>
          (drop (vcl_scan h (drop n xs)) (drop n xs) = [] \<or>
           code_len (drop (vcl_scan h (drop n xs)) (drop n xs)) \<noteq> None)"
          using "1.IH"(2) \<open>xs \<noteq> []\<close> Some by blast
        with False Some show ?thesis by (auto simp: vcl_scan_Some add.commute)
      qed (auto simp: vcl_scan_Some Some)
    qed
  qed simp
qed

lemma vcl_scan_at_result: "vcl_scan h (drop (vcl_scan h xs) xs) = 0"
proof (induction h xs rule: vcl_scan.induct)
  case (1 h xs)
  show ?case
  proof (cases "xs = []")
    case False
    show ?thesis
    proof (cases "code_len xs")
      case None
      have "vcl_scan h (drop (vcl_scan h (drop 1 xs)) (drop 1 xs)) = 0"
        using "1.IH"(1) False None by blast
      with False None show ?thesis
        by (cases xs) (auto simp: vcl_scan_None)
    next
      case (Some n)
      show ?thesis
      proof (cases "length xs \<le> n \<or> is_vcl h (xs ! n)")
        case False
        then have "vcl_scan h (drop (vcl_scan h (drop n xs)) (drop n xs)) = 0"
          using "1.IH"(2) \<open>xs \<noteq> []\<close> Some by blast
        with False Some show ?thesis by (auto simp: vcl_scan_Some add.commute)
      qed (auto simp: vcl_scan_Some Some)
    qed
  qed simp
qed

section \<open>The first slice\<close>

text \<open>
  What the scanner looks for, told without it. A NAL unit begins where three bytes \<open>00 00 01\<close> are, one byte earlier when
  a zero byte precedes them; it is a coded slice when its type, five bits of the first byte behind them in H.264 and
  six in H.265, is 1 to 5 or at most 31.
\<close>

definition vcl_type :: "bool \<Rightarrow> u8 \<Rightarrow> bool" where
  "vcl_type is_hevc header =
     (if is_hevc then unat header div 2 mod 64 \<le> 31 else 1 \<le> unat header mod 32 \<and> unat header mod 32 \<le> 5)"

definition nal_at :: "bytes \<Rightarrow> nat \<Rightarrow> bool" where
  "nal_at data j \<longleftrightarrow> take 3 (drop j data) = [0, 0, 1]"

definition slice_at :: "bool \<Rightarrow> bytes \<Rightarrow> nat \<Rightarrow> bool" where
  "slice_at is_hevc data j \<longleftrightarrow> nal_at data j \<and> j + 3 < length data \<and> vcl_type is_hevc (data ! (j + 3))"

definition unit_start :: "bytes \<Rightarrow> nat \<Rightarrow> nat" where
  "unit_start data j = (if 0 < j \<and> data ! (j - 1) = 0 then j - 1 else j)"

text \<open>The start of the first slice; without one, a start code that ends the data, or the end of the data.\<close>

definition first_slice :: "bool \<Rightarrow> bytes \<Rightarrow> nat \<Rightarrow> bool" where
  "first_slice is_hevc data pos \<longleftrightarrow>
     (\<forall>j. slice_at is_hevc data j \<and> (\<forall>i < j. \<not> slice_at is_hevc data i) \<longrightarrow> pos = unit_start data j) \<and>
     ((\<forall>j. \<not> slice_at is_hevc data j) \<longrightarrow>
        pos = (if 3 \<le> length data \<and> nal_at data (length data - 3) then unit_start data (length data - 3) else length data))"

lemma unat_and_mask: "unat (b AND mask n) = unat b mod 2 ^ n" for b :: u8
  unfolding take_bit_eq_mask [symmetric] unsigned_take_bit_eq by (simp add: take_bit_eq_mod)

lemma is_vcl_type: "is_vcl h b = vcl_type h b"
proof -
  have m: "(0x3f :: u8) = mask 6" "(0x1f :: u8) = mask 5" by (simp_all add: mask_eq_exp_minus_1)
  have "unat (drop_bit 1 b AND 0x3f) = unat b div 2 mod 64" unfolding m unat_and_mask by (simp add: unat_drop_bit)
  moreover have "unat (b AND 0x1f) = unat b mod 32" unfolding m unat_and_mask by simp
  ultimately show ?thesis by (simp add: is_vcl_def vcl_type_def word_le_nat_alt)
qed

lemma nal_at_append: "nal_at (ps @ ys) (length ps + k) = nal_at ys k"
  by (simp add: nal_at_def)

lemma slice_at_append: "slice_at h (ps @ ys) (length ps + k) = slice_at h ys k"
  by (simp add: slice_at_def nal_at_append nth_append add.assoc)

lemma unit_start_append:
  assumes "nal_at ys 0 \<longrightarrow> ps = [] \<or> last ps \<noteq> 0" and "nal_at ys k"
  shows "unit_start (ps @ ys) (length ps + k) = length ps + unit_start ys k"
  using assms by (cases k; cases "ps = []") (auto simp: unit_start_def nth_append last_conv_nth)

text \<open>The first slice behind a stretch that has none.\<close>

lemma first_slice_shift:
  assumes "\<forall>j < length ps. nal_at (ps @ ys) j \<longrightarrow> \<not> slice_at h (ps @ ys) j \<and> j + 3 < length (ps @ ys)"
    and "nal_at ys 0 \<longrightarrow> ps = [] \<or> last ps \<noteq> 0" and "first_slice h ys pos"
  shows "first_slice h (ps @ ys) (length ps + pos)"
  unfolding first_slice_def
proof (intro conjI allI impI)
  have front: "\<not> slice_at h (ps @ ys) j" if "j < length ps" for j
    using assms(1) that by (auto simp: slice_at_def)
  fix j assume j: "slice_at h (ps @ ys) j \<and> (\<forall>i < j. \<not> slice_at h (ps @ ys) i)"
  then have "length ps \<le> j" using front by (meson not_less)
  then obtain k where k: "j = length ps + k" using le_Suc_ex by blast
  have s: "slice_at h ys k" using j k slice_at_append [of h ps ys] by simp
  have "\<forall>i < k. \<not> slice_at h ys i" using j k slice_at_append [of h ps ys] by (metis nat_add_left_cancel_less)
  then have "pos = unit_start ys k" using s assms(3) by (simp add: first_slice_def)
  then show "length ps + pos = unit_start (ps @ ys) j"
    using unit_start_append [OF assms(2), of k] s k by (simp add: slice_at_def)
next
  assume none: "\<forall>j. \<not> slice_at h (ps @ ys) j"
  then have "\<forall>k. \<not> slice_at h ys k" using slice_at_append [of h ps ys] by metis
  then have pos: "pos = (if 3 \<le> length ys \<and> nal_at ys (length ys - 3) then unit_start ys (length ys - 3) else length ys)"
    using assms(3) by (simp add: first_slice_def)
  have same: "3 \<le> length (ps @ ys) \<and> nal_at (ps @ ys) (length (ps @ ys) - 3) \<longleftrightarrow> 3 \<le> length ys \<and> nal_at ys (length ys - 3)"
  proof (cases "3 \<le> length ys")
    case True
    then have "length (ps @ ys) - 3 = length ps + (length ys - 3)" by simp
    then show ?thesis using True nal_at_append [of ps ys "length ys - 3"] by simp
  next
    case False
    then have "\<not> nal_at (ps @ ys) (length (ps @ ys) - 3)" if "3 \<le> length (ps @ ys)"
      using assms(1) [rule_format, of "length (ps @ ys) - 3"] that by fastforce
    then show ?thesis using False by blast
  qed
  show "length ps + pos = (if 3 \<le> length (ps @ ys) \<and> nal_at (ps @ ys) (length (ps @ ys) - 3)
      then unit_start (ps @ ys) (length (ps @ ys) - 3) else length (ps @ ys))"
  proof (cases "3 \<le> length ys \<and> nal_at ys (length ys - 3)")
    case True
    then have "length (ps @ ys) - 3 = length ps + (length ys - 3)" by simp
    then show ?thesis using True same pos unit_start_append [OF assms(2), of "length ys - 3"] by simp
  next
    case False
    then show ?thesis unfolding same pos by (simp only: if_False length_append)
  qed
qed

lemma code_len_nal: "code_len xs = None \<Longrightarrow> \<not> nal_at xs 0"
  by (auto simp: code_len_def nal_at_def split: if_splits)

lemma code_len_cases:
  assumes "code_len xs = Some n"
  obtains ys where "n = 4" "xs = [0, 0, 0, 1] @ ys" | ys where "n = 3" "xs = [0, 0, 1] @ ys"
proof (cases "take 4 xs = [0, 0, 0, 1]")
  case True
  then have "xs = [0, 0, 0, 1] @ drop 4 xs" using append_take_drop_id [of 4 xs] by simp
  then show thesis using that(1) assms True by (simp add: code_len_def)
next
  case False
  then have "take 3 xs = [0, 0, 1]" "n = 3" using assms by (auto simp: code_len_def split: if_splits)
  then show thesis using that(2) append_take_drop_id [of 3 xs] by metis
qed

lemma nal_at_code [simp]:
  "\<not> nal_at (0 # 0 # 0 # 1 # ys) 0" "nal_at (0 # 0 # 0 # 1 # ys) 1" "\<not> nal_at (0 # 0 # 0 # 1 # ys) 2"
  "\<not> nal_at (0 # 0 # 0 # 1 # ys) 3" "nal_at (0 # 0 # 1 # ys) 0" "\<not> nal_at (0 # 0 # 1 # ys) 1" "\<not> nal_at (0 # 0 # 1 # ys) 2"
  "nal_at (0 # 0 # 0 # 1 # ys) (Suc 0)" "\<not> nal_at (0 # 0 # 1 # ys) (Suc 0)"
  by (simp_all add: nal_at_def)

lemma first_slice_code:
  assumes "code_len xs = Some n" and "length xs \<le> n \<or> vcl_type h (xs ! n)"
  shows "first_slice h xs 0"
  using assms(1)
proof (cases rule: code_len_cases)
  case (1 ys)
  show ?thesis
  proof (cases "ys = []")
    case True
    have "\<not> slice_at h xs j" for j using 1 True by (cases "j < 4") (auto simp: slice_at_def nal_at_def)
    then show ?thesis using 1 True by (simp add: first_slice_def unit_start_def)
  next
    case False
    then have "slice_at h xs 1" "\<not> slice_at h xs 0" using assms(2) 1 by (auto simp: slice_at_def)
    then have "slice_at h xs j \<and> (\<forall>i < j. \<not> slice_at h xs i) \<longleftrightarrow> j = 1" for j
      by (metis less_one linorder_neqE_nat)
    then show ?thesis using 1 \<open>slice_at h xs 1\<close> by (auto simp: first_slice_def unit_start_def)
  qed
next
  case (2 ys)
  show ?thesis
  proof (cases "ys = []")
    case True
    have "\<not> slice_at h xs j" for j using 2 True by (cases "j < 3") (auto simp: slice_at_def nal_at_def)
    then show ?thesis using 2 True by (simp add: first_slice_def unit_start_def)
  next
    case False
    then have "slice_at h xs 0" using assms(2) 2 by (auto simp: slice_at_def)
    then show ?thesis by (auto simp: first_slice_def unit_start_def)
  qed
qed

lemma first_slice_skip:
  assumes "code_len xs = Some n" and "n < length xs" and "\<not> vcl_type h (xs ! n)" and "first_slice h (drop n xs) pos"
  shows "first_slice h xs (n + pos)"
proof -
  have ps: "xs = take n xs @ drop n xs" "length (take n xs) = n" using assms(2) by simp_all
  have "\<not> slice_at h xs j \<and> j + 3 < length xs" if "j < n" "nal_at xs j" for j
    using assms(1)
  proof (cases rule: code_len_cases)
    case (1 ys)
    moreover have "j = 0 \<or> j = 1 \<or> j = 2 \<or> j = 3" using that(1) 1 by linarith
    ultimately have "j = 1" using that(2) by auto
    then show ?thesis using 1 assms(2,3) by (simp add: slice_at_def)
  next
    case (2 ys)
    moreover have "j = 0 \<or> j = 1 \<or> j = 2" using that(1) 2 by linarith
    ultimately have "j = 0" using that(2) by auto
    then show ?thesis using 2 assms(2,3) by (simp add: slice_at_def)
  qed
  moreover have "last (take n xs) \<noteq> 0" using assms(1) by (cases rule: code_len_cases) auto
  ultimately show ?thesis using first_slice_shift [of "take n xs" "drop n xs" h pos] ps assms(4) by simp
qed

lemma vcl_scan_first_slice: "first_slice h xs (vcl_scan h xs)"
proof (induction h xs rule: vcl_scan.induct)
  case (1 h xs)
  show ?case
  proof (cases "xs = []")
    case True
    then show ?thesis by (simp add: first_slice_def slice_at_def)
  next
    case False
    show ?thesis
    proof (cases "code_len xs")
      case None
      obtain b ys where xs: "xs = b # ys" using False by (cases xs) auto
      have "first_slice h ys (vcl_scan h ys)" using "1.IH"(1) False None by (simp add: xs)
      moreover have "nal_at ys 0 \<longrightarrow> b \<noteq> 0"
        using None by (cases ys rule: list.exhaust) (auto simp: nal_at_def code_len_def xs split: if_splits)
      ultimately show ?thesis
        using first_slice_shift [of "[b]" ys h "vcl_scan h ys"] code_len_nal [OF None] vcl_scan_None [OF False None, of h]
        by (simp add: xs)
    next
      case (Some n)
      show ?thesis
      proof (cases "length xs \<le> n \<or> is_vcl h (xs ! n)")
        case True
        then show ?thesis using first_slice_code [OF Some] vcl_scan_Some [OF Some, of h] by (simp add: is_vcl_type)
      next
        case skip: False
        then have "first_slice h (drop n xs) (vcl_scan h (drop n xs))" using "1.IH"(2) False Some by blast
        then show ?thesis
          using first_slice_skip [OF Some] vcl_scan_Some [OF Some, of h] skip by (simp add: is_vcl_type)
      qed
    qed
  qed
qed

section \<open>Scanning across an inserted unit\<close>

lemma vcl_scan_nonzero: "b \<noteq> 0 \<Longrightarrow> vcl_scan h (b # xs) = 1 + vcl_scan h xs"
  by (subst vcl_scan_None) (simp_all add: code_len_def)

lemma vcl_scan_clean:
  "\<not> has_forbidden zeros xs \<Longrightarrow> xs \<noteq> [] \<Longrightarrow> last xs \<noteq> 0 \<Longrightarrow>
   vcl_scan h (xs @ ys) = length xs + vcl_scan h ys"
proof (induction zeros xs rule: has_forbidden.induct)
  case (2 zeros b xs)
  have tail: "vcl_scan h (xs @ ys) = length xs + vcl_scan h ys"
    using 2 by (cases "xs = []") auto
  have "code_len (b # xs @ ys) = None"
  proof (cases "b = 0")
    case True
    then obtain c cs where xs: "xs = c # cs" using 2 by (cases xs) auto
    show ?thesis
    proof (cases "c = 0")
      case c: True
      then obtain d ds where cs: "cs = d # ds" using 2 xs by (cases cs) auto
      have "\<not> d \<le> 2" using 2(2) True xs c cs by auto
      then have "d \<noteq> 0" and "d \<noteq> 1" by auto
      then show ?thesis by (simp add: xs cs code_len_def)
    qed (simp add: xs code_len_def)
  qed (simp add: code_len_def)
  with tail show ?case by (simp add: vcl_scan_None)
qed simp

lemma sei_message_last [simp]: "sei_message t p \<noteq> []" "last (sei_message t p) = 0x80"
  by (simp_all add: sei_message_def)

lemma escaped_message_last [simp]:
  "rbsp_escape (sei_message t p) \<noteq> []" "last (rbsp_escape (sei_message t p)) = 0x80"
  by (simp_all add: rbsp_escape_def escape_loop_snoc_last last_escape_loop)

lemma vcl_scan_escaped:
  "vcl_scan h (rbsp_escape (sei_message t p) @ ys) = length (rbsp_escape (sei_message t p)) + vcl_scan h ys"
  by (rule vcl_scan_clean [where zeros = 0]) (simp_all, simp add: rbsp_escape_def escape_loop_not_forbidden)

lemma code_len_4 [simp]: "code_len (0 # 0 # 0 # 1 # xs) = Some 4"
  by (simp add: code_len_def)

lemma vcl_scan_sei_nal:
  "vcl_scan h (build_sei_nal t p h @ ys) = length (build_sei_nal t p h) + vcl_scan h ys"
proof -
  have "\<not> is_vcl h (hd (sei_nal_header h))"
    by (simp add: is_vcl_def sei_nal_header_def)
  then have "vcl_scan h (build_sei_nal t p h @ ys) =
      4 + vcl_scan h (sei_nal_header h @ rbsp_escape (sei_message t p) @ ys)"
    by (cases h) (simp_all add: build_sei_nal_def vcl_scan_Some sei_nal_header_def)
  also have "vcl_scan h (sei_nal_header h @ rbsp_escape (sei_message t p) @ ys) =
      length (sei_nal_header h) + vcl_scan h (rbsp_escape (sei_message t p) @ ys)"
    by (simp add: sei_nal_header_def vcl_scan_nonzero)
  finally show ?thesis by (simp add: vcl_scan_escaped build_sei_nal_def)
qed

text \<open>A start code that begins in the last bytes before the insertion point is not created by
  the four-byte start code that follows it.\<close>

lemma code_len_prefix:
  assumes "P \<noteq> []" and "S = [] \<or> code_len S \<noteq> None" and "code_len (P @ S) = None"
  shows "code_len (P @ [0, 0, 0, 1] @ T) = None"
proof -
  consider a where "P = [a]" | a b where "P = [a, b]" | a b c where "P = [a, b, c]"
    | a b c d Q where "P = a # b # c # d # Q"
    using assms(1) by (metis neq_Nil_conv)
  then show ?thesis
    using assms(2,3) by cases (auto simp: code_len_def split: if_splits)
qed

lemma code_len_extend:
  assumes "code_len (P @ S) = Some n" and "n \<le> length P"
  shows "code_len (P @ S') = Some n"
proof (cases "n = 4")
  case True
  with assms show ?thesis by (auto simp: code_len_def split: if_splits)
next
  case False
  with assms have "take 3 P = [0, 0, 1]" "n = 3" by (auto simp: code_len_def split: if_splits)
  moreover from this(1) obtain Q where "P = 0 # 0 # 1 # Q"
    using append_take_drop_id [of 3 P] by (metis append_Cons)
  ultimately show ?thesis by (simp add: code_len_def)
qed

lemma vcl_scan_prefix:
  assumes "vcl_scan h (P @ S) = length P" and "S = [] \<or> code_len S \<noteq> None"
  shows "vcl_scan h (P @ [0, 0, 0, 1] @ T) = length P + vcl_scan h ([0, 0, 0, 1] @ T)"
  using assms
proof (induction "length P" arbitrary: P rule: less_induct)
  case less
  show ?case
  proof (cases "P = []")
    case False
    show ?thesis
    proof (cases "code_len (P @ S)")
      case None
      have "vcl_scan h (drop 1 P @ S) = length (drop 1 P)"
        using less.prems(1) None False by (cases P) (simp_all add: vcl_scan_None)
      then have "vcl_scan h (drop 1 P @ [0, 0, 0, 1] @ T) = length (drop 1 P) + vcl_scan h ([0, 0, 0, 1] @ T)"
        by (intro less.hyps) (use False less.prems(2) in auto)
      moreover have "code_len (P @ [0, 0, 0, 1] @ T) = None"
        by (rule code_len_prefix) (use False None less.prems(2) in auto)
      ultimately show ?thesis
        using False by (cases P) (simp_all add: vcl_scan_None)
    next
      case (Some n)
      have skip: "\<not> length (P @ S) \<le> n" "\<not> is_vcl h ((P @ S) ! n)"
        and rest: "n + vcl_scan h (drop n (P @ S)) = length P"
        using less.prems(1) Some False by (auto simp: vcl_scan_Some simp del: drop_append split: if_splits)
      have n: "n \<le> length P" "3 \<le> n" using rest code_len_pos [OF Some] by auto
      have hd0: "S \<noteq> [] \<Longrightarrow> S ! 0 = 0"
        using less.prems(2) by (cases S) (auto simp: code_len_def split: if_splits)
      have code: "code_len (P @ [0, 0, 0, 1] @ T) = Some n"
        by (rule code_len_extend [OF Some n(1)])
      have "\<not> is_vcl h ((P @ [0, 0, 0, 1] @ T) ! n)"
        using skip n hd0 by (cases "n = length P") (auto simp: nth_append)
      moreover have "vcl_scan h (drop n P @ [0, 0, 0, 1] @ T) =
          length (drop n P) + vcl_scan h ([0, 0, 0, 1] @ T)"
      proof (rule less.hyps)
        have "drop n (P @ S) = drop n P @ S" using n by simp
        with rest n show "vcl_scan h (drop n P @ S) = length (drop n P)" by (metis add_diff_cancel_left' length_drop)
      qed (use n False less.prems(2) in auto)
      ultimately show ?thesis using n code by (simp add: vcl_scan_Some)
    qed
  qed simp
qed

definition hdr_sei_nals :: "hdr_metadata \<Rightarrow> bool \<Rightarrow> bytes" where
  "hdr_sei_nals m h =
     build_sei_nal 137 (build_mdcv_sei_payload m h) h @ build_sei_nal 144 (build_clli_sei_payload m) h"

lemma vcl_scan_hdr_sei_nals: "vcl_scan h (hdr_sei_nals m h @ ys) = length (hdr_sei_nals m h) + vcl_scan h ys"
  by (simp add: hdr_sei_nals_def vcl_scan_sei_nal)

lemma vcl_scan_insert:
  "vcl_scan h (insert_at (vcl_scan h data) (hdr_sei_nals m h) data) =
   vcl_scan h data + length (hdr_sei_nals m h)"
proof -
  let ?n = "vcl_scan h data"
  have result: "?n \<le> length data" "drop ?n data = [] \<or> code_len (drop ?n data) \<noteq> None"
    using vcl_scan_result [of h data] by auto
  have nals: "hdr_sei_nals m h = [0, 0, 0, 1] @ drop 4 (hdr_sei_nals m h)"
    by (simp add: hdr_sei_nals_def build_sei_nal_def)
  have "vcl_scan h (take ?n data @ [0, 0, 0, 1] @ drop 4 (hdr_sei_nals m h) @ drop ?n data) =
      length (take ?n data) + vcl_scan h ([0, 0, 0, 1] @ drop 4 (hdr_sei_nals m h) @ drop ?n data)"
    by (rule vcl_scan_prefix [where S = "drop ?n data"]) (use result in \<open>auto simp: min_def\<close>)
  then have "vcl_scan h (insert_at ?n (hdr_sei_nals m h) data) =
      ?n + vcl_scan h (hdr_sei_nals m h @ drop ?n data)"
    unfolding insert_at_def by (subst (1 2) nals) (use result in simp)
  moreover have "vcl_scan h (drop ?n data) = 0"
    by (rule vcl_scan_at_result)
  ultimately show ?thesis by (simp add: vcl_scan_hdr_sei_nals)
qed

section \<open>Reading a unit back\<close>

text \<open>A decoder of SEI units after the standard: the start code and the header, the escaped body,
  the type and the size in runs of 255, the payload and the stop bit.\<close>

fun ff_decode :: "bytes \<Rightarrow> (nat \<times> bytes) option" where
  "ff_decode [] = None"
| "ff_decode (b # bs) =
     (if b = 0xff then map_option (\<lambda>(n, rest). (n + 255, rest)) (ff_decode bs) else Some (unat b, bs))"

definition parse_sei_message :: "bytes \<Rightarrow> (nat \<times> bytes) option" where
  "parse_sei_message msg =
     (case ff_decode msg of None \<Rightarrow> None
      | Some (ty, rest) \<Rightarrow>
          (case ff_decode rest of None \<Rightarrow> None
           | Some (n, body) \<Rightarrow> if drop n body = [0x80] then Some (ty, take n body) else None))"

definition parse_sei_nal :: "bool \<Rightarrow> bytes \<Rightarrow> (nat \<times> bytes) option" where
  "parse_sei_nal h nal =
     (let n = length (sei_nal_header h)
      in if take (4 + n) nal = [0, 0, 0, 1] @ sei_nal_header h
         then parse_sei_message (rbsp_unescape 0 (drop (4 + n) nal)) else None)"

lemma ff_decode_coded: "ff_decode (ff_coded n @ rest) = Some (n, rest)"
proof (induction n rule: ff_coded.induct)
  case (1 n)
  show ?case
  proof (cases "255 \<le> n")
    case False
    then have "word_of_nat n \<noteq> (0xff :: u8)" and "unat (word_of_nat n :: u8) = n"
      by (auto simp: unat_of_nat word_unat_eq_iff)
    with False show ?thesis by (subst ff_coded.simps) simp
  qed (use 1 in \<open>subst ff_coded.simps, simp\<close>)
qed

lemma parse_sei_message_message: "parse_sei_message (sei_message t p) = Some (unat t, p)"
  by (simp add: parse_sei_message_def sei_message_def ff_decode_coded)

section \<open>LEB128\<close>

lemma bit_group_masks [simp]:
  "bit (0x80 :: int) n \<longleftrightarrow> n = 7" "bit (0x7f :: int) n \<longleftrightarrow> n < 7"
proof -
  show "bit (0x80 :: int) n \<longleftrightarrow> n = 7" using bit_exp_iff [of 7 n, where 'a = int] by auto
  have "bit (mask 7 :: int) n \<longleftrightarrow> n < 7"
    by (auto simp: bit_mask_iff)
  then show "bit (0x7f :: int) n \<longleftrightarrow> n < 7"
    by (simp add: mask_eq_exp_minus_1)
qed
lemma low_group_continues:
  fixes v :: u64
  shows "(ucast (v AND 0x7f) OR 0x80) AND 0x7f = (ucast (v AND 0x7f) AND 0x7f :: u8)"
    and "(ucast (v AND 0x7f) OR 0x80) AND 0x80 = (0x80 :: u8)"
    and "ucast (v AND 0x7f) AND 0x80 = (0 :: u8)"
proof -
  show "(ucast (v AND 0x7f) OR 0x80) AND 0x7f = (ucast (v AND 0x7f) AND 0x7f :: u8)"
    by (rule bit_eqI) (auto simp: bit_and_iff bit_or_iff bit_unsigned_iff)
  show "(ucast (v AND 0x7f) OR 0x80) AND 0x80 = (0x80 :: u8)"
    by (rule bit_eqI) (auto simp: bit_and_iff bit_or_iff bit_unsigned_iff)
  show "ucast (v AND 0x7f) AND 0x80 = (0 :: u8)"
    by (rule bit_eqI) (auto simp: bit_and_iff bit_or_iff bit_unsigned_iff)
qed

lemma low_group_ucast: "ucast (ucast (v AND 0x7f) AND 0x7f :: u8) = (v :: u64) AND 0x7f"
  by (rule bit_eqI) (auto simp: bit_simps)

lemma leb128_split:
  "acc OR push_bit s (v AND 0x7f) OR push_bit (s + 7) (drop_bit 7 v) = acc OR push_bit s (v :: u64)"
proof -
  have sum: "s + 7 \<le> n \<Longrightarrow> 7 + (n - (s + 7)) = n - s" for n by simp
  show ?thesis
    by (rule bit_eqI)
      (auto simp: bit_and_iff bit_or_iff bit_push_bit_iff bit_drop_bit_eq, metis sum le_diff_conv2 add.commute not_less)
qed
lemma power_7_less: "(2 :: nat) ^ 7 < 2 ^ m \<Longrightarrow> 7 < m"
  by (rule power_less_imp_less_exp [of 2]) simp_all

lemma power_split_7: "7 \<le> m \<Longrightarrow> (2 :: nat) ^ m = 2 ^ (m - 7) * 2 ^ 7"
  by (metis le_add_diff_inverse2 power_add)

lemma leb128_decode_loop_encode:
  "s < 64 \<Longrightarrow> unat v < 2 ^ (64 - s) \<Longrightarrow>
   leb128_decode_loop acc s used (leb128_encode v @ rest) =
     Inr (acc OR push_bit s v, used + length (leb128_encode v))"
proof (induction v arbitrary: acc s used rule: leb128_encode.induct)
  case (1 v)
  let ?next = "drop_bit 7 v"
  show ?case
  proof (cases "?next = 0")
    case True
    then have "acc OR push_bit s (v AND 0x7f) = acc OR push_bit s v"
      using leb128_split [of acc s v] by simp
    with True "1.prems" show ?thesis
      by (subst (1 2) leb128_encode.simps) (simp add: low_group_continues low_group_ucast)
  next
    case False
    have "2 ^ 7 \<le> unat v"
      using False by (simp add: unat_drop_bit flip: unat_eq_zero)
    from this "1.prems"(2) have "(2 :: nat) ^ 7 < 2 ^ (64 - s)" by (rule le_less_trans)
    from power_7_less [OF this] have s: "s + 7 < 64" by simp
    have "unat ?next < 2 ^ (64 - (s + 7))"
    proof -
      have "(2 :: nat) ^ (64 - s) = 2 ^ (64 - (s + 7)) * 2 ^ 7"
        using s power_split_7 [of "64 - s"] by simp
      with "1.prems"(2) show ?thesis
        by (simp add: unat_drop_bit less_mult_imp_div_less)
    qed
    with s False have "leb128_decode_loop (acc OR push_bit s (v AND 0x7f)) (s + 7) (used + 1) (leb128_encode ?next @ rest) =
        Inr ((acc OR push_bit s (v AND 0x7f)) OR push_bit (s + 7) ?next, used + 1 + length (leb128_encode ?next))"
      by (intro "1.IH" [OF refl refl]) auto
    with False "1.prems" show ?thesis
      by (subst (1 2) leb128_encode.simps)
        (simp add: Let_def low_group_continues low_group_ucast leb128_split or.assoc del: push_bit_and)
  qed
qed

lemma leb128_decode_encode: "leb128_decode (leb128_encode v @ rest) = Inr (v, length (leb128_encode v))"
  using leb128_decode_loop_encode [of 0 v 0 0 rest] unsigned_less [of v, where 'a = nat]
  by (simp add: leb128_decode_def)

lemma length_leb128_encode: "0 < k \<Longrightarrow> unat v < 2 ^ (7 * k) \<Longrightarrow> length (leb128_encode v) \<le> k"
proof (induction v arbitrary: k rule: leb128_encode.induct)
  case (1 v)
  show ?case
  proof (cases "drop_bit 7 v = 0")
    case False
    have "2 ^ 7 \<le> unat v"
      using False by (simp add: unat_drop_bit flip: unat_eq_zero)
    from this "1.prems"(2) have "(2 :: nat) ^ 7 < 2 ^ (7 * k)" by (rule le_less_trans)
    from power_7_less [OF this] have k: "1 < k" by simp
    then have "(2 :: nat) ^ (7 * k) = 2 ^ (7 * (k - 1)) * 2 ^ 7"
      using power_split_7 [of "7 * k"] by (simp add: diff_mult_distrib2)
    with "1.prems"(2) have "unat (drop_bit 7 v) < 2 ^ (7 * (k - 1))"
      by (simp add: unat_drop_bit less_mult_imp_div_less)
    then have "length (leb128_encode (drop_bit 7 v)) \<le> k - 1"
      using False k by (intro "1.IH" [OF refl refl]) auto
    with False k show ?thesis by (subst leb128_encode.simps) simp
  qed (use 1 in \<open>subst leb128_encode.simps, simp\<close>)
qed

lemma leb128_encode_bound: "length (leb128_encode v) \<le> 10"
proof (rule length_leb128_encode)
  have "unat v < 2 ^ 64" using unsigned_less [of v, where 'a = nat] by simp
  also have "\<dots> < (2 :: nat) ^ (7 * 10)" by simp
  finally show "unat v < 2 ^ (7 * 10)" .
qed simp

lemma leb128_encode_small: "n < 128 \<Longrightarrow> leb128_encode (word_of_nat n) = [word_of_nat n]"
proof -
  assume n: "n < 128"
  then have "drop_bit 7 (word_of_nat n :: u64) = 0"
    by (simp add: unat_drop_bit unat_of_nat flip: unat_eq_zero)
  moreover have "word_of_nat n AND (0x7f :: u64) = word_of_nat n"
    using n of_nat_take_bit [of 7 n, where 'a = u64] take_bit_eq_mask [of 7 "word_of_nat n :: u64"]
    by (simp add: take_bit_nat_eq_self mask_eq_exp_minus_1)
  moreover have "ucast (word_of_nat n :: u64) = (word_of_nat n :: u8)"
    using n by (simp add: word_unat_eq_iff unsigned_ucast_eq unat_of_nat take_bit_eq_mod)
  ultimately show ?thesis
    by (subst leb128_encode.simps) simp
qed

text \<open>The shift reaches 70 at the eleventh byte.\<close>

lemma leb128_decode_loop_panic:
  "k \<le> 10 \<Longrightarrow>
   leb128_decode_loop acc (7 * k) used data = Inl Panic \<longleftrightarrow>
   10 - k < length data \<and> (\<forall>b \<in> set (take (10 - k) data). b AND 0x80 \<noteq> 0)"
proof (induction data arbitrary: acc k used)
  case (Cons b data)
  show ?case
  proof (cases "k = 10")
    case False
    with Cons.prems have k: "Suc k \<le> 10" by simp
    then have "10 - k = Suc (10 - Suc k)" by simp
    with k Cons.IH [OF k] show ?thesis by (auto simp: Let_def algebra_simps)
  qed simp
qed simp

lemma leb128_decode_not_Err: "leb128_decode_loop acc s used data \<noteq> Inl Err"
  by (induction acc s used data rule: leb128_decode_loop.induct) (auto simp: rbind_eq_Inl Let_def split: if_splits)

section \<open>The walk over the OBUs\<close>

text \<open>A decode that ends before \<open>n\<close> reads only the first \<open>n\<close> bytes.\<close>

lemma leb128_decode_loop_used:
  "leb128_decode_loop acc s used data = Inr (v, n) \<Longrightarrow> used \<le> n \<and> n \<le> used + length data"
proof (induction data arbitrary: acc s used)
  case (Cons b data)
  then show ?case
    by (auto simp: rbind_eq_Inr Let_def split: if_splits dest!: Cons.IH)
qed simp

lemma leb128_decode_loop_extend:
  "leb128_decode_loop acc s used (data @ xs) = Inr (v, n) \<Longrightarrow> n < used + length data \<Longrightarrow>
   leb128_decode_loop acc s used (data @ ys) = Inr (v, n)"
proof (induction data arbitrary: acc s used)
  case Nil
  then show ?case using leb128_decode_loop_used [of acc s used xs v n] by simp
next
  case (Cons b data)
  show ?case
  proof (cases "b AND 0x80 = 0")
    case False
    with Cons.prems show ?thesis
      by (auto simp: rbind_eq_Inr Let_def intro!: Cons.IH)
  qed (use Cons.prems in \<open>simp add: Let_def\<close>)
qed

text \<open>A field that ends exactly at the boundary is also read in full, unless it lacks a last byte.\<close>

lemma leb128_decode_loop_boundary:
  "leb128_decode_loop acc s used (data @ xs) = Inr (v, used + length data) \<Longrightarrow> data \<noteq> [] \<Longrightarrow> xs \<noteq> [] \<Longrightarrow>
   leb128_decode_loop acc s used (data @ ys) = Inr (v, used + length data)"
proof (induction data arbitrary: acc s used)
  case (Cons b data)
  show ?case
  proof (cases "b AND 0x80 = 0")
    case False
    show ?thesis
    proof (cases "data = []")
      case True
      obtain x xs' where xs: "xs = x # xs'" using Cons.prems by (cases xs) auto
      have "used + 2 \<le> n" if "leb128_decode_loop acc' (s + 7) (used + 1) xs = Inr (v, n)" for acc' n
        using that unfolding xs
        by (auto simp: rbind_eq_Inr Let_def split: if_splits dest!: leb128_decode_loop_used)
      with Cons.prems False True show ?thesis
        by (fastforce simp: rbind_eq_Inr Let_def)
    next
      case data: False
      from Cons.prems False obtain acc' where s: "s < 64"
        and acc': "acc' = acc OR push_bit s (ucast (b AND 0x7f))"
        and rest: "leb128_decode_loop acc' (s + 7) (used + 1) (data @ xs) = Inr (v, (used + 1) + length data)"
        by (auto simp: rbind_eq_Inr Let_def)
      from Cons.IH [OF rest data Cons.prems(3)] s False acc' show ?thesis
        by (simp add: Let_def)
    qed
  qed (use Cons.prems in \<open>simp add: Let_def\<close>)
qed simp

lemma leb128_decode_within:
  assumes "leb128_decode (data @ xs) = Inr (v, n)" and "n \<le> length data" and "xs \<noteq> []" and "0 < n"
  shows "leb128_decode (data @ ys) = Inr (v, n)"
proof (cases "n = length data")
  case True
  with assms have "data \<noteq> []" by auto
  with True assms show ?thesis
    using leb128_decode_loop_boundary [of 0 0 0 data xs v ys] by (simp add: leb128_decode_def)
next
  case False
  with assms show ?thesis
    using leb128_decode_loop_extend [of 0 0 0 data xs v n ys] by (simp add: leb128_decode_def)
qed

lemma leb128_decode_pos: "leb128_decode (x # xs) = Inr (v, n) \<Longrightarrow> 0 < n"
  by (auto simp: leb128_decode_def rbind_eq_Inr Let_def split: if_splits dest!: leb128_decode_loop_used)

lemma obu_step_prefix:
  assumes step: "obu_step (A @ B) i = Inr (Inr j)" and "i < length A" and "j \<le> length A" and "B \<noteq> []"
  shows "obu_step (A @ B') i = Inr (Inr j)"
proof -
  let ?off = "i + 1 + (if obu_has_extension (A ! i) then 1 else 0)"
  from step \<open>i < length A\<close> obtain size used
    where kind: "\<not> (obu_type (A ! i) = 6 \<or> obu_type (A ! i) = 3)" "obu_has_size (A ! i)"
      and dec: "leb128_decode (drop ?off (A @ B)) = Inr (size, used)"
      and j: "j = ?off + used + unat size"
    by (auto simp: obu_step_def Let_def nth_append rbind_eq_Inr split: if_splits)
  have off: "?off \<le> length A" using j \<open>j \<le> length A\<close> by simp
  then have drops: "drop ?off (A @ X) = drop ?off A @ X" for X by simp
  have "drop ?off (A @ B) \<noteq> []" using off \<open>B \<noteq> []\<close> by (simp del: drop_eq_Nil)
  then have "0 < used" using dec by (cases "drop ?off (A @ B)") (auto dest: leb128_decode_pos)
  then have "leb128_decode (drop ?off A @ B') = Inr (size, used)"
    using leb128_decode_within [of "drop ?off A" B size used B'] dec j \<open>j \<le> length A\<close> \<open>B \<noteq> []\<close> off
    unfolding drops by simp
  then show ?thesis
    using kind j off \<open>i < length A\<close> drops [of B']
    by (simp add: obu_step_def Let_def nth_append del: drop_append)
qed

lemma find_first_frame_obu_from_reaches:
  "find_first_frame_obu_from (A @ B) i = Inr (length A) \<Longrightarrow> B \<noteq> [] \<Longrightarrow>
   i \<le> length A \<and> find_first_frame_obu_from (A @ B') i = find_first_frame_obu_from (A @ B') (length A) \<and>
   (obu_type (B ! 0) = 6 \<or> obu_type (B ! 0) = 3)"
proof (induction "A @ B" i rule: find_first_frame_obu_from.induct)
  case (1 i)
  have i: "i < length (A @ B)"
    using "1.prems" by (auto simp: find_first_frame_obu_from.simps split: if_splits)
  show ?case
  proof (cases "obu_step (A @ B) i")
    case (Inr nx)
    show ?thesis
    proof (cases nx)
      case (Inl r)
      with Inr "1.prems" i have "r = length A" by (simp add: find_first_frame_obu_from.simps)
      with Inl Inr i \<open>B \<noteq> []\<close> have "i = length A" "obu_type (B ! 0) = 6 \<or> obu_type (B ! 0) = 3"
        by (auto simp: obu_step_def Let_def rbind_eq_Inr nth_append split: if_splits)
      then show ?thesis by simp
    next
      case nx: (Inr j)
      with Inr have step: "obu_step (A @ B) i = Inr (Inr j)" by simp
      have "find_first_frame_obu_from (A @ B) j = Inr (length A)"
        using "1.prems"(1) i step by (subst (asm) find_first_frame_obu_from.simps) simp
      from "1.hyps" [OF i Inr nx this \<open>B \<noteq> []\<close>]
      have IH: "j \<le> length A" "find_first_frame_obu_from (A @ B') j = find_first_frame_obu_from (A @ B') (length A)"
        "obu_type (B ! 0) = 6 \<or> obu_type (B ! 0) = 3" by auto
      have "i < j" using obu_step_advances [OF step] .
      with IH have "i < length A" by simp
      with step IH have "obu_step (A @ B') i = Inr (Inr j)"
        using obu_step_prefix \<open>B \<noteq> []\<close> by blast
      then have "find_first_frame_obu_from (A @ B') i = find_first_frame_obu_from (A @ B') j"
        using \<open>i < length A\<close> by (subst find_first_frame_obu_from.simps) simp
      with IH \<open>i < length A\<close> show ?thesis by simp
    qed
  qed (use "1.prems" i in \<open>simp add: find_first_frame_obu_from.simps\<close>)
qed

lemma obu_step_metadata:
  assumes "length payload + 1 < 2 ^ 64"
  shows "obu_step (A @ build_av1_metadata_obu payload @ B) (length A) =
    Inr (Inr (length A + length (build_av1_metadata_obu payload)))"
  using assms
  by (simp add: obu_step_def Let_def build_av1_metadata_obu_def nth_append obu_type_def obu_has_size_def
      obu_has_extension_def leb128_decode_encode unat_of_nat del: of_nat_add of_nat_Suc)

lemma find_from_metadata:
  assumes "length payload + 1 < 2 ^ 64"
  shows "find_first_frame_obu_from (A @ build_av1_metadata_obu payload @ B) (length A) =
    find_first_frame_obu_from (A @ build_av1_metadata_obu payload @ B) (length (A @ build_av1_metadata_obu payload))"
  by (subst find_first_frame_obu_from.simps)
    (simp add: obu_step_metadata [OF assms, simplified], simp add: build_av1_metadata_obu_def)

lemma hdr_obu_lengths:
  assumes "wf_hdr_metadata m"
  shows "length (concat (map av1_point (display_primaries m))) = 12"
proof -
  obtain a b c where "display_primaries m = [a, b, c]"
    using assms by (auto simp: wf_hdr_metadata_def length_Suc_conv numeral_3_eq_3)
  then show ?thesis by (simp add: av1_point_def be16_pair_def)
qed

lemma find_from_hdr_obus:
  assumes "wf_hdr_metadata m"
  shows "find_first_frame_obu_from (A @ (build_av1_mdcv_obu m @ build_av1_cll_obu m) @ B) (length A) =
    find_first_frame_obu_from (A @ (build_av1_mdcv_obu m @ build_av1_cll_obu m) @ B)
      (length (A @ build_av1_mdcv_obu m @ build_av1_cll_obu m))"
proof -
  have "find_first_frame_obu_from (A @ build_av1_mdcv_obu m @ (build_av1_cll_obu m @ B)) (length A) =
      find_first_frame_obu_from (A @ build_av1_mdcv_obu m @ (build_av1_cll_obu m @ B)) (length (A @ build_av1_mdcv_obu m))"
    unfolding build_av1_mdcv_obu_def
    by (rule find_from_metadata) (simp add: hdr_obu_lengths [OF assms] av1_point_def be16_pair_def)
  also have "\<dots> = find_first_frame_obu_from ((A @ build_av1_mdcv_obu m) @ build_av1_cll_obu m @ B)
      (length ((A @ build_av1_mdcv_obu m) @ build_av1_cll_obu m))"
    unfolding append_assoc [symmetric, of A "build_av1_mdcv_obu m"]
    unfolding build_av1_cll_obu_def by (rule find_from_metadata) simp
  finally show ?thesis by simp
qed

lemma find_from_frame:
  assumes "B \<noteq> []" and "obu_type (B ! 0) = 6 \<or> obu_type (B ! 0) = 3"
  shows "find_first_frame_obu_from (A @ B) (length A) = Inr (length A)"
  using assms by (subst find_first_frame_obu_from.simps) (auto simp: obu_step_def Let_def nth_append)

section \<open>Unit conversions\<close>

lemma div_bounds: "0 < d \<Longrightarrow> d * (a div d) \<le> a \<and> a < d * (a div d) + d" for a d :: nat
  using dividend_less_times_div [of d a] by (simp add: add.commute)

lemma uint_word_of_nat: "n < 2 ^ LENGTH('a :: len) \<Longrightarrow> uint (word_of_nat n :: 'a word) = int n"
  by (metis of_nat_inverse uint_nat)

lemma av1_chromaticity_rounded:
  "if v < 50000 then \<bar>50000 * uint (av1_chromaticity v) - 65536 * uint v\<bar> \<le> 25000
   else av1_chromaticity v = 0xffff"
proof -
  define q where "q = (unat v * 65536 + 25000) div 50000"
  have q: "50000 * q \<le> unat v * 65536 + 25000" "unat v * 65536 + 25000 < 50000 * q + 50000"
    using div_bounds [of 50000 "unat v * 65536 + 25000"] by (simp_all add: q_def)
  show ?thesis
  proof (cases "v < 50000")
    case True
    then have "unat v < 50000" by (simp add: word_less_nat_alt)
    with q have q16: "q < 65536" and m: "min q 65535 = q" by auto
    have "uint (av1_chromaticity v) = int q"
      unfolding av1_chromaticity_def q_def [symmetric] m by (rule uint_word_of_nat) (use q16 in simp)
    moreover have "uint v = int (unat v)" by simp
    ultimately show ?thesis using True q by (simp only: if_True)
  next
    case False
    then have "50000 \<le> unat v" by (simp add: word_less_nat_alt)
    with q have "min q 65535 = 65535" by simp
    with False show ?thesis
      unfolding av1_chromaticity_def q_def [symmetric] by simp
  qed
qed

lemma av1_luminance_max_rounded: "\<bar>10000 * uint (av1_luminance_max w) - 256 * uint w\<bar> \<le> 5000"
proof -
  define q where "q = (unat w * 256 + 5000) div 10000"
  have q: "10000 * q \<le> unat w * 256 + 5000" "unat w * 256 + 5000 < 10000 * q + 10000"
    using div_bounds [of 10000 "unat w * 256 + 5000"] by (simp_all add: q_def)
  have w: "unat w < 4294967296" using unsigned_less [of w, where 'a = nat] by simp
  have q32: "q < 4294967296" using q w by linarith
  have "uint (av1_luminance_max w) = int q"
    unfolding av1_luminance_max_def q_def [symmetric] by (rule uint_word_of_nat) (use q32 in simp)
  moreover have "uint w = int (unat w)" by simp
  ultimately show ?thesis using q by linarith
qed

lemma av1_luminance_min_rounded:
  "if w < 2621440000 then \<bar>10000 * uint (av1_luminance_min w) - 16384 * uint w\<bar> \<le> 5000
   else av1_luminance_min w = 0xffffffff"
proof -
  define q where "q = (unat w * 16384 + 5000) div 10000"
  have q: "10000 * q \<le> unat w * 16384 + 5000" "unat w * 16384 + 5000 < 10000 * q + 10000"
    using div_bounds [of 10000 "unat w * 16384 + 5000"] by (simp_all add: q_def)
  show ?thesis
  proof (cases "w < 2621440000")
    case True
    then have "unat w < 2621440000" by (simp add: word_less_nat_alt)
    with q have q32: "q < 4294967296" by linarith
    then have m: "min q (2 ^ 32 - 1) = q" by simp
    have "uint (av1_luminance_min w) = int q"
      unfolding av1_luminance_min_def q_def [symmetric] m by (rule uint_word_of_nat) (use q32 in simp)
    moreover have "uint w = int (unat w)" by simp
    ultimately show ?thesis using True q by (simp only: if_True)
  next
    case False
    then have "2621440000 \<le> unat w" by (simp add: word_less_nat_alt)
    with q have "min q (2 ^ 32 - 1) = 2 ^ 32 - 1" by simp
    with False show ?thesis
      unfolding av1_luminance_min_def q_def [symmetric] by simp
  qed
qed

section \<open>Correctness\<close>

text \<open>
  C37. The metadata goes immediately before the first coded slice and nothing else of an H.264 or H.265 picture
  changes, for every input bitstream and all metadata. The place is where the first unit of a slice type begins, with
  its leading zero byte if it has one; in data without a slice it is a start code with nothing behind it at the very end
  (the source's comment promises the end of the data there), or else the end of the data. After the insertion the
  scanner finds the same slice behind the two units.
\<close>

theorem hdr_sei_injection:
  "\<exists>pos. inject_h26x_sei data m h = take pos data @ hdr_sei_nals m h @ drop pos data \<and> pos \<le> length data \<and>
    (\<forall>j. slice_at h data j \<and> (\<forall>i < j. \<not> slice_at h data i) \<longrightarrow> pos = unit_start data j) \<and>
    ((\<forall>j. \<not> slice_at h data j) \<longrightarrow>
      pos = (if 3 \<le> length data \<and> nal_at data (length data - 3) then unit_start data (length data - 3) else length data)) \<and>
    find_first_vcl_nal (inject_h26x_sei data m h) h = pos + length (hdr_sei_nals m h)"
proof -
  let ?pos = "vcl_scan h data"
  have le: "?pos \<le> length data" using vcl_scan_result [of h data] by blast
  moreover have "inject_h26x_sei data m h = insert_at ?pos (hdr_sei_nals m h) data"
    by (simp add: inject_h26x_sei_def find_first_vcl_nal_scan hdr_sei_nals_def)
  ultimately show ?thesis
    using vcl_scan_first_slice [of h data] vcl_scan_insert [of h data m]
    unfolding first_slice_def by (intro exI [of _ ?pos]) (simp add: find_first_vcl_nal_scan insert_at_def)
qed

text \<open>A parameter set with a four-byte start code, then a slice with one.\<close>

theorem hdr_sei_injection_witness:
  "inject_h26x_sei [0, 0, 0, 1, 0x67, 0x42, 0, 0, 0, 1, 0x65, 0x88] hdr_metadata_fallback False =
    [0, 0, 0, 1, 0x67, 0x42] @ hdr_sei_nals hdr_metadata_fallback False @ [0, 0, 0, 1, 0x65, 0x88]"
proof -
  let ?data = "[0, 0, 0, 1, 0x67, 0x42, 0, 0, 0, 1, 0x65, 0x88] :: bytes"
  have first: "slice_at False ?data 7 \<and> (\<forall>i < 7. \<not> slice_at False ?data i)" "unit_start ?data 7 = 6"
    by code_simp+
  then show ?thesis using hdr_sei_injection [of ?data hdr_metadata_fallback False] by fastforce
qed

text \<open>
  An SEI unit read by a decoder of the standard gives back the payload type and the payload, of any
  length, and behind its start code no two zero bytes are followed by a byte of 2 or less, so no
  start code is emulated.
\<close>

theorem sei_nal_roundtrip:
  "parse_sei_nal h (build_sei_nal t p h) = Some (unat t, p) \<and>
   \<not> has_forbidden 0 (drop 4 (build_sei_nal t p h))"
  by (simp add: parse_sei_nal_def build_sei_nal_def Let_def rbsp_escape_def rbsp_unescape_escape_loop
      parse_sei_message_message sei_nal_header_def escape_loop_not_forbidden)

text \<open>
  When an AV1 picture has a frame OBU the two metadata OBUs go immediately before it, the rest is
  unchanged, and the walk over the output skips them and stops at the same OBU.
\<close>

theorem hdr_obu_injection:
  assumes "find_first_frame_obu data = Inr pos" and "pos < length data" and "wf_hdr_metadata m"
  shows "\<exists>out n. inject_av1_metadata data m = Inr out \<and> find_first_frame_obu out = Inr n \<and>
    take pos out = take pos data \<and>
    slice pos n out = build_av1_mdcv_obu m @ build_av1_cll_obu m \<and> drop n out = drop pos data"
proof -
  let ?A = "take pos data" and ?B = "drop pos data" and ?new = "build_av1_mdcv_obu m @ build_av1_cll_obu m"
  have B: "?B \<noteq> []" and A: "length ?A = pos" using assms(2) by auto
  have "find_first_frame_obu_from (?A @ ?B) 0 = Inr (length ?A)"
    using assms(1) A by (simp add: find_first_frame_obu_def)
  note reach = find_first_frame_obu_from_reaches [OF this B, of "?new @ ?B"]
  have "find_first_frame_obu (?A @ ?new @ ?B) =
      find_first_frame_obu_from ((?A @ ?new) @ ?B) (length (?A @ ?new))"
    using reach find_from_hdr_obus [OF assms(3), of ?A ?B] by (simp add: find_first_frame_obu_def)
  also have "\<dots> = Inr (length (?A @ ?new))"
    using reach B by (intro find_from_frame) auto
  finally have "find_first_frame_obu (?A @ ?new @ ?B) = Inr (length (?A @ ?new))" .
  then show ?thesis
    using assms(1) A by (simp add: inject_av1_metadata_def insert_at_def slice_def)
qed

text \<open>A temporal delimiter, then a frame OBU.\<close>

lemma hdr_obu_injection_witness:
  "\<exists>out n. inject_av1_metadata [0x12, 0, 0x32, 1, 0] hdr_metadata_fallback = Inr out \<and>
    find_first_frame_obu out = Inr n \<and> take 2 out = [0x12, 0] \<and>
    slice 2 n out = build_av1_mdcv_obu hdr_metadata_fallback @ build_av1_cll_obu hdr_metadata_fallback \<and>
    drop n out = [0x32, 1, 0]"
proof -
  have "find_first_frame_obu [0x12, 0, 0x32, 1, 0] = Inr 2"
    by (simp add: find_first_frame_obu_def find_first_frame_obu_from.simps obu_step_def obu_type_def
        obu_has_size_def obu_has_extension_def leb128_decode_def)
  from hdr_obu_injection [OF this _ wf_hdr_metadata_fallback] show ?thesis by simp
qed

text \<open>
  Every 64-bit size is read back from its LEB128 bytes, at most ten of them, whatever follows; and
  the reader traps on the shift exactly when ten bytes in a row announce an eleventh that is there.
\<close>

theorem leb128_roundtrip:
  "leb128_decode (leb128_encode v @ rest) = Inr (v, length (leb128_encode v)) \<and>
   length (leb128_encode v) \<le> 10 \<and>
   (leb128_decode data = Inl Panic \<longleftrightarrow>
      10 < length data \<and> list_all (\<lambda>b. b AND 0x80 \<noteq> 0) (take 10 data))"
proof (intro conjI)
  show "leb128_decode data = Inl Panic \<longleftrightarrow>
      10 < length data \<and> list_all (\<lambda>b. b AND 0x80 \<noteq> 0) (take 10 data)"
    using leb128_decode_loop_panic [of 0 0 0 data] by (simp add: leb128_decode_def list_all_iff)
qed (rule leb128_decode_encode leb128_encode_bound)+

text \<open>
  The AV1 conversions round to the nearest unit of the target scale and saturate exactly where the
  field is too narrow; the maximum luminance never does.
\<close>

theorem av1_units_rounded:
  "(if v < 50000 then \<bar>50000 * uint (av1_chromaticity v) - 65536 * uint v\<bar> \<le> 25000
    else av1_chromaticity v = 0xffff) \<and>
   \<bar>10000 * uint (av1_luminance_max w) - 256 * uint w\<bar> \<le> 5000 \<and>
   (if w < 2621440000 then \<bar>10000 * uint (av1_luminance_min w) - 16384 * uint w\<bar> \<le> 5000
    else av1_luminance_min w = 0xffffffff)"
  using av1_chromaticity_rounded [of v] av1_luminance_max_rounded [of w] av1_luminance_min_rounded [of w]
  by (intro conjI)

end
