(* ===== verification/X11_Focus.thy ===== *)
theory X11_Focus
  imports Prelude
begin

text \<open>
  The X11 side of the focus policy (\<open>session/compositor/x11_focus.rs\<close>): which properties of a
  window or of the root window are read, how a missing or malformed property is treated, and which
  properties are written for Steam. Xlib is not under src: the connection is a record of what it
  answers, \<open>XGetWindowProperty\<close> a function from window, atom, number of items and requested type
  to the returned property, if any. A format-32 property is an array of C \<open>long\<close> values of 64
  bits. The dynamic loading of the libraries and the pointers are not modelled: a missing library,
  a missing symbol or a null display is a connection that is not usable.
\<close>

section \<open>The connection\<close>

datatype cached_atom =
    Net_Wm_Pid | Net_Wm_State | Net_Wm_State_Skip_Taskbar | Net_Wm_State_Skip_Pager
  | Net_Wm_Window_Opacity | Steam_Input_Focus | Steam_Overlay | Steam_Streaming_Client
  | Steam_Streaming_Client_Video | Steam_Legacy_Big_Picture | Steam_Gamescope_Vroverlay_Target
  | Gamescope_External_Overlay | Gamescopectrl_Baselayer_Window | Gamescopectrl_Baselayer_Appid
  | Wine_Hwnd_Style | Gamescope_Focused_App | Gamescope_Focusable_Apps | Gamescope_Focusable_Windows
  | Gamescope_Xwayland_Server_Id

record x_property =
  xp_format :: nat
  xp_items :: "u64 list"

record x11_focus =
  xf_usable :: bool
  xf_root :: u64
  xf_atom :: "cached_atom \<Rightarrow> u64"
  xf_get :: "u64 \<Rightarrow> u64 \<Rightarrow> nat \<Rightarrow> u64 \<Rightarrow> x_property option"
  xf_res_pid :: "u64 \<Rightarrow> u32 option"

datatype x_request =
    Change_Cardinals u64 u64 "u64 list"
  | Delete_Property u64 u64
  | Set_Input_Focus u64

record focus_control =
  ctl_window :: "u32 option"
  ctl_app_ids :: "u32 list"

definition XA_ATOM :: u64 where "XA_ATOM = 4"
definition XA_CARDINAL :: u64 where "XA_CARDINAL = 6"

section \<open>Reading properties\<close>

definition read_cardinal_prop_by_atom :: "x11_focus \<Rightarrow> u64 \<Rightarrow> u64 \<Rightarrow> u32 \<Rightarrow> u32" where
  "read_cardinal_prop_by_atom xf window atom default_val =
     (if \<not> xf_usable xf then default_val
      else case xf_get xf window atom 1 XA_CARDINAL of
        Some p \<Rightarrow> if xp_items p \<noteq> [] \<and> xp_format p = 32 then ucast (hd (xp_items p)) else default_val
      | None \<Rightarrow> default_val)"

definition read_cardinal_array_prop :: "x11_focus \<Rightarrow> u64 \<Rightarrow> u64 \<Rightarrow> nat \<Rightarrow> u32 list" where
  "read_cardinal_array_prop xf window atom max_items =
     (if \<not> xf_usable xf then []
      else case xf_get xf window atom max_items 0 of
        Some p \<Rightarrow> if xp_items p \<noteq> [] \<and> xp_format p = 32 then map ucast (take max_items (xp_items p)) else []
      | None \<Rightarrow> [])"

definition window_prop :: "x11_focus \<Rightarrow> u32 \<Rightarrow> cached_atom \<Rightarrow> u32 \<Rightarrow> u32" where
  "window_prop xf window_id a default_val =
     read_cardinal_prop_by_atom xf (ucast window_id) (xf_atom xf a) default_val"

definition read_focus_control :: "x11_focus \<Rightarrow> focus_control option" where
  "read_focus_control xf =
     (if \<not> xf_usable xf then None
      else let window_val = read_cardinal_prop_by_atom xf (xf_root xf) (xf_atom xf Gamescopectrl_Baselayer_Window) 0
           in Some \<lparr>ctl_window = (if window_val \<noteq> 0 then Some window_val else None),
                    ctl_app_ids = read_cardinal_array_prop xf (xf_root xf)
                      (xf_atom xf Gamescopectrl_Baselayer_Appid) 1024\<rparr>)"

definition get_window_pid_xres :: "x11_focus \<Rightarrow> u64 \<Rightarrow> u32" where
  "get_window_pid_xres xf window =
     (if \<not> xf_usable xf then 0 else case xf_res_pid xf window of Some pid \<Rightarrow> pid | None \<Rightarrow> 0)"

definition get_window_pid :: "x11_focus \<Rightarrow> u32 \<Rightarrow> u32" where
  "get_window_pid xf window_id =
     (let pid = window_prop xf window_id Net_Wm_Pid 0
      in if pid \<noteq> 0 then pid else get_window_pid_xres xf (ucast window_id))"

definition get_input_focus_mode :: "x11_focus \<Rightarrow> u32 \<Rightarrow> u32" where
  "get_input_focus_mode xf window_id = window_prop xf window_id Steam_Input_Focus 0"

definition get_steam_overlay_value :: "x11_focus \<Rightarrow> u32 \<Rightarrow> u32" where
  "get_steam_overlay_value xf window_id = window_prop xf window_id Steam_Overlay 0"

definition get_window_opacity :: "x11_focus \<Rightarrow> u32 \<Rightarrow> u32" where
  "get_window_opacity xf window_id =
     (let raw = window_prop xf window_id Net_Wm_Window_Opacity 0xffffffff
      in if raw = 0 then 0 else ucast ((ucast raw * 255 :: u64) div 0xffffffff))"

definition is_steam_streaming_client :: "x11_focus \<Rightarrow> u32 \<Rightarrow> bool" where
  "is_steam_streaming_client xf window_id \<longleftrightarrow> window_prop xf window_id Steam_Streaming_Client 0 \<noteq> 0"

definition is_steam_streaming_client_video :: "x11_focus \<Rightarrow> u32 \<Rightarrow> bool" where
  "is_steam_streaming_client_video xf window_id \<longleftrightarrow> window_prop xf window_id Steam_Streaming_Client_Video 0 \<noteq> 0"

definition is_gamescope_external_overlay :: "x11_focus \<Rightarrow> u32 \<Rightarrow> bool" where
  "is_gamescope_external_overlay xf window_id \<longleftrightarrow> window_prop xf window_id Gamescope_External_Overlay 0 \<noteq> 0"

definition get_vr_overlay_target :: "x11_focus \<Rightarrow> u32 \<Rightarrow> u64" where
  "get_vr_overlay_target xf window_id =
     (if \<not> xf_usable xf then 0
      else case xf_get xf (ucast window_id) (xf_atom xf Steam_Gamescope_Vroverlay_Target) 2 XA_CARDINAL of
        Some p \<Rightarrow> if 2 \<le> length (xp_items p) \<and> xp_format p = 32
                  then push_bit 32 (xp_items p ! 1) OR xp_items p ! 0 else 0
      | None \<Rightarrow> 0)"

definition has_big_picture_prop :: "x11_focus \<Rightarrow> u32 \<Rightarrow> bool" where
  "has_big_picture_prop xf window_id \<longleftrightarrow> window_prop xf window_id Steam_Legacy_Big_Picture 0 \<noteq> 0"

definition get_window_style :: "x11_focus \<Rightarrow> u32 \<Rightarrow> u32" where
  "get_window_style xf window_id = window_prop xf window_id Wine_Hwnd_Style 0"

definition get_net_wm_state :: "x11_focus \<Rightarrow> u32 \<Rightarrow> u64 list option" where
  "get_net_wm_state xf window =
     (if \<not> xf_usable xf \<or> xf_atom xf Net_Wm_State = 0 then None
      else case xf_get xf (ucast window) (xf_atom xf Net_Wm_State) 1024 XA_ATOM of
        Some p \<Rightarrow> if xp_items p = [] \<or> xp_format p \<noteq> 32 then None else Some (xp_items p)
      | None \<Rightarrow> None)"

definition get_net_wm_state_skip_flags :: "x11_focus \<Rightarrow> u32 \<Rightarrow> bool \<times> bool" where
  "get_net_wm_state_skip_flags xf window =
     (let taskbar = xf_atom xf Net_Wm_State_Skip_Taskbar; pager = xf_atom xf Net_Wm_State_Skip_Pager
      in if taskbar = 0 \<and> pager = 0 then (False, False)
         else case get_net_wm_state xf window of
           Some atoms \<Rightarrow> (taskbar \<noteq> 0 \<and> taskbar \<in> set atoms, pager \<noteq> 0 \<and> pager \<in> set atoms)
         | None \<Rightarrow> (False, False))"

section \<open>Writing properties\<close>

definition write_cardinal_prop :: "x11_focus \<Rightarrow> u64 \<Rightarrow> u64 \<Rightarrow> u32 \<Rightarrow> x_request list" where
  "write_cardinal_prop xf window atom v =
     (if xf_usable xf then [Change_Cardinals window atom [ucast v]] else [])"

definition write_cardinal_array :: "x11_focus \<Rightarrow> u64 \<Rightarrow> u64 \<Rightarrow> u32 list \<Rightarrow> x_request list" where
  "write_cardinal_array xf window atom vs =
     (if \<not> xf_usable xf \<or> vs = [] then [] else [Change_Cardinals window atom (map ucast vs)])"

definition delete_property :: "x11_focus \<Rightarrow> u64 \<Rightarrow> u64 \<Rightarrow> x_request list" where
  "delete_property xf window atom = (if xf_usable xf then [Delete_Property window atom] else [])"

definition set_input_focus :: "x11_focus \<Rightarrow> u32 \<Rightarrow> x_request list" where
  "set_input_focus xf window_id = (if xf_usable xf then [Set_Input_Focus (ucast window_id)] else [])"

definition set_focused_app :: "x11_focus \<Rightarrow> u32 \<Rightarrow> x_request list" where
  "set_focused_app xf app_id =
     (if xf_atom xf Gamescope_Focused_App = 0 then []
      else write_cardinal_prop xf (xf_root xf) (xf_atom xf Gamescope_Focused_App) app_id)"

definition clear_focused_app :: "x11_focus \<Rightarrow> x_request list" where
  "clear_focused_app xf =
     (if xf_atom xf Gamescope_Focused_App = 0 then []
      else delete_property xf (xf_root xf) (xf_atom xf Gamescope_Focused_App))"

definition set_focusable_apps :: "x11_focus \<Rightarrow> u32 list \<Rightarrow> x_request list" where
  "set_focusable_apps xf app_ids =
     (if xf_atom xf Gamescope_Focusable_Apps = 0 \<or> app_ids = [] then []
      else write_cardinal_array xf (xf_root xf) (xf_atom xf Gamescope_Focusable_Apps) app_ids)"

definition clear_focusable_apps :: "x11_focus \<Rightarrow> x_request list" where
  "clear_focusable_apps xf =
     (if xf_atom xf Gamescope_Focusable_Apps = 0 then []
      else delete_property xf (xf_root xf) (xf_atom xf Gamescope_Focusable_Apps))"

definition set_focusable_windows :: "x11_focus \<Rightarrow> (u32 \<times> u32 \<times> u32) list \<Rightarrow> x_request list" where
  "set_focusable_windows xf triplets =
     (if xf_atom xf Gamescope_Focusable_Windows = 0 \<or> triplets = [] then []
      else write_cardinal_array xf (xf_root xf) (xf_atom xf Gamescope_Focusable_Windows)
             (concat (map (\<lambda>(window_id, app_id, pid). [window_id, app_id, pid]) triplets)))"

definition clear_focusable_windows :: "x11_focus \<Rightarrow> x_request list" where
  "clear_focusable_windows xf =
     (if xf_atom xf Gamescope_Focusable_Windows = 0 then []
      else delete_property xf (xf_root xf) (xf_atom xf Gamescope_Focusable_Windows))"

text \<open>The sum is checked: near the largest display number it overflows.\<close>

definition display_id_to_server_id :: "u32 \<Rightarrow> u32 res" where
  "display_id_to_server_id display_number =
     rbind (guard (unat display_number + 100 < 2 ^ 32) Panic) (\<lambda>_.
       Inr (push_bit 8 (display_number + 100) OR display_number))"

section \<open>Properties of the readers\<close>

lemma opacity_bound: "get_window_opacity xf w \<le> 255"
proof -
  define raw where "raw = window_prop xf w Net_Wm_Window_Opacity 0xffffffff"
  have raw: "unat raw \<le> 0xffffffff" using unsigned_less [of raw, where 'a = nat] by simp
  have mult: "unat (ucast raw * 255 :: u64) = unat raw * 255"
    using raw by (simp add: unat_word_ariths unsigned_ucast_eq take_bit_nat_eq_self)
  have le: "unat raw * 255 div 0xffffffff \<le> 255"
    using div_le_mono [of "unat raw * 255" "0xffffffff * 255" "0xffffffff"] raw by simp
  have "unat (ucast ((ucast raw * 255 :: u64) div 0xffffffff) :: u32) = unat raw * 255 div 0xffffffff"
    using le by (simp add: unsigned_ucast_eq unat_div mult take_bit_nat_eq_self)
  with le show ?thesis
    by (simp add: get_window_opacity_def raw_def [symmetric] Let_def word_le_nat_alt)
qed

lemma opaque_without_property:
  "window_prop xf w Net_Wm_Window_Opacity 0xffffffff = 0xffffffff \<Longrightarrow> get_window_opacity xf w = 255"
  by (simp add: get_window_opacity_def)

end
