(* ===== verification/Window_Focus.thy ===== *)
theory Window_Focus
  imports X11_Focus "HOL-Library.Product_Lexorder"
begin

text \<open>
  The data of the focus policy (\<open>session/compositor/focus.rs\<close>, \<open>input_serials.rs\<close>): the metadata
  of a window with its predicates, the classification flags, the priority key with the order of Rust
  tuples, the pending focus state, and the bounded history of input serials.
\<close>

section \<open>Window flags\<close>

type_synonym window_flags = u8

definition OVERLAY :: window_flags where "OVERLAY = 1"
definition NOTIFICATION :: window_flags where "NOTIFICATION = 2"
definition EXTERNAL_OVERLAY :: window_flags where "EXTERNAL_OVERLAY = 4"
definition STREAMING_CLIENT :: window_flags where "STREAMING_CLIENT = 8"
definition STREAMING_CLIENT_VIDEO :: window_flags where "STREAMING_CLIENT_VIDEO = 16"
definition SYS_TRAY_ICON :: window_flags where "SYS_TRAY_ICON = 32"
definition VR_OVERLAY_TARGET :: window_flags where "VR_OVERLAY_TARGET = 64"

definition SKIP_FOCUS :: window_flags where
  "SKIP_FOCUS = OVERLAY OR NOTIFICATION OR EXTERNAL_OVERLAY OR STREAMING_CLIENT OR
     STREAMING_CLIENT_VIDEO OR SYS_TRAY_ICON OR VR_OVERLAY_TARGET"

definition flags_contain :: "window_flags \<Rightarrow> window_flags \<Rightarrow> bool" where
  "flags_contain flags f \<longleftrightarrow> flags AND f = f"

definition flags_intersect :: "window_flags \<Rightarrow> window_flags \<Rightarrow> bool" where
  "flags_intersect flags f \<longleftrightarrow> flags AND f \<noteq> 0"

definition flags_insert :: "window_flags \<Rightarrow> window_flags \<Rightarrow> window_flags" where
  "flags_insert f flags = flags OR f"

definition flags_remove :: "window_flags \<Rightarrow> window_flags \<Rightarrow> window_flags" where
  "flags_remove f flags = flags AND NOT f"

lemmas flag_defs = OVERLAY_def NOTIFICATION_def EXTERNAL_OVERLAY_def STREAMING_CLIENT_def
  STREAMING_CLIENT_VIDEO_def SYS_TRAY_ICON_def VR_OVERLAY_TARGET_def

lemma SKIP_FOCUS_eq: "SKIP_FOCUS = 0x7f"
  by (simp add: SKIP_FOCUS_def flag_defs)

section \<open>Metadata\<close>

record rect =
  loc_x :: int
  loc_y :: int
  size_w :: int
  size_h :: int

record window_metadata =
  app_id :: u32
  x11_window_id :: "u32 option"
  transient_for :: "u32 option"
  skip_taskbar :: bool
  skip_pager :: bool
  is_dialog :: bool
  maybe_a_dropdown :: bool
  disabled :: bool
  map_sequence :: u64
  override_redirect :: bool
  is_x11 :: bool
  geometry :: rect
  fullscreen :: bool
  opacity :: u32
  input_focus_mode :: u32
  window_flags :: window_flags
  damage_sequence :: u64

definition metadata_default :: window_metadata where
  "metadata_default =
     \<lparr>app_id = 0, x11_window_id = None, transient_for = None, skip_taskbar = False, skip_pager = False,
      is_dialog = False, maybe_a_dropdown = False, disabled = False, map_sequence = 0,
      override_redirect = False, is_x11 = False,
      geometry = \<lparr>loc_x = 0, loc_y = 0, size_w = 0, size_h = 0\<rparr>, fullscreen = False, opacity = 0,
      input_focus_mode = 0, window_flags = 0, damage_sequence = 0\<rparr>"

definition has_game_id :: "window_metadata \<Rightarrow> bool" where
  "has_game_id m \<longleftrightarrow> app_id m \<noteq> 0"

definition is_useless :: "window_metadata \<Rightarrow> bool" where
  "is_useless m \<longleftrightarrow> size_w (geometry m) = 1 \<and> size_h (geometry m) = 1"

definition is_dropdown :: "window_metadata \<Rightarrow> bool" where
  "is_dropdown m \<longleftrightarrow> maybe_a_dropdown m \<or> override_redirect m \<and> \<not> is_useless m"

definition is_steam_big_picture :: "window_metadata \<Rightarrow> bool" where
  "is_steam_big_picture m \<longleftrightarrow> app_id m = 769"

definition is_fullscreen :: "window_metadata \<Rightarrow> bool" where
  "is_fullscreen m \<longleftrightarrow> fullscreen m \<or> is_steam_big_picture m"

definition skip_and_not_fullscreen :: "window_metadata \<Rightarrow> bool" where
  "skip_and_not_fullscreen m \<longleftrightarrow> (skip_taskbar m \<and> skip_pager m) \<and> \<not> fullscreen m"

section \<open>Priority\<close>

type_synonym priority_key =
  "bool \<times> bool \<times> bool \<times> bool \<times> bool \<times> bool \<times> bool \<times> bool \<times> bool \<times> u64 \<times> u64"

definition get_window_priority_key :: "window_metadata \<Rightarrow> priority_key" where
  "get_window_priority_key w =
     (has_game_id w, \<not> override_redirect w, \<not> is_useless w, \<not> is_dropdown w, \<not> disabled w,
      \<not> skip_and_not_fullscreen w, \<not> is_dialog w, \<not> is_x11 w, transient_for w = None,
      map_sequence w, damage_sequence w)"

definition default_key :: priority_key where
  "default_key = (False, False, False, False, False, False, False, False, False, 0, 0)"

section \<open>Focus state\<close>

record focus_state =
  focus_dirty :: bool
  requested_focus_window :: "u32 option"

definition mark_dirty :: "focus_state \<Rightarrow> focus_state" where
  "mark_dirty s = s\<lparr>focus_dirty := True\<rparr>"

definition focus_applied :: "focus_state \<Rightarrow> focus_state" where
  "focus_applied s = s\<lparr>focus_dirty := False\<rparr>"

definition set_requested_focus :: "u32 \<Rightarrow> focus_state \<Rightarrow> focus_state" where
  "set_requested_focus window_id s = mark_dirty (s\<lparr>requested_focus_window := Some window_id\<rparr>)"

definition clear_requested_focus :: "focus_state \<Rightarrow> focus_state" where
  "clear_requested_focus s = s\<lparr>requested_focus_window := None\<rparr>"

lemmas focus_state_defs = mark_dirty_def focus_applied_def set_requested_focus_def clear_requested_focus_def

section \<open>Input serials\<close>

definition CAPACITY :: nat where "CAPACITY = 64"

type_synonym 'client input_serials = "(u32 \<times> 'client) list"

definition serials_record :: "u32 \<Rightarrow> 'client \<Rightarrow> 'client input_serials \<Rightarrow> 'client input_serials" where
  "serials_record serial client entries =
     (if length entries = CAPACITY then drop 1 entries else entries) @ [(serial, client)]"

definition serials_contains :: "'client input_serials \<Rightarrow> u32 \<Rightarrow> 'client \<Rightarrow> bool" where
  "serials_contains entries serial client \<longleftrightarrow>
     list_ex (\<lambda>(recorded, recipient). recorded = serial \<and> recipient = client) entries"

definition serials_clear :: "'client input_serials \<Rightarrow> 'client input_serials" where
  "serials_clear entries = []"

text \<open>The history keeps exactly the last 64 deliveries, in order.\<close>

lemma serials_history:
  "foldl (\<lambda>es (s, c). serials_record s c es) [] ds = drop (length ds - CAPACITY) ds"
proof (induction ds rule: rev_induct)
  case (snoc d ds)
  obtain s c where d: "d = (s, c)" by force
  let ?h = "drop (length ds - CAPACITY) ds"
  have len: "length ?h = min (length ds) CAPACITY" by simp
  show ?case
  proof (cases "CAPACITY \<le> length ds")
    case True
    then have "drop 1 ?h = drop (Suc (length ds) - CAPACITY) ds"
      by (simp add: Suc_diff_le)
    with True snoc d len show ?thesis
      by (simp add: serials_record_def Suc_diff_le CAPACITY_def)
  next
    case False
    with snoc d len show ?thesis by (simp add: serials_record_def CAPACITY_def)
  qed
qed simp

lemma serials_contains_iff: "serials_contains entries serial client \<longleftrightarrow> (serial, client) \<in> set entries"
  by (auto simp: serials_contains_def list_ex_iff)

section \<open>The order of the keys\<close>

text \<open>A game beats every window without a game, whatever the other fields say.\<close>

lemma game_beats_non_game:
  "has_game_id a \<Longrightarrow> \<not> has_game_id b \<Longrightarrow> get_window_priority_key b < get_window_priority_key a"
  by (simp add: get_window_priority_key_def less_prod_def)

lemma managed_beats_override:
  "has_game_id a = has_game_id b \<Longrightarrow> \<not> override_redirect a \<Longrightarrow> override_redirect b \<Longrightarrow>
   get_window_priority_key b < get_window_priority_key a"
  by (simp add: get_window_priority_key_def less_prod_def)

lemma newer_wins:
  assumes "a = b\<lparr>map_sequence := n\<rparr>" and "map_sequence b < n"
  shows "get_window_priority_key b < get_window_priority_key a"
  using assms
  by (simp add: get_window_priority_key_def less_prod_def has_game_id_def is_useless_def is_dropdown_def
      skip_and_not_fullscreen_def)

end
