(* ===== verification/Focus_Policy.thy ===== *)
theory Focus_Policy
  imports Window_Focus "HOL-Library.AList"
begin

text \<open>
  The focus policy of the compositor (\<open>session/compositor/handlers.rs\<close>, the window part of
  \<open>state.rs\<close>): the windows with their metadata, the index of transient children, the choice of
  the focused window, its application, and the handlers of the XDG shell and of the X11 window
  manager that lead to it.

  A window is the identity that Smithay gives it. What Smithay and the clients know of a window (its
  X11 surface, its Wayland surface) is read from the environment at every step, and so is the X11
  connection, the process tree and the outcome of requests. The stack of windows is a list from
  bottom to top; the operations of Smithay's \<open>Space\<close> on it are parameters. Calls that act on the
  seat, on X11 or on popups are effects in the order they are made. Maps are association lists
  because the code iterates over them.
\<close>

type_synonym window = nat
type_synonym surface = nat

datatype wm_window_type =
    WT_Normal | WT_Dialog | WT_Dropdown_Menu | WT_Popup_Menu | WT_Tooltip | WT_Menu | WT_Other

record x11_surface =
  xs_window_id :: u32
  xs_geometry :: rect
  xs_override_redirect :: bool
  xs_transient_for :: "u32 option"
  xs_window_type :: "wm_window_type option"
  xs_input_hint :: "bool option"
  xs_is_fullscreen :: bool

text \<open>\<open>xs_input_hint\<close> is the input field of the window's \<open>WM_HINTS\<close>, absent when either is.\<close>

record focus_env =
  env_width :: int
  env_height :: int
  env_x11 :: "window \<Rightarrow> x11_surface option"
  env_surface :: "window \<Rightarrow> surface option"
  env_alive :: "surface \<Rightarrow> bool"
  env_x11_focus :: "x11_focus option"
  env_app_id :: "u32 \<Rightarrow> u32"
  env_map_element :: "window \<Rightarrow> window list \<Rightarrow> window list"
  env_unmap_elem :: "window \<Rightarrow> window list \<Rightarrow> window list"

datatype effect =
    Keyboard_Focus "window option"
  | Pointer_Motion surface
  | Set_Activated window bool
  | X11_Requests "x_request list"
  | Dismiss_Popups "window option"
  | Configure_Toplevel window rect
  | Configure_X11 u32 rect
  | Set_X11_Mapped u32 bool
  | Clear_Gamescope_Current surface

type_synonym metadata_map = "(window \<times> window_metadata) list"
type_synonym children_map = "(u32 \<times> window list) list"

record focus_comp =
  fc_space :: "window list"
  fc_mapping :: "(window \<times> bool \<times> bool) list"
  fc_metadata :: metadata_map
  fc_children :: children_map
  fc_tray :: "u32 list"
  fc_focused_x11 :: "u32 option"
  fc_focused_window :: "window option"
  fc_override :: "window option"
  fc_overlay :: "window option"
  fc_notification :: "window option"
  fc_external :: "window option"
  fc_override_surface :: "(surface \<times> u32) option"
  fc_pointer_focus :: "window option"
  fc_last_keyboard :: "u32 option"
  fc_focus :: focus_state
  fc_damage_counter :: u64
  fc_map_counter :: u64
  fc_serials :: "nat input_serials"
  fc_screen_dirty :: bool
  fc_effects :: "effect list"

definition emit :: "effect list \<Rightarrow> focus_comp \<Rightarrow> focus_comp" where
  "emit es s = s\<lparr>fc_effects := fc_effects s @ es\<rparr>"

definition set_focus_state :: "(focus_state \<Rightarrow> focus_state) \<Rightarrow> focus_comp \<Rightarrow> focus_comp" where
  "set_focus_state f s = s\<lparr>fc_focus := f (fc_focus s)\<rparr>"

definition meta_of :: "focus_comp \<Rightarrow> window \<Rightarrow> window_metadata option" where
  "meta_of s w = map_of (fc_metadata s) w"

definition x11_id :: "focus_env \<Rightarrow> window \<Rightarrow> u32 option" where
  "x11_id env w = map_option xs_window_id (env_x11 env w)"

text \<open>A window has either a Wayland toplevel or an X11 surface.\<close>

definition has_toplevel :: "focus_env \<Rightarrow> window \<Rightarrow> bool" where
  "has_toplevel env w \<longleftrightarrow> env_x11 env w = None"

definition find_x11 :: "focus_env \<Rightarrow> window list \<Rightarrow> u32 \<Rightarrow> window option" where
  "find_x11 env ws window_id = find (\<lambda>w. x11_id env w = Some window_id) ws"

definition output_rect :: "focus_env \<Rightarrow> rect" where
  "output_rect env = \<lparr>loc_x = 0, loc_y = 0, size_w = env_width env, size_h = env_height env\<rparr>"

definition update_meta :: "window \<Rightarrow> (window_metadata \<Rightarrow> window_metadata) \<Rightarrow> focus_comp \<Rightarrow> focus_comp" where
  "update_meta w f s =
     (case meta_of s w of None \<Rightarrow> s
      | Some m \<Rightarrow> s\<lparr>fc_metadata := AList.update w (f m) (fc_metadata s)\<rparr>)"

definition with_x11_focus :: "focus_env \<Rightarrow> (x11_focus \<Rightarrow> 'a) \<Rightarrow> 'a \<Rightarrow> 'a" where
  "with_x11_focus env f d = (case env_x11_focus env of Some xf \<Rightarrow> f xf | None \<Rightarrow> d)"

section \<open>The index of transient children\<close>

definition remove_child :: "u32 \<Rightarrow> window \<Rightarrow> children_map \<Rightarrow> children_map" where
  "remove_child parent w index =
     (case map_of index parent of None \<Rightarrow> index
      | Some children \<Rightarrow>
          (let rest = filter (\<lambda>v. v \<noteq> w) children
           in if rest = [] then AList.delete parent index else AList.update parent rest index))"

definition add_child :: "u32 \<Rightarrow> window \<Rightarrow> children_map \<Rightarrow> children_map" where
  "add_child parent w index =
     AList.update parent ((case map_of index parent of None \<Rightarrow> [] | Some children \<Rightarrow> children) @ [w]) index"

definition unregister_window :: "window \<Rightarrow> focus_comp \<Rightarrow> focus_comp" where
  "unregister_window w s =
     s\<lparr>fc_children :=
         (case Option.bind (meta_of s w) transient_for of
            None \<Rightarrow> fc_children s
          | Some parent \<Rightarrow> remove_child parent w (fc_children s)),
       fc_metadata := AList.delete w (fc_metadata s)\<rparr>"

definition parent_of :: "metadata_map \<Rightarrow> u32 \<Rightarrow> u32 option" where
  "parent_of metas current =
     (case find (\<lambda>(_, m). x11_window_id m = Some current) metas of
        None \<Rightarrow> None | Some (_, m) \<Rightarrow> transient_for m)"

fun transient_walk :: "metadata_map \<Rightarrow> u32 \<Rightarrow> nat \<Rightarrow> u32 list \<Rightarrow> u32 \<Rightarrow> bool" where
  "transient_walk metas focused_id 0 visited current = False"
| "transient_walk metas focused_id (Suc n) visited current =
     (case parent_of metas current of
        None \<Rightarrow> False
      | Some p \<Rightarrow>
          if p = focused_id then True
          else if p \<notin> set visited then transient_walk metas focused_id n (p # visited) p
          else False)"

definition is_transient_of_focused :: "focus_comp \<Rightarrow> u32 \<Rightarrow> bool" where
  "is_transient_of_focused s window_id =
     (case fc_focused_x11 s of None \<Rightarrow> False
      | Some focused_id \<Rightarrow>
          window_id = focused_id \<or> transient_walk (fc_metadata s) focused_id 10 [window_id] window_id)"

section \<open>Metadata of an X11 window\<close>

definition x11_app_id :: "focus_env \<Rightarrow> u32 \<Rightarrow> u32" where
  "x11_app_id env window_id =
     (let pid = with_x11_focus env (\<lambda>xf. get_window_pid xf window_id) 0;
          app = (if pid \<noteq> 0 then env_app_id env pid else 0)
      in if app = 0 \<and> with_x11_focus env (\<lambda>xf. has_big_picture_prop xf window_id) False then 769 else app)"

definition x11_window_flags :: "focus_env \<Rightarrow> focus_comp \<Rightarrow> x11_surface \<Rightarrow> window_flags" where
  "x11_window_flags env s x =
     (let xid = xs_window_id x;
          overlay_value = with_x11_focus env (\<lambda>xf. get_steam_overlay_value xf xid) 0;
          flags = (if overlay_value \<noteq> 0
                   then (if 1200 < size_w (xs_geometry x) then flags_insert OVERLAY 0 else flags_insert NOTIFICATION 0)
                   else 0);
          add = (\<lambda>b f flags. if b then flags_insert f flags else flags);
          flags = with_x11_focus env (\<lambda>xf.
            add (get_vr_overlay_target xf xid \<noteq> 0) VR_OVERLAY_TARGET
              (add (is_steam_streaming_client_video xf xid) STREAMING_CLIENT_VIDEO
                (add (is_steam_streaming_client xf xid) STREAMING_CLIENT
                  (add (is_gamescope_external_overlay xf xid) EXTERNAL_OVERLAY flags)))) flags
      in add (xid \<in> set (fc_tray s)) SYS_TRAY_ICON flags)"

definition is_dropdown_type :: "x11_surface \<Rightarrow> bool" where
  "is_dropdown_type x \<longleftrightarrow>
     xs_window_type x \<in> Some ` {WT_Dropdown_Menu, WT_Popup_Menu, WT_Tooltip, WT_Menu}"

definition x11_surface_metadata :: "focus_env \<Rightarrow> focus_comp \<Rightarrow> x11_surface \<Rightarrow> window_metadata" where
  "x11_surface_metadata env s x =
     (let xid = xs_window_id x;
          disabled_hint = (xs_input_hint x = Some False);
          disabled = (disabled_hint \<or>
            with_x11_focus env (\<lambda>xf. get_window_style xf xid) 0 AND 0x80000000 \<noteq> 0);
          dialog = (xs_window_type x = Some WT_Dialog);
          has_parent = (xs_transient_for x \<noteq> None);
          useless = (size_w (xs_geometry x) = 1 \<and> size_h (xs_geometry x) = 1);
          dropdown = (xs_override_redirect x \<and> \<not> useless \<and> (is_dropdown_type x \<or> has_parent \<or> dialog));
          skips = with_x11_focus env (\<lambda>xf. get_net_wm_state_skip_flags xf xid) (False, False);
          skip_child = (xs_override_redirect x \<and> has_parent)
      in \<lparr>app_id = x11_app_id env xid, x11_window_id = Some xid, transient_for = xs_transient_for x,
          skip_taskbar = (fst skips \<or> skip_child), skip_pager = (snd skips \<or> skip_child),
          is_dialog = dialog, maybe_a_dropdown = dropdown, disabled = disabled, map_sequence = 0,
          override_redirect = xs_override_redirect x, is_x11 = True, geometry = xs_geometry x,
          fullscreen = xs_is_fullscreen x, opacity = with_x11_focus env (\<lambda>xf. get_window_opacity xf xid) 0,
          input_focus_mode = with_x11_focus env (\<lambda>xf. get_input_focus_mode xf xid) 0,
          window_flags = x11_window_flags env s x, damage_sequence = 0\<rparr>)"

section \<open>Refreshing and classifying\<close>

definition refresh_mode :: "focus_env \<Rightarrow> x11_focus \<Rightarrow> window \<Rightarrow> window_metadata \<Rightarrow> window_metadata" where
  "refresh_mode env xf w m =
     (case x11_id env w of
        Some xid \<Rightarrow> if flags_contain (window_flags m) OVERLAY
                   then m\<lparr>input_focus_mode := get_input_focus_mode xf xid\<rparr> else m
      | None \<Rightarrow> m)"

definition refresh_app_id :: "focus_env \<Rightarrow> x11_focus \<Rightarrow> window \<Rightarrow> window_metadata \<Rightarrow> window_metadata" where
  "refresh_app_id env xf w m =
     (case x11_id env w of
        Some xid \<Rightarrow>
          if app_id m = 0 then
            (let pid = get_window_pid xf xid; new_app = env_app_id env pid
             in if pid \<noteq> 0 \<and> new_app \<noteq> 0 then m\<lparr>app_id := new_app\<rparr> else m)
          else m
      | None \<Rightarrow> m)"

definition refresh_metadata :: "focus_env \<Rightarrow> focus_comp \<Rightarrow> focus_comp" where
  "refresh_metadata env s =
     (case env_x11_focus env of None \<Rightarrow> s
      | Some xf \<Rightarrow>
          s\<lparr>fc_metadata :=
              map (\<lambda>(w, m). (w, refresh_app_id env xf w m))
                (map (\<lambda>(w, m). (w, refresh_mode env xf w m)) (fc_metadata s))\<rparr>)"

definition best_of_class ::
  "focus_comp \<Rightarrow> window_flags \<Rightarrow> window list \<Rightarrow> window option \<times> u32" where
  "best_of_class s flag windows =
     foldl (\<lambda>(best, max_opacity) w.
        case meta_of s w of
          Some m \<Rightarrow> if flags_contain (window_flags m) flag \<and> max_opacity \<le> opacity m
                    then (Some w, opacity m) else (best, max_opacity)
        | None \<Rightarrow> (best, max_opacity)) (None, 0) windows"

definition classify_special_windows :: "window list \<Rightarrow> focus_comp \<Rightarrow> focus_comp" where
  "classify_special_windows windows s =
     (let s' = s\<lparr>fc_overlay := fst (best_of_class s OVERLAY windows),
                 fc_notification := fst (best_of_class s NOTIFICATION windows),
                 fc_external := fst (best_of_class s EXTERNAL_OVERLAY windows)\<rparr>
      in if fc_overlay s \<noteq> fc_overlay s' \<or> fc_notification s \<noteq> fc_notification s' \<or> fc_external s \<noteq> fc_external s'
         then set_focus_state mark_dirty s' else s')"

section \<open>Candidates and their choice\<close>

definition retained_unmapped :: "focus_comp \<Rightarrow> window \<Rightarrow> bool" where
  "retained_unmapped s w =
     (case map_of (fc_mapping s) w of Some (mapped, ever_mapped) \<Rightarrow> ever_mapped \<and> \<not> mapped | None \<Rightarrow> False)"

definition is_candidate :: "focus_comp \<Rightarrow> window \<Rightarrow> bool" where
  "is_candidate s w \<longleftrightarrow>
     \<not> retained_unmapped s w \<and>
     (case meta_of s w of None \<Rightarrow> False
      | Some m \<Rightarrow> \<not> flags_intersect (window_flags m) SKIP_FOCUS \<and> \<not> (override_redirect m \<and> app_id m = 0))"

definition build_candidates :: "focus_comp \<Rightarrow> window list \<Rightarrow> window list" where
  "build_candidates s windows = filter (is_candidate s) windows"

definition window_key :: "focus_comp \<Rightarrow> window \<Rightarrow> priority_key" where
  "window_key s w = (case meta_of s w of Some m \<Rightarrow> get_window_priority_key m | None \<Rightarrow> default_key)"

definition pick_by_app_ids :: "focus_comp \<Rightarrow> u32 list \<Rightarrow> window list \<Rightarrow> window option" where
  "pick_by_app_ids s ids candidates =
     map_option fst (foldl (\<lambda>best w.
        case meta_of s w of
          Some m \<Rightarrow>
            if app_id m \<in> set ids then
              (let key = window_key s w
               in case best of None \<Rightarrow> Some (w, key)
                  | Some (b, best_key) \<Rightarrow> if best_key < key then Some (w, key) else best)
            else best
        | None \<Rightarrow> best) None candidates)"

definition steam_pick :: "focus_env \<Rightarrow> focus_comp \<Rightarrow> window list \<Rightarrow> window option" where
  "steam_pick env s candidates =
     (case Option.bind (env_x11_focus env) read_focus_control of
        None \<Rightarrow> None
      | Some fc \<Rightarrow>
          (case Option.bind (ctl_window fc) (find_x11 env candidates) of
             Some w \<Rightarrow> Some w
           | None \<Rightarrow> if ctl_app_ids fc \<noteq> [] then pick_by_app_ids s (ctl_app_ids fc) candidates else None))"

definition pick_best_candidate ::
  "focus_env \<Rightarrow> window list \<Rightarrow> focus_comp \<Rightarrow> window option \<times> focus_comp" where
  "pick_best_candidate env candidates s =
     (case Option.bind (requested_focus_window (fc_focus s)) (find_x11 env candidates) of
        Some w \<Rightarrow> (Some w, set_focus_state clear_requested_focus s)
      | None \<Rightarrow> (steam_pick env s candidates, s))"

text \<open>The stable sort by key, then the reversal: the first element.\<close>

definition pick_by_priority :: "focus_comp \<Rightarrow> window list \<Rightarrow> window" where
  "pick_by_priority s candidates = hd (rev (sort_key (window_key s) candidates))"

definition child_is_dropdown :: "focus_comp \<Rightarrow> window \<Rightarrow> bool" where
  "child_is_dropdown s w = (case meta_of s w of Some m \<Rightarrow> is_dropdown m | None \<Rightarrow> False)"

definition transient_children_of :: "focus_env \<Rightarrow> focus_comp \<Rightarrow> u32 list \<Rightarrow> u32 \<Rightarrow> window list" where
  "transient_children_of env s visited current_id =
     (case map_of (fc_children s) current_id of None \<Rightarrow> []
      | Some children \<Rightarrow>
          filter (\<lambda>w. Option.bind (meta_of s w) transient_for = Some current_id \<and>
                    (case x11_id env w of Some xid \<Rightarrow> xid \<notin> set visited | None \<Rightarrow> True)) children)"

fun promote_walk :: "focus_env \<Rightarrow> focus_comp \<Rightarrow> window \<Rightarrow> nat \<Rightarrow> u32 list \<Rightarrow> u32 \<Rightarrow> window" where
  "promote_walk env s w 0 visited current_id = w"
| "promote_walk env s w (Suc n) visited current_id =
     (case sort_key (child_is_dropdown s) (transient_children_of env s visited current_id) of
        [] \<Rightarrow> w
      | best_child # _ \<Rightarrow>
          if meta_of s best_child \<noteq> None \<and> \<not> child_is_dropdown s best_child then best_child
          else (case x11_id env best_child of
                  None \<Rightarrow> w
                | Some xid \<Rightarrow> if xid \<in> set visited then w else promote_walk env s w n (xid # visited) xid))"

definition promote_transient_child :: "focus_env \<Rightarrow> focus_comp \<Rightarrow> window \<Rightarrow> window" where
  "promote_transient_child env s w =
     (case x11_id env w of None \<Rightarrow> w | Some start_id \<Rightarrow> promote_walk env s w 10 [start_id] start_id)"

section \<open>Dropdowns\<close>

definition dismiss_popups_for_window :: "window option \<Rightarrow> focus_comp \<Rightarrow> focus_comp" where
  "dismiss_popups_for_window w s = emit [Dismiss_Popups w] (s\<lparr>fc_screen_dirty := True\<rparr>)"

definition clear_dropdowns :: "focus_env \<Rightarrow> focus_comp \<Rightarrow> focus_comp" where
  "clear_dropdowns env s =
     (case fc_override s of None \<Rightarrow> s
      | Some w \<Rightarrow>
          unregister_window w
            (set_focus_state mark_dirty
              (s\<lparr>fc_override := None, fc_space := env_unmap_elem env w (fc_space s)\<rparr>)))"

definition notify_dropdown :: "focus_env \<Rightarrow> window \<Rightarrow> focus_comp \<Rightarrow> focus_comp" where
  "notify_dropdown env w s =
     (if fc_notification s = Some w \<or> fc_external s = Some w then s
      else emit (case (env_x11 env w, env_surface env w) of
                   (Some _, Some srf) \<Rightarrow> [Pointer_Motion srf] | _ \<Rightarrow> [])
             (set_focus_state mark_dirty (s\<lparr>fc_override := Some w\<rparr>)))"

section \<open>Applying the focus\<close>

definition overlay_with_input_focus :: "focus_comp \<Rightarrow> window option" where
  "overlay_with_input_focus s =
     Option.bind (fc_overlay s) (\<lambda>w.
       case meta_of s w of Some m \<Rightarrow> if input_focus_mode m \<noteq> 0 then Some w else None | None \<Rightarrow> None)"

definition pointer_target :: "focus_comp \<Rightarrow> window \<Rightarrow> window" where
  "pointer_target s best = (case overlay_with_input_focus s of Some w \<Rightarrow> w | None \<Rightarrow> best)"

definition keyboard_target :: "focus_comp \<Rightarrow> window \<Rightarrow> window" where
  "keyboard_target s best =
     (case overlay_with_input_focus s of
        None \<Rightarrow> best
      | Some w \<Rightarrow> (case meta_of s w of Some m \<Rightarrow> if input_focus_mode m = 2 then best else w | None \<Rightarrow> best))"

definition focus_changed :: "focus_env \<Rightarrow> window \<Rightarrow> focus_comp \<Rightarrow> bool" where
  "focus_changed env best s \<longleftrightarrow>
     fc_focused_x11 s \<noteq> x11_id env best \<or>
     Option.bind (fc_focused_window s) (env_surface env) \<noteq> env_surface env best"

definition report_focused_app :: "focus_env \<Rightarrow> window \<Rightarrow> focus_comp \<Rightarrow> focus_comp" where
  "report_focused_app env best s =
     (case env_x11_focus env of None \<Rightarrow> s
      | Some xf \<Rightarrow>
          (let app = (case meta_of s best of Some m \<Rightarrow> app_id m | None \<Rightarrow> 0)
           in emit [X11_Requests (if app \<noteq> 0 then set_focused_app xf app else clear_focused_app xf)] s))"

definition activation_effects :: "focus_env \<Rightarrow> window option \<Rightarrow> window \<Rightarrow> effect list" where
  "activation_effects env old best =
     (case old of Some w \<Rightarrow> if has_toplevel env w \<and> w \<noteq> best then [Set_Activated w False] else [] | None \<Rightarrow> []) @
     (if has_toplevel env best then [Set_Activated best True] else [])"

definition input_focus_effects :: "focus_env \<Rightarrow> window \<Rightarrow> effect list" where
  "input_focus_effects env target =
     (case (env_x11_focus env, x11_id env target) of
        (Some xf, Some xid) \<Rightarrow> [X11_Requests (set_input_focus xf xid)] | _ \<Rightarrow> [])"

definition pointer_effects :: "focus_env \<Rightarrow> window \<Rightarrow> effect list" where
  "pointer_effects env target = (case env_surface env target of Some srf \<Rightarrow> [Pointer_Motion srf] | None \<Rightarrow> [])"

text \<open>The first half records the focused window and, when it changed, ends what belonged to the old one.\<close>

definition take_focus :: "focus_env \<Rightarrow> window \<Rightarrow> focus_comp \<Rightarrow> focus_comp" where
  "take_focus env best s =
     (let old_focused_window = fc_focused_window s;
          changed = focus_changed env best s;
          s = report_focused_app env best
                (s\<lparr>fc_focused_x11 := x11_id env best, fc_focused_window := Some best\<rparr>)
      in if changed
         then clear_dropdowns env
                (dismiss_popups_for_window old_focused_window
                  (s\<lparr>fc_serials := serials_clear (fc_serials s)\<rparr>))
         else s)"

definition remember_keyboard :: "focus_env \<Rightarrow> window \<Rightarrow> bool \<Rightarrow> focus_comp \<Rightarrow> focus_comp" where
  "remember_keyboard env keyboard primary_focus_changed s =
     s\<lparr>fc_last_keyboard :=
         (case x11_id env keyboard of
            Some xid \<Rightarrow> if primary_focus_changed then Some xid else fc_last_keyboard s
          | None \<Rightarrow> fc_last_keyboard s)\<rparr>"

definition apply_focus :: "focus_env \<Rightarrow> window \<Rightarrow> focus_comp \<Rightarrow> focus_comp" where
  "apply_focus env best s =
     (let old_focused_x11 = fc_focused_x11 s;
          old_focused_window = fc_focused_window s;
          s = take_focus env best s;
          pointer = pointer_target s best;
          keyboard = keyboard_target s best;
          s = emit (activation_effects env old_focused_window best) (s\<lparr>fc_pointer_focus := Some pointer\<rparr>);
          s = remember_keyboard env keyboard (old_focused_x11 \<noteq> x11_id env best) s;
          s = emit ([Keyboard_Focus (Some keyboard)] @ input_focus_effects env keyboard @
                    pointer_effects env pointer) s
      in set_focus_state focus_applied s)"

section \<open>Evaluating the focus\<close>

definition report_focusable :: "focus_env \<Rightarrow> window list \<Rightarrow> focus_comp \<Rightarrow> focus_comp" where
  "report_focusable env candidates s =
     (case env_x11_focus env of None \<Rightarrow> s
      | Some xf \<Rightarrow>
          (let apps = filter (\<lambda>a. a \<noteq> 0) (map app_id (List.map_filter (meta_of s) candidates));
               triplets = List.map_filter (\<lambda>w.
                 case (x11_id env w, meta_of s w) of
                   (Some xid, Some m) \<Rightarrow>
                     Some (xid, app_id m, if x11_window_id m \<noteq> None then get_window_pid xf xid else 0)
                 | _ \<Rightarrow> None) candidates
           in emit [X11_Requests (if apps \<noteq> [] then set_focusable_apps xf apps else clear_focusable_apps xf),
                    X11_Requests (if triplets \<noteq> [] then set_focusable_windows xf triplets
                                  else clear_focusable_windows xf)] s))"

definition clear_focus :: "focus_env \<Rightarrow> focus_comp \<Rightarrow> focus_comp" where
  "clear_focus env s =
     (let old_window = fc_focused_window s;
          s = dismiss_popups_for_window old_window
                (s\<lparr>fc_serials := serials_clear (fc_serials s), fc_focused_window := None\<rparr>);
          s = emit ([Keyboard_Focus None] @
                    (case env_x11_focus env of Some xf \<Rightarrow> [X11_Requests (clear_focused_app xf)] | None \<Rightarrow> []))
                (s\<lparr>fc_focused_x11 := None\<rparr>)
      in set_focus_state focus_applied s)"

definition enforce_fullscreen_geometry :: "focus_env \<Rightarrow> window \<Rightarrow> focus_comp \<Rightarrow> focus_comp" where
  "enforce_fullscreen_geometry env w s =
     (case (meta_of s w, env_x11 env w) of
        (Some m, Some x) \<Rightarrow>
          if has_game_id m \<and> is_fullscreen m \<and>
             (size_w (xs_geometry x), size_h (xs_geometry x)) \<noteq> (env_width env, env_height env)
          then emit [Configure_X11 (xs_window_id x) (output_rect env)] s else s
      | _ \<Rightarrow> s)"

definition choose_window :: "focus_env \<Rightarrow> window list \<Rightarrow> focus_comp \<Rightarrow> window \<times> focus_comp" where
  "choose_window env candidates s =
     (case pick_best_candidate env candidates s of
        (Some w, s) \<Rightarrow> (w, s)
      | (None, s) \<Rightarrow> (pick_by_priority s candidates, s))"

definition reevaluate_focus :: "focus_env \<Rightarrow> focus_comp \<Rightarrow> focus_comp" where
  "reevaluate_focus env s =
     (let s = refresh_metadata env (set_focus_state mark_dirty s);
          windows = fc_space s;
          s = classify_special_windows windows s;
          candidates = build_candidates s windows;
          s = report_focusable env candidates s
      in if candidates = [] then clear_focus env s
         else (let (chosen, s) = choose_window env candidates s;
                   best = promote_transient_child env s chosen
               in apply_focus env best (enforce_fullscreen_geometry env best s)))"

end
