(* ===== verification/Focus_Handlers.thy ===== *)
theory Focus_Handlers
  imports Focus_Policy
begin

text \<open>
  The handlers that change the windows (\<open>session/compositor/handlers.rs\<close>): surface commits, the XDG
  shell, the X11 window manager and the association of X11 surfaces, with the override surface of the
  WSI layer and the routing of the pointer (\<open>state.rs\<close>, \<open>input.rs\<close>). One event is one call of a
  handler, with what Smithay hands to it; \<open>focus_step\<close> dispatches it. Colour management, popup
  commits and the cursor image are other components and leave this state alone.
\<close>

section \<open>The XDG shell\<close>

definition find_window_by_surface :: "focus_env \<Rightarrow> focus_comp \<Rightarrow> surface \<Rightarrow> window option" where
  "find_window_by_surface env s srf =
     find (\<lambda>w. has_toplevel env w \<and> env_surface env w = Some srf) (fc_space s)"

definition find_window_by_x11_surface :: "focus_env \<Rightarrow> focus_comp \<Rightarrow> x11_surface \<Rightarrow> window option" where
  "find_window_by_x11_surface env s x = find_x11 env (fc_space s) (xs_window_id x)"

definition track_mapping :: "window \<Rightarrow> bool \<Rightarrow> focus_comp \<Rightarrow> bool \<times> focus_comp" where
  "track_mapping w mapped s =
     (let old = (case map_of (fc_mapping s) w of Some m \<Rightarrow> m | None \<Rightarrow> (False, False))
      in (fst old \<noteq> mapped, s\<lparr>fc_mapping := AList.update w (mapped, snd old \<or> mapped) (fc_mapping s)\<rparr>))"

definition count_damage :: "window \<Rightarrow> focus_comp \<Rightarrow> focus_comp" where
  "count_damage w s =
     (case meta_of s w of
        Some m \<Rightarrow>
          if has_game_id m
          then update_meta w (\<lambda>m. m\<lparr>damage_sequence := fc_damage_counter s + 1\<rparr>)
                 (s\<lparr>fc_damage_counter := fc_damage_counter s + 1\<rparr>)
          else s
      | None \<Rightarrow> s)"

text \<open>\<open>mapped\<close> is whether the surface has a buffer, \<open>size\<close> the size of the window.\<close>

definition commit_surface ::
  "focus_env \<Rightarrow> surface \<Rightarrow> bool \<Rightarrow> bool \<Rightarrow> int \<times> int \<Rightarrow> focus_comp \<Rightarrow> focus_comp" where
  "commit_surface env srf is_sync_subsurface mapped window_size s =
     (let s = s\<lparr>fc_screen_dirty := True\<rparr>
      in if is_sync_subsurface then s
         else case find_window_by_surface env s srf of None \<Rightarrow> s
         | Some w \<Rightarrow>
             (let (mapping_changed, s) = track_mapping w mapped s;
                  s = (if mapping_changed \<and> \<not> mapped then dismiss_popups_for_window (Some w) s else s);
                  s = (if window_size \<noteq> (env_width env, env_height env)
                       then emit [Configure_Toplevel w (output_rect env)] s else s);
                  s = count_damage w s
              in if mapping_changed then reevaluate_focus env s else s))"

definition credentials_app_id :: "focus_env \<Rightarrow> u32 option \<Rightarrow> u32" where
  "credentials_app_id env pid = (case pid of Some p \<Rightarrow> env_app_id env p | None \<Rightarrow> 0)"

definition new_toplevel :: "focus_env \<Rightarrow> window \<Rightarrow> u32 option \<Rightarrow> bool \<Rightarrow> focus_comp \<Rightarrow> focus_comp" where
  "new_toplevel env w client_pid fullscreen_state s =
     (let s = emit [Configure_Toplevel w (output_rect env)] s;
          s = s\<lparr>fc_space := env_map_element env w (fc_space s), fc_map_counter := fc_map_counter s + 1\<rparr>;
          meta = metadata_default\<lparr>app_id := credentials_app_id env client_pid, map_sequence := fc_map_counter s,
            geometry := output_rect env, fullscreen := fullscreen_state\<rparr>
      in reevaluate_focus env (s\<lparr>fc_metadata := AList.update w meta (fc_metadata s)\<rparr>))"

definition toplevel_destroyed :: "focus_env \<Rightarrow> surface \<Rightarrow> focus_comp \<Rightarrow> focus_comp" where
  "toplevel_destroyed env srf s =
     reevaluate_focus env
       (case find_window_by_surface env s srf of None \<Rightarrow> s
        | Some w \<Rightarrow>
            (let s = unregister_window w (dismiss_popups_for_window (Some w) s)
             in s\<lparr>fc_space := env_unmap_elem env w (fc_space s)\<rparr>))"

definition set_toplevel_fullscreen :: "focus_env \<Rightarrow> surface \<Rightarrow> bool \<Rightarrow> focus_comp \<Rightarrow> focus_comp" where
  "set_toplevel_fullscreen env srf on s =
     reevaluate_focus env
       (case find_window_by_surface env s srf of None \<Rightarrow> s
        | Some w \<Rightarrow> update_meta w (\<lambda>m. m\<lparr>fullscreen := on, geometry := output_rect env\<rparr>) s)"

definition app_id_changed :: "focus_env \<Rightarrow> surface \<Rightarrow> u32 option \<Rightarrow> focus_comp \<Rightarrow> focus_comp" where
  "app_id_changed env srf client_pid s =
     reevaluate_focus env
       (case (find_window_by_surface env s srf, client_pid) of
          (Some w, Some pid) \<Rightarrow> update_meta w (\<lambda>m. m\<lparr>app_id := env_app_id env pid\<rparr>) s
        | _ \<Rightarrow> s)"

section \<open>The X11 window manager\<close>

datatype wm_property = WP_Pid | WP_Hints | WP_Transient_For | WP_Window_Type | WP_Other

definition move_child :: "window \<Rightarrow> u32 option \<Rightarrow> u32 option \<Rightarrow> children_map \<Rightarrow> children_map" where
  "move_child w old_parent new_parent index =
     (let index = (case old_parent of Some p \<Rightarrow> remove_child p w index | None \<Rightarrow> index)
      in case new_parent of Some p \<Rightarrow> add_child p w index | None \<Rightarrow> index)"

definition refresh_property :: "window \<Rightarrow> wm_property \<Rightarrow> window_metadata \<Rightarrow> focus_comp \<Rightarrow> focus_comp" where
  "refresh_property w property new_meta s =
     (case (meta_of s w, property) of
        (Some m, WP_Hints) \<Rightarrow> update_meta w (\<lambda>m. m\<lparr>disabled := disabled new_meta\<rparr>) s
      | (Some m, WP_Transient_For) \<Rightarrow>
          (let s = update_meta w (\<lambda>m. m\<lparr>transient_for := transient_for new_meta,
                     skip_taskbar := skip_taskbar new_meta, skip_pager := skip_pager new_meta,
                     maybe_a_dropdown := maybe_a_dropdown new_meta\<rparr>) s
           in s\<lparr>fc_children := move_child w (transient_for m) (transient_for new_meta) (fc_children s)\<rparr>)
      | (Some m, WP_Window_Type) \<Rightarrow>
          update_meta w (\<lambda>m. m\<lparr>is_dialog := is_dialog new_meta, maybe_a_dropdown := maybe_a_dropdown new_meta\<rparr>) s
      | _ \<Rightarrow> s)"

definition property_notify :: "focus_env \<Rightarrow> x11_surface \<Rightarrow> wm_property \<Rightarrow> focus_comp \<Rightarrow> focus_comp" where
  "property_notify env x property s =
     (if property = WP_Other then s
      else reevaluate_focus env
        (case find_window_by_x11_surface env s x of None \<Rightarrow> s
         | Some w \<Rightarrow> refresh_property w property (x11_surface_metadata env s x) s))"

definition active_window_request :: "focus_env \<Rightarrow> x11_surface \<Rightarrow> focus_comp \<Rightarrow> focus_comp" where
  "active_window_request env x s =
     reevaluate_focus env (set_focus_state (set_requested_focus (xs_window_id x)) s)"

definition register_child :: "window \<Rightarrow> u32 option \<Rightarrow> focus_comp \<Rightarrow> focus_comp" where
  "register_child w parent s =
     (case parent of None \<Rightarrow> s | Some p \<Rightarrow> s\<lparr>fc_children := add_child p w (fc_children s)\<rparr>)"

definition focused_metadata :: "focus_comp \<Rightarrow> window_metadata option" where
  "focused_metadata s =
     Option.bind (fc_focused_x11 s) (\<lambda>focused_id.
       find (\<lambda>m. x11_window_id m = Some focused_id) (map snd (fc_metadata s)))"

definition sequenced_metadata :: "focus_env \<Rightarrow> x11_surface \<Rightarrow> focus_comp \<Rightarrow> window_metadata" where
  "sequenced_metadata env x s =
     (let meta = x11_surface_metadata env s x
      in meta\<lparr>map_sequence := fc_map_counter s,
              damage_sequence := if has_game_id meta then fc_damage_counter s else 0\<rparr>)"

definition note_newer_game :: "window_metadata \<Rightarrow> focus_comp \<Rightarrow> focus_comp" where
  "note_newer_game meta s =
     (case focused_metadata s of
        Some fm \<Rightarrow> if has_game_id meta \<and> damage_sequence fm < damage_sequence meta
                   then set_focus_state mark_dirty s else s
      | None \<Rightarrow> s)"

text \<open>\<open>set_mapped_ok\<close> is whether the X server accepted the mapping.\<close>

definition map_window_request ::
  "focus_env \<Rightarrow> window \<Rightarrow> x11_surface \<Rightarrow> bool \<Rightarrow> focus_comp \<Rightarrow> focus_comp" where
  "map_window_request env w x set_mapped_ok s =
     (let s = emit [Configure_X11 (xs_window_id x) (output_rect env), Set_X11_Mapped (xs_window_id x) True] s
      in if \<not> set_mapped_ok then s
         else
          (let s = s\<lparr>fc_space := env_map_element env w (fc_space s), fc_map_counter := fc_map_counter s + 1\<rparr>;
               meta = sequenced_metadata env x s;
               s = note_newer_game meta s;
               s = s\<lparr>fc_metadata := AList.update w meta (fc_metadata s)\<rparr>
           in reevaluate_focus env (register_child w (transient_for meta) s)))"

definition on_screen :: "focus_env \<Rightarrow> rect \<Rightarrow> bool" where
  "on_screen env g \<longleftrightarrow>
     0 < loc_x g + size_w g \<and> loc_x g < env_width env \<and> 0 < loc_y g + size_h g \<and> loc_y g < env_height env"

definition mapped_override_redirect_window ::
  "focus_env \<Rightarrow> window \<Rightarrow> x11_surface \<Rightarrow> focus_comp \<Rightarrow> focus_comp" where
  "mapped_override_redirect_window env w x s =
     (let s = s\<lparr>fc_space := env_map_element env w (fc_space s)\<rparr>;
          meta = x11_surface_metadata env s x;
          s = s\<lparr>fc_metadata := AList.update w meta (fc_metadata s)\<rparr>;
          is_focused_child = is_transient_of_focused s (xs_window_id x);
          s = register_child w (transient_for meta) s
      in if is_focused_child \<and> is_dropdown meta then
           (if \<not> on_screen env (geometry meta) then s
            else notify_dropdown env w (classify_special_windows (fc_space s) s))
         else if \<not> is_dropdown meta then reevaluate_focus env s
         else s)"

definition SPECIAL_FLAGS :: window_flags where
  "SPECIAL_FLAGS = OVERLAY OR NOTIFICATION OR EXTERNAL_OVERLAY OR STREAMING_CLIENT OR STREAMING_CLIENT_VIDEO OR
     VR_OVERLAY_TARGET"

definition unmapped_window :: "focus_env \<Rightarrow> x11_surface \<Rightarrow> focus_comp \<Rightarrow> focus_comp" where
  "unmapped_window env x s =
     (let unmapped_id = xs_window_id x;
          s = s\<lparr>fc_tray := removeAll unmapped_id (fc_tray s)\<rparr>;
          was_focused = (fc_focused_x11 s = Some unmapped_id);
          focused_is_transient_child =
            (case Option.bind (fc_focused_x11 s) (find_x11 env (fc_space s)) of
               Some w \<Rightarrow> Option.bind (meta_of s w) transient_for = Some unmapped_id | None \<Rightarrow> False);
          found = find_window_by_x11_surface env s x;
          is_special =
            (case Option.bind found (meta_of s) of
               Some m \<Rightarrow> flags_intersect (window_flags m) SPECIAL_FLAGS | None \<Rightarrow> False);
          s = (case found of None \<Rightarrow> s
               | Some w \<Rightarrow>
                   (let s = unregister_window w s;
                        s = s\<lparr>fc_space := env_unmap_elem env w (fc_space s)\<rparr>
                    in if fc_override s = Some w then clear_dropdowns env s else s));
          s = (if \<not> xs_override_redirect x then emit [Set_X11_Mapped unmapped_id False] s else s)
      in if was_focused \<or> focused_is_transient_child \<or> fc_focused_x11 s = None \<or> is_special then
           reevaluate_focus env
             (if was_focused \<or> focused_is_transient_child
              then emit [Keyboard_Focus None] (s\<lparr>fc_focused_x11 := None\<rparr>) else s)
         else s)"

definition destroyed_window :: "focus_env \<Rightarrow> x11_surface \<Rightarrow> focus_comp \<Rightarrow> focus_comp" where
  "destroyed_window env x s =
     (let s = s\<lparr>fc_tray := removeAll (xs_window_id x) (fc_tray s)\<rparr>
      in case find_window_by_x11_surface env s x of None \<Rightarrow> s | Some w \<Rightarrow> unregister_window w s)"

definition configure_request :: "x11_surface \<Rightarrow> u32 option \<Rightarrow> u32 option \<Rightarrow> focus_comp \<Rightarrow> focus_comp" where
  "configure_request x w h s =
     (let geo = xs_geometry x;
          geo = (case w of Some w \<Rightarrow> geo\<lparr>size_w := sint w\<rparr> | None \<Rightarrow> geo);
          geo = (case h of Some h \<Rightarrow> geo\<lparr>size_h := sint h\<rparr> | None \<Rightarrow> geo)
      in emit [Configure_X11 (xs_window_id x) geo] s)"

definition reclassify :: "int \<Rightarrow> window_flags \<Rightarrow> window_flags" where
  "reclassify width flags =
     (if 1200 < width then flags_insert OVERLAY (flags_remove NOTIFICATION flags)
      else flags_insert NOTIFICATION (flags_remove OVERLAY flags))"

definition configure_notify :: "focus_env \<Rightarrow> x11_surface \<Rightarrow> rect \<Rightarrow> focus_comp \<Rightarrow> focus_comp" where
  "configure_notify env x geo s =
     (case find_window_by_x11_surface env s x of None \<Rightarrow> s
      | Some w \<Rightarrow>
          (let s = s\<lparr>fc_space := env_map_element env w (fc_space s)\<rparr>
           in case meta_of s w of None \<Rightarrow> s
           | Some m \<Rightarrow>
               (let needs_reclassify = flags_contain (window_flags m) OVERLAY \<or> flags_contain (window_flags m) NOTIFICATION;
                    overlay_value = with_x11_focus env (\<lambda>xf. get_steam_overlay_value xf (xs_window_id x)) 0;
                    new_flags = (if needs_reclassify \<and> overlay_value \<noteq> 0
                                 then reclassify (size_w geo) (window_flags m) else window_flags m);
                    s = update_meta w (\<lambda>m. m\<lparr>geometry := geo, window_flags := new_flags\<rparr>) s
                in if new_flags \<noteq> window_flags m then set_focus_state mark_dirty s else s)))"

text \<open>\<open>request_ok\<close> is whether the X server accepted the new state.\<close>

definition set_x11_fullscreen :: "focus_env \<Rightarrow> x11_surface \<Rightarrow> bool \<Rightarrow> bool \<Rightarrow> focus_comp \<Rightarrow> focus_comp" where
  "set_x11_fullscreen env x on request_ok s =
     (if \<not> request_ok then s
      else reevaluate_focus env
        (case find_window_by_x11_surface env s x of None \<Rightarrow> s
         | Some w \<Rightarrow> update_meta w (\<lambda>m. m\<lparr>fullscreen := on\<rparr>) s))"

definition surface_associated :: "focus_env \<Rightarrow> surface \<Rightarrow> x11_surface \<Rightarrow> focus_comp \<Rightarrow> focus_comp" where
  "surface_associated env srf x s =
     (case fc_focused_x11 s of None \<Rightarrow> s
      | Some focused_id \<Rightarrow>
          if xs_window_id x \<noteq> focused_id then s
          else case find_x11 env (fc_space s) focused_id of None \<Rightarrow> s
          | Some w \<Rightarrow>
              emit ([Keyboard_Focus None, Keyboard_Focus (Some w)] @
                    (case env_x11_focus env of
                       Some xf \<Rightarrow> [X11_Requests (set_input_focus xf focused_id)] | None \<Rightarrow> []) @
                    [Pointer_Motion srf]) s)"

section \<open>The override surface and the pointer\<close>

definition override_window_surface :: "u32 \<Rightarrow> surface \<Rightarrow> bool \<Rightarrow> focus_comp \<Rightarrow> focus_comp" where
  "override_window_surface x11_window srf has_color_management s =
     (let focus_key = (case fc_focused_x11 s of Some xid \<Rightarrow> xid | None \<Rightarrow> x11_window);
          stale = (case fc_override_surface s of
                     Some (old, _) \<Rightarrow> if old \<noteq> srf \<and> has_color_management then [Clear_Gamescope_Current old] else []
                   | None \<Rightarrow> [])
      in emit stale (s\<lparr>fc_override_surface := Some (srf, focus_key)\<rparr>))"

definition is_override_active :: "focus_env \<Rightarrow> focus_comp \<Rightarrow> bool" where
  "is_override_active env s \<longleftrightarrow>
     (case fc_override_surface s of None \<Rightarrow> False
      | Some (srf, x11_win) \<Rightarrow>
          env_alive env srf \<and>
          (if x11_win = 0 then fc_focused_x11 s = None else fc_focused_x11 s = Some x11_win))"

text \<open>
  The hit tests of Smithay at the pointer position: \<open>located\<close> is whether the space knows the
  window, \<open>under_window\<close> the surface of a window under the position, \<open>under_popups\<close> the surface of the
  visible popups, \<open>under_space\<close> the surface of the topmost window there.
\<close>

record hit_tests =
  located :: "window \<Rightarrow> bool"
  under_window :: "window \<Rightarrow> surface option"
  under_popups :: "surface option"
  under_space :: "surface option"

definition override_hit :: "focus_env \<Rightarrow> hit_tests \<Rightarrow> focus_comp \<Rightarrow> surface option" where
  "override_hit env h s =
     (case under_popups h of Some srf \<Rightarrow> Some srf
      | None \<Rightarrow>
          (case fc_focused_x11 s of
             Some wid \<Rightarrow>
               (case find_x11 env (fc_space s) wid of None \<Rightarrow> None
                | Some w \<Rightarrow>
                    if \<not> located h w then None
                    else (case under_window h w of Some srf \<Rightarrow> Some srf | None \<Rightarrow> env_surface env w))
           | None \<Rightarrow> map_option fst (fc_override_surface s)))"

definition find_surface_at :: "focus_env \<Rightarrow> hit_tests \<Rightarrow> focus_comp \<Rightarrow> surface option" where
  "find_surface_at env h s =
     (let normal = (if is_override_active env s then override_hit env h s else under_space h)
      in case fc_override s of
           Some w \<Rightarrow>
             if is_override_active env s then normal
             else if \<not> located h w then None
             else (case under_window h w of Some srf \<Rightarrow> Some srf | None \<Rightarrow> normal)
         | None \<Rightarrow> normal)"

section \<open>Events\<close>

datatype focus_event =
    Commit_Surface surface bool bool "int \<times> int"
  | New_Toplevel window "u32 option" bool
  | Toplevel_Destroyed surface
  | Toplevel_Fullscreen surface bool
  | App_Id_Changed surface "u32 option"
  | Property_Notify x11_surface wm_property
  | Active_Window_Request x11_surface
  | Map_Window_Request window x11_surface bool
  | Mapped_Override_Redirect window x11_surface
  | Unmapped_Window x11_surface
  | Destroyed_Window x11_surface
  | Configure_Request x11_surface "u32 option" "u32 option"
  | Configure_Notify x11_surface rect
  | X11_Fullscreen x11_surface bool bool
  | Surface_Associated surface x11_surface
  | Override_Window_Surface u32 surface bool

fun focus_step :: "focus_env \<Rightarrow> focus_event \<Rightarrow> focus_comp \<Rightarrow> focus_comp" where
  "focus_step env (Commit_Surface srf sync mapped win) s = commit_surface env srf sync mapped win s"
| "focus_step env (New_Toplevel w pid fs) s = new_toplevel env w pid fs s"
| "focus_step env (Toplevel_Destroyed srf) s = toplevel_destroyed env srf s"
| "focus_step env (Toplevel_Fullscreen srf on) s = set_toplevel_fullscreen env srf on s"
| "focus_step env (App_Id_Changed srf pid) s = app_id_changed env srf pid s"
| "focus_step env (Property_Notify x p) s = property_notify env x p s"
| "focus_step env (Active_Window_Request x) s = active_window_request env x s"
| "focus_step env (Map_Window_Request w x ok) s = map_window_request env w x ok s"
| "focus_step env (Mapped_Override_Redirect w x) s = mapped_override_redirect_window env w x s"
| "focus_step env (Unmapped_Window x) s = unmapped_window env x s"
| "focus_step env (Destroyed_Window x) s = destroyed_window env x s"
| "focus_step env (Configure_Request x w h) s = configure_request x w h s"
| "focus_step env (Configure_Notify x geo) s = configure_notify env x geo s"
| "focus_step env (X11_Fullscreen x on ok) s = set_x11_fullscreen env x on ok s"
| "focus_step env (Surface_Associated srf x) s = surface_associated env srf x s"
| "focus_step env (Override_Window_Surface xid srf cm) s = override_window_surface xid srf cm s"

definition focus_init :: focus_comp where
  "focus_init =
     \<lparr>fc_space = [], fc_mapping = [], fc_metadata = [], fc_children = [], fc_tray = [], fc_focused_x11 = None,
      fc_focused_window = None, fc_override = None, fc_overlay = None, fc_notification = None, fc_external = None,
      fc_override_surface = None, fc_pointer_focus = None, fc_last_keyboard = None,
      fc_focus = \<lparr>focus_dirty = False, requested_focus_window = None\<rparr>, fc_damage_counter = 0,
      fc_map_counter = 0, fc_serials = [], fc_screen_dirty = True, fc_effects = []\<rparr>"

end
