(* ===== verification/Focus_Props.thy ===== *)
theory Focus_Props
  imports Focus_Handlers
begin

text \<open>
  Correctness of the focus policy: the window that gets the focus and where keyboard and pointer go,
  the search through chains of transient windows, the bookkeeping that every handler keeps, and a
  state in which the policy focuses a window it has just removed.
\<close>

section \<open>The fields each operation changes\<close>

lemma emit_simps [simp]:
  "fc_space (emit es s) = fc_space s" "fc_metadata (emit es s) = fc_metadata s"
  "fc_children (emit es s) = fc_children s" "fc_tray (emit es s) = fc_tray s"
  "fc_focused_x11 (emit es s) = fc_focused_x11 s" "fc_focused_window (emit es s) = fc_focused_window s"
  "fc_override (emit es s) = fc_override s" "fc_overlay (emit es s) = fc_overlay s"
  "fc_notification (emit es s) = fc_notification s" "fc_external (emit es s) = fc_external s"
  "fc_pointer_focus (emit es s) = fc_pointer_focus s" "fc_focus (emit es s) = fc_focus s"
  "fc_mapping (emit es s) = fc_mapping s" "fc_effects (emit es s) = fc_effects s @ es"
  "fc_serials (emit es s) = fc_serials s" "meta_of (emit es s) w = meta_of s w"
  by (simp_all add: emit_def meta_of_def)

lemma set_focus_state_simps [simp]:
  "fc_space (set_focus_state f s) = fc_space s" "fc_metadata (set_focus_state f s) = fc_metadata s"
  "fc_children (set_focus_state f s) = fc_children s" "fc_tray (set_focus_state f s) = fc_tray s"
  "fc_focused_x11 (set_focus_state f s) = fc_focused_x11 s"
  "fc_focused_window (set_focus_state f s) = fc_focused_window s"
  "fc_override (set_focus_state f s) = fc_override s" "fc_overlay (set_focus_state f s) = fc_overlay s"
  "fc_notification (set_focus_state f s) = fc_notification s" "fc_external (set_focus_state f s) = fc_external s"
  "fc_pointer_focus (set_focus_state f s) = fc_pointer_focus s" "fc_focus (set_focus_state f s) = f (fc_focus s)"
  "fc_mapping (set_focus_state f s) = fc_mapping s" "fc_effects (set_focus_state f s) = fc_effects s"
  "fc_serials (set_focus_state f s) = fc_serials s" "meta_of (set_focus_state f s) w = meta_of s w"
  by (simp_all add: set_focus_state_def meta_of_def)

lemma dismiss_simps [simp]:
  "fc_space (dismiss_popups_for_window w s) = fc_space s"
  "fc_metadata (dismiss_popups_for_window w s) = fc_metadata s"
  "fc_children (dismiss_popups_for_window w s) = fc_children s" "fc_tray (dismiss_popups_for_window w s) = fc_tray s"
  "fc_focused_x11 (dismiss_popups_for_window w s) = fc_focused_x11 s"
  "fc_focused_window (dismiss_popups_for_window w s) = fc_focused_window s"
  "fc_override (dismiss_popups_for_window w s) = fc_override s"
  "fc_overlay (dismiss_popups_for_window w s) = fc_overlay s"
  "fc_effects (dismiss_popups_for_window w s) = fc_effects s @ [Dismiss_Popups w]"
  "fc_serials (dismiss_popups_for_window w s) = fc_serials s"
  "fc_focus (dismiss_popups_for_window w s) = fc_focus s"
  by (simp_all add: dismiss_popups_for_window_def)

lemma refresh_simps [simp]:
  "fc_space (refresh_metadata env s) = fc_space s" "fc_children (refresh_metadata env s) = fc_children s"
  "fc_tray (refresh_metadata env s) = fc_tray s" "fc_override (refresh_metadata env s) = fc_override s"
  "fc_focused_x11 (refresh_metadata env s) = fc_focused_x11 s"
  "fc_focused_window (refresh_metadata env s) = fc_focused_window s"
  "fc_mapping (refresh_metadata env s) = fc_mapping s" "fc_focus (refresh_metadata env s) = fc_focus s"
  by (simp_all add: refresh_metadata_def split: option.splits)

lemma classify_simps [simp]:
  "fc_space (classify_special_windows ws s) = fc_space s"
  "fc_metadata (classify_special_windows ws s) = fc_metadata s"
  "fc_children (classify_special_windows ws s) = fc_children s" "fc_tray (classify_special_windows ws s) = fc_tray s"
  "fc_override (classify_special_windows ws s) = fc_override s"
  "fc_focused_x11 (classify_special_windows ws s) = fc_focused_x11 s"
  "fc_focused_window (classify_special_windows ws s) = fc_focused_window s"
  "fc_mapping (classify_special_windows ws s) = fc_mapping s"
  "requested_focus_window (fc_focus (classify_special_windows ws s)) = requested_focus_window (fc_focus s)"
  "meta_of (classify_special_windows ws s) w = meta_of s w"
  by (simp_all add: classify_special_windows_def Let_def focus_state_defs meta_of_def)

lemma report_simps [simp]:
  "fc_metadata (report_focused_app env b s) = fc_metadata s" "fc_children (report_focused_app env b s) = fc_children s"
  "fc_space (report_focused_app env b s) = fc_space s" "fc_tray (report_focused_app env b s) = fc_tray s"
  "fc_override (report_focused_app env b s) = fc_override s" "fc_overlay (report_focused_app env b s) = fc_overlay s"
  "fc_focused_x11 (report_focused_app env b s) = fc_focused_x11 s"
  "fc_focused_window (report_focused_app env b s) = fc_focused_window s"
  "fc_focus (report_focused_app env b s) = fc_focus s"
  "fc_metadata (report_focusable env cs s) = fc_metadata s" "fc_children (report_focusable env cs s) = fc_children s"
  "fc_space (report_focusable env cs s) = fc_space s" "fc_tray (report_focusable env cs s) = fc_tray s"
  "fc_override (report_focusable env cs s) = fc_override s" "fc_overlay (report_focusable env cs s) = fc_overlay s"
  "fc_focused_x11 (report_focusable env cs s) = fc_focused_x11 s"
  "fc_focused_window (report_focusable env cs s) = fc_focused_window s"
  "fc_focus (report_focusable env cs s) = fc_focus s" "fc_mapping (report_focusable env cs s) = fc_mapping s"
  by (simp_all add: report_focused_app_def report_focusable_def Let_def split: option.splits)

lemma enforce_simps [simp]:
  "fc_metadata (enforce_fullscreen_geometry env w s) = fc_metadata s"
  "fc_children (enforce_fullscreen_geometry env w s) = fc_children s"
  "fc_space (enforce_fullscreen_geometry env w s) = fc_space s"
  "fc_tray (enforce_fullscreen_geometry env w s) = fc_tray s"
  "fc_override (enforce_fullscreen_geometry env w s) = fc_override s"
  "fc_overlay (enforce_fullscreen_geometry env w s) = fc_overlay s"
  "fc_focused_x11 (enforce_fullscreen_geometry env w s) = fc_focused_x11 s"
  "fc_focused_window (enforce_fullscreen_geometry env w s) = fc_focused_window s"
  "fc_focus (enforce_fullscreen_geometry env w s) = fc_focus s"
  "meta_of (enforce_fullscreen_geometry env w s) v = meta_of s v"
  by (simp_all add: enforce_fullscreen_geometry_def meta_of_def split: option.splits)

lemma unregister_simps [simp]:
  "fc_space (unregister_window w s) = fc_space s" "fc_tray (unregister_window w s) = fc_tray s"
  "fc_override (unregister_window w s) = fc_override s" "fc_overlay (unregister_window w s) = fc_overlay s"
  "fc_focused_x11 (unregister_window w s) = fc_focused_x11 s"
  "fc_focused_window (unregister_window w s) = fc_focused_window s"
  "fc_focus (unregister_window w s) = fc_focus s" "fc_effects (unregister_window w s) = fc_effects s"
  "meta_of (unregister_window w s) v = (if v = w then None else meta_of s v)"
  by (simp_all add: unregister_window_def meta_of_def delete_conv')

lemma clear_dropdowns_simps [simp]:
  "fc_tray (clear_dropdowns env s) = fc_tray s" "fc_overlay (clear_dropdowns env s) = fc_overlay s"
  "fc_focused_x11 (clear_dropdowns env s) = fc_focused_x11 s"
  "fc_focused_window (clear_dropdowns env s) = fc_focused_window s"
  "fc_override (clear_dropdowns env s) = None"
  by (simp_all add: clear_dropdowns_def split: option.splits)

lemma meta_of_updates [simp]:
  "meta_of (s\<lparr>fc_space := a\<rparr>) w = meta_of s w" "meta_of (s\<lparr>fc_mapping := b\<rparr>) w = meta_of s w"
  "meta_of (s\<lparr>fc_focused_x11 := c\<rparr>) w = meta_of s w" "meta_of (s\<lparr>fc_focused_window := d\<rparr>) w = meta_of s w"
  "meta_of (s\<lparr>fc_override := e\<rparr>) w = meta_of s w" "meta_of (s\<lparr>fc_serials := f\<rparr>) w = meta_of s w"
  "meta_of (s\<lparr>fc_screen_dirty := g\<rparr>) w = meta_of s w" "meta_of (s\<lparr>fc_map_counter := h\<rparr>) w = meta_of s w"
  "meta_of (s\<lparr>fc_damage_counter := i\<rparr>) w = meta_of s w" "meta_of (s\<lparr>fc_pointer_focus := j\<rparr>) w = meta_of s w"
  "meta_of (s\<lparr>fc_last_keyboard := k\<rparr>) w = meta_of s w" "meta_of (s\<lparr>fc_tray := l\<rparr>) w = meta_of s w"
  "meta_of (s\<lparr>fc_children := m\<rparr>) w = meta_of s w"
  by (simp_all add: meta_of_def)

section \<open>The choice by priority\<close>

text \<open>The stable sort and the reversal give the last window of the stack with the largest key.\<close>

lemma last_filter_split:
  "filter P xs \<noteq> [] \<Longrightarrow>
   \<exists>ys zs. xs = ys @ last (filter P xs) # zs \<and> P (last (filter P xs)) \<and> (\<forall>z \<in> set zs. \<not> P z)"
proof (induction xs rule: rev_induct)
  case (snoc x xs)
  show ?case
  proof (cases "P x")
    case False
    with snoc obtain ys zs where "xs = ys @ last (filter P xs) # zs" "P (last (filter P xs))" "\<forall>z \<in> set zs. \<not> P z"
      by auto
    with False have "xs @ [x] = ys @ last (filter P (xs @ [x])) # (zs @ [x])" "\<forall>z \<in> set (zs @ [x]). \<not> P z"
      "P (last (filter P (xs @ [x])))"
      by auto
    then show ?thesis by blast
  next
    case True
    then show ?thesis by (intro exI [of _ xs] exI [of _ "[]"]) simp
  qed
qed simp

lemma sorted_map_last: "sorted (map f xs) \<Longrightarrow> w \<in> set xs \<Longrightarrow> f w \<le> f (last xs)"
  by (cases xs rule: rev_cases) (auto simp: sorted_append)

lemma last_filter_last: "xs \<noteq> [] \<Longrightarrow> P (last xs) \<Longrightarrow> last (filter P xs) = last xs \<and> filter P xs \<noteq> []"
  by (cases xs rule: rev_cases) auto

lemma pick_by_priority_last_max:
  assumes "candidates \<noteq> []"
  shows "\<exists>below above. candidates = below @ pick_by_priority s candidates # above \<and>
    (\<forall>w \<in> set below. window_key s w \<le> window_key s (pick_by_priority s candidates)) \<and>
    (\<forall>w \<in> set above. window_key s w < window_key s (pick_by_priority s candidates))"
proof -
  let ?f = "window_key s" and ?sorted = "sort_key (window_key s) candidates"
  define b where "b = pick_by_priority s candidates"
  have ne: "?sorted \<noteq> []" using assms by (metis set_empty set_sort)
  then have b: "b = last ?sorted" by (simp add: b_def pick_by_priority_def hd_rev)
  have max: "?f w \<le> ?f b" if "w \<in> set candidates" for w
    unfolding b using that by (intro sorted_map_last) simp_all
  let ?P = "\<lambda>w. ?f w = ?f b"
  have same: "filter ?P ?sorted = filter ?P candidates" by (rule sort_key_stable)
  have "last (filter ?P ?sorted) = b \<and> filter ?P ?sorted \<noteq> []"
    using last_filter_last [of ?sorted ?P] ne b by simp
  then obtain ys zs where split: "candidates = ys @ b # zs" "\<forall>z \<in> set zs. ?f z \<noteq> ?f b"
    using last_filter_split [of ?P candidates] same by auto
  moreover have "\<forall>w \<in> set zs. ?f w < ?f b" using split max by (auto simp: less_le)
  ultimately show ?thesis
    using max unfolding b_def [symmetric] by (intro exI [of _ ys] exI [of _ zs]) auto
qed

section \<open>Bookkeeping\<close>

text \<open>
  The index of transient children says exactly what the metadata say: a window is listed, once, under
  the parent its metadata name, and no list is empty. It is what makes the lookup by parent complete.
\<close>

definition parent_in :: "metadata_map \<Rightarrow> window \<Rightarrow> u32 option" where
  "parent_in metas w = Option.bind (map_of metas w) transient_for"

definition children_in :: "children_map \<Rightarrow> u32 \<Rightarrow> window list" where
  "children_in index p = (case map_of index p of None \<Rightarrow> [] | Some ws \<Rightarrow> ws)"

definition index_ok :: "metadata_map \<Rightarrow> children_map \<Rightarrow> bool" where
  "index_ok metas index \<longleftrightarrow>
     (\<forall>p w. w \<in> set (children_in index p) \<longleftrightarrow> parent_in metas w = Some p) \<and>
     (\<forall>p. distinct (children_in index p) \<and> map_of index p \<noteq> Some [])"

lemma index_okD:
  "index_ok metas index \<Longrightarrow> w \<in> set (children_in index p) \<longleftrightarrow> parent_in metas w = Some p"
  "index_ok metas index \<Longrightarrow> distinct (children_in index p)"
  "index_ok metas index \<Longrightarrow> map_of index p \<noteq> Some []"
  by (simp_all add: index_ok_def)

lemma children_remove_child:
  "children_in (remove_child p w index) q =
     (if q = p then filter (\<lambda>v. v \<noteq> w) (children_in index q) else children_in index q)"
  by (auto simp: remove_child_def children_in_def Let_def delete_conv' update_conv' split: option.splits)

lemma remove_child_nonempty:
  "map_of index q \<noteq> Some [] \<Longrightarrow> map_of (remove_child p w index) q \<noteq> Some []"
  by (auto simp: remove_child_def Let_def delete_conv' update_conv' split: option.splits)

lemma children_add_child:
  "children_in (add_child p w index) q = (if q = p then children_in index q @ [w] else children_in index q)"
  by (auto simp: add_child_def children_in_def update_conv' split: option.splits)

lemma add_child_nonempty: "map_of index q \<noteq> Some [] \<Longrightarrow> map_of (add_child p w index) q \<noteq> Some []"
  by (auto simp: add_child_def update_conv')

lemma parent_update: "parent_in (AList.update w m metas) v = (if v = w then transient_for m else parent_in metas v)"
  by (simp add: parent_in_def update_conv')

lemma parent_delete: "parent_in (AList.delete w metas) v = (if v = w then None else parent_in metas v)"
  by (simp add: parent_in_def delete_conv')

text \<open>Every change of the index: the entry of one window moves from its old parent to its new one.\<close>

lemma index_ok_move:
  assumes ok: "index_ok metas index"
    and new: "\<And>v. parent_in metas' v = (if v = w then new_parent else parent_in metas v)"
  shows "index_ok metas' (move_child w (parent_in metas w) new_parent index)"
proof -
  have children: "children_in (move_child w (parent_in metas w) new_parent index) q =
      filter (\<lambda>v. v \<noteq> w) (children_in index q) @ (if new_parent = Some q then [w] else [])" for q
  proof -
    have "w \<notin> set (children_in index q)" if "parent_in metas w \<noteq> Some q"
      using ok that by (simp add: index_okD)
    then have "filter (\<lambda>v. v \<noteq> w) (children_in index q) = children_in index q" if "parent_in metas w \<noteq> Some q"
      using that by (metis (mono_tags, lifting) filter_True)
    then show ?thesis
      by (auto simp: move_child_def Let_def children_add_child children_remove_child split: option.splits)
  qed
  have "map_of (move_child w (parent_in metas w) new_parent index) q \<noteq> Some []" for q
    using index_okD(3) [OF ok, of q]
    by (auto simp: move_child_def Let_def split: option.splits intro: add_child_nonempty [THEN notE]
        dest: remove_child_nonempty add_child_nonempty)
  then show ?thesis
    using ok by (auto simp: index_ok_def children new)
qed

lemma index_ok_same:
  "index_ok metas index \<Longrightarrow> (\<And>v. parent_in metas' v = parent_in metas v) \<Longrightarrow> index_ok metas' index"
  by (simp add: index_ok_def)

text \<open>No window is classified as a tray icon, and none as overlay and notification at once.\<close>

definition flags_ok :: "window_flags \<Rightarrow> bool" where
  "flags_ok f \<longleftrightarrow> \<not> flags_contain f SYS_TRAY_ICON \<and> \<not> (flags_contain f OVERLAY \<and> flags_contain f NOTIFICATION)"

definition metas_ok :: "metadata_map \<Rightarrow> bool" where
  "metas_ok metas \<longleftrightarrow> (\<forall>w m. map_of metas w = Some m \<longrightarrow> flags_ok (window_flags m))"

lemma and_exp_iff: "k < LENGTH('a) \<Longrightarrow> f AND 2 ^ k = 2 ^ k \<longleftrightarrow> bit (f :: 'a :: len word) k"
proof
  assume "k < LENGTH('a)" and "f AND 2 ^ k = 2 ^ k"
  then have "bit (f AND 2 ^ k) k = bit (2 ^ k :: 'a word) k" by simp
  with \<open>k < LENGTH('a)\<close> show "bit f k" by (simp add: bit_and_iff bit_exp_iff)
next
  assume "bit f k"
  then show "f AND 2 ^ k = 2 ^ k" by (intro bit_eqI) (auto simp: bit_and_iff bit_exp_iff)
qed

lemma flags_contain_bit:
  "flags_contain f OVERLAY \<longleftrightarrow> bit f 0" "flags_contain f NOTIFICATION \<longleftrightarrow> bit f 1"
  "flags_contain f SYS_TRAY_ICON \<longleftrightarrow> bit f 5"
  using and_exp_iff [of 0 f] and_exp_iff [of 1 f] and_exp_iff [of 5 f]
  by (simp_all add: flags_contain_def flag_defs)

lemma flags_ok_bit: "flags_ok f \<longleftrightarrow> \<not> bit f 5 \<and> \<not> (bit f 0 \<and> bit f 1)"
  by (simp add: flags_ok_def flags_contain_bit)

lemma flag_bits:
  "bit OVERLAY n \<longleftrightarrow> n = 0" "bit NOTIFICATION n \<longleftrightarrow> n = 1" "bit EXTERNAL_OVERLAY n \<longleftrightarrow> n = 2"
  "bit STREAMING_CLIENT n \<longleftrightarrow> n = 3" "bit STREAMING_CLIENT_VIDEO n \<longleftrightarrow> n = 4" "bit VR_OVERLAY_TARGET n \<longleftrightarrow> n = 6"
proof -
  have exp: "bit (2 ^ k :: u8) n \<longleftrightarrow> k < 8 \<and> n = k" for k by (auto simp: bit_exp_iff)
  show "bit OVERLAY n \<longleftrightarrow> n = 0" "bit NOTIFICATION n \<longleftrightarrow> n = 1" "bit EXTERNAL_OVERLAY n \<longleftrightarrow> n = 2"
    "bit STREAMING_CLIENT n \<longleftrightarrow> n = 3" "bit STREAMING_CLIENT_VIDEO n \<longleftrightarrow> n = 4" "bit VR_OVERLAY_TARGET n \<longleftrightarrow> n = 6"
    using exp [of 0] exp [of 1] exp [of 2] exp [of 3] exp [of 4] exp [of 6]
    by (simp_all only: flag_defs) simp_all
qed

lemma flags_ok_reclassify: "flags_ok f \<Longrightarrow> flags_ok (reclassify width f)"
  by (simp add: flags_ok_bit reclassify_def flags_insert_def flags_remove_def bit_or_iff bit_and_iff bit_not_iff flag_bits)

lemma flags_ok_x11: "fc_tray s = [] \<Longrightarrow> flags_ok (x11_window_flags env s x)"
  by (simp add: flags_ok_bit x11_window_flags_def Let_def with_x11_focus_def flags_insert_def bit_or_iff flag_bits
      split: option.splits)

lemma x11_metadata_fields [simp]:
  "transient_for (x11_surface_metadata env s x) = xs_transient_for x"
  "window_flags (x11_surface_metadata env s x) = x11_window_flags env s x"
  by (simp_all add: x11_surface_metadata_def Let_def)

lemma map_of_map_values: "map_of (map (\<lambda>(w, m). (w, f w m)) al) w = map_option (f w) (map_of al w)"
  by (induction al) auto

lemma metas_ok_update: "metas_ok metas \<Longrightarrow> flags_ok (window_flags m) \<Longrightarrow> metas_ok (AList.update w m metas)"
  by (auto simp: metas_ok_def update_conv')

lemma metas_ok_delete: "metas_ok metas \<Longrightarrow> metas_ok (AList.delete w metas)"
  by (auto simp: metas_ok_def delete_conv' split: if_splits)

definition focus_inv :: "focus_comp \<Rightarrow> bool" where
  "focus_inv s \<longleftrightarrow> index_ok (fc_metadata s) (fc_children s) \<and> metas_ok (fc_metadata s) \<and> fc_tray s = []"

lemma focus_inv_cong:
  "fc_metadata t = fc_metadata s \<Longrightarrow> fc_children t = fc_children s \<Longrightarrow> fc_tray t = fc_tray s \<Longrightarrow>
   focus_inv t \<longleftrightarrow> focus_inv s"
  by (simp add: focus_inv_def)

lemma inv_emit [simp]: "focus_inv (emit es s) \<longleftrightarrow> focus_inv s"
  by (simp add: focus_inv_def)

lemma inv_set_focus_state [simp]: "focus_inv (set_focus_state f s) \<longleftrightarrow> focus_inv s"
  by (simp add: focus_inv_def)

lemma inv_dismiss [simp]: "focus_inv (dismiss_popups_for_window w s) \<longleftrightarrow> focus_inv s"
  by (simp add: focus_inv_def)

lemma inv_classify [simp]: "focus_inv (classify_special_windows ws s) \<longleftrightarrow> focus_inv s"
  by (simp add: focus_inv_def)

lemma inv_updates [simp]:
  "focus_inv (s\<lparr>fc_space := a\<rparr>) = focus_inv s" "focus_inv (s\<lparr>fc_mapping := b\<rparr>) = focus_inv s"
  "focus_inv (s\<lparr>fc_focused_x11 := c\<rparr>) = focus_inv s" "focus_inv (s\<lparr>fc_focused_window := d\<rparr>) = focus_inv s"
  "focus_inv (s\<lparr>fc_override := e\<rparr>) = focus_inv s" "focus_inv (s\<lparr>fc_serials := f\<rparr>) = focus_inv s"
  "focus_inv (s\<lparr>fc_screen_dirty := g\<rparr>) = focus_inv s" "focus_inv (s\<lparr>fc_map_counter := h\<rparr>) = focus_inv s"
  "focus_inv (s\<lparr>fc_damage_counter := i\<rparr>) = focus_inv s" "focus_inv (s\<lparr>fc_pointer_focus := j\<rparr>) = focus_inv s"
  "focus_inv (s\<lparr>fc_last_keyboard := k\<rparr>) = focus_inv s" "focus_inv (s\<lparr>fc_override_surface := l\<rparr>) = focus_inv s"
  by (simp_all add: focus_inv_def)

lemma inv_tray: "focus_inv s \<Longrightarrow> focus_inv (s\<lparr>fc_tray := removeAll xid (fc_tray s)\<rparr>)"
  by (simp add: focus_inv_def)

definition refreshed :: "focus_env \<Rightarrow> window \<Rightarrow> window_metadata \<Rightarrow> window_metadata" where
  "refreshed env w m =
     (case env_x11_focus env of None \<Rightarrow> m | Some xf \<Rightarrow> refresh_app_id env xf w (refresh_mode env xf w m))"

lemma meta_of_refresh: "meta_of (refresh_metadata env s) w = map_option (refreshed env w) (meta_of s w)"
proof (cases "env_x11_focus env")
  case None
  then have "refreshed env w = (\<lambda>m. m)" by (simp add: refreshed_def fun_eq_iff)
  with None show ?thesis by (simp add: refresh_metadata_def option.map_ident)
next
  case (Some xf)
  then have "refreshed env w = refresh_app_id env xf w \<circ> refresh_mode env xf w"
    by (simp add: refreshed_def fun_eq_iff)
  with Some show ?thesis
    by (simp add: refresh_metadata_def meta_of_def map_of_map_values option.map_comp del: map_map)
qed

lemma refreshed_fields [simp]:
  "transient_for (refreshed env w m) = transient_for m" "window_flags (refreshed env w m) = window_flags m"
  "is_dropdown (refreshed env w m) = is_dropdown m"
  by (simp_all add: refreshed_def refresh_app_id_def refresh_mode_def Let_def is_dropdown_def is_useless_def
      split: option.splits)

lemma inv_refresh: "focus_inv s \<Longrightarrow> focus_inv (refresh_metadata env s)"
proof -
  assume inv: "focus_inv s"
  have "parent_in (fc_metadata (refresh_metadata env s)) w = parent_in (fc_metadata s) w" for w
    using meta_of_refresh [of env s w] unfolding parent_in_def meta_of_def
    by (cases "map_of (fc_metadata s) w") simp_all
  then have "index_ok (fc_metadata (refresh_metadata env s)) (fc_children s)"
    using inv index_ok_same [of "fc_metadata s" "fc_children s" "fc_metadata (refresh_metadata env s)"]
    by (simp add: focus_inv_def)
  moreover have "metas_ok (fc_metadata (refresh_metadata env s))"
    using inv meta_of_refresh [of env s] unfolding focus_inv_def metas_ok_def meta_of_def by auto
  ultimately show ?thesis using inv by (simp add: focus_inv_def)
qed

lemma inv_unregister: "focus_inv s \<Longrightarrow> focus_inv (unregister_window w s)"
proof -
  assume inv: "focus_inv s"
  have "index_ok (AList.delete w (fc_metadata s)) (move_child w (parent_in (fc_metadata s) w) None (fc_children s))"
    by (rule index_ok_move) (use inv in \<open>simp_all add: focus_inv_def parent_delete\<close>)
  moreover have "fc_children (unregister_window w s) = move_child w (parent_in (fc_metadata s) w) None (fc_children s)"
    by (simp add: move_child_def unregister_window_def parent_in_def meta_of_def)
  moreover have "fc_metadata (unregister_window w s) = AList.delete w (fc_metadata s)"
    by (simp add: unregister_window_def)
  ultimately show ?thesis
    using inv by (simp add: focus_inv_def metas_ok_delete)
qed

lemma inv_update_meta:
  assumes "focus_inv s" and "\<And>m. meta_of s w = Some m \<Longrightarrow> transient_for (f m) = transient_for m"
    and "\<And>m. meta_of s w = Some m \<Longrightarrow> flags_ok (window_flags m) \<Longrightarrow> flags_ok (window_flags (f m))"
  shows "focus_inv (update_meta w f s)"
proof (cases "meta_of s w")
  case (Some m)
  then have "parent_in (AList.update w (f m) (fc_metadata s)) v = parent_in (fc_metadata s) v" for v
    using assms(2) by (cases "v = w") (simp_all add: parent_in_def meta_of_def update_conv')
  then have "index_ok (AList.update w (f m) (fc_metadata s)) (fc_children s)"
    using assms(1) index_ok_same [of "fc_metadata s" "fc_children s" "AList.update w (f m) (fc_metadata s)"]
    by (simp add: focus_inv_def)
  moreover have "metas_ok (AList.update w (f m) (fc_metadata s))"
    using assms Some by (intro metas_ok_update) (auto simp: focus_inv_def metas_ok_def meta_of_def)
  ultimately show ?thesis using assms(1) Some by (simp add: update_meta_def focus_inv_def)
qed (use assms in \<open>simp add: update_meta_def\<close>)

lemma inv_register:
  assumes "focus_inv s" and "meta_of s w = None" and "flags_ok (window_flags m)"
  shows "focus_inv (register_child w (transient_for m) (s\<lparr>fc_metadata := AList.update w m (fc_metadata s)\<rparr>))"
proof -
  have none: "parent_in (fc_metadata s) w = None" using assms(2) by (simp add: parent_in_def meta_of_def)
  have "index_ok (AList.update w m (fc_metadata s)) (move_child w None (transient_for m) (fc_children s))"
    using index_ok_move [of "fc_metadata s" "fc_children s" "AList.update w m (fc_metadata s)" w "transient_for m"]
      assms(1) none by (simp add: focus_inv_def parent_update)
  moreover have "fc_children (register_child w (transient_for m) (s\<lparr>fc_metadata := AList.update w m (fc_metadata s)\<rparr>)) =
      move_child w None (transient_for m) (fc_children s)"
    by (simp add: register_child_def move_child_def split: option.split)
  moreover have "fc_metadata (register_child w (transient_for m) (s\<lparr>fc_metadata := AList.update w m (fc_metadata s)\<rparr>)) =
      AList.update w m (fc_metadata s)"
    "fc_tray (register_child w (transient_for m) (s\<lparr>fc_metadata := AList.update w m (fc_metadata s)\<rparr>)) = fc_tray s"
    by (simp_all add: register_child_def split: option.split)
  ultimately show ?thesis
    using assms by (simp add: focus_inv_def metas_ok_update)
qed

lemma inv_clear_dropdowns: "focus_inv s \<Longrightarrow> focus_inv (clear_dropdowns env s)"
  by (simp add: clear_dropdowns_def inv_unregister split: option.split)

lemma remember_keyboard_simps [simp]:
  "focus_inv (remember_keyboard env k c s) = focus_inv s" "meta_of (remember_keyboard env k c s) w = meta_of s w"
  "fc_space (remember_keyboard env k c s) = fc_space s" "fc_overlay (remember_keyboard env k c s) = fc_overlay s"
  "fc_focused_x11 (remember_keyboard env k c s) = fc_focused_x11 s"
  "fc_focused_window (remember_keyboard env k c s) = fc_focused_window s"
  "fc_pointer_focus (remember_keyboard env k c s) = fc_pointer_focus s"
  "fc_effects (remember_keyboard env k c s) = fc_effects s" "fc_focus (remember_keyboard env k c s) = fc_focus s"
  by (simp_all add: remember_keyboard_def)

lemma inv_take_focus: "focus_inv s \<Longrightarrow> focus_inv (take_focus env b s)"
proof -
  assume "focus_inv s"
  moreover have "focus_inv (report_focused_app env b t)" if "focus_inv t" for t
    using that by (simp add: focus_inv_def)
  ultimately show ?thesis by (simp add: take_focus_def Let_def inv_clear_dropdowns)
qed

lemma take_focus_simps [simp]:
  "fc_focused_x11 (take_focus env b s) = x11_id env b" "fc_focused_window (take_focus env b s) = Some b"
  "fc_overlay (take_focus env b s) = fc_overlay s"
  by (simp_all add: take_focus_def Let_def)

lemma inv_apply_focus: "focus_inv s \<Longrightarrow> focus_inv (apply_focus env b s)"
  by (simp add: apply_focus_def Let_def inv_take_focus)

lemma inv_clear_focus: "focus_inv s \<Longrightarrow> focus_inv (clear_focus env s)"
  by (simp add: clear_focus_def Let_def)

lemma choose_window_fields:
  "choose_window env cs s = (w, t) \<Longrightarrow> t = s \<or> t = set_focus_state clear_requested_focus s"
  by (auto simp: choose_window_def pick_best_candidate_def split: option.splits prod.splits)

lemma inv_reevaluate: "focus_inv s \<Longrightarrow> focus_inv (reevaluate_focus env s)"
proof -
  assume "focus_inv s"
  then have classified: "focus_inv (classify_special_windows ws (refresh_metadata env (set_focus_state mark_dirty s)))" for ws
    by (simp add: inv_refresh)
  have report: "focus_inv t \<Longrightarrow> focus_inv (report_focusable env cs t)"
    "focus_inv t \<Longrightarrow> focus_inv (enforce_fullscreen_geometry env w t)" for t cs w
    by (simp_all add: focus_inv_def)
  have choose: "choose_window env cs t = (w, u) \<Longrightarrow> focus_inv t \<Longrightarrow> focus_inv u" for cs t w u
    by (auto dest: choose_window_fields)
  show ?thesis
    using classified report choose
    by (auto simp: reevaluate_focus_def Let_def split: prod.split intro!: inv_clear_focus inv_apply_focus)
qed

lemma inv_notify: "focus_inv s \<Longrightarrow> focus_inv (notify_dropdown env w s)"
  by (simp add: notify_dropdown_def)

text \<open>A window that is mapped is new: Smithay gives it an identity of its own.\<close>

fun fresh_window :: "focus_event \<Rightarrow> focus_comp \<Rightarrow> bool" where
  "fresh_window (New_Toplevel w _ _) s \<longleftrightarrow> meta_of s w = None"
| "fresh_window (Map_Window_Request w _ _) s \<longleftrightarrow> meta_of s w = None"
| "fresh_window (Mapped_Override_Redirect w _) s \<longleftrightarrow> meta_of s w = None"
| "fresh_window _ s \<longleftrightarrow> True"

lemma inv_commit: "focus_inv s \<Longrightarrow> focus_inv (commit_surface env srf sync mapped win s)"
proof -
  assume inv: "focus_inv s"
  have count: "focus_inv t \<Longrightarrow> focus_inv (count_damage w t)" for t w
    by (auto simp: count_damage_def intro!: inv_update_meta split: option.split)
  show ?thesis
    using inv by (auto simp: commit_surface_def Let_def track_mapping_def count inv_reevaluate split: option.split)
qed

lemma inv_new_toplevel: "focus_inv s \<Longrightarrow> meta_of s w = None \<Longrightarrow> focus_inv (new_toplevel env w pid fs s)"
proof -
  assume inv: "focus_inv s" and fresh: "meta_of s w = None"
  have reg: "focus_inv (t\<lparr>fc_metadata := AList.update w m (fc_metadata t)\<rparr>)"
    if "focus_inv t" "meta_of t w = None" "transient_for m = None" "flags_ok (window_flags m)" for t m
    using inv_register [OF that(1,2,4)] that(3) by (simp add: register_child_def)
  show ?thesis
    unfolding new_toplevel_def Let_def
    by (rule inv_reevaluate, rule reg) (use inv fresh in \<open>simp_all add: metadata_default_def flags_ok_bit\<close>)
qed

lemma inv_refresh_property: "focus_inv s \<Longrightarrow> flags_ok (window_flags nm) \<Longrightarrow> focus_inv (refresh_property w p nm s)"
proof -
  assume inv: "focus_inv s" and ok: "flags_ok (window_flags nm)"
  show ?thesis
  proof (cases "meta_of s w")
    case m: (Some m)
    show ?thesis
    proof (cases "p = WP_Transient_For")
      case True
      let ?f = "\<lambda>m. m\<lparr>transient_for := transient_for nm, skip_taskbar := skip_taskbar nm,
        skip_pager := skip_pager nm, maybe_a_dropdown := maybe_a_dropdown nm\<rparr>"
      have "index_ok (AList.update w (?f m) (fc_metadata s))
          (move_child w (parent_in (fc_metadata s) w) (transient_for nm) (fc_children s))"
        by (rule index_ok_move) (use inv in \<open>simp_all add: focus_inv_def parent_update\<close>)
      moreover have "parent_in (fc_metadata s) w = transient_for m"
        using m by (simp add: parent_in_def meta_of_def)
      moreover have "metas_ok (AList.update w (?f m) (fc_metadata s))"
        using inv m by (intro metas_ok_update) (auto simp: focus_inv_def metas_ok_def meta_of_def)
      ultimately show ?thesis
        using inv m True by (simp add: refresh_property_def focus_inv_def update_meta_def)
    next
      case False
      with inv m show ?thesis
        by (cases p) (simp_all add: refresh_property_def inv_update_meta)
    qed
  qed (use inv in \<open>simp add: refresh_property_def\<close>)
qed

lemma note_newer_game_simps [simp]:
  "focus_inv (note_newer_game m s) = focus_inv s" "meta_of (note_newer_game m s) w = meta_of s w"
  by (simp_all add: note_newer_game_def split: option.split)

lemma inv_map_window: "focus_inv s \<Longrightarrow> meta_of s w = None \<Longrightarrow> focus_inv (map_window_request env w x ok s)"
proof -
  assume inv: "focus_inv s" and fresh: "meta_of s w = None"
  define t where "t = emit [Configure_X11 (xs_window_id x) (output_rect env), Set_X11_Mapped (xs_window_id x) True] s"
  define u where "u = t\<lparr>fc_space := env_map_element env w (fc_space t), fc_map_counter := fc_map_counter t + 1\<rparr>"
  define m where "m = sequenced_metadata env x u"
  have u: "focus_inv u" "meta_of u w = None" using inv fresh by (simp_all add: u_def t_def)
  have "flags_ok (window_flags m)"
    using u(1) by (simp add: m_def sequenced_metadata_def Let_def flags_ok_x11 focus_inv_def)
  then have "focus_inv (register_child w (transient_for m)
      ((note_newer_game m u)\<lparr>fc_metadata := AList.update w m (fc_metadata (note_newer_game m u))\<rparr>))"
    using u by (intro inv_register) simp_all
  moreover have "focus_inv t" using inv by (simp add: t_def)
  ultimately show ?thesis
    unfolding map_window_request_def Let_def t_def [symmetric] u_def [symmetric] m_def [symmetric]
    by (simp add: inv_reevaluate)
qed

lemma inv_mapped_override:
  "focus_inv s \<Longrightarrow> meta_of s w = None \<Longrightarrow> focus_inv (mapped_override_redirect_window env w x s)"
proof -
  assume inv: "focus_inv s" and fresh: "meta_of s w = None"
  let ?t = "s\<lparr>fc_space := env_map_element env w (fc_space s)\<rparr>"
  let ?m = "x11_surface_metadata env ?t x"
  have "focus_inv (register_child w (transient_for ?m) (?t\<lparr>fc_metadata := AList.update w ?m (fc_metadata ?t)\<rparr>))"
    by (rule inv_register) (use inv fresh in \<open>simp_all add: flags_ok_x11 focus_inv_def\<close>)
  then show ?thesis
    unfolding mapped_override_redirect_window_def Let_def by (auto intro!: inv_reevaluate inv_notify)
qed

lemma inv_unmapped: "focus_inv s \<Longrightarrow> focus_inv (unmapped_window env x s)"
  unfolding unmapped_window_def Let_def
  by (simp add: inv_tray inv_unregister inv_clear_dropdowns inv_reevaluate split: option.split)

lemma inv_destroyed: "focus_inv s \<Longrightarrow> focus_inv (destroyed_window env x s)"
  by (simp add: destroyed_window_def Let_def inv_tray inv_unregister split: option.split)

lemma inv_configure_notify: "focus_inv s \<Longrightarrow> focus_inv (configure_notify env x geo s)"
  by (auto simp: configure_notify_def Let_def flags_ok_reclassify split: option.split intro!: inv_update_meta)

lemma focus_step_inv: "focus_inv s \<Longrightarrow> fresh_window ev s \<Longrightarrow> focus_inv (focus_step env ev s)"
proof (cases ev)
  case (Property_Notify x p)
  assume inv: "focus_inv s"
  then have "flags_ok (window_flags (x11_surface_metadata env s x))"
    by (simp add: flags_ok_x11 focus_inv_def)
  with inv Property_Notify show ?thesis
    by (auto simp: property_notify_def inv_reevaluate inv_refresh_property split: option.split)
qed (auto simp: inv_commit inv_new_toplevel inv_map_window inv_mapped_override inv_unmapped inv_destroyed
    inv_configure_notify toplevel_destroyed_def set_toplevel_fullscreen_def app_id_changed_def
    active_window_request_def set_x11_fullscreen_def surface_associated_def override_window_surface_def
    configure_request_def Let_def inv_unregister split: option.split intro!: inv_reevaluate inv_update_meta)

definition focus_trans :: "focus_comp \<Rightarrow> focus_comp \<Rightarrow> bool" where
  "focus_trans s t \<longleftrightarrow> (\<exists>env ev. fresh_window ev s \<and> t = focus_step env ev s)"

interpretation focus: transition_system "\<lambda>s. s = focus_init" focus_trans focus_inv
proof unfold_locales
  show "focus_inv s" if "s = focus_init" for s
    using that by (simp add: focus_inv_def focus_init_def index_ok_def metas_ok_def children_in_def parent_in_def)
qed (auto simp: focus_trans_def focus_step_inv)

section \<open>The evaluation in two stages\<close>

text \<open>The state in which the candidates are ranked, and the candidates.\<close>

definition evaluated :: "focus_env \<Rightarrow> focus_comp \<Rightarrow> focus_comp" where
  "evaluated env s = classify_special_windows (fc_space s) (refresh_metadata env (set_focus_state mark_dirty s))"

definition focus_candidates :: "focus_env \<Rightarrow> focus_comp \<Rightarrow> window list" where
  "focus_candidates env s = build_candidates (evaluated env s) (fc_space s)"

lemma evaluated_simps [simp]:
  "fc_space (evaluated env s) = fc_space s" "fc_children (evaluated env s) = fc_children s"
  "fc_override (evaluated env s) = fc_override s" "fc_focused_x11 (evaluated env s) = fc_focused_x11 s"
  "fc_focused_window (evaluated env s) = fc_focused_window s"
  "requested_focus_window (fc_focus (evaluated env s)) = requested_focus_window (fc_focus s)"
  "meta_of (evaluated env s) w = map_option (refreshed env w) (meta_of s w)"
  by (simp_all add: evaluated_def meta_of_refresh focus_state_defs)

lemma reevaluate_focus_stages:
  "reevaluate_focus env s =
     (let t = report_focusable env (focus_candidates env s) (evaluated env s)
      in if focus_candidates env s = [] then clear_focus env t
         else (let (chosen, u) = choose_window env (focus_candidates env s) t;
                   best = promote_transient_child env u chosen
               in apply_focus env best (enforce_fullscreen_geometry env best u)))"
  by (simp add: reevaluate_focus_def focus_candidates_def evaluated_def Let_def)

lemma apply_focus_fields:
  "fc_focused_window (apply_focus env b s) = Some b" "fc_focused_x11 (apply_focus env b s) = x11_id env b"
  "fc_overlay (apply_focus env b s) = fc_overlay s"
  by (simp_all add: apply_focus_def Let_def)

text \<open>The ranking reads only the metadata, and the promotion also the index.\<close>

lemma window_key_cong: "(\<And>w. meta_of t w = meta_of s w) \<Longrightarrow> window_key t = window_key s"
  by (simp add: fun_eq_iff window_key_def)

lemma promote_walk_cong:
  "(\<And>w. meta_of t w = meta_of s w) \<Longrightarrow> fc_children t = fc_children s \<Longrightarrow>
   promote_walk env t w n visited c = promote_walk env s w n visited c"
proof (induction env s w n visited c rule: promote_walk.induct)
  case (2 env s w n visited c)
  then have "child_is_dropdown t = child_is_dropdown s"
    "transient_children_of env t visited c = transient_children_of env s visited c"
    by (simp_all add: child_is_dropdown_def transient_children_of_def fun_eq_iff cong: option.case_cong)
  with 2 show ?case by (auto split: list.split option.split)
qed simp

lemma promote_cong:
  "(\<And>w. meta_of t w = meta_of s w) \<Longrightarrow> fc_children t = fc_children s \<Longrightarrow>
   promote_transient_child env t w = promote_transient_child env s w"
  unfolding promote_transient_child_def using promote_walk_cong [of t s] by (auto split: option.split)

lemma report_meta [simp]: "meta_of (report_focusable env cs s) w = meta_of s w"
  by (simp add: meta_of_def)

lemma steam_pick_cong: "(\<And>w. meta_of t w = meta_of s w) \<Longrightarrow> steam_pick env t cs = steam_pick env s cs"
proof -
  assume "\<And>w. meta_of t w = meta_of s w"
  then have metas: "meta_of t = meta_of s" and keys: "window_key t = window_key s"
    by (simp_all add: fun_eq_iff window_key_def)
  have ids: "pick_by_app_ids t = pick_by_app_ids s"
    unfolding pick_by_app_ids_def metas keys by (rule refl)
  show ?thesis unfolding steam_pick_def ids by (rule refl)
qed

section \<open>Correctness\<close>

text \<open>
  C28. When no client has asked for the focus and Steam does not direct it, the focus goes to the candidate
  with the largest priority key (and, through it, to its transient child): no candidate has a larger
  one, and of several with the same key it is the topmost window of the stack.
\<close>

theorem focus_goes_to_best_candidate:
  assumes "focus_candidates env s \<noteq> []" and "requested_focus_window (fc_focus s) = None"
    and "steam_pick env (evaluated env s) (focus_candidates env s) = None"
  shows "\<exists>below best above. focus_candidates env s = below @ best # above \<and>
    (\<forall>w \<in> set below. window_key (evaluated env s) w \<le> window_key (evaluated env s) best) \<and>
    (\<forall>w \<in> set above. window_key (evaluated env s) w < window_key (evaluated env s) best) \<and>
    fc_focused_window (reevaluate_focus env s) = Some (promote_transient_child env (evaluated env s) best)"
proof -
  let ?cs = "focus_candidates env s" and ?e = "evaluated env s"
  let ?t = "report_focusable env ?cs ?e"
  have steam: "steam_pick env ?t ?cs = None" using assms(3) steam_pick_cong [of ?t ?e] by simp
  have "choose_window env ?cs ?t = (pick_by_priority ?e ?cs, ?t)"
    using assms(2) steam by (simp add: choose_window_def pick_best_candidate_def pick_by_priority_def window_key_cong [of ?t ?e])
  then have "fc_focused_window (reevaluate_focus env s) = Some (promote_transient_child env ?t (pick_by_priority ?e ?cs))"
    using assms(1) by (simp add: reevaluate_focus_stages Let_def apply_focus_fields)
  then have "fc_focused_window (reevaluate_focus env s) = Some (promote_transient_child env ?e (pick_by_priority ?e ?cs))"
    using promote_cong [of ?t ?e] by simp
  with pick_by_priority_last_max [OF assms(1), of ?e] show ?thesis by blast
qed

text \<open>
  A request of a client to be focused is honoured at the first evaluation in which its window is a
  candidate, and only then is it forgotten.
\<close>

theorem focus_request_honoured:
  assumes "requested_focus_window (fc_focus s) = Some r" and "focus_candidates env s \<noteq> []"
  shows "case find_x11 env (focus_candidates env s) r of
      Some w \<Rightarrow> fc_focused_window (reevaluate_focus env s) = Some (promote_transient_child env (evaluated env s) w) \<and>
                requested_focus_window (fc_focus (reevaluate_focus env s)) = None
    | None \<Rightarrow> requested_focus_window (fc_focus (reevaluate_focus env s)) = Some r"
proof -
  let ?cs = "focus_candidates env s" and ?e = "evaluated env s"
  let ?t = "report_focusable env ?cs ?e"
  have req: "requested_focus_window (fc_focus ?t) = Some r" using assms(1) by simp
  have kept: "requested_focus_window (fc_focus (apply_focus env b u)) = requested_focus_window (fc_focus u)" for b u
    by (simp add: apply_focus_def take_focus_def Let_def clear_dropdowns_def focus_state_defs split: option.split)
  show ?thesis
  proof (cases "find_x11 env ?cs r")
    case (Some w)
    then have "choose_window env ?cs ?t = (w, set_focus_state clear_requested_focus ?t)"
      using req by (simp add: choose_window_def pick_best_candidate_def)
    moreover have "promote_transient_child env (set_focus_state clear_requested_focus ?t) w =
        promote_transient_child env ?e w"
      by (rule promote_cong) simp_all
    ultimately show ?thesis
      using Some assms(2) by (simp add: reevaluate_focus_stages Let_def apply_focus_fields kept clear_requested_focus_def)
  next
    case None
    then have "snd (choose_window env ?cs ?t) = ?t"
      using req by (simp add: choose_window_def pick_best_candidate_def split: option.split)
    then obtain w where "choose_window env ?cs ?t = (w, ?t)" by (metis prod.collapse)
    then show ?thesis
      using None assms(2) req by (simp add: reevaluate_focus_stages Let_def kept)
  qed
qed

text \<open>
  Where keyboard and pointer go when a window is focused: both to it, unless the Steam overlay wants
  input; then the pointer goes to the overlay, and the keyboard too except in mode 2.
\<close>

theorem focus_routing:
  "let t = apply_focus env b s;
       overlay = overlay_with_input_focus t;
       pointer = (case overlay of Some w \<Rightarrow> w | None \<Rightarrow> b);
       keyboard = (case overlay of Some w \<Rightarrow> if map_option input_focus_mode (meta_of t w) = Some 2 then b else w
                   | None \<Rightarrow> b)
   in fc_focused_window t = Some b \<and> fc_focused_x11 t = x11_id env b \<and> fc_pointer_focus t = Some pointer \<and>
      (\<exists>before. fc_effects t = before @ [Keyboard_Focus (Some keyboard)] @ input_focus_effects env keyboard @
         pointer_effects env pointer)"
proof -
  define u where "u = take_focus env b s"
  have same: "overlay_with_input_focus (apply_focus env b s) = overlay_with_input_focus u"
    "meta_of (apply_focus env b s) w = meta_of u w"
    "fc_pointer_focus (apply_focus env b s) = Some (pointer_target u b)"
    "\<exists>before. fc_effects (apply_focus env b s) = before @ [Keyboard_Focus (Some (keyboard_target u b))] @
       input_focus_effects env (keyboard_target u b) @ pointer_effects env (pointer_target u b)" for w
    unfolding apply_focus_def Let_def u_def [symmetric]
    by (simp_all add: overlay_with_input_focus_def)
  have keyboard: "keyboard_target u b =
      (case overlay_with_input_focus u of
         Some w \<Rightarrow> if map_option input_focus_mode (meta_of u w) = Some 2 then b else w | None \<Rightarrow> b)"
  proof (cases "fc_overlay u")
    case (Some w)
    then show ?thesis
      by (cases "meta_of u w") (simp_all add: keyboard_target_def overlay_with_input_focus_def)
  qed (simp add: keyboard_target_def overlay_with_input_focus_def)
  show ?thesis
    unfolding Let_def same(1,2,3) apply_focus_fields
    using same(4) unfolding keyboard pointer_target_def by (intro conjI refl)
qed

text \<open>Chains of transient windows: the step to the parent, from a window identifier.\<close>

definition parent_chain :: "metadata_map \<Rightarrow> nat \<Rightarrow> u32 \<Rightarrow> u32 option" where
  "parent_chain metas k xid = ((\<lambda>x. Option.bind x (parent_of metas)) ^^ k) (Some xid)"

lemma parent_chain_0 [simp]: "parent_chain metas 0 xid = Some xid"
  by (simp add: parent_chain_def)

lemma parent_chain_Suc: "parent_chain metas (Suc k) xid = Option.bind (parent_chain metas k xid) (parent_of metas)"
  by (simp add: parent_chain_def)

lemma parent_chain_add:
  "parent_chain metas (j + k) xid = Option.bind (parent_chain metas j xid) (parent_chain metas k)"
  by (induction k) (simp_all add: parent_chain_Suc split: Option.bind_split)

lemma transient_walk_sound:
  "transient_walk metas f n visited c \<Longrightarrow> \<exists>k. 0 < k \<and> k \<le> n \<and> parent_chain metas k c = Some f"
proof (induction n arbitrary: visited c)
  case (Suc n)
  then obtain p where p: "parent_of metas c = Some p" by (auto split: option.splits)
  then have step: "parent_chain metas (1 + k) c = parent_chain metas k p" for k
    by (simp only: parent_chain_add) (simp add: parent_chain_Suc)
  show ?case
  proof (cases "p = f")
    case True
    with p show ?thesis by (intro exI [of _ 1]) (simp add: parent_chain_Suc)
  next
    case False
    with Suc p obtain k where "k \<le> n" "parent_chain metas k p = Some f"
      by (fastforce split: if_splits)
    with step [of k] show ?thesis by (intro exI [of _ "1 + k"]) simp
  qed
qed simp

lemma transient_walk_complete:
  assumes "parent_chain metas k c = Some f" and "0 < k" and "k \<le> n"
    and "\<And>j. 0 < j \<Longrightarrow> j < k \<Longrightarrow> parent_chain metas j c \<notin> Some ` set visited"
    and "\<And>i j. 0 < i \<Longrightarrow> i < j \<Longrightarrow> j < k \<Longrightarrow> parent_chain metas i c \<noteq> parent_chain metas j c"
  shows "transient_walk metas f n visited c"
  using assms
proof (induction n arbitrary: k visited c)
  case (Suc n)
  obtain p where p: "parent_of metas c = Some p"
    using Suc.prems(1,2) parent_chain_add [of metas 1 "k - 1" c] by (cases "parent_of metas c") (auto simp: parent_chain_Suc)
  have step: "parent_chain metas (Suc k) c = parent_chain metas k p" for k
    using p parent_chain_add [of metas 1 k c] by (simp add: parent_chain_Suc)
  show ?case
  proof (cases "p = f")
    case False
    then have k: "1 < k" using Suc.prems(1,2) step [of 0] by (cases "k = 1") auto
    have "p \<notin> set visited" using Suc.prems(4) [of 1] k step [of 0] by auto
    moreover have "transient_walk metas f n (p # visited) p"
    proof (rule Suc.IH [of "k - 1"])
      show "parent_chain metas (k - 1) p = Some f" using Suc.prems(1) k step [of "k - 1"] by simp
      show "parent_chain metas j p \<notin> Some ` set (p # visited)" if "0 < j" "j < k - 1" for j
      proof -
        have "Suc j < k" using that by simp
        then show ?thesis
          using Suc.prems(4) [of "Suc j"] Suc.prems(5) [of 1 "Suc j"] that step [of j] step [of 0] by auto
      qed
      show "parent_chain metas i p \<noteq> parent_chain metas j p" if "0 < i" "i < j" "j < k - 1" for i j
        using Suc.prems(5) [of "Suc i" "Suc j"] that step by simp
    qed (use k Suc.prems(3) in auto)
    ultimately show ?thesis using p False by simp
  qed (use p in simp)
qed simp

text \<open>
  The bounded search through the parents, with its list of visited windows, decides exactly whether the
  focused window is reached from the given one in at most ten steps to the parent; a cycle among the
  windows neither traps it nor hides the answer.
\<close>

theorem transient_of_focused_iff:
  "is_transient_of_focused s xid \<longleftrightarrow>
     (\<exists>f k. fc_focused_x11 s = Some f \<and> k \<le> 10 \<and> parent_chain (fc_metadata s) k xid = Some f)"
proof (cases "fc_focused_x11 s")
  case (Some f)
  let ?md = "fc_metadata s" and ?c = "\<lambda>k. parent_chain (fc_metadata s) k xid"
  have "xid = f \<or> transient_walk ?md f 10 [xid] xid" if ex: "\<exists>k\<le>10. ?c k = Some f"
  proof (rule disjCI)
    assume "\<not> transient_walk ?md f 10 [xid] xid"
    define k where "k = (LEAST k. ?c k = Some f)"
    have k: "?c k = Some f" using ex unfolding k_def by (meson LeastI)
    have least: "?c j \<noteq> Some f" if "j < k" for j using that not_less_Least unfolding k_def by blast
    have "k \<le> 10" using ex Least_le [of "\<lambda>k. ?c k = Some f"] le_trans unfolding k_def by blast
    have distinct: "?c i \<noteq> ?c j" if "i < j" "j < k" for i j
    proof
      assume "?c i = ?c j"
      then have "?c (i + (k - j)) = ?c (j + (k - j))" by (simp only: parent_chain_add)
      with that k least [of "i + (k - j)"] show False by auto
    qed
    show "xid = f"
    proof (rule ccontr)
      assume "xid \<noteq> f"
      with k have "0 < k" by (cases k) auto
      have "transient_walk ?md f 10 [xid] xid"
      proof (rule transient_walk_complete [OF k \<open>0 < k\<close> \<open>k \<le> 10\<close>])
        show "?c j \<notin> Some ` set [xid]" if "0 < j" "j < k" for j
          using distinct [of 0 j] that by auto
      qed (use distinct in auto)
      with \<open>\<not> transient_walk ?md f 10 [xid] xid\<close> show False by simp
    qed
  qed
  moreover have "\<exists>k\<le>10. ?c k = Some f" if "xid = f \<or> transient_walk ?md f 10 [xid] xid"
    using that transient_walk_sound [of ?md f 10 "[xid]" xid] parent_chain_0 by (metis zero_le)
  ultimately show ?thesis using Some by (auto simp: is_transient_of_focused_def)
qed (simp add: is_transient_of_focused_def)

text \<open>
  C27. In every state the handlers can reach the index of transient children and the metadata agree: a window
  is listed once, under the parent its metadata name, and under no other. No window is ever classified
  as a tray icon (nothing ever enters the set of tray icons), and none as overlay and notification at once.
\<close>

theorem window_bookkeeping:
  assumes "focus_trans\<^sup>*\<^sup>* focus_init s"
  shows "(\<forall>p w. w \<in> set (children_in (fc_children s) p) \<longleftrightarrow> parent_in (fc_metadata s) w = Some p) \<and>
    (\<forall>p. distinct (children_in (fc_children s) p)) \<and>
    (\<forall>w m. meta_of s w = Some m \<longrightarrow>
       \<not> flags_contain (window_flags m) SYS_TRAY_ICON \<and>
       \<not> (flags_contain (window_flags m) OVERLAY \<and> flags_contain (window_flags m) NOTIFICATION))"
  using focus.reachable_inv [OF refl assms]
  by (auto simp: focus_inv_def index_ok_def metas_ok_def flags_ok_def meta_of_def)

text \<open>
  When the only window left to focus is the open dropdown (its game window is gone but the menu, which
  belongs to the game's process, is not), the policy focuses the dropdown and, because the focus changed,
  clears the dropdowns: the keyboard goes to a window that it has just removed from the screen and from
  the metadata.
\<close>

theorem focused_dropdown_removed:
  assumes "fc_override s = Some d" and "focus_candidates env s = [d]"
    and "promote_transient_child env (evaluated env s) d = d"
    and "x11_id env d \<noteq> fc_focused_x11 s" and "d \<notin> set (env_unmap_elem env d (fc_space s))"
  shows "let t = reevaluate_focus env s
    in fc_focused_window t = Some d \<and> d \<notin> set (fc_space t) \<and> meta_of t d = None"
proof -
  let ?t = "report_focusable env [d] (evaluated env s)"
  have pick: "pick_by_priority u [d] = d" "pick_by_app_ids u ids [d] = None \<or> pick_by_app_ids u ids [d] = Some d" for u ids
    by (simp add: pick_by_priority_def, cases "meta_of u d") (simp_all add: pick_by_app_ids_def Let_def del: split_paired_Ex)
  have found: "w = d" if "find_x11 env [d] r = Some w" for r w
    using that by (simp add: find_x11_def split: if_splits)
  have app: "w = d" if "pick_by_app_ids u ids [d] = Some w" for u ids w
    using that pick(2) [of u ids] by auto
  have "w = d" if "steam_pick env u [d] = Some w" for u w
    using that by (auto simp: steam_pick_def bind_eq_Some_conv split: option.splits if_splits dest: found app)
  then have "fst (choose_window env [d] ?t) = d"
    by (auto simp: choose_window_def pick_best_candidate_def pick(1) bind_eq_Some_conv split: option.splits dest: found)
  then obtain u where choose: "choose_window env [d] ?t = (d, u)" by (metis prod.collapse)
  note u = choose_window_fields [OF this]
  have "promote_transient_child env u d = d"
    using promote_cong [of u "evaluated env s" env d] u assms(3) by auto
  with choose have "reevaluate_focus env s = apply_focus env d (enforce_fullscreen_geometry env d u)"
    using assms(2) by (simp add: reevaluate_focus_stages Let_def)
  moreover have "focus_changed env d (enforce_fullscreen_geometry env d u)"
    using u assms(4) by (auto simp: focus_changed_def)
  moreover have "fc_override u = Some d" "fc_space u = fc_space s" using u assms(1) by auto
  ultimately show ?thesis
    using assms(5) by (simp add: Let_def apply_focus_def take_focus_def clear_dropdowns_def)
qed

section \<open>Concrete runs\<close>

text \<open>A game window 1 and its menu 2 on an X server that knows the process of both.\<close>

definition game_surface :: x11_surface where
  "game_surface = \<lparr>xs_window_id = 10, xs_geometry = \<lparr>loc_x = 0, loc_y = 0, size_w = 1920, size_h = 1080\<rparr>,
     xs_override_redirect = False, xs_transient_for = None, xs_window_type = Some WT_Normal,
     xs_input_hint = Some True, xs_is_fullscreen = True\<rparr>"

definition menu_surface :: x11_surface where
  "menu_surface = \<lparr>xs_window_id = 11, xs_geometry = \<lparr>loc_x = 50, loc_y = 50, size_w = 200, size_h = 300\<rparr>,
     xs_override_redirect = True, xs_transient_for = Some 10, xs_window_type = Some WT_Popup_Menu,
     xs_input_hint = None, xs_is_fullscreen = False\<rparr>"

definition demo_x11 :: x11_focus where
  "demo_x11 = \<lparr>xf_usable = True, xf_root = 1, xf_atom = (\<lambda>a. if a = Net_Wm_Pid then 7 else 0),
     xf_get = (\<lambda>w a n ty. if a = 7 then Some \<lparr>xp_format = 32, xp_items = [4242]\<rparr> else None),
     xf_res_pid = (\<lambda>_. None)\<rparr>"

definition demo_env :: focus_env where
  "demo_env = \<lparr>env_width = 1920, env_height = 1080,
     env_x11 = (\<lambda>w. if w = 1 then Some game_surface else if w = 2 then Some menu_surface else None),
     env_surface = Some, env_alive = (\<lambda>_. True), env_x11_focus = Some demo_x11, env_app_id = (\<lambda>_. 570),
     env_map_element = (\<lambda>w ws. filter (\<lambda>v. v \<noteq> w) ws @ [w]),
     env_unmap_elem = (\<lambda>w ws. filter (\<lambda>v. v \<noteq> w) ws)\<rparr>"

definition with_game :: focus_comp where
  "with_game = focus_step demo_env (Map_Window_Request 1 game_surface True) focus_init"

definition with_menu :: focus_comp where
  "with_menu = focus_step demo_env (Mapped_Override_Redirect 2 menu_surface) with_game"

lemma menu_is_dropdown: "fc_override with_menu = Some 2"
  by code_simp

lemma menu_survives_game:
  "let t = focus_step demo_env (Unmapped_Window game_surface) with_menu
   in fc_focused_window t = Some 2 \<and> 2 \<notin> set (fc_space t) \<and> meta_of t 2 = None"
  by code_simp

text \<open>The state in which the handler of the unmapped game window evaluates the focus.\<close>

definition game_gone :: focus_comp where
  "game_gone = (unregister_window 1 with_menu)\<lparr>fc_space := [2], fc_focused_x11 := None\<rparr>"

lemma focused_dropdown_removed_witness:
  "let t = reevaluate_focus demo_env game_gone
   in fc_focused_window t = Some 2 \<and> 2 \<notin> set (fc_space t) \<and> meta_of t 2 = None"
proof (rule focused_dropdown_removed)
  show "fc_override game_gone = Some 2" by code_simp
  show "focus_candidates demo_env game_gone = [2]" by code_simp
  show "promote_transient_child demo_env (evaluated demo_env game_gone) 2 = 2" by code_simp
  show "x11_id demo_env 2 \<noteq> fc_focused_x11 game_gone" by code_simp
  show "2 \<notin> set (env_unmap_elem demo_env 2 (fc_space game_gone))" by code_simp
qed

lemma focus_goes_to_best_candidate_witness:
  "\<exists>below best above. focus_candidates demo_env with_menu = below @ best # above \<and>
    (\<forall>w \<in> set below. window_key (evaluated demo_env with_menu) w \<le> window_key (evaluated demo_env with_menu) best) \<and>
    (\<forall>w \<in> set above. window_key (evaluated demo_env with_menu) w < window_key (evaluated demo_env with_menu) best) \<and>
    fc_focused_window (reevaluate_focus demo_env with_menu) =
      Some (promote_transient_child demo_env (evaluated demo_env with_menu) best)"
proof (rule focus_goes_to_best_candidate)
  show "focus_candidates demo_env with_menu \<noteq> []" by code_simp
  show "requested_focus_window (fc_focus with_menu) = None" by code_simp
  show "steam_pick demo_env (evaluated demo_env with_menu) (focus_candidates demo_env with_menu) = None" by code_simp
qed

definition with_request :: focus_comp where
  "with_request = set_focus_state (set_requested_focus 11) with_menu"

lemma focus_request_honoured_witness:
  "case find_x11 demo_env (focus_candidates demo_env with_request) 11 of
      Some w \<Rightarrow> fc_focused_window (reevaluate_focus demo_env with_request) =
                  Some (promote_transient_child demo_env (evaluated demo_env with_request) w) \<and>
                requested_focus_window (fc_focus (reevaluate_focus demo_env with_request)) = None
    | None \<Rightarrow> requested_focus_window (fc_focus (reevaluate_focus demo_env with_request)) = Some 11"
proof (rule focus_request_honoured)
  show "requested_focus_window (fc_focus with_request) = Some 11" by code_simp
  show "focus_candidates demo_env with_request \<noteq> []" by code_simp
qed

lemma window_bookkeeping_witness:
  "(\<forall>p w. w \<in> set (children_in (fc_children with_game) p) \<longleftrightarrow> parent_in (fc_metadata with_game) w = Some p) \<and>
    (\<forall>p. distinct (children_in (fc_children with_game) p)) \<and>
    (case meta_of with_game 1 of
       Some m \<Rightarrow> \<not> flags_contain (window_flags m) SYS_TRAY_ICON \<and>
         \<not> (flags_contain (window_flags m) OVERLAY \<and> flags_contain (window_flags m) NOTIFICATION)
     | None \<Rightarrow> False)"
proof -
  have "fresh_window (Map_Window_Request 1 game_surface True) focus_init"
    by (simp add: meta_of_def focus_init_def)
  then have "focus_trans focus_init with_game"
    unfolding focus_trans_def with_game_def by blast
  then have "focus_trans\<^sup>*\<^sup>* focus_init with_game" by blast
  moreover have "meta_of with_game 1 \<noteq> None" by code_simp
  ultimately show ?thesis using window_bookkeeping [of with_game] by auto
qed

end
