(* ===== verification/App_Id.thy ===== *)
theory App_Id
  imports Text
begin

text \<open>
  Finding the Steam app of a window (\<open>session/compositor/handlers.rs\<close>): the scan of a command line,
  the cache of results keyed by process and start time, and the walk up the process tree. What the
  files of \<open>/proc\<close> hold and what the clock shows while the walk looks at its \<open>i\<close>-th process is the
  environment \<open>proc i\<close>, so the process tree may change during a walk; a file that cannot be read (or,
  for \<open>stat\<close>, is not UTF-8) is \<open>None\<close>. Command lines are bytes, written as characters.
\<close>

section \<open>Command lines\<close>

definition ascii_white :: "char \<Rightarrow> bool" where
  "ascii_white c \<longleftrightarrow> (of_char c :: nat) \<in> {9, 10, 12, 13, 32}"

definition trim_ascii :: "string \<Rightarrow> string" where
  "trim_ascii s = rev (dropWhile ascii_white (rev (dropWhile ascii_white s)))"

text \<open>
  \<open>from_utf8\<close> and then the parser: a number that parses is made of digits and a sign, so bytes that
  are not UTF-8 fail in both.
\<close>

definition parse_id :: "string \<Rightarrow> nat option" where
  "parse_id s =
     (case parse_unsigned (2 ^ 32) (trim_ascii s) of
        Some n \<Rightarrow> if n \<noteq> 0 then Some n else None | None \<Rightarrow> None)"

definition NUL :: char where "NUL = CHR 0x00"

definition appids_of :: "string \<Rightarrow> nat option" where
  "appids_of part =
     Option.bind (strip_prefix ''--appids='' part) (\<lambda>ids.
       case List.map_filter parse_id (split_on CHR '','' ids) of [] \<Rightarrow> None | n # _ \<Rightarrow> Some n)"

definition app_id_arg :: "string \<Rightarrow> nat option" where
  "app_id_arg part = Option.bind (strip_prefix ''AppId='' part) parse_id"

text \<open>The loop over the arguments: whether \<open>SteamLaunch\<close> was seen, and the app found so far.\<close>

fun scan_parts :: "bool \<Rightarrow> nat \<Rightarrow> string list \<Rightarrow> nat" where
  "scan_parts launch app [] = app"
| "scan_parts launch app (part # parts) =
     (case appids_of part of
        Some n \<Rightarrow> n
      | None \<Rightarrow>
          if strip_prefix ''--appids='' part \<noteq> None \<and> app \<noteq> 0 then app
          else
            (let launch' = (launch \<or> part = ''SteamLaunch'')
             in case app_id_arg part of
                  Some n \<Rightarrow> if part \<noteq> ''SteamLaunch'' \<and> launch then n
                            else scan_parts launch' (if app = 0 then n else app) parts
                | None \<Rightarrow> scan_parts launch' app parts))"

definition scan_cmdline_for_app_id :: "string \<Rightarrow> nat" where
  "scan_cmdline_for_app_id cmdline = scan_parts False 0 (split_on NUL cmdline)"

section \<open>The process files\<close>

record proc_env =
  stat_file :: "nat \<Rightarrow> string option"
  cmdline_file :: "nat \<Rightarrow> string option"
  clock :: nat

definition find_char :: "char \<Rightarrow> string \<Rightarrow> nat option" where
  "find_char c s = (if c \<in> set s then Some (length (takeWhile (\<lambda>d. d \<noteq> c) s)) else None)"

definition rfind_char :: "char \<Rightarrow> string \<Rightarrow> nat option" where
  "rfind_char c s = map_option (\<lambda>i. length s - 1 - i) (find_char c (rev s))"

text \<open>\<open>split_whitespace\<close>, with the word being read, reversed.\<close>

function split_words :: "string \<Rightarrow> string \<Rightarrow> string list" where
  "split_words word s =
     (case s of
        [] \<Rightarrow> if word = [] then [] else [rev word]
      | c # cs \<Rightarrow>
          (case find (\<lambda>w. w \<noteq> [] \<and> prefix w s) white_space of
             Some w \<Rightarrow> (if word = [] then [] else [rev word]) @ split_words [] (drop (length w) s)
           | None \<Rightarrow> split_words (c # word) cs))"
  by pat_completeness auto
termination
  by (relation "measure (\<lambda>(word, s). length s)") (auto simp: find_Some_iff)

declare split_words.simps [simp del]

definition split_whitespace :: "string \<Rightarrow> string list" where
  "split_whitespace s = split_words [] s"

text \<open>
  \<open>&s[i..]\<close> panics past the end. (It also panics inside a character; the kernel writes a space after
  the closing parenthesis, and the model takes the byte there to begin a character.)
\<close>

definition suffix_from :: "nat \<Rightarrow> string \<Rightarrow> string res" where
  "suffix_from i s = rbind (guard (i \<le> length s) Panic) (\<lambda>_. Inr (drop i s))"

definition get_pid_starttime :: "proc_env \<Rightarrow> nat \<Rightarrow> nat option res" where
  "get_pid_starttime e pid =
     (case Option.bind (stat_file e pid) (\<lambda>s. map_option (Pair s) (rfind_char CHR '')'' s)) of
        None \<Rightarrow> Inr None
      | Some (s, name_end) \<Rightarrow>
          rbind (suffix_from (name_end + 2) s) (\<lambda>rest.
            let fields = split_whitespace rest
            in Inr (if 19 < length fields then parse_unsigned (2 ^ 64) (fields ! 19) else None)))"

section \<open>The cache\<close>

type_synonym app_id_cache = "nat \<times> nat \<Rightarrow> (nat \<times> nat) option"

definition APPID_CACHE_TTL_SECS :: nat where "APPID_CACHE_TTL_SECS = 5"

text \<open>The clock counts nanoseconds.\<close>

definition cache_get :: "proc_env \<Rightarrow> nat \<Rightarrow> app_id_cache \<Rightarrow> (nat option \<times> app_id_cache) res" where
  "cache_get e pid cache =
     rbind (get_pid_starttime e pid) (\<lambda>start.
       case start of None \<Rightarrow> Inr (None, cache)
       | Some st \<Rightarrow>
           (case cache (pid, st) of
              None \<Rightarrow> Inr (None, cache)
            | Some (app, time) \<Rightarrow>
                if (clock e - time) div 10 ^ 9 < APPID_CACHE_TTL_SECS then Inr (Some app, cache)
                else Inr (None, cache((pid, st) := None))))"

definition cache_set :: "proc_env \<Rightarrow> nat \<Rightarrow> nat \<Rightarrow> app_id_cache \<Rightarrow> app_id_cache res" where
  "cache_set e pid app cache =
     rbind (get_pid_starttime e pid) (\<lambda>start.
       case start of None \<Rightarrow> Inr cache | Some st \<Rightarrow> Inr (cache((pid, st) \<mapsto> (app, clock e))))"

section \<open>The walk\<close>

text \<open>What the walk reads of a process: its name and its parent; \<open>None\<close> where it gives up.\<close>

definition read_process :: "proc_env \<Rightarrow> nat \<Rightarrow> (string \<times> nat) option res" where
  "read_process e pid =
     (case stat_file e pid of
        None \<Rightarrow> Inr None
      | Some s \<Rightarrow>
          (case (find_char CHR ''('' s, rfind_char CHR '')'' s) of
             (Some name_open, Some name_end) \<Rightarrow>
               rbind (guard (name_open + 1 \<le> name_end) Panic) (\<lambda>_.
                 let name = slice (name_open + 1) name_end s;
                     parts = split_whitespace (drop (name_end + 1) s)
                 in if length parts < 2 then Inr None
                    else (case parse_unsigned (2 ^ 32) (parts ! 1) of
                            None \<Rightarrow> Inr None | Some parent \<Rightarrow> Inr (Some (name, parent))))
           | _ \<Rightarrow> Inr None))"

definition scan_process :: "proc_env \<Rightarrow> nat \<Rightarrow> nat" where
  "scan_process e pid = (case cmdline_file e pid of Some c \<Rightarrow> scan_cmdline_for_app_id c | None \<Rightarrow> 0)"

datatype walk = Found nat | Stop | Continue nat

definition walk_step :: "proc_env \<Rightarrow> nat \<Rightarrow> app_id_cache \<Rightarrow> (walk \<times> app_id_cache) res" where
  "walk_step e pid cache =
     rbind (read_process e pid) (\<lambda>process.
       case process of None \<Rightarrow> Inr (Stop, cache)
       | Some (name, parent) \<Rightarrow>
           rbind (cache_get e pid cache) (\<lambda>(cached, cache).
             case cached of
               Some app \<Rightarrow>
                 Inr (if app \<noteq> 0 then Found app else if name = ''reaper'' then Stop else Continue parent, cache)
             | None \<Rightarrow>
                 let app = scan_process e pid
                 in if name = ''reaper'' then
                      rbind (cache_set e pid app cache) (\<lambda>cache.
                        Inr (if app \<noteq> 0 then Found app else Stop, cache))
                    else if parent = 0 \<or> parent = 2 ^ 32 - 1 \<or> pid = 1 then Inr (Stop, cache)
                    else rbind (cache_set e pid app cache) (\<lambda>cache.
                           Inr (if app \<noteq> 0 then Found app else Continue parent, cache))))"

partial_function (option) get_appid_loop ::
  "(nat \<Rightarrow> proc_env) \<Rightarrow> nat \<Rightarrow> nat \<Rightarrow> app_id_cache \<Rightarrow> (nat \<times> app_id_cache) res option" where
  "get_appid_loop proc i pid cache =
     (case walk_step (proc i) pid cache of
        Inl e \<Rightarrow> Some (Inl e)
      | Inr (Found app, cache) \<Rightarrow> Some (Inr (app, cache))
      | Inr (Stop, cache) \<Rightarrow> Some (Inr (0, cache))
      | Inr (Continue parent, cache) \<Rightarrow> get_appid_loop proc (i + 1) parent cache)"

definition get_appid_from_pid :: "(nat \<Rightarrow> proc_env) \<Rightarrow> nat \<Rightarrow> app_id_cache \<Rightarrow> (nat \<times> app_id_cache) res option" where
  "get_appid_from_pid proc pid cache = get_appid_loop proc 0 pid cache"

section \<open>The walk without the cache\<close>

text \<open>The file of a process as the kernel writes it: number, name in parentheses, numbers.\<close>

definition stat_format :: "proc_env \<Rightarrow> bool" where
  "stat_format e \<longleftrightarrow>
     (\<forall>pid s. stat_file e pid = Some s \<longrightarrow>
        (\<exists>before name after. s = before @ ''('' @ name @ '') '' @ after \<and>
           CHR ''('' \<notin> set before \<and> CHR '')'' \<notin> set after))"

lemma find_char_append: "c \<notin> set xs \<Longrightarrow> find_char c (xs @ c # ys) = Some (length xs)"
  by (induction xs) (auto simp: find_char_def split: if_splits)

lemma rfind_char_append: "c \<notin> set ys \<Longrightarrow> rfind_char c (xs @ c # ys) = Some (length xs)"
  using find_char_append [of c "rev ys" "rev xs"] by (simp add: rfind_char_def)

lemma stat_format_positions:
  assumes "stat_format e" and "stat_file e pid = Some s"
  shows "\<exists>i j. find_char CHR ''('' s = Some i \<and> rfind_char CHR '')'' s = Some j \<and> i + 1 \<le> j \<and> j + 2 \<le> length s"
proof -
  obtain before name after where s: "s = before @ ''('' @ name @ '') '' @ after"
    and "CHR ''('' \<notin> set before" and "CHR '')'' \<notin> set after"
    using assms unfolding stat_format_def by blast
  then have "find_char CHR ''('' s = Some (length before)"
    "rfind_char CHR '')'' s = Some (length (before @ ''('' @ name))"
    using find_char_append [of "CHR ''(''" before "name @ '') '' @ after"]
      rfind_char_append [of "CHR '')''" "'' '' @ after" "before @ ''('' @ name"] by simp_all
  then show ?thesis by (simp add: s)
qed

lemma read_process_total: "stat_format e \<Longrightarrow> \<exists>p. read_process e pid = Inr p"
proof (cases "stat_file e pid")
  case (Some s)
  assume "stat_format e"
  from stat_format_positions [OF this Some] Some show ?thesis
    by (auto simp: read_process_def Let_def split: option.split)
qed (simp add: read_process_def)

lemma starttime_total: "stat_format e \<Longrightarrow> \<exists>t. get_pid_starttime e pid = Inr t"
proof (cases "stat_file e pid")
  case (Some s)
  assume "stat_format e"
  from stat_format_positions [OF this Some] Some show ?thesis
    by (auto simp: get_pid_starttime_def suffix_from_def Let_def)
qed (simp add: get_pid_starttime_def)

text \<open>
  A process whose result may be cached: a reaper, or a process below the root. The specification looks
  at the processes from the given one upwards, scans each, and stops at a reaper or at the root.
\<close>

definition scanned :: "nat \<Rightarrow> string \<Rightarrow> nat \<Rightarrow> bool" where
  "scanned pid name parent \<longleftrightarrow> name = ''reaper'' \<or> \<not> (parent = 0 \<or> parent = 2 ^ 32 - 1 \<or> pid = 1)"

fun nearest_app :: "proc_env \<Rightarrow> nat \<Rightarrow> nat \<Rightarrow> nat" where
  "nearest_app e 0 pid = 0"
| "nearest_app e (Suc n) pid =
     (case read_process e pid of
        Inr (Some (name, parent)) \<Rightarrow>
          if scanned pid name parent then
            (if scan_process e pid \<noteq> 0 then scan_process e pid
             else if name = ''reaper'' then 0 else nearest_app e n parent)
          else 0
      | _ \<Rightarrow> 0)"

definition cacheable :: "proc_env \<Rightarrow> nat \<Rightarrow> bool" where
  "cacheable e pid \<longleftrightarrow>
     (\<exists>name parent. read_process e pid = Inr (Some (name, parent)) \<and> scanned pid name parent)"

text \<open>The entries that concern living processes hold what a scan gives now.\<close>

definition coherent :: "proc_env \<Rightarrow> app_id_cache \<Rightarrow> bool" where
  "coherent e cache \<longleftrightarrow>
     (\<forall>pid st app t. cache (pid, st) = Some (app, t) \<and> get_pid_starttime e pid = Inr (Some st) \<longrightarrow>
        app = scan_process e pid \<and> cacheable e pid)"

lemma coherent_empty: "coherent e (\<lambda>_. None)"
  by (simp add: coherent_def)

lemma cache_get_coherent:
  assumes "stat_format e" and "coherent e cache"
  shows "\<exists>cached cache'. cache_get e pid cache = Inr (cached, cache') \<and> coherent e cache' \<and>
    (\<forall>app. cached = Some app \<longrightarrow> app = scan_process e pid \<and> cacheable e pid)"
proof -
  obtain start where start: "get_pid_starttime e pid = Inr start" using starttime_total [OF assms(1)] by blast
  show ?thesis
  proof (cases start)
    case (Some st)
    show ?thesis
    proof (cases "cache (pid, st)")
      case entry: (Some v)
      obtain app t where v: "v = (app, t)" by force
      have ok: "app = scan_process e pid" "cacheable e pid"
        using assms(2) start Some entry v unfolding coherent_def by blast+
      have "coherent e (cache((pid, st) := None))" using assms(2) by (auto simp: coherent_def)
      with ok start Some entry v assms(2) show ?thesis by (simp add: cache_get_def)
    qed (use start Some assms(2) in \<open>simp add: cache_get_def\<close>)
  qed (use start assms(2) in \<open>simp add: cache_get_def\<close>)
qed

lemma cache_set_coherent:
  assumes "stat_format e" and "coherent e cache"
    and "read_process e pid = Inr (Some (name, parent))" and "scanned pid name parent"
  shows "\<exists>cache'. cache_set e pid (scan_process e pid) cache = Inr cache' \<and> coherent e cache'"
proof -
  obtain start where start: "get_pid_starttime e pid = Inr start" using starttime_total [OF assms(1)] by blast
  have "cacheable e pid" using assms(3,4) by (auto simp: cacheable_def)
  show ?thesis
  proof (cases start)
    case (Some st)
    have "coherent e (cache((pid, st) \<mapsto> (scan_process e pid, clock e)))"
      using assms(2) \<open>cacheable e pid\<close> by (auto simp: coherent_def)
    with start Some show ?thesis by (simp add: cache_set_def)
  qed (use start assms(2) in \<open>simp add: cache_set_def\<close>)
qed

text \<open>One step with a coherent cache does what the specification does.\<close>

lemma walk_step_spec:
  assumes "stat_format e" and "coherent e cache"
  shows "\<exists>cache'. coherent e cache' \<and>
    walk_step e pid cache = Inr (
      (case read_process e pid of
         Inr (Some (name, parent)) \<Rightarrow>
           if scanned pid name parent then
             (if scan_process e pid \<noteq> 0 then Found (scan_process e pid)
              else if name = ''reaper'' then Stop else Continue parent)
           else Stop
       | _ \<Rightarrow> Stop), cache')"
proof -
  obtain process where process: "read_process e pid = Inr process"
    using read_process_total [OF assms(1)] by blast
  show ?thesis
  proof (cases process)
    case (Some np)
    obtain name parent where np: "np = (name, parent)" by force
    obtain cached c1 where get: "cache_get e pid cache = Inr (cached, c1)" and c1: "coherent e c1"
      and hit: "\<And>app. cached = Some app \<Longrightarrow> app = scan_process e pid \<and> scanned pid name parent"
      using cache_get_coherent [OF assms, of pid] process Some np unfolding cacheable_def by fastforce
    show ?thesis
    proof (cases cached)
      case (Some app)
      with hit have "app = scan_process e pid" "scanned pid name parent" by auto
      with Some get c1 process \<open>process = Some np\<close> np show ?thesis
        by (simp add: walk_step_def)
    next
      case None
      show ?thesis
      proof (cases "scanned pid name parent")
        case True
        obtain c2 where "cache_set e pid (scan_process e pid) c1 = Inr c2" "coherent e c2"
          using cache_set_coherent [OF assms(1) c1 _ True] process Some np by auto
        with True None get process Some np show ?thesis
          by (auto simp: walk_step_def Let_def scanned_def)
      next
        case False
        with None get c1 process Some np show ?thesis
          by (auto simp: walk_step_def Let_def scanned_def)
      qed
    qed
  qed (use process assms(2) in \<open>simp add: walk_step_def\<close>)
qed

text \<open>A bound on the number of ancestors: every parent that the walk goes to has a smaller one.\<close>

definition height_of :: "proc_env \<Rightarrow> (nat \<Rightarrow> nat) \<Rightarrow> bool" where
  "height_of e height \<longleftrightarrow>
     (\<forall>pid name parent. read_process e pid = Inr (Some (name, parent)) \<and> scanned pid name parent \<and>
        name \<noteq> ''reaper'' \<longrightarrow> height parent < height pid)"

lemma get_appid_loop_spec:
  assumes "stat_format e" and "height_of e height"
  shows "height pid < n \<Longrightarrow> coherent e cache \<Longrightarrow>
    \<exists>cache'. get_appid_loop (\<lambda>_. e) i pid cache = Some (Inr (nearest_app e n pid, cache')) \<and> coherent e cache'"
proof (induction n arbitrary: i pid cache)
  case (Suc n)
  obtain process where process: "read_process e pid = Inr process"
    using read_process_total [OF assms(1)] by blast
  obtain c1 where c1: "coherent e c1" and step: "walk_step e pid cache = Inr (
      (case read_process e pid of
         Inr (Some (name, parent)) \<Rightarrow>
           if scanned pid name parent then
             (if scan_process e pid \<noteq> 0 then Found (scan_process e pid)
              else if name = ''reaper'' then Stop else Continue parent)
           else Stop
       | _ \<Rightarrow> Stop), c1)"
    using walk_step_spec [OF assms(1) Suc.prems(2)] by blast
  show ?case
  proof (cases process)
    case None
    with process step c1 show ?thesis by (subst get_appid_loop.simps) simp
  next
    case (Some np)
    obtain name parent where np: "np = (name, parent)" by force
    show ?thesis
    proof (cases "scanned pid name parent \<and> scan_process e pid = 0 \<and> name \<noteq> ''reaper''")
      case True
      with process Some np assms(2) have "height parent < height pid"
        unfolding height_of_def by blast
      then have "height parent < n" using Suc.prems(1) by simp
      from Suc.IH [OF this c1, of "i + 1"] True process Some np step show ?thesis
        by (subst get_appid_loop.simps) simp
    next
      case False
      with process Some np step c1 show ?thesis
        by (subst get_appid_loop.simps) auto
    qed
  qed
qed simp

section \<open>Words of a line\<close>

definition plain :: "char \<Rightarrow> bool" where
  "plain c \<longleftrightarrow> 32 < (of_char c :: nat) \<and> (of_char c :: nat) < 128"

lemma white_space_heads:
  "w \<in> set white_space \<Longrightarrow> prefix w (c # cs) \<Longrightarrow> (of_char c :: nat) \<in> {9, 10, 11, 12, 13, 32, 0xC2, 0xE1, 0xE2, 0xE3}"
  unfolding white_space_def by (auto simp: prefix_Cons)

lemma split_words_Nil [simp]: "split_words word [] = (if word = [] then [] else [rev word])"
  by (simp add: split_words.simps)

lemma split_words_plain [simp]: "plain c \<Longrightarrow> split_words word (c # cs) = split_words (c # word) cs"
proof -
  assume c: "plain c"
  have "find (\<lambda>w. w \<noteq> [] \<and> prefix w (c # cs)) white_space = None"
    unfolding find_None_iff using white_space_heads [of _ c cs] c by (auto simp: plain_def)
  then show ?thesis by (subst split_words.simps) simp
qed

lemma split_words_space [simp]:
  "split_words word (CHR '' '' # cs) = (if word = [] then [] else [rev word]) @ split_words [] cs"
proof -
  have space: "'' '' = [char_of (32 :: nat)]" by code_simp
  have other: "char_of (9 :: nat) \<noteq> CHR '' ''" "char_of (10 :: nat) \<noteq> CHR '' ''" "char_of (11 :: nat) \<noteq> CHR '' ''"
    "char_of (12 :: nat) \<noteq> CHR '' ''" "char_of (13 :: nat) \<noteq> CHR '' ''"
    by code_simp+
  have "find (\<lambda>w. w \<noteq> [] \<and> prefix w (CHR '' '' # cs)) white_space = Some '' ''"
    unfolding white_space_def list.map append_Cons find.simps space [symmetric] using other by simp
  then show ?thesis by (subst split_words.simps) simp
qed

section \<open>Correctness\<close>

text \<open>
  C36. On a process tree without cycles (in which process 1 may be its own parent) the walk ends, and with a
  cache that tells the truth about the living processes its answer is the one a walk without a cache
  gives: the app on the command line of the nearest ancestor that names one, up to the first reaper or
  the root. The cache stays truthful for the next walk.
\<close>

theorem get_appid_walk:
  assumes "stat_format e" and "height_of e height" and "coherent e cache"
  shows "\<exists>cache'. get_appid_from_pid (\<lambda>_. e) pid cache = Some (Inr (nearest_app e (Suc (height pid)) pid, cache')) \<and>
    coherent e cache'"
  using get_appid_loop_spec [OF assms(1,2) lessI assms(3), where pid = pid and i = 0]
  by (simp add: get_appid_from_pid_def del: nearest_app.simps)

text \<open>A game started by Steam's reaper, with an empty cache.\<close>

definition game_tree :: proc_env where
  "game_tree = \<lparr>
     stat_file = (\<lambda>p. if p = 30 then Some ''30 (game.exe) S 20 30'' else if p = 20 then Some ''20 (reaper) S 1 20'' else None),
     cmdline_file = (\<lambda>p. if p = 30 then Some ''game.exe'' else if p = 20
       then Some (''reaper'' @ [NUL] @ ''SteamLaunch'' @ [NUL] @ ''AppId=570'' @ [NUL]) else None),
     clock = 0\<rparr>"

lemma get_appid_walk_witness:
  "\<exists>cache'. get_appid_from_pid (\<lambda>_. game_tree) 30 (\<lambda>_. None) = Some (Inr (570, cache')) \<and> coherent game_tree cache'"
proof -
  have format: "stat_format game_tree"
    unfolding stat_format_def
  proof (intro allI impI)
    fix p s
    assume "stat_file game_tree p = Some s"
    then consider "s = ''30 '' @ ''('' @ ''game.exe'' @ '') '' @ ''S 20 30''"
      | "s = ''20 '' @ ''('' @ ''reaper'' @ '') '' @ ''S 1 20''"
      by (auto simp: game_tree_def split: if_splits)
    then show "\<exists>before name after. s = before @ ''('' @ name @ '') '' @ after \<and>
        CHR ''('' \<notin> set before \<and> CHR '')'' \<notin> set after"
    proof cases
      case 1
      then show ?thesis
        by (intro exI [of _ "''30 ''"] exI [of _ "''game.exe''"] exI [of _ "''S 20 30''"]) simp
    next
      case 2
      then show ?thesis
        by (intro exI [of _ "''20 ''"] exI [of _ "''reaper''"] exI [of _ "''S 1 20''"]) simp
    qed
  qed
  have tree: "read_process game_tree 30 = Inr (Some (''game.exe'', 20))"
    "read_process game_tree 20 = Inr (Some (''reaper'', 1))"
    by (simp_all add: read_process_def game_tree_def find_char_def rfind_char_def slice_def split_whitespace_def
        plain_def parse_unsigned_def digits_value_def digit_step_def digit_value_def)
  have other: "read_process game_tree p = Inr None" if "p \<noteq> 20" "p \<noteq> 30" for p
    using that by (simp add: read_process_def game_tree_def)
  have "height_of game_tree (\<lambda>p. if p = 30 then 1 else 0)"
    unfolding height_of_def
  proof (intro allI impI)
    fix p name parent
    assume a: "read_process game_tree p = Inr (Some (name, parent)) \<and> scanned p name parent \<and> name \<noteq> ''reaper''"
    then have "p = 30" using tree other by (cases "p = 20"; cases "p = 30") auto
    with a tree show "(if parent = 30 then 1 else 0 :: nat) < (if p = 30 then 1 else 0)" by simp
  qed
  from get_appid_walk [OF format this coherent_empty, of 30]
  have "\<exists>cache'. get_appid_from_pid (\<lambda>_. game_tree) 30 (\<lambda>_. None) =
      Some (Inr (nearest_app game_tree (Suc (Suc 0)) 30, cache')) \<and> coherent game_tree cache'"
    by (simp del: nearest_app.simps)
  moreover have "scan_process game_tree 30 = 0" "scan_process game_tree 20 = 570"
    by (simp_all add: scan_process_def game_tree_def scan_cmdline_for_app_id_def NUL_def appids_of_def app_id_arg_def
        strip_prefix_def parse_id_def trim_ascii_def ascii_white_def parse_unsigned_def digits_value_def digit_step_def
        digit_value_def List.map_filter_simps)
  then have "nearest_app game_tree (Suc (Suc 0)) 30 = 570"
    by (simp add: tree scanned_def)
  ultimately show ?thesis by (simp del: nearest_app.simps)
qed

end
