(* ===== verification/Paths.thy ===== *)
theory Paths
  imports Text
begin

text \<open>
  The parts of Rust's \<open>std::path\<close>, \<open>std::fs\<close> and \<open>str\<close> the application scanners use. Paths and strings are
  UTF-8 byte strings; a character is the byte string of its encoding, so that operations on characters never
  split one. The file system, the environment variables and the shell expansion of the crate \<open>shellexpand\<close>
  are one record of functions: a scan reads the state of the system it finds.
\<close>

section \<open>Strings\<close>

definition NEWLINE :: char where "NEWLINE = CHR 0x0A"
definition RETURN :: char where "RETURN = CHR 0x0D"
definition TAB :: char where "TAB = CHR 0x09"

definition utf8_width :: "char \<Rightarrow> nat" where
  "utf8_width b = (let v = of_char b :: nat in
     if v < 0x80 then 1 else if v < 0xE0 then 2 else if v < 0xF0 then 3 else 4)"

text \<open>\<open>str::chars\<close>, \<open>char::is_whitespace\<close>.\<close>

function utf8_chars :: "string \<Rightarrow> string list" where
  "utf8_chars [] = []"
| "utf8_chars (c # cs) = take (utf8_width c) (c # cs) # utf8_chars (drop (utf8_width c) (c # cs))"
  by pat_completeness auto
termination
  by (relation "measure length") (auto simp: utf8_width_def Let_def)

declare utf8_chars.simps(2) [simp del]

definition is_whitespace :: "string \<Rightarrow> bool" where
  "is_whitespace c \<longleftrightarrow> c \<in> set white_space"

definition ascii_lower_char :: "char \<Rightarrow> char" where
  "ascii_lower_char c = (let v = of_char c :: nat in if 65 \<le> v \<and> v \<le> 90 then char_of (v + 32) else c)"

definition to_ascii_lowercase :: "string \<Rightarrow> string" where
  "to_ascii_lowercase = map ascii_lower_char"

definition eq_ignore_ascii_case :: "string \<Rightarrow> string \<Rightarrow> bool" where
  "eq_ignore_ascii_case a b \<longleftrightarrow> to_ascii_lowercase a = to_ascii_lowercase b"

definition is_ascii_alphanumeric :: "char \<Rightarrow> bool" where
  "is_ascii_alphanumeric c \<longleftrightarrow> (let v = of_char c :: nat in
     48 \<le> v \<and> v \<le> 57 \<or> 65 \<le> v \<and> v \<le> 90 \<or> 97 \<le> v \<and> v \<le> 122)"

definition split_once :: "char \<Rightarrow> string \<Rightarrow> (string \<times> string) option" where
  "split_once c s = (case dropWhile (\<lambda>x. x \<noteq> c) s of [] \<Rightarrow> None | _ # rest \<Rightarrow> Some (takeWhile (\<lambda>x. x \<noteq> c) s, rest))"

definition strip_suffix :: "string \<Rightarrow> string \<Rightarrow> string option" where
  "strip_suffix p s = (if suffix p s then Some (take (length s - length p) s) else None)"

text \<open>\<open>str::contains\<close> with a string, \<open>str::lines\<close>, \<open>[String]::join\<close>.\<close>

definition contains_str :: "string \<Rightarrow> string \<Rightarrow> bool" where
  "contains_str pat s \<longleftrightarrow> sublist pat s"

definition strip_return :: "string \<Rightarrow> string" where
  "strip_return l = (if l \<noteq> [] \<and> last l = RETURN then butlast l else l)"

definition str_lines :: "string \<Rightarrow> string list" where
  "str_lines s = (let ls = split_on NEWLINE s in
     map strip_return (butlast ls) @ (if last ls = [] then [] else [last ls]))"

fun join_with :: "string \<Rightarrow> string list \<Rightarrow> string" where
  "join_with sep [] = []"
| "join_with sep [s] = s"
| "join_with sep (s # t # ts) = s @ sep @ join_with sep (t # ts)"

section \<open>Paths\<close>

definition is_absolute :: "string \<Rightarrow> bool" where
  "is_absolute p \<longleftrightarrow> take 1 p = ''/''"

definition path_join :: "string \<Rightarrow> string \<Rightarrow> string" where
  "path_join p q = (if is_absolute q then q else if p = [] \<or> last p = CHR ''/'' then p @ q else p @ CHR ''/'' # q)"

text \<open>\<open>Path::components\<close>: empty segments and, behind the first, the segment \<open>.\<close> do not count.\<close>

definition path_components :: "string \<Rightarrow> string list" where
  "path_components p = (let segs = split_on (CHR ''/'') p in
     (if is_absolute p then [''/''] else if hd segs = [] then [] else [hd segs]) @
     filter (\<lambda>c. c \<noteq> [] \<and> c \<noteq> ''.'') (tl segs))"

definition file_name :: "string \<Rightarrow> string option" where
  "file_name p = (let cs = path_components p in
     if cs = [] \<or> last cs \<in> {''/'', ''.'', ''..''} then None else Some (last cs))"

definition rsplit_at_dot :: "string \<Rightarrow> string option \<times> string option" where
  "rsplit_at_dot name =
     (let r = rev name; rest = dropWhile (\<lambda>c. c \<noteq> CHR ''.'') r in
      if rest = [] then (None, Some name)
      else if tl rest = [] then (Some name, None)
      else (Some (rev (tl rest)), Some (rev (takeWhile (\<lambda>c. c \<noteq> CHR ''.'') r))))"

definition file_stem :: "string \<Rightarrow> string option" where
  "file_stem p = Option.bind (file_name p) (\<lambda>n.
     case rsplit_at_dot n of (Some b, _) \<Rightarrow> Some b | (None, a) \<Rightarrow> a)"

definition file_extension :: "string \<Rightarrow> string option" where
  "file_extension p = Option.bind (file_name p) (\<lambda>n.
     case rsplit_at_dot n of (Some _, a) \<Rightarrow> a | (None, _) \<Rightarrow> None)"

text \<open>\<open>Path::parent\<close>: the segments that do not count are dropped in front of the last component and behind the
  one before it.\<close>

definition strip_back :: "string list \<Rightarrow> string list" where
  "strip_back segs = (let first = take 1 segs; back = dropWhile (\<lambda>c. c = [] \<or> c = ''.'') (rev (drop 1 segs)) in
     if back \<noteq> [] \<or> first \<noteq> [[]] then first @ rev back else [])"

definition parent_dir :: "string \<Rightarrow> string option" where
  "parent_dir p = (let kept = strip_back (split_on (CHR ''/'') p) in
     if kept = [] then None
     else let rest = strip_back (butlast kept) in
       Some (if rest = [] \<and> is_absolute p then ''/'' else join_with ''/'' rest))"

section \<open>The system\<close>

record fs_env =
  path_exists :: "string \<Rightarrow> bool"
  path_is_file :: "string \<Rightarrow> bool"
  file_text :: "string \<Rightarrow> string option"
  walk_dir :: "string \<Rightarrow> (string \<times> bool) list"
  read_dir :: "string \<Rightarrow> string list option"
  env_var :: "string \<Rightarrow> string option"
  shell_full :: "string \<Rightarrow> string option"
  home_dir :: "string option"
  config_dir :: "string option"
  data_dir :: "string option"

text \<open>\<open>walk_dir\<close> lists the paths \<open>WalkDir\<close> yields without an error and whether each is a regular file,
  \<open>read_dir\<close> the names in a directory; the three directories at the end are those of the crate \<open>dirs\<close>.
  \<open>env::split_paths\<close> splits at the colons.\<close>

definition split_paths :: "string \<Rightarrow> string list" where
  "split_paths s = split_on (CHR '':'') s"

end
