(* ===== verification/Desktop_Scan.thy ===== *)
theory Desktop_Scan
  imports Paths Session_Manager
begin

text \<open>
  The scanner for freedesktop launchers (\<open>app_scanner/desktop.rs\<close>): the parser of desktop entries, the expansion
  of their command lines, the search for icons, and the scan of directories. The word splitting of the crate
  \<open>shlex\<close> is a parameter. \<open>check_try_exec\<close> only writes log messages and has no definition.
\<close>

section \<open>Desktop entries\<close>

record desktop_scanner =
  ds_directories :: "string list"
  ds_include_terminal :: bool
  ds_resolve_icons :: bool
  ds_pre_command :: "string list list"
  ds_post_command :: "string list list"
  ds_stdout :: "string option"
  ds_stderr :: "string option"
  ds_launch_timeout :: u64

record desktop_entry =
  entry_fields :: "string \<rightharpoonup> string"
  localized_names :: "string \<rightharpoonup> string"

definition desktop_entry_default :: desktop_entry where
  "desktop_entry_default = \<lparr>entry_fields = Map.empty, localized_names = Map.empty\<rparr>"

definition SUPPORTED_IMAGE_EXTENSIONS :: "string list" where
  "SUPPORTED_IMAGE_EXTENSIONS = [''png'', ''jpg'', ''jpeg'', ''webp'', ''bmp'', ''ico'']"

fun unescape_chars :: "string list \<Rightarrow> string" where
  "unescape_chars [] = []"
| "unescape_chars (c # cs) =
     (if c \<noteq> [CHR 0x5C] then c @ unescape_chars cs
      else case cs of
        [] \<Rightarrow> []
      | d # ds \<Rightarrow>
          (if d = ''n'' then [NEWLINE] else if d = ''t'' then [TAB] else if d = ''r'' then [RETURN]
           else if d = ''s'' then '' '' else d) @ unescape_chars ds)"

definition unescape_desktop_value :: "string \<Rightarrow> string" where
  "unescape_desktop_value v = unescape_chars (utf8_chars v)"

definition add_field :: "string \<Rightarrow> string \<Rightarrow> desktop_entry \<Rightarrow> desktop_entry" where
  "add_field key v entry =
     (case Option.bind (strip_prefix ''Name['' key) (strip_suffix '']'') of
        Some locale \<Rightarrow> entry\<lparr>localized_names := (localized_names entry)(locale \<mapsto> v)\<rparr>
      | None \<Rightarrow> entry\<lparr>entry_fields := (entry_fields entry)(key \<mapsto> v)\<rparr>)"

fun load_lines :: "bool \<Rightarrow> bool \<Rightarrow> desktop_entry \<Rightarrow> string list \<Rightarrow> bool \<times> desktop_entry" where
  "load_lines inside found entry [] = (found, entry)"
| "load_lines inside found entry (raw # rest) =
     (let line = trim raw in
      if line = [] \<or> take 1 line = ''#'' then load_lines inside found entry rest
      else if take 1 line = ''['' \<and> last line = CHR '']'' then
        (if butlast (tl line) = ''Desktop Entry'' then load_lines True True entry rest
         else if found then (found, entry)
         else load_lines False found entry rest)
      else if \<not> inside then load_lines inside found entry rest
      else case split_once (CHR ''='') line of
        None \<Rightarrow> load_lines inside found entry rest
      | Some (key, v) \<Rightarrow>
          load_lines inside found (add_field (trim key) (unescape_desktop_value (trim v)) entry) rest)"

definition load :: "fs_env \<Rightarrow> string \<Rightarrow> desktop_entry option res" where
  "load env path = rbind (ok_or (file_text env path)) (\<lambda>contents.
     let (found, entry) = load_lines False False desktop_entry_default (str_lines contents) in
     Inr (if found then Some entry else None))"

definition boolean_field :: "desktop_entry \<Rightarrow> string \<Rightarrow> bool" where
  "boolean_field entry key =
     (case entry_fields entry key of Some v \<Rightarrow> to_ascii_lowercase (trim v) \<in> {''true'', ''1'', ''yes''} | None \<Rightarrow> False)"

definition is_application :: "desktop_entry \<Rightarrow> bool" where
  "is_application entry \<longleftrightarrow> entry_fields entry ''Type'' = Some ''Application''"

definition is_hidden :: "desktop_entry \<Rightarrow> bool" where
  "is_hidden entry = boolean_field entry ''Hidden''"

definition is_no_display :: "desktop_entry \<Rightarrow> bool" where
  "is_no_display entry = boolean_field entry ''NoDisplay''"

definition is_terminal :: "desktop_entry \<Rightarrow> bool" where
  "is_terminal entry = boolean_field entry ''Terminal''"

definition locales_of :: "string \<Rightarrow> string list" where
  "locales_of v = (let locale = trim v in
     if locale = [] then []
     else let locale = hd (split_on (CHR ''@'') (hd (split_on (CHR ''.'') locale))) in
       if locale = [] then []
       else case split_once (CHR ''_'') locale of Some (language, _) \<Rightarrow> [locale, language] | None \<Rightarrow> [locale])"

definition locale_preferences :: "fs_env \<Rightarrow> string list" where
  "locale_preferences env =
     concat (map (\<lambda>key. case env_var env key of Some v \<Rightarrow> locales_of v | None \<Rightarrow> [])
       [''LC_MESSAGES'', ''LC_ALL'', ''LANG'']) @ [''C'']"

definition entry_name :: "fs_env \<Rightarrow> desktop_entry \<Rightarrow> string option" where
  "entry_name env entry =
     (case entry_fields entry ''Name'' of
        Some n \<Rightarrow> Some n
      | None \<Rightarrow> Option.bind (find (\<lambda>l. localized_names entry l \<noteq> None) (locale_preferences env)) (localized_names entry))"

definition usable_icon :: "desktop_entry \<Rightarrow> string option" where
  "usable_icon entry = Option.bind (entry_fields entry ''Icon'') (\<lambda>i. if trim i = [] then None else Some (trim i))"

section \<open>Command lines\<close>

fun expand_chars :: "fs_env \<Rightarrow> desktop_entry \<Rightarrow> string \<Rightarrow> string list \<Rightarrow> string" where
  "expand_chars env entry path [] = []"
| "expand_chars env entry path (c # cs) =
     (if c \<noteq> ''%'' then c @ expand_chars env entry path cs
      else case cs of
        [] \<Rightarrow> []
      | d # ds \<Rightarrow>
          (if d = ''%'' then ''%''
           else if d = ''c'' then (case entry_name env entry of Some n \<Rightarrow> n | None \<Rightarrow> [])
           else if d = ''k'' then path
           else if d = ''i'' then (case usable_icon entry of Some i \<Rightarrow> i | None \<Rightarrow> [])
           else []) @ expand_chars env entry path ds)"

definition expand_exec_token :: "fs_env \<Rightarrow> desktop_entry \<Rightarrow> string \<Rightarrow> string \<Rightarrow> string" where
  "expand_exec_token env entry path token = expand_chars env entry path (utf8_chars token)"

text \<open>The hand-written splitter: the words so far, the current word and the two quote flags.\<close>

fun split_exec_loop :: "bool \<Rightarrow> bool \<Rightarrow> string \<Rightarrow> string list \<Rightarrow> string list \<Rightarrow> string list option" where
  "split_exec_loop single double current tokens [] =
     (if single \<or> double then None else Some (if current = [] then tokens else tokens @ [current]))"
| "split_exec_loop single double current tokens (c # cs) =
     (if c = [CHR 0x27] \<and> \<not> double then split_exec_loop (\<not> single) double current tokens cs
      else if c = [CHR 0x22] \<and> \<not> single then split_exec_loop single (\<not> double) current tokens cs
      else if c = [CHR 0x5C] \<and> (double \<or> single) then
        (case cs of [] \<Rightarrow> split_exec_loop single double current tokens []
         | d # ds \<Rightarrow> split_exec_loop single double (current @ d) tokens ds)
      else if is_whitespace c \<and> \<not> single \<and> \<not> double then
        (if current = [] then split_exec_loop single double [] tokens cs
         else split_exec_loop single double [] (tokens @ [current]) cs)
      else split_exec_loop single double (current @ c) tokens cs)"

definition split_exec_fallback :: "string \<Rightarrow> string list option" where
  "split_exec_fallback exec = split_exec_loop False False [] [] (utf8_chars exec)"

definition expand_token :: "fs_env \<Rightarrow> desktop_entry \<Rightarrow> string \<Rightarrow> string \<Rightarrow> string list" where
  "expand_token env entry path token =
     (if token = ''%i'' then (case usable_icon entry of Some i \<Rightarrow> [''--icon'', i] | None \<Rightarrow> [])
      else let expanded = expand_exec_token env entry path token in if expanded = [] then [] else [expanded])"

definition parse_exec_command ::
  "(string \<Rightarrow> string list option) \<Rightarrow> fs_env \<Rightarrow> desktop_entry \<Rightarrow> string \<Rightarrow> string list option" where
  "parse_exec_command shlex env entry path =
     Option.bind (entry_fields entry ''Exec'') (\<lambda>raw. let exec = trim raw in
       if exec = [] then None
       else Option.bind (case shlex exec of Some ts \<Rightarrow> Some ts | None \<Rightarrow> split_exec_fallback exec) (\<lambda>tokens.
         let command = concat (map (expand_token env entry path) tokens) in
         if command = [] then None else Some command))"

section \<open>Icons\<close>

definition is_supported_image :: "fs_env \<Rightarrow> string \<Rightarrow> bool" where
  "is_supported_image env path \<longleftrightarrow> path_is_file env path \<and>
     (case file_extension path of
        Some e \<Rightarrow> list_ex (\<lambda>supported. eq_ignore_ascii_case supported e) SUPPORTED_IMAGE_EXTENSIONS
      | None \<Rightarrow> False)"

definition add_i32 :: "int \<Rightarrow> int \<Rightarrow> int res" where
  "add_i32 a b = (if - (2 ^ 31) \<le> a + b \<and> a + b < 2 ^ 31 then Inr (a + b) else Inl Panic)"

definition component_size :: "string \<Rightarrow> int option" where
  "component_size c = Option.bind (split_once (CHR ''x'') c) (\<lambda>(w, h).
     Option.bind (parse_i32 w) (\<lambda>w. map_option (min w) (parse_i32 h)))"

fun add_sizes :: "int \<Rightarrow> string list \<Rightarrow> int res" where
  "add_sizes score [] = Inr score"
| "add_sizes score (c # cs) =
     (case component_size c of
        None \<Rightarrow> add_sizes score cs
      | Some n \<Rightarrow> rbind (add_i32 score n) (\<lambda>score. add_sizes score cs))"

definition score_icon_path :: "string \<Rightarrow> int res" where
  "score_icon_path path =
     add_sizes ((if contains_str ''/hicolor/'' path then 50 else 0) + (if contains_str ''/apps/'' path then 25 else 0) -
       (if contains_str ''/scalable/'' path then 5 else 0)) (path_components path)"

definition icon_matches :: "fs_env \<Rightarrow> string \<Rightarrow> string \<Rightarrow> bool" where
  "icon_matches env icon path \<longleftrightarrow>
     is_supported_image env path \<and>
     file_stem path = Some (case file_stem icon of Some s \<Rightarrow> s | None \<Rightarrow> icon) \<and>
     (case file_extension icon of
        None \<Rightarrow> True
      | Some e \<Rightarrow> (case file_extension path of Some e' \<Rightarrow> eq_ignore_ascii_case e' e | None \<Rightarrow> False))"

fun best_icon :: "int \<Rightarrow> string option \<Rightarrow> string list \<Rightarrow> string option res" where
  "best_icon best_score best [] = Inr best"
| "best_icon best_score best (p # ps) =
     rbind (score_icon_path p) (\<lambda>score.
       if best_score < score then best_icon score (Some p) ps else best_icon best_score best ps)"

definition files_under :: "fs_env \<Rightarrow> string \<Rightarrow> string list" where
  "files_under env root = map fst (filter snd (walk_dir env root))"

definition find_icon_by_name :: "fs_env \<Rightarrow> string list \<Rightarrow> string \<Rightarrow> string option res" where
  "find_icon_by_name env roots icon =
     best_icon (- (2 ^ 31)) None
       (filter (icon_matches env icon) (concat (map (files_under env) (filter (path_exists env) roots))))"

definition xdg_data_home :: "fs_env \<Rightarrow> string option" where
  "xdg_data_home env =
     (case env_var env ''XDG_DATA_HOME'' of
        Some (c # cs) \<Rightarrow> Some (c # cs)
      | _ \<Rightarrow> map_option (\<lambda>home. path_join home ''.local/share'') (env_var env ''HOME''))"

definition xdg_data_dirs :: "fs_env \<Rightarrow> string list" where
  "xdg_data_dirs env =
     (case env_var env ''XDG_DATA_DIRS'' of
        Some (c # cs) \<Rightarrow> split_paths (c # cs)
      | _ \<Rightarrow> [''/usr/local/share'', ''/usr/share''])"

definition icon_search_roots :: "fs_env \<Rightarrow> string list" where
  "icon_search_roots env =
     concat (map (\<lambda>dir. [path_join dir ''icons'', path_join dir ''pixmaps''])
       ((case xdg_data_home env of Some d \<Rightarrow> [d] | None \<Rightarrow> []) @ xdg_data_dirs env))"

record icon_resolver =
  enabled :: bool
  icon_cache :: "string \<rightharpoonup> string option"
  search_roots :: "string list"

definition icon_resolver_new :: "fs_env \<Rightarrow> bool \<Rightarrow> icon_resolver" where
  "icon_resolver_new env on = \<lparr>enabled = on, icon_cache = Map.empty, search_roots = icon_search_roots env\<rparr>"

definition resolve_icon_path :: "fs_env \<Rightarrow> string \<Rightarrow> string \<Rightarrow> string option" where
  "resolve_icon_path env icon desktop_file =
     (if is_absolute icon then (if is_supported_image env icon then Some icon else None)
      else if CHR ''/'' \<in> set icon then
        Option.bind (parent_dir desktop_file) (\<lambda>dir.
          let path = path_join dir icon in if is_supported_image env path then Some path else None)
      else None)"

definition resolve_icon ::
  "fs_env \<Rightarrow> icon_resolver \<Rightarrow> string option \<Rightarrow> string \<Rightarrow> (icon_resolver \<times> string option) res" where
  "resolve_icon env resolver icon desktop_file =
     (if \<not> enabled resolver then Inr (resolver, None)
      else case icon of
        None \<Rightarrow> Inr (resolver, None)
      | Some icon \<Rightarrow>
          if icon = [] then Inr (resolver, None)
          else case resolve_icon_path env icon desktop_file of
            Some path \<Rightarrow> Inr (resolver, Some path)
          | None \<Rightarrow>
              (case icon_cache resolver icon of
                 Some cached \<Rightarrow> Inr (resolver, cached)
               | None \<Rightarrow> rbind (find_icon_by_name env (search_roots resolver) icon) (\<lambda>resolved.
                   Inr (resolver\<lparr>icon_cache := (icon_cache resolver)(icon \<mapsto> resolved)\<rparr>, resolved))))"

section \<open>The scan\<close>

definition parse_desktop_application ::
  "(string \<Rightarrow> string list option) \<Rightarrow> fs_env \<Rightarrow> desktop_scanner \<Rightarrow> string \<Rightarrow> icon_resolver \<Rightarrow>
   (icon_resolver \<times> application_config option) res" where
  "parse_desktop_application shlex env config path resolver =
     (case load env path of
        Inl _ \<Rightarrow> Inr (resolver, None)
      | Inr None \<Rightarrow> Inr (resolver, None)
      | Inr (Some entry) \<Rightarrow>
          if \<not> is_application entry \<or> is_hidden entry \<or> is_no_display entry then Inr (resolver, None)
          else if is_terminal entry \<and> \<not> ds_include_terminal config then Inr (resolver, None)
          else case entry_name env entry of
            None \<Rightarrow> Inr (resolver, None)
          | Some name \<Rightarrow>
              (case parse_exec_command shlex env entry path of
                 None \<Rightarrow> Inr (resolver, None)
               | Some cmd \<Rightarrow>
                   rbind (resolve_icon env resolver (usable_icon entry) path) (\<lambda>(resolver, art).
                     Inr (resolver, Some \<lparr>title = name, boxart = art, command = cmd,
                       pre_command = ds_pre_command config, post_command = ds_post_command config,
                       app_stdout = ds_stdout config, app_stderr = ds_stderr config,
                       launch_timeout_secs = ds_launch_timeout config\<rparr>))))"

text \<open>Title and command tell applications apart; the first of several is kept.\<close>

definition dedupe_key :: "application_config \<Rightarrow> string \<times> string" where
  "dedupe_key app = (to_ascii_lowercase (trim (title app)), join_with [CHR 0x1F] (command app))"

type_synonym collected = "application_config list \<times> (string \<times> string) set"

definition insert_unique :: "application_config \<Rightarrow> collected \<Rightarrow> collected" where
  "insert_unique app c = (case c of (apps, seen) \<Rightarrow>
     if dedupe_key app \<in> seen then (apps, seen) else (apps @ [app], insert (dedupe_key app) seen))"

fun scan_files ::
  "(string \<Rightarrow> string list option) \<Rightarrow> fs_env \<Rightarrow> desktop_scanner \<Rightarrow> icon_resolver \<Rightarrow> collected \<Rightarrow> string list \<Rightarrow>
   (icon_resolver \<times> collected) res" where
  "scan_files shlex env config resolver c [] = Inr (resolver, c)"
| "scan_files shlex env config resolver c (path # paths) =
     (if \<not> (case file_extension path of Some e \<Rightarrow> eq_ignore_ascii_case e ''desktop'' | None \<Rightarrow> False)
      then scan_files shlex env config resolver c paths
      else rbind (parse_desktop_application shlex env config path resolver) (\<lambda>(resolver, app).
        scan_files shlex env config resolver (case app of Some a \<Rightarrow> insert_unique a c | None \<Rightarrow> c) paths))"

definition directory_files :: "fs_env \<Rightarrow> string \<Rightarrow> string list" where
  "directory_files env directory =
     (case shell_full env directory of
        None \<Rightarrow> []
      | Some dir \<Rightarrow> if path_exists env dir then files_under env dir else [])"

definition scan_desktop_applications ::
  "(string \<Rightarrow> string list option) \<Rightarrow> fs_env \<Rightarrow> desktop_scanner \<Rightarrow> application_config list res" where
  "scan_desktop_applications shlex env config =
     rbind (scan_files shlex env config (icon_resolver_new env (ds_resolve_icons config)) ([], {})
       (concat (map (directory_files env) (ds_directories config)))) (\<lambda>(_, apps, _). Inr apps)"

end
