(* ===== verification/Game_Scan.thy ===== *)
theory Game_Scan
  imports Desktop_Scan "HOL-Library.Char_ord" "HOL-Library.List_Lexorder"
begin

text \<open>
  The scanners for the game stores (\<open>app_scanner/steam.rs\<close>, \<open>lutris.rs\<close>, \<open>heroic.rs\<close>) and the list of
  applications built from all scanners (\<open>app_scanner/mod.rs\<close>). What the crates \<open>steamlocate\<close>, \<open>rusqlite\<close>,
  \<open>serde_json\<close>, \<open>sha2\<close> and \<open>shlex\<close> return is the record \<open>stores\<close>. The counters of skipped games are only
  logged and left out.
\<close>

section \<open>What the libraries return\<close>

record steam_app =
  steam_app_id :: u32
  steam_name :: "string option"

record heroic_game =
  app_name :: string
  game_title :: string
  game_runner :: "string option"
  is_installed :: bool
  install_is_dlc :: bool
  art_square :: "string option"
  art_cover :: "string option"

record installed_game =
  installed_app_name :: "string option"
  installed_is_dlc :: bool

type_synonym lutris_row = "int \<times> string \<times> string \<times> string option"

record stores =
  shlex_split :: "string \<Rightarrow> string list option"
  steam_dir :: "string \<Rightarrow> steam_app option list option list option option"
  lutris_games :: "string \<Rightarrow> lutris_row option list option"
  heroic_library :: "string \<Rightarrow> heroic_game list option"
  heroic_installed :: "string \<Rightarrow> installed_game list option"
  sha256_hex :: "string \<Rightarrow> string"

text \<open>The three store scanners have the same settings: where the store keeps its data, and how to launch.\<close>

record game_scanner =
  gs_path :: string
  gs_command :: "string list"
  gs_pre_command :: "string list list"
  gs_post_command :: "string list list"
  gs_stdout :: "string option"
  gs_stderr :: "string option"
  gs_launch_timeout :: u64

definition game_application ::
  "game_scanner \<Rightarrow> string \<Rightarrow> (string \<Rightarrow> string) \<Rightarrow> string option \<Rightarrow> application_config" where
  "game_application config name fill art =
     \<lparr>title = name, boxart = art, command = map fill (gs_command config), pre_command = gs_pre_command config,
      post_command = gs_post_command config, app_stdout = gs_stdout config, app_stderr = gs_stderr config,
      launch_timeout_secs = gs_launch_timeout config\<rparr>"

section \<open>Steam\<close>

definition search_file :: "fs_env \<Rightarrow> string \<Rightarrow> string \<Rightarrow> string option" where
  "search_file env directory name =
     Option.bind (shell_full env directory) (\<lambda>dir.
       find (\<lambda>p. (case file_name p of Some n \<Rightarrow> n | None \<Rightarrow> p) = name) (map fst (walk_dir env dir)))"

definition steam_boxart :: "fs_env \<Rightarrow> game_scanner \<Rightarrow> u32 \<Rightarrow> string option" where
  "steam_boxart env config appid =
     (let game_dir = path_join (path_join (gs_path config) ''appcache/librarycache'') (show_nat (unat appid)) in
      case (case search_file env game_dir ''library_600x900.jpg'' of
              Some p \<Rightarrow> Some p | None \<Rightarrow> search_file env game_dir ''library_capsule.jpg'') of
        Some art \<Rightarrow> if path_exists env art then Some art else None
      | None \<Rightarrow> None)"

definition steam_application :: "fs_env \<Rightarrow> game_scanner \<Rightarrow> steam_app option \<Rightarrow> application_config list" where
  "steam_application env config result =
     (case result of
        None \<Rightarrow> []
      | Some app \<Rightarrow>
          (case steam_name app of
             None \<Rightarrow> []
           | Some name \<Rightarrow>
               if prefix ''Proton'' name \<or> prefix ''Steam Linux Runtime'' name \<or>
                  prefix ''Steamworks Common Redistributables'' name then []
               else [game_application config name (replace_all ''{game_id}'' (show_nat (unat (steam_app_id app))))
                       (steam_boxart env config (steam_app_id app))]))"

definition scan_steam_applications :: "stores \<Rightarrow> fs_env \<Rightarrow> game_scanner \<Rightarrow> application_config list res" where
  "scan_steam_applications st env config =
     rbind (ok_or (shell_full env (gs_path config))) (\<lambda>library.
     rbind (ok_or (steam_dir st library)) (\<lambda>libraries.
     rbind (ok_or libraries) (\<lambda>libraries.
       Inr (concat (map (\<lambda>library. case library of
              None \<Rightarrow> []
            | Some apps \<Rightarrow> concat (map (steam_application env config) apps)) libraries)))))"

section \<open>Lutris\<close>

definition default_pga_db :: "fs_env \<Rightarrow> string" where
  "default_pga_db env =
     path_join (path_join (case data_dir env of Some d \<Rightarrow> d | None \<Rightarrow> ''.'') ''lutris'') ''pga.db''"

definition is_valid_slug :: "string \<Rightarrow> bool" where
  "is_valid_slug slug \<longleftrightarrow> list_all (\<lambda>c. is_ascii_alphanumeric c \<or> c = CHR ''-'' \<or> c = CHR ''_'' \<or> c = CHR ''.'') slug"

definition coverart_dir :: "fs_env \<Rightarrow> string" where
  "coverart_dir env = path_join (path_join (case data_dir env of Some d \<Rightarrow> d | None \<Rightarrow> ''.'') ''lutris'') ''coverart''"

definition coverart_set :: "fs_env \<Rightarrow> string set" where
  "coverart_set env =
     (if path_exists env (coverart_dir env)
      then (case read_dir env (coverart_dir env) of Some names \<Rightarrow> set names | None \<Rightarrow> {}) else {})"

definition lutris_application :: "fs_env \<Rightarrow> game_scanner \<Rightarrow> lutris_row \<Rightarrow> application_config list" where
  "lutris_application env config row = (case row of (_, name, slug, _) \<Rightarrow>
     if \<not> is_valid_slug slug then []
     else [game_application config name (replace_all ''{slug}'' slug)
       (map_option (path_join (coverart_dir env))
          (find (\<lambda>art. art \<in> coverart_set env) (map (\<lambda>ext. slug @ ''.'' @ ext) [''jpg'', ''png''])))])"

definition scan_lutris_applications :: "stores \<Rightarrow> fs_env \<Rightarrow> game_scanner \<Rightarrow> application_config list res" where
  "scan_lutris_applications st env config =
     rbind (ok_or (shell_full env (gs_path config))) (\<lambda>db_path.
       if \<not> path_exists env db_path then Inr []
       else rbind (ok_or (lutris_games st db_path)) (\<lambda>rows.
         Inr (concat (map (lutris_application env config) (List.map_filter id rows)))))"

section \<open>Heroic\<close>

definition find_libraries :: "fs_env \<Rightarrow> string \<Rightarrow> string list" where
  "find_libraries env dir =
     (let store_cache = path_join dir ''store_cache'';
          libraries = (case read_dir env store_cache of
            Some names \<Rightarrow> map (path_join store_cache) (sort (filter (suffix ''_library.json'') names))
          | None \<Rightarrow> []);
          sideload = path_join dir ''sideload_apps/library.json''
      in libraries @ (if path_exists env sideload then [sideload] else []))"

definition installed_manifest :: "string \<Rightarrow> string \<Rightarrow> string" where
  "installed_manifest dir runner = path_join (path_join dir (runner @ ''_store'')) ''installed.json''"

definition flatpak_config_dir :: "fs_env \<Rightarrow> string option" where
  "flatpak_config_dir env =
     map_option (\<lambda>home. path_join (path_join home ''.var/app/com.heroicgameslauncher.hgl/config'') ''heroic'') (home_dir env)"

definition native_config_dir :: "fs_env \<Rightarrow> string" where
  "native_config_dir env = path_join (case config_dir env of Some d \<Rightarrow> d | None \<Rightarrow> ''.'') ''heroic''"

definition default_config_dir :: "fs_env \<Rightarrow> string" where
  "default_config_dir env =
     (if path_exists env (native_config_dir env) then native_config_dir env
      else case flatpak_config_dir env of
        Some flatpak \<Rightarrow> if path_exists env flatpak then flatpak else native_config_dir env
      | None \<Rightarrow> native_config_dir env)"

definition read_library :: "stores \<Rightarrow> fs_env \<Rightarrow> string \<Rightarrow> heroic_game list res" where
  "read_library st env path =
     rbind (ok_or (file_text env path)) (\<lambda>contents. ok_or (heroic_library st contents))"

definition insert_installed :: "(string \<rightharpoonup> bool) \<Rightarrow> installed_game \<Rightarrow> (string \<rightharpoonup> bool)" where
  "insert_installed m g = (case installed_app_name g of Some name \<Rightarrow> m(name \<mapsto> installed_is_dlc g) | None \<Rightarrow> m)"

definition read_installed :: "stores \<Rightarrow> fs_env \<Rightarrow> string \<Rightarrow> (string \<rightharpoonup> bool)" where
  "read_installed st env path =
     (if \<not> path_exists env path then Map.empty
      else case Option.bind (file_text env path) (heroic_installed st) of
        None \<Rightarrow> Map.empty
      | Some games \<Rightarrow> foldl insert_installed Map.empty games)"

definition ART_URL_VARIANTS :: "string list" where
  "ART_URL_VARIANTS = [''?h=800&resize=1&w=600'', ''?h=400&resize=1&w=300'', []]"

definition is_valid_app_name :: "string \<Rightarrow> bool" where
  "is_valid_app_name name \<longleftrightarrow>
     name \<noteq> [] \<and> list_all (\<lambda>c. is_ascii_alphanumeric c \<or> c = CHR ''-'' \<or> c = CHR ''_'') name"

definition art_urls :: "heroic_game \<Rightarrow> string list" where
  "art_urls game = filter (\<lambda>url. url \<noteq> []) (List.map_filter id [art_square game, art_cover game])"

definition find_boxart :: "stores \<Rightarrow> fs_env \<Rightarrow> string \<Rightarrow> heroic_game \<Rightarrow> string option" where
  "find_boxart st env dir game =
     (let images_cache = path_join dir ''images-cache'';
          candidates = map (\<lambda>url. path_join images_cache (sha256_hex st url))
            (concat (map (\<lambda>url. map (\<lambda>variant. url @ variant) ART_URL_VARIANTS) (art_urls game)))
      in case find (path_exists env) candidates of
           Some p \<Rightarrow> Some p
         | None \<Rightarrow>
             if \<not> is_valid_app_name (app_name game) then None
             else find (path_exists env)
               (map (\<lambda>extension. path_join (path_join dir ''icons'') (app_name game @ ''.'' @ extension)) [''jpg'', ''png'']))"

type_synonym manifests = "string \<rightharpoonup> (string \<rightharpoonup> bool)"

definition runner_of :: "heroic_game \<Rightarrow> string" where
  "runner_of game = (case game_runner game of Some r \<Rightarrow> r | None \<Rightarrow> ''sideload'')"

definition load_manifest :: "stores \<Rightarrow> fs_env \<Rightarrow> string \<Rightarrow> string \<Rightarrow> manifests \<Rightarrow> manifests" where
  "load_manifest st env dir runner ms =
     (if ms runner \<noteq> None then ms else ms(runner \<mapsto> read_installed st env (installed_manifest dir runner)))"

definition heroic_application ::
  "stores \<Rightarrow> fs_env \<Rightarrow> game_scanner \<Rightarrow> string \<Rightarrow> heroic_game \<Rightarrow> application_config" where
  "heroic_application st env config dir game =
     game_application config (game_title game)
       (\<lambda>cmd. replace_all ''{runner}'' (runner_of game) (replace_all ''{app_name}'' (app_name game) cmd))
       (find_boxart st env dir game)"

definition scan_game ::
  "stores \<Rightarrow> fs_env \<Rightarrow> game_scanner \<Rightarrow> string \<Rightarrow> heroic_game \<Rightarrow> manifests \<times> application_config list \<Rightarrow>
   manifests \<times> application_config list" where
  "scan_game st env config dir game acc = (case acc of (ms, apps) \<Rightarrow>
     let ms = load_manifest st env dir (runner_of game) ms;
         installed_entry = Option.bind (ms (runner_of game)) (\<lambda>m. m (app_name game))
     in if \<not> is_installed game \<and> installed_entry = None then (ms, apps)
        else if install_is_dlc game \<or> installed_entry = Some True then (ms, apps)
        else (ms, apps @ [heroic_application st env config dir game]))"

definition scan_library ::
  "stores \<Rightarrow> fs_env \<Rightarrow> game_scanner \<Rightarrow> string \<Rightarrow> string \<Rightarrow> manifests \<times> application_config list \<Rightarrow>
   manifests \<times> application_config list" where
  "scan_library st env config dir path acc =
     (case read_library st env path of
        Inl _ \<Rightarrow> acc
      | Inr games \<Rightarrow> fold (scan_game st env config dir) games acc)"

definition scan_heroic_applications :: "stores \<Rightarrow> fs_env \<Rightarrow> game_scanner \<Rightarrow> application_config list res" where
  "scan_heroic_applications st env config =
     rbind (ok_or (shell_full env (gs_path config))) (\<lambda>dir.
       if \<not> path_exists env dir then Inr []
       else Inr (snd (fold (scan_library st env config dir) (find_libraries env dir) (Map.empty, []))))"

section \<open>All scanners\<close>

datatype application_scanner =
    Steam game_scanner | Desktop desktop_scanner | Lutris game_scanner | Heroic game_scanner

fun scan_one :: "stores \<Rightarrow> fs_env \<Rightarrow> application_scanner \<Rightarrow> application_config list res" where
  "scan_one st env (Steam config) = scan_steam_applications st env config"
| "scan_one st env (Desktop config) = scan_desktop_applications (shlex_split st) env config"
| "scan_one st env (Lutris config) = scan_lutris_applications st env config"
| "scan_one st env (Heroic config) = scan_heroic_applications st env config"

fun scan_all :: "stores \<Rightarrow> fs_env \<Rightarrow> collected \<Rightarrow> application_scanner list \<Rightarrow> collected res" where
  "scan_all st env c [] = Inr c"
| "scan_all st env c (s # ss) =
     (case scan_one st env s of
        Inl Err \<Rightarrow> scan_all st env c ss
      | Inl Panic \<Rightarrow> Inl Panic
      | Inr found \<Rightarrow> scan_all st env (fold insert_unique found c) ss)"

definition scan_applications :: "stores \<Rightarrow> fs_env \<Rightarrow> application_scanner list \<Rightarrow> application_config list res" where
  "scan_applications st env scanners = rbind (scan_all st env ([], {}) scanners) (\<lambda>c. Inr (fst c))"

fun resolve_missing :: "fs_env \<Rightarrow> string list \<Rightarrow> application_config list \<Rightarrow> application_config list res" where
  "resolve_missing env roots [] = Inr []"
| "resolve_missing env roots (app # apps) =
     rbind (if boxart app = None
            then rbind (find_icon_by_name env roots (to_ascii_lowercase (title app))) (\<lambda>art. Inr (app\<lparr>boxart := art\<rparr>))
            else Inr app) (\<lambda>app.
     rbind (resolve_missing env roots apps) (\<lambda>apps. Inr (app # apps)))"

definition resolve_missing_boxart :: "fs_env \<Rightarrow> application_config list \<Rightarrow> application_config list res" where
  "resolve_missing_boxart env apps = resolve_missing env (search_roots (icon_resolver_new env True)) apps"

text \<open>What \<open>main\<close> offers: the configured applications, then the scanned ones.\<close>

definition offered_applications ::
  "stores \<Rightarrow> fs_env \<Rightarrow> application_config list \<Rightarrow> application_scanner list \<Rightarrow> application_config list res" where
  "offered_applications st env configured scanners =
     rbind (scan_applications st env scanners) (\<lambda>scanned. resolve_missing_boxart env (configured @ scanned))"

end
