(* ===== verification/App_Scan_Props.thy ===== *)
theory App_Scan_Props
  imports Game_Scan
begin

text \<open>
  Correctness of the application scanners: escapes and launchers are read back, the best icon is found, which
  Heroic games are listed and where their box art may lie, and which of several equal applications is kept.
\<close>

section \<open>Characters\<close>

lemma utf8_width_pos [simp]: "0 < utf8_width c" "utf8_width c \<noteq> 0"
  by (auto simp: utf8_width_def Let_def)

lemma concat_utf8_chars [simp]: "concat (utf8_chars s) = s"
  by (induction s rule: utf8_chars.induct) (simp_all add: utf8_chars.simps(2))

text \<open>A character in front of a string, complete or at the very end.\<close>

lemma utf8_chars_append:
  assumes "w = utf8_width c" and "rest = [] \<or> length (take w (c # cs)) = w"
  shows "utf8_chars (take w (c # cs) @ rest) = take w (c # cs) # utf8_chars rest"
proof -
  obtain v where w: "w = Suc v" using assms(1) utf8_width_pos(2) [of c] not0_implies_Suc by metis
  have "utf8_chars (c # take v cs @ rest) = take w (c # take v cs @ rest) # utf8_chars (drop w (c # take v cs @ rest))"
    using assms(1) by (simp add: utf8_chars.simps(2))
  then show ?thesis using assms(2) w by (auto simp: min_def split: if_splits)
qed

lemma utf8_chars_ascii: "of_char c < (0x80 :: nat) \<Longrightarrow> utf8_chars (c # cs) = [c] # utf8_chars cs"
  by (simp add: utf8_chars.simps(2) utf8_width_def)

lemma rest_or_full: "drop w xs = [] \<or> length (take w xs) = w"
  by auto

section \<open>Escapes\<close>

text \<open>The escapes of the desktop entry specification.\<close>

definition escape_char :: "string \<Rightarrow> string" where
  "escape_char c =
     (if c = [CHR 0x5C] then [CHR 0x5C, CHR 0x5C] else if c = [NEWLINE] then CHR 0x5C # ''n''
      else if c = [TAB] then CHR 0x5C # ''t'' else if c = [RETURN] then CHR 0x5C # ''r''
      else if c = '' '' then CHR 0x5C # ''s'' else c)"

definition escape_value :: "string \<Rightarrow> string" where
  "escape_value v = concat (map escape_char (utf8_chars v))"

definition double_percent :: "string \<Rightarrow> string" where
  "double_percent v = concat (map (\<lambda>c. if c = ''%'' then ''%%'' else c) (utf8_chars v))"

lemma escape_Nil [simp]: "escape_value [] = []" "double_percent [] = []"
  by (simp_all add: escape_value_def double_percent_def)

lemma escape_drop: "drop w (c # cs) = [] \<Longrightarrow> escape_value (drop w (c # cs)) = []"
  "drop w (c # cs) = [] \<Longrightarrow> double_percent (drop w (c # cs)) = []"
  by simp_all

lemma unescape_escape_value: "unescape_desktop_value (escape_value v) = v"
proof (induction v rule: utf8_chars.induct)
  case (2 c cs)
  let ?w = "utf8_width c" and ?k = "take (utf8_width c) (c # cs)" and ?r = "drop (utf8_width c) (c # cs)"
  have IH: "unescape_chars (utf8_chars (escape_value ?r)) = ?r"
    using 2 by (simp add: unescape_desktop_value_def)
  have split: "escape_value (c # cs) = escape_char ?k @ escape_value ?r"
    by (simp add: escape_value_def utf8_chars.simps(2))
  have "unescape_chars (utf8_chars (escape_char ?k @ escape_value ?r)) = ?k @ unescape_chars (utf8_chars (escape_value ?r))"
  proof (cases "?k \<in> {[CHR 0x5C], [NEWLINE], [TAB], [RETURN], '' ''}")
    case True
    then show ?thesis
      by (auto simp: escape_char_def utf8_chars_ascii NEWLINE_def TAB_def RETURN_def)
  next
    case False
    then have "utf8_chars (escape_char ?k @ escape_value ?r) = ?k # utf8_chars (escape_value ?r)"
      using utf8_chars_append [OF refl, of "escape_value ?r" c cs] rest_or_full [of ?w "c # cs"]
      by (auto simp: escape_char_def)
    then show ?thesis using False by simp
  qed
  then show ?case using IH split by (simp add: unescape_desktop_value_def)
qed (simp add: unescape_desktop_value_def)

text \<open>
  A word of a command line as an author writes it: literal text, whose percent signs are doubled, and field codes, a
  percent sign and an ASCII character. In a launcher without an icon a word stands for its literal text, the name for
  the code c and the path of the launcher for k; the other codes stand for nothing.
\<close>

datatype exec_item = Literal string | Field_Code char

definition complete_utf8 :: "string \<Rightarrow> bool" where
  "complete_utf8 v \<longleftrightarrow> list_all (\<lambda>ch. length ch = utf8_width (hd ch)) (utf8_chars v)"

fun item_ok :: "exec_item \<Rightarrow> bool" where
  "item_ok (Literal v) = complete_utf8 v"
| "item_ok (Field_Code c) = (of_char c < (0x80 :: nat) \<and> c \<noteq> CHR ''%'')"

fun write_item :: "exec_item \<Rightarrow> string" where
  "write_item (Literal v) = double_percent v"
| "write_item (Field_Code c) = [CHR ''%'', c]"

fun item_meaning :: "string \<Rightarrow> string \<Rightarrow> exec_item \<Rightarrow> string" where
  "item_meaning name path (Literal v) = v"
| "item_meaning name path (Field_Code c) = (if c = CHR ''c'' then name else if c = CHR ''k'' then path else [])"

definition write_word :: "exec_item list \<Rightarrow> string" where
  "write_word w = concat (map write_item w)"

definition word_meaning :: "string \<Rightarrow> string \<Rightarrow> exec_item list \<Rightarrow> string" where
  "word_meaning name path w = concat (map (item_meaning name path) w)"

lemma expand_literal:
  "complete_utf8 v \<Longrightarrow> expand_chars env entry path (utf8_chars (double_percent v @ rest)) =
     v @ expand_chars env entry path (utf8_chars rest)"
proof (induction v rule: utf8_chars.induct)
  case (2 c cs)
  let ?w = "utf8_width c" and ?k = "take (utf8_width c) (c # cs)" and ?r = "drop (utf8_width c) (c # cs)"
  have cut: "utf8_chars (c # cs) = ?k # utf8_chars ?r" by (simp add: utf8_chars.simps(2))
  have full: "length ?k = ?w" and "complete_utf8 ?r"
    using "2.prems" utf8_width_pos(2) [of c] unfolding complete_utf8_def cut by (cases ?w; auto)+
  then have IH: "expand_chars env entry path (utf8_chars (double_percent ?r @ rest)) =
      ?r @ expand_chars env entry path (utf8_chars rest)"
    using "2.IH" by simp
  have split: "double_percent (c # cs) = (if ?k = ''%'' then ''%%'' else ?k) @ double_percent ?r"
    by (simp add: double_percent_def utf8_chars.simps(2))
  have whole: "(c # cs) @ z = ?k @ (?r @ z)" for z
    by (simp only: append_assoc [symmetric] append_take_drop_id)
  show ?case
  proof (cases "?k = ''%''")
    case True
    have "expand_chars env entry path (utf8_chars (''%%'' @ (double_percent ?r @ rest))) =
        ''%'' @ (?r @ expand_chars env entry path (utf8_chars rest))"
      using IH by (simp add: utf8_chars_ascii)
    then show ?thesis unfolding split whole True by simp
  next
    case False
    have "utf8_chars (?k @ (double_percent ?r @ rest)) = ?k # utf8_chars (double_percent ?r @ rest)"
      using utf8_chars_append [OF refl, of "double_percent ?r @ rest" c cs] full by blast
    then have "expand_chars env entry path (utf8_chars (?k @ (double_percent ?r @ rest))) =
        ?k @ (?r @ expand_chars env entry path (utf8_chars rest))"
      using False IH by simp
    then show ?thesis unfolding split whole using False by simp
  qed
qed simp

lemma expand_field_code:
  assumes "item_ok (Field_Code c)"
  shows "expand_chars env entry path (utf8_chars ([CHR ''%'', c] @ rest)) =
    (if c = CHR ''c'' then (case entry_name env entry of Some n \<Rightarrow> n | None \<Rightarrow> [])
     else if c = CHR ''k'' then path
     else if c = CHR ''i'' then (case usable_icon entry of Some i \<Rightarrow> i | None \<Rightarrow> []) else []) @
    expand_chars env entry path (utf8_chars rest)"
  using assms by (simp add: utf8_chars_ascii)

lemma expand_word:
  assumes "entry_name env entry = Some name" and "usable_icon entry = None"
  shows "list_all item_ok w \<Longrightarrow> expand_exec_token env entry path (write_word w) = word_meaning name path w"
proof (induction w)
  case (Cons i w)
  have IH: "expand_chars env entry path (utf8_chars (write_word w)) = word_meaning name path w"
    using Cons by (simp add: expand_exec_token_def)
  have "write_word (i # w) = write_item i @ write_word w" "word_meaning name path (i # w) = item_meaning name path i @ word_meaning name path w"
    by (simp_all add: write_word_def word_meaning_def)
  moreover have "expand_chars env entry path (utf8_chars (write_item i @ write_word w)) =
      item_meaning name path i @ expand_chars env entry path (utf8_chars (write_word w))"
  proof (cases i)
    case (Literal v)
    then show ?thesis using Cons.prems expand_literal by simp
  next
    case (Field_Code c)
    then show ?thesis using Cons.prems expand_field_code [of c env entry path "write_word w"] assms by simp
  qed
  ultimately show ?case using IH by (simp add: expand_exec_token_def)
qed (simp add: expand_exec_token_def write_word_def word_meaning_def)

lemma expand_word_token:
  assumes "entry_name env entry = Some name" and "usable_icon entry = None" and "list_all item_ok w"
  shows "expand_token env entry path (write_word w) =
    (if word_meaning name path w = [] then [] else [word_meaning name path w])"
proof (cases "write_word w = ''%i''")
  case True
  have "expand_exec_token env entry path ''%i'' = []"
    using assms(2) by (simp add: expand_exec_token_def utf8_chars_ascii)
  then show ?thesis using True expand_word [OF assms, of path] assms(2) by (simp add: expand_token_def)
next
  case False
  then show ?thesis using expand_word [OF assms, of path] by (simp add: expand_token_def)
qed

section \<open>Launchers\<close>

text \<open>A launcher with a name and a command line, as the specification asks for it.\<close>

definition no_outer_space :: "string \<Rightarrow> bool" where
  "no_outer_space v \<longleftrightarrow> list_all (\<lambda>w. \<not> prefix w v \<and> \<not> suffix w v) white_space"

definition valid_utf8 :: "string \<Rightarrow> bool" where
  "valid_utf8 v \<longleftrightarrow> list_all (\<lambda>c. list_all (\<lambda>b. 0x80 \<le> (of_char b :: nat)) (tl c)) (utf8_chars v)"

definition launcher :: "string \<Rightarrow> string \<Rightarrow> string" where
  "launcher name exec =
     ''[Desktop Entry]'' @ [NEWLINE] @ ''Type=Application'' @ [NEWLINE] @
     ''Name='' @ escape_value name @ [NEWLINE] @ ''Exec='' @ escape_value exec @ [NEWLINE]"

lemma white_space_chars:
  "w \<in> set white_space \<Longrightarrow> w \<noteq> [] \<and> CHR ''='' \<notin> set w \<and> hd w \<notin> {CHR ''N'', CHR ''E'', CHR ''T'', CHR ''A'', CHR ''['', CHR '']''} \<and>
     last w \<notin> {CHR ''e'', CHR ''n'', CHR ''c'', CHR '']''}"
  by (auto simp: white_space_def char_of_def)

lemma strip_while_prefix_none:
  "(\<And>w. w \<in> set ws \<Longrightarrow> \<not> prefix w s) \<Longrightarrow> strip_while_prefix ws s = s"
  by (subst strip_while_prefix.simps) (auto simp: find_None_iff split: option.split dest: find_Some_iff [THEN iffD1])

lemma trim_same: "no_outer_space v \<Longrightarrow> trim v = v"
proof -
  assume v: "no_outer_space v"
  then have "strip_while_prefix white_space v = v"
    by (intro strip_while_prefix_none) (simp add: no_outer_space_def list_all_iff)
  moreover have "strip_while_prefix (map rev white_space) (rev v) = rev v"
    using v by (intro strip_while_prefix_none) (auto simp: no_outer_space_def list_all_iff suffix_to_prefix)
  ultimately show ?thesis by (simp add: trim_def)
qed

lemma no_outer_space_line:
  assumes "no_outer_space v" and "key \<noteq> []"
    and "hd key \<in> {CHR ''N'', CHR ''E'', CHR ''T'', CHR ''A'', CHR ''['', CHR '']''}"
  shows "no_outer_space (key @ ''='' @ v)"
proof -
  have "\<not> prefix w (key @ ''='' @ v) \<and> \<not> suffix w (key @ ''='' @ v)" if w: "w \<in> set white_space" for w
  proof
    show "\<not> prefix w (key @ ''='' @ v)"
      using white_space_chars [OF w] assms(2,3) by (cases w; cases key) auto
    show "\<not> suffix w (key @ ''='' @ v)"
    proof
      assume s: "suffix w (key @ ''='' @ v)"
      show False
      proof (cases "length w \<le> length v")
        case True
        have "suffix v (key @ ''='' @ v)" using suffix_appendI [OF suffix_order.refl, of v "key @ ''=''"] by simp
        then have "suffix w v" by (rule suffix_length_suffix [OF s _ True])
        then show False using assms(1) w by (auto simp: no_outer_space_def list_all_iff)
      next
        case False
        have "suffix (''='' @ v) (key @ ''='' @ v)" by (simp add: suffix_def)
        from this s have "suffix (''='' @ v) w" by (rule suffix_length_suffix) (use False in simp)
        then show False using white_space_chars [OF w] by (auto simp: suffix_def)
      qed
    qed
  qed
  then show ?thesis by (simp add: no_outer_space_def list_all_iff)
qed

lemma utf8_chunk_Cons: "ch \<in> set (utf8_chars v) \<Longrightarrow> ch \<noteq> []"
  by (induction v rule: utf8_chars.induct) (auto simp: utf8_chars.simps(2))

lemma utf8_chunk_ascii: "ch \<in> set (utf8_chars v) \<Longrightarrow> of_char (hd ch) < (0x80 :: nat) \<Longrightarrow> ch = [hd ch]"
proof (induction v rule: utf8_chars.induct)
  case (2 c cs)
  then show ?case
  proof (cases "ch = take (utf8_width c) (c # cs)")
    case True
    then have "hd ch = c" by (simp add: utf8_chunk_Cons hd_take)
    with 2(3) have "utf8_width c = 1" by (simp add: utf8_width_def)
    then show ?thesis using True by simp
  qed (auto simp: utf8_chars.simps(2))
qed simp

lemma escape_value_no_newline:
  assumes "valid_utf8 v"
  shows "NEWLINE \<notin> set (escape_value v)" and "escape_value v \<noteq> [] \<Longrightarrow> last (escape_value v) \<noteq> RETURN"
proof -
  have tl: "b \<noteq> NEWLINE \<and> b \<noteq> RETURN" if "ch \<in> set (utf8_chars v)" "b \<in> set (tl ch)" for b ch
    using assms that by (fastforce simp: valid_utf8_def list_all_iff NEWLINE_def RETURN_def)
  have chunk: "b \<noteq> NEWLINE \<and> b \<noteq> RETURN" if "ch \<in> set (utf8_chars v)" "b \<in> set (escape_char ch)" for b ch
  proof (cases "ch \<in> {[CHR 0x5C], [NEWLINE], [TAB], [RETURN], '' ''}")
    case True
    then show ?thesis using that(2) by (auto simp: escape_char_def NEWLINE_def RETURN_def TAB_def)
  next
    case False
    have "ch \<noteq> []" using that(1) by (rule utf8_chunk_Cons)
    then obtain d ds where ch: "ch = d # ds" by (cases ch) auto
    have "d \<noteq> NEWLINE \<and> d \<noteq> RETURN"
      using utf8_chunk_ascii [OF that(1)] ch False by (auto simp: NEWLINE_def RETURN_def)
    moreover have "x \<noteq> NEWLINE \<and> x \<noteq> RETURN" if "x \<in> set ds" for x
      using tl [OF \<open>ch \<in> set (utf8_chars v)\<close>, of x] that ch by simp
    moreover have "b \<in> set ch" using that(2) False by (simp add: escape_char_def)
    ultimately show ?thesis using ch by auto
  qed
  have all: "b \<noteq> NEWLINE \<and> b \<noteq> RETURN" if "b \<in> set (escape_value v)" for b
    using that chunk by (auto simp: escape_value_def)
  show "NEWLINE \<notin> set (escape_value v)" using all by blast
  show "last (escape_value v) \<noteq> RETURN" if "escape_value v \<noteq> []" using all that last_in_set by blast
qed

lemma split_on_first: "c \<notin> set a \<Longrightarrow> split_on c (a @ c # b) = a # split_on c b"
  by (induction a) (auto split: list.split)

lemma str_lines_step:
  assumes "NEWLINE \<notin> set a" and "a = [] \<or> last a \<noteq> RETURN"
  shows "str_lines (a @ NEWLINE # b) = a # str_lines b"
proof -
  have "split_on NEWLINE b \<noteq> []" by (cases b) (auto split: list.split)
  then show ?thesis using assms by (auto simp: str_lines_def Let_def split_on_first strip_return_def)
qed

lemma str_lines_Nil [simp]: "str_lines [] = []"
  by (simp add: str_lines_def)

lemma split_once_line: "c \<notin> set a \<Longrightarrow> split_once c (a @ c # b) = Some (a, b)"
  by (induction a) (auto simp: split_once_def split: list.splits)

lemma load_field_line:
  assumes "no_outer_space v" and "hd key \<in> {CHR ''N'', CHR ''E'', CHR ''T''}" and "no_outer_space key"
    and "CHR ''='' \<notin> set key" and "key \<noteq> []"
  shows "load_lines True True entry ((key @ ''='' @ v) # rest) =
    load_lines True True (add_field key (unescape_desktop_value v) entry) rest"
proof -
  have "trim (key @ ''='' @ v) = key @ ''='' @ v"
    using assms by (intro trim_same no_outer_space_line) auto
  moreover have "split_once (CHR ''='') (key @ ''='' @ v) = Some (key, v)"
    using split_once_line [OF assms(4), of v] by simp
  moreover have "take 1 (key @ ''='' @ v) \<noteq> ''#''" "take 1 (key @ ''='' @ v) \<noteq> ''[''"
    using assms(2,5) by (cases key; auto)+
  ultimately show ?thesis
    using assms(5) by (simp add: Let_def trim_same [OF assms(1)] trim_same [OF assms(3)] del: take_Suc_Cons)
qed

lemma no_outer_spaceI:
  assumes "v \<noteq> []" and "hd v \<in> {CHR ''N'', CHR ''E'', CHR ''T'', CHR ''A'', CHR ''[''}"
    and "last v \<in> {CHR ''e'', CHR ''n'', CHR ''c'', CHR '']''}"
  shows "no_outer_space v"
proof -
  have "\<not> prefix w v \<and> \<not> suffix w v" if w: "w \<in> set white_space" for w
  proof -
    have "w \<noteq> []" "hd w \<noteq> hd v" "last w \<noteq> last v" using white_space_chars [OF w] assms(2,3) by auto
    then show ?thesis by (auto simp: prefix_def suffix_def)
  qed
  then show ?thesis by (simp add: no_outer_space_def list_all_iff)
qed

lemma load_launcher:
  assumes "valid_utf8 name" and "valid_utf8 exec" and "no_outer_space (escape_value name)"
    and "no_outer_space (escape_value exec)" and "file_text env path = Some (launcher name exec)"
  shows "load env path = Inr (Some \<lparr>
    entry_fields = [''Type'' \<mapsto> ''Application'', ''Name'' \<mapsto> name, ''Exec'' \<mapsto> exec], localized_names = Map.empty\<rparr>)"
proof -
  have line: "NEWLINE \<notin> set (key @ escape_value v) \<and> (key @ escape_value v = [] \<or> last (key @ escape_value v) \<noteq> RETURN)"
    if "valid_utf8 v" "NEWLINE \<notin> set key" "key \<noteq> []" "last key \<noteq> RETURN" for key v
    using escape_value_no_newline [OF that(1)] that(2-4) by (cases "escape_value v = []") auto
  have keys: "no_outer_space ''Type''" "no_outer_space ''Name''" "no_outer_space ''Exec''"
      "no_outer_space ''Application''" "no_outer_space ''[Desktop Entry]''"
    by (intro no_outer_spaceI; simp)+
  have ls: "str_lines (launcher name exec) =
      [''[Desktop Entry]'', ''Type'' @ ''='' @ ''Application'', ''Name'' @ ''='' @ escape_value name, ''Exec'' @ ''='' @ escape_value exec]"
    using line [OF assms(1), of "''Name=''"] line [OF assms(2), of "''Exec=''"]
      str_lines_step [of "''[Desktop Entry]''"] str_lines_step [of "''Type=Application''"]
      str_lines_step [of "''Name='' @ escape_value name"] str_lines_step [of "''Exec='' @ escape_value exec" "[]"]
    by (simp add: launcher_def NEWLINE_def RETURN_def)
  have names: "add_field ''Type'' v e = e\<lparr>entry_fields := (entry_fields e)(''Type'' \<mapsto> v)\<rparr>"
      "add_field ''Name'' v e = e\<lparr>entry_fields := (entry_fields e)(''Name'' \<mapsto> v)\<rparr>"
      "add_field ''Exec'' v e = e\<lparr>entry_fields := (entry_fields e)(''Exec'' \<mapsto> v)\<rparr>" for v e
    by (simp_all add: add_field_def strip_prefix_def)
  have app: "unescape_desktop_value ''Application'' = ''Application''"
    by (simp add: unescape_desktop_value_def utf8_chars_ascii)
  have steps: "load_lines True True e ((''Type'' @ ''='' @ ''Application'') # rest) =
        load_lines True True (add_field ''Type'' (unescape_desktop_value ''Application'') e) rest"
      "load_lines True True e ((''Name'' @ ''='' @ escape_value name) # rest) =
        load_lines True True (add_field ''Name'' (unescape_desktop_value (escape_value name)) e) rest"
      "load_lines True True e ((''Exec'' @ ''='' @ escape_value exec) # rest) =
        load_lines True True (add_field ''Exec'' (unescape_desktop_value (escape_value exec)) e) rest" for e rest
    by (rule load_field_line; use keys assms(3,4) in simp)+
  have "load_lines False False desktop_entry_default (str_lines (launcher name exec)) =
      load_lines True True desktop_entry_default (tl (str_lines (launcher name exec)))"
    unfolding ls by (simp add: Let_def trim_same [OF keys(5)] del: append_Cons)
  also have "\<dots> = (True, \<lparr>entry_fields = [''Type'' \<mapsto> ''Application'', ''Name'' \<mapsto> name, ''Exec'' \<mapsto> exec],
      localized_names = Map.empty\<rparr>)"
    unfolding ls list.sel steps by (simp add: names app unescape_escape_value desktop_entry_default_def)
  finally show ?thesis using assms(5) by (simp add: load_def)
qed

section \<open>Icons\<close>

lemma add_i32_bound: "add_i32 a b = Inr s \<Longrightarrow> - (2 ^ 31) \<le> s"
  by (auto simp: add_i32_def split: if_splits)

lemma add_i32_fails: "add_i32 a b = Inl e \<Longrightarrow> e = Panic"
  by (auto simp: add_i32_def split: if_splits)

lemma add_sizes_result:
  "- (2 ^ 31) \<le> a \<Longrightarrow> (add_sizes a cs = Inr s \<longrightarrow> - (2 ^ 31) \<le> s) \<and> (add_sizes a cs = Inl e \<longrightarrow> e = Panic)"
proof (induction cs arbitrary: a)
  case (Cons c cs)
  then show ?case
  proof (cases "component_size c")
    case (Some n)
    then show ?thesis using Cons.IH add_i32_bound add_i32_fails by (cases "add_i32 a n") auto
  qed simp
qed simp

lemma score_icon_path_result:
  "(score_icon_path p = Inr s \<longrightarrow> - (2 ^ 31) \<le> s) \<and> (score_icon_path p = Inl e \<longrightarrow> e = Panic)"
  unfolding score_icon_path_def by (rule add_sizes_result) simp

definition scores_below :: "int \<Rightarrow> string list \<Rightarrow> bool" where
  "scores_below s ps \<longleftrightarrow> list_all (\<lambda>q. case score_icon_path q of Inr t \<Rightarrow> t < s | Inl _ \<Rightarrow> False) ps"

lemma scores_below_simps [simp]:
  "scores_below s []" "score_icon_path p = Inr t \<Longrightarrow> scores_below s (p # ps) \<longleftrightarrow> t < s \<and> scores_below s ps"
  by (simp_all add: scores_below_def)

lemma scores_below_mono: "scores_below s ps \<Longrightarrow> s \<le> t \<Longrightarrow> scores_below t ps"
  by (fastforce simp: scores_below_def list_all_iff split: sum.splits)

text \<open>What the scan keeps: the first of the best, or the best so far when none is better.\<close>

definition best_of :: "int \<Rightarrow> string option \<Rightarrow> string list \<Rightarrow> string option \<Rightarrow> bool" where
  "best_of b best ps r \<longleftrightarrow>
     r = best \<and> scores_below (b + 1) ps \<or>
     (\<exists>before p after s. ps = before @ p # after \<and> r = Some p \<and> score_icon_path p = Inr s \<and> b < s \<and>
        scores_below s before \<and> scores_below (s + 1) after)"

lemma best_of_cases [consumes 1, case_names none some]:
  assumes "best_of b best ps r"
  obtains "r = best" "scores_below (b + 1) ps"
  | before p after s where "ps = before @ p # after" "r = Some p" "score_icon_path p = Inr s" "b < s"
      "scores_below s before" "scores_below (s + 1) after"
  using assms unfolding best_of_def by blast

lemma best_ofI:
  "score_icon_path p = Inr s \<Longrightarrow> b < s \<Longrightarrow> scores_below s before \<Longrightarrow> scores_below (s + 1) after \<Longrightarrow>
   best_of b best (before @ p # after) (Some p)"
  unfolding best_of_def by blast

lemma best_of_take:
  assumes "best_of s (Some p) ps r" and "score_icon_path p = Inr s" and "b < s"
  shows "best_of b best (p # ps) r"
  using assms(1)
proof (cases rule: best_of_cases)
  case none
  then show ?thesis using best_ofI [of p s b "[]" ps best] assms by simp
next
  case (some before q after t)
  then show ?thesis using best_ofI [of q t b "p # before" after best] assms by simp
qed

lemma best_of_skip:
  assumes "best_of b best ps r" and "score_icon_path p = Inr s" and "s \<le> b"
  shows "best_of b best (p # ps) r"
  using assms(1)
proof (cases rule: best_of_cases)
  case none
  then show ?thesis using assms by (simp add: best_of_def)
next
  case (some before q after t)
  then show ?thesis using best_ofI [of q t b "p # before" after best] assms by simp
qed

lemma best_icon_outcome:
  "case best_icon b best ps of
     Inl e \<Rightarrow> e = Panic \<and> (\<exists>p \<in> set ps. score_icon_path p = Inl Panic)
   | Inr r \<Rightarrow> best_of b best ps r"
proof (induction ps arbitrary: b best)
  case (Cons p ps)
  show ?case
  proof (cases "score_icon_path p")
    case (Inl e)
    then show ?thesis using score_icon_path_result by auto
  next
    case p: (Inr s)
    then show ?thesis
      using Cons.IH [of s "Some p"] Cons.IH [of b best] best_of_take [OF _ p] best_of_skip [OF _ p]
      by (cases "b < s") (auto split: sum.splits)
  qed
qed (simp add: best_of_def)

section \<open>Duplicates\<close>

fun keep_first :: "(string \<times> string) set \<Rightarrow> application_config list \<Rightarrow> application_config list" where
  "keep_first seen [] = []"
| "keep_first seen (a # as) =
     (if dedupe_key a \<in> seen then keep_first seen as else a # keep_first (insert (dedupe_key a) seen) as)"

lemma fold_insert_unique:
  "fold insert_unique as (apps, seen) = (apps @ keep_first seen as, seen \<union> dedupe_key ` set as)"
proof (induction as arbitrary: apps seen)
  case (Cons a as)
  then show ?case by (auto simp: insert_unique_def)
qed simp

text \<open>The applications at the positions where their key occurs for the first time.\<close>

definition first_occurrences :: "application_config list \<Rightarrow> application_config list" where
  "first_occurrences as =
     map (\<lambda>i. as ! i) (filter (\<lambda>i. dedupe_key (as ! i) \<notin> dedupe_key ` set (take i as)) [0..<length as])"

lemma keep_first_append:
  "keep_first seen (as @ bs) = keep_first seen as @ keep_first (seen \<union> dedupe_key ` set as) bs"
  by (induction as arbitrary: seen) (auto simp: insert_absorb)

lemma first_occurrences_keep_first: "first_occurrences as = keep_first {} as"
proof (induction as rule: rev_induct)
  case (snoc a as)
  have "filter (\<lambda>i. dedupe_key ((as @ [a]) ! i) \<notin> dedupe_key ` set (take i (as @ [a]))) [0..<length as] =
      filter (\<lambda>i. dedupe_key (as ! i) \<notin> dedupe_key ` set (take i as)) [0..<length as]"
    by (rule filter_cong) (auto simp: nth_append)
  then have "first_occurrences (as @ [a]) =
      first_occurrences as @ (if dedupe_key a \<in> dedupe_key ` set as then [] else [a])"
    by (auto simp: first_occurrences_def nth_append)
  then show ?case using snoc by (simp add: keep_first_append)
qed (simp add: first_occurrences_def)

text \<open>Everything the scanners find, in order; a scanner that fails finds nothing.\<close>

fun found_by :: "stores \<Rightarrow> fs_env \<Rightarrow> application_scanner list \<Rightarrow> application_config list res" where
  "found_by st env [] = Inr []"
| "found_by st env (s # ss) =
     (case scan_one st env s of
        Inl Panic \<Rightarrow> Inl Panic
      | Inl Err \<Rightarrow> found_by st env ss
      | Inr found \<Rightarrow> rbind (found_by st env ss) (\<lambda>more. Inr (found @ more)))"

lemma scan_all_found_by:
  "scan_all st env (apps, seen) ss =
     rbind (found_by st env ss) (\<lambda>found. Inr (apps @ keep_first seen found, seen \<union> dedupe_key ` set found))"
proof (induction ss arbitrary: apps seen)
  case (Cons s ss)
  show ?case
  proof (cases "scan_one st env s")
    case (Inl e)
    then show ?thesis using Cons.IH by (cases e) simp_all
  next
    case (Inr found)
    then show ?thesis using Cons.IH
      by (cases "found_by st env ss") (simp_all add: fold_insert_unique keep_first_append Un_assoc image_Un)
  qed
qed simp

section \<open>Heroic games\<close>

text \<open>Whether a game is listed, read directly from its library entry and the manifest of its store.\<close>

definition listed :: "stores \<Rightarrow> fs_env \<Rightarrow> string \<Rightarrow> heroic_game \<Rightarrow> bool" where
  "listed st env dir game \<longleftrightarrow>
     (let entry = read_installed st env (installed_manifest dir (runner_of game)) (app_name game)
      in (is_installed game \<or> entry \<noteq> None) \<and> \<not> install_is_dlc game \<and> entry \<noteq> Some True)"

definition library_games :: "stores \<Rightarrow> fs_env \<Rightarrow> string \<Rightarrow> heroic_game list" where
  "library_games st env path = (case read_library st env path of Inr games \<Rightarrow> games | Inl _ \<Rightarrow> [])"

definition manifests_ok :: "stores \<Rightarrow> fs_env \<Rightarrow> string \<Rightarrow> manifests \<Rightarrow> bool" where
  "manifests_ok st env dir ms \<longleftrightarrow>
     (\<forall>runner m. ms runner = Some m \<longrightarrow> m = read_installed st env (installed_manifest dir runner))"

lemma load_manifest_ok:
  assumes "manifests_ok st env dir ms"
  shows "manifests_ok st env dir (load_manifest st env dir runner ms)"
    and "load_manifest st env dir runner ms runner = Some (read_installed st env (installed_manifest dir runner))"
  using assms by (auto simp: load_manifest_def manifests_ok_def)

lemma scan_game_listed:
  assumes "manifests_ok st env dir ms"
  shows "\<exists>ms'. manifests_ok st env dir ms' \<and> scan_game st env config dir game (ms, apps) =
    (ms', apps @ (if listed st env dir game then [heroic_application st env config dir game] else []))"
  using load_manifest_ok [OF assms, of "runner_of game"]
  by (auto simp: scan_game_def listed_def Let_def)

lemma fold_scan_game:
  "manifests_ok st env dir ms \<Longrightarrow>
   \<exists>ms'. manifests_ok st env dir ms' \<and> fold (scan_game st env config dir) games (ms, apps) =
     (ms', apps @ map (heroic_application st env config dir) (filter (listed st env dir) games))"
proof (induction games arbitrary: ms apps)
  case (Cons g games)
  obtain ms' where "manifests_ok st env dir ms'" "scan_game st env config dir g (ms, apps) =
      (ms', apps @ (if listed st env dir g then [heroic_application st env config dir g] else []))"
    using scan_game_listed [OF Cons.prems] by blast
  moreover from Cons.IH [OF this(1)] obtain ms'' where "manifests_ok st env dir ms''"
    "fold (scan_game st env config dir) games (ms', apps @ (if listed st env dir g then [heroic_application st env config dir g] else [])) =
      (ms'', (apps @ (if listed st env dir g then [heroic_application st env config dir g] else [])) @
        map (heroic_application st env config dir) (filter (listed st env dir) games))" by blast
  ultimately show ?case by (intro exI [of _ ms'']) simp
qed simp

lemma fold_scan_library:
  "manifests_ok st env dir ms \<Longrightarrow>
   \<exists>ms'. manifests_ok st env dir ms' \<and> fold (scan_library st env config dir) paths (ms, apps) =
     (ms', apps @ map (heroic_application st env config dir)
        (filter (listed st env dir) (concat (map (library_games st env) paths))))"
proof (induction paths arbitrary: ms apps)
  case (Cons p paths)
  obtain ms' where "manifests_ok st env dir ms'" "scan_library st env config dir p (ms, apps) =
      (ms', apps @ map (heroic_application st env config dir) (filter (listed st env dir) (library_games st env p)))"
    using fold_scan_game [OF Cons.prems, of config "library_games st env p" apps] Cons.prems
    by (cases "read_library st env p") (auto simp: scan_library_def library_games_def)
  moreover from Cons.IH [OF this(1)] obtain ms'' where "manifests_ok st env dir ms''"
    "fold (scan_library st env config dir) paths
       (ms', apps @ map (heroic_application st env config dir) (filter (listed st env dir) (library_games st env p))) =
      (ms'', (apps @ map (heroic_application st env config dir) (filter (listed st env dir) (library_games st env p))) @
        map (heroic_application st env config dir)
          (filter (listed st env dir) (concat (map (library_games st env) paths))))" by blast
  ultimately show ?case by (intro exI [of _ ms'']) simp
qed simp

lemma find_SomeD: "find P xs = Some x \<Longrightarrow> P x \<and> x \<in> set xs"
  by (auto simp: find_Some_iff)

lemma valid_name_file:
  assumes "is_valid_app_name name" and "ext \<in> {''jpg'', ''png''}"
  shows "CHR ''/'' \<notin> set (name @ ''.'' @ ext)" and "name @ ''.'' @ ext \<noteq> ''..''"
  using assms by (auto simp: is_valid_app_name_def list_all_iff is_ascii_alphanumeric_def)

section \<open>Correctness\<close>

text \<open>
  C38. A launcher that consists of a name and a command line, with the escapes of the desktop entry specification, is
  listed with exactly that name and with the words its command line stands for: the escapes of the values are read
  back, doubled percent signs become single ones, the code c becomes the name and k the path of the launcher, and the
  other field codes vanish. What the code adds to the specification is part of the statement: a word that stands for
  nothing is dropped, also one that was written as an empty argument (desktop.rs:298-300), and a launcher of which no
  word remains is not listed. Written values may not begin or end in white space, which the file format cannot carry,
  and the words are those shlex finds or, when it refuses the command line, the hand-written splitter.
\<close>

theorem launcher_roundtrip:
  assumes "valid_utf8 name" and "valid_utf8 exec" and "no_outer_space (escape_value name)"
    and "no_outer_space (escape_value exec)" and "trim exec \<noteq> []"
    and "file_text env path = Some (launcher name exec)"
    and "(case shlex (trim exec) of Some ts \<Rightarrow> Some ts | None \<Rightarrow> split_exec_fallback (trim exec)) =
      Some (map write_word ws)"
    and "list_all (list_all item_ok) ws"
    and "args = filter (\<lambda>w. w \<noteq> []) (map (word_meaning name path) ws)"
  shows "parse_desktop_application shlex env config path resolver = Inr (resolver,
    if args = [] then None
    else Some \<lparr>title = name, boxart = None, command = args, pre_command = ds_pre_command config,
      post_command = ds_post_command config, app_stdout = ds_stdout config, app_stderr = ds_stderr config,
      launch_timeout_secs = ds_launch_timeout config\<rparr>)"
proof -
  let ?e = "\<lparr>entry_fields = [''Type'' \<mapsto> ''Application'', ''Name'' \<mapsto> name, ''Exec'' \<mapsto> exec], localized_names = Map.empty\<rparr>"
  have entry: "usable_icon ?e = None" "entry_name env ?e = Some name"
    by (simp_all add: usable_icon_def entry_name_def)
  have tokens: "concat (map (expand_token env ?e path) (map write_word ws)) =
      filter (\<lambda>w. w \<noteq> []) (map (word_meaning name path) ws)" if "list_all (list_all item_ok) ws" for ws
    using that by (induction ws) (simp_all add: expand_word_token [OF entry(2,1)])
  have "parse_exec_command shlex env ?e path = (if args = [] then None else Some args)"
    using assms(5,7) tokens [OF assms(8)] unfolding assms(9)
    by (simp add: parse_exec_command_def Let_def del: map_map concat_eq_Nil_conv filter_empty_conv)
  then show ?thesis
    using load_launcher [OF assms(1-4) assms(6)] entry
    by (simp add: parse_desktop_application_def is_application_def is_hidden_def is_no_display_def is_terminal_def
        boolean_field_def resolve_icon_def del: filter_empty_conv)
qed

text \<open>
  C35. The search for an icon returns the first of the matching images with the largest score and none when there is
  no matching image that scores above the smallest \<open>i32\<close>; it panics only when the score of a matching image
  overflows, which a directory name like \<open>2147483647x2147483647\<close> under \<open>hicolor\<close> makes it do.
\<close>

theorem find_icon_is_best:
  "let images = filter (icon_matches env icon) (concat (map (files_under env) (filter (path_exists env) roots)))
   in (case find_icon_by_name env roots icon of
         Inl e \<Rightarrow> e = Panic \<and> (\<exists>p. p \<in> set images \<and> score_icon_path p = Inl Panic)
       | Inr r \<Rightarrow> best_of (- (2 ^ 31)) None images r) \<and>
      score_icon_path ''/hicolor/2147483647x2147483647/apps'' = Inl Panic"
proof -
  have "score_icon_path ''/hicolor/2147483647x2147483647/apps'' = Inl Panic"
    by (simp add: score_icon_path_def contains_str_def path_components_def is_absolute_def component_size_def
        split_once_def parse_i32_def parse_unsigned_def digits_value_def digit_step_def digit_value_def add_i32_def
        sublist_Cons_right Let_def)
  then show ?thesis
    using best_icon_outcome [where b = "- (2 ^ 31)" and best = None and
        ps = "filter (icon_matches env icon) (concat (map (files_under env) (filter (path_exists env) roots)))"]
    unfolding find_icon_by_name_def [symmetric] by (auto simp: Let_def split: sum.splits)
qed

text \<open>
  C39. The list of scanned applications is what all the scanners find, in order, each application at the first place
  its title (up to case and outer space) and command occur; a scanner that fails leaves the others untouched.
\<close>

theorem scan_applications_first_occurrences:
  "scan_applications st env scanners = rbind (found_by st env scanners) (\<lambda>found. Inr (first_occurrences found))"
  by (cases "found_by st env scanners")
    (simp_all add: scan_applications_def scan_all_found_by first_occurrences_keep_first)

text \<open>
  Reading each store's manifest once does not change what is listed: the games installed according to their
  library entry or the manifest, without those either of them calls a DLC, in the order of the libraries.
\<close>

theorem heroic_scan_exact:
  "scan_heroic_applications st env config =
     (case shell_full env (gs_path config) of
        None \<Rightarrow> Inl Err
      | Some dir \<Rightarrow> Inr (if \<not> path_exists env dir then [] else
          map (heroic_application st env config dir)
            (filter (listed st env dir) (concat (map (library_games st env) (find_libraries env dir))))))"
proof (cases "shell_full env (gs_path config)")
  case (Some dir)
  have "manifests_ok st env dir Map.empty" by (simp add: manifests_ok_def)
  from fold_scan_library [OF this, of config "find_libraries env dir" "[]"] show ?thesis
    using Some by (auto simp: scan_heroic_applications_def)
qed (simp add: scan_heroic_applications_def)

text \<open>
  The box art of a Heroic game exists and lies directly in the directory of cached images or of icons, whatever
  the library says its name is: no name leads out of them.
\<close>

theorem heroic_boxart_confined:
  assumes "\<And>url. list_all is_ascii_alphanumeric (sha256_hex st url)"
    and "find_boxart st env dir game = Some p"
  shows "path_exists env p \<and> (\<exists>sub name. sub \<in> {''images-cache'', ''icons''} \<and> p = path_join (path_join dir sub) name \<and>
    CHR ''/'' \<notin> set name \<and> name \<noteq> ''..'')"
proof -
  have hex: "CHR ''/'' \<notin> set (sha256_hex st url)" "sha256_hex st url \<noteq> ''..''" for url
    using assms(1) [of url] by (auto simp: list_all_iff is_ascii_alphanumeric_def)
  show ?thesis
  proof (cases "\<exists>url. path_exists env p \<and> p = path_join (path_join dir ''images-cache'') (sha256_hex st url)")
    case True
    then show ?thesis using hex by blast
  next
    case False
    then have "is_valid_app_name (app_name game)" and "path_exists env p"
      and "\<exists>ext. ext \<in> {''jpg'', ''png''} \<and> p = path_join (path_join dir ''icons'') (app_name game @ ''.'' @ ext)"
      using assms(2) by (auto simp: find_boxart_def Let_def split: option.splits if_splits dest!: find_SomeD)
    then show ?thesis using valid_name_file by blast
  qed
qed

section \<open>Concrete inputs\<close>

definition sample_exec :: string where
  "sample_exec = ''App \"\" %U --rate=100%%/%c''"

definition sample_fs :: fs_env where
  "sample_fs = \<lparr>path_exists = (\<lambda>p. p = ''/h/icons/Quail.png''), path_is_file = (\<lambda>_. False),
     file_text = (\<lambda>_. Some (launcher ''Time Zone'' sample_exec)), walk_dir = (\<lambda>_. []),
     read_dir = (\<lambda>_. None), env_var = (\<lambda>_. None), shell_full = Some, home_dir = None, config_dir = None,
     data_dir = None\<rparr>"

definition sample_desktop_scanner :: desktop_scanner where
  "sample_desktop_scanner = \<lparr>ds_directories = [], ds_include_terminal = False, ds_resolve_icons = True,
     ds_pre_command = [], ds_post_command = [], ds_stdout = None, ds_stderr = None, ds_launch_timeout = 2\<rparr>"

definition sample_stores :: stores where
  "sample_stores = \<lparr>shlex_split = (\<lambda>_. None), steam_dir = (\<lambda>_. None), lutris_games = (\<lambda>_. None),
     heroic_library = (\<lambda>_. None), heroic_installed = (\<lambda>_. None), sha256_hex = (\<lambda>_. ''00ff'')\<rparr>"

definition sample_game :: heroic_game where
  "sample_game = \<lparr>app_name = ''Quail'', game_title = ''Quail'', game_runner = None, is_installed = True,
     install_is_dlc = False, art_square = None, art_cover = None\<rparr>"

lemma launcher_roundtrip_witness:
  "parse_desktop_application (\<lambda>_. Some [''App'', [], ''%U'', ''--rate=100%%/%c''] ) sample_fs sample_desktop_scanner ''/t.desktop''
     (icon_resolver_new sample_fs True) = Inr (icon_resolver_new sample_fs True,
     Some \<lparr>title = ''Time Zone'', boxart = None, command = [''App'', ''--rate=100%/Time Zone''], pre_command = [],
       post_command = [], app_stdout = None, app_stderr = None, launch_timeout_secs = 2\<rparr>)"
proof -
  let ?name = "''Time Zone''" and ?exec = "sample_exec"
  let ?ws = "[[Literal ''App''], [], [Field_Code CHR ''U''], [Literal ''--rate=100%/'', Field_Code CHR ''c'']]"
  have words: "[''App'', [], ''%U'', ''--rate=100%%/%c''] = map write_word ?ws"
    by (simp add: write_word_def double_percent_def utf8_chars_ascii)
  have args: "filter (\<lambda>w. w \<noteq> []) (map (word_meaning ?name ''/t.desktop'') ?ws) = [''App'', ''--rate=100%/Time Zone'']"
    by (simp add: word_meaning_def)
  have trimmed: "trim ?exec = ?exec"
    by (intro trim_same no_outer_spaceI) (simp_all add: sample_exec_def)
  have "no_outer_space (escape_value ?name)" "no_outer_space (escape_value ?exec)"
    by (rule no_outer_spaceI; simp add: sample_exec_def escape_value_def utf8_chars_ascii escape_char_def NEWLINE_def TAB_def RETURN_def)+
  moreover have "valid_utf8 ?name" "valid_utf8 ?exec" "list_all (list_all item_ok) ?ws"
    by (simp_all add: valid_utf8_def complete_utf8_def utf8_chars_ascii utf8_width_def sample_exec_def)
  ultimately show ?thesis
    using launcher_roundtrip [of ?name ?exec sample_fs "''/t.desktop''" "\<lambda>_. Some (map write_word ?ws)" ?ws _
        sample_desktop_scanner "icon_resolver_new sample_fs True", OF _ _ _ _ _ _ _ _ refl] words
    unfolding args trimmed
    by (simp add: sample_fs_def sample_desktop_scanner_def del: List.list.map) (simp add: sample_exec_def)
qed

lemma heroic_boxart_confined_witness:
  "find_boxart sample_stores sample_fs ''/h'' sample_game = Some ''/h/icons/Quail.png'' \<and>
   (\<exists>sub name. sub \<in> {''images-cache'', ''icons''} \<and> ''/h/icons/Quail.png'' = path_join (path_join ''/h'' sub) name \<and>
      CHR ''/'' \<notin> set name \<and> name \<noteq> ''..'')"
proof -
  have "list_all is_ascii_alphanumeric (sha256_hex sample_stores url)" for url
    by (simp add: sample_stores_def is_ascii_alphanumeric_def)
  moreover have found: "find_boxart sample_stores sample_fs ''/h'' sample_game = Some ''/h/icons/Quail.png''"
    by (simp add: find_boxart_def sample_game_def sample_fs_def sample_stores_def art_urls_def map_filter_def
        path_join_def is_absolute_def is_valid_app_name_def is_ascii_alphanumeric_def)
  ultimately show ?thesis using heroic_boxart_confined [of sample_stores sample_fs "''/h''" sample_game] by blast
qed

end
