(* ===== verification/App_Unit.thy ===== *)
theory App_Unit
  imports Paths Session_Manager
begin

text \<open>
  The application as a transient systemd unit (\<open>session/application.rs\<close>): the unit's properties and environment,
  the calls on the session bus in their order, the waits for the signals of systemd, and the monitor that stops
  the session when the unit ends. What the bus answers is a record of replies per call and a list of signals
  per subscription; a list that ends stands for the time limit of the wait, or for a wait that is still on.
\<close>

section \<open>The bus\<close>

datatype dbus_value =
    V_Str string
  | V_Strs "string list"
  | V_U64 u64
  | V_Exec "(string \<times> string list \<times> bool) list"

datatype bus_action =
    Bus_Connect
  | Bus_Subscribe
  | Watch_Jobs
  | Watch_Units
  | Watch_State string
  | Stop_Unit string
  | Start_Transient_Unit string "(string \<times> dbus_value) list"
  | Get_Unit string
  | Get_State string
  | Spawn_Monitor string string

text \<open>A \<open>JobRemoved\<close> signal: job path, unit and result; \<open>None\<close> is one that cannot be decoded.\<close>

type_synonym job_removed = "(string \<times> string \<times> string) option"

text \<open>What the stream of \<open>PropertiesChanged\<close> signals yields: its end or an error, a signal that cannot be decoded,
  or the interface and the \<open>ActiveState\<close> among the changed properties, when it is a string.\<close>

datatype state_signal = Stream_Broken | Undecodable | Changed string "string option"

text \<open>The reply to a query of the state: the call fails, the body cannot be decoded, a string, another value.\<close>

datatype state_reply = Call_Failed | Bad_Body | State_Str string | State_Other

record stop_replies =
  sr_proxy :: bool
  sr_watch_jobs :: bool
  sr_watch_units :: bool
  sr_call :: "string option option"
  sr_jobs :: "job_removed list"
  sr_units :: "string option list"


definition UNIT_INTERFACE :: string where
  "UNIT_INTERFACE = ''org.freedesktop.systemd1.Unit''"

definition terminal_state :: "string \<Rightarrow> string option" where
  "terminal_state state =
     (if state = ''inactive'' then Some ''inactive'' else if state = ''failed'' then Some ''failed'' else None)"

definition current_unit_state :: "state_reply \<Rightarrow> string res" where
  "current_unit_state reply =
     (case reply of Call_Failed \<Rightarrow> Inl Err | Bad_Body \<Rightarrow> Inl Err
      | State_Str s \<Rightarrow> Inr s | State_Other \<Rightarrow> Inr ''unknown'')"

section \<open>The unit\<close>


fun split_prefixes :: "string \<Rightarrow> (string \<times> string) list \<Rightarrow> string \<times> (string \<times> string) option" where
  "split_prefixes v [] = (v, None)"
| "split_prefixes v ((pre, property) # rest) =
     (case strip_prefix pre v of
        Some path \<Rightarrow> (take (length pre - 1) v, Some (property, path))
      | None \<Rightarrow> split_prefixes v rest)"

definition split_standard_io :: "string option \<Rightarrow> string \<times> (string \<times> string) option" where
  "split_standard_io setting =
     (case setting of
        None \<Rightarrow> (''null'', None)
      | Some v \<Rightarrow> split_prefixes v [(''file:'', ''File''), (''append:'', ''FileToAppend''),
          (''truncate:'', ''FileToTruncate''), (''fd:'', ''FileDescriptorName'')])"






section \<open>Waiting for systemd\<close>

text \<open>The end of the stream and the time limit have the same result.\<close>

fun wait_for_job_signal :: "string \<Rightarrow> job_removed list \<Rightarrow> unit res" where
  "wait_for_job_signal job [] = Inl Err"
| "wait_for_job_signal job (None # signals) = Inl Err"
| "wait_for_job_signal job (Some (path, _, outcome) # signals) =
     (if path \<noteq> job then wait_for_job_signal job signals
      else if outcome = ''done'' then Inr () else Inl Err)"

fun wait_unit_removed :: "string \<Rightarrow> string option list \<Rightarrow> unit res" where
  "wait_unit_removed name [] = Inl Err"
| "wait_unit_removed name (None # signals) = Inl Err"
| "wait_unit_removed name (Some removed # signals) =
     (if removed = name then Inr () else wait_unit_removed name signals)"

definition stop_unit :: "stop_replies \<Rightarrow> string \<Rightarrow> bus_action list \<times> unit res" where
  "stop_unit r name =
     (if \<not> sr_proxy r then ([], Inl Err)
      else if \<not> sr_watch_jobs r then ([Watch_Jobs], Inl Err)
      else if \<not> sr_watch_units r then ([Watch_Jobs, Watch_Units], Inl Err)
      else ([Watch_Jobs, Watch_Units, Stop_Unit name],
        rbind (ok_or (sr_call r)) (\<lambda>reply. rbind (ok_or reply) (\<lambda>job.
        rbind (wait_for_job_signal job (sr_jobs r)) (\<lambda>_. wait_unit_removed name (sr_units r))))))"





section \<open>The exit monitor\<close>

record monitor_replies =
  mr_proxy :: bool
  mr_watch_units :: bool
  mr_watch_state :: bool
  mr_state :: state_reply

text \<open>The two streams in the order in which \<open>select\<close> takes from them: a signal of the unit's state, or of a removed
  unit (the stream ends, a signal that cannot be decoded, or the name).\<close>

datatype monitor_event = State_Event state_signal | Removed_Event "string option option"

fun monitor_loop :: "string \<Rightarrow> monitor_event list \<Rightarrow> string res option" where
  "monitor_loop name [] = None"
| "monitor_loop name (e # es) =
     (case e of
        State_Event Stream_Broken \<Rightarrow> Some (Inl Err)
      | State_Event Undecodable \<Rightarrow> Some (Inl Err)
      | State_Event (Changed interface state) \<Rightarrow>
          if interface \<noteq> UNIT_INTERFACE then monitor_loop name es
          else (case Option.bind state terminal_state of
                  Some s \<Rightarrow> Some (Inr s)
                | None \<Rightarrow> monitor_loop name es)
      | Removed_Event None \<Rightarrow> Some (Inl Err)
      | Removed_Event (Some None) \<Rightarrow> Some (Inl Err)
      | Removed_Event (Some (Some removed)) \<Rightarrow>
          if removed = name then Some (Inr ''removed'') else monitor_loop name es)"

definition wait_for_unit_terminal_state ::
  "monitor_replies \<Rightarrow> string \<Rightarrow> string \<Rightarrow> monitor_event list \<Rightarrow> bus_action list \<times> string res option" where
  "wait_for_unit_terminal_state r name path events =
     (if \<not> mr_proxy r then ([], Some (Inl Err))
      else if \<not> mr_watch_units r then ([Watch_Units], Some (Inl Err))
      else if \<not> mr_watch_state r then ([Watch_Units, Watch_State path], Some (Inl Err))
      else ([Watch_Units, Watch_State path, Get_State path],
        case current_unit_state (mr_state r) of
          Inl _ \<Rightarrow> Some (Inr ''removed'')
        | Inr state \<Rightarrow>
            (case terminal_state state of Some s \<Rightarrow> Some (Inr s) | None \<Rightarrow> monitor_loop name events)))"

text \<open>The task, until the session is stopped by something else: whether it stops the session.\<close>

definition exit_monitor ::
  "monitor_replies \<Rightarrow> string \<Rightarrow> string \<Rightarrow> monitor_event list \<Rightarrow> session_shutdown_reason option" where
  "exit_monitor r name path events =
     (case snd (wait_for_unit_terminal_state r name path events) of
        Some (Inr _) \<Rightarrow> Some ApplicationStopped
      | _ \<Rightarrow> None)"

section \<open>The application\<close>

record application_unit =
  au_unit_name :: string
  au_config :: application_config
  au_exit_monitor :: "(string \<times> string) option"





definition stop_unit_owned :: "bool \<Rightarrow> bool \<Rightarrow> stop_replies \<Rightarrow> string \<Rightarrow> bus_action list \<times> unit res" where
  "stop_unit_owned connect subscribe r name =
     (if \<not> connect then ([Bus_Connect], Inl Err)
      else if \<not> subscribe then ([Bus_Connect, Bus_Subscribe], Inl Err)
      else let (actions, result) = stop_unit r name in ([Bus_Connect, Bus_Subscribe] @ actions, result))"

text \<open>\<open>Drop\<close>: the monitor is aborted, the unit stopped over a connection of its own; a failure is ignored.\<close>

definition application_drop :: "bool \<Rightarrow> bool \<Rightarrow> stop_replies \<Rightarrow> application_unit \<Rightarrow> application_unit \<times> bus_action list" where
  "application_drop connect subscribe r app =
     (app\<lparr>au_exit_monitor := None\<rparr>, fst (stop_unit_owned connect subscribe r (au_unit_name app)))"

section \<open>Lemmas\<close>

definition started :: "bus_action list \<Rightarrow> bool" where
  "started actions \<longleftrightarrow> list_ex (\<lambda>a. case a of Start_Transient_Unit _ _ \<Rightarrow> True | _ \<Rightarrow> False) actions"




lemma started_append [simp]: "started (as @ bs) \<longleftrightarrow> started as \<or> started bs"
  by (simp add: started_def)

lemma started_Cons [simp]:
  "started (a # as) \<longleftrightarrow> (\<exists>n ps. a = Start_Transient_Unit n ps) \<or> started as" "\<not> started []"
  by (auto simp: started_def split: bus_action.splits)






definition clean_event :: "monitor_event \<Rightarrow> bool" where
  "clean_event e \<longleftrightarrow> e \<notin> {State_Event Stream_Broken, State_Event Undecodable, Removed_Event None, Removed_Event (Some None)}"

definition exit_event :: "string \<Rightarrow> monitor_event \<Rightarrow> bool" where
  "exit_event name e \<longleftrightarrow> e = Removed_Event (Some (Some name)) \<or>
     (\<exists>s. e = State_Event (Changed UNIT_INTERFACE (Some s)) \<and> terminal_state s \<noteq> None)"

lemma monitor_loop_clean:
  "list_all clean_event es \<Longrightarrow>
   (if list_ex (exit_event name) es then \<exists>s. monitor_loop name es = Some (Inr s) else monitor_loop name es = None)"
proof (induction es)
  case (Cons e es)
  show ?case
  proof (cases e)
    case (State_Event x)
    then show ?thesis using Cons
      by (cases x) (auto simp: clean_event_def exit_event_def bind_eq_None_conv bind_eq_Some_conv split: option.splits)
  next
    case (Removed_Event x)
    then show ?thesis using Cons by (cases x) (auto simp: clean_event_def exit_event_def split: option.splits)
  qed
qed simp

lemma split_prefixes_result:
  "split_prefixes v table = (kind, rest) \<Longrightarrow>
   list_all (\<lambda>(pre, property). pre \<noteq> [] \<and> last pre = CHR '':'') table \<Longrightarrow>
   (case rest of None \<Rightarrow> kind = v
    | Some (property, path) \<Rightarrow> v = kind @ '':'' @ path \<and> (kind @ '':'', property) \<in> set table)"
proof (induction table)
  case (Cons entry table)
  obtain pre property where e: "entry = (pre, property)" by (cases entry)
  show ?case
  proof (cases "prefix pre v")
    case True
    then obtain path where v: "v = pre @ path" by (auto simp: prefix_def)
    have "pre \<noteq> []" "last pre = CHR '':''" using Cons.prems(2) e by simp_all
    then have k: "pre = butlast pre @ '':''" using append_butlast_last_id [of pre] by simp
    have "split_prefixes v (entry # table) = (butlast pre, Some (property, path))"
      using v by (simp add: e strip_prefix_def butlast_conv_take)
    then have "kind = butlast pre" "rest = Some (property, path)" using Cons.prems(1) by simp_all
    moreover have "v = butlast pre @ '':'' @ path" using v k by (metis append.assoc)
    ultimately show ?thesis using e k by simp
  next
    case False
    then show ?thesis using Cons e by (auto simp: strip_prefix_def split: option.splits)
  qed
qed simp

section \<open>Correctness\<close>

text \<open>
  The setting of an output is split into the two properties the bus wants, and joining them with a colon gives the
  setting back; the property's name belongs to the kind. A setting of no known kind is passed on as it is.
\<close>

theorem standard_io_roundtrip:
  "case split_standard_io (Some v) of
     (kind, None) \<Rightarrow> kind = v
   | (kind, Some (property, path)) \<Rightarrow> v = kind @ '':'' @ path \<and>
       (kind, property) \<in> {(''file'', ''File''), (''append'', ''FileToAppend''), (''truncate'', ''FileToTruncate''),
         (''fd'', ''FileDescriptorName'')}"
proof -
  let ?table = "[(''file:'', ''File''), (''append:'', ''FileToAppend''), (''truncate:'', ''FileToTruncate''),
    (''fd:'', ''FileDescriptorName'')]"
  obtain kind rest where split: "split_prefixes v ?table = (kind, rest)" by fastforce
  have ends: "kind = k" if "kind @ '':'' = k @ '':''" for k using that by simp
  have "(kind, property) \<in> {(''file'', ''File''), (''append'', ''FileToAppend''), (''truncate'', ''FileToTruncate''),
      (''fd'', ''FileDescriptorName'')}" if "(kind @ '':'', property) \<in> set ?table" for property
    using that ends [of "''file''"] ends [of "''append''"] ends [of "''truncate''"] ends [of "''fd''"] by auto
  then show ?thesis
    using split_prefixes_result [OF split] split by (auto simp: split_standard_io_def split: option.splits)
qed


text \<open>
  The monitor subscribes before it reads the state, so it misses no end of the application: as long as the bus
  delivers decodable signals it stops the session exactly when the state cannot be read any more or is already
  terminal, a signal reports a terminal state, or the unit is removed.
\<close>

theorem exit_monitor_stops_session_iff:
  assumes "mr_proxy r" and "mr_watch_units r" and "mr_watch_state r" and "list_all clean_event events"
  shows "exit_monitor r name path events = Some ApplicationStopped \<longleftrightarrow>
    (case current_unit_state (mr_state r) of Inl _ \<Rightarrow> True | Inr state \<Rightarrow> terminal_state state \<noteq> None) \<or>
    list_ex (exit_event name) events"
  using assms monitor_loop_clean [OF assms(4), of name]
  by (auto simp: exit_monitor_def wait_for_unit_terminal_state_def split: sum.splits option.splits if_splits)

section \<open>Concrete inputs\<close>







lemma exit_monitor_stops_session_iff_witness:
  "exit_monitor \<lparr>mr_proxy = True, mr_watch_units = True, mr_watch_state = True, mr_state = State_Str ''active''\<rparr>
     ''game'' ''/unit/game'' [State_Event (Changed UNIT_INTERFACE (Some ''deactivating'')), Removed_Event (Some (Some ''game''))] =
     Some ApplicationStopped"
  using exit_monitor_stops_session_iff [of "\<lparr>mr_proxy = True, mr_watch_units = True, mr_watch_state = True,
      mr_state = State_Str ''active''\<rparr>" "[State_Event (Changed UNIT_INTERFACE (Some ''deactivating'')),
      Removed_Event (Some (Some ''game''))]" "''game''" "''/unit/game''"]
  by (simp add: clean_event_def exit_event_def)

end
