(* ===== verification/Compositor_Input.thy ===== *)
theory Compositor_Input
  imports Input_Events
begin

text \<open>
  The injection of input into the seat (\<open>session/compositor/input.rs\<close>): keys, text typed through the keymap, mouse,
  touch and pen. The seat of Smithay, the keymap of libxkbcommon and the surface under a point are the environment;
  the calls on the seat are effects, without their serial numbers and times. The \<open>f64\<close> arithmetic is a record of
  operations.
\<close>

section \<open>The environment\<close>

record 'f f64_ops =
  f_int :: "int \<Rightarrow> 'f"
  f_f32 :: "u32 \<Rightarrow> 'f"
  f_add :: "'f \<Rightarrow> 'f \<Rightarrow> 'f"
  f_mul :: "'f \<Rightarrow> 'f \<Rightarrow> 'f"
  f_div :: "'f \<Rightarrow> 'f \<Rightarrow> 'f"
  f_neg :: "'f \<Rightarrow> 'f"
  f_less :: "'f \<Rightarrow> 'f \<Rightarrow> bool"
  f_radians :: "'f \<Rightarrow> 'f"
  f_sin :: "'f \<Rightarrow> 'f"
  f_cos :: "'f \<Rightarrow> 'f"

record keymap =
  km_min :: nat
  km_max :: nat
  km_layouts :: nat
  km_levels :: "nat \<Rightarrow> nat \<Rightarrow> nat"
  km_syms :: "nat \<Rightarrow> nat \<Rightarrow> nat \<Rightarrow> nat list"
  km_masks :: "nat \<Rightarrow> nat \<Rightarrow> nat \<Rightarrow> u32 list"
  km_mods :: nat
  km_utf8 :: "nat \<Rightarrow> nat list"

text \<open>\<open>km_utf8\<close> is the text of a keysym, as code points. \<open>km_masks\<close> are the modifier masks that reach a level.\<close>

type_synonym 'f point = "'f \<times> 'f"
type_synonym 'f under = "(nat \<times> 'f point) option"

record 'f seat_env =
  se_ops :: "'f f64_ops"
  se_mode :: "(int \<times> int) option"
  se_size :: "int \<times> int"
  se_override :: "(int \<times> int \<times> int \<times> int) option"
  se_surface_at :: "'f point \<Rightarrow> 'f under"
  se_locked :: "nat \<Rightarrow> bool"
  se_keyboard :: bool
  se_touch :: bool
  se_tablet :: bool
  se_keymap :: keymap
  se_text :: "bytes \<Rightarrow> nat list"

text \<open>\<open>se_override\<close> is the geometry of a dropdown that is open and mapped, as position and size; \<open>se_text\<close> are the
  code points of a UTF-8 text.\<close>

datatype 'f tool_action =
    Proximity_In "'f point" "nat \<times> 'f point"
  | Proximity_Out
  | Tip_Down
  | Tip_Up
  | Tool_Button u32 bool
  | Tool_Distance 'f
  | Tool_Pressure 'f
  | Tool_Tilt 'f 'f
  | Tool_Motion "'f point" "'f under"

datatype 'f seat_effect =
    Reconcile_Popup_Grab
  | Refresh_Popup_Pointer
  | Key nat bool
  | Motion "'f under" "'f point"
  | Relative_Motion "'f under" "'f point"
  | Button u32 bool
  | Axis_Vertical 'f int
  | Axis_Horizontal 'f int
  | Pointer_Frame
  | Record_Input_Serial
  | Touch_Down "'f under" "'f point" u32
  | Touch_Motion "'f under" "'f point" u32
  | Touch_Up u32
  | Touch_Cancel
  | Touch_Frame
  | Tool u8 "'f tool_action"

record 'f input_state =
  cursor_position :: "'f point"
  active_pen_tool_kind :: "u8 option"
  pen_buttons :: u8
  pen_tools :: "u8 list"
  pointer_activity :: bool

text \<open>\<open>pen_tools\<close> are the tools added to the tablet seat, \<open>pointer_activity\<close> tells that the timer that hides the
  cursor was reset.\<close>

type_synonym 'f input_step = "'f input_state \<times> 'f seat_effect list"

section \<open>Typing text\<close>

definition keysym_produces :: "keymap \<Rightarrow> nat \<Rightarrow> nat \<Rightarrow> bool" where
  "keysym_produces km ks c \<longleftrightarrow> take 1 (km_utf8 km ks) = [c]"

definition find_modifier_keycode :: "keymap \<Rightarrow> nat \<Rightarrow> nat \<Rightarrow> nat option" where
  "find_modifier_keycode km layout mod_index =
     find (\<lambda>code. case km_masks km code layout 0 of [] \<Rightarrow> False | m # _ \<Rightarrow> bit m mod_index)
       [km_min km..<Suc (km_max km)]"

definition resolve_modifiers :: "keymap \<Rightarrow> nat \<Rightarrow> nat \<Rightarrow> nat \<Rightarrow> nat list" where
  "resolve_modifiers km layout code level =
     (let combined = foldl (OR) 0 (take 4 (km_masks km code layout level)) in
      List.map_filter (\<lambda>i. if bit combined i then find_modifier_keycode km layout i else None)
        [0..<min (km_mods km) 32])"

text \<open>The keys in the order of the three loops: level, key code, layout.\<close>

definition key_positions :: "keymap \<Rightarrow> (nat \<times> nat \<times> nat) list" where
  "key_positions km =
     concat (map (\<lambda>level. concat (map (\<lambda>code. map (\<lambda>layout. (level, code, layout)) [0..<km_layouts km])
       [km_min km..<Suc (km_max km)])) [0..<4])"

definition position_produces :: "keymap \<Rightarrow> nat \<Rightarrow> nat \<times> nat \<times> nat \<Rightarrow> bool" where
  "position_produces km c p = (case p of (level, code, layout) \<Rightarrow>
     level < km_levels km code layout \<and> list_ex (\<lambda>ks. keysym_produces km ks c) (km_syms km code layout level))"

definition resolve_char :: "keymap \<Rightarrow> nat \<Rightarrow> (nat \<times> nat list) option" where
  "resolve_char km c =
     (let needle = (if c = 10 then 13 else c) in
      case find (position_produces km needle) (key_positions km) of
        None \<Rightarrow> None
      | Some (level, code, layout) \<Rightarrow> Some (code, resolve_modifiers km layout code level))"

definition type_char :: "keymap \<Rightarrow> nat \<Rightarrow> 'f seat_effect list" where
  "type_char km c =
     (case resolve_char km c of
        None \<Rightarrow> []
      | Some (code, mods) \<Rightarrow>
          map (\<lambda>m. Key m True) mods @ [Key code True, Key code False] @ map (\<lambda>m. Key m False) (rev mods))"

definition type_text :: "'f seat_env \<Rightarrow> bytes \<Rightarrow> 'f seat_effect list" where
  "type_text env text =
     (if \<not> se_keyboard env then [] else concat (map (type_char (se_keymap env)) (se_text env text)))"

section \<open>The cursor\<close>

definition output_size :: "'f seat_env \<Rightarrow> int \<times> int" where
  "output_size env = (case se_mode env of Some m \<Rightarrow> m | None \<Rightarrow> se_size env)"

definition f_min :: "'f f64_ops \<Rightarrow> 'f \<Rightarrow> 'f \<Rightarrow> 'f" where
  "f_min ops a b = (if f_less ops b a then b else a)"

definition f_max :: "'f f64_ops \<Rightarrow> 'f \<Rightarrow> 'f \<Rightarrow> 'f" where
  "f_max ops a b = (if f_less ops a b then b else a)"

text \<open>\<open>f64::clamp\<close> asserts that the bounds are in order (they are numbers here).\<close>

definition f_clamp :: "'f f64_ops \<Rightarrow> 'f \<Rightarrow> 'f \<Rightarrow> 'f \<Rightarrow> 'f res" where
  "f_clamp ops lo hi v =
     (if f_less ops hi lo then Inl Panic
      else Inr (if f_less ops v lo then lo else if f_less ops hi v then hi else v))"

definition axis_bounds :: "'f f64_ops \<Rightarrow> int \<Rightarrow> (int \<times> int) option \<Rightarrow> 'f \<times> 'f" where
  "axis_bounds ops extent override =
     (let lo = f_int ops 0; hi = f_int ops (extent - 1) in
      case override of
        None \<Rightarrow> (lo, hi)
      | Some (loc, width) \<Rightarrow> (f_min ops lo (f_int ops loc), f_max ops hi (f_int ops (loc + width - 1))))"

definition clamp_cursor :: "'f seat_env \<Rightarrow> 'f point \<Rightarrow> 'f point res" where
  "clamp_cursor env p =
     (let ops = se_ops env; (w, h) = output_size env; (x, y) = p;
          (min_x, max_x) = axis_bounds ops w (map_option (\<lambda>(x, y, w, h). (x, w)) (se_override env));
          (min_y, max_y) = axis_bounds ops h (map_option (\<lambda>(x, y, w, h). (y, h)) (se_override env))
      in rbind (f_clamp ops min_x max_x x) (\<lambda>x. rbind (f_clamp ops min_y max_y y) (\<lambda>y. Inr (x, y))))"

definition scaled :: "'f f64_ops \<Rightarrow> u16 \<Rightarrow> u16 \<Rightarrow> int \<Rightarrow> 'f" where
  "scaled ops v screen extent =
     (if 0 < sint screen then f_mul ops (f_div ops (f_int ops (sint v)) (f_int ops (sint screen))) (f_int ops extent)
      else f_int ops (sint v))"

definition move_absolute :: "'f seat_env \<Rightarrow> u16 \<Rightarrow> u16 \<Rightarrow> u16 \<Rightarrow> u16 \<Rightarrow> 'f input_state \<Rightarrow> 'f input_step res" where
  "move_absolute env x y screen_width screen_height s =
     (let ops = se_ops env; (w, h) = output_size env in
      rbind (clamp_cursor env (scaled ops x screen_width w, scaled ops y screen_height h)) (\<lambda>p.
        Inr (s\<lparr>cursor_position := p\<rparr>, [Motion (se_surface_at env p) p, Pointer_Frame])))"

definition pointer_locked :: "'f seat_env \<Rightarrow> 'f under \<Rightarrow> bool" where
  "pointer_locked env target = (case target of Some (surface, _) \<Rightarrow> se_locked env surface | None \<Rightarrow> False)"

definition move_relative :: "'f seat_env \<Rightarrow> u16 \<Rightarrow> u16 \<Rightarrow> 'f input_state \<Rightarrow> 'f input_step res" where
  "move_relative env dx dy s =
     (let ops = se_ops env; delta = (f_int ops (sint dx), f_int ops (sint dy));
          target = se_surface_at env (cursor_position s); (x, y) = cursor_position s
      in rbind (clamp_cursor env (f_add ops x (fst delta), f_add ops y (snd delta))) (\<lambda>p.
        Inr (s\<lparr>cursor_position := p\<rparr>,
          Relative_Motion target delta #
          (if pointer_locked env target then [Pointer_Frame] else [Motion (se_surface_at env p) p, Pointer_Frame]))))"

definition normalized_pointer_location :: "'f seat_env \<Rightarrow> u32 \<Rightarrow> u32 \<Rightarrow> 'f point" where
  "normalized_pointer_location env x y =
     (let ops = se_ops env; (w, h) = output_size env in
      (f_mul ops (f_f32 ops (f32_clamp01 x)) (f_int ops (max (w - 1) 0)),
       f_mul ops (f_f32 ops (f32_clamp01 y)) (f_int ops (max (h - 1) 0))))"

section \<open>The pen\<close>

record pen_input =
  pi_event_kind :: u8
  pi_tool_kind :: u8
  pi_buttons :: u8
  pi_x :: u32
  pi_y :: u32
  pi_pressure_or_distance :: u32
  pi_rotation :: u16
  pi_tilt :: u8

definition POINTER_EVENT_HOVER :: u8 where "POINTER_EVENT_HOVER = 0x00"
definition POINTER_EVENT_DOWN :: u8 where "POINTER_EVENT_DOWN = 0x01"
definition POINTER_EVENT_UP :: u8 where "POINTER_EVENT_UP = 0x02"
definition POINTER_EVENT_MOVE :: u8 where "POINTER_EVENT_MOVE = 0x03"
definition POINTER_EVENT_CANCEL :: u8 where "POINTER_EVENT_CANCEL = 0x04"
definition POINTER_EVENT_BUTTON_ONLY :: u8 where "POINTER_EVENT_BUTTON_ONLY = 0x05"
definition POINTER_EVENT_HOVER_LEAVE :: u8 where "POINTER_EVENT_HOVER_LEAVE = 0x06"
definition POINTER_EVENT_CANCEL_ALL :: u8 where "POINTER_EVENT_CANCEL_ALL = 0x07"
definition ROTATION_UNKNOWN :: u16 where "ROTATION_UNKNOWN = 0xFFFF"
definition TILT_UNKNOWN :: u8 where "TILT_UNKNOWN = 0xFF"

lemmas pen_event_kinds = POINTER_EVENT_HOVER_def POINTER_EVENT_DOWN_def POINTER_EVENT_UP_def POINTER_EVENT_MOVE_def
  POINTER_EVENT_CANCEL_def POINTER_EVENT_BUTTON_ONLY_def POINTER_EVENT_HOVER_LEAVE_def POINTER_EVENT_CANCEL_ALL_def

definition PEN_BUTTONS :: "(u8 \<times> u32) list" where
  "PEN_BUTTONS = [(0x01, 0x14B), (0x02, 0x14C), (0x04, 0x149)]"

definition sync_pen_buttons :: "u8 \<Rightarrow> u8 \<Rightarrow> u8 \<Rightarrow> 'f seat_effect list" where
  "sync_pen_buttons tool old new =
     concat (map (\<lambda>(m, button).
       if old AND m \<noteq> new AND m then [Tool tool (Tool_Button button (new AND m \<noteq> 0))] else []) PEN_BUTTONS)"

definition get_pen_tool :: "u8 \<Rightarrow> 'f input_state \<Rightarrow> 'f input_state" where
  "get_pen_tool kind s = (if kind \<in> set (pen_tools s) then s else s\<lparr>pen_tools := kind # pen_tools s\<rparr>)"

definition release_pen :: "'f input_state \<Rightarrow> 'f input_step" where
  "release_pen s =
     (case active_pen_tool_kind s of
        None \<Rightarrow> (s\<lparr>pen_buttons := 0\<rparr>, [])
      | Some kind \<Rightarrow>
          (s\<lparr>active_pen_tool_kind := None, pen_buttons := 0\<rparr>,
           if kind \<in> set (pen_tools s)
           then [Tool kind Tip_Up] @ sync_pen_buttons kind (pen_buttons s) 0 @ [Tool kind Proximity_Out]
           else []))"

definition pen_value :: "'f f64_ops \<Rightarrow> pen_input \<Rightarrow> 'f tool_action" where
  "pen_value ops e =
     (let v = f_f32 ops (f32_clamp01 (pi_pressure_or_distance e)) in
      if pi_event_kind e = POINTER_EVENT_HOVER then Tool_Distance v else Tool_Pressure v)"

definition pen_tilt :: "'f f64_ops \<Rightarrow> pen_input \<Rightarrow> 'f tool_action list" where
  "pen_tilt ops e =
     (if pi_rotation e = ROTATION_UNKNOWN \<or> pi_tilt e = TILT_UNKNOWN then []
      else let angle = f_radians ops (f_int ops (uint (pi_rotation e)));
               magnitude = f_int ops (min (uint (pi_tilt e)) 90)
           in [Tool_Tilt (f_mul ops magnitude (f_sin ops angle)) (f_mul ops (f_neg ops magnitude) (f_cos ops angle))])"

definition pen_tip :: "u8 \<Rightarrow> 'f tool_action list" where
  "pen_tip kind =
     (if kind = POINTER_EVENT_DOWN \<or> kind = POINTER_EVENT_MOVE then [Tip_Down]
      else if kind = POINTER_EVENT_UP then [Tip_Up] else [])"

text \<open>The part behind the entry into the proximity.\<close>

definition use_pen :: "'f seat_env \<Rightarrow> pen_input \<Rightarrow> 'f point \<Rightarrow> 'f under \<Rightarrow> 'f input_state \<Rightarrow> 'f input_step" where
  "use_pen env e location focus s =
     (s\<lparr>pen_buttons := pi_buttons e\<rparr>,
      map (Tool (pi_tool_kind e)) (pen_value (se_ops env) e # pen_tilt (se_ops env) e @ [Tool_Motion location focus]) @
      sync_pen_buttons (pi_tool_kind e) (pen_buttons s) (pi_buttons e) @
      map (Tool (pi_tool_kind e)) (pen_tip (pi_event_kind e)))"

definition move_pen :: "'f seat_env \<Rightarrow> pen_input \<Rightarrow> 'f input_state \<Rightarrow> 'f input_step" where
  "move_pen env e s =
     (let s = get_pen_tool (pi_tool_kind e) s in
      if \<not> se_tablet env then (s, [])
      else let location = normalized_pointer_location env (pi_x e) (pi_y e);
               focus = se_surface_at env location;
               s = s\<lparr>cursor_position := location\<rparr>
           in if active_pen_tool_kind s \<noteq> None then use_pen env e location focus s
              else case focus of
                None \<Rightarrow> (s, [])
              | Some target \<Rightarrow>
                  let (s, effects) = use_pen env e location focus (s\<lparr>active_pen_tool_kind := Some (pi_tool_kind e)\<rparr>)
                  in (s, Tool (pi_tool_kind e) (Proximity_In location target) # effects))"

definition process_pen_input :: "'f seat_env \<Rightarrow> pen_input \<Rightarrow> 'f input_state \<Rightarrow> 'f input_step" where
  "process_pen_input env e s =
     (if pi_event_kind e \<in> {POINTER_EVENT_CANCEL, POINTER_EVENT_HOVER_LEAVE, POINTER_EVENT_CANCEL_ALL} then release_pen s
      else if pi_event_kind e = POINTER_EVENT_BUTTON_ONLY then
        (case active_pen_tool_kind s of
           None \<Rightarrow> (s, [])
         | Some kind \<Rightarrow> ((get_pen_tool kind s)\<lparr>pen_buttons := pi_buttons e\<rparr>,
             sync_pen_buttons kind (pen_buttons s) (pi_buttons e)))
      else
        let (s, released) = (case active_pen_tool_kind s of
              Some active \<Rightarrow> if active \<noteq> pi_tool_kind e then release_pen s else (s, [])
            | None \<Rightarrow> (s, []));
            (s, effects) = move_pen env e s
        in (s, released @ effects))"

section \<open>Processing an event\<close>

definition touch_point :: "'f seat_env \<Rightarrow> u32 \<Rightarrow> u32 \<Rightarrow> 'f under \<times> 'f point" where
  "touch_point env x y = (let p = normalized_pointer_location env x y in (se_surface_at env p, p))"

definition scroll_value :: "'f f64_ops \<Rightarrow> 'f \<Rightarrow> 'f" where
  "scroll_value ops amount = f_mul ops (f_div ops amount (f_int ops 120)) (f_int ops 15)"

fun resets_cursor_timer :: "compositor_input_event \<Rightarrow> bool" where
  "resets_cursor_timer (CE_KeyDown _) = False"
| "resets_cursor_timer (CE_KeyUp _) = False"
| "resets_cursor_timer (CE_TypeText _) = False"
| "resets_cursor_timer (CE_TouchDown _ _ _) = False"
| "resets_cursor_timer (CE_TouchMove _ _ _) = False"
| "resets_cursor_timer (CE_TouchUp _) = False"
| "resets_cursor_timer CE_TouchCancelAll = False"
| "resets_cursor_timer _ = True"

text \<open>The negation of a scroll amount traps for the smallest \<open>i16\<close>, the addition to a key code above the range.\<close>

fun inject_event :: "'f seat_env \<Rightarrow> compositor_input_event \<Rightarrow> 'f input_state \<Rightarrow> 'f input_step res" where
  "inject_event env (CE_KeyDown code) s =
     (if \<not> se_keyboard env then Inr (s, [])
      else if 0xFFFFFFF7 < code then Inl Panic else Inr (s, [Key (unat (code + 8)) True]))"
| "inject_event env (CE_KeyUp code) s =
     (if \<not> se_keyboard env then Inr (s, [])
      else if 0xFFFFFFF7 < code then Inl Panic else Inr (s, [Key (unat (code + 8)) False]))"
| "inject_event env (CE_TypeText text) s = Inr (s, type_text env text)"
| "inject_event env (CE_MouseMoveAbsolute x y w h) s = move_absolute env x y w h s"
| "inject_event env (CE_MouseMoveRelative dx dy) s = move_relative env dx dy s"
| "inject_event env (CE_MouseButtonDown b) s = Inr (s, [Button b True, Pointer_Frame, Record_Input_Serial])"
| "inject_event env (CE_MouseButtonUp b) s = Inr (s, [Button b False, Pointer_Frame])"
| "inject_event env (CE_ScrollVertical a) s =
     (if sint a = - (2 ^ 15) then Inl Panic else
      Inr (s, [Axis_Vertical (scroll_value (se_ops env) (f_neg (se_ops env) (f_int (se_ops env) (sint a)))) (- sint a),
       Pointer_Frame]))"
| "inject_event env (CE_ScrollHorizontal a) s =
     Inr (s, [Axis_Horizontal (scroll_value (se_ops env) (f_int (se_ops env) (sint a))) (sint a), Pointer_Frame])"
| "inject_event env (CE_TouchDown slot x y) s =
     (let (target, p) = touch_point env x y in Inr (s, if se_touch env then [Touch_Down target p slot, Touch_Frame] else []))"
| "inject_event env (CE_TouchMove slot x y) s =
     (let (target, p) = touch_point env x y in Inr (s, if se_touch env then [Touch_Motion target p slot, Touch_Frame] else []))"
| "inject_event env (CE_TouchUp slot) s = Inr (s, if se_touch env then [Touch_Up slot, Touch_Frame] else [])"
| "inject_event env CE_TouchCancelAll s = Inr (s, if se_touch env then [Touch_Cancel] else [])"
| "inject_event env (CE_Pen event tool buttons x y value rotation tilt) s =
     Inr (process_pen_input env \<lparr>pi_event_kind = event, pi_tool_kind = tool, pi_buttons = buttons, pi_x = x, pi_y = y,
       pi_pressure_or_distance = value, pi_rotation = rotation, pi_tilt = tilt\<rparr> s)"

text \<open>A locked pointer returns early, so the popup grab is not reconciled behind such a motion.\<close>

definition returns_early :: "'f seat_env \<Rightarrow> compositor_input_event \<Rightarrow> 'f input_state \<Rightarrow> bool" where
  "returns_early env event s =
     (case event of CE_MouseMoveRelative _ _ \<Rightarrow> pointer_locked env (se_surface_at env (cursor_position s)) | _ \<Rightarrow> False)"

definition process_input :: "'f seat_env \<Rightarrow> compositor_input_event \<Rightarrow> 'f input_state \<Rightarrow> 'f input_step res" where
  "process_input env event s =
     (let s' = (if resets_cursor_timer event then s\<lparr>pointer_activity := True\<rparr> else s) in
      rbind (inject_event env event s') (\<lambda>(t, effects).
        Inr (t, [Reconcile_Popup_Grab, Refresh_Popup_Pointer] @ effects @
          (if returns_early env event s then [] else [Reconcile_Popup_Grab]))))"

section \<open>Lemmas\<close>

subsection \<open>The protocol of a tablet tool\<close>

text \<open>
  What a client of the tablet protocol relies on: a tool enters the proximity of a surface before it is used, one tool
  at a time; buttons are pressed and released in turn; and a tool leaves with its tip up and no button held.
\<close>

record tablet_state =
  tool_in :: "u8 option"
  tip_is_down :: bool
  held_buttons :: "u32 set"

fun tool_allowed :: "u8 \<Rightarrow> 'f tool_action \<Rightarrow> tablet_state \<Rightarrow> tablet_state option" where
  "tool_allowed t (Proximity_In _ _) st = (if tool_in st = None then Some (st\<lparr>tool_in := Some t\<rparr>) else None)"
| "tool_allowed t Proximity_Out st =
     (if tool_in st = Some t \<and> \<not> tip_is_down st \<and> held_buttons st = {} then Some (st\<lparr>tool_in := None\<rparr>) else None)"
| "tool_allowed t Tip_Down st = (if tool_in st = Some t then Some (st\<lparr>tip_is_down := True\<rparr>) else None)"
| "tool_allowed t Tip_Up st = (if tool_in st = Some t then Some (st\<lparr>tip_is_down := False\<rparr>) else None)"
| "tool_allowed t (Tool_Button b pressed) st =
     (if tool_in st = Some t \<and> (b \<in> held_buttons st \<longleftrightarrow> \<not> pressed)
      then Some (st\<lparr>held_buttons := (if pressed then insert b else Set.remove b) (held_buttons st)\<rparr>) else None)"
| "tool_allowed t _ st = (if tool_in st = Some t then Some st else None)"

fun tablet_run :: "'f seat_effect list \<Rightarrow> tablet_state \<Rightarrow> tablet_state option" where
  "tablet_run [] st = Some st"
| "tablet_run (Tool t a # es) st = Option.bind (tool_allowed t a st) (tablet_run es)"
| "tablet_run (_ # es) st = tablet_run es st"

lemma tablet_run_append: "tablet_run (as @ bs) st = Option.bind (tablet_run as st) (tablet_run bs)"
  by (induction as st rule: tablet_run.induct) (auto simp: Option.bind_assoc split: bind_split)

definition mask_buttons :: "u8 \<Rightarrow> u32 set" where
  "mask_buttons m = {b. \<exists>k. (k, b) \<in> set PEN_BUTTONS \<and> m AND k \<noteq> 0}"

lemma mask_buttons_iff:
  "b \<in> mask_buttons m \<longleftrightarrow>
     b = 0x14B \<and> m AND 1 \<noteq> 0 \<or> b = 0x14C \<and> m AND 2 \<noteq> 0 \<or> b = 0x149 \<and> m AND 4 \<noteq> 0"
  by (auto simp: mask_buttons_def PEN_BUTTONS_def)

lemma mask_buttons_0 [simp]: "mask_buttons 0 = {}"
  by (simp add: mask_buttons_def)

text \<open>The invariant: the tool and the buttons of the state are those the clients have been told of.\<close>

definition pen_inv :: "'f input_state \<Rightarrow> tablet_state \<Rightarrow> bool" where
  "pen_inv s st \<longleftrightarrow> tool_in st = active_pen_tool_kind s \<and>
     (case active_pen_tool_kind s of
        None \<Rightarrow> pen_buttons s = 0 \<and> \<not> tip_is_down st \<and> held_buttons st = {}
      | Some t \<Rightarrow> t \<in> set (pen_tools s) \<and> held_buttons st = mask_buttons (pen_buttons s))"

lemma and_exp_word: "x AND 2 ^ k = (if bit x k then 2 ^ k else (0 :: 'a :: len word))"
  by (rule bit_word_eqI) (auto simp: bit_simps)

lemma and_masks:
  "x AND 1 = (if bit x 0 then 1 else (0 :: u8))" "x AND 2 = (if bit x 1 then 2 else (0 :: u8))"
  "x AND 4 = (if bit x 2 then 4 else (0 :: u8))"
  using and_exp_word [of x 0] and_exp_word [of x 1] and_exp_word [of x 2] by simp_all

lemma run_sync_pen_buttons:
  assumes "tool_in st = Some t" and "held_buttons st = mask_buttons old"
  shows "tablet_run (sync_pen_buttons t old new :: 'f seat_effect list) st = Some (st\<lparr>held_buttons := mask_buttons new\<rparr>)"
proof -
  define seg where "seg b m = (if old AND m \<noteq> new AND m then [Tool t (Tool_Button b (new AND m \<noteq> 0)) :: 'f seat_effect] else [])"
    for b and m :: u8
  define keep where "keep b m h = (if old AND m \<noteq> new AND m then (if new AND m \<noteq> 0 then insert b h else Set.remove b h) else h)"
    for b :: u32 and m h
  have seg: "tablet_run (seg b m) u = Some (u\<lparr>held_buttons := keep b m (held_buttons u)\<rparr>)"
    if "tool_in u = Some t" "b \<in> held_buttons u \<longleftrightarrow> old AND m \<noteq> 0" "m \<in> {1, 2, 4}" for u b m
    using that by (auto simp: and_masks seg_def keep_def split: if_splits)
  define h1 where "h1 = keep 0x14B 1 (mask_buttons old)"
  define h2 where "h2 = keep 0x14C 2 h1"
  have new: "keep 0x149 4 h2 = mask_buttons new"
    unfolding h1_def h2_def keep_def by (rule set_eqI) (auto simp: mask_buttons_iff and_masks split: if_splits)
  have member: "0x14B \<in> mask_buttons old \<longleftrightarrow> old AND 1 \<noteq> 0" "0x14C \<in> h1 \<longleftrightarrow> old AND 2 \<noteq> 0" "0x149 \<in> h2 \<longleftrightarrow> old AND 4 \<noteq> 0"
    unfolding h1_def h2_def keep_def by (auto simp: mask_buttons_iff split: if_splits)
  have runs: "tablet_run (seg 0x14B 1) st = Some (st\<lparr>held_buttons := h1\<rparr>)"
    "tablet_run (seg 0x14C 2) (st\<lparr>held_buttons := h1\<rparr>) = Some (st\<lparr>held_buttons := h2\<rparr>)"
    "tablet_run (seg 0x149 4) (st\<lparr>held_buttons := h2\<rparr>) = Some (st\<lparr>held_buttons := mask_buttons new\<rparr>)"
    using assms member seg [of st "0x14B" 1] seg [of "st\<lparr>held_buttons := h1\<rparr>" "0x14C" 2]
      seg [of "st\<lparr>held_buttons := h2\<rparr>" "0x149" 4]
    by (simp_all add: h1_def [symmetric] h2_def [symmetric] new)
  have "sync_pen_buttons t old new = seg 0x14B 1 @ seg 0x14C 2 @ seg 0x149 4"
    unfolding seg_def by (simp add: sync_pen_buttons_def PEN_BUTTONS_def)
  then show ?thesis by (simp only: tablet_run_append runs Option.bind.simps)
qed

lemma run_release_pen:
  assumes "pen_inv s st"
  shows "\<exists>st'. tablet_run (snd (release_pen s)) st = Some st' \<and> pen_inv (fst (release_pen s)) st' \<and>
    active_pen_tool_kind (fst (release_pen s)) = None"
proof (cases "active_pen_tool_kind s")
  case None
  then show ?thesis using assms by (simp add: release_pen_def pen_inv_def)
next
  case (Some t)
  then have st: "tool_in st = Some t" "t \<in> set (pen_tools s)" "held_buttons st = mask_buttons (pen_buttons s)"
    using assms by (simp_all add: pen_inv_def)
  then show ?thesis
    using Some by (simp add: release_pen_def pen_inv_def tablet_run_append run_sync_pen_buttons)
qed

lemma run_pen_actions:
  "tool_in st = Some t \<Longrightarrow> tablet_run (map (Tool t) (pen_value ops e # pen_tilt ops e @ [Tool_Motion l g])) st = Some st"
  by (simp add: pen_value_def pen_tilt_def Let_def)

lemma run_pen_tip:
  "tool_in st = Some t \<Longrightarrow> \<exists>d. tablet_run (map (Tool t) (pen_tip k)) st = Some (st\<lparr>tip_is_down := d\<rparr>)"
  by (auto simp: pen_tip_def intro: exI [of _ "tip_is_down st"])

lemma run_use_pen:
  assumes "tool_in st = Some (pi_tool_kind e)" and "active_pen_tool_kind s = Some (pi_tool_kind e)"
    and "pi_tool_kind e \<in> set (pen_tools s)" and "held_buttons st = mask_buttons (pen_buttons s)"
  shows "\<exists>st'. tablet_run (snd (use_pen (env :: 'f seat_env) e l g s)) st = Some st' \<and> pen_inv (fst (use_pen env e l g s)) st'"
proof -
  let ?st = "st\<lparr>held_buttons := mask_buttons (pi_buttons e)\<rparr>"
  obtain d where "tablet_run (map (Tool (pi_tool_kind e)) (pen_tip (pi_event_kind e)) :: 'f seat_effect list) ?st =
      Some (?st\<lparr>tip_is_down := d\<rparr>)"
    using run_pen_tip [of ?st "pi_tool_kind e"] assms(1) by fastforce
  then show ?thesis
    using assms
    by (simp add: use_pen_def tablet_run_append pen_inv_def run_pen_actions run_sync_pen_buttons del: list.map map_append)
qed

lemma run_move_pen:
  assumes "pen_inv s st" and "active_pen_tool_kind s \<in> {None, Some (pi_tool_kind e)}"
  shows "\<exists>st'. tablet_run (snd (move_pen env e s)) st = Some st' \<and> pen_inv (fst (move_pen env e s)) st'"
proof -
  let ?t = "pi_tool_kind e" and ?l = "normalized_pointer_location env (pi_x e) (pi_y e)"
  let ?s = "get_pen_tool ?t s" and ?g = "se_surface_at env (normalized_pointer_location env (pi_x e) (pi_y e))"
  let ?at = "?s\<lparr>cursor_position := ?l\<rparr>"
  have tool: "?t \<in> set (pen_tools ?s)" "active_pen_tool_kind ?s = active_pen_tool_kind s" "pen_buttons ?s = pen_buttons s"
    "set (pen_tools s) \<subseteq> set (pen_tools ?s)"
    by (auto simp: get_pen_tool_def)
  then have inv: "pen_inv ?s st" "pen_inv ?at st" using assms(1) by (auto simp: pen_inv_def split: option.splits)
  show ?thesis
  proof (cases "se_tablet env \<and> (active_pen_tool_kind s \<noteq> None \<or> ?g \<noteq> None)")
    case False
    then show ?thesis using inv tool(2) by (cases ?g) (auto simp: move_pen_def Let_def)
  next
    case True
    show ?thesis
    proof (cases "active_pen_tool_kind s")
      case (Some t)
      then have "t = ?t" using assms(2) by simp
      then have "\<exists>st'. tablet_run (snd (use_pen env e ?l ?g ?at)) st = Some st' \<and> pen_inv (fst (use_pen env e ?l ?g ?at)) st'"
        using Some inv tool by (intro run_use_pen) (auto simp: pen_inv_def)
      then show ?thesis using True Some tool(2) by (simp add: move_pen_def Let_def)
    next
      case None
      then obtain target where g: "?g = Some target" using True by auto
      have "tool_in st = None" "held_buttons st = {}" "pen_buttons s = 0"
        using None assms(1) by (simp_all add: pen_inv_def)
      moreover have "\<exists>st'. tablet_run (snd (use_pen env e ?l ?g (?at\<lparr>active_pen_tool_kind := Some ?t\<rparr>)))
            (st\<lparr>tool_in := Some ?t\<rparr>) = Some st' \<and>
          pen_inv (fst (use_pen env e ?l ?g (?at\<lparr>active_pen_tool_kind := Some ?t\<rparr>))) st'"
        using calculation tool by (intro run_use_pen) simp_all
      ultimately show ?thesis using True None tool(2) g by (simp add: move_pen_def Let_def case_prod_beta)
    qed
  qed
qed

lemma run_process_pen_input:
  assumes "pen_inv s st"
  shows "\<exists>st'. tablet_run (snd (process_pen_input env e s)) st = Some st' \<and> pen_inv (fst (process_pen_input env e s)) st'"
proof -
  consider (release) "pi_event_kind e \<in> {POINTER_EVENT_CANCEL, POINTER_EVENT_HOVER_LEAVE, POINTER_EVENT_CANCEL_ALL}"
    | (buttons) "pi_event_kind e = POINTER_EVENT_BUTTON_ONLY"
    | (move) "pi_event_kind e \<notin> {POINTER_EVENT_CANCEL, POINTER_EVENT_HOVER_LEAVE, POINTER_EVENT_CANCEL_ALL}"
        "pi_event_kind e \<noteq> POINTER_EVENT_BUTTON_ONLY" by blast
  then show ?thesis
  proof cases
    case release
    then show ?thesis using run_release_pen [OF assms] by (auto simp: process_pen_input_def)
  next
    case buttons
    then have k: "pi_event_kind e \<notin> {POINTER_EVENT_CANCEL, POINTER_EVENT_HOVER_LEAVE, POINTER_EVENT_CANCEL_ALL}"
      by (simp add: pen_event_kinds)
    show ?thesis
    proof (cases "active_pen_tool_kind s")
      case (Some t)
      then have "tool_in st = Some t" "held_buttons st = mask_buttons (pen_buttons s)" "t \<in> set (pen_tools s)"
        using assms by (simp_all add: pen_inv_def)
      then show ?thesis using Some k buttons
        by (simp add: process_pen_input_def pen_inv_def get_pen_tool_def run_sync_pen_buttons)
    qed (use assms k buttons in \<open>simp add: process_pen_input_def\<close>)
  next
    case move
    show ?thesis
    proof (cases "active_pen_tool_kind s \<in> {None, Some (pi_tool_kind e)}")
      case True
      then show ?thesis using run_move_pen [OF assms True, of env] move
        by (auto simp: process_pen_input_def Let_def split: prod.split)
    next
      case False
      obtain u es where rel: "release_pen s = (u, es)" by fastforce
      obtain st1 where r: "tablet_run es st = Some st1" "pen_inv u st1" "active_pen_tool_kind u = None"
        using run_release_pen [OF assms] rel by auto
      then show ?thesis using run_move_pen [OF r(2), of e env] move False rel
        by (auto simp: process_pen_input_def tablet_run_append split: prod.split option.splits)
    qed
  qed
qed

subsection \<open>Keys\<close>

text \<open>Keys pressed and not yet released, the last one first: only the last may be released.\<close>

fun key_stack :: "'f seat_effect list \<Rightarrow> nat list \<Rightarrow> nat list option" where
  "key_stack [] held = Some held"
| "key_stack (Key k True # es) held = key_stack es (k # held)"
| "key_stack (Key k False # es) held = (if held \<noteq> [] \<and> hd held = k then key_stack es (tl held) else None)"
| "key_stack (_ # es) held = key_stack es held"

lemma key_stack_press: "key_stack (map (\<lambda>m. Key m True) ms @ es) held = key_stack es (rev ms @ held)"
  by (induction ms arbitrary: held) auto

lemma key_stack_release: "key_stack (map (\<lambda>m. Key m False) ms @ es) (ms @ held) = key_stack es held"
  by (induction ms) auto

lemma key_stack_type_char: "key_stack (type_char km c @ es) held = key_stack es held"
proof (cases "resolve_char km c")
  case (Some r)
  then show ?thesis
    using key_stack_release [of "rev (snd r)" es held]
    by (cases r) (simp add: type_char_def key_stack_press)
qed (simp add: type_char_def)

lemma key_stack_type_chars: "key_stack (concat (map (type_char km) cs)) held = Some held"
  by (induction cs) (simp_all add: key_stack_type_char)

lemma find_first_split:
  "find P xs = Some x \<Longrightarrow> \<exists>before after. xs = before @ x # after \<and> P x \<and> list_all (\<lambda>y. \<not> P y) before"
proof (induction xs)
  case (Cons y ys)
  then show ?case
  proof (cases "P y")
    case True
    then show ?thesis using Cons.prems by (intro exI [of _ "[]"] exI [of _ ys]) simp
  next
    case False
    then obtain before after where "ys = before @ x # after" "P x" "list_all (\<lambda>y. \<not> P y) before" using Cons by auto
    then show ?thesis using False by (intro exI [of _ "y # before"] exI [of _ after]) simp
  qed
qed simp

lemma first_position:
  "case (case find P xs of None \<Rightarrow> None | Some (level, code, layout) \<Rightarrow> Some (code, f layout code level)) of
     None \<Rightarrow> list_all (\<lambda>p. \<not> P p) xs
   | Some (code, mods) \<Rightarrow> \<exists>before level layout after. xs = before @ (level, code, layout) # after \<and>
       P (level, code, layout) \<and> list_all (\<lambda>p. \<not> P p) before \<and> mods = f layout code level"
proof (cases "find P xs")
  case None
  then have "list_all (\<lambda>p. \<not> P p) xs" by (auto simp: find_None_iff list_all_iff)
  then show ?thesis using None by simp
next
  case (Some p)
  obtain level code layout where p: "p = (level, code, layout)" by (cases p)
  from find_first_split [OF Some] show ?thesis using Some p by simp blast
qed

subsection \<open>The cursor\<close>

definition cursor_bounds :: "'f seat_env \<Rightarrow> ('f \<times> 'f) \<times> ('f \<times> 'f)" where
  "cursor_bounds env =
     (axis_bounds (se_ops env) (fst (output_size env)) (map_option (\<lambda>(x, y, w, h). (x, w)) (se_override env)),
      axis_bounds (se_ops env) (snd (output_size env)) (map_option (\<lambda>(x, y, w, h). (y, h)) (se_override env)))"

definition bounds_inverted :: "'f seat_env \<Rightarrow> bool" where
  "bounds_inverted env \<longleftrightarrow> (case cursor_bounds env of ((x0, x1), (y0, y1)) \<Rightarrow>
     f_less (se_ops env) x1 x0 \<or> f_less (se_ops env) y1 y0)"

lemma clamp_cursor_bounds:
  "clamp_cursor env p = (case cursor_bounds env of ((x0, x1), (y0, y1)) \<Rightarrow>
     rbind (f_clamp (se_ops env) x0 x1 (fst p)) (\<lambda>x. rbind (f_clamp (se_ops env) y0 y1 (snd p)) (\<lambda>y. Inr (x, y))))"
  by (simp add: clamp_cursor_def cursor_bounds_def Let_def case_prod_beta)

lemma clamp_cursor_Panic: "clamp_cursor env p = Inl e \<longleftrightarrow> bounds_inverted env \<and> e = Panic"
  by (auto simp: clamp_cursor_bounds bounds_inverted_def f_clamp_def split: prod.splits if_splits)

lemma f_clamp_within:
  "f_clamp ops lo hi v = Inr r \<Longrightarrow> (\<And>a. \<not> f_less ops a a) \<Longrightarrow> \<not> f_less ops r lo \<and> \<not> f_less ops hi r"
  by (auto simp: f_clamp_def split: if_splits)

section \<open>Correctness\<close>

fun pen_session :: "('f seat_env \<times> pen_input) list \<Rightarrow> 'f input_state \<Rightarrow> 'f input_step" where
  "pen_session [] s = (s, [])"
| "pen_session ((env, e) # es) s =
     (let (s, effects) = process_pen_input env e s; (s, more) = pen_session es s in (s, effects @ more))"

lemma run_pen_session:
  "pen_inv s st \<Longrightarrow> \<exists>st'. tablet_run (snd (pen_session es s)) st = Some st' \<and> pen_inv (fst (pen_session es s)) st'"
proof (induction es arbitrary: s st)
  case (Cons x es)
  obtain env e where x: "x = (env, e)" by (cases x)
  obtain u effects where u: "process_pen_input env e s = (u, effects)" by fastforce
  obtain st1 where "tablet_run effects st = Some st1" "pen_inv u st1"
    using run_process_pen_input [OF Cons.prems, of env e] u by auto
  then show ?case using Cons.IH [of u st1] x u by (simp add: tablet_run_append case_prod_beta)
qed simp

text \<open>
  C29. Whatever pen events arrive, and however the windows under them change, the calls on the tablet tools keep the
  tablet protocol: a tool is in proximity before it is used and only one is, presses and releases of a button
  alternate, and a tool leaves with its tip up and no button held. The compositor's state always says which
  tool is in proximity and which buttons its clients believe held.
\<close>

theorem pen_protocol:
  assumes "active_pen_tool_kind s = None" and "pen_buttons s = 0"
  shows "\<exists>st. tablet_run (snd (pen_session es s)) \<lparr>tool_in = None, tip_is_down = False, held_buttons = {}\<rparr> = Some st \<and>
    tool_in st = active_pen_tool_kind (fst (pen_session es s)) \<and>
    held_buttons st = mask_buttons (pen_buttons (fst (pen_session es s)))"
proof -
  have "pen_inv s \<lparr>tool_in = None, tip_is_down = False, held_buttons = {}\<rparr>"
    using assms by (simp add: pen_inv_def)
  from run_pen_session [OF this, of es] show ?thesis by (auto simp: pen_inv_def split: option.splits)
qed

text \<open>
  Typing text presses and releases keys like a stack and leaves every key as it was; the key of a character is
  found on the lowest level on which any key of any layout produces it.
\<close>

theorem type_text_balanced:
  "key_stack (type_text env text) held = Some held \<and>
   (case resolve_char km c of
      None \<Rightarrow> list_all (\<lambda>p. \<not> position_produces km (if c = 10 then 13 else c) p) (key_positions km)
    | Some (code, mods) \<Rightarrow> \<exists>before level layout after. key_positions km = before @ (level, code, layout) # after \<and>
        position_produces km (if c = 10 then 13 else c) (level, code, layout) \<and>
        list_all (\<lambda>p. \<not> position_produces km (if c = 10 then 13 else c) p) before \<and>
        mods = resolve_modifiers km layout code level)"
proof
  show "key_stack (type_text env text) held = Some held" by (simp add: type_text_def key_stack_type_chars)
next
  show "case resolve_char km c of
      None \<Rightarrow> list_all (\<lambda>p. \<not> position_produces km (if c = 10 then 13 else c) p) (key_positions km)
    | Some (code, mods) \<Rightarrow> \<exists>before level layout after. key_positions km = before @ (level, code, layout) # after \<and>
        position_produces km (if c = 10 then 13 else c) (level, code, layout) \<and>
        list_all (\<lambda>p. \<not> position_produces km (if c = 10 then 13 else c) p) before \<and>
        mods = resolve_modifiers km layout code level"
    unfolding resolve_char_def Let_def by (rule first_position)
qed

lemma process_input_Panic:
  "process_input env event s = Inl Panic \<longleftrightarrow>
     (case event of
        CE_ScrollVertical a \<Rightarrow> a = 0x8000
      | CE_KeyDown code \<Rightarrow> se_keyboard env \<and> 0xFFFFFFF7 < code
      | CE_KeyUp code \<Rightarrow> se_keyboard env \<and> 0xFFFFFFF7 < code
      | CE_MouseMoveAbsolute _ _ _ _ \<Rightarrow> bounds_inverted env
      | CE_MouseMoveRelative _ _ \<Rightarrow> bounds_inverted env
      | _ \<Rightarrow> False)"
proof -
  have low: "sint a = - 32768 \<longleftrightarrow> a = (0x8000 :: u16)" for a
  proof -
    have "sint (0x8000 :: u16) = - 32768" by simp
    then show ?thesis by (metis signed_word_eqI)
  qed
  show ?thesis
    by (cases event)
      (simp_all add: process_input_def Let_def rbind_eq_Inl move_absolute_def move_relative_def clamp_cursor_Panic low
        case_prod_beta)
qed

text \<open>
  C30. The packets of a client that panic the compositor thread: a vertical scroll by the smallest 16-bit amount, whose
  negation overflows, and a mouse motion on an output of no size, for which the bounds of the clamp are out of
  order. No key code, touch or pen position, or text that passes the parsers does.
\<close>

theorem client_input_panics_iff:
  assumes "handle_raw_input gamepad_open packet = Inr (ToCompositor event)"
  shows "process_input env event s = Inl Panic \<longleftrightarrow>
    event = CE_ScrollVertical 0x8000 \<or>
    bounds_inverted env \<and> (\<exists>x y w h dx dy. event \<in> {CE_MouseMoveAbsolute x y w h, CE_MouseMoveRelative dx dy})"
proof -
  have key: "\<not> 0xFFFFFFF7 < code" if "code < 128" for code :: u32
    using that by (simp add: word_less_nat_alt)
  have "compositor_safe event" using handle_raw_input_safe assms by blast
  then show ?thesis by (cases event) (auto simp: process_input_Panic key)
qed

text \<open>A mouse motion that does not panic leaves the cursor within the output and an open dropdown.\<close>

theorem cursor_within_bounds:
  assumes "process_input env event s = Inr (t, effects)" and "\<And>a. \<not> f_less (se_ops env) a a"
    and "event = CE_MouseMoveAbsolute x y w h \<or> event = CE_MouseMoveRelative dx dy"
  shows "case (cursor_bounds env, cursor_position t) of (((x0, x1), (y0, y1)), (px, py)) \<Rightarrow>
    \<not> f_less (se_ops env) px x0 \<and> \<not> f_less (se_ops env) x1 px \<and>
    \<not> f_less (se_ops env) py y0 \<and> \<not> f_less (se_ops env) y1 py"
proof -
  obtain p where p: "clamp_cursor env p = Inr (cursor_position t)"
    using assms(1,3) by (auto simp: process_input_def Let_def rbind_eq_Inr move_absolute_def move_relative_def case_prod_beta)
  obtain x0 x1 y0 y1 where b: "cursor_bounds env = ((x0, x1), (y0, y1))" by (metis surj_pair)
  show ?thesis using p b f_clamp_within [OF _ assms(2)]
    by (auto simp: clamp_cursor_bounds rbind_eq_Inr split: prod.splits)
qed

definition int_ops :: "int f64_ops" where
  "int_ops = \<lparr>f_int = id, f_f32 = uint, f_add = (+), f_mul = (*), f_div = (div), f_neg = uminus, f_less = (<),
     f_radians = id, f_sin = id, f_cos = id\<rparr>"

definition example_seat :: "int seat_env" where
  "example_seat = \<lparr>se_ops = int_ops, se_mode = Some (1920, 1080), se_size = (0, 0), se_override = None,
     se_surface_at = (\<lambda>p. Some (7, p)), se_locked = (\<lambda>_. False), se_keyboard = True, se_touch = True, se_tablet = True,
     se_keymap = \<lparr>km_min = 8, km_max = 9, km_layouts = 1, km_levels = (\<lambda>_ _. 1), km_syms = (\<lambda>_ _ _. []),
       km_masks = (\<lambda>_ _ _. []), km_mods = 0, km_utf8 = (\<lambda>_. [])\<rparr>, se_text = (\<lambda>_. [])\<rparr>"

definition example_input :: "int input_state" where
  "example_input = \<lparr>cursor_position = (0, 0), active_pen_tool_kind = None, pen_buttons = 0, pen_tools = [],
     pointer_activity = False\<rparr>"

definition example_pen :: "u8 \<Rightarrow> u8 \<Rightarrow> pen_input" where
  "example_pen kind buttons = \<lparr>pi_event_kind = kind, pi_tool_kind = 1, pi_buttons = buttons, pi_x = 0, pi_y = 0,
     pi_pressure_or_distance = 0, pi_rotation = 0xFFFF, pi_tilt = 0xFF\<rparr>"

theorem cursor_within_bounds_witness:
  "\<exists>t effects. process_input example_seat (CE_MouseMoveRelative 100 100) example_input = Inr (t, effects) \<and>
     fst (cursor_position t) \<le> 1919"
proof -
  have "process_input example_seat (CE_MouseMoveRelative 100 100) example_input \<noteq> Inl e" for e
    by (cases e) (simp_all add: process_input_def example_seat_def example_input_def int_ops_def Let_def
        move_relative_def clamp_cursor_def output_size_def axis_bounds_def f_clamp_def)
  then obtain t effects where
    r: "process_input example_seat (CE_MouseMoveRelative 100 100) example_input = Inr (t, effects)"
    by (metis sum.exhaust surj_pair)
  from cursor_within_bounds [OF r, of 0 0 0 0 100 100] have "fst (cursor_position t) \<le> 1919"
    by (auto simp: cursor_bounds_def axis_bounds_def output_size_def example_seat_def int_ops_def split: prod.splits)
  with r show ?thesis by blast
qed

theorem client_input_panics_iff_witness:
  "\<exists>event. handle_raw_input True [0x0A, 0, 0, 0, 0x80, 0x00] = Inr (ToCompositor event) \<and> process_input example_seat event example_input = Inl Panic"
proof -
  have "from_le32 (slice 0 4 [0x0A, 0, 0, 0, 0x80, 0x00]) = 0x0A" by (simp add: slice_def from_le32_def)
  then have "handle_raw_input True [0x0A, 0, 0, 0, 0x80, 0x00] = Inr (ToCompositor (CE_ScrollVertical 0x8000))"
    by (simp add: handle_raw_input_def input_event_from_bytes_def input_type_from_repr_def input_type_codes_def
        mouse_scroll_vertical_from_bytes_def slice_def from_be16_def from_le16_def)
  with client_input_panics_iff [of True "[0x0A, 0, 0, 0, 0x80, 0x00]" _ example_seat example_input] show ?thesis by blast
qed

theorem pen_protocol_witness:
  "\<exists>st. tablet_run (snd (pen_session [(example_seat, example_pen 1 2), (example_seat, example_pen 6 0)] example_input))
     \<lparr>tool_in = None, tip_is_down = False, held_buttons = {}\<rparr> = Some st \<and> tool_in st = None"
proof -
  have "active_pen_tool_kind (fst (pen_session [(example_seat, example_pen 1 2), (example_seat, example_pen 6 0)]
      example_input)) = None"
    by (simp add: process_pen_input_def release_pen_def Let_def example_pen_def pen_event_kinds case_prod_beta
        split: option.split)
  then show ?thesis
    using pen_protocol [of example_input "[(example_seat, example_pen 1 2), (example_seat, example_pen 6 0)]"]
    by (auto simp: example_input_def simp del: pen_session.simps)
qed

end
