(* ===== verification/Color_Management.thy ===== *)
theory Color_Management
  imports Control_Message "HOL-Library.AList"
begin

text \<open>
  Colour spaces and HDR metadata of the surfaces: \<open>session/compositor/color_management.rs\<close> and
  \<open>gamescope_swapchain.rs\<close>. The protocol objects are a map from object numbers to the user data attached to them; a
  request gives the new state and the events sent. A hash map is an association list, in some order of iteration.
\<close>

section \<open>Descriptions\<close>

datatype color_space = FCS_Srgb | FCS_Bt2020Pq | FCS_ScrgbLinear

datatype transfer_function = Gamma22 | St2084Pq | ScrgbLinear

datatype primaries = Srgb | Bt2020

type_synonym xy = "u32 \<times> u32"

record image_description =
  id_transfer_function :: transfer_function
  id_primaries :: primaries
  id_max_cll :: "u32 option"
  id_max_fall :: "u32 option"
  id_mastering_luminance :: "xy option"
  id_mastering_primaries :: "(xy \<times> xy \<times> xy) option"
  id_white_point :: "xy option"

definition plain_description :: "transfer_function \<Rightarrow> primaries \<Rightarrow> image_description" where
  "plain_description tf p =
     \<lparr>id_transfer_function = tf, id_primaries = p, id_max_cll = None, id_max_fall = None,
      id_mastering_luminance = None, id_mastering_primaries = None, id_white_point = None\<rparr>"

definition srgb :: image_description where "srgb = plain_description Gamma22 Srgb"
definition bt2020_pq :: image_description where "bt2020_pq = plain_description St2084Pq Bt2020"
definition scrgb_linear :: image_description where "scrgb_linear = plain_description ScrgbLinear Srgb"

definition to_frame_color_space :: "image_description \<Rightarrow> color_space" where
  "to_frame_color_space d =
     (case (id_primaries d, id_transfer_function d) of
        (Bt2020, St2084Pq) \<Rightarrow> FCS_Bt2020Pq
      | (Srgb, ScrgbLinear) \<Rightarrow> FCS_ScrgbLinear
      | _ \<Rightarrow> FCS_Srgb)"

record creator_params =
  cp_transfer_function :: "transfer_function option"
  cp_primaries :: "primaries option"
  cp_max_cll :: "u32 option"
  cp_max_fall :: "u32 option"
  cp_mastering_luminance :: "xy option"
  cp_mastering_primaries :: "(xy \<times> xy \<times> xy) option"
  cp_white_point :: "xy option"

definition creator_params_default :: creator_params where
  "creator_params_default =
     \<lparr>cp_transfer_function = None, cp_primaries = None, cp_max_cll = None, cp_max_fall = None,
      cp_mastering_luminance = None, cp_mastering_primaries = None, cp_white_point = None\<rparr>"

definition or_default :: "'a \<Rightarrow> 'a option \<Rightarrow> 'a" where
  "or_default d x = (case x of None \<Rightarrow> d | Some v \<Rightarrow> v)"

lemma or_default_simps [simp]: "or_default d None = d" "or_default d (Some v) = v"
  by (simp_all add: or_default_def)

definition create_description :: "creator_params \<Rightarrow> image_description" where
  "create_description p =
     \<lparr>id_transfer_function = or_default Gamma22 (cp_transfer_function p),
      id_primaries = or_default Srgb (cp_primaries p), id_max_cll = cp_max_cll p, id_max_fall = cp_max_fall p,
      id_mastering_luminance = cp_mastering_luminance p, id_mastering_primaries = cp_mastering_primaries p,
      id_white_point = cp_white_point p\<rparr>"

section \<open>The state per surface\<close>

record mastering_metadata =
  mm_max_cll :: u32
  mm_max_fall :: u32
  mm_mastering_luminance :: xy
  mm_mastering_primaries :: "xy \<times> xy \<times> xy"
  mm_white_point :: xy

definition is_plausible :: "mastering_metadata \<Rightarrow> bool" where
  "is_plausible m \<longleftrightarrow>
     mm_max_cll m \<noteq> 0 \<and> mm_max_fall m \<noteq> 0 \<and> (fst (mm_white_point m) \<noteq> 0 \<or> snd (mm_white_point m) \<noteq> 0)"

definition apply_to :: "mastering_metadata \<Rightarrow> image_description \<Rightarrow> image_description" where
  "apply_to m d =
     d\<lparr>id_max_cll := Some (mm_max_cll m), id_max_fall := Some (mm_max_fall m),
       id_mastering_luminance := Some (mm_mastering_luminance m),
       id_mastering_primaries := Some (mm_mastering_primaries m), id_white_point := Some (mm_white_point m)\<rparr>"

record swapchain_color =
  sc_colorspace :: "(transfer_function \<times> primaries) option"
  sc_metadata :: "mastering_metadata option"

definition swapchain_color_default :: swapchain_color where
  "swapchain_color_default = \<lparr>sc_colorspace = None, sc_metadata = None\<rparr>"

definition to_image_description :: "swapchain_color \<Rightarrow> image_description option" where
  "to_image_description c =
     (case sc_colorspace c of
        None \<Rightarrow> None
      | Some (tf, p) \<Rightarrow>
          let desc = srgb\<lparr>id_transfer_function := tf, id_primaries := p\<rparr> in
          Some (case sc_metadata c of None \<Rightarrow> desc | Some m \<Rightarrow> apply_to m desc))"

type_synonym color_surface = nat

record color_state =
  cs_pending :: "(color_surface \<times> image_description option) list"
  cs_current :: "(color_surface \<times> image_description) list"
  cs_gamescope_current :: "(color_surface \<times> swapchain_color) list"
  cs_hdr :: bool

definition color_state_new :: "bool \<Rightarrow> color_state" where
  "color_state_new hdr = \<lparr>cs_pending = [], cs_current = [], cs_gamescope_current = [], cs_hdr = hdr\<rparr>"

definition set_pending :: "color_surface \<Rightarrow> image_description \<Rightarrow> color_state \<Rightarrow> color_state" where
  "set_pending s d st = st\<lparr>cs_pending := AList.update s (Some d) (cs_pending st)\<rparr>"

definition unset_pending :: "color_surface \<Rightarrow> color_state \<Rightarrow> color_state" where
  "unset_pending s st = st\<lparr>cs_pending := AList.update s None (cs_pending st)\<rparr>"

definition gamescope_entry :: "color_surface \<Rightarrow> color_state \<Rightarrow> swapchain_color" where
  "gamescope_entry s st = or_default swapchain_color_default (map_of (cs_gamescope_current st) s)"

definition set_gamescope_colorspace :: "color_surface \<Rightarrow> transfer_function \<Rightarrow> primaries \<Rightarrow> color_state \<Rightarrow> color_state" where
  "set_gamescope_colorspace s tf p st =
     st\<lparr>cs_gamescope_current :=
          AList.update s (gamescope_entry s st\<lparr>sc_colorspace := Some (tf, p)\<rparr>) (cs_gamescope_current st)\<rparr>"

definition set_gamescope_hdr_metadata :: "color_surface \<Rightarrow> mastering_metadata \<Rightarrow> color_state \<Rightarrow> color_state" where
  "set_gamescope_hdr_metadata s m st =
     (if \<not> is_plausible m then st
      else st\<lparr>cs_gamescope_current :=
          AList.update s (gamescope_entry s st\<lparr>sc_metadata := Some m\<rparr>) (cs_gamescope_current st)\<rparr>)"

definition clear_gamescope_current :: "color_surface \<Rightarrow> color_state \<Rightarrow> color_state" where
  "clear_gamescope_current s st = st\<lparr>cs_gamescope_current := AList.delete s (cs_gamescope_current st)\<rparr>"

definition commit_color :: "color_surface \<Rightarrow> color_state \<Rightarrow> color_state" where
  "commit_color s st =
     (case map_of (cs_pending st) s of
        None \<Rightarrow> st
      | Some p \<Rightarrow>
          let st = st\<lparr>cs_pending := AList.delete s (cs_pending st)\<rparr> in
          (case p of
             Some d \<Rightarrow> st\<lparr>cs_current := AList.update s d (cs_current st)\<rparr>
           | None \<Rightarrow> st\<lparr>cs_current := AList.delete s (cs_current st)\<rparr>))"

definition surface_destroyed :: "color_surface \<Rightarrow> color_state \<Rightarrow> color_state" where
  "surface_destroyed s st =
     st\<lparr>cs_pending := AList.delete s (cs_pending st), cs_current := AList.delete s (cs_current st),
        cs_gamescope_current := AList.delete s (cs_gamescope_current st)\<rparr>"

definition all_descriptions :: "color_state \<Rightarrow> image_description list" where
  "all_descriptions st =
     List.map_filter (\<lambda>e. to_image_description (snd e)) (cs_gamescope_current st) @ map snd (cs_current st)"

definition frame_color_space :: "color_state \<Rightarrow> color_space" where
  "frame_color_space st =
     (let spaces = map to_frame_color_space (all_descriptions st) in
      if FCS_Bt2020Pq \<in> set spaces then FCS_Bt2020Pq
      else or_default FCS_Srgb (find (\<lambda>cs. cs \<noteq> FCS_Srgb) spaces))"

definition u16_sat :: "u32 \<Rightarrow> u16" where
  "u16_sat v = (if v \<le> 0xFFFF then ucast v else 0xFFFF)"

definition xy_sat :: "xy \<Rightarrow> u16 \<times> u16" where
  "xy_sat p = (u16_sat (fst p), u16_sat (snd p))"

definition has_metadata :: "image_description \<Rightarrow> bool" where
  "has_metadata d \<longleftrightarrow> id_max_cll d \<noteq> None \<or> id_max_fall d \<noteq> None \<or> id_mastering_luminance d \<noteq> None"

definition description_metadata :: "image_description \<Rightarrow> hdr_metadata" where
  "description_metadata d =
     \<lparr>display_primaries = (case id_mastering_primaries d of
          None \<Rightarrow> replicate 3 (0, 0) | Some (r, g, b) \<Rightarrow> [xy_sat r, xy_sat g, xy_sat b]),
      white_point = (case id_white_point d of None \<Rightarrow> (0, 0) | Some w \<Rightarrow> xy_sat w),
      max_luminance = (case id_mastering_luminance d of None \<Rightarrow> 0 | Some (lo, hi) \<Rightarrow> hi),
      min_luminance = (case id_mastering_luminance d of None \<Rightarrow> 0 | Some (lo, hi) \<Rightarrow> lo),
      max_cll = u16_sat (or_default 0 (id_max_cll d)),
      max_fall = u16_sat (or_default 0 (id_max_fall d))\<rparr>"

definition frame_hdr_metadata :: "color_state \<Rightarrow> hdr_metadata option" where
  "frame_hdr_metadata st =
     map_option description_metadata
       (find has_metadata (filter (\<lambda>d. to_frame_color_space d \<noteq> FCS_Srgb) (all_descriptions st)))"

section \<open>The protocol\<close>

datatype tf_name = TF_Srgb | TF_Gamma22 | TF_St2084Pq | TF_ExtLinear | TF_Unknown nat

datatype primaries_name = PN_Srgb | PN_Bt2020 | PN_Unknown nat

datatype color_object =
    Color_Manager
  | Color_Surface color_surface
  | Image_Description image_description
  | Params_Creator creator_params
  | Icc_Creator
  | Color_Output
  | Surface_Feedback color_surface
  | Description_Info
  | Representation_Manager
  | Representation_Surface color_surface
  | Swapchain_Factory
  | Swapchain color_surface

datatype color_feature =
    Intent_Perceptual | Feature_Parametric | Feature_Set_Primaries | Feature_Set_Mastering_Display_Primaries
  | Feature_Extended_Target_Volume | Feature_Set_Luminances | Feature_Windows_Scrgb
  | Supports_Tf tf_name | Supports_Primaries primaries_name
  | Alpha_Premultiplied_Electrical | Alpha_Straight | Identity_Full_Range

datatype color_event =
    Supported color_feature | Manager_Done
  | Ready u32 | Failed_Unsupported
  | Info_Primaries primaries_name | Info_Tf tf_name | Info_Luminances u32 u32 u32 | Info_Target_Luminance u32 u32
  | Info_Done
  | Refresh_Cycle u32 u32

record hdr_request =
  hr_primaries :: "xy \<times> xy \<times> xy"
  hr_white_point :: xy
  hr_max_luminance :: u32
  hr_min_luminance :: u32
  hr_max_cll :: u32
  hr_max_fall :: u32

datatype color_request =
    Get_Surface nat color_surface
  | Get_Output nat
  | Get_Surface_Feedback nat color_surface
  | Create_Parametric_Creator nat
  | Create_Icc_Creator nat
  | Create_Windows_Scrgb nat
  | Set_Image_Description nat
  | Unset_Image_Description
  | Create_Description nat
  | Set_Tf_Named tf_name
  | Set_Primaries_Named primaries_name
  | Set_Max_Cll u32
  | Set_Max_Fall u32
  | Set_Mastering_Luminance u32 u32
  | Set_Mastering_Display_Primaries "xy \<times> xy \<times> xy" xy
  | Get_Information nat
  | Get_Image_Description nat
  | Get_Preferred nat
  | Create_Swapchain color_surface nat
  | Swapchain_Feedback u32
  | Override_Window_Content
  | Set_Hdr_Metadata hdr_request
  | Set_Alpha_Mode nat
  | Set_Coefficients_And_Range nat nat
  | Set_Chroma_Location nat
  | Other_Request

text \<open>
  The compositor's part: \<open>cc_override\<close> is the surface of the override, \<open>cc_deferred\<close> the infos whose last event waits
  for the end of the dispatch, \<open>cc_refresh\<close> the refresh rate of the preferred mode in mHz as an \<open>i32\<close>.
\<close>

record color_comp =
  cc_color :: "color_state option"
  cc_objects :: "nat \<Rightarrow> color_object option"
  cc_deferred :: "nat list"
  cc_override :: "color_surface option"
  cc_refresh :: "u32 option"

type_synonym color_step = "color_comp \<times> (nat \<times> color_event) list"

definition color_comp_new :: "bool \<Rightarrow> u32 option \<Rightarrow> color_comp" where
  "color_comp_new hdr refresh =
     \<lparr>cc_color = (if hdr then Some (color_state_new hdr) else None), cc_objects = Map.empty, cc_deferred = [],
      cc_override = None, cc_refresh = refresh\<rparr>"

definition init_object :: "nat \<Rightarrow> color_object \<Rightarrow> color_comp \<Rightarrow> color_comp" where
  "init_object i ob c = c\<lparr>cc_objects := (cc_objects c)(i \<mapsto> ob)\<rparr>"

definition with_color :: "(color_state \<Rightarrow> color_state) \<Rightarrow> color_comp \<Rightarrow> color_comp" where
  "with_color f c = c\<lparr>cc_color := map_option f (cc_color c)\<rparr>"

subsection \<open>Binding the globals\<close>

datatype color_global = Global_Color_Manager | Global_Representation_Manager | Global_Moonshine_Factory
  | Global_Gamescope_Factory

definition color_globals :: "bool \<Rightarrow> color_global list" where
  "color_globals hdr =
     (if hdr then [Global_Color_Manager, Global_Representation_Manager] else []) @
     [Global_Moonshine_Factory] @ (if hdr then [Global_Gamescope_Factory] else [])"

fun bind_global :: "color_global \<Rightarrow> nat \<Rightarrow> color_comp \<Rightarrow> color_step" where
  "bind_global Global_Color_Manager i c =
     (init_object i Color_Manager c,
      map (\<lambda>f. (i, Supported f))
        [Intent_Perceptual, Feature_Parametric, Feature_Set_Primaries, Feature_Set_Mastering_Display_Primaries,
         Feature_Extended_Target_Volume, Feature_Set_Luminances, Feature_Windows_Scrgb, Supports_Tf TF_Srgb,
         Supports_Tf TF_Gamma22, Supports_Tf TF_St2084Pq, Supports_Primaries PN_Srgb, Supports_Primaries PN_Bt2020] @
      [(i, Manager_Done)])"
| "bind_global Global_Representation_Manager i c =
     (init_object i Representation_Manager c,
      map (\<lambda>f. (i, Supported f)) [Alpha_Premultiplied_Electrical, Alpha_Straight, Identity_Full_Range] @
      [(i, Manager_Done)])"
| "bind_global _ i c = (init_object i Swapchain_Factory c, [])"

subsection \<open>Requests\<close>

fun tf_from_name :: "tf_name \<Rightarrow> transfer_function" where
  "tf_from_name TF_St2084Pq = St2084Pq"
| "tf_from_name _ = Gamma22"

fun primaries_from_name :: "primaries_name \<Rightarrow> primaries" where
  "primaries_from_name PN_Bt2020 = Bt2020"
| "primaries_from_name _ = Srgb"

definition saturating_mul_10000 :: "u32 \<Rightarrow> u32" where
  "saturating_mul_10000 v = (if unat v * 10000 < 2 ^ 32 then v * 10000 else 0xFFFFFFFF)"

text \<open>A coordinate of the protocol is an \<open>i32\<close>.\<close>

definition to_cta :: "u32 \<Rightarrow> u32" where
  "to_cta v = (if sint v < 0 then 0 else v) div 20"

definition xy_cta :: "xy \<Rightarrow> xy" where
  "xy_cta p = (to_cta (fst p), to_cta (snd p))"

fun creator_request :: "color_request \<Rightarrow> creator_params \<Rightarrow> creator_params" where
  "creator_request (Set_Tf_Named tf) p = p\<lparr>cp_transfer_function := Some (tf_from_name tf)\<rparr>"
| "creator_request (Set_Primaries_Named n) p = p\<lparr>cp_primaries := Some (primaries_from_name n)\<rparr>"
| "creator_request (Set_Max_Cll v) p = p\<lparr>cp_max_cll := Some v\<rparr>"
| "creator_request (Set_Max_Fall v) p = p\<lparr>cp_max_fall := Some v\<rparr>"
| "creator_request (Set_Mastering_Luminance lo hi) p = p\<lparr>cp_mastering_luminance := Some (lo, saturating_mul_10000 hi)\<rparr>"
| "creator_request (Set_Mastering_Display_Primaries (r, g, b) w) p =
     p\<lparr>cp_mastering_primaries := Some (xy_cta r, xy_cta g, xy_cta b), cp_white_point := Some (xy_cta w)\<rparr>"
| "creator_request _ p = p"

definition info_events :: "image_description \<Rightarrow> color_event list" where
  "info_events d =
     (case id_primaries d of Srgb \<Rightarrow> [Info_Primaries PN_Srgb] | Bt2020 \<Rightarrow> [Info_Primaries PN_Bt2020]) @
     (case id_transfer_function d of
        Gamma22 \<Rightarrow> [Info_Tf TF_Gamma22, Info_Luminances 2000 80 80, Info_Target_Luminance 2000 80]
      | St2084Pq \<Rightarrow> [Info_Tf TF_St2084Pq, Info_Luminances 0 10000 203, Info_Target_Luminance 0 10000]
      | ScrgbLinear \<Rightarrow> [Info_Tf TF_ExtLinear, Info_Luminances 0 10000 80, Info_Target_Luminance 0 10000])"

definition preferred_description :: "color_comp \<Rightarrow> image_description" where
  "preferred_description c =
     (if case cc_color c of None \<Rightarrow> False | Some cm \<Rightarrow> cs_hdr cm then bt2020_pq else srgb)"

definition VK_COLOR_SPACE_SRGB_NONLINEAR :: u32 where "VK_COLOR_SPACE_SRGB_NONLINEAR = 0"
definition VK_COLOR_SPACE_EXTENDED_SRGB_LINEAR_EXT :: u32 where
  "VK_COLOR_SPACE_EXTENDED_SRGB_LINEAR_EXT = 1000104002"
definition VK_COLOR_SPACE_HDR10_ST2084_EXT :: u32 where "VK_COLOR_SPACE_HDR10_ST2084_EXT = 1000104008"
definition VK_COLOR_SPACE_EXTENDED_SRGB_NONLINEAR_EXT :: u32 where
  "VK_COLOR_SPACE_EXTENDED_SRGB_NONLINEAR_EXT = 1000104014"

lemmas vk_color_spaces = VK_COLOR_SPACE_SRGB_NONLINEAR_def VK_COLOR_SPACE_EXTENDED_SRGB_LINEAR_EXT_def
  VK_COLOR_SPACE_HDR10_ST2084_EXT_def VK_COLOR_SPACE_EXTENDED_SRGB_NONLINEAR_EXT_def

definition feedback_color :: "color_surface \<Rightarrow> u32 \<Rightarrow> color_state \<Rightarrow> color_state" where
  "feedback_color s vk st =
     (if vk = VK_COLOR_SPACE_HDR10_ST2084_EXT then set_gamescope_colorspace s St2084Pq Bt2020 st
      else if vk = VK_COLOR_SPACE_EXTENDED_SRGB_LINEAR_EXT \<or> vk = VK_COLOR_SPACE_EXTENDED_SRGB_NONLINEAR_EXT
      then set_gamescope_colorspace s ScrgbLinear Srgb st
      else if vk = VK_COLOR_SPACE_SRGB_NONLINEAR then clear_gamescope_current s st
      else st)"

definition refresh_ns :: "u32 option \<Rightarrow> u64" where
  "refresh_ns refresh =
     (case refresh of
        Some r \<Rightarrow> of_int (1000000000000 div max (sint r) 1)
      | None \<Rightarrow> 11111111)"

definition refresh_cycle :: "u32 option \<Rightarrow> u32 \<times> u32" where
  "refresh_cycle refresh = (ucast (drop_bit 32 (refresh_ns refresh)), ucast (refresh_ns refresh AND 0xFFFFFFFF))"

definition handle_swapchain_feedback :: "color_surface \<Rightarrow> u32 \<Rightarrow> color_comp \<Rightarrow> color_comp \<times> (u32 \<times> u32)" where
  "handle_swapchain_feedback s vk c = (with_color (feedback_color s vk) c, refresh_cycle (cc_refresh c))"

text \<open>The colour part of \<open>override_window_surface\<close>.\<close>

definition override_color :: "color_surface \<Rightarrow> color_comp \<Rightarrow> color_comp" where
  "override_color s c =
     (let c' = (case cc_override c of
                  Some old \<Rightarrow> if old \<noteq> s then with_color (clear_gamescope_current old) c else c
                | None \<Rightarrow> c)
      in c'\<lparr>cc_override := Some s\<rparr>)"

definition request_metadata :: "hdr_request \<Rightarrow> mastering_metadata" where
  "request_metadata r =
     \<lparr>mm_max_cll = hr_max_cll r, mm_max_fall = hr_max_fall r,
      mm_mastering_luminance = (hr_min_luminance r, saturating_mul_10000 (hr_max_luminance r)),
      mm_mastering_primaries = hr_primaries r, mm_white_point = hr_white_point r\<rparr>"

definition handle_set_hdr_metadata :: "color_surface \<Rightarrow> hdr_request \<Rightarrow> color_comp \<Rightarrow> color_comp" where
  "handle_set_hdr_metadata s r = with_color (set_gamescope_hdr_metadata s (request_metadata r))"

definition init_description :: "nat \<Rightarrow> image_description \<Rightarrow> color_comp \<Rightarrow> color_step" where
  "init_description i d c = (init_object i (Image_Description d) c, [(i, Ready 0)])"

fun manager_request :: "color_request \<Rightarrow> color_comp \<Rightarrow> color_step" where
  "manager_request (Get_Surface i s) c = (init_object i (Color_Surface s) c, [])"
| "manager_request (Get_Output i) c = (init_object i Color_Output c, [])"
| "manager_request (Get_Surface_Feedback i s) c = (init_object i (Surface_Feedback s) c, [])"
| "manager_request (Create_Parametric_Creator i) c = (init_object i (Params_Creator creator_params_default) c, [])"
| "manager_request (Create_Icc_Creator i) c = (init_object i Icc_Creator c, [])"
| "manager_request (Create_Windows_Scrgb i) c = init_description i scrgb_linear c"
| "manager_request _ c = (c, [])"

fun surface_request :: "color_surface \<Rightarrow> color_request \<Rightarrow> color_comp \<Rightarrow> color_comp" where
  "surface_request s (Set_Image_Description i) c =
     (case cc_objects c i of Some (Image_Description d) \<Rightarrow> with_color (set_pending s d) c | _ \<Rightarrow> c)"
| "surface_request s Unset_Image_Description c = with_color (unset_pending s) c"
| "surface_request s _ c = c"

fun swapchain_request :: "nat \<Rightarrow> color_surface \<Rightarrow> color_request \<Rightarrow> color_comp \<Rightarrow> color_step" where
  "swapchain_request i s (Swapchain_Feedback vk) c =
     (let (c, (hi, lo)) = handle_swapchain_feedback s vk c in (c, [(i, Refresh_Cycle hi lo)]))"
| "swapchain_request i s Override_Window_Content c = (override_color s c, [])"
| "swapchain_request i s (Set_Hdr_Metadata r) c = (handle_set_hdr_metadata s r c, [])"
| "swapchain_request i s _ c = (c, [])"

fun creator_dispatch :: "nat \<Rightarrow> creator_params \<Rightarrow> color_request \<Rightarrow> color_comp \<Rightarrow> color_step" where
  "creator_dispatch i p (Create_Description n) c = init_description n (create_description p) c"
| "creator_dispatch i p r c = (init_object i (Params_Creator (creator_request r p)) c, [])"

fun description_request :: "image_description \<Rightarrow> color_request \<Rightarrow> color_comp \<Rightarrow> color_step" where
  "description_request d (Get_Information n) c =
     ((init_object n Description_Info c)\<lparr>cc_deferred := cc_deferred c @ [n]\<rparr>, map (Pair n) (info_events d))"
| "description_request d _ c = (c, [])"

fun output_request :: "color_request \<Rightarrow> color_comp \<Rightarrow> color_step" where
  "output_request (Get_Image_Description n) c = init_description n (preferred_description c) c"
| "output_request _ c = (c, [])"

fun feedback_request :: "color_request \<Rightarrow> color_comp \<Rightarrow> color_step" where
  "feedback_request (Get_Preferred n) c = init_description n (preferred_description c) c"
| "feedback_request _ c = (c, [])"

fun icc_request :: "color_request \<Rightarrow> color_comp \<Rightarrow> color_step" where
  "icc_request (Create_Description n) c = (init_object n (Image_Description srgb) c, [(n, Failed_Unsupported)])"
| "icc_request _ c = (c, [])"

fun representation_request :: "color_request \<Rightarrow> color_comp \<Rightarrow> color_step" where
  "representation_request (Get_Surface n s) c = (init_object n (Representation_Surface s) c, [])"
| "representation_request _ c = (c, [])"

text \<open>Accepted without an effect: there is a single surface that is passed through unchanged.\<close>

fun representation_surface_request :: "color_request \<Rightarrow> color_comp \<Rightarrow> color_step" where
  "representation_surface_request (Set_Alpha_Mode alpha_mode) c = (c, [])"
| "representation_surface_request (Set_Coefficients_And_Range coefficients color_range) c = (c, [])"
| "representation_surface_request (Set_Chroma_Location chroma_location) c = (c, [])"
| "representation_surface_request _ c = (c, [])"

lemma representation_surface_request_none [simp]: "representation_surface_request r c = (c, [])"
  by (cases r) simp_all

fun factory_request :: "color_request \<Rightarrow> color_comp \<Rightarrow> color_step" where
  "factory_request (Create_Swapchain s n) c = (init_object n (Swapchain s) (with_color (clear_gamescope_current s) c), [])"
| "factory_request _ c = (c, [])"

text \<open>
  The request handler of the object with a number, which the Wayland library finds by the kind of the object; a number
  without an object and a request that the object does not have reach no handler. The requests of a representation
  surface are accepted and ignored, an information object has none. The destruction of
  an object has no handler with an effect here and the reuse of its number is the library's, so neither is modelled:
  a number stands for one object of the session. done, which destroys an information object, is sent last and
  deferred (Dispatch_End).
\<close>

definition object_request :: "nat \<Rightarrow> color_request \<Rightarrow> color_comp \<Rightarrow> color_step" where
  "object_request i r c =
     (case cc_objects c i of
        None \<Rightarrow> (c, [])
      | Some Color_Manager \<Rightarrow> manager_request r c
      | Some (Color_Surface s) \<Rightarrow> (surface_request s r c, [])
      | Some (Params_Creator p) \<Rightarrow> creator_dispatch i p r c
      | Some (Image_Description d) \<Rightarrow> description_request d r c
      | Some Color_Output \<Rightarrow> output_request r c
      | Some (Surface_Feedback s) \<Rightarrow> feedback_request r c
      | Some Icc_Creator \<Rightarrow> icc_request r c
      | Some Representation_Manager \<Rightarrow> representation_request r c
      | Some Swapchain_Factory \<Rightarrow> factory_request r c
      | Some (Swapchain s) \<Rightarrow> swapchain_request i s r c
      | Some (Representation_Surface _) \<Rightarrow> representation_surface_request r c
      | Some Description_Info \<Rightarrow> (c, []))"

subsection \<open>The run of a session\<close>

datatype color_input =
    Bind color_global nat
  | Request nat color_request
  | Surface_Commit color_surface
  | Surface_Gone color_surface
  | Dispatch_End

fun color_input_step :: "color_input \<Rightarrow> color_comp \<Rightarrow> color_step" where
  "color_input_step (Bind g i) c = bind_global g i c"
| "color_input_step (Request i r) c = object_request i r c"
| "color_input_step (Surface_Commit s) c = (with_color (commit_color s) c, [])"
| "color_input_step (Surface_Gone s) c = (with_color (surface_destroyed s) c, [])"
| "color_input_step Dispatch_End c = (c\<lparr>cc_deferred := []\<rparr>, map (\<lambda>i. (i, Info_Done)) (cc_deferred c))"

fun color_session :: "color_input list \<Rightarrow> color_comp \<Rightarrow> color_step" where
  "color_session [] c = (c, [])"
| "color_session (x # xs) c =
     (let (c, events) = color_input_step x c; (c, more) = color_session xs c in (c, events @ more))"

text \<open>What the renderer attaches to a frame.\<close>

definition exported_color :: "color_comp \<Rightarrow> color_space \<times> hdr_metadata option" where
  "exported_color c =
     (or_default FCS_Srgb (map_option frame_color_space (cc_color c)),
      Option.bind (cc_color c) frame_hdr_metadata)"

end
