(* ===== verification/Color_Props.thy ===== *)
theory Color_Props
  imports Color_Management
begin

text \<open>
  What the colour protocols guarantee: mastering metadata never decides the colour space of a frame, it reaches the
  client's payload unchanged, and the information about a description is enough to build it again.
\<close>

section \<open>Lemmas\<close>

lemma with_color_simps [simp]:
  "cc_objects (with_color f c) = cc_objects c" "cc_deferred (with_color f c) = cc_deferred c"
  "cc_override (with_color f c) = cc_override c" "cc_refresh (with_color f c) = cc_refresh c"
  "cc_color (with_color f c) = map_option f (cc_color c)"
  by (simp_all add: with_color_def)

lemma init_object_simps [simp]:
  "cc_objects (init_object i ob c) = (cc_objects c)(i \<mapsto> ob)" "cc_deferred (init_object i ob c) = cc_deferred c"
  "cc_override (init_object i ob c) = cc_override c" "cc_refresh (init_object i ob c) = cc_refresh c"
  "cc_color (init_object i ob c) = cc_color c"
  by (simp_all add: init_object_def)

lemma override_color_simps [simp]:
  "cc_objects (override_color s c) = cc_objects c" "cc_deferred (override_color s c) = cc_deferred c"
  by (simp_all add: override_color_def Let_def split: option.splits)

lemma color_session_append:
  "fst (color_session (xs @ ys) c) = fst (color_session ys (fst (color_session xs c)))"
  by (induction xs arbitrary: c) (simp_all add: case_prod_beta Let_def)

subsection \<open>Colour spaces\<close>

definition color_wf :: "color_state \<Rightarrow> bool" where
  "color_wf st \<longleftrightarrow> distinct (map fst (cs_gamescope_current st)) \<and> distinct (map fst (cs_current st))"

definition colorspace_at :: "color_state \<Rightarrow> color_surface \<Rightarrow> (transfer_function \<times> primaries) option" where
  "colorspace_at st s = Option.bind (map_of (cs_gamescope_current st) s) sc_colorspace"

definition same_spaces :: "color_state \<Rightarrow> color_state \<Rightarrow> bool" where
  "same_spaces st st' \<longleftrightarrow> cs_pending st' = cs_pending st \<and> cs_current st' = cs_current st \<and> cs_hdr st' = cs_hdr st \<and>
     colorspace_at st' = colorspace_at st \<and> color_wf st \<and> color_wf st'"

lemmas color_ops = set_pending_def unset_pending_def set_gamescope_colorspace_def set_gamescope_hdr_metadata_def
  clear_gamescope_current_def commit_color_def surface_destroyed_def feedback_color_def

lemma color_wf_ops [simp]:
  "color_wf st \<Longrightarrow> color_wf (set_pending s d st)" "color_wf st \<Longrightarrow> color_wf (unset_pending s st)"
  "color_wf st \<Longrightarrow> color_wf (set_gamescope_colorspace s tf p st)"
  "color_wf st \<Longrightarrow> color_wf (set_gamescope_hdr_metadata s m st)"
  "color_wf st \<Longrightarrow> color_wf (clear_gamescope_current s st)" "color_wf st \<Longrightarrow> color_wf (commit_color s st)"
  "color_wf st \<Longrightarrow> color_wf (surface_destroyed s st)"
  by (simp_all add: color_wf_def color_ops AList.distinct_update AList.distinct_delete Let_def split: option.splits)

lemma frame_spaces_image:
  assumes "color_wf st"
  shows "set (map to_frame_color_space (all_descriptions st)) =
    {to_frame_color_space (plain_description tf p) | tf p s. colorspace_at st s = Some (tf, p)} \<union>
    to_frame_color_space ` set (map snd (cs_current st))"
proof -
  have fcs: "to_frame_color_space d = to_frame_color_space (plain_description tf p)"
    if "to_image_description c = Some d" "sc_colorspace c = Some (tf, p)" for c d tf p
    using that by (auto simp: to_image_description_def Let_def to_frame_color_space_def plain_description_def apply_to_def srgb_def
        split: option.splits primaries.split transfer_function.split)
  have mem: "(s, c) \<in> set (cs_gamescope_current st) \<longleftrightarrow> map_of (cs_gamescope_current st) s = Some c" for s c
    using assms by (simp add: color_wf_def)
  have "to_frame_color_space ` set (List.map_filter (\<lambda>e. to_image_description (snd e)) (cs_gamescope_current st)) =
      {to_frame_color_space (plain_description tf p) | tf p s. colorspace_at st s = Some (tf, p)}"
  proof (intro set_eqI iffI)
    fix x
    assume "x \<in> to_frame_color_space ` set (List.map_filter (\<lambda>e. to_image_description (snd e)) (cs_gamescope_current st))"
    then obtain s c d where d: "(s, c) \<in> set (cs_gamescope_current st)" "to_image_description c = Some d"
      "x = to_frame_color_space d"
      by (auto simp: List.map_filter_def)
    then obtain tf p where tfp: "sc_colorspace c = Some (tf, p)"
      by (auto simp: to_image_description_def split: option.splits)
    then have "colorspace_at st s = Some (tf, p)" using d(1) by (simp add: colorspace_at_def mem)
    then show "x \<in> {to_frame_color_space (plain_description tf p) | tf p s. colorspace_at st s = Some (tf, p)}"
      using fcs [OF d(2) tfp] d(3) by blast
  next
    fix x
    assume "x \<in> {to_frame_color_space (plain_description tf p) | tf p s. colorspace_at st s = Some (tf, p)}"
    then obtain tf p s c where x: "x = to_frame_color_space (plain_description tf p)"
      "map_of (cs_gamescope_current st) s = Some c" "sc_colorspace c = Some (tf, p)"
      by (auto simp: colorspace_at_def bind_eq_Some_conv)
    then obtain d where d: "to_image_description c = Some d" by (auto simp: to_image_description_def Let_def)
    have "x = to_frame_color_space d" using fcs [OF d x(3)] x(1) by simp
    moreover have "(s, c) \<in> set (cs_gamescope_current st)" using x(2) by (simp add: mem)
    ultimately show "x \<in> to_frame_color_space ` set (List.map_filter (\<lambda>e. to_image_description (snd e)) (cs_gamescope_current st))"
      using d by (force simp: List.map_filter_def image_iff)
  qed
  then show ?thesis by (simp add: all_descriptions_def image_Un image_image)
qed

lemma frame_color_space_by_set:
  "frame_color_space st =
     (let spaces = set (map to_frame_color_space (all_descriptions st)) in
      if FCS_Bt2020Pq \<in> spaces then FCS_Bt2020Pq else if FCS_ScrgbLinear \<in> spaces then FCS_ScrgbLinear else FCS_Srgb)"
proof -
  have "or_default FCS_Srgb (find (\<lambda>cs. cs \<noteq> FCS_Srgb) xs) =
      (if FCS_ScrgbLinear \<in> set xs then FCS_ScrgbLinear else FCS_Srgb)" if "FCS_Bt2020Pq \<notin> set xs" for xs
    using that
  proof (induction xs)
    case (Cons x xs)
    then show ?case by (cases x) simp_all
  qed simp
  then show ?thesis by (simp add: frame_color_space_def Let_def)
qed

lemma frame_color_space_same: "same_spaces st st' \<Longrightarrow> frame_color_space st' = frame_color_space st"
  by (simp add: same_spaces_def frame_color_space_by_set frame_spaces_image del: set_map)

lemma same_spaces_ops:
  assumes "same_spaces st st'"
  shows "same_spaces (set_pending s d st) (set_pending s d st')"
    and "same_spaces (unset_pending s st) (unset_pending s st')"
    and "same_spaces (set_gamescope_colorspace s tf p st) (set_gamescope_colorspace s tf p st')"
    and "same_spaces (clear_gamescope_current s st) (clear_gamescope_current s st')"
    and "same_spaces (commit_color s st) (commit_color s st')"
    and "same_spaces (surface_destroyed s st) (surface_destroyed s st')"
    and "same_spaces (set_gamescope_hdr_metadata s m st) st'"
  using assms unfolding same_spaces_def colorspace_at_def fun_eq_iff
  by (simp_all, simp_all add: color_ops AList.update_conv' AList.delete_conv' gamescope_entry_def Let_def or_default_def
      swapchain_color_default_def split: option.splits)

definition same_comp :: "color_comp \<Rightarrow> color_comp \<Rightarrow> bool" where
  "same_comp c c' \<longleftrightarrow> cc_objects c' = cc_objects c \<and> cc_deferred c' = cc_deferred c \<and> cc_override c' = cc_override c \<and>
     cc_refresh c' = cc_refresh c \<and> rel_option same_spaces (cc_color c) (cc_color c')"

lemma same_comp_with_color:
  "same_comp c c' \<Longrightarrow> (\<And>st st'. same_spaces st st' \<Longrightarrow> same_spaces (f st) (f st')) \<Longrightarrow>
   same_comp (with_color f c) (with_color f c')"
  by (auto simp: same_comp_def option.rel_map elim!: option.rel_mono_strong)

lemma same_comp_init: "same_comp c c' \<Longrightarrow> same_comp (init_object i ob c) (init_object i ob c')"
  by (simp add: same_comp_def)

lemma same_comp_override: "same_comp c c' \<Longrightarrow> same_comp (c\<lparr>cc_override := v\<rparr>) (c'\<lparr>cc_override := v\<rparr>)"
  "same_comp c c' \<Longrightarrow> same_comp (c\<lparr>cc_deferred := w\<rparr>) (c'\<lparr>cc_deferred := w\<rparr>)"
  by (simp_all add: same_comp_def)

lemma same_feedback: "same_spaces st st' \<Longrightarrow> same_spaces (feedback_color s vk st) (feedback_color s vk st')"
  by (simp add: feedback_color_def same_spaces_ops)

lemma same_override_color: "same_comp c c' \<Longrightarrow> same_comp (override_color s c) (override_color s c')"
  by (auto simp: override_color_def Let_def same_comp_def [of c c'] intro!: same_comp_override same_comp_with_color
      same_spaces_ops split: option.splits)

lemma same_preferred: "same_comp c c' \<Longrightarrow> preferred_description c' = preferred_description c"
  by (auto simp: same_comp_def preferred_description_def same_spaces_def split: option.splits)

lemma same_metadata_step:
  assumes "same_comp c c'"
  shows "same_comp (handle_set_hdr_metadata s r c) c'"
proof -
  have "rel_option same_spaces (map_option (set_gamescope_hdr_metadata s (request_metadata r)) (cc_color c)) (cc_color c')"
    using assms unfolding same_comp_def option.rel_map
    by (auto elim!: option.rel_mono_strong intro: same_spaces_ops)
  then show ?thesis using assms by (simp add: same_comp_def handle_set_hdr_metadata_def)
qed

lemma same_description:
  "same_comp c c' \<Longrightarrow> d' = d \<Longrightarrow> same_comp (fst (init_description n d c)) (fst (init_description n d' c'))"
  by (simp add: init_description_def same_comp_init)

fun is_metadata :: "color_input \<Rightarrow> bool" where
  "is_metadata (Request _ (Set_Hdr_Metadata _)) = True"
| "is_metadata _ = False"

lemma same_surface_request: "same_comp c c' \<Longrightarrow> same_comp (surface_request s r c) (surface_request s r c')"
proof (cases r)
  case (Set_Image_Description i)
  assume "same_comp c c'"
  moreover from this have "cc_objects c' = cc_objects c" by (simp add: same_comp_def)
  ultimately show ?thesis using Set_Image_Description
    by (auto intro: same_comp_with_color same_spaces_ops split: option.split color_object.split)
qed (auto intro: same_comp_with_color same_spaces_ops)

lemma same_swapchain_request:
  "same_comp c c' \<Longrightarrow> \<not> is_metadata (Request i r) \<Longrightarrow>
   same_comp (fst (swapchain_request i s r c)) (fst (swapchain_request i s r c'))"
  by (cases r) (auto simp: handle_swapchain_feedback_def case_prod_beta intro: same_override_color same_comp_with_color same_feedback)

lemma same_step:
  assumes "same_comp c c'" and "\<not> is_metadata x"
  shows "same_comp (fst (color_input_step x c)) (fst (color_input_step x c'))"
proof (cases x)
  case (Bind g i)
  then show ?thesis using assms by (cases g) (simp_all add: same_comp_init)
next
  case (Request i r)
  have same: "cc_objects c' = cc_objects c" "cc_deferred c' = cc_deferred c" using assms(1) by (simp_all add: same_comp_def)
  show ?thesis
  proof (cases "cc_objects c i")
    case (Some ob)
    show ?thesis
    proof (cases ob)
      case Color_Manager
      then show ?thesis using Some Request assms(1) same(1)
        by (cases r) (simp_all add: object_request_def same_comp_init same_description)
    next
      case (Color_Surface s)
      then show ?thesis using Some Request assms(1) same(1) by (simp add: object_request_def same_surface_request)
    next
      case (Swapchain s)
      then show ?thesis using Some Request assms same(1)
        by (simp add: object_request_def same_swapchain_request)
    next
      case Swapchain_Factory
      then show ?thesis using Some Request assms(1) same(1)
        by (cases r) (simp_all add: object_request_def same_comp_init same_comp_with_color same_spaces_ops)
    next
      case (Image_Description d)
      then show ?thesis using Some Request assms(1) same
        by (cases r) (simp_all add: object_request_def same_comp_init same_comp_override Let_def)
    qed (use Some Request assms(1) same(1) in \<open>cases r;
        simp add: object_request_def same_comp_init same_description same_preferred\<close>)+
  qed (use Request assms(1) same(1) in \<open>simp add: object_request_def\<close>)
qed (use assms(1) in \<open>simp_all add: same_comp_with_color same_spaces_ops same_comp_override\<close>)

lemma metadata_step:
  assumes "same_comp c c'" and "is_metadata x"
  shows "same_comp (fst (color_input_step x c)) c'"
proof -
  obtain i r where x: "x = Request i (Set_Hdr_Metadata r)" using assms(2) by (cases x rule: is_metadata.cases) auto
  show ?thesis
  proof (cases "cc_objects c i")
    case (Some ob)
    then show ?thesis using x assms(1)
      by (cases ob) (simp_all add: object_request_def same_metadata_step init_object_def fun_upd_idem)
  qed (use x assms(1) in \<open>simp add: object_request_def\<close>)
qed

lemma same_session:
  "same_comp c c' \<Longrightarrow>
   same_comp (fst (color_session xs c)) (fst (color_session (filter (\<lambda>x. \<not> is_metadata x) xs) c'))"
  by (induction xs arbitrary: c c') (simp_all add: same_step metadata_step case_prod_beta Let_def)

lemma same_comp_new: "same_comp (color_comp_new hdr refresh) (color_comp_new hdr refresh)"
  by (simp add: same_comp_def color_comp_new_def same_spaces_def color_wf_def color_state_new_def)

subsection \<open>Metadata of a swapchain\<close>

lemma u16_sat_nits: "u16_clamp (saturating_mul_10000 v div 10000) = u16_sat v"
proof (cases "unat v * 10000 < 2 ^ 32")
  case True
  then have "unat (v * 10000) = unat v * 10000"
    by (simp add: unat_word_ariths)
  then have "v * 10000 div 10000 = v" by (simp add: word_unat_eq_iff unat_div)
  then show ?thesis using True by (auto simp: saturating_mul_10000_def u16_clamp_def u16_sat_def min_def)
next
  case False
  then have "\<not> v \<le> 0xFFFF" by (simp add: word_le_nat_alt)
  then show ?thesis using False by (simp add: saturating_mul_10000_def u16_clamp_def u16_sat_def)
qed

lemma u16_clamp_sat: "u16_clamp v = u16_sat v"
  by (auto simp: u16_clamp_def u16_sat_def min_def)

definition hdr10_entry :: "color_surface \<Rightarrow> hdr_request \<Rightarrow> bool \<Rightarrow> bool \<Rightarrow> (color_surface \<times> swapchain_color) list" where
  "hdr10_entry s r declared described =
     (if declared \<or> described
      then [(s, \<lparr>sc_colorspace = (if declared then Some (St2084Pq, Bt2020) else None),
                 sc_metadata = (if described then Some (request_metadata r) else None)\<rparr>)]
      else [])"

lemma hdr10_requests:
  assumes "cc_objects c i = Some (Swapchain s)" and "is_plausible (request_metadata r)"
    and "set rs \<subseteq> {Swapchain_Feedback VK_COLOR_SPACE_HDR10_ST2084_EXT, Set_Hdr_Metadata r}"
    and "cc_color c = Some st" and "cs_current st = []" and "cs_gamescope_current st = hdr10_entry s r f m"
  shows "\<exists>st'. cc_color (fst (color_session (map (Request i) rs) c)) = Some st' \<and> cs_current st' = [] \<and>
    cs_gamescope_current st' =
      hdr10_entry s r (f \<or> Swapchain_Feedback VK_COLOR_SPACE_HDR10_ST2084_EXT \<in> set rs) (m \<or> Set_Hdr_Metadata r \<in> set rs)"
  using assms
proof (induction rs arbitrary: c st f m)
  case (Cons q rs)
  show ?case
  proof (cases "q = Set_Hdr_Metadata r")
    case True
    let ?st = "set_gamescope_hdr_metadata s (request_metadata r) st"
    have "cs_gamescope_current ?st = hdr10_entry s r f True" "cs_current ?st = []"
      using Cons.prems by (simp_all add: set_gamescope_hdr_metadata_def hdr10_entry_def gamescope_entry_def
          swapchain_color_default_def)
    then show ?thesis
      using Cons.IH [of "with_color (set_gamescope_hdr_metadata s (request_metadata r)) c" ?st f True] Cons.prems True
      by (simp add: object_request_def handle_set_hdr_metadata_def case_prod_beta)
  next
    case False
    then have q: "q = Swapchain_Feedback VK_COLOR_SPACE_HDR10_ST2084_EXT" using Cons.prems(3) by auto
    let ?st = "set_gamescope_colorspace s St2084Pq Bt2020 st"
    have "cs_gamescope_current ?st = hdr10_entry s r True m" "cs_current ?st = []"
      using Cons.prems by (simp_all add: set_gamescope_colorspace_def hdr10_entry_def gamescope_entry_def
          swapchain_color_default_def)
    then show ?thesis
      using Cons.IH [of "with_color (feedback_color s VK_COLOR_SPACE_HDR10_ST2084_EXT) c" ?st True m] Cons.prems q False
      by (simp add: object_request_def handle_swapchain_feedback_def feedback_color_def case_prod_beta)
  qed
qed simp

section \<open>Correctness\<close>

text \<open>
  C34. Mastering metadata never decides the colour space: a session in which the swapchains' metadata requests are left
  out exports every frame in the same colour space. So an SDR game that sets HDR metadata is never taken for HDR.
\<close>

theorem metadata_never_changes_color_space:
  "fst (exported_color (fst (color_session xs (color_comp_new hdr refresh)))) =
   fst (exported_color (fst (color_session (filter (\<lambda>x. \<not> is_metadata x) xs) (color_comp_new hdr refresh))))"
  using same_session [OF same_comp_new, of xs hdr refresh]
  by (auto simp: exported_color_def same_comp_def rel_option_iff frame_color_space_same split: option.splits)

text \<open>
  C35. A game's HDR metadata reaches the client. Whatever the order and number of its HDR10 colour space reports and its
  (plausible) metadata requests, once both have arrived the frames are BT.2020 with PQ, and the payload of the HDR
  mode message carries each value as the game set it, limited to sixteen bits.
\<close>

theorem game_metadata_reaches_client:
  assumes "cc_objects c i = Some (Swapchain s)" and "cc_color c = Some (color_state_new hdr)"
    and "set rs = {Swapchain_Feedback VK_COLOR_SPACE_HDR10_ST2084_EXT, Set_Hdr_Metadata r}"
    and "is_plausible (request_metadata r)" and "hr_primaries r = ((rx, ry), (gx, gy), (bx, by'))"
  shows "fst (exported_color (fst (color_session (map (Request i) rs) c))) = FCS_Bt2020Pq \<and>
    build_hdr_mode_payload True (snd (exported_color (fst (color_session (map (Request i) rs) c)))) =
      to_le16 (type_code T_HdrMode) @ to_le16 31 @ [1] @
      concat (map (\<lambda>v. to_le16 (u16_sat v)) [rx, ry, gx, gy, bx, by', fst (hr_white_point r), snd (hr_white_point r),
        hr_max_luminance r, hr_min_luminance r, hr_max_cll r, hr_max_fall r]) @ replicate 6 0"
proof -
  have "set rs \<subseteq> {Swapchain_Feedback VK_COLOR_SPACE_HDR10_ST2084_EXT, Set_Hdr_Metadata r}" using assms(3) by simp
  from hdr10_requests [OF assms(1,4) this assms(2), of False False]
  obtain st where st: "cc_color (fst (color_session (map (Request i) rs) c)) = Some st" "cs_current st = []"
    "cs_gamescope_current st = hdr10_entry s r True True"
    using assms(3) by (auto simp: color_state_new_def hdr10_entry_def)
  obtain d where d: "all_descriptions st = [d]" "to_frame_color_space d = FCS_Bt2020Pq" "has_metadata d"
    "d = apply_to (request_metadata r) (srgb\<lparr>id_transfer_function := St2084Pq, id_primaries := Bt2020\<rparr>)"
    using st by (simp add: all_descriptions_def hdr10_entry_def List.map_filter_simps to_image_description_def
        to_frame_color_space_def apply_to_def has_metadata_def)
  have "frame_color_space st = FCS_Bt2020Pq" "frame_hdr_metadata st = Some (description_metadata d)"
    using d(1-3) by (simp_all add: frame_color_space_def frame_hdr_metadata_def)
  moreover have "to_le16 0 = [0, 0]" by (simp add: to_le16_def numeral_2_eq_2)
  ultimately show ?thesis using st(1) d(4) assms(5)
    by (simp add: exported_color_def build_hdr_mode_payload_def hdr_metadata_bytes_def description_metadata_def apply_to_def
        request_metadata_def xy_sat_def u16_sat_nits [unfolded u16_clamp_sat] u16_clamp_sat numeral_eq_Suc)
qed

definition example_hdr :: hdr_request where
  "example_hdr = \<lparr>hr_primaries = ((34000, 16000), (13250, 34500), (7500, 3000)), hr_white_point = (15635, 16450),
     hr_max_luminance = 1000, hr_min_luminance = 50, hr_max_cll = 900, hr_max_fall = 400\<rparr>"

theorem game_metadata_reaches_client_witness:
  "fst (exported_color (fst (color_session
       (map (Request 2) [Set_Hdr_Metadata example_hdr, Swapchain_Feedback VK_COLOR_SPACE_HDR10_ST2084_EXT])
       ((color_comp_new True None)\<lparr>cc_objects := [2 \<mapsto> Swapchain 7]\<rparr>)))) = FCS_Bt2020Pq"
  by (rule game_metadata_reaches_client [where s = 7 and r = example_hdr and hdr = True, THEN conjunct1])
    (auto simp: color_comp_new_def example_hdr_def is_plausible_def request_metadata_def)

text \<open>A client that builds its own description answers an event of an information object with a request to a creator.\<close>

fun answer_info :: "color_event \<Rightarrow> color_request option" where
  "answer_info (Info_Primaries p) = Some (Set_Primaries_Named p)"
| "answer_info (Info_Tf tf) = Some (Set_Tf_Named tf)"
| "answer_info _ = None"

definition recreate :: "nat \<Rightarrow> image_description \<Rightarrow> nat \<Rightarrow> nat \<Rightarrow> nat \<Rightarrow> color_surface \<Rightarrow> color_input list" where
  "recreate m ds k e f s =
     [Request m (Create_Parametric_Creator k)] @ map (Request k) (List.map_filter answer_info (info_events ds)) @
     [Request k (Create_Description e), Request m (Get_Surface f s), Request f (Set_Image_Description e)]"

text \<open>
  The information about a description is enough to build it again: a client that reads it, creates a description
  with the named transfer function and primaries and sets it on a surface gets the colour space of the
  original at the next commit of the surface, and not before. The exception is scRGB, whose information names a
  transfer function that the creator does not know.
\<close>

theorem described_color_space_roundtrip:
  assumes "cc_objects c m = Some Color_Manager" and "cc_objects c d = Some (Image_Description ds)"
    and "cc_color c = Some (color_state_new hdr)" and "distinct [m, d, n, k, e, f]"
  shows "snd (color_session [Request d (Get_Information n)] c) = map (Pair n) (info_events ds) \<and>
    fst (exported_color (fst (color_session (Request d (Get_Information n) # recreate m ds k e f s) c))) = FCS_Srgb \<and>
    fst (exported_color (fst (color_session (Request d (Get_Information n) # recreate m ds k e f s @ [Surface_Commit s]) c))) =
      (if to_frame_color_space ds = FCS_ScrgbLinear then FCS_Srgb else to_frame_color_space ds)"
  using assms
  by (cases "id_transfer_function ds"; cases "id_primaries ds")
    (simp_all add: recreate_def info_events_def List.map_filter_simps object_request_def init_description_def Let_def
      exported_color_def color_state_new_def set_pending_def commit_color_def frame_color_space_def all_descriptions_def
      create_description_def creator_params_default_def to_frame_color_space_def)

theorem described_color_space_roundtrip_witness:
  "fst (exported_color (fst (color_session (Request 2 (Get_Information 3) # recreate 1 bt2020_pq 4 5 6 7 @ [Surface_Commit 7])
     ((color_comp_new True None)\<lparr>cc_objects := [1 \<mapsto> Color_Manager, 2 \<mapsto> Image_Description bt2020_pq]\<rparr>)))) = FCS_Bt2020Pq"
  using described_color_space_roundtrip [of "(color_comp_new True None)\<lparr>cc_objects := [1 \<mapsto> Color_Manager,
      2 \<mapsto> Image_Description bt2020_pq]\<rparr>" 1 2 bt2020_pq True 3 4 5 6 7]
  by (simp add: color_comp_new_def to_frame_color_space_def bt2020_pq_def plain_description_def)

end
