(* ===== verification/Frame_Output.thy ===== *)
theory Frame_Output
  imports Color_Management
begin

text \<open>
  The export of frames to the encoder: \<open>render_and_export\<close> and the direct scanout of
  \<open>session/compositor/state.rs\<close>, the scene decisions of \<open>render_scene.rs\<close>, and the frame timer and the choice of
  the render format of \<open>compositor/mod.rs\<close>. The renderer (which may fail), Smithay's window space and the buffers
  committed to surfaces are read from an environment at every tick. A \<open>consumed\<close> flag, which compositor and encoder
  share, is a cell of a store; the pool's slots own the first three cells.
\<close>

section \<open>Start of the compositor\<close>

datatype fourcc = Abgr16161616f | Abgr2101010 | Abgr8888 | Xbgr8888 | Argb8888 | Xrgb8888 | Other_Fourcc nat

definition preferred_fourccs :: "bool \<Rightarrow> fourcc list" where
  "preferred_fourccs hdr =
     (if hdr then [Abgr16161616f, Abgr2101010, Abgr8888, Xbgr8888] else [Abgr8888, Xbgr8888, Argb8888, Xrgb8888])"

definition modifiers_of :: "(fourcc \<times> u64) list \<Rightarrow> fourcc \<Rightarrow> u64 list" where
  "modifiers_of formats f = map snd (filter (\<lambda>p. fst p = f) formats)"

definition select_render_format :: "bool \<Rightarrow> (fourcc \<times> u64) list \<Rightarrow> (fourcc \<times> u64 list) res" where
  "select_render_format hdr formats =
     (case find (\<lambda>f. modifiers_of formats f \<noteq> []) (preferred_fourccs hdr) of
        Some f \<Rightarrow> Inr (f, modifiers_of formats f)
      | None \<Rightarrow> (case formats of [] \<Rightarrow> Inl Err | p # _ \<Rightarrow> Inr (fst p, modifiers_of formats (fst p))))"

definition effective_hdr :: "bool \<Rightarrow> fourcc \<Rightarrow> bool" where
  "effective_hdr hdr f \<longleftrightarrow> hdr \<and> f \<in> {Abgr16161616f, Abgr2101010}"

text \<open>The refresh rate in mHz, a \<open>u32\<close> product read as an \<open>i32\<close>, and the period of the frame timer.\<close>

definition mode_refresh :: "u32 \<Rightarrow> u32 res" where
  "mode_refresh rate = (if unat rate * 1000 < 2 ^ 32 then Inr (rate * 1000) else Inl Panic)"

definition frame_nanos :: "u32 \<Rightarrow> nat res" where
  "frame_nanos rate = (if rate = 0 then Inl Panic else Inr (1000000000 div unat rate))"

definition compositor_timing :: "u32 \<Rightarrow> (u32 \<times> nat) res" where
  "compositor_timing rate = rbind (mode_refresh rate) (\<lambda>m. rbind (frame_nanos rate) (\<lambda>n. Inr (m, n)))"

definition next_frame_time :: "nat \<Rightarrow> nat \<Rightarrow> nat \<Rightarrow> nat" where
  "next_frame_time interval now target =
     (if target + interval \<le> now then now + interval else target + interval)"

section \<open>The scene\<close>

type_synonym pos = "int \<times> int"

record scene_popup =
  sp_surface :: nat
  sp_offset :: pos
  sp_geometry_loc :: pos
  sp_mapped :: bool

record scene_window =
  sw_id :: nat
  sw_location :: "pos option"
  sw_geometry_loc :: "pos option"
  sw_toplevel :: "(nat \<times> scene_popup list) option"

record client_buffer =
  cb_id :: nat
  cb_is_dma :: bool
  cb_dmabuf :: bool
  cb_width :: u32
  cb_height :: u32

datatype cursor_status = Cursor_Hidden | Cursor_Named | Cursor_Surface nat

datatype element = Cursor_Element cursor_status | Window_Element nat | Popup_Element nat pos | Override_Element nat

datatype render_outcome = Render_Ok | Render_No_Mode | Render_Failed

text \<open>
  What a tick finds: time in ms, the windows of the space from back to front, and the outcomes of the renderer. The
  elements of a surface tree are those of \<open>re_tree\<close>, empty for a surface without buffer.
\<close>

record render_env =
  re_now :: nat
  re_cursor :: pos
  re_last_activity :: "nat option"
  re_alive :: "nat \<Rightarrow> bool"
  re_override_focused :: bool
  re_focused :: "nat option"
  re_windows :: "scene_window list"
  re_buffer :: "nat \<Rightarrow> client_buffer option"
  re_width :: u32
  re_height :: u32
  re_color :: "color_space \<times> hdr_metadata option"
  re_bind_ok :: bool
  re_elements :: "element list option"
  re_cursor_elements :: "cursor_status \<Rightarrow> element list"
  re_tree :: "element \<Rightarrow> element list"
  re_outcome :: render_outcome

record exported_frame =
  ef_created_at :: nat
  ef_buffer_index :: nat
  ef_consumed :: nat
  ef_color_space :: color_space
  ef_hdr_metadata :: "hdr_metadata option"

record frame_comp =
  fo_flags :: "nat \<Rightarrow> bool"
  fo_next_flag :: nat
  fo_next_buffer_index :: nat
  fo_last_rendered :: "nat option list"
  fo_render_count :: nat
  fo_screen_dirty :: bool
  fo_last_sent :: nat
  fo_last_cursor :: pos
  fo_cursor_status :: cursor_status
  fo_override_surface :: "nat option"
  fo_held :: "(nat \<times> nat) list"
  fo_scanout_map :: "nat \<Rightarrow> nat option"
  fo_scanout_next :: nat
  fo_channel :: "exported_frame list"
  fo_encoder :: "exported_frame list"
  fo_connected :: bool

text \<open>\<open>fo_encoder\<close> are the frames that the encoder has taken out of the channel and not released yet.\<close>

datatype frame_effect =
    Render_Into nat nat "element list"
  | Frame_Callback_Window nat
  | Frame_Callback_Surface nat
  | Presented_Window nat
  | Presented_Surface nat
  | Exported exported_frame
  | Flush_Clients

definition BUFFER_POOL_SIZE :: nat where "BUFFER_POOL_SIZE = 3"
definition FRAME_CHANNEL_SIZE :: nat where "FRAME_CHANNEL_SIZE = 2"

definition frame_comp_new :: "nat \<Rightarrow> pos \<Rightarrow> frame_comp" where
  "frame_comp_new now cursor =
     \<lparr>fo_flags = (\<lambda>_. True), fo_next_flag = BUFFER_POOL_SIZE, fo_next_buffer_index = 0,
      fo_last_rendered = replicate BUFFER_POOL_SIZE None, fo_render_count = 0, fo_screen_dirty = True,
      fo_last_sent = now, fo_last_cursor = cursor, fo_cursor_status = Cursor_Named, fo_override_surface = None,
      fo_held = [], fo_scanout_map = Map.empty, fo_scanout_next = BUFFER_POOL_SIZE, fo_channel = [], fo_encoder = [],
      fo_connected = True\<rparr>"

definition override_active :: "render_env \<Rightarrow> frame_comp \<Rightarrow> bool" where
  "override_active env s \<longleftrightarrow>
     (case fo_override_surface s of None \<Rightarrow> False | Some srf \<Rightarrow> re_alive env srf \<and> re_override_focused env)"

definition window_popups :: "scene_window \<Rightarrow> (nat \<times> pos) list" where
  "window_popups w =
     (case sw_toplevel w of
        None \<Rightarrow> []
      | Some (root, popups) \<Rightarrow>
          let (lx, ly) = or_default (0, 0) (sw_location w) in
          map (\<lambda>p. (sp_surface p, lx + fst (sp_offset p) - fst (sp_geometry_loc p),
                                  ly + snd (sp_offset p) - snd (sp_geometry_loc p)))
            (filter sp_mapped popups))"

definition popup_surfaces_for_render :: "render_env \<Rightarrow> frame_comp \<Rightarrow> (nat \<times> pos) list" where
  "popup_surfaces_for_render env s =
     concat (map window_popups
       (filter (\<lambda>w. \<not> override_active env s \<or> re_focused env = Some (sw_id w)) (rev (re_windows env))))"

definition pointer_idle :: "render_env \<Rightarrow> bool" where
  "pointer_idle env \<longleftrightarrow> (case re_last_activity env of None \<Rightarrow> True | Some t \<Rightarrow> 3000 < re_now env - t)"

definition can_direct_scanout_scene :: "render_env \<Rightarrow> frame_comp \<Rightarrow> bool" where
  "can_direct_scanout_scene env s \<longleftrightarrow> pointer_idle env \<and> popup_surfaces_for_render env s = []"

section \<open>Sending a frame\<close>

datatype send_result = Sent | Channel_Full | Disconnected

definition try_send :: "exported_frame \<Rightarrow> frame_comp \<Rightarrow> frame_comp \<times> send_result" where
  "try_send f s =
     (if \<not> fo_connected s then (s, Disconnected)
      else if FRAME_CHANNEL_SIZE \<le> length (fo_channel s) then (s, Channel_Full)
      else (s\<lparr>fo_channel := fo_channel s @ [f]\<rparr>, Sent))"

definition set_flag :: "nat \<Rightarrow> bool \<Rightarrow> frame_comp \<Rightarrow> frame_comp" where
  "set_flag i b s = s\<lparr>fo_flags := (fo_flags s)(i := b)\<rparr>"

definition send_frame :: "nat \<Rightarrow> exported_frame \<Rightarrow> frame_comp \<Rightarrow> frame_comp \<times> frame_effect list" where
  "send_frame now f s =
     (case try_send f s of
        (s, Disconnected) \<Rightarrow> (s, [])
      | (s, Channel_Full) \<Rightarrow> (set_flag (ef_consumed f) True s, [])
      | (s, Sent) \<Rightarrow> (s\<lparr>fo_screen_dirty := False, fo_last_sent := now\<rparr>, [Exported f]))"

section \<open>Direct scanout\<close>

definition scanout_buffer :: "render_env \<Rightarrow> nat \<Rightarrow> client_buffer option" where
  "scanout_buffer env srf =
     (case re_buffer env srf of
        None \<Rightarrow> None
      | Some b \<Rightarrow> if cb_is_dma b \<and> cb_dmabuf b \<and> cb_width b = re_width env \<and> cb_height b = re_height env
                  then Some b else None)"

definition scanout_index :: "nat \<Rightarrow> frame_comp \<Rightarrow> nat \<times> frame_comp" where
  "scanout_index b s =
     (case fo_scanout_map s b of
        Some i \<Rightarrow> (i, s)
      | None \<Rightarrow> (fo_scanout_next s,
          s\<lparr>fo_scanout_map := (fo_scanout_map s)(b \<mapsto> fo_scanout_next s), fo_scanout_next := fo_scanout_next s + 1\<rparr>))"

text \<open>The common end of both paths: the frame shows the client's buffer, which is held until it is consumed.\<close>

definition export_scanout :: "render_env \<Rightarrow> client_buffer \<Rightarrow> frame_comp \<Rightarrow> frame_comp \<times> frame_effect list" where
  "export_scanout env b s =
     (let (index, s) = scanout_index (cb_id b) s;
          flag = fo_next_flag s;
          s = (set_flag flag False s)\<lparr>fo_next_flag := flag + 1, fo_held := fo_held s @ [(flag, cb_id b)]\<rparr>
      in send_frame (re_now env)
           \<lparr>ef_created_at = re_now env, ef_buffer_index = index, ef_consumed = flag,
            ef_color_space = fst (re_color env), ef_hdr_metadata = snd (re_color env)\<rparr> s)"

definition try_direct_scanout :: "render_env \<Rightarrow> frame_comp \<Rightarrow> (frame_comp \<times> frame_effect list) option" where
  "try_direct_scanout env s =
     (case re_windows env of
        [w] \<Rightarrow>
          (case sw_toplevel w of
             None \<Rightarrow> None
           | Some (srf, _) \<Rightarrow>
               if sw_geometry_loc w \<notin> {None, Some (0, 0)} then None
               else (case scanout_buffer env srf of
                       None \<Rightarrow> None
                     | Some b \<Rightarrow>
                         let (s, effects) = export_scanout env b s in
                         Some (s, effects @ [Frame_Callback_Window (sw_id w), Presented_Surface srf, Flush_Clients])))
      | _ \<Rightarrow> None)"

definition try_direct_scanout_override :: "render_env \<Rightarrow> frame_comp \<Rightarrow> (frame_comp \<times> frame_effect list) option" where
  "try_direct_scanout_override env s =
     (case fo_override_surface s of
        None \<Rightarrow> None
      | Some srf \<Rightarrow>
          if \<not> re_alive env srf then None
          else (case scanout_buffer env srf of
                  None \<Rightarrow> None
                | Some b \<Rightarrow>
                    let (s, effects) = export_scanout env b s in
                    Some (s, effects @ [Frame_Callback_Surface srf, Presented_Surface srf, Flush_Clients])))"

section \<open>Composition\<close>

definition override_render_elements :: "render_env \<Rightarrow> nat \<Rightarrow> (nat \<times> pos) list \<Rightarrow> element list" where
  "override_render_elements env srf popups =
     concat (map (\<lambda>(p, loc). re_tree env (Popup_Element p loc)) popups) @ re_tree env (Override_Element srf)"

definition reset_dead_cursor :: "render_env \<Rightarrow> frame_comp \<Rightarrow> frame_comp" where
  "reset_dead_cursor env s =
     (case fo_cursor_status s of
        Cursor_Surface srf \<Rightarrow> if re_alive env srf then s else s\<lparr>fo_cursor_status := Cursor_Named\<rparr>
      | _ \<Rightarrow> s)"

definition scene_elements :: "render_env \<Rightarrow> bool \<Rightarrow> (nat \<times> pos) list \<Rightarrow> element list \<Rightarrow> frame_comp \<Rightarrow> element list" where
  "scene_elements env active popups space_elements s =
     re_cursor_elements env (if pointer_idle env then Cursor_Hidden else fo_cursor_status s) @
     (if active then (case fo_override_surface s of None \<Rightarrow> [] | Some srf \<Rightarrow> override_render_elements env srf popups)
      else space_elements)"

definition drop_dead_override :: "render_env \<Rightarrow> bool \<Rightarrow> frame_comp \<Rightarrow> frame_comp" where
  "drop_dead_override env active s =
     (case fo_override_surface s of
        Some srf \<Rightarrow> if \<not> active \<and> \<not> re_alive env srf then s\<lparr>fo_override_surface := None\<rparr> else s
      | None \<Rightarrow> s)"

definition buffer_age :: "nat \<Rightarrow> frame_comp \<Rightarrow> nat" where
  "buffer_age idx s = (case fo_last_rendered s ! idx of None \<Rightarrow> 0 | Some n \<Rightarrow> fo_render_count s - n)"

definition send_composited_frame_callbacks :: "render_env \<Rightarrow> frame_comp \<Rightarrow> frame_effect list" where
  "send_composited_frame_callbacks env s =
     concat (map (\<lambda>w. Frame_Callback_Window (sw_id w) #
       (if override_active env s then [] else [Presented_Window (sw_id w)])) (re_windows env)) @
     (case fo_override_surface s of
        Some srf \<Rightarrow>
          if override_active env s
          then [Frame_Callback_Surface srf, Presented_Surface srf] @
            map (\<lambda>p. Presented_Surface (fst p)) (popup_surfaces_for_render env s)
          else []
      | None \<Rightarrow> [])"

text \<open>The draw call and what follows it.\<close>

definition render_scene :: "render_env \<Rightarrow> nat \<Rightarrow> element list \<Rightarrow> frame_comp \<Rightarrow> frame_comp \<times> frame_effect list" where
  "render_scene env idx elements s =
     (let age = buffer_age idx s;
          s = s\<lparr>fo_last_rendered := (fo_last_rendered s)[idx := Some (fo_render_count s)],
                fo_render_count := fo_render_count s + 1\<rparr>
      in if re_outcome env = Render_Failed then (s, [Render_Into idx age elements])
         else
           let (s, effects) = send_frame (re_now env)
                 \<lparr>ef_created_at = re_now env, ef_buffer_index = idx, ef_consumed = idx,
                  ef_color_space = fst (re_color env), ef_hdr_metadata = snd (re_color env)\<rparr> s
           in (s, [Render_Into idx age elements] @ effects @ send_composited_frame_callbacks env s @ [Flush_Clients]))"

text \<open>
  The pool's buffer is marked as in use before the elements are collected and drawn; a failure to bind it marks it
  as free again.
\<close>

definition compose :: "render_env \<Rightarrow> frame_comp \<Rightarrow> frame_comp \<times> frame_effect list" where
  "compose env s =
     (let idx = fo_next_buffer_index s in
      if \<not> fo_flags s idx then (s, [])
      else
        let s = (set_flag idx False s)\<lparr>fo_next_buffer_index := (idx + 1) mod BUFFER_POOL_SIZE\<rparr>;
            active = override_active env s;
            popups = (if active then popup_surfaces_for_render env s else [])
        in if \<not> re_bind_ok env then (set_flag idx True s, [])
           else (case re_elements env of
                   None \<Rightarrow> (s, [])
                 | Some space_elements \<Rightarrow>
                     let s = reset_dead_cursor env s;
                         elements = scene_elements env active popups space_elements s
                     in render_scene env idx elements (drop_dead_override env active s)))"

section \<open>A tick\<close>

definition release_held :: "frame_comp \<Rightarrow> frame_comp" where
  "release_held s =
     s\<lparr>fo_held := filter (\<lambda>h. \<not> fo_flags s (fst h)) (fo_held s),
       fo_scanout_map := (fo_scanout_map s) |` (- snd ` set (filter (\<lambda>h. fo_flags s (fst h)) (fo_held s)))\<rparr>"

definition note_cursor :: "render_env \<Rightarrow> frame_comp \<Rightarrow> frame_comp" where
  "note_cursor env s =
     (if re_cursor env \<noteq> fo_last_cursor s then s\<lparr>fo_screen_dirty := True, fo_last_cursor := re_cursor env\<rparr> else s)"

definition direct_scanout :: "render_env \<Rightarrow> frame_comp \<Rightarrow> (frame_comp \<times> frame_effect list) option" where
  "direct_scanout env s =
     (if \<not> can_direct_scanout_scene env s then None
      else if override_active env s then try_direct_scanout_override env s
      else try_direct_scanout env s)"

definition render_and_export :: "render_env \<Rightarrow> frame_comp \<Rightarrow> frame_comp \<times> frame_effect list" where
  "render_and_export env s =
     (let s = note_cursor env s in
      if \<not> fo_screen_dirty s \<and> re_now env - fo_last_sent s < 1000 then (s, [])
      else
        let s = release_held s in
        case direct_scanout env s of Some r \<Rightarrow> r | None \<Rightarrow> compose env s)"

section \<open>Compositor and encoder\<close>

text \<open>
  What else happens between ticks: a surface commit, a new override surface, and the encoder, which takes frames
  out of the channel and sets the flag of a frame it has read, or goes away.
\<close>

datatype frame_event =
    Tick render_env
  | Surface_Committed
  | Override_Installed nat
  | Encoder_Receives
  | Encoder_Releases nat
  | Encoder_Gone

fun frame_step :: "frame_event \<Rightarrow> frame_comp \<Rightarrow> frame_comp \<times> frame_effect list" where
  "frame_step (Tick env) s = render_and_export env s"
| "frame_step Surface_Committed s = (s\<lparr>fo_screen_dirty := True\<rparr>, [])"
| "frame_step (Override_Installed srf) s = (s\<lparr>fo_override_surface := Some srf\<rparr>, [])"
| "frame_step Encoder_Receives s =
     (case fo_channel s of
        [] \<Rightarrow> (s, [])
      | f # fs \<Rightarrow> (s\<lparr>fo_channel := fs, fo_encoder := fo_encoder s @ [f]\<rparr>, []))"
| "frame_step (Encoder_Releases i) s =
     (if i < length (fo_encoder s)
      then ((set_flag (ef_consumed (fo_encoder s ! i)) True s)
              \<lparr>fo_encoder := take i (fo_encoder s) @ drop (Suc i) (fo_encoder s)\<rparr>, [])
      else (s, []))"
| "frame_step Encoder_Gone s = (s\<lparr>fo_channel := [], fo_encoder := [], fo_connected := False\<rparr>, [])"

fun frame_run :: "frame_event list \<Rightarrow> frame_comp \<Rightarrow> frame_comp \<times> frame_effect list" where
  "frame_run [] s = (s, [])"
| "frame_run (e # es) s =
     (let (s, effects) = frame_step e s; (s, more) = frame_run es s in (s, effects @ more))"

end
