(* ===== verification/Frame_Props.thy ===== *)
theory Frame_Props
  imports Frame_Output
begin

text \<open>
  Compositor and encoder share buffers by flags: what a tick draws into is free, when a tick exports a frame, and
  what a failed draw call does to the pool.
\<close>

section \<open>Lemmas\<close>

definition in_flight :: "frame_comp \<Rightarrow> exported_frame list" where
  "in_flight s = fo_channel s @ fo_encoder s"

definition frame_owned :: "frame_comp \<Rightarrow> exported_frame \<Rightarrow> bool" where
  "frame_owned s f \<longleftrightarrow> \<not> fo_flags s (ef_consumed f) \<and> ef_consumed f < fo_next_flag s \<and>
     (if ef_buffer_index f < 3 then ef_consumed f = ef_buffer_index f
      else 3 \<le> ef_consumed f \<and> ef_consumed f \<in> fst ` set (fo_held s))"

definition frame_inv :: "frame_comp \<Rightarrow> bool" where
  "frame_inv s \<longleftrightarrow> length (fo_last_rendered s) = 3 \<and> fo_next_buffer_index s < 3 \<and> 3 \<le> fo_next_flag s \<and>
     3 \<le> fo_scanout_next s \<and> (\<forall>i \<in> ran (fo_scanout_map s). 3 \<le> i) \<and>
     distinct (map ef_consumed (in_flight s)) \<and> list_all (frame_owned s) (in_flight s)"

lemmas frame_consts = BUFFER_POOL_SIZE_def FRAME_CHANNEL_SIZE_def

lemma set_flag_simps [simp]:
  "fo_flags (set_flag i b s) = (fo_flags s)(i := b)" "fo_channel (set_flag i b s) = fo_channel s"
  "fo_encoder (set_flag i b s) = fo_encoder s" "fo_next_flag (set_flag i b s) = fo_next_flag s"
  "fo_next_buffer_index (set_flag i b s) = fo_next_buffer_index s" "fo_held (set_flag i b s) = fo_held s"
  "fo_last_rendered (set_flag i b s) = fo_last_rendered s" "fo_scanout_next (set_flag i b s) = fo_scanout_next s"
  "fo_scanout_map (set_flag i b s) = fo_scanout_map s" "fo_connected (set_flag i b s) = fo_connected s"
  "fo_override_surface (set_flag i b s) = fo_override_surface s" "fo_render_count (set_flag i b s) = fo_render_count s"
  "fo_screen_dirty (set_flag i b s) = fo_screen_dirty s" "fo_last_sent (set_flag i b s) = fo_last_sent s"
  "in_flight (set_flag i b s) = in_flight s"
  by (simp_all add: set_flag_def in_flight_def)

lemma frame_inv_new: "frame_inv (frame_comp_new now cursor)"
  by (simp add: frame_inv_def frame_comp_new_def frame_consts in_flight_def)

text \<open>What the invariant and the in-flight frames depend on.\<close>

lemma in_flight_updates [simp]:
  "in_flight (s\<lparr>fo_next_buffer_index := i\<rparr>) = in_flight s" "in_flight (s\<lparr>fo_last_rendered := l\<rparr>) = in_flight s"
  "in_flight (s\<lparr>fo_render_count := n\<rparr>) = in_flight s" "in_flight (s\<lparr>fo_held := h\<rparr>) = in_flight s"
  "in_flight (s\<lparr>fo_scanout_map := m\<rparr>) = in_flight s" "in_flight (s\<lparr>fo_scanout_next := n\<rparr>) = in_flight s"
  "in_flight (s\<lparr>fo_next_flag := n\<rparr>) = in_flight s"
  by (simp_all add: in_flight_def)

lemma frame_owned_updates [simp]:
  "frame_owned (s\<lparr>fo_next_buffer_index := i\<rparr>) = frame_owned s" "frame_owned (s\<lparr>fo_last_rendered := l\<rparr>) = frame_owned s"
  "frame_owned (s\<lparr>fo_render_count := n\<rparr>) = frame_owned s" "frame_owned (s\<lparr>fo_scanout_map := m\<rparr>) = frame_owned s"
  "frame_owned (s\<lparr>fo_scanout_next := n\<rparr>) = frame_owned s"
  by (simp_all add: frame_owned_def [abs_def])

lemma frame_inv_cong:
  assumes "fo_flags t = fo_flags s" "fo_next_flag t = fo_next_flag s" "fo_next_buffer_index t = fo_next_buffer_index s"
    "length (fo_last_rendered t) = length (fo_last_rendered s)" "fo_scanout_next t = fo_scanout_next s"
    "fo_scanout_map t = fo_scanout_map s" "fo_held t = fo_held s" "fo_channel t = fo_channel s" "fo_encoder t = fo_encoder s"
  shows "frame_inv t = frame_inv s"
  using assms by (simp add: frame_inv_def in_flight_def frame_owned_def [abs_def])

lemma frame_inv_note_cursor [simp]: "frame_inv (note_cursor env s) = frame_inv s"
  by (rule frame_inv_cong) (simp_all add: note_cursor_def)

lemma frame_inv_release_held:
  assumes "frame_inv s"
  shows "frame_inv (release_held s)"
proof -
  have "ran (fo_scanout_map (release_held s)) \<subseteq> ran (fo_scanout_map s)"
    by (auto simp: release_held_def ran_def restrict_map_def split: if_splits)
  moreover have "frame_owned (release_held s) f" if "frame_owned s f" for f
    using that by (auto simp: frame_owned_def release_held_def image_iff split: if_splits)
  ultimately show ?thesis using assms
    by (auto simp: frame_inv_def list_all_iff in_flight_def release_held_def)
qed

lemma in_flight_release_held [simp]: "in_flight (release_held s) = in_flight s"
  by (simp add: in_flight_def release_held_def)

text \<open>Sending a frame whose flag is set to in-use.\<close>

lemma frame_owned_set_flag:
  "frame_owned s f \<Longrightarrow> ef_consumed f \<noteq> i \<Longrightarrow> frame_owned (set_flag i b s) f"
  by (simp add: frame_owned_def)

lemma owned_set_flag:
  assumes "list_all (frame_owned s) fs" and "i \<notin> ef_consumed ` set fs"
  shows "list_all (frame_owned (set_flag i b s)) fs"
  using assms by (auto simp: list_all_iff image_iff intro!: frame_owned_set_flag)

lemma frame_inv_set_flag:
  assumes "frame_inv s" and "i \<notin> ef_consumed ` set (in_flight s)"
  shows "frame_inv (set_flag i b s)"
  using assms owned_set_flag by (simp add: frame_inv_def)

lemma frame_inv_send:
  assumes "frame_inv s" and "frame_owned s f" and "ef_consumed f \<notin> ef_consumed ` set (in_flight s)"
  shows "frame_inv (fst (send_frame now f s))"
proof (cases "fo_connected s \<and> length (fo_channel s) < 2")
  case True
  let ?t = "s\<lparr>fo_channel := fo_channel s @ [f], fo_screen_dirty := False, fo_last_sent := now\<rparr>"
  have "frame_owned ?t = frame_owned s" by (simp add: frame_owned_def [abs_def])
  moreover have "list_all (frame_owned s) (in_flight ?t)" "distinct (map ef_consumed (in_flight ?t))"
    using assms by (auto simp: frame_inv_def in_flight_def)
  ultimately have "frame_inv ?t" using assms(1) by (simp add: frame_inv_def)
  then show ?thesis using True by (simp add: send_frame_def try_send_def frame_consts)
next
  case False
  then show ?thesis using frame_inv_set_flag [OF assms(1,3)] assms(1)
    by (auto simp: send_frame_def try_send_def frame_consts)
qed

lemma frame_inv_free_slot:
  assumes "frame_inv s" and "fo_flags s i" and "i < 3"
  shows "frame_inv ((set_flag i False s)\<lparr>fo_next_buffer_index := (i + 1) mod 3\<rparr>)"
    and "i \<notin> ef_consumed ` set (in_flight s)"
proof -
  show new: "i \<notin> ef_consumed ` set (in_flight s)"
    using assms(1,2) by (auto simp: frame_inv_def list_all_iff frame_owned_def)
  from frame_inv_set_flag [OF assms(1) new]
  show "frame_inv ((set_flag i False s)\<lparr>fo_next_buffer_index := (i + 1) mod 3\<rparr>)"
    by (simp add: frame_inv_def)
qed

lemma frame_inv_render_scene:
  assumes "frame_inv s" and "\<not> fo_flags s idx" and "idx < 3" and "idx \<notin> ef_consumed ` set (in_flight s)"
  shows "frame_inv (fst (render_scene env idx elements s))"
proof -
  let ?s = "s\<lparr>fo_last_rendered := (fo_last_rendered s)[idx := Some (fo_render_count s)],
              fo_render_count := fo_render_count s + 1\<rparr>"
  have inv: "frame_inv ?s" using assms(1) by (subst frame_inv_cong [of _ s]) simp_all
  moreover have "in_flight ?s = in_flight s" by (simp add: in_flight_def)
  ultimately have "frame_inv (fst (send_frame now f ?s))" if "ef_consumed f = idx" "ef_buffer_index f = idx" for now f
    using assms that by (intro frame_inv_send) (auto simp: frame_owned_def frame_inv_def)
  with inv show ?thesis by (simp add: render_scene_def Let_def case_prod_beta)
qed

lemma frame_inv_compose:
  assumes "frame_inv s"
  shows "frame_inv (fst (compose env s))"
proof (cases "fo_flags s (fo_next_buffer_index s)")
  case True
  let ?i = "fo_next_buffer_index s"
  let ?s = "(set_flag ?i False s)\<lparr>fo_next_buffer_index := (?i + 1) mod 3\<rparr>"
  have i: "?i < 3" using assms by (simp add: frame_inv_def)
  note slot = frame_inv_free_slot [OF assms True i]
  have freed: "frame_inv (set_flag ?i True ?s)" using slot by (intro frame_inv_set_flag) simp_all
  have "frame_inv (drop_dead_override env a (reset_dead_cursor env ?s))" for a
    using slot(1) by (subst frame_inv_cong [of _ ?s])
      (auto simp: drop_dead_override_def reset_dead_cursor_def split: option.split cursor_status.split)
  moreover have "fo_flags (drop_dead_override env a (reset_dead_cursor env ?s)) = fo_flags ?s"
    "in_flight (drop_dead_override env a (reset_dead_cursor env ?s)) = in_flight s" for a
    by (auto simp: drop_dead_override_def reset_dead_cursor_def in_flight_def split: option.split cursor_status.split)
  ultimately have "frame_inv (fst (render_scene env ?i els (drop_dead_override env a (reset_dead_cursor env ?s))))" for a els
    using i slot(2) by (intro frame_inv_render_scene) auto
  then show ?thesis using slot(1) freed True
    by (simp add: compose_def Let_def frame_consts split: option.split)
qed (simp add: assms compose_def Let_def)

lemma frame_inv_export_scanout:
  assumes "frame_inv s"
  shows "frame_inv (fst (export_scanout env b s))"
proof -
  obtain i t where it: "scanout_index (cb_id b) s = (i, t)" by fastforce
  have t: "frame_inv t \<and> 3 \<le> i"
  proof (cases "fo_scanout_map s (cb_id b)")
    case None
    then show ?thesis using it assms by (auto simp: scanout_index_def frame_inv_def)
  next
    case (Some j)
    then show ?thesis using it assms by (auto simp: scanout_index_def frame_inv_def dest: ranI)
  qed
  let ?n = "fo_next_flag t"
  let ?u = "(set_flag ?n False t)\<lparr>fo_next_flag := ?n + 1, fo_held := fo_held t @ [(?n, cb_id b)]\<rparr>"
  have old: "frame_owned ?u f \<and> ef_consumed f \<noteq> ?n" if "f \<in> set (in_flight t)" for f
  proof -
    have "frame_owned t f" using that t by (simp add: frame_inv_def list_all_iff)
    then show ?thesis by (auto simp: frame_owned_def)
  qed
  have "frame_inv ?u" using t old by (auto simp: frame_inv_def list_all_iff)
  moreover have "?n \<notin> ef_consumed ` set (in_flight ?u)" using old by fastforce
  moreover have "frame_owned ?u f" if "ef_buffer_index f = i" "ef_consumed f = ?n" for f
    using that t by (simp add: frame_owned_def frame_inv_def)
  ultimately have "frame_inv (fst (send_frame now f ?u))" if "ef_buffer_index f = i" "ef_consumed f = ?n" for now f
    using that by (intro frame_inv_send) auto
  then show ?thesis using it by (simp add: export_scanout_def Let_def)
qed

lemma direct_scanout_exports:
  "direct_scanout env s = Some r \<Longrightarrow> \<exists>b rest. r = (fst (export_scanout env b s), snd (export_scanout env b s) @ rest) \<and>
     (\<forall>e \<in> set rest. \<not> (\<exists>f. e = Exported f) \<and> \<not> (\<exists>i a els. e = Render_Into i a els))"
  by (auto simp: direct_scanout_def try_direct_scanout_def try_direct_scanout_override_def case_prod_beta
      split: if_splits list.splits option.splits prod.splits intro!: exI)

lemma frame_inv_tick:
  assumes "frame_inv s"
  shows "frame_inv (fst (render_and_export env s))"
proof -
  have "frame_inv (release_held (note_cursor env s))" using assms by (simp add: frame_inv_release_held)
  then show ?thesis using assms
    by (auto simp: render_and_export_def Let_def frame_inv_compose frame_inv_export_scanout dest!: direct_scanout_exports
        split: option.split)
qed

lemma frame_inv_step:
  assumes "frame_inv s"
  shows "frame_inv (fst (frame_step e s))"
proof (cases e)
  case (Tick env)
  then show ?thesis using assms by (simp add: frame_inv_tick)
next
  case Encoder_Receives
  show ?thesis
  proof (cases "fo_channel s")
    case (Cons f fs)
    let ?t = "s\<lparr>fo_channel := fs, fo_encoder := fo_encoder s @ [f]\<rparr>"
    have "frame_owned ?t = frame_owned s" by (simp add: frame_owned_def [abs_def])
    moreover have "list_all (frame_owned s) (in_flight ?t)" "distinct (map ef_consumed (in_flight ?t))"
      using assms Cons by (auto simp: frame_inv_def in_flight_def)
    ultimately show ?thesis using assms Encoder_Receives Cons by (simp add: frame_inv_def)
  qed (use assms Encoder_Receives in simp)
next
  case (Encoder_Releases i)
  show ?thesis
  proof (cases "i < length (fo_encoder s)")
    case True
    let ?e = "fo_encoder s" and ?c = "ef_consumed (fo_encoder s ! i)"
    let ?rest = "fo_channel s @ take i ?e @ drop (Suc i) ?e"
    have split: "?e = take i ?e @ ?e ! i # drop (Suc i) ?e" using True by (rule id_take_nth_drop)
    have flight: "in_flight s = fo_channel s @ take i ?e @ ?e ! i # drop (Suc i) ?e"
      unfolding in_flight_def by (subst split) (rule refl)
    have rest: "distinct (map ef_consumed ?rest)" "?c \<notin> ef_consumed ` set ?rest" "list_all (frame_owned s) ?rest"
      using assms unfolding frame_inv_def flight by auto
    let ?t = "(set_flag ?c True s)\<lparr>fo_encoder := take i ?e @ drop (Suc i) ?e\<rparr>"
    have "in_flight ?t = ?rest" by (simp add: in_flight_def)
    moreover have "frame_owned ?t = frame_owned (set_flag ?c True s)" by (simp add: frame_owned_def [abs_def])
    ultimately have "frame_inv ?t" using assms rest owned_set_flag [OF rest(3,2)] by (simp add: frame_inv_def)
    then show ?thesis using True Encoder_Releases by simp
  qed (use assms Encoder_Releases in simp)
next
  case Encoder_Gone
  then show ?thesis using assms by (simp add: frame_inv_def in_flight_def)
qed (use assms in \<open>simp; subst frame_inv_cong [of _ s]; simp\<close>)+

lemma frame_inv_run: "frame_inv s \<Longrightarrow> frame_inv (fst (frame_run es s))"
  by (induction es arbitrary: s) (simp_all add: frame_inv_step case_prod_beta Let_def)

subsection \<open>Composing a frame\<close>

fun is_render :: "frame_effect \<Rightarrow> bool" where
  "is_render (Render_Into _ _ _) = True"
| "is_render _ = False"

definition renders :: "frame_effect list \<Rightarrow> nat" where
  "renders es = length (filter is_render es)"

lemma renders_append [simp]: "renders (xs @ ys) = renders xs + renders ys" "renders [] = 0"
  "renders (x # xs) = (if is_render x then 1 else 0) + renders xs"
  by (simp_all add: renders_def)

lemma renders_callbacks [simp]: "renders (send_composited_frame_callbacks env s) = 0"
  by (auto simp: renders_def send_composited_frame_callbacks_def filter_empty_conv split: option.splits if_splits)

lemma send_frame_effects:
  "snd (send_frame now f s) = (if fo_connected s \<and> length (fo_channel s) < 2 then [Exported f] else [])"
  by (simp add: send_frame_def try_send_def frame_consts)

lemma send_frame_state:
  "fo_flags (fst (send_frame now f s)) =
     (if fo_connected s \<and> 2 \<le> length (fo_channel s) then (fo_flags s)(ef_consumed f := True) else fo_flags s)"
  "set (in_flight (fst (send_frame now f s))) \<subseteq> insert f (set (in_flight s))"
  "fo_next_buffer_index (fst (send_frame now f s)) = fo_next_buffer_index s"
  "fo_override_surface (fst (send_frame now f s)) = fo_override_surface s"
  by (auto simp: send_frame_def try_send_def frame_consts in_flight_def)

text \<open>The state in which the draw call finds the scene.\<close>

definition drawing_state :: "render_env \<Rightarrow> frame_comp \<Rightarrow> frame_comp" where
  "drawing_state env s =
     (let i = fo_next_buffer_index s; s = (set_flag i False s)\<lparr>fo_next_buffer_index := (i + 1) mod 3\<rparr>
      in drop_dead_override env (override_active env s) (reset_dead_cursor env s))"

lemma drawing_state_simps [simp]:
  "fo_flags (drawing_state env s) = (fo_flags s)(fo_next_buffer_index s := False)"
  "in_flight (drawing_state env s) = in_flight s" "fo_channel (drawing_state env s) = fo_channel s"
  "fo_connected (drawing_state env s) = fo_connected s"
  "fo_next_buffer_index (drawing_state env s) = (fo_next_buffer_index s + 1) mod 3"
  by (auto simp: drawing_state_def Let_def drop_dead_override_def reset_dead_cursor_def in_flight_def
      split: option.split cursor_status.split)

lemma compose_cases:
  obtains (busy) "\<not> fo_flags s (fo_next_buffer_index s)" "compose env s = (s, [])"
  | (unbound) t where "fo_flags s (fo_next_buffer_index s)" "\<not> re_bind_ok env" "compose env s = (t, [])"
      "fo_flags t = fo_flags s" "in_flight t = in_flight s" "fo_next_buffer_index t = (fo_next_buffer_index s + 1) mod 3"
  | (no_elements) t where "fo_flags s (fo_next_buffer_index s)" "re_bind_ok env" "re_elements env = None"
      "compose env s = (t, [])" "fo_flags t = (fo_flags s)(fo_next_buffer_index s := False)" "in_flight t = in_flight s"
      "fo_next_buffer_index t = (fo_next_buffer_index s + 1) mod 3"
  | (drawn) els where "fo_flags s (fo_next_buffer_index s)" "re_bind_ok env" "re_elements env \<noteq> None"
      "compose env s = render_scene env (fo_next_buffer_index s) els (drawing_state env s)"
proof (cases "fo_flags s (fo_next_buffer_index s)")
  case False
  then show ?thesis using busy by (simp add: compose_def Let_def)
next
  case True
  let ?i = "fo_next_buffer_index s"
  let ?s = "(set_flag ?i False s)\<lparr>fo_next_buffer_index := (?i + 1) mod 3\<rparr>"
  show ?thesis
  proof (cases "re_bind_ok env")
    case False
    have "compose env s = (set_flag ?i True ?s, [])" using True False by (simp add: compose_def Let_def frame_consts)
    moreover have "fo_flags (set_flag ?i True ?s) = fo_flags s" using True by (simp add: fun_upd_idem)
    ultimately show ?thesis using unbound True False by simp
  next
    case bind: True
    show ?thesis
    proof (cases "re_elements env")
      case None
      have "compose env s = (?s, [])" using True bind None by (simp add: compose_def Let_def frame_consts)
      then show ?thesis using no_elements True bind None by simp
    next
      case (Some els)
      have "\<exists>els. compose env s = render_scene env ?i els (drawing_state env s)"
        using True bind Some by (simp add: compose_def Let_def frame_consts drawing_state_def) blast
      then show ?thesis using drawn True bind Some by auto
    qed
  qed
qed

lemma render_scene_state:
  assumes "render_scene env idx els s = (t, effects)"
  shows "\<forall>j. j \<noteq> idx \<longrightarrow> fo_flags t j = fo_flags s j" "set (in_flight t) \<subseteq> {f. ef_consumed f = idx} \<union> set (in_flight s)"
    "fo_next_buffer_index t = fo_next_buffer_index s" "renders effects = 1"
    "re_outcome env = Render_Failed \<longrightarrow> fo_flags t = fo_flags s \<and> in_flight t = in_flight s"
proof -
  note send = send_frame_state [where now = "re_now env" and f = "\<lparr>ef_created_at = re_now env, ef_buffer_index = idx,
      ef_consumed = idx, ef_color_space = fst (re_color env), ef_hdr_metadata = snd (re_color env)\<rparr>"
      and s = "s\<lparr>fo_last_rendered := (fo_last_rendered s)[idx := Some (fo_render_count s)],
                fo_render_count := fo_render_count s + 1\<rparr>"]
  show "\<forall>j. j \<noteq> idx \<longrightarrow> fo_flags t j = fo_flags s j" "fo_next_buffer_index t = fo_next_buffer_index s"
    using assms send(1,3) by (auto simp: render_scene_def Let_def case_prod_beta split: if_splits)
  show "set (in_flight t) \<subseteq> {f. ef_consumed f = idx} \<union> set (in_flight s)"
    using assms send(2) by (auto simp: render_scene_def Let_def case_prod_beta split: if_splits)
  show "renders effects = 1"
    using assms by (auto simp: render_scene_def Let_def case_prod_beta send_frame_effects split: if_splits)
  show "re_outcome env = Render_Failed \<longrightarrow> fo_flags t = fo_flags s \<and> in_flight t = in_flight s"
    using assms by (auto simp: render_scene_def Let_def case_prod_beta)
qed

subsection \<open>A lost buffer\<close>

text \<open>A slot of the pool is lost when it is marked as in use and no frame in flight will release it.\<close>

definition slot_lost :: "frame_comp \<Rightarrow> nat \<Rightarrow> bool" where
  "slot_lost s i \<longleftrightarrow> i < 3 \<and> \<not> fo_flags s i \<and> i \<notin> ef_consumed ` set (in_flight s)"

text \<open>How many more buffers the pool hands out before it comes to the lost one.\<close>

definition slots_before :: "nat \<Rightarrow> frame_comp \<Rightarrow> nat" where
  "slots_before i s = (i + 3 - fo_next_buffer_index s) mod 3"

lemma slots_before_next:
  "i < 3 \<Longrightarrow> fo_next_buffer_index s < 3 \<Longrightarrow> i \<noteq> fo_next_buffer_index s \<Longrightarrow>
   fo_next_buffer_index t = (fo_next_buffer_index s + 1) mod 3 \<Longrightarrow> slots_before i t + 1 = slots_before i s"
proof -
  assume a: "i < 3" "fo_next_buffer_index s < 3" "i \<noteq> fo_next_buffer_index s"
    "fo_next_buffer_index t = (fo_next_buffer_index s + 1) mod 3"
  then have "i = 0 \<or> i = 1 \<or> i = 2" "fo_next_buffer_index s = 0 \<or> fo_next_buffer_index s = 1 \<or> fo_next_buffer_index s = 2"
    by linarith+
  then show ?thesis using a(3,4) by (elim disjE) (simp_all add: slots_before_def)
qed

lemma slot_lost_compose:
  assumes "slot_lost s i" and "fo_next_buffer_index s < 3"
  shows "slot_lost (fst (compose env s)) i \<and>
    renders (snd (compose env s)) + slots_before i (fst (compose env s)) \<le> slots_before i s"
proof (cases rule: compose_cases [of s env])
  case busy
  then show ?thesis using assms by simp
next
  case (unbound t)
  then have "i \<noteq> fo_next_buffer_index s" using assms(1) by (auto simp: slot_lost_def)
  then show ?thesis using unbound assms slots_before_next [of i s t] by (simp add: slot_lost_def)
next
  case (no_elements t)
  then have "i \<noteq> fo_next_buffer_index s" using assms(1) by (auto simp: slot_lost_def)
  then show ?thesis using no_elements assms slots_before_next [of i s t] by (simp add: slot_lost_def)
next
  case (drawn els)
  then have ne: "i \<noteq> fo_next_buffer_index s" using assms(1) by (auto simp: slot_lost_def)
  obtain t effects where r: "render_scene env (fo_next_buffer_index s) els (drawing_state env s) = (t, effects)" by fastforce
  from render_scene_state [OF r] ne have "slot_lost t i" using assms(1) by (auto simp: slot_lost_def)
  moreover have "fo_next_buffer_index t = (fo_next_buffer_index s + 1) mod 3" using render_scene_state(3) [OF r] by simp
  ultimately show ?thesis using drawn(4) r render_scene_state(4) [OF r] slots_before_next [of i s t] ne assms
    by (simp add: slot_lost_def)
qed

lemma export_scanout_state:
  "fo_next_buffer_index (fst (export_scanout env b s)) = fo_next_buffer_index s"
  "j < fo_next_flag s \<Longrightarrow> fo_flags (fst (export_scanout env b s)) j = fo_flags s j"
  "set (in_flight (fst (export_scanout env b s))) \<subseteq> {f. ef_consumed f = fo_next_flag s} \<union> set (in_flight s)"
  "renders (snd (export_scanout env b s)) = 0"
proof -
  obtain i t where it: "scanout_index (cb_id b) s = (i, t)" by fastforce
  then have t: "fo_next_flag t = fo_next_flag s" "in_flight t = in_flight s" "fo_flags t = fo_flags s"
    "fo_next_buffer_index t = fo_next_buffer_index s"
    by (auto simp: scanout_index_def split: option.splits)
  let ?f = "\<lparr>ef_created_at = re_now env, ef_buffer_index = i, ef_consumed = fo_next_flag t,
      ef_color_space = fst (re_color env), ef_hdr_metadata = snd (re_color env)\<rparr>"
  let ?u = "(set_flag (fo_next_flag t) False t)\<lparr>fo_next_flag := fo_next_flag t + 1,
      fo_held := fo_held t @ [(fo_next_flag t, cb_id b)]\<rparr>"
  have e: "export_scanout env b s = send_frame (re_now env) ?f ?u" using it by (simp add: export_scanout_def Let_def)
  note send = send_frame_state [where now = "re_now env" and f = ?f and s = ?u]
  show "fo_next_buffer_index (fst (export_scanout env b s)) = fo_next_buffer_index s" unfolding e using send(3) t by simp
  show "fo_flags (fst (export_scanout env b s)) j = fo_flags s j" if "j < fo_next_flag s"
    unfolding e using send(1) t that by simp
  show "set (in_flight (fst (export_scanout env b s))) \<subseteq> {f. ef_consumed f = fo_next_flag s} \<union> set (in_flight s)"
    unfolding e using send(2) t by auto
  show "renders (snd (export_scanout env b s)) = 0" unfolding e by (simp add: send_frame_effects)
qed

lemma renders_0: "\<forall>e \<in> set es. \<not> (\<exists>i a els. e = Render_Into i a els) \<Longrightarrow> renders es = 0"
  unfolding renders_def by (metis (no_types, lifting) filter_False is_render.elims(2) list.size(3))

lemma slot_lost_scanout:
  assumes "slot_lost s i" and "3 \<le> fo_next_flag s" and "direct_scanout env s = Some r"
  shows "slot_lost (fst r) i \<and> renders (snd r) + slots_before i (fst r) \<le> slots_before i s"
proof -
  obtain b rest where r: "r = (fst (export_scanout env b s), snd (export_scanout env b s) @ rest)"
    "\<forall>e \<in> set rest. \<not> (\<exists>i a els. e = Render_Into i a els)"
    using direct_scanout_exports [OF assms(3)] by blast
  have "slot_lost (fst (export_scanout env b s)) i"
    using assms(1,2) export_scanout_state(2,3) [where env = env and b = b and s = s] by (fastforce simp: slot_lost_def)
  then show ?thesis using r renders_0 by (simp add: export_scanout_state slots_before_def)
qed

lemma quiet_tick_simps [simp]:
  "fo_flags (release_held s) = fo_flags s" "fo_flags (note_cursor env s) = fo_flags s"
  "in_flight (note_cursor env s) = in_flight s" "fo_next_buffer_index (release_held s) = fo_next_buffer_index s"
  "fo_next_buffer_index (note_cursor env s) = fo_next_buffer_index s" "fo_next_flag (release_held s) = fo_next_flag s"
  "fo_next_flag (note_cursor env s) = fo_next_flag s" "fo_connected (release_held s) = fo_connected s"
  "fo_connected (note_cursor env s) = fo_connected s" "fo_channel (release_held s) = fo_channel s"
  "fo_channel (note_cursor env s) = fo_channel s"
  by (simp_all add: release_held_def note_cursor_def in_flight_def)

lemma slot_lost_tick:
  assumes "slot_lost s i" and "frame_inv s"
  shows "slot_lost (fst (render_and_export env s)) i \<and>
    renders (snd (render_and_export env s)) + slots_before i (fst (render_and_export env s)) \<le> slots_before i s"
proof -
  let ?s = "release_held (note_cursor env s)"
  have lost: "slot_lost ?s i" "slot_lost (note_cursor env s) i" "slots_before i ?s = slots_before i s"
    "slots_before i (note_cursor env s) = slots_before i s"
    using assms(1) by (simp_all add: slot_lost_def slots_before_def)
  have "fo_next_buffer_index ?s < 3" "3 \<le> fo_next_flag ?s" using assms(2) by (simp_all add: frame_inv_def)
  then show ?thesis using slot_lost_compose [OF lost(1)] slot_lost_scanout [OF lost(1)] lost
    by (auto simp: render_and_export_def Let_def split: option.split)
qed

lemma slot_lost_step:
  assumes "slot_lost s i" and "frame_inv s"
  shows "slot_lost (fst (frame_step e s)) i \<and>
    renders (snd (frame_step e s)) + slots_before i (fst (frame_step e s)) \<le> slots_before i s"
proof (cases e)
  case (Encoder_Releases k)
  have "ef_consumed (fo_encoder s ! k) \<noteq> i" if "k < length (fo_encoder s)"
    using assms(1) that by (force simp: slot_lost_def in_flight_def image_iff in_set_conv_nth)
  then show ?thesis using assms Encoder_Releases
    by (auto simp: slot_lost_def slots_before_def in_flight_def image_iff dest: in_set_takeD in_set_dropD)
next
  case Encoder_Receives
  then show ?thesis using assms by (cases "fo_channel s") (auto simp: slot_lost_def slots_before_def in_flight_def)
qed (use assms slot_lost_tick in \<open>auto simp: slot_lost_def slots_before_def in_flight_def\<close>)

lemma slot_lost_run:
  "slot_lost s i \<Longrightarrow> frame_inv s \<Longrightarrow> slot_lost (fst (frame_run es s)) i \<and> renders (snd (frame_run es s)) \<le> slots_before i s"
proof (induction es arbitrary: s)
  case (Cons e es)
  let ?t = "fst (frame_step e s)"
  have "slot_lost ?t i \<and> renders (snd (frame_step e s)) + slots_before i ?t \<le> slots_before i s"
    using Cons.prems by (rule slot_lost_step)
  moreover have "frame_inv ?t" using Cons.prems(2) by (rule frame_inv_step)
  ultimately show ?case using Cons.IH [of ?t] by (auto simp: case_prod_beta Let_def)
qed simp

subsection \<open>What a tick does\<close>

lemma callbacks_no_export: "Exported f \<notin> set (send_composited_frame_callbacks env s)"
  "Render_Into i a els \<notin> set (send_composited_frame_callbacks env s)"
  by (auto simp: send_composited_frame_callbacks_def split: option.splits if_splits)

lemma render_scene_exports:
  "(\<exists>f. Exported f \<in> set (snd (render_scene env idx els s))) \<longleftrightarrow>
     re_outcome env \<noteq> Render_Failed \<and> fo_connected s \<and> length (fo_channel s) < 2"
  by (auto simp: render_scene_def Let_def case_prod_beta send_frame_effects callbacks_no_export split: if_splits)

lemma render_scene_target: "Render_Into i a es \<in> set (snd (render_scene env idx els s)) \<Longrightarrow> i = idx"
  by (auto simp: render_scene_def Let_def case_prod_beta send_frame_effects callbacks_no_export split: if_splits)

lemma compose_exports:
  "(\<exists>f. Exported f \<in> set (snd (compose env s))) \<longleftrightarrow>
     fo_flags s (fo_next_buffer_index s) \<and> re_bind_ok env \<and> re_elements env \<noteq> None \<and> re_outcome env \<noteq> Render_Failed \<and>
     fo_connected s \<and> length (fo_channel s) < 2"
  by (cases rule: compose_cases [of s env]) (simp_all add: render_scene_exports)

lemma compose_target:
  "Render_Into i a els \<in> set (snd (compose env s)) \<Longrightarrow> i = fo_next_buffer_index s \<and> fo_flags s i"
  by (cases rule: compose_cases [of s env]) (auto dest: render_scene_target)

lemma direct_scanout_exported:
  assumes "direct_scanout env s = Some r"
  shows "(\<exists>f. Exported f \<in> set (snd r)) \<longleftrightarrow> fo_connected s \<and> length (fo_channel s) < 2"
proof -
  obtain b rest where r: "r = (fst (export_scanout env b s), snd (export_scanout env b s) @ rest)"
    "\<forall>e \<in> set rest. \<not> (\<exists>f. e = Exported f)"
    using direct_scanout_exports [OF assms] by blast
  have "(\<exists>f. Exported f \<in> set (snd (export_scanout env b s))) \<longleftrightarrow> fo_connected s \<and> length (fo_channel s) < 2"
    by (auto simp: export_scanout_def scanout_index_def Let_def send_frame_effects split: option.split prod.split)
  then show ?thesis using r by auto
qed

lemma direct_scanout_no_render:
  assumes "direct_scanout env s = Some r"
  shows "Render_Into i a els \<notin> set (snd r)"
proof -
  obtain b rest where r: "r = (fst (export_scanout env b s), snd (export_scanout env b s) @ rest)"
    "\<forall>e \<in> set rest. \<not> (\<exists>i a els. e = Render_Into i a els)"
    using direct_scanout_exports [OF assms] by blast
  have "Render_Into i a els \<notin> set (snd (export_scanout env b s))"
    by (auto simp: export_scanout_def scanout_index_def Let_def send_frame_effects split: option.split prod.split)
  then show ?thesis using r by auto
qed

lemma tick_target:
  "Render_Into i a els \<in> set (snd (frame_step e s)) \<Longrightarrow> i = fo_next_buffer_index s \<and> fo_flags s i"
  by (cases e)
    (auto simp: render_and_export_def Let_def direct_scanout_no_render split: if_splits option.splits list.splits
      dest!: compose_target)

lemma note_cursor_due [simp]:
  "fo_screen_dirty (note_cursor env s) \<longleftrightarrow> fo_screen_dirty s \<or> re_cursor env \<noteq> fo_last_cursor s"
  "fo_last_sent (note_cursor env s) = fo_last_sent s"
  by (simp_all add: note_cursor_def)

lemma tick_due:
  "fo_screen_dirty s \<or> re_cursor env \<noteq> fo_last_cursor s \<or> 1000 \<le> re_now env - fo_last_sent s \<Longrightarrow>
   render_and_export env s =
     (case direct_scanout env (release_held (note_cursor env s)) of
        Some r \<Rightarrow> r | None \<Rightarrow> compose env (release_held (note_cursor env s)))"
  by (auto simp: render_and_export_def Let_def split: option.split)

section \<open>Correctness\<close>

text \<open>
  C31. Whatever the order of ticks, commits and steps of the encoder, the renderer never draws into a buffer of the pool
  that a frame in the channel or in the encoder shows, and the client's buffer behind every such frame of a direct
  scanout is held.
\<close>

theorem buffers_not_overwritten:
  assumes "s = fst (frame_run es (frame_comp_new now cursor))"
  shows "(Render_Into idx age els \<in> set (snd (frame_step e s)) \<longrightarrow> idx \<notin> ef_buffer_index ` set (in_flight s)) \<and>
    (f \<in> set (in_flight s) \<and> 3 \<le> ef_buffer_index f \<longrightarrow> (\<exists>b. (ef_consumed f, b) \<in> set (fo_held s)))"
proof -
  have inv: "frame_inv s" unfolding assms by (intro frame_inv_run frame_inv_new)
  have "idx \<notin> ef_buffer_index ` set (in_flight s)" if "Render_Into idx age els \<in> set (snd (frame_step e s))"
    using tick_target [OF that] inv by (auto simp: frame_inv_def list_all_iff frame_owned_def split: if_splits)
  moreover have "\<exists>b. (ef_consumed f, b) \<in> set (fo_held s)" if "f \<in> set (in_flight s)" "3 \<le> ef_buffer_index f"
    using that inv by (fastforce simp: frame_inv_def list_all_iff frame_owned_def)
  ultimately show ?thesis by blast
qed

text \<open>
  A tick exports a frame exactly when it is due (something changed, or nothing was sent for a second), the encoder's
  channel has room, and either the client's buffer can be shown directly or the next buffer of the pool is free and
  is drawn without an error.
\<close>

theorem tick_exports_iff:
  "(\<exists>f. Exported f \<in> set (snd (render_and_export env s))) \<longleftrightarrow>
     (fo_screen_dirty s \<or> re_cursor env \<noteq> fo_last_cursor s \<or> 1000 \<le> re_now env - fo_last_sent s) \<and>
     fo_connected s \<and> length (fo_channel s) < 2 \<and>
     (direct_scanout env (release_held (note_cursor env s)) \<noteq> None \<or>
      fo_flags s (fo_next_buffer_index s) \<and> re_bind_ok env \<and> re_elements env \<noteq> None \<and> re_outcome env \<noteq> Render_Failed)"
proof (cases "fo_screen_dirty s \<or> re_cursor env \<noteq> fo_last_cursor s \<or> 1000 \<le> re_now env - fo_last_sent s")
  case False
  then show ?thesis by (simp add: render_and_export_def)
next
  case True
  then show ?thesis
    by (cases "direct_scanout env (release_held (note_cursor env s))")
      (auto simp: tick_due compose_exports direct_scanout_exported)
qed

text \<open>
  C32. One failed draw call stops the composition for good. The buffer taken for it stays marked as in use although no
  frame will release it; at most two more frames are composed, then every tick finds that buffer next and skips.
\<close>

theorem failed_draw_freezes_composition:
  assumes "s = fst (frame_run before (frame_comp_new now cursor))" and "fo_screen_dirty s"
    and "direct_scanout env (release_held (note_cursor env s)) = None" and "fo_flags s (fo_next_buffer_index s)"
    and "re_bind_ok env" and "re_elements env = None \<or> re_outcome env = Render_Failed"
  shows "renders (snd (frame_run es (fst (render_and_export env s)))) \<le> 2 \<and>
    \<not> fo_flags (fst (frame_run es (fst (render_and_export env s)))) (fo_next_buffer_index s)"
proof -
  let ?i = "fo_next_buffer_index s" and ?s = "release_held (note_cursor env s)"
  have inv: "frame_inv s" unfolding assms(1) by (intro frame_inv_run frame_inv_new)
  have tick: "render_and_export env s = compose env ?s"
    using assms(2,3) by (simp add: tick_due)
  have fresh: "?i < 3" "?i \<notin> ef_consumed ` set (in_flight s)"
    using inv frame_inv_free_slot(2) [OF inv assms(4)] by (simp_all add: frame_inv_def)
  have "slot_lost (fst (compose env ?s)) ?i"
  proof (cases rule: compose_cases [of ?s env])
    case (drawn els)
    obtain t effects where r: "render_scene env (fo_next_buffer_index ?s) els (drawing_state env ?s) = (t, effects)" by fastforce
    show ?thesis using drawn(3,4) r render_scene_state(5) [OF r] assms(6) fresh by (auto simp: slot_lost_def)
  qed (use assms(4,5) fresh in \<open>auto simp: slot_lost_def\<close>)
  moreover have "frame_inv (fst (compose env ?s))" using frame_inv_tick [OF inv, of env] tick by simp
  ultimately have run: "slot_lost (fst (frame_run es (fst (compose env ?s)))) ?i"
    "renders (snd (frame_run es (fst (compose env ?s)))) \<le> slots_before ?i (fst (compose env ?s))"
    using slot_lost_run by blast+
  moreover have "slots_before ?i (fst (compose env ?s)) \<le> 2" by (simp add: slots_before_def)
  ultimately show ?thesis unfolding tick by (simp add: slot_lost_def)
qed

definition example_tick :: "nat \<Rightarrow> render_outcome \<Rightarrow> render_env" where
  "example_tick now outcome =
     \<lparr>re_now = now, re_cursor = (0, 0), re_last_activity = Some now, re_alive = (\<lambda>_. True), re_override_focused = False,
      re_focused = None, re_windows = [], re_buffer = (\<lambda>_. None), re_width = 1920, re_height = 1080,
      re_color = (FCS_Srgb, None), re_bind_ok = True, re_elements = Some [Window_Element 1],
      re_cursor_elements = (\<lambda>c. [Cursor_Element c]), re_tree = (\<lambda>e. [e]), re_outcome = outcome\<rparr>"

lemma example_tick_composes:
  "direct_scanout (example_tick now outcome) s = None" "re_bind_ok (example_tick now outcome)"
  "re_outcome (example_tick now outcome) = outcome" "re_elements (example_tick now outcome) = Some [Window_Element 1]"
  "re_now (example_tick now outcome) = now" "re_cursor (example_tick now outcome) = (0, 0)"
  by (simp_all add: example_tick_def direct_scanout_def can_direct_scanout_scene_def pointer_idle_def)

theorem buffers_not_overwritten_witness:
  "let s = fst (frame_run [Tick (example_tick 0 Render_Ok)] (frame_comp_new 0 (0, 0)))
   in map ef_buffer_index (in_flight s) = [0] \<and> \<not> (\<exists>age els. Render_Into 0 age els \<in> set (snd (frame_step (Tick (example_tick 1 Render_Ok)) s)))"
proof -
  let ?s = "fst (frame_run [Tick (example_tick 0 Render_Ok)] (frame_comp_new 0 (0, 0)))"
  have flight: "map ef_buffer_index (in_flight ?s) = [0]"
    by (simp add: case_prod_beta tick_due frame_comp_new_def example_tick_composes compose_def Let_def note_cursor_def
        release_held_def render_scene_def send_frame_def try_send_def frame_consts in_flight_def reset_dead_cursor_def
        drop_dead_override_def set_flag_def override_active_def)
  then have "0 \<in> ef_buffer_index ` set (in_flight ?s)" by (metis image_set list.set_intros(1))
  then have "Render_Into 0 age els \<notin> set (snd (frame_step (Tick (example_tick 1 Render_Ok)) ?s))" for age els
    using buffers_not_overwritten [OF refl, of 0 age els "Tick (example_tick 1 Render_Ok)"] by blast
  with flight show ?thesis by (simp only: Let_def) blast
qed

theorem failed_draw_freezes_composition_witness:
  "renders (snd (frame_run (map (\<lambda>n. Tick (example_tick n Render_Ok)) [1, 2, 3, 4, 5])
     (fst (render_and_export (example_tick 0 Render_Failed) (frame_comp_new 0 (0, 0)))))) \<le> 2"
  by (rule failed_draw_freezes_composition [OF refl, of "[]", THEN conjunct1, simplified frame_run.simps fst_conv])
    (simp_all add: frame_comp_new_def example_tick_composes)

end
