(* ===== verification/Video_Pipeline.thy ===== *)
theory Video_Pipeline
  imports Frame_Output Hdr_Sei Packetizer "HOL-Library.Sublist"
begin

text \<open>
  The video pipeline, \<open>session/stream/video/pipeline/mod.rs\<close>: the encoding loop, which takes frames of the
  compositor, converts and encodes them, and the packet consumer, which packetizes what the encoder returns. The
  Vulkan calls of pixelforge are parameters with an outcome per turn, and a future is named by the display order of its
  frame, which pixelforge counts per submitted frame. Times and log messages are left out; the stop of the session, which the
  loop looks at between its turns, is the end of a run.
\<close>

section \<open>Formats\<close>

definition MAX_FRAMES_IN_FLIGHT :: nat where "MAX_FRAMES_IN_FLIGHT = 3"

datatype input_format = IF_RGBA | IF_ABGR2101010 | IF_RGBA16F | IF_BGRx

datatype vk_format = R8G8B8A8_UNORM | A2B10G10R10_UNORM_PACK32 | R16G16B16A16_SFLOAT | B8G8R8A8_UNORM

definition drm_fourcc_to_input :: "u32 \<Rightarrow> input_format \<times> vk_format" where
  "drm_fourcc_to_input fourcc =
     (if fourcc \<in> {0x34324241, 0x34324258} then (IF_RGBA, R8G8B8A8_UNORM)
      else if fourcc \<in> {0x30334241, 0x30334258} then (IF_ABGR2101010, A2B10G10R10_UNORM_PACK32)
      else if fourcc \<in> {0x48344241, 0x48344258} then (IF_RGBA16F, R16G16B16A16_SFLOAT)
      else (IF_BGRx, B8G8R8A8_UNORM))"

datatype gpu_error = Vulkan_Error int | Buffer_Overflow nat nat | Other_Gpu_Error string

text \<open>The texts of a Vulkan error and of a buffer overflow are not inspected.\<close>

fun is_device_lost :: "gpu_error \<Rightarrow> bool" where
  "is_device_lost (Vulkan_Error r) = (r = -4)"
| "is_device_lost (Other_Gpu_Error msg) = sublist ''device has been lost'' msg"
| "is_device_lost (Buffer_Overflow _ _) = False"

datatype color_description = CD_Bt709 bool | CD_Bt2020_Pq bool

fun is_hdr :: "color_description \<Rightarrow> bool" where
  "is_hdr (CD_Bt709 _) = False"
| "is_hdr (CD_Bt2020_Pq _) = True"

datatype conversion_space = CS_Bt709 | CS_Bt2020 | CS_Bt709LinearToBt2020Pq

datatype output_format = NV12 | P010 | YUV444 | YUV444P10

fun output_format_for :: "video_chroma_sampling \<Rightarrow> video_dynamic_range \<Rightarrow> output_format" where
  "output_format_for Yuv420 Sdr = NV12"
| "output_format_for Yuv420 Hdr = P010"
| "output_format_for Yuv444 Sdr = YUV444"
| "output_format_for Yuv444 Hdr = YUV444P10"

definition session_description :: "video_stream_context \<Rightarrow> color_description" where
  "session_description ctx =
     (case dynamic_range ctx of Sdr \<Rightarrow> CD_Bt709 (full_range ctx) | Hdr \<Rightarrow> CD_Bt2020_Pq (full_range ctx))"

record encode_config =
  ec_codec :: video_format
  ec_width :: u32
  ec_height :: u32
  ec_pixel_format :: video_chroma_sampling
  ec_ten_bit :: bool
  ec_color :: color_description
  ec_target_bitrate :: u32
  ec_frame_rate :: u32
  ec_max_reference_frames :: u32
  ec_virtual_buffer_ms :: u32

definition create_encoder :: "video_stream_context \<Rightarrow> encode_config res" where
  "create_encoder ctx =
     (if fps ctx = 0 then Inl Panic
      else Inr \<lparr>ec_codec = video_format ctx, ec_width = width ctx, ec_height = height ctx,
        ec_pixel_format = chroma_sampling_type ctx, ec_ten_bit = (dynamic_range ctx = Hdr),
        ec_color = session_description ctx, ec_target_bitrate = of_nat (bitrate ctx), ec_frame_rate = fps ctx,
        ec_max_reference_frames = max_reference_frames ctx, ec_virtual_buffer_ms = 1000 div fps ctx\<rparr>)"

section \<open>State\<close>

record captured_frame = exported_frame +
  cf_format :: u32
  cf_planes :: nat

record encode_context =
  fx_inject_hdr :: bool
  fx_hdr_metadata :: "hdr_metadata option"
  fx_buffer_index :: "nat option"

datatype consumer_message = Frame_Message encode_context nat | Reset_Counters

record converter =
  cv_input_format :: input_format
  cv_color_space :: conversion_space
  cv_full_range :: bool
  cv_sdr_white_nits :: "nat option"

datatype loop_exit = Running | Loop_Ended | Loop_Failed | Loop_Panicked

text \<open>
  The fields of both threads: first what they share, the counter of frames in flight and the message channel with
  its receiver, then the encoding loop, then the consumer.
\<close>

record 'rs pipeline =
  vp_in_flight :: nat
  vp_queue :: "consumer_message list"
  vp_consumer :: bool
  vp_importer :: bool
  vp_converter :: "converter option"
  vp_description :: color_description
  vp_has_encoded :: bool
  vp_submitted :: nat
  vp_frame_number_base :: nat
  vp_last_hdr :: hdr_mode_state
  vp_exit :: loop_exit
  vp_frame_number :: u32
  vp_sequence_number :: u32
  vp_packetizer :: "'rs packetizer"

datatype pipeline_effect =
    Request_Idr
  | Invalidate_From nat
  | Set_Description color_description
  | Convert converter color_description captured_frame
  | Release nat
  | Hdr_State hdr_mode_state
  | Submitted nat "nat option"
  | Readback_Failed nat
  | Idr_Broadcast
  | Packets nat u32 shard_batch
  | Stats

definition pipeline_new :: "video_stream_context \<Rightarrow> 'rs pipeline" where
  "pipeline_new ctx =
     \<lparr>vp_in_flight = 0, vp_queue = [], vp_consumer = True, vp_importer = False, vp_converter = None,
      vp_description = session_description ctx, vp_has_encoded = False, vp_submitted = 0, vp_frame_number_base = 0,
      vp_last_hdr = hdr_mode_state_new (dynamic_range ctx = Hdr), vp_exit = Running, vp_frame_number = 0,
      vp_sequence_number = 0, vp_packetizer = packetizer_new (video_stream_context.encrypt_video ctx)\<rparr>"

section \<open>Requests to the encoding loop\<close>

datatype 'a broadcast = Received 'a | Lagged nat

text \<open>
  A message for a consumer that is gone is dropped and the error ignored. The channel is bounded by five messages: a
  send that waits for room is a turn taken after the consumer's.
\<close>

definition post :: "consumer_message \<Rightarrow> 'rs pipeline \<Rightarrow> 'rs pipeline" where
  "post m s = (if vp_consumer s then s\<lparr>vp_queue := vp_queue s @ [m]\<rparr> else s)"

definition drain_resets :: "unit broadcast list \<Rightarrow> 'rs pipeline \<Rightarrow> 'rs pipeline \<times> pipeline_effect list \<times> bool" where
  "drain_resets resets s =
     (if resets = [] then (s, [], False)
      else ((post Reset_Counters s)\<lparr>vp_frame_number_base := vp_submitted s\<rparr>, [Request_Idr], True))"

definition drain_idrs :: "unit broadcast list \<Rightarrow> pipeline_effect list \<times> bool" where
  "drain_idrs idrs = (map (\<lambda>_. Request_Idr) idrs, idrs \<noteq> [])"

definition invalidation_target :: "nat \<Rightarrow> u32 \<Rightarrow> nat" where
  "invalidation_target base first = base + (unat (max first 1) - 1)"

fun drain_invalidations :: "nat \<Rightarrow> (u32 \<times> u32) broadcast list \<Rightarrow> pipeline_effect list \<times> bool" where
  "drain_invalidations base [] = ([], False)"
| "drain_invalidations base (Received (first, _) # rest) =
     (let (effects, idr) = drain_invalidations base rest in (Invalidate_From (invalidation_target base first) # effects, idr))"
| "drain_invalidations base (Lagged _ # rest) =
     (let (effects, idr) = drain_invalidations base rest in (Request_Idr # effects, True))"

section \<open>A captured frame\<close>

datatype frame_poll = Frame_Received captured_frame | Poll_Timeout | Poll_Disconnected

text \<open>The outcomes of the calls of a turn; \<open>te_import\<close> tells whether the import succeeds.\<close>

record turn_env =
  te_resets :: "unit broadcast list"
  te_idrs :: "unit broadcast list"
  te_invalidations :: "(u32 \<times> u32) broadcast list"
  te_poll :: frame_poll
  te_importer_ok :: bool
  te_import :: bool
  te_converter_ok :: bool
  te_description_ok :: bool
  te_convert :: "gpu_error option"
  te_encode :: "gpu_error option"

datatype verdict = Proceed | Drop_Frame | Stop loop_exit

type_synonym 'rs stage = "'rs pipeline \<Rightarrow> 'rs pipeline \<times> pipeline_effect list \<times> verdict"

definition and_then :: "'rs stage \<Rightarrow> 'rs stage \<Rightarrow> 'rs stage" where
  "and_then f g s =
     (case f s of
        (t, effects, Proceed) \<Rightarrow> (case g t of (u, others, v) \<Rightarrow> (u, effects @ others, v))
      | r \<Rightarrow> r)"

definition backpressure_stage :: "captured_frame \<Rightarrow> 'rs stage" where
  "backpressure_stage f s =
     (if MAX_FRAMES_IN_FLIGHT \<le> vp_in_flight s then (s, [Release (ef_consumed f)], Drop_Frame) else (s, [], Proceed))"

definition importer_stage :: "turn_env \<Rightarrow> captured_frame \<Rightarrow> 'rs stage" where
  "importer_stage env f s =
     (if vp_importer s then (s, [], Proceed)
      else if te_importer_ok env then (s\<lparr>vp_importer := True\<rparr>, [], Proceed)
      else (s, [Release (ef_consumed f)], Drop_Frame))"

definition import_stage :: "turn_env \<Rightarrow> captured_frame \<Rightarrow> 'rs stage" where
  "import_stage env f s =
     (if cf_planes f = 0 then (s, [], Stop Loop_Panicked)
      else if te_import env then (s, [], Proceed)
      else (s, [Release (ef_consumed f)], Drop_Frame))"

definition new_converter :: "video_stream_context \<Rightarrow> input_format \<Rightarrow> converter" where
  "new_converter ctx format =
     \<lparr>cv_input_format = format,
      cv_color_space = (case dynamic_range ctx of Sdr \<Rightarrow> CS_Bt709 | Hdr \<Rightarrow> CS_Bt2020),
      cv_full_range = full_range ctx, cv_sdr_white_nits = None\<rparr>"

definition converter_stage :: "video_stream_context \<Rightarrow> turn_env \<Rightarrow> captured_frame \<Rightarrow> 'rs stage" where
  "converter_stage ctx env f s =
     (let format = fst (drm_fourcc_to_input (cf_format f));
          current = (case vp_converter s of
                       Some c \<Rightarrow> if cv_input_format c \<noteq> format then None else Some c
                     | None \<Rightarrow> None)
      in case current of
           Some c \<Rightarrow> (s, [], Proceed)
         | None \<Rightarrow>
             if te_converter_ok env then (s\<lparr>vp_converter := Some (new_converter ctx format)\<rparr>, [], Proceed)
             else (s\<lparr>vp_converter := None\<rparr>, [Release (ef_consumed f)], Drop_Frame))"

fun frame_color_plan :: "bool \<Rightarrow> color_space \<Rightarrow> conversion_space \<times> color_description \<times> nat" where
  "frame_color_plan full FCS_Srgb = (CS_Bt709, CD_Bt709 full, 203)"
| "frame_color_plan full FCS_Bt2020Pq = (CS_Bt2020, CD_Bt2020_Pq full, 203)"
| "frame_color_plan full FCS_ScrgbLinear = (CS_Bt709LinearToBt2020Pq, CD_Bt2020_Pq full, 80)"

definition set_converter :: "conversion_space \<Rightarrow> bool \<Rightarrow> nat \<Rightarrow> 'rs pipeline \<Rightarrow> 'rs pipeline" where
  "set_converter space full nits s =
     s\<lparr>vp_converter := map_option
         (\<lambda>c. c\<lparr>cv_color_space := space, cv_full_range := full, cv_sdr_white_nits := Some nits\<rparr>) (vp_converter s)\<rparr>"

text \<open>A failure to switch the encoder's description ends the loop without releasing the frame.\<close>

definition color_stage :: "video_stream_context \<Rightarrow> turn_env \<Rightarrow> captured_frame \<Rightarrow> 'rs stage" where
  "color_stage ctx env f s =
     (if dynamic_range ctx \<noteq> Hdr then (s, [], Proceed)
      else
        let (space, description, nits) = frame_color_plan (full_range ctx) (ef_color_space f) in
        if vp_description s \<noteq> description then
          (if te_description_ok env
           then (set_converter space (full_range ctx) nits (s\<lparr>vp_description := description\<rparr>), [Set_Description description], Proceed)
           else (s, [], Stop Loop_Failed))
        else (set_converter space (full_range ctx) nits s, [], Proceed))"

definition convert_stage :: "turn_env \<Rightarrow> captured_frame \<Rightarrow> 'rs stage" where
  "convert_stage env f s =
     (let attempt = (case vp_converter s of None \<Rightarrow> [] | Some c \<Rightarrow> [Convert c (vp_description s) f]) in
      case te_convert env of
        Some e \<Rightarrow> (s, attempt @ [Release (ef_consumed f)], if is_device_lost e then Stop Loop_Failed else Drop_Frame)
      | None \<Rightarrow> (s, attempt @ [Release (ef_consumed f)], Proceed))"

definition hdr_stage :: "video_stream_context \<Rightarrow> captured_frame \<Rightarrow> 'rs stage" where
  "hdr_stage ctx f s =
     (if dynamic_range ctx \<noteq> Hdr then (s, [], Proceed)
      else
        let state = \<lparr>hdr_enabled = is_hdr (vp_description s), hdr_meta = ef_hdr_metadata f\<rparr> in
        if state \<noteq> vp_last_hdr s then (s\<lparr>vp_last_hdr := state\<rparr>, [Hdr_State state], Proceed) else (s, [], Proceed))"

definition submit :: "nat option \<Rightarrow> 'rs pipeline \<Rightarrow> 'rs pipeline \<times> pipeline_effect list" where
  "submit index s =
     (let context = \<lparr>fx_inject_hdr = is_hdr (vp_description s), fx_hdr_metadata = hdr_meta (vp_last_hdr s),
                     fx_buffer_index = index\<rparr>
      in (post (Frame_Message context (vp_submitted s))
            (s\<lparr>vp_in_flight := vp_in_flight s + 1, vp_submitted := vp_submitted s + 1\<rparr>),
          [Submitted (vp_submitted s) index]))"

definition encode_stage :: "turn_env \<Rightarrow> captured_frame \<Rightarrow> 'rs stage" where
  "encode_stage env f s =
     (case te_encode env of
        None \<Rightarrow>
          let (t, effects) = submit (Some (ef_buffer_index f)) s in
          if vp_consumer s then (t\<lparr>vp_has_encoded := True\<rparr>, effects, Proceed) else (t, effects, Stop Loop_Ended)
      | Some e \<Rightarrow>
          if is_device_lost e then (s, [], Stop Loop_Failed) else (s\<lparr>vp_has_encoded := True\<rparr>, [], Proceed))"

definition encode_captured :: "video_stream_context \<Rightarrow> turn_env \<Rightarrow> captured_frame \<Rightarrow> 'rs stage" where
  "encode_captured ctx env f =
     and_then (backpressure_stage f) (and_then (importer_stage env f) (and_then (import_stage env f)
       (and_then (converter_stage ctx env f) (and_then (color_stage ctx env f) (and_then (convert_stage env f)
         (and_then (hdr_stage ctx f) (encode_stage env f)))))))"

section \<open>A turn of the encoding loop\<close>

definition reencode :: "turn_env \<Rightarrow> bool \<Rightarrow> 'rs pipeline \<Rightarrow> 'rs pipeline \<times> pipeline_effect list" where
  "reencode env pending_idr s =
     (if pending_idr \<and> vp_has_encoded s \<and> te_encode env = None then submit None s else (s, []))"

definition poll_frame :: "video_stream_context \<Rightarrow> turn_env \<Rightarrow> bool \<Rightarrow> 'rs pipeline \<Rightarrow> 'rs pipeline \<times> pipeline_effect list" where
  "poll_frame ctx env pending_idr s =
     (case te_poll env of
        Poll_Timeout \<Rightarrow> reencode env pending_idr s
      | Poll_Disconnected \<Rightarrow> (s\<lparr>vp_exit := Loop_Ended\<rparr>, [])
      | Frame_Received f \<Rightarrow>
          (case encode_captured ctx env f s of
             (s, effects, Stop e) \<Rightarrow> (s\<lparr>vp_exit := e\<rparr>, effects)
           | (s, effects, _) \<Rightarrow> (s, effects)))"

definition encode_turn :: "video_stream_context \<Rightarrow> turn_env \<Rightarrow> 'rs pipeline \<Rightarrow> 'rs pipeline \<times> pipeline_effect list" where
  "encode_turn ctx env s =
     (if vp_exit s \<noteq> Running then (s, [])
      else
        let (s, e1, reset) = drain_resets (te_resets env) s;
            (e2, idr) = drain_idrs (te_idrs env);
            (e3, lag) = drain_invalidations (vp_frame_number_base s) (te_invalidations env);
            (s, e4) = poll_frame ctx env (reset \<or> idr \<or> lag) s
        in (s, e1 @ e2 @ e3 @ e4))"

section \<open>The packet consumer\<close>

record encoded_packet =
  pk_data :: bytes
  pk_key_frame :: bool
  pk_pts :: nat

text \<open>What the consumer finds when it takes a message: the outcome of the future, the keys, and the packet channel.\<close>

record consumer_env =
  ce_outcome :: "gpu_error + encoded_packet"
  ce_keys :: session_key_data
  ce_latency :: u16
  ce_channel_open :: bool

definition rtp_timestamp :: "video_stream_context \<Rightarrow> nat \<Rightarrow> u32 res" where
  "rtp_timestamp ctx pts =
     (if fps ctx = 0 \<or> 2 ^ 64 \<le> pts * 90000 then Inl Panic else Inr (of_nat (pts * 90000 div unat (fps ctx))))"

definition packet_data :: "video_stream_context \<Rightarrow> encode_context \<Rightarrow> encoded_packet \<Rightarrow> bytes res" where
  "packet_data ctx context packet =
     (if pk_key_frame packet \<and> fx_inject_hdr context
      then inject_hdr_metadata (pk_data packet) (or_default hdr_metadata_fallback (fx_hdr_metadata context)) (video_format ctx)
      else Inr (pk_data packet))"

text \<open>The end of the consumer drops the channel's receiver and the messages in it.\<close>

definition consumer_ends :: "'rs pipeline \<Rightarrow> 'rs pipeline" where
  "consumer_ends s = s\<lparr>vp_consumer := False, vp_queue := []\<rparr>"

definition packetize_frame :: "(nat \<Rightarrow> nat \<Rightarrow> 'rs option) \<Rightarrow> ('rs \<Rightarrow> bytes list \<Rightarrow> bytes list option) \<Rightarrow>
    (bytes \<Rightarrow> bytes \<Rightarrow> bytes \<Rightarrow> (bytes \<times> bytes) option) \<Rightarrow> video_stream_context \<Rightarrow> video_stream_config \<Rightarrow>
    consumer_env \<Rightarrow> encode_context \<Rightarrow> nat \<Rightarrow> encoded_packet \<Rightarrow> 'rs pipeline \<Rightarrow> 'rs pipeline \<times> pipeline_effect list" where
  "packetize_frame rs_new rs_encode gcm ctx config env context order packet s =
     (case rbind (packet_data ctx context packet) (\<lambda>data. rbind (rtp_timestamp ctx (pk_pts packet)) (\<lambda>t. Inr (data, t))) of
        Inl _ \<Rightarrow> (consumer_ends s, [])
      | Inr (data, timestamp) \<Rightarrow>
          if vp_frame_number s = 0xFFFFFFFF then (consumer_ends s, [])
          else
            let number = vp_frame_number s + 1;
                (result, p, sequence) = packetize rs_new rs_encode gcm (ce_keys env) data (pk_key_frame packet)
                  (packet_size ctx) (minimum_fec_packets ctx) (fec_percentage config) number timestamp
                  (ce_latency env) (vp_packetizer s) (vp_sequence_number s);
                s = s\<lparr>vp_frame_number := number, vp_packetizer := p, vp_sequence_number := sequence\<rparr>
            in case result of
                 Inl Panic \<Rightarrow> (consumer_ends s, [])
               | Inl Err \<Rightarrow> (s, [])
               | Inr shards \<Rightarrow>
                   if ce_channel_open env then (s, [Packets order number shards, Stats]) else (consumer_ends s, []))"

text \<open>
  A frame is counted out of flight at the end of its iteration, however it ends. The injection may only fail by a
  panic.
\<close>

definition consumer_turn :: "(nat \<Rightarrow> nat \<Rightarrow> 'rs option) \<Rightarrow> ('rs \<Rightarrow> bytes list \<Rightarrow> bytes list option) \<Rightarrow>
    (bytes \<Rightarrow> bytes \<Rightarrow> bytes \<Rightarrow> (bytes \<times> bytes) option) \<Rightarrow> video_stream_context \<Rightarrow> video_stream_config \<Rightarrow>
    consumer_env \<Rightarrow> 'rs pipeline \<Rightarrow> 'rs pipeline \<times> pipeline_effect list" where
  "consumer_turn rs_new rs_encode gcm ctx config env s =
     (if \<not> vp_consumer s then (s, [])
      else case vp_queue s of
        [] \<Rightarrow> (s, [])
      | Reset_Counters # queue \<Rightarrow> (s\<lparr>vp_queue := queue, vp_frame_number := 0, vp_sequence_number := 0\<rparr>, [])
      | Frame_Message context order # queue \<Rightarrow>
          let s = s\<lparr>vp_queue := queue, vp_in_flight := vp_in_flight s - 1\<rparr> in
          (case ce_outcome env of
             Inl e \<Rightarrow> (s, Readback_Failed order # (case e of Buffer_Overflow _ _ \<Rightarrow> [Idr_Broadcast] | _ \<Rightarrow> []))
           | Inr packet \<Rightarrow> packetize_frame rs_new rs_encode gcm ctx config env context order packet s))"

section \<open>Both threads\<close>

datatype pipeline_event = Encode_Turn turn_env | Consumer_Turn consumer_env

fun pipeline_step :: "(nat \<Rightarrow> nat \<Rightarrow> 'rs option) \<Rightarrow> ('rs \<Rightarrow> bytes list \<Rightarrow> bytes list option) \<Rightarrow>
    (bytes \<Rightarrow> bytes \<Rightarrow> bytes \<Rightarrow> (bytes \<times> bytes) option) \<Rightarrow> video_stream_context \<Rightarrow> video_stream_config \<Rightarrow>
    pipeline_event \<Rightarrow> 'rs pipeline \<Rightarrow> 'rs pipeline \<times> pipeline_effect list" where
  "pipeline_step rs_new rs_encode gcm ctx config (Encode_Turn env) s = encode_turn ctx env s"
| "pipeline_step rs_new rs_encode gcm ctx config (Consumer_Turn env) s =
     consumer_turn rs_new rs_encode gcm ctx config env s"

fun pipeline_run :: "(nat \<Rightarrow> nat \<Rightarrow> 'rs option) \<Rightarrow> ('rs \<Rightarrow> bytes list \<Rightarrow> bytes list option) \<Rightarrow>
    (bytes \<Rightarrow> bytes \<Rightarrow> bytes \<Rightarrow> (bytes \<times> bytes) option) \<Rightarrow> video_stream_context \<Rightarrow> video_stream_config \<Rightarrow>
    pipeline_event list \<Rightarrow> 'rs pipeline \<Rightarrow> 'rs pipeline \<times> pipeline_effect list" where
  "pipeline_run rs_new rs_encode gcm ctx config [] s = (s, [])"
| "pipeline_run rs_new rs_encode gcm ctx config (e # es) s =
     (let (s, effects) = pipeline_step rs_new rs_encode gcm ctx config e s;
          (s, others) = pipeline_run rs_new rs_encode gcm ctx config es s
      in (s, effects @ others))"

end
