(* ===== verification/Pipeline_Props.thy ===== *)
theory Pipeline_Props
  imports Video_Pipeline Packetizer_Props
begin

text \<open>
  The two threads of the video pipeline: every captured frame is released, the numbers that clients name frames
  by, the colours a frame is converted in, and what is left when the consumer ends.
\<close>

section \<open>Lemmas\<close>

subsection \<open>Stages\<close>

lemma and_then_cases:
  assumes "and_then f g s = (t, e, v)"
  obtains (stopped) "f s = (t, e, v)" "v \<noteq> Proceed"
  | (both) u e1 e2 where "f s = (u, e1, Proceed)" "g u = (t, e2, v)" "e = e1 @ e2"
  using assms by (auto simp: and_then_def split: prod.splits verdict.splits)

text \<open>What the threads share and what names frames; only a submission changes it.\<close>

definition shared :: "'rs pipeline \<Rightarrow> nat \<times> consumer_message list \<times> bool \<times> nat \<times> nat \<times> u32 \<times> loop_exit" where
  "shared s = (vp_in_flight s, vp_queue s, vp_consumer s, vp_submitted s, vp_frame_number_base s, vp_frame_number s, vp_exit s)"

lemma shared_eq:
  "shared t = shared s \<longleftrightarrow> vp_in_flight t = vp_in_flight s \<and> vp_queue t = vp_queue s \<and> vp_consumer t = vp_consumer s \<and>
     vp_submitted t = vp_submitted s \<and> vp_frame_number_base t = vp_frame_number_base s \<and>
     vp_frame_number t = vp_frame_number s \<and> vp_exit t = vp_exit s"
  by (auto simp: shared_def)

lemma and_then_shared:
  assumes "\<And>s t e v. f s = (t, e, v) \<Longrightarrow> shared t = shared s" and "\<And>s t e v. g s = (t, e, v) \<Longrightarrow> shared t = shared s"
    and "and_then f g s = (t, e, v)"
  shows "shared t = shared s"
  using assms(3) by (cases rule: and_then_cases) (use assms(1,2) in fastforce)+

lemma stages_shared:
  "backpressure_stage f s = (t, e, v) \<Longrightarrow> shared t = shared s" "importer_stage env f s = (t, e, v) \<Longrightarrow> shared t = shared s"
  "import_stage env f s = (t, e, v) \<Longrightarrow> shared t = shared s" "converter_stage ctx env f s = (t, e, v) \<Longrightarrow> shared t = shared s"
  "color_stage ctx env f s = (t, e, v) \<Longrightarrow> shared t = shared s" "convert_stage env f s = (t, e, v) \<Longrightarrow> shared t = shared s"
  "hdr_stage ctx f s = (t, e, v) \<Longrightarrow> shared t = shared s"
  by (auto simp: backpressure_stage_def importer_stage_def import_stage_def converter_stage_def color_stage_def
      convert_stage_def hdr_stage_def set_converter_def shared_eq Let_def split: if_splits option.splits prod.splits)

definition prepare_frame :: "video_stream_context \<Rightarrow> turn_env \<Rightarrow> captured_frame \<Rightarrow> 'rs stage" where
  "prepare_frame ctx env f =
     and_then (backpressure_stage f) (and_then (importer_stage env f) (and_then (import_stage env f)
       (and_then (converter_stage ctx env f) (and_then (color_stage ctx env f) (and_then (convert_stage env f)
         (hdr_stage ctx f))))))"

lemma and_then_assoc: "and_then (and_then f g) h = and_then f (and_then g h)"
  by (rule ext) (auto simp: and_then_def split: prod.splits verdict.splits)

lemma encode_captured_prepare: "encode_captured ctx env f = and_then (prepare_frame ctx env f) (encode_stage env f)"
  by (simp add: encode_captured_def prepare_frame_def and_then_assoc)

lemma prepare_shared: "prepare_frame ctx env f s = (t, e, v) \<Longrightarrow> shared t = shared s"
  unfolding prepare_frame_def
  by (erule and_then_shared [rotated 2], erule stages_shared,
      erule and_then_shared [rotated 2], erule stages_shared,
      erule and_then_shared [rotated 2], erule stages_shared,
      erule and_then_shared [rotated 2], erule stages_shared,
      erule and_then_shared [rotated 2], erule stages_shared,
      erule and_then_shared [rotated 2], erule stages_shared, erule stages_shared)

text \<open>A step of the encoding loop submits at most one frame and leaves the consumer alone.\<close>

definition may_submit :: "'rs pipeline \<Rightarrow> 'rs pipeline \<Rightarrow> bool" where
  "may_submit s t \<longleftrightarrow> vp_consumer t = vp_consumer s \<and> vp_frame_number_base t = vp_frame_number_base s \<and>
     vp_frame_number t = vp_frame_number s \<and>
     (vp_in_flight t = vp_in_flight s \<and> vp_submitted t = vp_submitted s \<and> vp_queue t = vp_queue s \<or>
      vp_in_flight t = vp_in_flight s + 1 \<and> vp_submitted t = vp_submitted s + 1 \<and>
      (\<exists>context. vp_queue t = (if vp_consumer s then vp_queue s @ [Frame_Message context (vp_submitted s)] else vp_queue s)))"

lemma may_submit_shared: "shared t = shared s \<Longrightarrow> may_submit s t"
  by (simp add: may_submit_def shared_eq)

lemma may_submit_from_shared: "shared u = shared s \<Longrightarrow> may_submit u t \<Longrightarrow> may_submit s t"
  by (cases "vp_consumer s") (auto simp: may_submit_def shared_eq)

lemma may_submit_submit: "may_submit s (fst (submit index s))"
  by (simp add: may_submit_def submit_def post_def Let_def)

lemma may_submit_exit: "may_submit s t \<Longrightarrow> may_submit s (t\<lparr>vp_exit := x\<rparr>)" "may_submit s t \<Longrightarrow> may_submit s (t\<lparr>vp_has_encoded := h\<rparr>)"
  by (simp_all add: may_submit_def)

lemma encode_stage_submits:
  assumes "encode_stage env f s = (t, e, v)"
  shows "may_submit s t"
proof -
  have "may_submit s (fst (submit (Some (ef_buffer_index f)) s))" by (rule may_submit_submit)
  then show ?thesis using assms may_submit_shared [OF refl, of s]
    by (auto simp: encode_stage_def case_prod_beta Let_def may_submit_exit split: option.splits if_splits)
qed

lemma encode_captured_submits: "encode_captured ctx env f s = (t, e, v) \<Longrightarrow> may_submit s t"
  unfolding encode_captured_prepare
  by (erule and_then_cases) (auto dest: prepare_shared encode_stage_submits may_submit_shared intro: may_submit_from_shared)

lemma poll_frame_submits: "may_submit s (fst (poll_frame ctx env idr s))"
  using may_submit_shared [OF refl, of s]
  by (auto simp: poll_frame_def reencode_def may_submit_submit may_submit_exit encode_captured_submits
      split: frame_poll.split prod.split verdict.split)

subsection \<open>Numbers of frames\<close>

fun is_frame :: "consumer_message \<Rightarrow> bool" where
  "is_frame (Frame_Message _ _) = True"
| "is_frame Reset_Counters = False"

fun orders :: "consumer_message list \<Rightarrow> nat list" where
  "orders [] = []"
| "orders (Frame_Message _ d # q) = d # orders q"
| "orders (Reset_Counters # q) = orders q"

text \<open>The consumer's frame number behind a queue of messages.\<close>

fun number_after :: "consumer_message list \<Rightarrow> nat \<Rightarrow> nat" where
  "number_after [] n = n"
| "number_after (Frame_Message _ _ # q) n = number_after q (n + 1)"
| "number_after (Reset_Counters # q) n = number_after q 0"

lemma orders_append [simp]: "orders (p @ q) = orders p @ orders q"
  by (induction p rule: orders.induct) simp_all

lemma number_after_append: "number_after (p @ q) n = number_after q (number_after p n)"
  by (induction p n rule: number_after.induct) simp_all

lemma number_after_mono: "m \<le> n \<Longrightarrow> number_after q m \<le> number_after q n"
proof (induction q arbitrary: m n)
  case (Cons x q)
  then show ?case by (cases x) simp_all
qed simp

lemma number_after_no_reset: "Reset_Counters \<notin> set q \<Longrightarrow> number_after q n = n + length (orders q)"
proof (induction q arbitrary: n)
  case (Cons x q)
  then show ?case by (cases x) simp_all
qed simp

definition pipeline_inv :: "'rs pipeline \<Rightarrow> bool" where
  "pipeline_inv s \<longleftrightarrow> (vp_consumer s \<longrightarrow> vp_in_flight s = length (orders (vp_queue s))) \<and>
     (\<not> vp_consumer s \<longrightarrow> vp_queue s = []) \<and> vp_frame_number_base s \<le> vp_submitted s \<and>
     length (orders (vp_queue s)) \<le> vp_submitted s \<and>
     orders (vp_queue s) = [vp_submitted s - length (orders (vp_queue s))..<vp_submitted s] \<and>
     (vp_consumer s \<longrightarrow> number_after (vp_queue s) (unat (vp_frame_number s)) \<le> vp_submitted s - vp_frame_number_base s)"

definition numbers_exact :: "'rs pipeline \<Rightarrow> bool" where
  "numbers_exact s \<longleftrightarrow> (vp_consumer s \<longrightarrow>
     number_after (vp_queue s) (unat (vp_frame_number s)) = vp_submitted s - vp_frame_number_base s)"

lemma pipeline_inv_new: "pipeline_inv (pipeline_new ctx)" "numbers_exact (pipeline_new ctx)"
  by (simp_all add: pipeline_inv_def pipeline_new_def numbers_exact_def)

lemma upt_extend: "k \<le> n \<Longrightarrow> [n - k..<n] @ [n] = [Suc n - Suc k..<Suc n]"
  by (simp add: upt_Suc_append)

lemma may_submit_inv:
  assumes "may_submit s t"
  shows "pipeline_inv s \<Longrightarrow> pipeline_inv t" and "pipeline_inv s \<Longrightarrow> numbers_exact s \<Longrightarrow> numbers_exact t"
proof -
  show "pipeline_inv t" if "pipeline_inv s"
    using assms that upt_extend [of "length (orders (vp_queue s))" "vp_submitted s"]
    by (cases "vp_consumer s") (auto simp: may_submit_def pipeline_inv_def number_after_append)
  show "numbers_exact t" if "pipeline_inv s" "numbers_exact s"
    using assms that by (cases "vp_consumer s") (auto simp: may_submit_def numbers_exact_def pipeline_inv_def number_after_append)
qed

lemma drain_resets_inv:
  "pipeline_inv s \<Longrightarrow> pipeline_inv (fst (drain_resets r s))"
  "pipeline_inv s \<Longrightarrow> numbers_exact s \<Longrightarrow> numbers_exact (fst (drain_resets r s))"
  by (auto simp: drain_resets_def post_def pipeline_inv_def numbers_exact_def number_after_append)

lemma encode_turn_inv:
  "pipeline_inv s \<Longrightarrow> pipeline_inv (fst (encode_turn ctx env s))"
  "pipeline_inv s \<Longrightarrow> numbers_exact s \<Longrightarrow> numbers_exact (fst (encode_turn ctx env s))"
  by (auto simp: encode_turn_def Let_def case_prod_beta intro!: may_submit_inv [OF poll_frame_submits] drain_resets_inv)

subsection \<open>The consumer\<close>

lemma consumer_ends_inv [simp]:
  "pipeline_inv s \<Longrightarrow> pipeline_inv (consumer_ends s)" "numbers_exact (consumer_ends s)"
  by (simp_all add: consumer_ends_def pipeline_inv_def numbers_exact_def)

lemma number_next: "vp_frame_number s \<noteq> 0xFFFFFFFF \<Longrightarrow> unat (vp_frame_number s + 1) = unat (vp_frame_number s) + 1"
proof -
  assume "vp_frame_number s \<noteq> 0xFFFFFFFF"
  moreover have "(0xFFFFFFFF :: u32) = - 1" by simp
  ultimately have "vp_frame_number s + 1 \<noteq> 0" by (metis eq_neg_iff_add_eq_0)
  then show ?thesis using unatSuc [of "vp_frame_number s"] by (simp add: add.commute)
qed

lemma orders_taken:
  "d # ds = [n - Suc (length ds)..<n] \<Longrightarrow> Suc (length ds) \<le> n \<Longrightarrow> d = n - Suc (length ds) \<and> ds = [n - length ds..<n]"
  by (simp add: upt_conv_Cons Suc_diff_Suc)

text \<open>The state in which a taken frame is handled.\<close>

definition taken :: "consumer_message list \<Rightarrow> 'rs pipeline \<Rightarrow> 'rs pipeline" where
  "taken q s = s\<lparr>vp_queue := q, vp_in_flight := vp_in_flight s - 1\<rparr>"

lemma taken_inv:
  assumes "pipeline_inv s" and "vp_consumer s" and "vp_queue s = Frame_Message context d # q"
  shows "pipeline_inv (taken q s)" "d = vp_submitted s - Suc (length (orders q))"
proof -
  have o: "d = vp_submitted s - Suc (length (orders q)) \<and> orders q = [vp_submitted s - length (orders q)..<vp_submitted s]"
    using assms by (intro orders_taken) (simp_all add: pipeline_inv_def)
  then show "d = vp_submitted s - Suc (length (orders q))" by blast
  have "number_after q (unat (vp_frame_number s)) \<le> number_after q (unat (vp_frame_number s) + 1)"
    by (rule number_after_mono) simp
  also have "\<dots> \<le> vp_submitted s - vp_frame_number_base s" using assms by (simp add: pipeline_inv_def)
  finally show "pipeline_inv (taken q s)" using assms o by (simp add: pipeline_inv_def taken_def)
qed

text \<open>What handling a frame does to the numbers.\<close>

lemma packetize_frame_cases:
  assumes "packetize_frame rs_new rs_encode gcm ctx config env context d packet s = (t, e)"
  obtains (ended) u where "t = consumer_ends u" "e = []" "pipeline_inv s \<longrightarrow> pipeline_inv t"
      "shared u = shared (s\<lparr>vp_frame_number := vp_frame_number u\<rparr>)"
  | (numbered) "shared t = shared (s\<lparr>vp_frame_number := vp_frame_number s + 1\<rparr>)" "vp_frame_number s \<noteq> 0xFFFFFFFF"
      "e = [] \<or> (\<exists>shards. e = [Packets d (vp_frame_number s + 1) shards, Stats])"
proof -
  have inv: "pipeline_inv (consumer_ends u)" if "pipeline_inv s" "shared u = shared (s\<lparr>vp_frame_number := n\<rparr>)" for u n
    using that by (simp add: pipeline_inv_def consumer_ends_def shared_eq)
  show ?thesis
  proof (cases "rbind (packet_data ctx context packet) (\<lambda>data. rbind (rtp_timestamp ctx (pk_pts packet)) (\<lambda>t. Inr (data, t)))")
    case (Inl x)
    then have "t = consumer_ends s" "e = []" using assms by (simp_all add: packetize_frame_def)
    then show ?thesis by (intro ended [of s]) (simp_all add: shared_eq)
  next
    case (Inr r)
    then show ?thesis
      using assms ended numbered inv
      by (auto simp: packetize_frame_def shared_eq Let_def case_prod_beta split: if_splits sum.splits failure.splits prod.splits)
  qed
qed

lemma numbered_inv:
  assumes "pipeline_inv s" and "vp_consumer s" and "vp_queue s = Frame_Message context d # q"
    and "shared t = shared ((taken q s)\<lparr>vp_frame_number := vp_frame_number s + 1\<rparr>)" and "vp_frame_number s \<noteq> 0xFFFFFFFF"
  shows "pipeline_inv t" and "numbers_exact s \<Longrightarrow> numbers_exact t"
    and "Reset_Counters \<notin> set q \<Longrightarrow> vp_frame_number_base t + unat (vp_frame_number s) \<le> d"
    and "Reset_Counters \<notin> set q \<Longrightarrow> numbers_exact s \<Longrightarrow> d = vp_frame_number_base t + unat (vp_frame_number s)"
proof -
  have t: "vp_queue t = q" "vp_consumer t" "vp_submitted t = vp_submitted s" "vp_frame_number_base t = vp_frame_number_base s"
    "vp_in_flight t = vp_in_flight s - 1" "vp_frame_number t = vp_frame_number s + 1"
    using assms(2,4) by (simp_all add: shared_eq taken_def)
  note taken = taken_inv [OF assms(1-3)]
  show "pipeline_inv t" using taken(1) assms(1,2,3) t number_next [OF assms(5)] by (simp add: pipeline_inv_def taken_def)
  show "numbers_exact t" if "numbers_exact s"
    using that assms(2,3) t number_next [OF assms(5)] by (simp add: numbers_exact_def)
  show "vp_frame_number_base t + unat (vp_frame_number s) \<le> d" if "Reset_Counters \<notin> set q"
  proof -
    have "unat (vp_frame_number s) + 1 + length (orders q) \<le> vp_submitted s - vp_frame_number_base s"
      using assms(1,2,3) number_after_no_reset [OF that] by (simp add: pipeline_inv_def)
    then show ?thesis using t(4) taken(2) by linarith
  qed
  show "d = vp_frame_number_base t + unat (vp_frame_number s)" if "Reset_Counters \<notin> set q" "numbers_exact s"
  proof -
    have "unat (vp_frame_number s) + 1 + length (orders q) = vp_submitted s - vp_frame_number_base s"
      using assms(2,3) that(2) number_after_no_reset [OF that(1)] by (simp add: numbers_exact_def)
    then show ?thesis using t(4) taken(2) by linarith
  qed
qed

lemma consumer_turn_inv:
  assumes "pipeline_inv s"
  shows "pipeline_inv (fst (consumer_turn rs_new rs_encode gcm ctx config env s))"
    and "numbers_exact s \<Longrightarrow> (\<forall>d. Readback_Failed d \<notin> set (snd (consumer_turn rs_new rs_encode gcm ctx config env s))) \<Longrightarrow>
      numbers_exact (fst (consumer_turn rs_new rs_encode gcm ctx config env s))"
proof -
  let ?r = "consumer_turn rs_new rs_encode gcm ctx config env s"
  have "pipeline_inv (fst ?r) \<and>
    (numbers_exact s \<and> (\<forall>d. Readback_Failed d \<notin> set (snd ?r)) \<longrightarrow> numbers_exact (fst ?r))"
  proof (cases "vp_consumer s \<and> vp_queue s \<noteq> []")
    case False
    then show ?thesis using assms by (cases "vp_queue s") (auto simp: consumer_turn_def)
  next
    case True
    then obtain m q where q: "vp_queue s = m # q" by (cases "vp_queue s") auto
    show ?thesis
    proof (cases m)
      case Reset_Counters
      then show ?thesis using assms True q by (simp add: consumer_turn_def pipeline_inv_def numbers_exact_def)
    next
      case (Frame_Message fx d)
      note q = q [unfolded Frame_Message]
      note inv = taken_inv(1) [OF assms conjunct1 [OF True] q]
      show ?thesis
      proof (cases "ce_outcome env")
        case (Inl e)
        then show ?thesis using True q inv by (auto simp: consumer_turn_def taken_def)
      next
        case (Inr packet)
        obtain t e where r: "packetize_frame rs_new rs_encode gcm ctx config env fx d packet (taken q s) = (t, e)" by fastforce
        then have t: "fst ?r = t" using True q Inr by (simp add: consumer_turn_def taken_def)
        from r show ?thesis
        proof (cases rule: packetize_frame_cases)
          case (ended u)
          then show ?thesis using t inv by simp
        next
          case numbered
          then have "shared t = shared ((taken q s)\<lparr>vp_frame_number := vp_frame_number s + 1\<rparr>)" "vp_frame_number s \<noteq> 0xFFFFFFFF"
            by (simp_all add: taken_def)
          from numbered_inv(1,2) [OF assms conjunct1 [OF True] q this] show ?thesis using t by simp
        qed
      qed
    qed
  qed
  then show "pipeline_inv (fst ?r)" "numbers_exact s \<Longrightarrow> (\<forall>d. Readback_Failed d \<notin> set (snd ?r)) \<Longrightarrow> numbers_exact (fst ?r)"
    by blast+
qed

lemma pipeline_inv_step: "pipeline_inv s \<Longrightarrow> pipeline_inv (fst (pipeline_step rs_new rs_encode gcm ctx config e s))"
  by (cases e) (simp_all add: encode_turn_inv consumer_turn_inv)

lemma pipeline_inv_run:
  "pipeline_inv s \<Longrightarrow> pipeline_inv (fst (pipeline_run rs_new rs_encode gcm ctx config es s))"
  by (induction es arbitrary: s) (simp_all add: pipeline_inv_step case_prod_beta Let_def)

lemma numbers_exact_step:
  "pipeline_inv s \<Longrightarrow> numbers_exact s \<Longrightarrow>
   (\<forall>d. Readback_Failed d \<notin> set (snd (pipeline_step rs_new rs_encode gcm ctx config e s))) \<Longrightarrow>
   numbers_exact (fst (pipeline_step rs_new rs_encode gcm ctx config e s))"
  by (cases e) (simp_all add: encode_turn_inv consumer_turn_inv)

lemma numbers_exact_run:
  "pipeline_inv s \<Longrightarrow> numbers_exact s \<Longrightarrow>
   (\<forall>d. Readback_Failed d \<notin> set (snd (pipeline_run rs_new rs_encode gcm ctx config es s))) \<Longrightarrow>
   numbers_exact (fst (pipeline_run rs_new rs_encode gcm ctx config es s))"
proof (induction es arbitrary: s)
  case (Cons e es)
  let ?t = "fst (pipeline_step rs_new rs_encode gcm ctx config e s)"
  have "pipeline_inv ?t" using Cons.prems(1) by (rule pipeline_inv_step)
  moreover have "numbers_exact ?t"
    using Cons.prems by (intro numbers_exact_step) (auto simp: case_prod_beta Let_def)
  ultimately show ?case using Cons.IH [of ?t] Cons.prems(3) by (simp add: case_prod_beta Let_def)
qed simp

text \<open>The frames in front of a reset were submitted before it: their display orders lie below the base.\<close>

fun covered :: "nat \<Rightarrow> consumer_message list \<Rightarrow> bool" where
  "covered b [] = True"
| "covered b (Frame_Message _ d # q) = ((Reset_Counters \<in> set q \<longrightarrow> d < b) \<and> covered b q)"
| "covered b (Reset_Counters # q) = covered b q"

lemma covered_frame [simp]: "covered b (q @ [Frame_Message fx d]) = covered b q"
  by (induction b q rule: covered.induct) auto

lemma covered_reset: "(\<forall>d \<in> set (orders q). d < b) \<Longrightarrow> covered b (q @ [Reset_Counters])"
  by (induction b q rule: covered.induct) auto

definition resets_covered :: "'rs pipeline \<Rightarrow> bool" where
  "resets_covered s \<longleftrightarrow> covered (vp_frame_number_base s) (vp_queue s)"

lemma resets_covered_new: "resets_covered (pipeline_new ctx)"
  by (simp add: resets_covered_def pipeline_new_def)

lemma may_submit_covered: "may_submit s t \<Longrightarrow> resets_covered s \<Longrightarrow> resets_covered t"
  by (auto simp: may_submit_def resets_covered_def split: if_splits)

lemma drain_resets_covered:
  assumes "pipeline_inv s" and "resets_covered s"
  shows "resets_covered (fst (drain_resets r s))"
proof -
  have "orders (vp_queue s) = [vp_submitted s - length (orders (vp_queue s))..<vp_submitted s]"
    using assms(1) by (simp add: pipeline_inv_def)
  then have "set (orders (vp_queue s)) = set [vp_submitted s - length (orders (vp_queue s))..<vp_submitted s]" by metis
  then have "covered (vp_submitted s) (vp_queue s @ [Reset_Counters])" by (intro covered_reset) simp
  moreover have "\<not> vp_consumer s \<Longrightarrow> vp_queue s = []" using assms(1) by (simp add: pipeline_inv_def)
  ultimately show ?thesis using assms(2) by (auto simp: resets_covered_def drain_resets_def post_def)
qed

lemma packetize_frame_covered:
  assumes "packetize_frame rs_new rs_encode gcm ctx config env context d packet s = (t, e)" and "resets_covered s"
  shows "resets_covered t"
  using assms(1) by (cases rule: packetize_frame_cases)
    (use assms(2) in \<open>simp_all add: resets_covered_def consumer_ends_def shared_eq\<close>)

lemma consumer_turn_covered:
  assumes "resets_covered s"
  shows "resets_covered (fst (consumer_turn rs_new rs_encode gcm ctx config env s))"
proof (cases "vp_consumer s \<and> vp_queue s \<noteq> []")
  case False
  then show ?thesis using assms by (cases "vp_queue s") (auto simp: consumer_turn_def)
next
  case True
  then obtain m q where q: "vp_queue s = m # q" by (cases "vp_queue s") auto
  show ?thesis
  proof (cases m)
    case Reset_Counters
    then show ?thesis using assms True q by (simp add: consumer_turn_def resets_covered_def)
  next
    case (Frame_Message fx d)
    then have c: "resets_covered (taken q s)" using assms q by (simp add: resets_covered_def taken_def)
    show ?thesis
    proof (cases "ce_outcome env")
      case (Inl e)
      then show ?thesis using True q c Frame_Message by (simp add: consumer_turn_def taken_def)
    next
      case (Inr packet)
      then show ?thesis using True q Frame_Message packetize_frame_covered [OF prod.collapse [symmetric] c]
        by (simp add: consumer_turn_def taken_def)
    qed
  qed
qed

lemma resets_covered_run:
  "pipeline_inv s \<Longrightarrow> resets_covered s \<Longrightarrow> resets_covered (fst (pipeline_run rs_new rs_encode gcm ctx config es s))"
proof (induction es arbitrary: s)
  case (Cons e es)
  have "resets_covered (fst (pipeline_step rs_new rs_encode gcm ctx config e s))"
    using Cons.prems by (cases e)
      (auto simp: encode_turn_def Let_def case_prod_beta consumer_turn_covered
        intro!: may_submit_covered [OF poll_frame_submits] drain_resets_covered)
  then show ?case using Cons.IH [OF pipeline_inv_step] Cons.prems(1) by (simp add: case_prod_beta Let_def)
qed simp

text \<open>The base stays until a reset moves it beyond every frame submitted before.\<close>

definition base_kept_or_passed :: "'rs pipeline \<Rightarrow> 'rs pipeline \<Rightarrow> bool" where
  "base_kept_or_passed s t \<longleftrightarrow> vp_submitted s \<le> vp_submitted t \<and>
     (vp_frame_number_base t = vp_frame_number_base s \<or> vp_submitted s \<le> vp_frame_number_base t)"

lemma base_step:
  assumes "pipeline_inv s"
  shows "base_kept_or_passed s (fst (pipeline_step rs_new rs_encode gcm ctx config e s))"
proof (cases e)
  case (Encode_Turn env)
  have "may_submit u (fst (poll_frame ctx env idr u))" for u :: "'a pipeline" and idr by (rule poll_frame_submits)
  moreover have "base_kept_or_passed s (fst (drain_resets (te_resets env) s))"
    by (simp add: base_kept_or_passed_def drain_resets_def post_def)
  ultimately have "base_kept_or_passed s (fst (poll_frame ctx env idr (fst (drain_resets (te_resets env) s))))" for idr
    unfolding may_submit_def base_kept_or_passed_def by (smt (verit, best) le_add1 le_trans)
  then show ?thesis using Encode_Turn by (simp add: encode_turn_def Let_def case_prod_beta base_kept_or_passed_def)
next
  case (Consumer_Turn env)
  have p: "vp_submitted t = vp_submitted u \<and> vp_frame_number_base t = vp_frame_number_base u"
    if "packetize_frame rs_new rs_encode gcm ctx config env fx d packet u = (t, x)" for fx d packet x and t u :: "'a pipeline"
    using that by (cases rule: packetize_frame_cases) (simp_all add: consumer_ends_def shared_eq)
  have "base_kept_or_passed s (fst (consumer_turn rs_new rs_encode gcm ctx config env s))"
    using p [OF prod.collapse [symmetric]]
    by (auto simp: consumer_turn_def base_kept_or_passed_def Let_def split: list.split consumer_message.split sum.split)
  then show ?thesis using Consumer_Turn by simp
qed

lemma base_run:
  "pipeline_inv s \<Longrightarrow> base_kept_or_passed s (fst (pipeline_run rs_new rs_encode gcm ctx config es s))"
proof (induction es arbitrary: s)
  case Nil
  then show ?case by (simp add: base_kept_or_passed_def)
next
  case (Cons e es)
  let ?t = "fst (pipeline_step rs_new rs_encode gcm ctx config e s)"
  have "base_kept_or_passed s ?t" "base_kept_or_passed ?t (fst (pipeline_run rs_new rs_encode gcm ctx config es ?t))"
    using Cons.IH [OF pipeline_inv_step] base_step Cons.prems by blast+
  then show ?case by (auto simp: base_kept_or_passed_def case_prod_beta Let_def)
qed

subsection \<open>Without a consumer\<close>

definition consumer_lost :: "'rs pipeline \<Rightarrow> bool" where
  "consumer_lost s \<longleftrightarrow> \<not> vp_consumer s \<and> MAX_FRAMES_IN_FLIGHT \<le> vp_in_flight s \<and> vp_exit s = Running"

fun keeps_running :: "pipeline_event \<Rightarrow> bool" where
  "keeps_running (Encode_Turn env) = (te_poll env \<noteq> Poll_Disconnected)"
| "keeps_running (Consumer_Turn env) = True"

text \<open>What can still be sent to the client: the encoding of a captured frame and packets.\<close>

fun reaches_client :: "pipeline_effect \<Rightarrow> bool" where
  "reaches_client (Submitted _ (Some _)) = True"
| "reaches_client (Packets _ _ _) = True"
| "reaches_client _ = False"

lemma drain_effects:
  "filter reaches_client (fst (snd (drain_resets r s))) = []" "filter reaches_client (fst (drain_idrs i)) = []"
  "filter reaches_client (fst (drain_invalidations b l)) = []"
proof -
  show "filter reaches_client (fst (snd (drain_resets r s))) = []" by (simp add: drain_resets_def)
  show "filter reaches_client (fst (drain_idrs i)) = []" by (simp add: drain_idrs_def filter_empty_conv)
  show "filter reaches_client (fst (drain_invalidations b l)) = []"
    by (induction b l rule: drain_invalidations.induct) (simp_all add: case_prod_beta Let_def)
qed

lemma consumer_lost_poll:
  assumes "consumer_lost s" and "te_poll env \<noteq> Poll_Disconnected"
  shows "consumer_lost (fst (poll_frame ctx env idr s)) \<and> filter reaches_client (snd (poll_frame ctx env idr s)) = []"
proof (cases "te_poll env")
  case (Frame_Received f)
  then show ?thesis using assms
    by (simp add: consumer_lost_def poll_frame_def encode_captured_def and_then_def backpressure_stage_def)
next
  case Poll_Timeout
  then show ?thesis using assms
    by (simp add: consumer_lost_def poll_frame_def reencode_def submit_def post_def Let_def)
qed (use assms in simp)

lemma consumer_lost_resets: "consumer_lost s \<Longrightarrow> consumer_lost (fst (drain_resets r s))"
  by (simp add: consumer_lost_def drain_resets_def post_def)

lemma consumer_lost_step:
  assumes "consumer_lost s" and "keeps_running e"
  shows "consumer_lost (fst (pipeline_step rs_new rs_encode gcm ctx config e s)) \<and>
    filter reaches_client (snd (pipeline_step rs_new rs_encode gcm ctx config e s)) = []"
proof (cases e)
  case (Encode_Turn env)
  then show ?thesis
    using assms consumer_lost_poll [OF consumer_lost_resets [OF assms(1)], of env]
    by (simp add: encode_turn_def Let_def case_prod_beta drain_effects consumer_lost_def [of s])
next
  case (Consumer_Turn env)
  then show ?thesis using assms by (simp add: consumer_turn_def consumer_lost_def)
qed

subsection \<open>The way of a frame\<close>

lemma and_then_effect:
  assumes "and_then f g s = (t, e, v)" and "x \<in> set e"
  shows "(\<exists>t' e' v'. f s = (t', e', v') \<and> x \<in> set e') \<or> (\<exists>u e1 e2. f s = (u, e1, Proceed) \<and> g u = (t, e2, v) \<and> x \<in> set e2)"
  using assms(1) by (cases rule: and_then_cases) (use assms(2) in auto)

text \<open>Where a frame is converted: the converter has the frame's format and the plan of its colour space.\<close>

definition planned :: "video_stream_context \<Rightarrow> captured_frame \<Rightarrow> converter \<Rightarrow> color_description \<Rightarrow> bool" where
  "planned ctx f c d \<longleftrightarrow> cv_input_format c = fst (drm_fourcc_to_input (cf_format f)) \<and> cv_full_range c = full_range ctx \<and>
     (if dynamic_range ctx = Hdr
      then \<exists>nits. (cv_color_space c, d, nits) = frame_color_plan (full_range ctx) (ef_color_space f) \<and> cv_sdr_white_nits c = Some nits
      else cv_color_space c = CS_Bt709 \<and> d = CD_Bt709 (full_range ctx))"

text \<open>What holds of the converter between the turns.\<close>

definition converter_inv :: "video_stream_context \<Rightarrow> 'rs pipeline \<Rightarrow> bool" where
  "converter_inv ctx s \<longleftrightarrow> (dynamic_range ctx = Sdr \<longrightarrow> vp_description s = CD_Bt709 (full_range ctx)) \<and>
     (\<forall>c. vp_converter s = Some c \<longrightarrow> cv_full_range c = full_range ctx \<and>
        (dynamic_range ctx = Sdr \<longrightarrow> cv_color_space c = CS_Bt709))"

lemma converter_inv_new: "converter_inv ctx (pipeline_new ctx)"
  by (simp add: converter_inv_def pipeline_new_def session_description_def split: video_dynamic_range.split)

lemma converter_stage_state:
  assumes "converter_stage ctx env f s = (t, e, Proceed)" and "converter_inv ctx s"
  shows "converter_inv ctx t \<and> e = [] \<and>
    (\<exists>c. vp_converter t = Some c \<and> cv_input_format c = fst (drm_fourcc_to_input (cf_format f)))"
  using assms by (auto simp: converter_stage_def new_converter_def converter_inv_def Let_def split: option.splits if_splits)

lemma color_stage_plans:
  assumes "color_stage ctx env f s = (t, e, Proceed)" and "converter_inv ctx s"
    and "vp_converter s = Some c" and "cv_input_format c = fst (drm_fourcc_to_input (cf_format f))"
  shows "converter_inv ctx t \<and> (\<exists>c. vp_converter t = Some c \<and> planned ctx f c (vp_description t))"
proof (cases "dynamic_range ctx")
  case Sdr
  then show ?thesis using assms by (auto simp: color_stage_def planned_def converter_inv_def)
next
  case Hdr
  obtain space d nits where p: "frame_color_plan (full_range ctx) (ef_color_space f) = (space, d, nits)" by (metis surj_pair)
  then show ?thesis using assms Hdr
    by (auto simp: color_stage_def planned_def converter_inv_def set_converter_def split: if_splits)
qed

subsection \<open>Colours\<close>

definition keeps_converter :: "video_stream_context \<Rightarrow> 'rs stage \<Rightarrow> bool" where
  "keeps_converter ctx g \<longleftrightarrow> (\<forall>s t e v. converter_inv ctx s \<longrightarrow> g s = (t, e, v) \<longrightarrow> converter_inv ctx t)"

lemma keeps_and_then: "keeps_converter ctx g \<Longrightarrow> keeps_converter ctx h \<Longrightarrow> keeps_converter ctx (and_then g h)"
  unfolding keeps_converter_def by (blast elim: and_then_cases)

lemma stages_keep_converter:
  "keeps_converter ctx (backpressure_stage f)" "keeps_converter ctx (importer_stage env f)"
  "keeps_converter ctx (import_stage env f)" "keeps_converter ctx (converter_stage ctx env f)"
  "keeps_converter ctx (color_stage ctx env f)" "keeps_converter ctx (convert_stage env f)"
  "keeps_converter ctx (hdr_stage ctx f)" "keeps_converter ctx (encode_stage env f)"
  by (auto simp: keeps_converter_def converter_inv_def backpressure_stage_def importer_stage_def import_stage_def
      converter_stage_def color_stage_def convert_stage_def hdr_stage_def encode_stage_def new_converter_def
      set_converter_def submit_def post_def Let_def split: if_splits option.splits prod.splits)

lemma encode_captured_keeps: "keeps_converter ctx (encode_captured ctx env f)"
  unfolding encode_captured_def by (intro keeps_and_then stages_keep_converter)

lemma converter_inv_cong:
  "vp_converter t = vp_converter s \<Longrightarrow> vp_description t = vp_description s \<Longrightarrow> converter_inv ctx t = converter_inv ctx s"
  by (simp add: converter_inv_def)

lemma converter_inv_submit: "converter_inv ctx (fst (submit index s)) = converter_inv ctx s"
  by (rule converter_inv_cong) (simp_all add: submit_def post_def Let_def)

lemma converter_inv_resets: "converter_inv ctx (fst (drain_resets r s)) = converter_inv ctx s"
  by (rule converter_inv_cong) (simp_all add: drain_resets_def post_def)

lemma converter_inv_exit: "converter_inv ctx (s\<lparr>vp_exit := x\<rparr>) = converter_inv ctx s"
  by (rule converter_inv_cong) simp_all

lemma converter_inv_encode: "converter_inv ctx s \<Longrightarrow> encode_captured ctx env f s = (t, e, v) \<Longrightarrow> converter_inv ctx t"
  using encode_captured_keeps [of ctx env f] unfolding keeps_converter_def by blast

lemma converter_inv_poll:
  assumes "converter_inv ctx s"
  shows "converter_inv ctx (fst (poll_frame ctx env idr s))"
proof (cases "te_poll env")
  case (Frame_Received f)
  obtain t e v where c: "encode_captured ctx env f s = (t, e, v)" by (metis surj_pair)
  from converter_inv_encode [OF assms c] show ?thesis
    by (cases v) (simp_all add: poll_frame_def Frame_Received c converter_inv_exit)
qed (use assms in \<open>simp_all add: poll_frame_def reencode_def converter_inv_exit converter_inv_submit\<close>)

lemma packetize_frame_converter:
  assumes "packetize_frame rs_new rs_encode gcm ctx config env fx d packet s = (t, e)"
  shows "vp_converter t = vp_converter s \<and> vp_description t = vp_description s"
  using assms by (auto simp: packetize_frame_def consumer_ends_def Let_def case_prod_beta
      split: if_splits sum.splits failure.splits prod.splits)

lemma consumer_turn_converter:
  assumes "consumer_turn rs_new rs_encode gcm ctx config env s = (t, e)"
  shows "vp_converter t = vp_converter s \<and> vp_description t = vp_description s"
  using assms
  by (auto simp: consumer_turn_def Let_def dest: packetize_frame_converter
      split: if_splits list.splits consumer_message.splits sum.splits)

lemma converter_inv_step: "converter_inv ctx s \<Longrightarrow> converter_inv ctx (fst (pipeline_step rs_new rs_encode gcm ctx config e s))"
proof (cases e)
  case (Encode_Turn env)
  assume "converter_inv ctx s"
  then show ?thesis
    by (simp add: Encode_Turn encode_turn_def Let_def case_prod_beta converter_inv_poll converter_inv_resets)
next
  case (Consumer_Turn env)
  assume "converter_inv ctx s"
  moreover have "converter_inv ctx (fst (consumer_turn rs_new rs_encode gcm ctx config env s)) = converter_inv ctx s"
    by (rule converter_inv_cong) (use consumer_turn_converter [OF prod.collapse [symmetric]] in blast)+
  ultimately show ?thesis by (simp add: Consumer_Turn)
qed

lemma converter_inv_run: "converter_inv ctx s \<Longrightarrow> converter_inv ctx (fst (pipeline_run rs_new rs_encode gcm ctx config es s))"
  by (induction es arbitrary: s) (simp_all add: converter_inv_step case_prod_beta Let_def)

text \<open>Only the conversion stage converts.\<close>

fun is_convert :: "pipeline_effect \<Rightarrow> bool" where
  "is_convert (Convert _ _ _) = True"
| "is_convert _ = False"

text \<open>A stage under a precondition, with what holds when it goes on; its conversions are those of the plan.\<close>

definition converts_as_planned :: "video_stream_context \<Rightarrow> captured_frame \<Rightarrow> ('rs pipeline \<Rightarrow> bool) \<Rightarrow> 'rs stage \<Rightarrow>
    ('rs pipeline \<Rightarrow> bool) \<Rightarrow> bool" where
  "converts_as_planned ctx f P g Q \<longleftrightarrow> (\<forall>s t e v. P s \<longrightarrow> g s = (t, e, v) \<longrightarrow>
     (\<forall>c d g. Convert c d g \<in> set e \<longrightarrow> g = f \<and> planned ctx f c d) \<and> (v = Proceed \<longrightarrow> Q t))"

lemma converts_and_then:
  assumes "converts_as_planned ctx f P g R" and "converts_as_planned ctx f R h Q"
  shows "converts_as_planned ctx f P (and_then g h) Q"
  unfolding converts_as_planned_def
proof (intro allI impI)
  fix s t e v
  assume "P s" and "and_then g h s = (t, e, v)"
  from this(2) show "(\<forall>c d g. Convert c d g \<in> set e \<longrightarrow> g = f \<and> planned ctx f c d) \<and> (v = Proceed \<longrightarrow> Q t)"
  proof (cases rule: and_then_cases)
    case stopped
    then show ?thesis using assms(1) \<open>P s\<close> unfolding converts_as_planned_def by blast
  next
    case (both u e1 e2)
    have "(\<forall>c d g. Convert c d g \<in> set e1 \<longrightarrow> g = f \<and> planned ctx f c d) \<and> R u"
      using assms(1) \<open>P s\<close> both(1) unfolding converts_as_planned_def by blast
    moreover from this have "(\<forall>c d g. Convert c d g \<in> set e2 \<longrightarrow> g = f \<and> planned ctx f c d) \<and> (v = Proceed \<longrightarrow> Q t)"
      using assms(2) both(2) unfolding converts_as_planned_def by blast
    ultimately show ?thesis unfolding both(3) set_append by blast
  qed
qed

definition formatted :: "video_stream_context \<Rightarrow> captured_frame \<Rightarrow> 'rs pipeline \<Rightarrow> bool" where
  "formatted ctx f s \<longleftrightarrow> converter_inv ctx s \<and>
     (\<exists>c. vp_converter s = Some c \<and> cv_input_format c = fst (drm_fourcc_to_input (cf_format f)))"

definition prepared :: "video_stream_context \<Rightarrow> captured_frame \<Rightarrow> 'rs pipeline \<Rightarrow> bool" where
  "prepared ctx f s \<longleftrightarrow> (\<exists>c. vp_converter s = Some c \<and> planned ctx f c (vp_description s))"

lemma stages_convert_as_planned:
  "converts_as_planned ctx f (converter_inv ctx) (backpressure_stage f) (converter_inv ctx)"
  "converts_as_planned ctx f (converter_inv ctx) (importer_stage env f) (converter_inv ctx)"
  "converts_as_planned ctx f (converter_inv ctx) (import_stage env f) (converter_inv ctx)"
  "converts_as_planned ctx f (prepared ctx f) (convert_stage env f) (\<lambda>s. True)"
  "converts_as_planned ctx f (\<lambda>s. True) (hdr_stage ctx f) (\<lambda>s. True)"
  "converts_as_planned ctx f (\<lambda>s. True) (encode_stage env f) (\<lambda>s. True)"
  by (auto simp: converts_as_planned_def prepared_def converter_inv_def backpressure_stage_def importer_stage_def
      import_stage_def convert_stage_def hdr_stage_def encode_stage_def submit_def Let_def split: if_splits option.splits)

lemma converter_stage_converts:
  "converts_as_planned ctx f (converter_inv ctx) (converter_stage ctx env f) (formatted ctx f)"
proof -
  have "Convert c d g \<notin> set e" if "converter_stage ctx env f s = (t, e, v)" for s t e v c d g
    using that by (auto simp: converter_stage_def Let_def split: if_splits option.splits)
  then show ?thesis using converter_stage_state unfolding converts_as_planned_def formatted_def by blast
qed

lemma color_stage_converts: "converts_as_planned ctx f (formatted ctx f) (color_stage ctx env f) (prepared ctx f)"
proof -
  have "Convert c d g \<notin> set e" if "color_stage ctx env f s = (t, e, v)" for s t e v c d g
    using that by (auto simp: color_stage_def Let_def split: if_splits prod.splits)
  then show ?thesis using color_stage_plans unfolding converts_as_planned_def formatted_def prepared_def by blast
qed

lemma encode_captured_converts: "converts_as_planned ctx f (converter_inv ctx) (encode_captured ctx env f) (\<lambda>s. True)"
  unfolding encode_captured_def
  by (rule converts_and_then stages_convert_as_planned converter_stage_converts color_stage_converts)+

subsection \<open>Released buffers\<close>

fun is_release :: "pipeline_effect \<Rightarrow> bool" where
  "is_release (Release _) = True"
| "is_release _ = False"

text \<open>How a turn leaves the buffer of the frame it was given: released once, or kept by a loop that has ended.\<close>

definition settles :: "video_stream_context \<Rightarrow> turn_env \<Rightarrow> captured_frame \<Rightarrow> pipeline_effect list \<Rightarrow> verdict \<Rightarrow> bool" where
  "settles ctx env f e v \<longleftrightarrow> filter is_release e = [Release (ef_consumed f)] \<or>
     filter is_release e = [] \<and> (v = Stop Loop_Panicked \<and> cf_planes f = 0 \<or>
       v = Stop Loop_Failed \<and> dynamic_range ctx = Hdr \<and> \<not> te_description_ok env)"

definition settling :: "video_stream_context \<Rightarrow> turn_env \<Rightarrow> captured_frame \<Rightarrow> 'rs stage \<Rightarrow> bool" where
  "settling ctx env f g \<longleftrightarrow> (\<forall>s t e v. g s = (t, e, v) \<longrightarrow> settles ctx env f e v)"

text \<open>A stage before the release: either it goes on or it settles the frame.\<close>

definition settling_or_on :: "video_stream_context \<Rightarrow> turn_env \<Rightarrow> captured_frame \<Rightarrow> 'rs stage \<Rightarrow> bool" where
  "settling_or_on ctx env f g \<longleftrightarrow>
     (\<forall>s t e v. g s = (t, e, v) \<longrightarrow> (if v = Proceed then filter is_release e = [] else settles ctx env f e v))"

lemma settling_and_then: "settling_or_on ctx env f g \<Longrightarrow> settling ctx env f h \<Longrightarrow> settling ctx env f (and_then g h)"
  unfolding settling_def
  by (intro allI impI, erule and_then_cases) (fastforce simp: settling_or_on_def settles_def)+

lemma late_stages_release_nothing:
  "hdr_stage ctx f s = (t, e, v) \<Longrightarrow> filter is_release e = []" "encode_stage env f s = (t, e, v) \<Longrightarrow> filter is_release e = []"
  by (auto simp: hdr_stage_def encode_stage_def submit_def Let_def split: if_splits option.splits)

lemma convert_stage_releases: "convert_stage env f s = (t, e, v) \<Longrightarrow> filter is_release e = [Release (ef_consumed f)]"
  by (auto simp: convert_stage_def Let_def split: if_splits option.splits)

lemma convert_settles: "settling ctx env f (and_then (convert_stage env f) (and_then (hdr_stage ctx f) (encode_stage env f)))"
  unfolding settling_def
proof (intro allI impI)
  fix s t e v
  assume "and_then (convert_stage env f) (and_then (hdr_stage ctx f) (encode_stage env f)) s = (t, e, v)"
  then show "settles ctx env f e v"
  proof (cases rule: and_then_cases)
    case stopped
    then show ?thesis by (simp add: settles_def convert_stage_releases)
  next
    case (both u e1 e2)
    have "filter is_release e2 = []"
      using both(2) by (cases rule: and_then_cases) (simp_all add: late_stages_release_nothing)
    then show ?thesis using convert_stage_releases [OF both(1)] both(3) by (simp add: settles_def)
  qed
qed

lemma early_stages_settle:
  "settling_or_on ctx env f (backpressure_stage f)" "settling_or_on ctx env f (importer_stage env f)"
  "settling_or_on ctx env f (import_stage env f)" "settling_or_on ctx env f (converter_stage ctx env f)"
  "settling_or_on ctx env f (color_stage ctx env f)"
  by (auto simp: settling_or_on_def settles_def backpressure_stage_def importer_stage_def import_stage_def
      converter_stage_def color_stage_def Let_def split: if_splits option.splits prod.splits)

lemma encode_captured_settles: "settling ctx env f (encode_captured ctx env f)"
  unfolding encode_captured_def by (intro settling_and_then early_stages_settle convert_settles)

lemma drains_release_nothing:
  "filter is_release (fst (snd (drain_resets r s))) = []" "filter is_release (fst (drain_idrs i)) = []"
  "filter is_release (fst (drain_invalidations b l)) = []"
proof -
  show "filter is_release (fst (snd (drain_resets r s))) = []" by (simp add: drain_resets_def)
  show "filter is_release (fst (drain_idrs i)) = []" by (simp add: drain_idrs_def filter_empty_conv)
  show "filter is_release (fst (drain_invalidations b l)) = []"
    by (induction b l rule: drain_invalidations.induct) (simp_all add: case_prod_beta Let_def)
qed

section \<open>Concrete runs\<close>

lemmas turn_simps = encode_turn_def poll_frame_def reencode_def drain_resets_def drain_idrs_def encode_captured_def and_then_def
  backpressure_stage_def importer_stage_def import_stage_def converter_stage_def color_stage_def convert_stage_def
  hdr_stage_def encode_stage_def set_converter_def new_converter_def submit_def post_def drm_fourcc_to_input_def
  session_description_def hdr_mode_state_new_def MAX_FRAMES_IN_FLIGHT_def pipeline_new_def Let_def

lemma pipeline_run_append:
  "pipeline_run rs_new rs_encode gcm ctx config (xs @ ys) s =
     (let r = pipeline_run rs_new rs_encode gcm ctx config xs s;
          q = pipeline_run rs_new rs_encode gcm ctx config ys (fst r)
      in (fst q, snd r @ snd q))"
  by (induction xs arbitrary: s) (simp_all add: case_prod_beta Let_def)

definition sample_captured :: "nat \<Rightarrow> captured_frame" where
  "sample_captured i = \<lparr>ef_created_at = 0, ef_buffer_index = i, ef_consumed = i, ef_color_space = FCS_Srgb,
     ef_hdr_metadata = None, cf_format = 0x34325258, cf_planes = 1\<rparr>"

definition sample_stream :: "nat \<Rightarrow> video_dynamic_range \<Rightarrow> video_stream_context" where
  "sample_stream sz dr = \<lparr>width = 1920, height = 1080, fps = 60, packet_size = sz, bitrate = 10000000,
     minimum_fec_packets = 2, video_qos = False, video_format = Hevc, dynamic_range = dr,
     chroma_sampling_type = Yuv420, max_reference_frames = 1, full_range = False, encrypt_video = False\<rparr>"

text \<open>A turn in which every call succeeds.\<close>

definition sample_turn :: "frame_poll \<Rightarrow> turn_env" where
  "sample_turn p = \<lparr>te_resets = [], te_idrs = [], te_invalidations = [], te_poll = p, te_importer_ok = True,
     te_import = True, te_converter_ok = True, te_description_ok = True, te_convert = None, te_encode = None\<rparr>"

definition sample_consumer :: consumer_env where
  "sample_consumer = \<lparr>ce_outcome = Inr \<lparr>pk_data = [1, 2, 3], pk_key_frame = False, pk_pts = 0\<rparr>, ce_keys = sample_keys,
     ce_latency = 0, ce_channel_open = True\<rparr>"

definition sample_events :: "pipeline_event list" where
  "sample_events = [Encode_Turn (sample_turn (Frame_Received (sample_captured 0))), Consumer_Turn sample_consumer,
     Encode_Turn ((sample_turn (Frame_Received (sample_captured 1)))\<lparr>te_resets := [Received ()]\<rparr>), Consumer_Turn sample_consumer]"

text \<open>The state after both captured frames: the first packetized, the reset taken, the second waiting.\<close>

lemma sample_events_state:
  obtains s effects where "pipeline_run copy_rs_new copy_rs_encode plain_gcm (sample_stream 1024 Sdr)
      video_stream_config_default sample_events (pipeline_new (sample_stream 1024 Sdr)) = (s, effects)"
    "vp_queue s = [Frame_Message \<lparr>fx_inject_hdr = False, fx_hdr_metadata = None, fx_buffer_index = Some 1\<rparr> 1]"
    "vp_frame_number s = 0" "vp_frame_number_base s = 1" "vp_consumer s" "wf_packetizer copy_rs_new (vp_packetizer s)"
    "\<forall>d. Readback_Failed d \<notin> set effects"
proof -
  have sz: "NV_VIDEO_PACKET_SIZE < 1024" "1024 + 16 < (2 :: nat) ^ 36" by (simp_all add: packet_sizes)
  obtain batch p' seq' where run: "packetize copy_rs_new copy_rs_encode plain_gcm sample_keys [1, 2, 3] False 1024 2
      20 1 0 0 (packetizer_new False) 0 = (Inr batch, p', seq')"
    using packetize_returns [OF copy_contracts wf_packetizer_new sz] by blast
  from packetize_ok [OF copy_contracts(1,3) wf_packetizer_new run refl refl] have "wf_packetizer copy_rs_new p'" by blast
  then show ?thesis using that run
    by (simp add: sample_events_def turn_simps sample_turn_def sample_captured_def sample_stream_def consumer_turn_def packetize_frame_def sample_consumer_def packet_data_def rtp_timestamp_def video_stream_config_default_def)
qed

text \<open>Three captured frames and a requested key frame are in flight when the consumer panics on a packet size of 16.\<close>

definition lost_events :: "pipeline_event list" where
  "lost_events = map (\<lambda>i. Encode_Turn (sample_turn (Frame_Received (sample_captured i)))) [0, 1, 2] @
     [Encode_Turn ((sample_turn Poll_Timeout)\<lparr>te_idrs := [Received ()]\<rparr>),
      Consumer_Turn sample_consumer]"

section \<open>Correctness\<close>

text \<open>
  C5. Every frame that the encoding loop takes is given back to the compositor exactly once, whatever fails on its way,
  and no other buffer is: only a loop that ends keeps it, by the panic on a frame without planes or by the failure to
  switch the encoder's colour description in an HDR session.
\<close>

theorem frames_released:
  assumes "vp_exit s = Running" and "te_poll env = Frame_Received f" and "encode_turn ctx env s = (t, effects)"
  shows "filter is_release effects = [Release (ef_consumed f)] \<or>
    filter is_release effects = [] \<and> (vp_exit t = Loop_Panicked \<and> cf_planes f = 0 \<or>
      vp_exit t = Loop_Failed \<and> dynamic_range ctx = Hdr \<and> \<not> te_description_ok env)"
proof -
  let ?u = "fst (drain_resets (te_resets env) s)"
  obtain t' e v where c: "encode_captured ctx env f ?u = (t', e, v)" by (metis surj_pair)
  then have "settles ctx env f e v" using encode_captured_settles [of ctx env f] unfolding settling_def by blast
  then show ?thesis
    using assms c
    by (cases v) (auto simp: encode_turn_def poll_frame_def settles_def Let_def case_prod_beta drains_release_nothing
        simp del: filter_empty_conv)
qed

theorem frames_released_witness:
  "filter is_release (snd (encode_turn (sample_stream 1024 Hdr)
      ((sample_turn (Frame_Received (sample_captured 2)))\<lparr>te_description_ok := False\<rparr>)
      (pipeline_new (sample_stream 1024 Hdr) :: (nat \<times> nat) pipeline))) = [] \<and>
   filter is_release (snd (encode_turn (sample_stream 1024 Hdr) (sample_turn (Frame_Received (sample_captured 2)))
      (pipeline_new (sample_stream 1024 Hdr) :: (nat \<times> nat) pipeline))) = [Release 2]"
proof -
  let ?s = "pipeline_new (sample_stream 1024 Hdr) :: (nat \<times> nat) pipeline"
  let ?e = "sample_turn (Frame_Received (sample_captured 2))"
  have r: "vp_exit ?s = Running" and p: "te_poll ?e = Frame_Received (sample_captured 2)"
    and p': "te_poll (?e\<lparr>te_description_ok := False\<rparr>) = Frame_Received (sample_captured 2)"
    by (simp_all add: pipeline_new_def sample_turn_def)
  have "te_description_ok ?e" "cf_planes (sample_captured 2) \<noteq> 0" "ef_consumed (sample_captured 2) = 2"
    by (simp_all add: sample_turn_def sample_captured_def)
  then have "filter is_release (snd (encode_turn (sample_stream 1024 Hdr) ?e ?s)) = [Release 2]"
    using frames_released [OF r p prod.collapse [symmetric], of "sample_stream 1024 Hdr"] by metis
  moreover have "filter is_release (snd (encode_turn (sample_stream 1024 Hdr) (?e\<lparr>te_description_ok := False\<rparr>) ?s)) = []"
    by (simp add: turn_simps sample_turn_def sample_captured_def sample_stream_def)
  ultimately show ?thesis by blast
qed

text \<open>
  C4. In every run of the two threads, a packet carries the frame it was made from, and a loss report of its frame
  number, however much later it comes (after the run \<open>later\<close>), is led to that frame or an earlier one as long as no
  reset was taken by the encoding loop since the frame was submitted: neither one that waits behind the frame in the
  queue nor one of the later run, which moves the base. Without failed read-backs it is led exactly to the frame. After
  a reset the report is led to a frame submitted later than the lost one: the code does not tell the numbers of before a
  reset from those after it.
\<close>

theorem invalidation_names_frame:
  assumes "s = fst (pipeline_run rs_new rs_encode gcm ctx config es (pipeline_new ctx))"
    and "vp_queue s = Frame_Message fx d # q"
    and "consumer_turn rs_new rs_encode gcm ctx config env s = (t, effects)" and "Packets order n shards \<in> set effects"
    and "u = fst (pipeline_run rs_new rs_encode gcm ctx config later t)"
  shows "order = d \<and>
    (if Reset_Counters \<notin> set q \<and> vp_frame_number_base u = vp_frame_number_base s
     then invalidation_target (vp_frame_number_base u) n \<le> d \<and>
       ((\<forall>d. Readback_Failed d \<notin> set (snd (pipeline_run rs_new rs_encode gcm ctx config es (pipeline_new ctx)))) \<longrightarrow>
         invalidation_target (vp_frame_number_base u) n = d)
     else d < invalidation_target (vp_frame_number_base u) n)"
proof -
  have inv: "pipeline_inv s" unfolding assms(1) by (rule pipeline_inv_run [OF pipeline_inv_new(1)])
  have cov: "resets_covered s" unfolding assms(1) by (rule resets_covered_run [OF pipeline_inv_new(1) resets_covered_new])
  have c: "vp_consumer s" using inv assms(2) by (auto simp: pipeline_inv_def)
  have invt: "pipeline_inv t" using consumer_turn_inv(1) [OF inv, of rs_new rs_encode gcm ctx config env] assms(3) by simp
  have d: "d < vp_submitted s" using taken_inv(2) [OF inv c assms(2)] inv assms(2) by (simp add: pipeline_inv_def)
  obtain packet where p: "ce_outcome env = Inr packet"
    and r: "packetize_frame rs_new rs_encode gcm ctx config env fx d packet (taken q s) = (t, effects)"
    using assms(2,3,4) c by (auto simp: consumer_turn_def taken_def Let_def split: sum.splits gpu_error.splits)
  from r show ?thesis
  proof (cases rule: packetize_frame_cases)
    case (ended u)
    then show ?thesis using assms(4) by simp
  next
    case numbered
    then have t: "shared t = shared ((taken q s)\<lparr>vp_frame_number := vp_frame_number s + 1\<rparr>)" "vp_frame_number s \<noteq> 0xFFFFFFFF"
      by (simp_all add: taken_def)
    have n: "order = d" "n = vp_frame_number s + 1" using numbered(3) assms(4) by (auto simp: taken_def)
    have "max n 1 = n" using number_next [OF t(2)] n(2) by (simp add: max_def word_le_nat_alt unat_eq_zero)
    then have target: "invalidation_target b n = b + unat (vp_frame_number s)" for b
      using number_next [OF t(2)] n(2) by (simp add: invalidation_target_def)
    have b: "vp_submitted t = vp_submitted s" "vp_frame_number_base t = vp_frame_number_base s"
      using t(1) by (simp_all add: shared_eq taken_def)
    have passed: "vp_frame_number_base u = vp_frame_number_base s \<or> vp_submitted s \<le> vp_frame_number_base u"
      using base_run [OF invt] b assms(5) unfolding base_kept_or_passed_def by metis
    show ?thesis
    proof (cases "Reset_Counters \<notin> set q \<and> vp_frame_number_base u = vp_frame_number_base s")
      case True
      then show ?thesis
        using n(1) numbered_inv(3,4) [OF inv c assms(2) t] assms(1) numbers_exact_run [OF pipeline_inv_new] b(2) target
        by metis
    next
      case False
      have "d < vp_frame_number_base s" if "Reset_Counters \<in> set q"
        using cov that assms(2) by (simp add: resets_covered_def)
      then have "d < vp_frame_number_base u" using False passed d by (cases "Reset_Counters \<in> set q") auto
      then show ?thesis using False n(1) target by simp
    qed
  qed
qed

theorem invalidation_names_frame_witness:
  "\<exists>s t effects shards. pipeline_run copy_rs_new copy_rs_encode plain_gcm (sample_stream 1024 Sdr)
      video_stream_config_default sample_events (pipeline_new (sample_stream 1024 Sdr)) = (s, effects) \<and>
    consumer_turn copy_rs_new copy_rs_encode plain_gcm (sample_stream 1024 Sdr) video_stream_config_default sample_consumer s
      = (t, [Packets 1 1 shards, Stats]) \<and>
    vp_frame_number_base t = 1 \<and> invalidation_target (vp_frame_number_base t) 1 = 1"
proof -
  let ?ctx = "sample_stream 1024 Sdr"
  obtain s effects where s: "pipeline_run copy_rs_new copy_rs_encode plain_gcm ?ctx video_stream_config_default sample_events
      (pipeline_new ?ctx) = (s, effects)"
    and q: "vp_queue s = [Frame_Message \<lparr>fx_inject_hdr = False, fx_hdr_metadata = None, fx_buffer_index = Some 1\<rparr> 1]"
    and n: "vp_frame_number s = 0" "vp_frame_number_base s = 1" "vp_consumer s" "wf_packetizer copy_rs_new (vp_packetizer s)"
    and r: "\<forall>d. Readback_Failed d \<notin> set effects"
    by (rule sample_events_state)
  have sz: "NV_VIDEO_PACKET_SIZE < 1024" "1024 + 16 < (2 :: nat) ^ 36" by (simp_all add: packet_sizes)
  obtain shards p' seq' where run: "packetize copy_rs_new copy_rs_encode plain_gcm sample_keys [1, 2, 3] False 1024 2
      20 1 0 0 (vp_packetizer s) (vp_sequence_number s) = (Inr shards, p', seq')"
    using packetize_returns [OF copy_contracts n(4) sz] by blast
  obtain t where t: "consumer_turn copy_rs_new copy_rs_encode plain_gcm ?ctx video_stream_config_default sample_consumer s =
      (t, [Packets 1 1 shards, Stats])" and b: "vp_frame_number_base t = 1"
    using run q n by (simp add: consumer_turn_def packetize_frame_def sample_consumer_def packet_data_def rtp_timestamp_def
        sample_stream_def video_stream_config_default_def Let_def)
  have "Packets 1 1 shards \<in> set [Packets 1 1 shards, Stats]" by simp
  from invalidation_names_frame [OF _ q t this, of sample_events t "[]"]
  have "invalidation_target (vp_frame_number_base t) 1 = 1" using s r b n(2) by simp
  then show ?thesis using s t b by blast
qed

text \<open>
  C6. A frame of a session is converted from its own pixel format and in its own colour space: in every run, the
  converter is set to the plan of the frame that the turn received, and the encoder's description is the plan's.
\<close>

theorem frames_converted_in_their_color_space:
  assumes "s = fst (pipeline_run rs_new rs_encode gcm ctx config es (pipeline_new ctx))"
    and "te_poll env = Frame_Received f" and "Convert c d g \<in> set (snd (encode_turn ctx env s))"
  shows "g = f \<and> planned ctx f c d"
proof -
  let ?u = "fst (drain_resets (te_resets env) s)"
  have inv: "converter_inv ctx ?u"
    unfolding converter_inv_resets assms(1) by (rule converter_inv_run [OF converter_inv_new])
  obtain t e v where c: "encode_captured ctx env f ?u = (t, e, v)" by (metis surj_pair)
  have "Convert c d g \<notin> set (fst (snd (drain_resets (te_resets env) s)))" "Convert c d g \<notin> set (fst (drain_idrs (te_idrs env)))"
    by (auto simp: drain_resets_def drain_idrs_def)
  moreover have "Convert c d g \<notin> set (fst (drain_invalidations b l))" for b l
    by (induction b l rule: drain_invalidations.induct) (simp_all add: case_prod_beta Let_def)
  ultimately have "Convert c d g \<in> set e"
    using assms(2,3) c by (cases v) (auto simp: encode_turn_def poll_frame_def Let_def case_prod_beta split: if_splits)
  then show ?thesis using encode_captured_converts [of ctx f env] inv c unfolding converts_as_planned_def by blast
qed

theorem frames_converted_in_their_color_space_witness:
  "planned (sample_stream 1024 Hdr) (sample_captured 0)
     \<lparr>cv_input_format = IF_BGRx, cv_color_space = CS_Bt709, cv_full_range = False, cv_sdr_white_nits = Some 203\<rparr> (CD_Bt709 False)"
proof -
  let ?c = "\<lparr>cv_input_format = IF_BGRx, cv_color_space = CS_Bt709, cv_full_range = False, cv_sdr_white_nits = Some 203\<rparr>"
  let ?env = "sample_turn (Frame_Received (sample_captured 0))"
  have "Convert ?c (CD_Bt709 False) (sample_captured 0) \<in> set (snd (encode_turn (sample_stream 1024 Hdr) ?env
      (pipeline_new (sample_stream 1024 Hdr) :: (nat \<times> nat) pipeline)))"
    by (simp add: turn_simps sample_turn_def sample_captured_def sample_stream_def)
  from frames_converted_in_their_color_space [OF _ _ this, of copy_rs_new copy_rs_encode plain_gcm video_stream_config_default "[]"
      "sample_captured 0"]
  show ?thesis by (simp add: sample_turn_def)
qed

text \<open>
  C7. When the consumer ends while the frames of three submissions are not counted out, the stream is frozen for good:
  no run, whatever the calls return, submits another captured frame or sends another packet, and the loop does not end
  by itself; it only ends when the compositor closes the frame channel or the session is stopped from elsewhere.
\<close>

theorem lost_consumer_freezes_stream:
  assumes "consumer_lost s" and "list_all keeps_running es"
  shows "consumer_lost (fst (pipeline_run rs_new rs_encode gcm ctx config es s)) \<and>
    filter reaches_client (snd (pipeline_run rs_new rs_encode gcm ctx config es s)) = []"
  using assms
proof (induction es arbitrary: s)
  case (Cons e es)
  have "consumer_lost (fst (pipeline_step rs_new rs_encode gcm ctx config e s)) \<and>
      filter reaches_client (snd (pipeline_step rs_new rs_encode gcm ctx config e s)) = []"
    using Cons.prems by (intro consumer_lost_step) simp_all
  then show ?case using Cons.IH Cons.prems(2) by (simp add: case_prod_beta Let_def)
qed simp

theorem lost_consumer_freezes_stream_witness:
  "filter reaches_client (snd (pipeline_run copy_rs_new copy_rs_encode plain_gcm (sample_stream 16 Sdr)
      video_stream_config_default (lost_events @ replicate 100 (Encode_Turn (sample_turn (Frame_Received (sample_captured 3)))))
      (pipeline_new (sample_stream 16 Sdr)))) = map (\<lambda>i. Submitted i (Some i)) [0, 1, 2]"
proof -
  let ?ctx = "sample_stream 16 Sdr"
  let ?r = "pipeline_run copy_rs_new copy_rs_encode plain_gcm ?ctx video_stream_config_default lost_events (pipeline_new ?ctx)"
  let ?s = "fst ?r"
  have panics: "packetize copy_rs_new copy_rs_encode plain_gcm sample_keys d k 16 m pct f u l p seq =
      (Inl Panic, maybe_update_cipher sample_keys p, seq)" for d k m pct f u l p seq
    by (simp add: packetize_def packet_sizes)
  have e: "consumer_lost ?s \<and> filter reaches_client (snd ?r) = map (\<lambda>i. Submitted i (Some i)) [0, 1, 2]"
    by (simp add: lost_events_def turn_simps sample_turn_def sample_captured_def sample_stream_def consumer_turn_def
        packetize_frame_def sample_consumer_def packet_data_def rtp_timestamp_def video_stream_config_default_def
        consumer_lost_def consumer_ends_def panics)
  have "list_all keeps_running (replicate 100 (Encode_Turn (sample_turn (Frame_Received (sample_captured 3)))))"
    by (simp add: list_all_iff sample_turn_def)
  from lost_consumer_freezes_stream [OF conjunct1 [OF e] this] show ?thesis using e by (simp add: pipeline_run_append Let_def)
qed

end
