(* ===== verification/Spec2Isabelle.thy ===== *)
theory Spec2Isabelle
  imports Gso_Socket Packetizer_Props Gamepad_Handler Control_Loop Webserver
    Audio_Encoder Packet_Handlers Pulse_Liveness Hdr_Sei Focus_Props App_Id
    App_Scan_Props App_Unit Compositor_Input
    Color_Props Frame_Props Pipeline_Props
begin

text \<open>
  Verification of Moonshine, a streaming host for Moonlight clients. A client pairs with the host over
  HTTP, launches an application over HTTPS, negotiates the streams over RTSP, and then receives video
  and audio over UDP while its input arrives over an encrypted ENet control channel. The application
  draws into the host's own Wayland compositor and plays into the host's own PulseAudio server.
  All paths below are relative to \<open>moonshine-core/src\<close>.

  \<^bold>\<open>How the parts interact.\<close> The web server authorizes a request against the paired certificates of
  the client manager (which keeps them in the state file) and calls the session manager; so does the
  RTSP server, whose ANNOUNCE hands over the stream parameters and whose PLAY starts the streams (both change the
  session manager of the model). The
  session manager owns the keys and passes them to packetizer, audio encoder and control loop, which
  seal or open packets with them. The encoders hand batches of packets to the packet handlers, which send
  them to the address of the client's PING. The control loop decodes input, drives the virtual gamepads
  and sends feedback. The compositor's focus policy decides which window gets the input. The compositor's
  frame timer composes the windows, or takes the game's own buffer, and hands the frame with its colour space to
  the video pipeline, whose two threads encode and packetize it; a shared flag per buffer gives it back.

  \<^bold>\<open>Theories and sources.\<close>

  \<^item> \<open>Prelude\<close>: machine integers, results (\<open>Err\<close> and \<open>Panic\<close>), slices, integer encodings, \<open>chunks\<close>; the
    locales \<open>byte_codec\<close> (interpreted for the five encodings) and \<open>transition_system\<close> (an invariant of a
    step relation holds in every reachable state). \<open>Text\<close>: Rust's string functions on UTF-8 bytes.
    \<open>Float_Bits\<close>: the \<open>f32\<close> bit patterns the input parsers inspect.
  \<^item> \<open>Session_Types\<close>, \<open>Session_Manager\<close>: \<open>session/mod.rs\<close>, \<open>session/manager.rs\<close>. A session is a value of
    the type of its state (initialized, launched, active); the manager's fields are the record
    \<open>manager\<close>. Operations that release the mutex are split at that point (\<open>launch_begin\<close>,
    \<open>launch_end\<close>, \<open>start_begin\<close>, \<open>start_end\<close>); \<open>world_step\<close> interleaves them with the watchdog and
    the shutdown of the streams without any restriction, \<open>manager_run\<close> adds a flag that says whether the last
    reset overtook a launch or a start in flight, and \<open>lifecycle\<close> interprets \<open>transition_system\<close> on it. The abstract
    specification is the five-state life cycle that \<open>session_phases_refine\<close> refines; what happens to a launch that a
    reset overtook is \<open>late_launch_unwatched\<close>.
  \<^item> \<open>Rtsp\<close>: \<open>rtsp.rs\<close>. \<open>Clients\<close>, \<open>Persistent_State\<close>: \<open>clients.rs\<close>, \<open>state.rs\<close>; memory and file are
    one record, the locale \<open>persistent_set\<close> states what an addition promises. \<open>Webserver\<close>:
    \<open>webserver/mod.rs\<close>, \<open>webserver/pairing.rs\<close>.
  \<^item> \<open>Stream_Config\<close>: the parameters in \<open>session/stream/audio/mod.rs\<close>, \<open>video/mod.rs\<close>.
    \<open>Shard_Batch\<close>, \<open>Packetizer\<close>, \<open>Packetizer_Props\<close>: \<open>video/shard_batch.rs\<close>, \<open>video/packetizer.rs\<close>; the
    locale \<open>slot_store\<close> is the store of fixed-size shards the packetizer writes into.
    \<open>Gso_Socket\<close>, \<open>Packet_Handlers\<close>: \<open>video/gso_socket.rs\<close> and the packet tasks; the locale
    \<open>packet_handler\<close> is interpreted for audio and video. \<open>Hdr_Sei\<close>: \<open>video/pipeline/hdr_sei.rs\<close>.
  \<^item> \<open>Audio_Encoder\<close>: \<open>audio/encoder.rs\<close>. \<open>Audio_Buffer\<close>: \<open>audio/buffer.rs\<close>,
    \<open>pulse_server/dyn_buffer.rs\<close>. \<open>Pulse_Commands\<close>, \<open>Pulse_Server\<close>, \<open>Pulse_Props\<close>,
    \<open>Pulse_Liveness\<close>: \<open>pulse_server/commands.rs\<close>, \<open>pulse_server/mod.rs\<close>.
  \<^item> \<open>Crypto\<close>: \<open>crypto.rs\<close>. \<open>Control_Message\<close>, \<open>Feedback\<close>, \<open>Control_Loop\<close>: \<open>control/mod.rs\<close>,
    \<open>control/feedback.rs\<close>; the locale \<open>framed_builder\<close> is the framing every host message shares.
    \<open>Keyboard\<close>, \<open>Input_Packets\<close>, \<open>Gamepad\<close>, \<open>Input_Events\<close>, \<open>Remap\<close>, \<open>Gamepad_Handler\<close>:
    \<open>control/input/\<close>; the locale \<open>packet_parser\<close> is interpreted for every packet of the client.
  \<^item> \<open>X11_Focus\<close>, \<open>Window_Focus\<close>, \<open>Focus_Policy\<close>, \<open>Focus_Handlers\<close>, \<open>Focus_Props\<close>:
    \<open>session/compositor/x11_focus.rs\<close>, \<open>focus.rs\<close> and the window handlers of \<open>handlers.rs\<close>; the state
    is the record \<open>focus_comp\<close> with the list of effects on seat and X server. \<open>App_Id\<close>: the search
    for the Steam app in \<open>handlers.rs\<close>. \<open>Compositor_Input\<close>: \<open>compositor/input.rs\<close>, the decoded input as calls
    on keyboard, pointer, touch and tablet of the seat.
  \<^item> \<open>Color_Management\<close>, \<open>Color_Props\<close>: \<open>compositor/color_management.rs\<close> and \<open>gamescope_swapchain.rs\<close>; a
    protocol object is a value of \<open>color_object\<close>, a client's session the list of its requests.
    \<open>Frame_Output\<close>, \<open>Frame_Props\<close>: \<open>render_and_export\<close> in \<open>compositor/state.rs\<close>, \<open>render_scene.rs\<close> and the frame
    timer of \<open>compositor/mod.rs\<close>; \<open>frame_step\<close> interleaves the ticks with the encoder.
    \<open>Video_Pipeline\<close>, \<open>Pipeline_Props\<close>: \<open>video/pipeline/mod.rs\<close>; \<open>encode_turn\<close> is an iteration of the encoding loop,
    \<open>consumer_turn\<close> one of the packet consumer, and \<open>pipeline_run\<close> interleaves them.
  \<^item> \<open>Paths\<close>, \<open>Desktop_Scan\<close>, \<open>Game_Scan\<close>, \<open>App_Scan_Props\<close>: \<open>app_scanner/\<close>, over a file tree that is an
    argument. \<open>App_Unit\<close>: \<open>session/application.rs\<close>, the transient systemd unit as calls on the bus.

  \<^bold>\<open>What the lemmas show.\<close> Encoders and decoders invert each other (packets, messages, SDP, state
  file, SEI and OBU units). Nonces never repeat under one key (video, control), or the exact
  period after which they do is stated (audio). The invariants of the stateful parts hold in every reachable
  state (session manager, gamepad slots, hold-to-Home, PulseAudio streams, window index, frame buffers and frame
  numbers, tablet tools); a PulseAudio tick needs streams of at most 32 channels, or a stereo host panics, which is
  proved too. Loops end,
  or the theorem says exactly when they do not (\<open>recv\<close>, the process tree walk, timers, drains). Error
  paths are values, and theorems state exactly which inputs reach a panic. The library parts that the
  program calls (AES, Reed-Solomon, Opus, X.509, TOML, RTSP and SDP parsers, inputtino, ENet, Smithay) are
  parameters with their documented contracts as hypotheses, each shown satisfiable by a witness.

  \<^bold>\<open>Bounds and fuel.\<close> Integers have the width of the source. A subtraction below zero, a division by zero, an index
  out of range and, for the compositor's input, the icon scores, the refresh rate, the RTP time stamp and the X display
  number, an overflow is a \<open>Panic\<close>, as in a build that checks. Everywhere else sums and products wrap as in a release build, where a debug build would panic: the packet
  and nonce counters of \<open>packetize\<close>, the initialization vector of an audio packet (\<open>audio_iv\<close>), the sequence number of
  the control messages (\<open>control_turn\<close>), the bit rate of ANNOUNCE (\<open>announce_video\<close>), the buffer attributes of a
  playback stream (\<open>configure_buffer\<close>); the number in the error message of
  an unknown application (\<open>launch_context\<close>) is not modelled at all. The theorems about nonces bound the number of
  frames and turns, so that no counter wraps. Loops over data are structural or have a measure. \<open>recv\<close> and the process tree
  walk are \<open>partial_function (option)\<close>, because they need not end; the walk through transient parents has the
  ten steps the source allows.

  \<^bold>\<open>Not modelled.\<close> What the GPU does: drawing, DMA-BUF import and the Vulkan calls of converter and encoder
  (FFI; their outcomes are inputs of the model). The Wayland and X11 machinery of Smithay, popup grabs and touch
  routing (objects of Smithay's seat), the Vulkan layer \<open>moonshine-wsi\<close> (raw loader FFI), TLS certificates and
  mDNS discovery (calls into libraries), the health checks and the benchmark (probes and reports), configuration
  and command line (derived parsers). The manifest lists each with its reason.
\<close>

section \<open>Where components meet\<close>

lemma launch_context_application:
  "launch_context we server params = Inr ctx \<Longrightarrow>
   \<exists>i. find (\<lambda>a. web_env.app_id we a = i) (webserver.applications server) = Some (application ctx)"
  by (clarsimp simp: launch_context_def Let_def split: option.splits sum.splits prod.splits) blast

lemma launched_keys_requested:
  "launch_context we server params = Inr ctx \<Longrightarrow> \<exists>data. key_params we params = Inr data \<and> keys ctx = Keys data"
  by (auto simp: launch_context_def Let_def session_keys_new_def split: option.splits sum.splits)

lemma find_first:
  assumes "find P (xs @ a # ys) = Some b" and "P b \<Longrightarrow> P a"
  shows "b \<in> set (xs @ [a])"
  using assms by (induction xs) (auto simp: find_Some_iff split: if_splits)

text \<open>
  Applications with the same title. The list offered to clients tells applications apart by title and command, but
  a launch request names one by an identifier computed from the title alone: of two scanned applications with
  one title and two commands both are kept and listed, and no request ever launches the second.
\<close>

theorem shadowed_application_never_launched:
  assumes "webserver.applications server = before @ a # between @ b # after" and "b \<notin> set (before @ [a])"
    and "\<And>x y. title x = title y \<Longrightarrow> web_env.app_id we x = web_env.app_id we y" and "title a = title b"
    and "launch_context we server params = Inr ctx"
  shows "application ctx \<noteq> b \<and>
    (join_with [CHR 0x1F] (command a) \<noteq> join_with [CHR 0x1F] (command b) \<longrightarrow> first_occurrences [a, b] = [a, b])"
proof
  obtain i where find: "find (\<lambda>x. web_env.app_id we x = i) (before @ a # between @ b # after) = Some (application ctx)"
    using launch_context_application [OF assms(5)] assms(1) by auto
  show "application ctx \<noteq> b"
  proof
    assume eq: "application ctx = b"
    have "b \<in> set (before @ [a])"
      by (rule find_first [OF find [unfolded eq]]) (use assms(3) [OF assms(4)] in simp)
    with assms(2) show False by blast
  qed
  show "join_with [CHR 0x1F] (command a) \<noteq> join_with [CHR 0x1F] (command b) \<longrightarrow> first_occurrences [a, b] = [a, b]"
    by (auto simp: first_occurrences_keep_first dedupe_key_def)
qed

text \<open>
  A key of the wrong length. The launch request's key may have any length; no component before the control
  loop looks at it, and there the first encrypted message of the client ends the control thread with a panic.
\<close>

theorem launched_key_length_unchecked:
  assumes "launch_context we server params = Inr ctx"
  shows "\<exists>data. key_params we params = Inr data \<and> keys ctx = Keys data \<and>
    (length (remote_input_key data) \<noteq> 16 \<and> te_decrypt_key env = remote_input_key data \<and>
       control_from_bytes packet = Inr (Encrypted e) \<longrightarrow>
     receive_packet gcm_dec hdr timeout env packet st = Inl Panic)"
proof -
  obtain data where d: "key_params we params = Inr data" "keys ctx = Keys data"
    using launched_keys_requested [OF assms] by blast
  have "receive_packet gcm_dec hdr timeout env packet st = Inl Panic"
    if "length (remote_input_key data) \<noteq> 16" "te_decrypt_key env = remote_input_key data"
      "control_from_bytes packet = Inr (Encrypted e)"
  proof -
    have "open_encrypted gcm_dec (te_decrypt_key env) e = Inl Panic"
      using that(1,2) by (simp add: open_encrypted_Panic)
    with that(3) show ?thesis by (simp add: receive_packet_def open_message_def)
  qed
  with d show ?thesis by blast
qed

text \<open>
  A packet size of at most 16 bytes. ANNOUNCE accepts every packet size a client offers and hands it to the video
  stream as it is; with 16 bytes or fewer there is no room behind the packet header, and the first frame panics
  in the packetizer.
\<close>

theorem announced_packet_size_unchecked:
  assumes "of_packet_size cl \<le> 16" and "1000 * of_kbps cl < 2 ^ 64"
  shows "\<exists>ctx. announce_video server (offer_sdp cl) = Inr ctx \<and>
    fst (packetize rs_new rs_encode gcm_enc session_data frame key_frame (packet_size ctx) min_fec pct nr ts latency p seq) = Inl Panic"
proof -
  have "announce_video server (offer_sdp cl) = Inr (offer_video server cl)"
    using assms by (intro announce_video_offer) simp_all
  moreover have "packet_size (offer_video server cl) \<le> NV_VIDEO_PACKET_SIZE"
    using assms(1) by (simp add: offer_video_def packet_sizes)
  ultimately show ?thesis using packetize_panics by blast
qed

section \<open>Concrete inputs\<close>

definition quiet_app :: application_config where
  "quiet_app = application_config_default\<lparr>command := [''quiet'']\<rparr>"

lemma shadowed_application_never_launched_witness:
  "application sample_launch_context \<noteq> quiet_app"
proof -
  let ?server = "sample_webserver\<lparr>applications := [application_config_default, quiet_app]\<rparr>"
  have "launch_context sample_web_env ?server sample_launch_params = Inr sample_launch_context"
    by (simp add: launch_context_def sample_launch_params_def sample_web_env_def sample_webserver_def sample_numbers
        mode_params_def key_params_def hex_param_def optional_u32_def unwrap_or_def session_keys_new_def
        audio_channels_from_def sample_launch_context_def)
  then show ?thesis
    using shadowed_application_never_launched [of ?server "[]" application_config_default "[]" quiet_app "[]" sample_web_env
        sample_launch_params sample_launch_context]
    by (simp add: quiet_app_def application_config_default_def sample_web_env_def)
qed

lemma launched_key_length_unchecked_witness:
  "\<exists>data. key_params sample_web_env sample_launch_params = Inr data \<and> keys sample_launch_context = Keys data"
  using launched_key_length_unchecked [OF sample_launch_context] by blast

lemma announced_packet_size_unchecked_witness:
  "\<exists>ctx. announce_video sample_server (offer_sdp (sample_offer\<lparr>of_packet_size := 16\<rparr>)) = Inr ctx \<and>
    fst (packetize copy_rs_new copy_rs_encode plain_gcm sample_keys [1, 2, 3] True (packet_size ctx) 2 20 1 0 0
      (packetizer_new True) 9) = Inl Panic"
  by (rule announced_packet_size_unchecked) (simp_all add: sample_offer_def)

end
